(* ===== verification/JsValue.thy ===== *)
theory JsValue
  imports Prelude
begin

text \<open>
  JavaScript values as the request handlers see them: \<open>jsval\<close> is the type of an \<open>unknown\<close> or
  \<open>any\<close>, \<open>jget\<close> is property access, \<open>to_number\<close>, \<open>to_str\<close> and \<open>truthy\<close> are the language's
  conversions \<open>Number(x)\<close>, \<open>String(x)\<close> and the boolean context. The error monads at the end
  give a \<open>throw\<close> its meaning: a result of type \<open>api_error + 'a\<close>, and for handlers that run in
  a transaction a function from the state to such a result, whose error branch keeps no state
  (the caller rolls back).
\<close>

section \<open>Numbers\<close>

datatype jnum = NaN | PosInf | NegInf | Fin rat

fun is_finite :: "jnum \<Rightarrow> bool" where
  "is_finite (Fin _) = True"
| "is_finite _ = False"

fun is_integer :: "jnum \<Rightarrow> bool" where
  "is_integer (Fin r) = (of_int \<lfloor>r\<rfloor> = r)"
| "is_integer _ = False"

fun jneg :: "jnum \<Rightarrow> jnum" where
  "jneg NaN = NaN"
| "jneg PosInf = NegInf"
| "jneg NegInf = PosInf"
| "jneg (Fin r) = Fin (- r)"

text \<open>\<open>Math.floor\<close> and \<open>Math.trunc\<close>, which leave the non-finite numbers alone.\<close>

fun jfloor :: "jnum \<Rightarrow> jnum" where
  "jfloor (Fin r) = Fin (of_int \<lfloor>r\<rfloor>)"
| "jfloor n = n"

definition trunc_rat :: "rat \<Rightarrow> int" where
  "trunc_rat r = (if 0 \<le> r then \<lfloor>r\<rfloor> else \<lceil>r\<rceil>)"

fun jtrunc :: "jnum \<Rightarrow> jnum" where
  "jtrunc (Fin r) = Fin (of_int (trunc_rat r))"
| "jtrunc n = n"

text \<open>\<open>Math.round\<close> rounds halves up.\<close>

definition round_half_up :: "rat \<Rightarrow> int" where
  "round_half_up r = \<lfloor>r + 1 / 2\<rfloor>"

section \<open>Parsing a numeric string\<close>

definition exponent_value :: "string \<Rightarrow> int option" where
  "exponent_value s =
     (let (neg, ds) = (case s of CHR ''-'' # r \<Rightarrow> (True, r) | CHR ''+'' # r \<Rightarrow> (False, r) | _ \<Rightarrow> (False, s))
      in if ds \<noteq> [] \<and> list_all is_digit ds
         then Some (if neg then - int (digits_val ds) else int (digits_val ds)) else None)"

definition scale10 :: "rat \<Rightarrow> int \<Rightarrow> rat" where
  "scale10 r e = (if 0 \<le> e then r * 10 ^ nat e else r / 10 ^ nat (- e))"

text \<open>\<open>StrUnsignedDecimalLiteral\<close> of the language.\<close>

definition parse_unsigned :: "string \<Rightarrow> jnum" where
  "parse_unsigned s =
     (if s = ''Infinity'' then PosInf
      else let ip = takeWhile is_digit s; r1 = dropWhile is_digit s;
               (fp, r2) = (case r1 of CHR ''.'' # r \<Rightarrow> (takeWhile is_digit r, dropWhile is_digit r)
                                     | _ \<Rightarrow> ([], r1));
               m = scale10 (of_nat (digits_val (ip @ fp))) (- int (length fp))
           in if ip = [] \<and> fp = [] then NaN
              else case r2 of [] \<Rightarrow> Fin m
                   | c # r \<Rightarrow> if c = CHR ''e'' \<or> c = CHR ''E''
                       then (case exponent_value r of None \<Rightarrow> NaN | Some e \<Rightarrow> Fin (scale10 m e))
                       else NaN)"

definition radix_digit :: "char \<Rightarrow> nat option" where
  "radix_digit c =
     (let l = lower_char c in
      if is_digit l then Some (digit_val l)
      else if is_lower l then Some (of_char l - 87) else None)"

fun parse_radix :: "nat \<Rightarrow> nat \<Rightarrow> string \<Rightarrow> jnum" where
  "parse_radix b acc [] = Fin (of_nat acc)"
| "parse_radix b acc (c # cs) =
     (case radix_digit c of
        None \<Rightarrow> NaN
      | Some d \<Rightarrow> if d < b then parse_radix b (b * acc + d) cs else NaN)"

definition string_to_number :: "string \<Rightarrow> jnum" where
  "string_to_number s0 =
     (let s = trim s0 in
      case s of [] \<Rightarrow> Fin 0
      | CHR ''-'' # r \<Rightarrow> jneg (parse_unsigned r)
      | CHR ''+'' # r \<Rightarrow> parse_unsigned r
      | CHR ''0'' # x # c # r \<Rightarrow>
          (if lower_char x = CHR ''x'' then parse_radix 16 0 (c # r)
           else if lower_char x = CHR ''o'' then parse_radix 8 0 (c # r)
           else if lower_char x = CHR ''b'' then parse_radix 2 0 (c # r)
           else parse_unsigned s)
      | _ \<Rightarrow> parse_unsigned s)"

section \<open>Printing a number\<close>

definition int_str :: "int \<Rightarrow> string" where
  "int_str i = (if i < 0 then CHR ''-'' # nat_str (nat (- i)) else nat_str (nat i))"

fun frac_digits :: "nat \<Rightarrow> rat \<Rightarrow> string" where
  "frac_digits 0 r = []"
| "frac_digits (Suc n) r =
     (if r = 0 then []
      else digit_char (nat \<lfloor>10 * r\<rfloor>) # frac_digits n (10 * r - of_int \<lfloor>10 * r\<rfloor>))"

text \<open>
  \<open>String(n)\<close> of a number whose decimal expansion has at most 15 fractional digits and whose
  magnitude is printed without an exponent; longer expansions are cut at 15 digits.
\<close>

fun num_str :: "jnum \<Rightarrow> string" where
  "num_str NaN = ''NaN''"
| "num_str PosInf = ''Infinity''"
| "num_str NegInf = ''-Infinity''"
| "num_str (Fin r) =
     (let a = \<bar>r\<bar>; i = \<lfloor>a\<rfloor>; f = frac_digits 15 (a - of_int i)
      in (if r < 0 then ''-'' else []) @ int_str i @ (if f = [] then [] else CHR ''.'' # f))"

section \<open>Values\<close>

datatype jsval =
    JUndef
  | JNull
  | JBool bool
  | JNum jnum
  | JStr string
  | JArr "jsval list"
  | JObj "(string \<times> jsval) list"

text \<open>\<open>x?.k\<close>: a missing property, and any property of \<open>undefined\<close> and \<open>null\<close>, is \<open>undefined\<close>.\<close>

fun jget :: "jsval \<Rightarrow> string \<Rightarrow> jsval" where
  "jget (JObj fs) k = (case map_of fs k of None \<Rightarrow> JUndef | Some v \<Rightarrow> v)"
| "jget _ k = JUndef"

fun has_own :: "jsval \<Rightarrow> string \<Rightarrow> bool" where
  "has_own (JObj fs) k = (map_of fs k \<noteq> None)"
| "has_own _ k = False"

text \<open>\<open>x ?? y\<close>, \<open>x || y\<close> and the boolean context.\<close>

fun nullish :: "jsval \<Rightarrow> jsval \<Rightarrow> jsval" where
  "nullish JUndef y = y"
| "nullish JNull y = y"
| "nullish x y = x"

fun truthy :: "jsval \<Rightarrow> bool" where
  "truthy JUndef = False"
| "truthy JNull = False"
| "truthy (JBool b) = b"
| "truthy (JNum n) = (n \<noteq> NaN \<and> n \<noteq> Fin 0)"
| "truthy (JStr s) = (s \<noteq> [])"
| "truthy (JArr _) = True"
| "truthy (JObj _) = True"

definition js_or :: "jsval \<Rightarrow> jsval \<Rightarrow> jsval" where
  "js_or x y = (if truthy x then x else y)"

fun is_array :: "jsval \<Rightarrow> bool" where
  "is_array (JArr _) = True"
| "is_array _ = False"

text \<open>\<open>Array.isArray(x) ? x : []\<close>\<close>

fun arr_or_empty :: "jsval \<Rightarrow> jsval list" where
  "arr_or_empty (JArr xs) = xs"
| "arr_or_empty _ = []"

fun to_str :: "jsval \<Rightarrow> string" where
  "to_str JUndef = ''undefined''"
| "to_str JNull = ''null''"
| "to_str (JBool b) = (if b then ''true'' else ''false'')"
| "to_str (JNum n) = num_str n"
| "to_str (JStr s) = s"
| "to_str (JArr xs) =
     join '','' (map (\<lambda>x. if x = JUndef \<or> x = JNull then [] else to_str x) xs)"
| "to_str (JObj _) = ''[object Object]''"

fun to_number :: "jsval \<Rightarrow> jnum" where
  "to_number JUndef = NaN"
| "to_number JNull = Fin 0"
| "to_number (JBool b) = Fin (if b then 1 else 0)"
| "to_number (JNum n) = n"
| "to_number (JStr s) = string_to_number s"
| "to_number (JArr xs) = string_to_number (to_str (JArr xs))"
| "to_number (JObj _) = NaN"

text \<open>\<open>typeof x === 'string'\<close> with its value, and \<open>String(x ?? '')\<close>, \<open>String(x || '')\<close>.\<close>

fun str_val :: "jsval \<Rightarrow> string option" where
  "str_val (JStr s) = Some s"
| "str_val _ = None"

definition str_nullish :: "jsval \<Rightarrow> string" where
  "str_nullish v = to_str (nullish v (JStr []))"

definition str_or :: "jsval \<Rightarrow> string" where
  "str_or v = to_str (js_or v (JStr []))"

lemma str_nullish_simps [simp]:
  "str_nullish (JStr s) = s" "str_nullish JUndef = []" "str_nullish JNull = []"
  by (simp_all add: str_nullish_def)

lemma str_or_simps [simp]:
  "str_or (JStr s) = s" "str_or JUndef = []" "str_or JNull = []"
  by (simp_all add: str_or_def js_or_def)

text \<open>The values of a nullable text column.\<close>

fun is_text :: "jsval \<Rightarrow> bool" where
  "is_text (JStr s) = True"
| "is_text JNull = True"
| "is_text JUndef = True"
| "is_text _ = False"

lemma is_text_or: "is_text v \<Longrightarrow> str_or v = str_nullish v"
  by (cases v) simp_all

fun opt_str :: "string option \<Rightarrow> jsval" where
  "opt_str None = JNull"
| "opt_str (Some s) = JStr s"

text \<open>\<open>text || null\<close>: the empty string becomes null.\<close>

definition or_null :: "string \<Rightarrow> string option" where
  "or_null s = (if s = [] then None else Some s)"

lemma or_null_simps [simp]:
  "or_null [] = None" "s \<noteq> [] \<Longrightarrow> or_null s = Some s" "or_null s = None \<longleftrightarrow> s = []"
  by (simp_all add: or_null_def)

section \<open>Errors\<close>

text \<open>\<open>ApiError\<close>: an HTTP status and the operator-readable message.\<close>

datatype api_error = ApiError (status_of: nat) (message_of: string)

type_synonym 'a res = "api_error + 'a"
type_synonym ('s, 'a) tx = "'s \<Rightarrow> api_error + ('a \<times> 's)"

definition throw :: "nat \<Rightarrow> string \<Rightarrow> 'a res" where
  "throw st msg = Inl (ApiError st msg)"

definition rbind :: "'a res \<Rightarrow> ('a \<Rightarrow> 'b res) \<Rightarrow> 'b res" where
  "rbind m f = (case m of Inl e \<Rightarrow> Inl e | Inr x \<Rightarrow> f x)"

fun rmap :: "('a \<Rightarrow> 'b res) \<Rightarrow> 'a list \<Rightarrow> 'b list res" where
  "rmap f [] = Inr []"
| "rmap f (x # xs) = rbind (f x) (\<lambda>y. rbind (rmap f xs) (\<lambda>ys. Inr (y # ys)))"

definition guard :: "bool \<Rightarrow> nat \<Rightarrow> string \<Rightarrow> unit res" where
  "guard b st msg = (if b then Inr () else throw st msg)"

lemma rbind_simps [simp]: "rbind (Inl e) f = Inl e" "rbind (Inr x) f = f x"
  by (simp_all add: rbind_def)

lemma throw_neq [simp]: "throw st msg \<noteq> Inr x" "Inr x \<noteq> throw st msg"
  by (simp_all add: throw_def)

lemma rbind_throw [simp]: "rbind (throw st msg) f = throw st msg"
  by (simp add: throw_def)

lemma rbind_eq_Inr: "rbind m f = Inr y \<longleftrightarrow> (\<exists>x. m = Inr x \<and> f x = Inr y)"
  by (cases m) auto

lemma guard_eq_Inr [simp]: "guard b st msg = Inr u \<longleftrightarrow> b"
  by (simp add: guard_def)

lemma guard_simps [simp]: "guard True st msg = Inr ()" "guard False st msg = throw st msg"
  by (simp_all add: guard_def)

lemma rmap_eq_Inr: "rmap f xs = Inr ys \<longleftrightarrow> list_all2 (\<lambda>x y. f x = Inr y) xs ys"
proof (induction xs arbitrary: ys)
  case Nil
  then show ?case by auto
next
  case (Cons x xs)
  then show ?case by (cases ys) (auto simp: rbind_eq_Inr)
qed

text \<open>The transaction monad.\<close>

definition treturn :: "'a \<Rightarrow> ('s, 'a) tx" where
  "treturn x = (\<lambda>s. Inr (x, s))"

definition tthrow :: "nat \<Rightarrow> string \<Rightarrow> ('s, 'a) tx" where
  "tthrow st msg = (\<lambda>s. Inl (ApiError st msg))"

definition tbind :: "('s, 'a) tx \<Rightarrow> ('a \<Rightarrow> ('s, 'b) tx) \<Rightarrow> ('s, 'b) tx" where
  "tbind m f = (\<lambda>s. case m s of Inl e \<Rightarrow> Inl e | Inr (x, s') \<Rightarrow> f x s')"

definition tlift :: "'a res \<Rightarrow> ('s, 'a) tx" where
  "tlift r = (\<lambda>s. case r of Inl e \<Rightarrow> Inl e | Inr x \<Rightarrow> Inr (x, s))"

definition tguard :: "bool \<Rightarrow> nat \<Rightarrow> string \<Rightarrow> ('s, unit) tx" where
  "tguard b st msg = (if b then treturn () else tthrow st msg)"

definition tquery :: "('s \<Rightarrow> 'a) \<Rightarrow> ('s, 'a) tx" where
  "tquery q = (\<lambda>s. Inr (q s, s))"

definition texec :: "('s \<Rightarrow> 's) \<Rightarrow> ('s, unit) tx" where
  "texec u = (\<lambda>s. Inr ((), u s))"

fun tfor :: "('a \<Rightarrow> ('s, unit) tx) \<Rightarrow> 'a list \<Rightarrow> ('s, unit) tx" where
  "tfor f [] = treturn ()"
| "tfor f (x # xs) = tbind (f x) (\<lambda>_. tfor f xs)"

lemma treturn_eq [simp]: "treturn x s = Inr (y, s') \<longleftrightarrow> x = y \<and> s = s'"
  by (auto simp: treturn_def)

lemma tthrow_eq [simp]: "tthrow st msg s \<noteq> Inr r"
  by (simp add: tthrow_def)

lemma tbind_eq [simp]:
  "tbind m f s = Inr (y, s') \<longleftrightarrow> (\<exists>x s1. m s = Inr (x, s1) \<and> f x s1 = Inr (y, s'))"
  by (auto simp: tbind_def split: sum.splits)

lemma tlift_eq [simp]: "tlift r s = Inr (x, s') \<longleftrightarrow> r = Inr x \<and> s' = s"
  by (auto simp: tlift_def split: sum.splits)

lemma tguard_eq [simp]: "tguard b st msg s = Inr (u, s') \<longleftrightarrow> b \<and> s' = s"
  by (auto simp: tguard_def)

lemma tquery_eq [simp]: "tquery q s = Inr (x, s') \<longleftrightarrow> x = q s \<and> s' = s"
  by (auto simp: tquery_def)

lemma texec_eq [simp]: "texec u s = Inr (x, s') \<longleftrightarrow> s' = u s"
  by (auto simp: texec_def)

text \<open>An invariant kept by the body of a loop is kept by the loop.\<close>

lemma tfor_invariant:
  assumes "tfor f xs s = Inr (u, s')" and "I s"
    and "\<And>x s u s'. x \<in> set xs \<Longrightarrow> f x s = Inr (u, s') \<Longrightarrow> I s \<Longrightarrow> I s'"
  shows "I s'"
  using assms
proof (induction xs arbitrary: s)
  case Nil
  then show ?case by simp
next
  case (Cons x xs)
  then show ?case by fastforce
qed

lemmas tx_run = tbind_def treturn_def tthrow_def tlift_def tguard_def tquery_def texec_def

end
