(* ===== verification/SerialIdentity.thy ===== *)
theory SerialIdentity
  imports JsValue
begin

text \<open>
  Identity of a physical device. \<open>shared/macAddress.ts\<close> canonicalises MAC addresses;
  \<open>serialGateKey\<close>, \<open>serialKey\<close>, \<open>returnSerialKey\<close> and \<open>normalizeSerial\<close> are the
  comparison keys of the serial services. The locale \<open>serial_key\<close> states what a key promises
  (normalising a value first never changes its key), its interpretations discharge the promise
  for the four keys of the code, and the lemmas after it show that the four keys induce one and
  the same notion of ``same device''.
\<close>

section \<open>MAC addresses\<close>

definition is_hex :: "char \<Rightarrow> bool" where
  "is_hex c \<longleftrightarrow> is_digit c \<or> (let l = lower_char c in (97::nat) \<le> of_char l \<and> of_char l \<le> (102::nat))"

fun pairs2 :: "string \<Rightarrow> string list" where
  "pairs2 (a # b # r) = [a, b] # pairs2 r"
| "pairs2 _ = []"

definition normalizeMacAddress :: "jsval \<Rightarrow> string" where
  "normalizeMacAddress v =
     (let raw = trim (str_nullish v); hex = filter is_hex raw
      in if raw = [] then []
         else if length hex \<noteq> 12 then raw
         else join '':'' (pairs2 (to_upper hex)))"

definition macKey :: "jsval \<Rightarrow> string" where
  "macKey v =
     (let raw = trim (str_nullish v); hex = filter is_hex raw
      in if raw = [] then []
         else if length hex = 12 then to_upper hex else to_upper raw)"

definition isMacAddress :: "jsval \<Rightarrow> bool" where
  "isMacAddress v \<longleftrightarrow> length (filter is_hex (trim (str_nullish v))) = 12"

lemma is_hex_upper [simp]: "is_hex (upper_char c) = is_hex c"
  by (auto simp: is_hex_def is_digit_def lower_char_def upper_char_def is_upper_def is_lower_def Let_def)

lemma not_hex_colon [simp]: "\<not> is_hex (CHR '':'')"
  by (simp add: is_hex_def is_digit_def lower_char_def is_upper_def)

lemma filter_hex_to_upper: "filter is_hex (to_upper s) = to_upper (filter is_hex s)"
  by (simp add: to_upper_def filter_map comp_def)

lemma is_hex_not_space: "is_hex c \<Longrightarrow> \<not> is_space c"
  by (auto simp: is_hex_def is_digit_def is_space_def lower_char_def is_upper_def Let_def
      split: if_splits)

lemma filter_hex_join_pairs:
  "even (length s) \<Longrightarrow> list_all is_hex s \<Longrightarrow> filter is_hex (join '':'' (pairs2 s)) = s"
proof (induction s rule: pairs2.induct)
  case (1 a b r)
  then show ?case by (cases "pairs2 r") auto
qed auto

lemma set_join_pairs:
  "c \<in> set (join '':'' (pairs2 s)) \<Longrightarrow> c \<in> set s \<or> c = CHR '':''"
proof (induction s rule: pairs2.induct)
  case (1 a b r)
  then show ?case by (cases "pairs2 r") auto
qed auto

lemma trim_no_space: "\<forall>c \<in> set s. \<not> is_space c \<Longrightarrow> trim s = s"
proof -
  have *: "\<forall>c \<in> set t. \<not> is_space c \<Longrightarrow> dropWhile is_space t = t" for t
    by (cases t) auto
  assume "\<forall>c \<in> set s. \<not> is_space c"
  then show ?thesis by (simp add: trim_def *)
qed

lemma canonical_mac:
  assumes "length hex = 12" and "list_all is_hex hex"
  defines "m \<equiv> join '':'' (pairs2 (to_upper hex))"
  shows "trim m = m" and "filter is_hex m = to_upper hex" and "m \<noteq> []"
proof -
  have hex: "list_all is_hex (to_upper hex)"
    using assms(2) by (simp add: to_upper_def list_all_iff)
  moreover have len: "length (to_upper hex) = 12" using assms(1) by (simp add: to_upper_def)
  ultimately show f: "filter is_hex m = to_upper hex"
    unfolding m_def by (intro filter_hex_join_pairs) simp_all
  have "\<forall>c \<in> set m. \<not> is_space c"
  proof
    fix c assume "c \<in> set m"
    then consider "c \<in> set (to_upper hex)" | "c = CHR '':''"
      unfolding m_def by (auto dest: set_join_pairs)
    then show "\<not> is_space c"
    proof cases
      case 1
      with hex have "is_hex c" by (simp add: list_all_iff)
      then show ?thesis by (rule is_hex_not_space)
    next
      case 2
      then show ?thesis by (simp add: is_space_def)
    qed
  qed
  then show "trim m = m" by (rule trim_no_space)
  show "m \<noteq> []" using f len by auto
qed

lemma normalizeMacAddress_cases:
  obtains (empty) "trim (str_nullish v) = []" "normalizeMacAddress v = []" "macKey v = []"
  | (mac) hex where "hex = filter is_hex (trim (str_nullish v))" "length hex = 12"
      "normalizeMacAddress v = join '':'' (pairs2 (to_upper hex))" "macKey v = to_upper hex"
  | (other) "trim (str_nullish v) \<noteq> []" "length (filter is_hex (trim (str_nullish v))) \<noteq> 12"
      "normalizeMacAddress v = trim (str_nullish v)" "macKey v = to_upper (trim (str_nullish v))"
  by (cases "trim (str_nullish v) = []"; cases "length (filter is_hex (trim (str_nullish v))) = 12")
     (auto simp: normalizeMacAddress_def macKey_def Let_def)

lemma list_all_filter [simp]: "list_all P (filter P xs)"
  by (simp add: list_all_iff)

lemma canonical_mac_fixed:
  assumes "length hex = 12" and "list_all is_hex hex"
  shows "normalizeMacAddress (JStr (join '':'' (pairs2 (to_upper hex)))) = join '':'' (pairs2 (to_upper hex))"
    and "macKey (JStr (join '':'' (pairs2 (to_upper hex)))) = to_upper hex"
  using canonical_mac [OF assms] assms(1)
  by (simp_all add: normalizeMacAddress_def macKey_def Let_def to_upper_def comp_def)

lemma normalizeMacAddress_idem:
  "normalizeMacAddress (JStr (normalizeMacAddress v)) = normalizeMacAddress v"
proof (cases v rule: normalizeMacAddress_cases)
  case (mac hex)
  have "list_all is_hex hex" by (simp add: mac(1))
  with mac(2) show ?thesis by (simp only: mac(3) canonical_mac_fixed(1))
qed (simp_all add: normalizeMacAddress_def Let_def)

lemma macKey_normalizeMacAddress: "macKey (JStr (normalizeMacAddress v)) = macKey v"
proof (cases v rule: normalizeMacAddress_cases)
  case (mac hex)
  have "list_all is_hex hex" by (simp add: mac(1))
  with mac(2) show ?thesis by (simp only: mac(3,4) canonical_mac_fixed(2))
qed (simp_all add: macKey_def Let_def)

lemma macKey_idem: "macKey (JStr (macKey v)) = macKey v"
proof (cases v rule: normalizeMacAddress_cases)
  case (mac hex)
  have hx: "list_all is_hex hex" by (simp add: mac(1))
  then have "\<forall>c \<in> set (to_upper hex). \<not> is_space c"
    by (auto simp: to_upper_def is_hex_not_space list_all_iff)
  then have "trim (to_upper hex) = to_upper hex" by (rule trim_no_space)
  moreover have "filter is_hex (to_upper hex) = to_upper hex"
    using hx by (simp add: filter_hex_to_upper list_all_iff)
  moreover have "length (to_upper hex) = 12" using mac(2) by (simp add: to_upper_def)
  ultimately have "macKey (JStr (to_upper hex)) = to_upper hex"
    by (auto simp: macKey_def Let_def)
  then show ?thesis by (simp only: mac(4))
next
  case other
  define r where "r = trim (str_nullish v)"
  have "length (filter is_hex (to_upper r)) = length (filter is_hex r)"
    by (simp only: filter_hex_to_upper) (simp add: to_upper_def)
  with other have "macKey (JStr (to_upper r)) = to_upper r"
    by (simp add: macKey_def trim_to_upper r_def)
  then show ?thesis by (simp only: other(4) r_def)
qed (simp add: macKey_def)

lemma isMacAddress_normalize:
  "isMacAddress v \<Longrightarrow> length (normalizeMacAddress v) = 17"
proof (cases v rule: normalizeMacAddress_cases)
  case (mac hex)
  obtain a b c d e f g h i j k l where "hex = [a,b,c,d,e,f,g,h,i,j,k,l]"
    using mac(2) by (auto simp: length_Suc_conv numeral_eq_Suc)
  with mac(3) show ?thesis by (simp add: to_upper_def)
qed (simp_all add: isMacAddress_def)

section \<open>Comparison keys\<close>

definition serialGateKey :: "jsval \<Rightarrow> string" where
  "serialGateKey v = to_lower (trim (str_nullish v))"

definition serialKey :: "jsval \<Rightarrow> string" where
  "serialKey v = to_upper (trim (str_nullish v))"

definition returnSerialKey :: "jsval \<Rightarrow> string" where
  "returnSerialKey v = to_upper (trim (str_nullish v))"

definition normalizeSerial :: "jsval \<Rightarrow> string" where
  "normalizeSerial v = to_upper (trim (str_or v))"

text \<open>What every key of the code promises its users.\<close>

locale serial_key =
  fixes key :: "jsval \<Rightarrow> string"
  assumes key_trim: "key (JStr (trim s)) = key (JStr s)"
    and key_idem: "key (JStr (key v)) = key v"
    and key_blank: "key (JStr s) = [] \<longleftrightarrow> trim s = []"
begin

definition same_device :: "jsval \<Rightarrow> jsval \<Rightarrow> bool" where
  "same_device a b \<longleftrightarrow> key a = key b"

lemma same_device_equiv: "equivp same_device"
  by (intro equivpI reflpI sympI transpI) (simp_all add: same_device_def)

lemma same_device_key: "same_device (JStr (key v)) v"
  by (simp add: same_device_def key_idem)

text \<open>Storing trimmed serials keeps a register's keys, so it cannot merge two devices.\<close>

lemma distinct_keys_trim:
  "distinct (map (\<lambda>s. key (JStr (trim s))) ss) \<longleftrightarrow> distinct (map (\<lambda>s. key (JStr s)) ss)"
  by (simp add: key_trim)

end

interpretation gate_key: serial_key serialGateKey
  by unfold_locales (simp_all add: serialGateKey_def trim_to_lower)

interpretation register_key: serial_key serialKey
  by unfold_locales (simp_all add: serialKey_def trim_to_upper)

interpretation return_key: serial_key returnSerialKey
  by unfold_locales (simp_all add: returnSerialKey_def trim_to_upper)

interpretation identity_key: serial_key normalizeSerial
  by unfold_locales (simp_all add: normalizeSerial_def trim_to_upper)

lemma lower_upper_char: "lower_char a = lower_char b \<longleftrightarrow> upper_char a = upper_char b"
proof -
  have "lower_char (upper_char c) = lower_char c" "upper_char (lower_char c) = upper_char c" for c
    by (auto simp: lower_char_def upper_char_def is_upper_def is_lower_def)
  then show ?thesis by metis
qed

lemma lower_upper: "to_lower s = to_lower t \<longleftrightarrow> to_upper s = to_upper t"
  by (auto simp: to_lower_def to_upper_def list_eq_iff_nth_eq lower_upper_char)

text \<open>Every key of the code identifies the same devices.\<close>

lemma keys_agree:
  "serialKey a = serialKey b \<longleftrightarrow> serialGateKey a = serialGateKey b"
  "returnSerialKey a = returnSerialKey b \<longleftrightarrow> serialGateKey a = serialGateKey b"
  by (simp_all add: serialKey_def serialGateKey_def returnSerialKey_def lower_upper)

lemma serialGateKey_trim [simp]: "serialGateKey (JStr (trim s)) = serialGateKey (JStr s)"
  by (rule gate_key.key_trim)

lemma serialKey_trim [simp]: "serialKey (JStr (trim s)) = serialKey (JStr s)"
  by (rule register_key.key_trim)

section \<open>Which products carry serials\<close>

text \<open>The product fields the serial services read; a missing field is \<open>JUndef\<close>.\<close>

record serial_product =
  sp_id :: jsval
  sp_name :: jsval
  sp_requiresSerialTracking :: jsval
  sp_trackingType :: jsval

definition isSerialTracked :: "serial_product option \<Rightarrow> bool" where
  "isSerialTracked product =
     (case product of None \<Rightarrow> False
      | Some p \<Rightarrow> if str_or (sp_trackingType p) = ''QUANTITY_ONLY'' then False
                  else sp_requiresSerialTracking p \<noteq> JBool False)"

definition requiresPon :: "serial_product option \<Rightarrow> bool" where
  "requiresPon product =
     (str_or (case product of None \<Rightarrow> JUndef | Some p \<Rightarrow> sp_trackingType p) = ''SERIAL_MAC_PON'')"

text \<open>Strict equality \<open>===\<close>; distinct objects are never equal.\<close>

fun strict_eq :: "jsval \<Rightarrow> jsval \<Rightarrow> bool" where
  "strict_eq (JNum a) (JNum b) = (a = b \<and> a \<noteq> NaN)"
| "strict_eq (JArr _) _ = False"
| "strict_eq (JObj _) _ = False"
| "strict_eq a b = (a = b)"

text \<open>
  One entry of a line's \<open>deviceSerials\<close>: a bare string is a device serial, an object names the
  three identifiers.
\<close>

definition serial_field :: "jsval \<Rightarrow> string \<Rightarrow> string" where
  "serial_field s k =
     trim (case s of JStr t \<Rightarrow> (if k = ''deviceSerial'' then t else []) | _ \<Rightarrow> str_or (jget s k))"

lemma trim_serial_field [simp]: "trim (serial_field s k) = serial_field s k"
  by (simp add: serial_field_def)

text \<open>\<open>Math.abs(Number(q) || 0)\<close>\<close>

definition abs_qty :: "jsval \<Rightarrow> jnum" where
  "abs_qty v = (case to_number v of NaN \<Rightarrow> Fin 0 | Fin r \<Rightarrow> Fin \<bar>r\<bar> | _ \<Rightarrow> PosInf)"

definition item_product :: "serial_product list \<Rightarrow> jsval \<Rightarrow> serial_product option" where
  "item_product products item = List.find (\<lambda>p. strict_eq (sp_id p) (jget item ''productId'')) products"

definition item_name :: "serial_product option \<Rightarrow> jsval \<Rightarrow> string" where
  "item_name product item =
     to_str (js_or (jget item ''productName'')
            (js_or (case product of None \<Rightarrow> JUndef | Some p \<Rightarrow> sp_name p)
            (js_or (jget item ''productId'') (JStr ''Item''))))"

end
