(* ===== verification/SerialGate.thy ===== *)
theory SerialGate
  imports SerialIdentity
begin

text \<open>
  The serial gate (\<open>server/src/services/serialGate.service.ts\<close>): the plan of the units an
  operation draws, their hydration from the register, the rule that refuses a unit, and the two
  resolvers (transaction and in-memory mirror). The lemmas characterise the plan and the rule
  completely, and the locale \<open>gate_source\<close> shows that the decision depends only on the register
  row each unit's key resolves to; both resolvers interpret it.
\<close>

section \<open>Entries, rows, rules\<close>

record gate_entry =
  ge_deviceSerial :: string
  ge_ponSerial :: string
  ge_macAddress :: string
  ge_productId :: string
  ge_productName :: string

record gate_row =
  gr_deviceSerial :: jsval
  gr_ponSerial :: jsval
  gr_macAddress :: jsval
  gr_productId :: jsval
  gr_branchId :: jsval
  gr_status :: jsval

text \<open>Optional booleans of \<open>SerialGateRules\<close> are \<open>None\<close> when the caller leaves them out.\<close>

record gate_rules =
  ru_branchId :: string
  ru_branchLabel :: "string option"
  ru_matchProduct :: "bool option"
  ru_requirePon :: "bool option"
  ru_matchPonWhenProvided :: "bool option"
  ru_matchMac :: "bool option"
  ru_allowedStatuses :: "string list option"

datatype violation =
    DUPLICATE string
  | UNKNOWN string
  | WRONG_STATUS string string
  | WRONG_BRANCH string string
  | WRONG_PRODUCT string
  | PON_REQUIRED string
  | PON_MISMATCH string string
  | MAC_MISMATCH string string

definition SERIAL_GATE_CONSUMABLE_STATUSES :: "string list" where
  "SERIAL_GATE_CONSUMABLE_STATUSES = [''IN_STOCK'']"

abbreviation entry_key :: "gate_entry \<Rightarrow> string" where
  "entry_key e \<equiv> serialGateKey (JStr (ge_deviceSerial e))"

section \<open>Planning\<close>

text \<open>The unit identities a line names, blank device serials dropped.\<close>

definition line_pairs :: "jsval \<Rightarrow> (string \<times> string \<times> string) list" where
  "line_pairs item =
     filter (\<lambda>(d, p, m). d \<noteq> [])
       (map (\<lambda>s. (serial_field s ''deviceSerial'', serial_field s ''ponSerial'', serial_field s ''macAddress''))
         (arr_or_empty (jget item ''deviceSerials'')))"

fun push_pairs ::
  "jsval \<Rightarrow> string \<Rightarrow> (string \<times> string \<times> string) list \<Rightarrow> gate_entry list \<Rightarrow> string list \<Rightarrow>
   string + (gate_entry list \<times> string list)" where
  "push_pairs item name [] entries seen = Inr (entries, seen)"
| "push_pairs item name ((d, p, m) # ps) entries seen =
     (let key = serialGateKey (JStr d) in
      if key \<in> set seen then Inl (''Duplicate device serial '' @ d @ ''.'')
      else push_pairs item name ps
        (entries @ [\<lparr>ge_deviceSerial = d, ge_ponSerial = p,
                     ge_macAddress = normalizeMacAddress (JStr m),
                     ge_productId = str_or (jget item ''productId''), ge_productName = name\<rparr>])
        (key # seen))"

fun plan_items ::
  "serial_product list \<Rightarrow> jsval list \<Rightarrow> gate_entry list \<Rightarrow> string list \<Rightarrow> string + gate_entry list" where
  "plan_items products [] entries seen = Inr entries"
| "plan_items products (item # items) entries seen =
     (let product = item_product products item;
          pairs = line_pairs item;
          serialized = (if product \<noteq> None then isSerialTracked product else pairs \<noteq> []);
          name = item_name product item;
          qty = abs_qty (jget item ''quantity'')
      in if \<not> serialized \<and> pairs = [] then plan_items products items entries seen
         else if serialized \<and> Fin (of_nat (length pairs)) \<noteq> qty
         then Inl (name @ '' is serial-tracked: '' @ num_str qty @ '' device serial(s) required, ''
                   @ nat_str (length pairs) @ '' provided.'')
         else case push_pairs item name pairs entries seen of
                Inl err \<Rightarrow> Inl err
              | Inr (entries', seen') \<Rightarrow> plan_items products items entries' seen')"

definition planSerialGateEntries ::
  "jsval list \<Rightarrow> serial_product list \<Rightarrow> string + gate_entry list" where
  "planSerialGateEntries items products = plan_items products items [] []"

section \<open>Resolution\<close>

definition indexGateRows :: "gate_row list \<Rightarrow> string \<Rightarrow> gate_row option" where
  "indexGateRows rows = map_of (rev (map (\<lambda>r. (serialGateKey (gr_deviceSerial r), r)) rows))"

definition hydrate_entry :: "(string \<Rightarrow> gate_row option) \<Rightarrow> gate_entry \<Rightarrow> gate_entry" where
  "hydrate_entry rowsByKey e =
     (case rowsByKey (entry_key e) of
        None \<Rightarrow> e
      | Some row \<Rightarrow> e\<lparr>
          ge_ponSerial := (if ge_ponSerial e \<noteq> [] then ge_ponSerial e
                           else trim (str_nullish (gr_ponSerial row))),
          ge_macAddress := macKey (js_or (JStr (ge_macAddress e)) (gr_macAddress row))\<rparr>)"

definition hydrateSerialEntries ::
  "gate_entry list \<Rightarrow> (string \<Rightarrow> gate_row option) \<Rightarrow> gate_entry list" where
  "hydrateSerialEntries entries rowsByKey = map (hydrate_entry rowsByKey) entries"

definition allowed_statuses :: "gate_rules \<Rightarrow> string list" where
  "allowed_statuses rules =
     (case ru_allowedStatuses rules of None \<Rightarrow> SERIAL_GATE_CONSUMABLE_STATUSES | Some ss \<Rightarrow> ss)"

text \<open>The checks of one unit against its register row, in the code's order.\<close>

definition row_violation :: "gate_rules \<Rightarrow> gate_entry \<Rightarrow> gate_row \<Rightarrow> violation option" where
  "row_violation rules e row =
     (let status = str_or (gr_status row);
          branch = str_or (gr_branchId row);
          want_pon = ru_requirePon rules = Some True
      in if status \<notin> set (allowed_statuses rules) then Some (WRONG_STATUS (ge_deviceSerial e) status)
         else if ru_branchId rules \<noteq> [] \<and> branch \<noteq> ru_branchId rules
         then Some (WRONG_BRANCH (ge_deviceSerial e) branch)
         else if ru_matchProduct rules \<noteq> Some False \<and> truthy (gr_productId row)
                 \<and> to_str (gr_productId row) \<noteq> ge_productId e
         then Some (WRONG_PRODUCT (ge_deviceSerial e))
         else if want_pon \<and> ge_ponSerial e = [] then Some (PON_REQUIRED (ge_deviceSerial e))
         else if (want_pon \<or> ru_matchPonWhenProvided rules = Some True) \<and> ge_ponSerial e \<noteq> []
                 \<and> to_upper (trim (str_or (gr_ponSerial row))) \<noteq> to_upper (trim (ge_ponSerial e))
         then Some (PON_MISMATCH (ge_deviceSerial e) (ge_ponSerial e))
         else if ru_matchMac rules \<noteq> Some False \<and> ge_macAddress e \<noteq> []
                 \<and> macKey (gr_macAddress row) \<noteq> macKey (JStr (ge_macAddress e))
         then Some (MAC_MISMATCH (ge_deviceSerial e) (ge_macAddress e))
         else None)"

fun gate_violation ::
  "(string \<Rightarrow> gate_row option) \<Rightarrow> gate_rules \<Rightarrow> gate_entry list \<Rightarrow> string list \<Rightarrow> violation option" where
  "gate_violation rowsByKey rules [] seen = None"
| "gate_violation rowsByKey rules (e # es) seen =
     (let key = entry_key e in
      if key \<in> set seen then Some (DUPLICATE (ge_deviceSerial e))
      else case rowsByKey key of
             None \<Rightarrow> Some (UNKNOWN (ge_deviceSerial e))
           | Some row \<Rightarrow>
               (case row_violation rules e row of
                  Some v \<Rightarrow> Some v
                | None \<Rightarrow> gate_violation rowsByKey rules es (key # seen)))"

definition findGateViolation ::
  "gate_entry list \<Rightarrow> (string \<Rightarrow> gate_row option) \<Rightarrow> gate_rules \<Rightarrow> violation option" where
  "findGateViolation entries rowsByKey rules = gate_violation rowsByKey rules entries []"

fun violation_serial :: "violation \<Rightarrow> string" where
  "violation_serial (DUPLICATE d) = d"
| "violation_serial (UNKNOWN d) = d"
| "violation_serial (WRONG_STATUS d _) = d"
| "violation_serial (WRONG_BRANCH d _) = d"
| "violation_serial (WRONG_PRODUCT d) = d"
| "violation_serial (PON_REQUIRED d) = d"
| "violation_serial (PON_MISMATCH d _) = d"
| "violation_serial (MAC_MISMATCH d _) = d"

text \<open>Optional strings of the context; an em dash of the messages is written \<open>--\<close>.\<close>

definition describeGateViolation ::
  "violation \<Rightarrow> string \<Rightarrow> string option \<Rightarrow> string option \<Rightarrow> string" where
  "describeGateViolation v action branchLabel productName =
     (let lbl = (case branchLabel of None \<Rightarrow> [] | Some l \<Rightarrow> l);
          at_branch = (if lbl \<noteq> [] then '' at '' @ lbl else []);
          pn = (case productName of None \<Rightarrow> [] | Some p \<Rightarrow> p);
          for_product = (if pn \<noteq> [] \<and> pn \<noteq> ''Item'' then '' for \"'' @ pn @ ''\"'' else [])
      in case v of
        DUPLICATE d \<Rightarrow> ''Duplicate device serial '' @ d @ '' on this request.''
      | UNKNOWN d \<Rightarrow> ''Device serial '' @ d @ '' is not in the serial register'' @ at_branch @ for_product
          @ '' -- only IN_STOCK units can be '' @ action @ ''.''
      | WRONG_STATUS d st \<Rightarrow> ''Device serial '' @ d @ '' is '' @ st
          @ '' (not IN_STOCK) -- it cannot be '' @ action @ ''.''
      | WRONG_BRANCH d b \<Rightarrow> ''Device serial '' @ d @ '' is held at branch ''
          @ (if b = [] then ''unknown'' else b)
          @ (if lbl \<noteq> [] then '', not '' @ lbl else []) @ ''.''
      | WRONG_PRODUCT d \<Rightarrow> ''Device serial '' @ d @ '' belongs to a different product'' @ for_product @ ''.''
      | PON_REQUIRED d \<Rightarrow> ''PON serial is required for device serial '' @ d @ ''.''
      | PON_MISMATCH d p \<Rightarrow> ''PON serial '' @ p @ '' does not match the register for device serial '' @ d @ ''.''
      | MAC_MISMATCH d m \<Rightarrow> ''MAC address '' @ m @ '' does not match the register for device serial '' @ d @ ''.'')"

text \<open>
  The part the two resolvers share once the rows are indexed. \<open>productName\<close> is the caller's
  optional naming function.
\<close>

definition resolve_indexed ::
  "(string \<Rightarrow> gate_row option) \<Rightarrow> gate_entry list \<Rightarrow> gate_rules \<Rightarrow> string \<Rightarrow>
   (gate_entry \<Rightarrow> string) option \<Rightarrow> unit res" where
  "resolve_indexed rowsByKey entries rules action productName =
     (let hydrated = hydrateSerialEntries entries rowsByKey in
      case findGateViolation hydrated rowsByKey rules of
        None \<Rightarrow> Inr ()
      | Some v \<Rightarrow>
          (let entry = List.find (\<lambda>e. entry_key e = serialGateKey (JStr (violation_serial v))) hydrated
           in throw 400 (describeGateViolation v action (ru_branchLabel rules)
                (case entry of None \<Rightarrow> None
                 | Some e \<Rightarrow> Some (case productName of None \<Rightarrow> ge_productName e | Some f \<Rightarrow> f e)))))"

text \<open>PostgreSQL's \<open>trim\<close> strips the space character only.\<close>

definition pg_trim :: "string \<Rightarrow> string" where
  "pg_trim s = rev (dropWhile (\<lambda>c. c = CHR '' '') (rev (dropWhile (\<lambda>c. c = CHR '' '') s)))"

definition SERIAL_GATE_LOCK :: "gate_row list \<Rightarrow> string list \<Rightarrow> gate_row list" where
  "SERIAL_GATE_LOCK serial_log keys =
     filter (\<lambda>r. to_lower (pg_trim (str_nullish (gr_deviceSerial r))) \<in> set keys) serial_log"

definition resolveSerialGateInDb ::
  "gate_row list \<Rightarrow> gate_entry list \<Rightarrow> gate_rules \<Rightarrow> string \<Rightarrow> (gate_entry \<Rightarrow> string) option \<Rightarrow> unit res" where
  "resolveSerialGateInDb serial_log entries rules action productName =
     (if entries = [] then Inr ()
      else let keys = remdups (map entry_key entries);
               locked = SERIAL_GATE_LOCK serial_log keys
           in resolve_indexed (indexGateRows locked) entries rules action productName)"

definition resolveSerialGateInMemory ::
  "gate_row list \<Rightarrow> gate_entry list \<Rightarrow> gate_rules \<Rightarrow> string \<Rightarrow> (gate_entry \<Rightarrow> string) option \<Rightarrow> unit res" where
  "resolveSerialGateInMemory rows entries rules action productName =
     (if entries = [] then Inr ()
      else resolve_indexed (indexGateRows rows) entries rules action productName)"


section \<open>The plan\<close>

text \<open>
  The reference reading of a plan: every line that needs serials names exactly one per unit,
  the entries are the lines' entries in order, and no device is named twice.
\<close>

definition line_serialized :: "serial_product list \<Rightarrow> jsval \<Rightarrow> bool" where
  "line_serialized products item =
     (let product = item_product products item
      in if product \<noteq> None then isSerialTracked product else line_pairs item \<noteq> [])"

definition line_count_ok :: "serial_product list \<Rightarrow> jsval \<Rightarrow> bool" where
  "line_count_ok products item \<longleftrightarrow>
     (line_serialized products item \<longrightarrow>
        Fin (of_nat (length (line_pairs item))) = abs_qty (jget item ''quantity''))"

definition line_entries :: "serial_product list \<Rightarrow> jsval \<Rightarrow> gate_entry list" where
  "line_entries products item =
     map (\<lambda>(d, p, m). \<lparr>ge_deviceSerial = d, ge_ponSerial = p, ge_macAddress = normalizeMacAddress (JStr m),
                       ge_productId = str_or (jget item ''productId''),
                       ge_productName = item_name (item_product products item) item\<rparr>)
       (line_pairs item)"

definition plan_ok :: "serial_product list \<Rightarrow> jsval list \<Rightarrow> gate_entry list \<Rightarrow> bool" where
  "plan_ok products items es \<longleftrightarrow>
     (\<forall>item \<in> set items. line_count_ok products item) \<and>
     es = concat (map (line_entries products) items) \<and> distinct (map entry_key es)"

lemma push_pairs_spec:
  "push_pairs item name ps entries seen = Inr (entries', seen') \<longleftrightarrow>
     entries' = entries @ map (\<lambda>(d, p, m). \<lparr>ge_deviceSerial = d, ge_ponSerial = p,
        ge_macAddress = normalizeMacAddress (JStr m), ge_productId = str_or (jget item ''productId''),
        ge_productName = name\<rparr>) ps \<and>
     seen' = rev (map (\<lambda>(d, p, m). serialGateKey (JStr d)) ps) @ seen \<and>
     distinct (map (\<lambda>(d, p, m). serialGateKey (JStr d)) ps) \<and>
     set (map (\<lambda>(d, p, m). serialGateKey (JStr d)) ps) \<inter> set seen = {}"
proof (induction ps arbitrary: entries seen)
  case Nil
  then show ?case by auto
next
  case (Cons t ps)
  obtain d p m where t: "t = (d, p, m)" by (cases t)
  show ?case by (auto simp: t Let_def Cons.IH)
qed

lemma line_entries_keys:
  "map entry_key (line_entries products item) =
   map (\<lambda>(d, p, m). serialGateKey (JStr d)) (line_pairs item)"
  by (auto simp: line_entries_def)

lemma plan_items_spec:
  assumes "distinct (map entry_key entries)" and "set seen = set (map entry_key entries)"
  shows "plan_items products items entries seen = Inr es \<longleftrightarrow>
     (\<forall>item \<in> set items. line_count_ok products item) \<and>
     es = entries @ concat (map (line_entries products) items) \<and> distinct (map entry_key es)"
  using assms
proof (induction items arbitrary: entries seen)
  case Nil
  then show ?case by auto
next
  case (Cons item items)
  define product where "product = item_product products item"
  define name where "name = item_name product item"
  note defs = line_serialized_def line_count_ok_def Let_def product_def [symmetric]
  show ?case
  proof (cases "\<not> line_serialized products item \<and> line_pairs item = []")
    case True
    then have "line_entries products item = []" by (simp add: line_entries_def)
    with True Cons show ?thesis by (auto simp: defs)
  next
    case False
    note nonskip = False
    show ?thesis
    proof (cases "line_count_ok products item")
      case False
      with nonskip show ?thesis by (auto simp: defs)
    next
      case True
      let ?ks = "map (\<lambda>(d, p, m). serialGateKey (JStr d)) (line_pairs item)"
      let ?new = "line_entries products item"
      have new: "map (\<lambda>(d, p, m). \<lparr>ge_deviceSerial = d, ge_ponSerial = p,
          ge_macAddress = normalizeMacAddress (JStr m), ge_productId = str_or (jget item ''productId''),
          ge_productName = name\<rparr>) (line_pairs item) = ?new"
        by (simp add: line_entries_def name_def product_def)
      have run: "plan_items products (item # items) entries seen =
          (case push_pairs item name (line_pairs item) entries seen of
             Inl err \<Rightarrow> Inl err | Inr (entries', seen') \<Rightarrow> plan_items products items entries' seen')"
        using nonskip True by (auto simp: defs name_def)
      show ?thesis
      proof (cases "distinct ?ks \<and> set ?ks \<inter> set seen = {}")
        case fresh: True
        have "push_pairs item name (line_pairs item) entries seen = Inr (entries @ ?new, rev ?ks @ seen)"
          unfolding push_pairs_spec new using fresh by simp
        with run have "plan_items products (item # items) entries seen =
            plan_items products items (entries @ ?new) (rev ?ks @ seen)" by simp
        moreover have "distinct (map entry_key (entries @ ?new))"
          using fresh Cons.prems
          by (simp only: map_append distinct_append line_entries_keys) (simp only: Int_commute)
        moreover have "set (rev ?ks @ seen) = set (map entry_key (entries @ ?new))"
          using Cons.prems(2) by (simp only: map_append line_entries_keys set_append set_rev) auto
        ultimately show ?thesis using True by (simp only: Cons.IH) auto
      next
        case stale: False
        then obtain err where "push_pairs item name (line_pairs item) entries seen = Inl err"
          using push_pairs_spec [of item name "line_pairs item" entries seen]
          by (cases "push_pairs item name (line_pairs item) entries seen") (simp, metis old.prod.exhaust)
        with run have lhs: "plan_items products (item # items) entries seen = Inl err" by simp
        have "\<not> distinct (map entry_key (entries @ ?new @ rest))" for rest
          using stale Cons.prems(2)
          by (auto simp only: map_append line_entries_keys distinct_append set_append)
        then have "\<not> distinct (map entry_key (entries @ concat (map (line_entries products) (item # items))))"
          by (simp only: list.map concat.simps not_False_eq_True)
        with lhs show ?thesis by (metis sum.distinct(1))
      qed
    qed
  qed
qed

lemma planSerialGateEntries_spec:
  "planSerialGateEntries items products = Inr es \<longleftrightarrow> plan_ok products items es"
  using plan_items_spec [of "[]" "[]" products items es]
  by (simp add: planSerialGateEntries_def plan_ok_def)

lemma plan_entry_trimmed:
  "planSerialGateEntries items products = Inr es \<Longrightarrow> e \<in> set es \<Longrightarrow>
   ge_deviceSerial e \<noteq> [] \<and> trim (ge_deviceSerial e) = ge_deviceSerial e"
  by (auto simp: planSerialGateEntries_spec plan_ok_def line_entries_def line_pairs_def)

section \<open>The rule\<close>

lemma gate_violation_None:
  "gate_violation rows rules es seen = None \<longleftrightarrow>
     distinct (map entry_key es) \<and> set (map entry_key es) \<inter> set seen = {} \<and>
     (\<forall>e \<in> set es. \<exists>row. rows (entry_key e) = Some row \<and> row_violation rules e row = None)"
  by (induction es arbitrary: seen) (auto simp: Let_def split: option.splits)

lemma findGateViolation_None:
  "findGateViolation es rows rules = None \<longleftrightarrow>
     distinct (map entry_key es) \<and>
     (\<forall>e \<in> set es. \<exists>row. rows (entry_key e) = Some row \<and> row_violation rules e row = None)"
  by (simp add: findGateViolation_def gate_violation_None)

text \<open>What a row must satisfy for a unit to be drawn.\<close>

definition drawable :: "gate_rules \<Rightarrow> gate_entry \<Rightarrow> gate_row \<Rightarrow> bool" where
  "drawable rules e row \<longleftrightarrow>
     str_or (gr_status row) \<in> set (allowed_statuses rules) \<and>
     (ru_branchId rules = [] \<or> str_or (gr_branchId row) = ru_branchId rules) \<and>
     (ru_matchProduct rules = Some False \<or> \<not> truthy (gr_productId row)
        \<or> to_str (gr_productId row) = ge_productId e) \<and>
     (ru_requirePon rules = Some True \<longrightarrow> ge_ponSerial e \<noteq> []) \<and>
     (ru_requirePon rules = Some True \<or> ru_matchPonWhenProvided rules = Some True \<longrightarrow>
        ge_ponSerial e = [] \<or>
        to_upper (trim (str_or (gr_ponSerial row))) = to_upper (trim (ge_ponSerial e))) \<and>
     (ru_matchMac rules = Some False \<or> ge_macAddress e = [] \<or>
        macKey (gr_macAddress row) = macKey (JStr (ge_macAddress e)))"

lemma row_violation_None: "row_violation rules e row = None \<longleftrightarrow> drawable rules e row"
  by (auto simp: row_violation_def drawable_def Let_def)

lemma hydrate_entry_serial [simp]:
  "ge_deviceSerial (hydrate_entry rows e) = ge_deviceSerial e"
  "ge_productId (hydrate_entry rows e) = ge_productId e"
  by (auto simp: hydrate_entry_def split: option.splits)

lemma resolve_indexed_Inr:
  "resolve_indexed rows es rules action productName = Inr () \<longleftrightarrow>
     distinct (map entry_key es) \<and>
     (\<forall>e \<in> set es. \<exists>row. rows (entry_key e) = Some row \<and> drawable rules (hydrate_entry rows e) row)"
proof -
  have "resolve_indexed rows es rules action productName = Inr () \<longleftrightarrow>
      findGateViolation (hydrateSerialEntries es rows) rows rules = None"
    by (auto simp: resolve_indexed_def Let_def split: option.splits)
  then show ?thesis
    by (simp add: findGateViolation_None hydrateSerialEntries_def comp_def row_violation_None)
qed

text \<open>Only the rows of the entries' own keys matter.\<close>

lemma gate_violation_cong:
  "(\<And>e. e \<in> set es \<Longrightarrow> f (entry_key e) = g (entry_key e)) \<Longrightarrow>
   gate_violation f rules es seen = gate_violation g rules es seen"
  by (induction es arbitrary: seen) (auto simp: Let_def split: option.splits)

lemma resolve_indexed_cong:
  assumes "\<And>e. e \<in> set es \<Longrightarrow> f (entry_key e) = g (entry_key e)"
  shows "resolve_indexed f es rules action productName = resolve_indexed g es rules action productName"
proof -
  have h: "hydrateSerialEntries es f = hydrateSerialEntries es g"
    using assms by (auto simp: hydrateSerialEntries_def hydrate_entry_def)
  have "findGateViolation (hydrateSerialEntries es g) f rules =
      findGateViolation (hydrateSerialEntries es g) g rules"
    unfolding findGateViolation_def
    by (rule gate_violation_cong) (auto simp: hydrateSerialEntries_def assms)
  with h show ?thesis by (simp add: resolve_indexed_def)
qed

section \<open>Sources of register rows\<close>

text \<open>
  The contract of a resolver: over a well-formed source it decides by the row that each
  entry's key resolves to, and it has nothing to do for no entries.
\<close>

locale gate_source =
  fixes resolve :: "gate_row list \<Rightarrow> gate_entry list \<Rightarrow> gate_rules \<Rightarrow> string \<Rightarrow>
      (gate_entry \<Rightarrow> string) option \<Rightarrow> unit res"
    and wf :: "gate_row list \<Rightarrow> bool"
  assumes resolve_empty: "resolve rws [] rules action pn = Inr ()"
    and resolve_rows: "wf rws \<Longrightarrow> es \<noteq> [] \<Longrightarrow>
      resolve rws es rules action pn = resolve_indexed (indexGateRows rws) es rules action pn"
begin

lemma accepts_iff:
  assumes "wf rws"
  shows "resolve rws es rules action pn = Inr () \<longleftrightarrow>
     distinct (map entry_key es) \<and>
     (\<forall>e \<in> set es. \<exists>row. indexGateRows rws (entry_key e) = Some row \<and>
        drawable rules (hydrate_entry (indexGateRows rws) e) row)"
  using assms by (cases "es = []") (simp_all add: resolve_empty resolve_rows resolve_indexed_Inr)

lemma accepts_in_branch_and_status:
  assumes "wf rws" and "resolve rws es rules action pn = Inr ()" and "e \<in> set es"
  shows "\<exists>row. indexGateRows rws (entry_key e) = Some row \<and>
      str_or (gr_status row) \<in> set (allowed_statuses rules) \<and>
      (ru_branchId rules = [] \<or> str_or (gr_branchId row) = ru_branchId rules)"
  using assms by (auto simp: accepts_iff drawable_def)

end

text \<open>A register whose serials carry no surrounding white space beyond what PostgreSQL trims.\<close>

definition pg_keyed :: "gate_row list \<Rightarrow> bool" where
  "pg_keyed rws \<longleftrightarrow>
     (\<forall>r \<in> set rws. to_lower (pg_trim (str_nullish (gr_deviceSerial r))) = serialGateKey (gr_deviceSerial r))"

lemma map_of_filter_key:
  "P k \<Longrightarrow> map_of (filter (\<lambda>(k, v). P k) kvs) k = map_of kvs k"
  by (induction kvs) auto

lemma index_locked:
  assumes "pg_keyed rws" and "k \<in> set keys"
  shows "indexGateRows (SERIAL_GATE_LOCK rws keys) k = indexGateRows rws k"
proof -
  have "filter (\<lambda>r. to_lower (pg_trim (str_nullish (gr_deviceSerial r))) \<in> set keys) rws =
      filter (\<lambda>r. serialGateKey (gr_deviceSerial r) \<in> set keys) rws"
    using assms(1) by (auto simp: pg_keyed_def intro!: filter_cong)
  then have "rev (map (\<lambda>r. (serialGateKey (gr_deviceSerial r), r)) (SERIAL_GATE_LOCK rws keys)) =
      filter (\<lambda>(k, v). k \<in> set keys) (rev (map (\<lambda>r. (serialGateKey (gr_deviceSerial r), r)) rws))"
    by (simp add: SERIAL_GATE_LOCK_def filter_map rev_filter [symmetric] comp_def)
  then show ?thesis
    using assms(2) by (simp add: indexGateRows_def map_of_filter_key)
qed

interpretation memory_gate: gate_source resolveSerialGateInMemory "\<lambda>_. True"
  by unfold_locales (simp_all add: resolveSerialGateInMemory_def)

interpretation db_gate: gate_source resolveSerialGateInDb pg_keyed
proof unfold_locales
  fix rws es rules action pn
  assume "pg_keyed rws" and "es \<noteq> ([] :: gate_entry list)"
  then show "resolveSerialGateInDb rws es rules action pn =
      resolve_indexed (indexGateRows rws) es rules action pn"
    by (auto simp: resolveSerialGateInDb_def Let_def intro!: resolve_indexed_cong index_locked)
qed (simp add: resolveSerialGateInDb_def)

section \<open>Properties\<close>


text \<open>The gate's plan is exact: it succeeds with entries \<open>es\<close> precisely when every line that
needs serials names as many device serials as its quantity, no device (up to case and
surrounding blanks) is named twice in the whole request, and \<open>es\<close> are the lines' units in
order; in every other case it refuses.\<close>

theorem serial_plan_exact:
  "planSerialGateEntries items products = Inr es \<longleftrightarrow> plan_ok products items es"
  by (rule planSerialGateEntries_spec)

text \<open>C12. The transactional gate lets an operation pass exactly when every unit is named once and
its register row exists, is in an allowed status, sits at the acting branch, belongs to the
line's product and agrees with the PON and MAC the rules ask for.\<close>

theorem serial_gate_db_accepts_iff:
  assumes "pg_keyed rws"
  shows "resolveSerialGateInDb rws es rules action pn = Inr () \<longleftrightarrow>
     distinct (map (\<lambda>e. serialGateKey (JStr (ge_deviceSerial e))) es) \<and>
     (\<forall>e \<in> set es. \<exists>row. indexGateRows rws (serialGateKey (JStr (ge_deviceSerial e))) = Some row \<and>
        drawable rules (hydrate_entry (indexGateRows rws) e) row)"
  using assms by (rule db_gate.accepts_iff)

definition demo_row :: gate_row where
  "demo_row = \<lparr>gr_deviceSerial = JStr ''SN-1'', gr_ponSerial = JStr ''P1'', gr_macAddress = JNull,
     gr_productId = JStr ''prd1'', gr_branchId = JStr ''BR1'', gr_status = JStr ''IN_STOCK''\<rparr>"

definition demo_entry :: "string \<Rightarrow> gate_entry" where
  "demo_entry d = \<lparr>ge_deviceSerial = d, ge_ponSerial = [], ge_macAddress = [],
     ge_productId = ''prd1'', ge_productName = ''ONU''\<rparr>"

definition demo_rules :: "string \<Rightarrow> gate_rules" where
  "demo_rules b = \<lparr>ru_branchId = b, ru_branchLabel = None, ru_matchProduct = None,
     ru_requirePon = Some True, ru_matchPonWhenProvided = None, ru_matchMac = None,
     ru_allowedStatuses = None\<rparr>"

lemma demo_keyed: "pg_keyed [demo_row]"
  by code_simp

theorem serial_gate_db_accepts_iff_witness:
  "resolveSerialGateInDb [demo_row] [demo_entry ''sn-1 ''] (demo_rules ''BR1'') ''sold'' None = Inr () \<and>
   resolveSerialGateInDb [demo_row] [demo_entry ''sn-1 ''] (demo_rules ''BR2'') ''sold'' None \<noteq> Inr ()"
proof -
  have "drawable (demo_rules ''BR1'') (hydrate_entry (indexGateRows [demo_row]) (demo_entry ''sn-1 '')) demo_row"
    and "\<not> drawable (demo_rules ''BR2'') (hydrate_entry (indexGateRows [demo_row]) (demo_entry ''sn-1 '')) demo_row"
    and "indexGateRows [demo_row] (serialGateKey (JStr (ge_deviceSerial (demo_entry ''sn-1 '')))) = Some demo_row"
    by code_simp+
  then show ?thesis
    by (simp add: serial_gate_db_accepts_iff [OF demo_keyed])
qed

text \<open>The demo-mode resolver and the transactional one refuse identically, message included,
over any register whose serials are stored trimmed.\<close>

theorem serial_gate_twins_agree:
  assumes "pg_keyed rws"
  shows "resolveSerialGateInDb rws es rules action pn = resolveSerialGateInMemory rws es rules action pn"
  using assms by (cases "es = []")
    (simp_all add: db_gate.resolve_empty memory_gate.resolve_empty db_gate.resolve_rows memory_gate.resolve_rows)

theorem serial_gate_twins_agree_witness:
  "resolveSerialGateInDb [demo_row] [demo_entry ''SN-2''] (demo_rules ''BR1'') ''sold'' None =
     Inl (ApiError 400 ''Device serial SN-2 is not in the serial register for \"ONU\" -- only IN_STOCK units can be sold.'')"
proof -
  have "resolveSerialGateInMemory [demo_row] [demo_entry ''SN-2''] (demo_rules ''BR1'') ''sold'' None =
     Inl (ApiError 400 ''Device serial SN-2 is not in the serial register for \"ONU\" -- only IN_STOCK units can be sold.'')"
    by code_simp
  then show ?thesis by (simp only: serial_gate_twins_agree [OF demo_keyed])
qed

text \<open>The device serial is the only field an operator has to type: an entry without PON and
MAC is completed from its own register row, so it can only be refused for that row's status,
branch or product, or because a PON is demanded and the register holds none.\<close>

theorem serial_gate_one_field:
  assumes "rows (serialGateKey (JStr (ge_deviceSerial e))) = Some row"
    and "is_text (gr_ponSerial row)" and "ge_ponSerial e = []" and "ge_macAddress e = []"
    and "row_violation rules (hydrate_entry rows e) row = Some v"
  shows "v \<in> {WRONG_STATUS (ge_deviceSerial e) (str_or (gr_status row)),
              WRONG_BRANCH (ge_deviceSerial e) (str_or (gr_branchId row)),
              WRONG_PRODUCT (ge_deviceSerial e)} \<or>
         v = PON_REQUIRED (ge_deviceSerial e) \<and> trim (str_nullish (gr_ponSerial row)) = []"
  using assms
  by (auto simp: row_violation_def hydrate_entry_def Let_def js_or_def macKey_idem is_text_or
      split: if_splits)

theorem serial_gate_one_field_witness:
  "row_violation (demo_rules ''BR2'') (hydrate_entry (indexGateRows [demo_row]) (demo_entry ''SN-1'')) demo_row
     = Some (WRONG_BRANCH ''SN-1'' ''BR1'')"
proof -
  have row: "indexGateRows [demo_row] (serialGateKey (JStr (ge_deviceSerial (demo_entry ''SN-1'')))) = Some demo_row"
    and "is_text (gr_ponSerial demo_row)" and "ge_ponSerial (demo_entry ''SN-1'') = []" and "ge_macAddress (demo_entry ''SN-1'') = []"
    and v: "row_violation (demo_rules ''BR2'') (hydrate_entry (indexGateRows [demo_row]) (demo_entry ''SN-1'')) demo_row
     = Some (WRONG_BRANCH ''SN-1'' ''BR1'')"
    by code_simp+
  from serial_gate_one_field [OF this] v show ?thesis by simp
qed

end
