(* ===== verification/SerialRegister.thy ===== *)
theory SerialRegister
  imports SerialGate
begin

text \<open>
  The serial register (\<open>serial_log\<close>) and its only entrance, the purchase bill:
  \<open>server/src/services/serialRegister.service.ts\<close> (plan of the received units, demo-mode mirror)
  and \<open>registerPurchaseSerials\<close> of \<open>server/src/controllers/procurement.controller.ts\<close> with the
  SQL of \<open>server/src/models/inventory.repo.ts\<close> it runs. The register is the list of its rows;
  \<open>register_inv\<close> is the uniqueness of the three identifiers, and the lemmas show that every
  write keeps it, that a receipt puts exactly its own units in stock, and that a unit cannot be
  received twice.
\<close>

section \<open>The register\<close>

record history_entry =
  he_status :: string
  he_sourceType :: string
  he_sourceId :: string
  he_dateAD :: string
  he_notes :: string

text \<open>One row; \<open>history_json\<close> is the list its JSON text denotes.\<close>

record slog_row =
  sl_id :: string
  sl_deviceSerial :: string
  sl_ponSerial :: "string option"
  sl_macAddress :: "string option"
  sl_productId :: "string option"
  sl_productName :: "string option"
  sl_branchId :: "string option"
  sl_customerId :: "string option"
  sl_customerName :: "string option"
  sl_status :: string
  sl_sourceType :: string
  sl_sourceId :: "string option"
  sl_history :: "history_entry list"
  sl_updatedAt :: string

text \<open>The key of the unique indexes: \<open>lower(trim(x))\<close>; a NULL or blank value has none.\<close>

definition pg_key :: "string \<Rightarrow> string" where
  "pg_key s = to_lower (pg_trim s)"

definition opt_key :: "string option \<Rightarrow> string option" where
  "opt_key v = (case v of None \<Rightarrow> None | Some s \<Rightarrow> if pg_trim s = [] then None else Some (pg_key s))"

definition unique_keys :: "(slog_row \<Rightarrow> string option) \<Rightarrow> slog_row list \<Rightarrow> bool" where
  "unique_keys f rows \<longleftrightarrow> sorted_wrt (\<lambda>a b. f a \<noteq> f b \<or> f a = None) rows"

definition register_inv :: "slog_row list \<Rightarrow> bool" where
  "register_inv rows \<longleftrightarrow>
     distinct (map sl_id rows) \<and>
     distinct (map (pg_key \<circ> sl_deviceSerial) rows) \<and>
     unique_keys (opt_key \<circ> sl_ponSerial) rows \<and>
     unique_keys (opt_key \<circ> sl_macAddress) rows"

section \<open>Planning a bill's units\<close>

record purchase_entry =
  pe_deviceSerial :: string
  pe_ponSerial :: "string option"
  pe_macAddress :: "string option"
  pe_productId :: string
  pe_productName :: string
  pe_branchId :: string
  pe_lineIndex :: nat

definition isSerialTrackedProduct :: "serial_product option \<Rightarrow> bool" where
  "isSerialTrackedProduct product =
     (case product of None \<Rightarrow> False
      | Some p \<Rightarrow> if str_or (sp_trackingType p) = ''QUANTITY_ONLY'' then False
                  else sp_requiresSerialTracking p \<noteq> JBool False)"

definition requiresMac :: "serial_product option \<Rightarrow> bool" where
  "requiresMac product =
     (str_or (case product of None \<Rightarrow> JUndef | Some p \<Rightarrow> sp_trackingType p) = ''SERIAL_MAC_PON'')"

definition purchase_pairs :: "jsval \<Rightarrow> (string \<times> string \<times> string) list" where
  "purchase_pairs item =
     filter (\<lambda>(d, p, m). d \<noteq> [])
       (map (\<lambda>s. (serial_field s ''deviceSerial'', serial_field s ''ponSerial'',
                  normalizeMacAddress (case s of JStr _ \<Rightarrow> JStr []
                    | _ \<Rightarrow> js_or (jget s ''macAddress'') (JStr []))))
         (arr_or_empty (jget item ''deviceSerials'')))"

record plan_state =
  ps_entries :: "purchase_entry list"
  ps_seenDevice :: "string list"
  ps_seenPon :: "string list"
  ps_seenMac :: "string list"

definition plan_pair ::
  "jsval \<Rightarrow> string \<Rightarrow> string \<Rightarrow> nat \<Rightarrow> bool \<Rightarrow> string \<times> string \<times> string \<Rightarrow> plan_state \<Rightarrow>
   string + plan_state" where
  "plan_pair item name branchId lineIndex strict pair st =
     (let (d, p, m) = pair; dk = serialKey (JStr d); pk = serialKey (JStr p); mk = serialKey (JStr m)
      in if dk \<in> set (ps_seenDevice st)
         then Inl (''Duplicate device serial '' @ d @ '' on this purchase invoice.'')
         else if strict \<and> m = [] then Inl (''MAC address is required for device serial '' @ d @ ''.'')
         else if p \<noteq> [] \<and> pk \<in> set (ps_seenPon st)
         then Inl (''Duplicate PON serial '' @ p @ '' on this purchase invoice.'')
         else if m \<noteq> [] \<and> mk \<in> set (ps_seenMac st)
         then Inl (''Duplicate MAC address '' @ m @ '' on this purchase invoice.'')
         else Inr \<lparr>ps_entries = ps_entries st @
                     [\<lparr>pe_deviceSerial = d, pe_ponSerial = or_null p,
                       pe_macAddress = or_null (normalizeMacAddress (JStr m)),
                       pe_productId = str_or (jget item ''productId''), pe_productName = name,
                       pe_branchId = branchId, pe_lineIndex = lineIndex\<rparr>],
                   ps_seenDevice = dk # ps_seenDevice st,
                   ps_seenPon = (if p \<noteq> [] then pk # ps_seenPon st else ps_seenPon st),
                   ps_seenMac = (if m \<noteq> [] then mk # ps_seenMac st else ps_seenMac st)\<rparr>)"

fun plan_pairs ::
  "jsval \<Rightarrow> string \<Rightarrow> string \<Rightarrow> nat \<Rightarrow> bool \<Rightarrow> (string \<times> string \<times> string) list \<Rightarrow> plan_state \<Rightarrow>
   string + plan_state" where
  "plan_pairs item name branchId lineIndex strict [] st = Inr st"
| "plan_pairs item name branchId lineIndex strict (pr # prs) st =
     (case plan_pair item name branchId lineIndex strict pr st of
        Inl err \<Rightarrow> Inl err
      | Inr st' \<Rightarrow> plan_pairs item name branchId lineIndex strict prs st')"

fun plan_lines ::
  "serial_product list \<Rightarrow> string \<Rightarrow> nat \<Rightarrow> jsval list \<Rightarrow> plan_state \<Rightarrow> string + plan_state" where
  "plan_lines products branchId i [] st = Inr st"
| "plan_lines products branchId i (item # items) st =
     (let product = item_product products item;
          pairs = purchase_pairs item;
          serialized = (if product \<noteq> None then isSerialTrackedProduct product else pairs \<noteq> []);
          name = item_name product item;
          qty = abs_qty (jget item ''quantity'')
      in if \<not> serialized then plan_lines products branchId (Suc i) items st
         else if Fin (of_nat (length pairs)) \<noteq> qty
         then Inl (name @ '' is serial-tracked: '' @ num_str qty @ '' device serial(s) required, ''
                   @ nat_str (length pairs) @ '' provided.'')
         else case plan_pairs item name branchId i (requiresMac product) pairs st of
                Inl err \<Rightarrow> Inl err
              | Inr st' \<Rightarrow> plan_lines products branchId (Suc i) items st')"

definition empty_plan :: plan_state where
  "empty_plan = \<lparr>ps_entries = [], ps_seenDevice = [], ps_seenPon = [], ps_seenMac = []\<rparr>"

definition planPurchaseSerialEntries ::
  "jsval list \<Rightarrow> serial_product list \<Rightarrow> string \<Rightarrow> string + purchase_entry list" where
  "planPurchaseSerialEntries items products branchId =
     (case plan_lines products branchId 0 items empty_plan of
        Inl err \<Rightarrow> Inl err | Inr st \<Rightarrow> Inr (ps_entries st))"

section \<open>Writing the register\<close>

definition date_only :: "string \<Rightarrow> string" where
  "date_only s = takeWhile (\<lambda>c. c \<noteq> CHR ''T'') s"

definition purchaseRegisterHistoryEntry :: "string \<Rightarrow> string option \<Rightarrow> string \<Rightarrow> history_entry" where
  "purchaseRegisterHistoryEntry inv_id invoiceNumber dateAD =
     \<lparr>he_status = ''IN_STOCK'', he_sourceType = ''PURCHASE'', he_sourceId = inv_id,
      he_dateAD = date_only dateAD,
      he_notes = ''Received on purchase invoice '' @
        (case invoiceNumber of Some n \<Rightarrow> if n = [] then inv_id else n | None \<Rightarrow> inv_id)\<rparr>"

definition SERIAL_LOG_FIND_BY_DEVICE :: "string \<Rightarrow> slog_row list \<Rightarrow> slog_row list" where
  "SERIAL_LOG_FIND_BY_DEVICE d rows = filter (\<lambda>r. pg_key (sl_deviceSerial r) = pg_key d) rows"

definition coalesce_str :: "string option \<Rightarrow> string" where
  "coalesce_str v = (case v of None \<Rightarrow> [] | Some s \<Rightarrow> s)"

definition SERIAL_LOG_PON_OWNER :: "string \<Rightarrow> string \<Rightarrow> slog_row list \<Rightarrow> slog_row list" where
  "SERIAL_LOG_PON_OWNER pon d rows = take 1
     (filter (\<lambda>r. pg_key (coalesce_str (sl_ponSerial r)) = pg_key pon \<and>
                  pg_trim (coalesce_str (sl_ponSerial r)) \<noteq> [] \<and>
                  pg_key (sl_deviceSerial r) \<noteq> pg_key d) rows)"

definition SERIAL_LOG_MAC_OWNER :: "string \<Rightarrow> string \<Rightarrow> slog_row list \<Rightarrow> slog_row list" where
  "SERIAL_LOG_MAC_OWNER mac d rows = take 1
     (filter (\<lambda>r. pg_key (coalesce_str (sl_macAddress r)) = pg_key mac \<and>
                  pg_trim (coalesce_str (sl_macAddress r)) \<noteq> [] \<and>
                  pg_key (sl_deviceSerial r) \<noteq> pg_key d) rows)"

text \<open>\<open>INSERT ... ON CONFLICT DO NOTHING\<close> over the primary key and the unique indexes; the
result is the number of inserted rows.\<close>

definition slog_conflict :: "slog_row \<Rightarrow> slog_row \<Rightarrow> bool" where
  "slog_conflict new r \<longleftrightarrow>
     sl_id r = sl_id new \<or> pg_key (sl_deviceSerial r) = pg_key (sl_deviceSerial new) \<or>
     (opt_key (sl_ponSerial new) \<noteq> None \<and> opt_key (sl_ponSerial r) = opt_key (sl_ponSerial new)) \<or>
     (opt_key (sl_macAddress new) \<noteq> None \<and> opt_key (sl_macAddress r) = opt_key (sl_macAddress new))"

definition SERIAL_LOG_INSERT :: "slog_row \<Rightarrow> slog_row list \<Rightarrow> nat \<times> slog_row list" where
  "SERIAL_LOG_INSERT new rows =
     (if list_ex (slog_conflict new) rows then (0, rows) else (1, rows @ [new]))"

definition coalesce :: "'a option \<Rightarrow> 'a option \<Rightarrow> 'a option" where
  "coalesce a b = (case a of None \<Rightarrow> b | Some x \<Rightarrow> Some x)"

text \<open>The columns \<open>SERIAL_LOG_UPDATE_SQL\<close> sets from the record \<open>u\<close> on the row with its id.\<close>

definition SERIAL_LOG_UPDATE :: "slog_row \<Rightarrow> slog_row list \<Rightarrow> slog_row list" where
  "SERIAL_LOG_UPDATE u rows = map (\<lambda>r. if sl_id r = sl_id u then r\<lparr>
       sl_ponSerial := coalesce (sl_ponSerial u) (sl_ponSerial r),
       sl_macAddress := coalesce (sl_macAddress u) (sl_macAddress r),
       sl_productId := coalesce (sl_productId u) (sl_productId r),
       sl_productName := coalesce (sl_productName u) (sl_productName r),
       sl_branchId := coalesce (sl_branchId u) (sl_branchId r),
       sl_customerId := coalesce (sl_customerId u) (sl_customerId r),
       sl_customerName := coalesce (sl_customerName u) (sl_customerName r),
       sl_status := sl_status u, sl_sourceType := sl_sourceType u,
       sl_sourceId := coalesce (sl_sourceId u) (sl_sourceId r),
       sl_history := sl_history u, sl_updatedAt := sl_updatedAt u\<rparr> else r) rows"

text \<open>The row a receipt writes for one unit; \<open>id\<close> and \<open>ts\<close> come from the clock.\<close>

definition receipt_row ::
  "string \<Rightarrow> string \<Rightarrow> history_entry list \<Rightarrow> string \<Rightarrow> string \<Rightarrow> purchase_entry \<Rightarrow> slog_row" where
  "receipt_row row_id ts hist inv_id branchId e =
     \<lparr>sl_id = row_id, sl_deviceSerial = pe_deviceSerial e, sl_ponSerial = pe_ponSerial e,
      sl_macAddress = pe_macAddress e, sl_productId = or_null (pe_productId e),
      sl_productName = Some (pe_productName e), sl_branchId = Some branchId,
      sl_customerId = None, sl_customerName = None, sl_status = ''IN_STOCK'',
      sl_sourceType = ''PURCHASE'', sl_sourceId = Some inv_id, sl_history = hist, sl_updatedAt = ts\<rparr>"

definition owner_check ::
  "(slog_row list \<Rightarrow> slog_row list) \<Rightarrow> string \<Rightarrow> (slog_row list, unit) tx" where
  "owner_check probe what =
     tbind (tquery probe) (\<lambda>owners.
       case owners of [] \<Rightarrow> treturn ()
       | o1 # _ \<Rightarrow> tthrow 400 (what @ '' already belongs to device serial '' @ sl_deviceSerial o1 @ ''.''))"

definition optional_owner_check ::
  "string option \<Rightarrow> (string \<Rightarrow> slog_row list \<Rightarrow> slog_row list) \<Rightarrow> string \<Rightarrow> (slog_row list, unit) tx" where
  "optional_owner_check v probe what =
     (case v of None \<Rightarrow> treturn ()
      | Some x \<Rightarrow> if x = [] then treturn () else owner_check (probe x) (what @ x))"

definition register_unit ::
  "(purchase_entry \<Rightarrow> string) \<Rightarrow> string \<Rightarrow> history_entry \<Rightarrow> string \<Rightarrow> string \<Rightarrow> purchase_entry \<Rightarrow>
   (slog_row list, unit) tx" where
  "register_unit newId ts history inv_id branchId e =
     tbind (optional_owner_check (pe_ponSerial e)
              (\<lambda>pon. SERIAL_LOG_PON_OWNER pon (pe_deviceSerial e)) ''PON serial '') (\<lambda>_.
     tbind (optional_owner_check (pe_macAddress e)
              (\<lambda>mac. SERIAL_LOG_MAC_OWNER mac (pe_deviceSerial e)) ''MAC address '') (\<lambda>_.
     tbind (tquery (SERIAL_LOG_FIND_BY_DEVICE (pe_deviceSerial e))) (\<lambda>existing.
       case existing of
         [] \<Rightarrow> (\<lambda>rows. let (n, rows') = SERIAL_LOG_INSERT (receipt_row (newId e) ts [history] inv_id branchId e) rows
                 in if n = 0 then Inl (ApiError 409 (''Device serial '' @ pe_deviceSerial e @
                        '' was registered by another transaction -- nothing was posted.''))
                    else Inr ((), rows'))
       | row # _ \<Rightarrow>
           if sl_status row \<noteq> ''RETURNED_TO_VENDOR''
           then tthrow 409 (''Device serial '' @ pe_deviceSerial e @ '' is already in the serial register (''
                  @ sl_status row @ '') -- a unit cannot be received twice.'')
           else texec (SERIAL_LOG_UPDATE
                  (receipt_row (sl_id row) ts (sl_history row @ [history]) inv_id branchId e)))))"

definition registerPurchaseSerials ::
  "(purchase_entry \<Rightarrow> string) \<Rightarrow> string \<Rightarrow> string \<Rightarrow> string option \<Rightarrow> string \<Rightarrow> string \<Rightarrow>
   purchase_entry list \<Rightarrow> (slog_row list, unit) tx" where
  "registerPurchaseSerials newId ts inv_id invoiceNumber invoiceDateAD branchId entries =
     tfor (register_unit newId ts (purchaseRegisterHistoryEntry inv_id invoiceNumber invoiceDateAD) inv_id branchId)
       entries"

section \<open>The demo-mode mirror\<close>

datatype mirror_action = INSERTED | REACTIVATED | DUPLICATE_ROW

definition find_index :: "('a \<Rightarrow> bool) \<Rightarrow> 'a list \<Rightarrow> nat option" where
  "find_index P xs = (let n = length (takeWhile (\<lambda>x. \<not> P x) xs) in if n < length xs then Some n else None)"

definition applyRegisterEntryToMirror ::
  "slog_row list \<Rightarrow> purchase_entry \<Rightarrow> string \<Rightarrow> string \<Rightarrow> history_entry \<Rightarrow> string \<Rightarrow>
   slog_row list \<times> mirror_action" where
  "applyRegisterEntryToMirror rows e ctx_id ts history sourceId =
     (let key = serialKey (JStr (pe_deviceSerial e));
          idx = find_index (\<lambda>r. serialKey (JStr (sl_deviceSerial r)) = key) rows
      in case idx of
           None \<Rightarrow> (receipt_row ctx_id ts [history] sourceId (pe_branchId e) e # rows, INSERTED)
         | Some i \<Rightarrow>
             let existing = rows ! i in
             if sl_status existing \<noteq> ''RETURNED_TO_VENDOR'' then (rows, DUPLICATE_ROW)
             else (rows[i := receipt_row (sl_id existing) ts (sl_history existing @ [history]) sourceId
                             (pe_branchId e) e], REACTIVATED))"

definition findMirrorRowBySerial :: "slog_row list \<Rightarrow> string \<Rightarrow> slog_row option" where
  "findMirrorRowBySerial rows deviceSerial =
     List.find (\<lambda>r. serialKey (JStr (sl_deviceSerial r)) = serialKey (JStr deviceSerial)) rows"


section \<open>The register keeps its identifiers unique\<close>

lemma unique_keys_append:
  "unique_keys f (rows @ [r]) \<longleftrightarrow>
     unique_keys f rows \<and> (f r = None \<or> (\<forall>x \<in> set rows. f x \<noteq> f r))"
  by (auto simp: unique_keys_def sorted_wrt_append)

lemma unique_keys_update:
  assumes "unique_keys f rows" and "i < length rows"
    and "f r = None \<or> (\<forall>j < length rows. j \<noteq> i \<longrightarrow> f (rows ! j) \<noteq> f r)"
  shows "unique_keys f (rows[i := r])"
  unfolding unique_keys_def sorted_wrt_iff_nth_less
proof (intro allI impI)
  fix a b
  assume "a < b" and "b < length (rows[i := r])"
  then show "f (rows[i := r] ! a) \<noteq> f (rows[i := r] ! b) \<or> f (rows[i := r] ! a) = None"
    using assms unfolding unique_keys_def sorted_wrt_iff_nth_less
    by (cases "a = i"; cases "b = i") fastforce+
qed

lemma map_update_at:
  assumes "distinct (map sl_id rows)" and "i < length rows" and "sl_id (rows ! i) = k"
  shows "map (\<lambda>r. if sl_id r = k then f r else r) rows = rows[i := f (rows ! i)]"
proof (rule nth_equalityI)
  fix j assume "j < length (map (\<lambda>r. if sl_id r = k then f r else r) rows)"
  then have j: "j < length rows" by simp
  have "sl_id (rows ! j) = k \<longleftrightarrow> j = i"
    using assms j by (metis length_map nth_eq_iff_index_eq nth_map)
  with j show "map (\<lambda>r. if sl_id r = k then f r else r) rows ! j = rows[i := f (rows ! i)] ! j"
    by (auto simp: nth_list_update)
qed simp

lemma take_1_Nil [simp]: "take (Suc 0) xs = [] \<longleftrightarrow> xs = []"
  by (cases xs) simp_all

lemma owner_check_eq [simp]:
  "owner_check probe what rows = Inr (u, rows') \<longleftrightarrow> probe rows = [] \<and> rows' = rows"
  by (auto simp: owner_check_def split: list.splits)

lemma optional_owner_check_eq [simp]:
  "optional_owner_check v probe what rows = Inr (u, rows') \<longleftrightarrow>
     rows' = rows \<and> (\<forall>x. v = Some x \<longrightarrow> x \<noteq> [] \<longrightarrow> probe x rows = [])"
  by (auto simp: optional_owner_check_def split: option.splits)

lemma opt_key_eq_Some:
  "opt_key v = Some k \<longleftrightarrow> (\<exists>s. v = Some s \<and> pg_trim s \<noteq> [] \<and> k = pg_key s)"
  by (auto simp: opt_key_def split: option.splits)

lemma pon_probe:
  assumes "SERIAL_LOG_PON_OWNER p d rows = []" and "r \<in> set rows"
    and "opt_key (Some p) = Some k" and "opt_key (sl_ponSerial r) = Some k"
  shows "pg_key (sl_deviceSerial r) = pg_key d"
  using assms by (auto simp: SERIAL_LOG_PON_OWNER_def filter_empty_conv opt_key_eq_Some coalesce_str_def)

lemma mac_probe:
  assumes "SERIAL_LOG_MAC_OWNER p d rows = []" and "r \<in> set rows"
    and "opt_key (Some p) = Some k" and "opt_key (sl_macAddress r) = Some k"
  shows "pg_key (sl_deviceSerial r) = pg_key d"
  using assms by (auto simp: SERIAL_LOG_MAC_OWNER_def filter_empty_conv opt_key_eq_Some coalesce_str_def)

lemma opt_key_nonempty: "opt_key (Some p) = Some k \<Longrightarrow> p \<noteq> []"
  by (auto simp: opt_key_eq_Some pg_trim_def)

text \<open>What a successful write of one unit did.\<close>

lemma register_unit_cases:
  assumes "register_unit newId ts history inv_id branchId e rows = Inr (u, rows')"
  obtains (insert) "\<forall>r \<in> set rows. \<not> slog_conflict (receipt_row (newId e) ts [history] inv_id branchId e) r"
      "rows' = rows @ [receipt_row (newId e) ts [history] inv_id branchId e]"
  | (reactivate) row where "row \<in> set rows" "pg_key (sl_deviceSerial row) = pg_key (pe_deviceSerial e)"
      "sl_status row = ''RETURNED_TO_VENDOR''"
      "rows' = SERIAL_LOG_UPDATE (receipt_row (sl_id row) ts (sl_history row @ [history]) inv_id branchId e) rows"
      "\<And>r k. r \<in> set rows \<Longrightarrow> opt_key (pe_ponSerial e) = Some k \<Longrightarrow> opt_key (sl_ponSerial r) = Some k \<Longrightarrow>
         pg_key (sl_deviceSerial r) = pg_key (pe_deviceSerial e)"
      "\<And>r k. r \<in> set rows \<Longrightarrow> opt_key (pe_macAddress e) = Some k \<Longrightarrow> opt_key (sl_macAddress r) = Some k \<Longrightarrow>
         pg_key (sl_deviceSerial r) = pg_key (pe_deviceSerial e)"
proof (cases "SERIAL_LOG_FIND_BY_DEVICE (pe_deviceSerial e) rows")
  case Nil
  with assms show thesis
    by (intro insert)
       (auto simp: register_unit_def SERIAL_LOG_INSERT_def Let_def list_ex_iff split: if_splits)
next
  case (Cons row rest)
  then have row: "row \<in> set rows" "pg_key (sl_deviceSerial row) = pg_key (pe_deviceSerial e)"
    by (auto simp: SERIAL_LOG_FIND_BY_DEVICE_def filter_eq_Cons_iff)
  from assms have probes:
    "\<And>x. pe_ponSerial e = Some x \<Longrightarrow> x \<noteq> [] \<Longrightarrow> SERIAL_LOG_PON_OWNER x (pe_deviceSerial e) rows = []"
    "\<And>x. pe_macAddress e = Some x \<Longrightarrow> x \<noteq> [] \<Longrightarrow> SERIAL_LOG_MAC_OWNER x (pe_deviceSerial e) rows = []"
    by (auto simp: register_unit_def)
  have pon: "pg_key (sl_deviceSerial r) = pg_key (pe_deviceSerial e)"
    if "r \<in> set rows" "opt_key (pe_ponSerial e) = Some k" "opt_key (sl_ponSerial r) = Some k" for r k
    using that probes(1) pon_probe opt_key_nonempty by (metis opt_key_eq_Some)
  have mac: "pg_key (sl_deviceSerial r) = pg_key (pe_deviceSerial e)"
    if "r \<in> set rows" "opt_key (pe_macAddress e) = Some k" "opt_key (sl_macAddress r) = Some k" for r k
    using that probes(2) mac_probe opt_key_nonempty by (metis opt_key_eq_Some)
  from assms Cons have "sl_status row = ''RETURNED_TO_VENDOR''"
    and "rows' = SERIAL_LOG_UPDATE (receipt_row (sl_id row) ts (sl_history row @ [history]) inv_id branchId e) rows"
    by (auto simp: register_unit_def split: if_splits)
  with row pon mac show thesis by (intro reactivate)
qed

lemma opt_key_coalesce: "opt_key (coalesce a b) = (case a of None \<Rightarrow> opt_key b | Some s \<Rightarrow> opt_key (Some s))"
  by (auto simp: coalesce_def split: option.splits)

lemma register_inv_device:
  "register_inv rows \<Longrightarrow> i < length rows \<Longrightarrow> j < length rows \<Longrightarrow>
   pg_key (sl_deviceSerial (rows ! i)) = pg_key (sl_deviceSerial (rows ! j)) \<Longrightarrow> i = j"
  by (auto simp: register_inv_def distinct_conv_nth)

lemma register_unit_update_at:
  assumes "register_inv rows" and "row \<in> set rows"
  obtains i where "i < length rows" "rows ! i = row"
    "SERIAL_LOG_UPDATE (receipt_row (sl_id row) ts h inv_id b e) rows =
       rows[i := row\<lparr>
         sl_ponSerial := coalesce (pe_ponSerial e) (sl_ponSerial row),
         sl_macAddress := coalesce (pe_macAddress e) (sl_macAddress row),
         sl_productId := coalesce (or_null (pe_productId e)) (sl_productId row),
         sl_productName := Some (pe_productName e), sl_branchId := Some b,
         sl_status := ''IN_STOCK'', sl_sourceType := ''PURCHASE'', sl_sourceId := Some inv_id,
         sl_history := h, sl_updatedAt := ts\<rparr>]"
proof -
  obtain i where i: "i < length rows" "rows ! i = row"
    using assms(2) by (auto simp: in_set_conv_nth)
  show thesis
    by (rule that [OF i])
       (use assms i in \<open>simp add: SERIAL_LOG_UPDATE_def register_inv_def receipt_row_def coalesce_def
          map_update_at [where i = i]\<close>)
qed

lemma unique_keys_nth:
  assumes "unique_keys f rows" and "i < length rows" and "j < length rows" and "i \<noteq> j"
  shows "f (rows ! j) \<noteq> f (rows ! i) \<or> f (rows ! i) = None"
proof (cases "i < j")
  case True
  with assms show ?thesis
    unfolding unique_keys_def sorted_wrt_iff_nth_less by metis
next
  case False
  with assms(4) have "j < i" by simp
  with assms show ?thesis
    unfolding unique_keys_def sorted_wrt_iff_nth_less by metis
qed

lemma coalesce_fresh:
  assumes "unique_keys (opt_key \<circ> f) rows" and "i < length rows" and "j < length rows" and "j \<noteq> i"
    and "\<And>k. opt_key v = Some k \<Longrightarrow> opt_key (f (rows ! j)) = Some k \<Longrightarrow> j = i"
  shows "opt_key (coalesce v (f (rows ! i))) = None \<or>
      opt_key (f (rows ! j)) \<noteq> opt_key (coalesce v (f (rows ! i)))"
proof (cases v)
  case None
  with unique_keys_nth [OF assms(1,2,3)] assms(4) show ?thesis by (auto simp: coalesce_def)
next
  case (Some p)
  with assms(4,5) show ?thesis by (cases "opt_key v") (auto simp: coalesce_def)
qed

lemma register_unit_inv:
  assumes run: "register_unit newId ts history inv_id branchId e rows = Inr (u, rows')"
    and inv: "register_inv rows"
  shows "register_inv rows'"
  using run
proof (cases rule: register_unit_cases)
  case insert
  then show ?thesis
    using inv by (auto simp: register_inv_def unique_keys_append slog_conflict_def receipt_row_def)
next
  case (reactivate row)
  from inv reactivate(1) obtain i where i: "i < length rows" "rows ! i = row" and upd:
    "rows' = rows[i := row\<lparr>
         sl_ponSerial := coalesce (pe_ponSerial e) (sl_ponSerial row),
         sl_macAddress := coalesce (pe_macAddress e) (sl_macAddress row),
         sl_productId := coalesce (or_null (pe_productId e)) (sl_productId row),
         sl_productName := Some (pe_productName e), sl_branchId := Some branchId,
         sl_status := ''IN_STOCK'', sl_sourceType := ''PURCHASE'', sl_sourceId := Some inv_id,
         sl_history := sl_history row @ [history], sl_updatedAt := ts\<rparr>]"
    unfolding reactivate(4) by (rule register_unit_update_at)
  have same: "j = i" if "j < length rows" "pg_key (sl_deviceSerial (rows ! j)) = pg_key (pe_deviceSerial e)" for j
    using register_inv_device [OF inv that(1) i(1)] that(2) i(2) reactivate(2) by simp
  have pon: "opt_key (coalesce (pe_ponSerial e) (sl_ponSerial row)) = None \<or>
      opt_key (sl_ponSerial (rows ! j)) \<noteq> opt_key (coalesce (pe_ponSerial e) (sl_ponSerial row))"
    if "j < length rows" "j \<noteq> i" for j
  proof -
    have "unique_keys (opt_key \<circ> sl_ponSerial) rows" using inv by (simp add: register_inv_def)
    from coalesce_fresh [OF this i(1) that, of "pe_ponSerial e"] show ?thesis
      unfolding i(2) using reactivate(5) [OF nth_mem [OF that(1)]] same [OF that(1)] by blast
  qed
  have mac: "opt_key (coalesce (pe_macAddress e) (sl_macAddress row)) = None \<or>
      opt_key (sl_macAddress (rows ! j)) \<noteq> opt_key (coalesce (pe_macAddress e) (sl_macAddress row))"
    if "j < length rows" "j \<noteq> i" for j
  proof -
    have "unique_keys (opt_key \<circ> sl_macAddress) rows" using inv by (simp add: register_inv_def)
    from coalesce_fresh [OF this i(1) that, of "pe_macAddress e"] show ?thesis
      unfolding i(2) using reactivate(6) [OF nth_mem [OF that(1)]] same [OF that(1)] by blast
  qed
  have "map sl_id rows' = map sl_id rows" "map (pg_key \<circ> sl_deviceSerial) rows' = map (pg_key \<circ> sl_deviceSerial) rows"
    unfolding upd using i by (simp_all add: map_update list_update_same_conv)
  moreover have "unique_keys (opt_key \<circ> sl_ponSerial) rows'"
    unfolding upd
  proof (rule unique_keys_update [OF _ i(1)], goal_cases)
    case 1
    show ?case using inv by (simp add: register_inv_def)
  next
    case 2
    have "opt_key (coalesce (pe_ponSerial e) (sl_ponSerial row)) = None \<or>
        (\<forall>j < length rows. j \<noteq> i \<longrightarrow>
          opt_key (sl_ponSerial (rows ! j)) \<noteq> opt_key (coalesce (pe_ponSerial e) (sl_ponSerial row)))"
      using pon by blast
    then show ?case by simp
  qed
  moreover have "unique_keys (opt_key \<circ> sl_macAddress) rows'"
    unfolding upd
  proof (rule unique_keys_update [OF _ i(1)], goal_cases)
    case 1
    show ?case using inv by (simp add: register_inv_def)
  next
    case 2
    have "opt_key (coalesce (pe_macAddress e) (sl_macAddress row)) = None \<or>
        (\<forall>j < length rows. j \<noteq> i \<longrightarrow>
          opt_key (sl_macAddress (rows ! j)) \<noteq> opt_key (coalesce (pe_macAddress e) (sl_macAddress row)))"
      using mac by blast
    then show ?case by simp
  qed
  ultimately show ?thesis using inv by (simp add: register_inv_def)
qed

lemma registerPurchaseSerials_inv:
  assumes "registerPurchaseSerials newId ts inv_id no date branchId es rows = Inr (u, rows')"
    and "register_inv rows"
  shows "register_inv rows'"
  using assms unfolding registerPurchaseSerials_def
  by (rule tfor_invariant) (rule register_unit_inv)


section \<open>What a receipt does to the register\<close>

definition received :: "string \<Rightarrow> string \<Rightarrow> purchase_entry \<Rightarrow> slog_row \<Rightarrow> bool" where
  "received inv_id branchId e r \<longleftrightarrow>
     pg_key (sl_deviceSerial r) = pg_key (pe_deviceSerial e) \<and> sl_status r = ''IN_STOCK'' \<and>
     sl_branchId r = Some branchId \<and> sl_sourceType r = ''PURCHASE'' \<and> sl_sourceId r = Some inv_id"

abbreviation row_key :: "slog_row \<Rightarrow> string" where
  "row_key r \<equiv> pg_key (sl_deviceSerial r)"

abbreviation pe_key :: "purchase_entry \<Rightarrow> string" where
  "pe_key e \<equiv> pg_key (pe_deviceSerial e)"

lemma register_unit_effect:
  assumes run: "register_unit newId ts history inv_id branchId e rows = Inr (u, rows')"
    and inv: "register_inv rows"
  shows "\<exists>r \<in> set rows'. received inv_id branchId e r"
    and "filter (\<lambda>r. row_key r \<noteq> pe_key e) rows' = filter (\<lambda>r. row_key r \<noteq> pe_key e) rows"
    and "\<forall>r \<in> set rows. row_key r = pe_key e \<longrightarrow> sl_status r = ''RETURNED_TO_VENDOR''"
proof -
  have "(\<exists>r \<in> set rows'. received inv_id branchId e r) \<and>
      filter (\<lambda>r. row_key r \<noteq> pe_key e) rows' = filter (\<lambda>r. row_key r \<noteq> pe_key e) rows \<and>
      (\<forall>r \<in> set rows. row_key r = pe_key e \<longrightarrow> sl_status r = ''RETURNED_TO_VENDOR'')"
    using run
  proof (cases rule: register_unit_cases)
    case insert
    then show ?thesis by (auto simp: received_def receipt_row_def slog_conflict_def)
  next
    case (reactivate row)
    from inv reactivate(1) obtain i where i: "i < length rows" "rows ! i = row" and upd:
      "rows' = rows[i := row\<lparr>
         sl_ponSerial := coalesce (pe_ponSerial e) (sl_ponSerial row),
         sl_macAddress := coalesce (pe_macAddress e) (sl_macAddress row),
         sl_productId := coalesce (or_null (pe_productId e)) (sl_productId row),
         sl_productName := Some (pe_productName e), sl_branchId := Some branchId,
         sl_status := ''IN_STOCK'', sl_sourceType := ''PURCHASE'', sl_sourceId := Some inv_id,
         sl_history := sl_history row @ [history], sl_updatedAt := ts\<rparr>]" (is "_ = rows[i := ?r]")
      unfolding reactivate(4) by (rule register_unit_update_at)
    have "?r \<in> set rows'" unfolding upd using i(1) by (rule set_update_memI)
    moreover have "received inv_id branchId e ?r" using reactivate(2) by (simp add: received_def)
    moreover have "filter (\<lambda>r. row_key r \<noteq> pe_key e) (rows[i := ?r]) = filter (\<lambda>r. row_key r \<noteq> pe_key e) rows"
    proof -
      have "rows = take i rows @ row # drop (Suc i) rows"
        using id_take_nth_drop [OF i(1)] i(2) by simp
      then have "filter (\<lambda>r. row_key r \<noteq> pe_key e) rows =
          filter (\<lambda>r. row_key r \<noteq> pe_key e) (take i rows @ row # drop (Suc i) rows)" by simp
      then show ?thesis
        unfolding upd_conv_take_nth_drop [OF i(1)] by (simp add: reactivate(2))
    qed
    moreover have "sl_status r = ''RETURNED_TO_VENDOR''" if "r \<in> set rows" "row_key r = pe_key e" for r
    proof -
      from that(1) obtain j where j: "j < length rows" "r = rows ! j" by (auto simp: in_set_conv_nth)
      have "j = i" using register_inv_device [OF inv j(1) i(1)] that(2) j(2) i(2) reactivate(2) by simp
      with j i reactivate(3) show ?thesis by simp
    qed
    ultimately show ?thesis unfolding upd by blast
  qed
  then show "\<exists>r \<in> set rows'. received inv_id branchId e r"
    and "filter (\<lambda>r. row_key r \<noteq> pe_key e) rows' = filter (\<lambda>r. row_key r \<noteq> pe_key e) rows"
    and "\<forall>r \<in> set rows. row_key r = pe_key e \<longrightarrow> sl_status r = ''RETURNED_TO_VENDOR''"
    by blast+
qed

lemma filter_keys_mem:
  assumes "filter (\<lambda>r. row_key r \<noteq> k) rows' = filter (\<lambda>r. row_key r \<noteq> k) rows" and "row_key r \<noteq> k"
  shows "r \<in> set rows' \<longleftrightarrow> r \<in> set rows"
proof -
  have "r \<in> set (filter (\<lambda>r. row_key r \<noteq> k) rows') \<longleftrightarrow> r \<in> set (filter (\<lambda>r. row_key r \<noteq> k) rows)"
    using assms(1) by simp
  with assms(2) show ?thesis by simp
qed

lemma register_units_effect:
  assumes "tfor (register_unit newId ts history inv_id branchId) es rows = Inr (u, rows')"
    and "register_inv rows"
  shows "distinct (map pe_key es) \<and>
    (\<forall>e \<in> set es. \<exists>r \<in> set rows'. received inv_id branchId e r) \<and>
    (\<forall>r \<in> set rows. row_key r \<in> pe_key ` set es \<longrightarrow> sl_status r = ''RETURNED_TO_VENDOR'') \<and>
    (\<forall>r. row_key r \<notin> pe_key ` set es \<longrightarrow> (r \<in> set rows' \<longleftrightarrow> r \<in> set rows))"
  using assms
proof (induction es arbitrary: rows)
  case Nil
  then show ?case by simp
next
  case (Cons e es)
  then obtain rows1 where step: "register_unit newId ts history inv_id branchId e rows = Inr ((), rows1)"
    and rest: "tfor (register_unit newId ts history inv_id branchId) es rows1 = Inr (u, rows')"
    by auto
  note eff = register_unit_effect [OF step Cons.prems(2)]
  note inv1 = register_unit_inv [OF step Cons.prems(2)]
  note IH = Cons.IH [OF rest inv1]
  from eff(1) obtain r0 where r0: "r0 \<in> set rows1" "received inv_id branchId e r0" by blast
  have fresh: "pe_key e \<notin> pe_key ` set es"
  proof
    assume "pe_key e \<in> pe_key ` set es"
    with r0 IH have "sl_status r0 = ''RETURNED_TO_VENDOR''" by (auto simp: received_def)
    with r0(2) show False by (simp add: received_def)
  qed
  with r0 IH have "r0 \<in> set rows'" by (auto simp: received_def)
  moreover have "row_key r \<noteq> pe_key e \<Longrightarrow> r \<in> set rows1 \<longleftrightarrow> r \<in> set rows" for r
    by (rule filter_keys_mem [OF eff(2)])
  ultimately show ?case using IH eff(3) r0(2) fresh by (auto; blast)
qed

section \<open>The plan of a bill\<close>

fun present :: "'a option list \<Rightarrow> 'a list" where
  "present [] = []"
| "present (None # xs) = present xs"
| "present (Some x # xs) = x # present xs"

lemma present_append [simp]: "present (xs @ ys) = present xs @ present ys"
  by (induction xs rule: present.induct) simp_all

definition ident_keys :: "(purchase_entry \<Rightarrow> string option) \<Rightarrow> purchase_entry list \<Rightarrow> string list" where
  "ident_keys f es = map (\<lambda>s. serialKey (JStr s)) (present (map f es))"

definition plan_wf :: "plan_state \<Rightarrow> bool" where
  "plan_wf st \<longleftrightarrow>
     distinct (ps_seenDevice st) \<and> distinct (ps_seenPon st) \<and> distinct (ps_seenMac st) \<and>
     ps_seenDevice st = rev (map (\<lambda>e. serialKey (JStr (pe_deviceSerial e))) (ps_entries st)) \<and>
     ps_seenPon st = rev (ident_keys pe_ponSerial (ps_entries st)) \<and>
     ps_seenMac st = rev (ident_keys pe_macAddress (ps_entries st))"

definition pair_entry ::
  "jsval \<Rightarrow> string \<Rightarrow> string \<Rightarrow> nat \<Rightarrow> string \<times> string \<times> string \<Rightarrow> purchase_entry" where
  "pair_entry item name branchId i = (\<lambda>(d, p, m).
     \<lparr>pe_deviceSerial = d, pe_ponSerial = or_null p, pe_macAddress = or_null (normalizeMacAddress (JStr m)),
      pe_productId = str_or (jget item ''productId''), pe_productName = name,
      pe_branchId = branchId, pe_lineIndex = i\<rparr>)"

lemma plan_pair_step:
  assumes "plan_pair item name branchId i strict (d, p, m) st = Inr st'" and "plan_wf st"
    and "normalizeMacAddress (JStr m) = m"
  shows "plan_wf st' \<and> ps_entries st' = ps_entries st @ [pair_entry item name branchId i (d, p, m)] \<and>
    (strict \<longrightarrow> m \<noteq> [])"
  using assms
  by (auto simp: plan_pair_def plan_wf_def pair_entry_def ident_keys_def Let_def or_null_def
      split: if_splits)

lemma plan_pairs_step:
  assumes "plan_pairs item name branchId i strict prs st = Inr st'" and "plan_wf st"
    and "\<forall>(d, p, m) \<in> set prs. normalizeMacAddress (JStr m) = m"
  shows "plan_wf st' \<and> ps_entries st' = ps_entries st @ map (pair_entry item name branchId i) prs \<and>
    (strict \<longrightarrow> (\<forall>(d, p, m) \<in> set prs. m \<noteq> []))"
  using assms
proof (induction prs arbitrary: st)
  case Nil
  then show ?case by simp
next
  case (Cons pr prs)
  obtain d p m where pr: "pr = (d, p, m)" by (cases pr)
  from Cons.prems(1) obtain st1 where st1: "plan_pair item name branchId i strict pr st = Inr st1"
    and rest: "plan_pairs item name branchId i strict prs st1 = Inr st'"
    by (auto split: sum.splits)
  from Cons.prems(3) have m: "normalizeMacAddress (JStr m) = m" by (simp add: pr)
  note step = plan_pair_step [OF st1 [unfolded pr] Cons.prems(2) m]
  with Cons.IH [OF rest] Cons.prems(3) show ?case by (auto simp: pr)
qed

lemma purchase_pairs_normal: "\<forall>(d, p, m) \<in> set (purchase_pairs item). normalizeMacAddress (JStr m) = m"
  by (auto simp: purchase_pairs_def normalizeMacAddress_idem)

definition purchase_serialized :: "serial_product list \<Rightarrow> jsval \<Rightarrow> bool" where
  "purchase_serialized products item =
     (let product = item_product products item
      in if product \<noteq> None then isSerialTrackedProduct product else purchase_pairs item \<noteq> [])"

definition purchase_line ::
  "serial_product list \<Rightarrow> string \<Rightarrow> nat \<Rightarrow> jsval \<Rightarrow> purchase_entry list" where
  "purchase_line products branchId i item =
     (if purchase_serialized products item
      then map (pair_entry item (item_name (item_product products item) item) branchId i) (purchase_pairs item)
      else [])"

definition purchase_line_ok :: "serial_product list \<Rightarrow> jsval \<Rightarrow> bool" where
  "purchase_line_ok products item \<longleftrightarrow> (purchase_serialized products item \<longrightarrow>
     Fin (of_nat (length (purchase_pairs item))) = abs_qty (jget item ''quantity'') \<and>
     (requiresMac (item_product products item) \<longrightarrow> (\<forall>(d, p, m) \<in> set (purchase_pairs item). m \<noteq> [])))"

lemma plan_lines_step:
  assumes "plan_lines products branchId i items st = Inr st'" and "plan_wf st"
  shows "plan_wf st' \<and> (\<forall>item \<in> set items. purchase_line_ok products item) \<and>
    ps_entries st' = ps_entries st @
      concat (map (\<lambda>(k, item). purchase_line products branchId k item) (enumerate i items))"
  using assms
proof (induction items arbitrary: i st)
  case Nil
  then show ?case by simp
next
  case (Cons item items)
  show ?case
  proof (cases "purchase_serialized products item")
    case False
    with Cons.prems(1) have "plan_lines products branchId (Suc i) items st = Inr st'"
      by (auto simp: purchase_serialized_def Let_def)
    from Cons.IH [OF this Cons.prems(2)] False show ?thesis
      by (simp add: purchase_line_def purchase_line_ok_def)
  next
    case True
    with Cons.prems(1) obtain st1 where
      st1: "plan_pairs item (item_name (item_product products item) item) branchId i
        (requiresMac (item_product products item)) (purchase_pairs item) st = Inr st1"
      and rest: "plan_lines products branchId (Suc i) items st1 = Inr st'"
      and qty: "Fin (of_nat (length (purchase_pairs item))) = abs_qty (jget item ''quantity'')"
      by (auto simp: purchase_serialized_def Let_def split: if_splits sum.splits)
    note step = plan_pairs_step [OF st1 Cons.prems(2) purchase_pairs_normal]
    then have "plan_wf st1" by blast
    from Cons.IH [OF rest this] step qty True show ?thesis
      by (auto simp: purchase_line_def purchase_line_ok_def)
  qed
qed

lemma planPurchaseSerialEntries_sound:
  assumes "planPurchaseSerialEntries items products branchId = Inr es"
  shows "es = concat (map (\<lambda>(k, item). purchase_line products branchId k item) (enumerate 0 items))"
    and "\<forall>item \<in> set items. purchase_line_ok products item"
    and "distinct (map (\<lambda>e. serialKey (JStr (pe_deviceSerial e))) es)"
    and "distinct (ident_keys pe_ponSerial es)" and "distinct (ident_keys pe_macAddress es)"
proof -
  from assms obtain st where run: "plan_lines products branchId 0 items empty_plan = Inr st"
    and es: "es = ps_entries st"
    by (auto simp: planPurchaseSerialEntries_def split: sum.splits)
  have "plan_wf empty_plan" by (simp add: plan_wf_def empty_plan_def ident_keys_def)
  from plan_lines_step [OF run this] es
  show "es = concat (map (\<lambda>(k, item). purchase_line products branchId k item) (enumerate 0 items))"
    and "\<forall>item \<in> set items. purchase_line_ok products item"
    and "distinct (map (\<lambda>e. serialKey (JStr (pe_deviceSerial e))) es)"
    and "distinct (ident_keys pe_ponSerial es)" and "distinct (ident_keys pe_macAddress es)"
    by (auto simp: plan_wf_def empty_plan_def)
qed


section \<open>Properties\<close>

text \<open>C36. A bill's serial plan is sound: the planned units are exactly the units its serial-tracked
lines name, in order and tagged with their line; every such line names as many serials as its
quantity and, for a SERIAL_MAC_PON product, a MAC for each; and no device serial, PON or MAC
is repeated within the bill.\<close>

theorem serial_purchase_plan_sound:
  assumes "planPurchaseSerialEntries items products branchId = Inr es"
  shows "es = concat (map (\<lambda>(k, item). purchase_line products branchId k item) (enumerate 0 items)) \<and>
    (\<forall>item \<in> set items. purchase_line_ok products item) \<and>
    distinct (map (\<lambda>e. serialKey (JStr (pe_deviceSerial e))) es) \<and>
    distinct (ident_keys pe_ponSerial es) \<and> distinct (ident_keys pe_macAddress es)"
  using planPurchaseSerialEntries_sound [OF assms] by blast

definition demo_onu :: serial_product where
  "demo_onu = \<lparr>sp_id = JStr ''prd1'', sp_name = JStr ''ONU'', sp_requiresSerialTracking = JBool True,
     sp_trackingType = JStr ''SERIAL_MAC_PON''\<rparr>"

definition demo_line :: "string \<Rightarrow> jsval" where
  "demo_line mac2 = JObj [(''productId'', JStr ''prd1''), (''quantity'', JNum (Fin 2)),
     (''deviceSerials'', JArr [
        JObj [(''deviceSerial'', JStr ''A1''), (''macAddress'', JStr ''a4c3f0b1d2e3'')],
        JObj [(''deviceSerial'', JStr ''A2''), (''macAddress'', JStr mac2)]])]"

definition demo_unit :: "string \<Rightarrow> string \<Rightarrow> purchase_entry" where
  "demo_unit d mac = \<lparr>pe_deviceSerial = d, pe_ponSerial = None, pe_macAddress = Some mac,
     pe_productId = ''prd1'', pe_productName = ''ONU'', pe_branchId = ''BR1'', pe_lineIndex = 0\<rparr>"

lemma demo_plan:
  "planPurchaseSerialEntries [demo_line ''a4c3f0b1d2e4''] [demo_onu] ''BR1'' =
     Inr [demo_unit ''A1'' ''A4:C3:F0:B1:D2:E3'', demo_unit ''A2'' ''A4:C3:F0:B1:D2:E4'']"
  by code_simp

theorem serial_purchase_plan_sound_witness:
  "planPurchaseSerialEntries [demo_line ''a4c3f0b1d2e4''] [demo_onu] ''BR1'' =
     Inr [demo_unit ''A1'' ''A4:C3:F0:B1:D2:E3'', demo_unit ''A2'' ''A4:C3:F0:B1:D2:E4''] \<and>
   purchase_line_ok [demo_onu] (demo_line ''a4c3f0b1d2e4'') \<and>
   planPurchaseSerialEntries [demo_line ''A4-C3-F0-B1-D2-E3''] [demo_onu] ''BR1'' =
     Inl ''Duplicate MAC address A4:C3:F0:B1:D2:E3 on this purchase invoice.''"
proof -
  have "planPurchaseSerialEntries [demo_line ''A4-C3-F0-B1-D2-E3''] [demo_onu] ''BR1'' =
     Inl ''Duplicate MAC address A4:C3:F0:B1:D2:E3 on this purchase invoice.''"
    by code_simp
  then show ?thesis using serial_purchase_plan_sound [OF demo_plan] demo_plan by simp
qed

text \<open>C7. Posting a bill's units: if the register write succeeds, the register's ids, device
serials, PONs and MACs stay unique; every unit of the bill is in stock at the bill's branch
and attributed to the bill; each of them was new or had been returned to its vendor, so no unit
is received twice; and no other row of the register changes.\<close>

theorem serial_receipt:
  assumes "registerPurchaseSerials newId ts inv_id no date branchId es rows = Inr (u, rows')"
    and "register_inv rows"
  shows "register_inv rows' \<and>
    (\<forall>e \<in> set es. \<exists>r \<in> set rows'. received inv_id branchId e r) \<and>
    (\<forall>r \<in> set rows. pg_key (sl_deviceSerial r) \<in> (\<lambda>e. pg_key (pe_deviceSerial e)) ` set es \<longrightarrow>
        sl_status r = ''RETURNED_TO_VENDOR'') \<and>
    (\<forall>r. pg_key (sl_deviceSerial r) \<notin> (\<lambda>e. pg_key (pe_deviceSerial e)) ` set es \<longrightarrow>
        (r \<in> set rows' \<longleftrightarrow> r \<in> set rows))"
  using registerPurchaseSerials_inv [OF assms]
    register_units_effect [OF assms [unfolded registerPurchaseSerials_def]] by blast

definition vendor_row :: "string \<Rightarrow> slog_row" where
  "vendor_row st = \<lparr>sl_id = ''sl-0'', sl_deviceSerial = ''a1'', sl_ponSerial = Some ''PON-OLD'',
     sl_macAddress = None, sl_productId = Some ''prd1'', sl_productName = Some ''ONU'',
     sl_branchId = Some ''BR9'', sl_customerId = Some ''c1'', sl_customerName = Some ''Ram'',
     sl_status = st, sl_sourceType = ''PURCHASE_RETURN'', sl_sourceId = Some ''pr1'',
     sl_history = [], sl_updatedAt = ''2026-01-01''\<rparr>"

definition demo_receipt :: "slog_row list \<Rightarrow> api_error + (unit \<times> slog_row list)" where
  "demo_receipt = registerPurchaseSerials (\<lambda>e. ''sl-'' @ pe_deviceSerial e) ''2026-02-02'' ''inv1'' None
     ''2026-02-02T00:00'' ''BR1'' [demo_unit ''A1'' ''A4:C3:F0:B1:D2:E3'', demo_unit ''A2'' ''A4:C3:F0:B1:D2:E4'']"

theorem serial_receipt_witness:
  "(\<exists>rows'. demo_receipt [vendor_row ''RETURNED_TO_VENDOR''] = Inr ((), rows') \<and>
      register_inv rows' \<and> length rows' = 2) \<and>
   (\<exists>err. demo_receipt [vendor_row ''IN_STOCK''] = Inl err)"
proof -
  have inv: "register_inv [vendor_row ''RETURNED_TO_VENDOR'']" by code_simp
  have ok: "(case demo_receipt [vendor_row ''RETURNED_TO_VENDOR''] of Inr (_, rs) \<Rightarrow> length rs = 2 | _ \<Rightarrow> False)"
    and no: "(case demo_receipt [vendor_row ''IN_STOCK''] of Inl _ \<Rightarrow> True | _ \<Rightarrow> False)"
    by code_simp+
  from ok obtain rows' where run: "demo_receipt [vendor_row ''RETURNED_TO_VENDOR''] = Inr ((), rows')"
    and len: "length rows' = 2"
    by (auto split: sum.splits)
  have "register_inv rows'"
    using serial_receipt [OF run [unfolded demo_receipt_def] inv] by blast
  with run len no show ?thesis by (auto split: sum.splits)
qed

text \<open>The demo-mode mirror is documented as the twin of the transactional write, but the two
disagree when a unit the vendor took back is received again with a blank PON: the UPDATE's
COALESCE keeps the old PON and the old customer on the row, the mirror clears both.\<close>

theorem register_twin_divergence:
  "\<exists>db mem. registerPurchaseSerials (\<lambda>_. ''sl-1'') ''t'' ''inv1'' None ''2026-02-02'' ''BR1''
        [demo_unit ''A1'' ''A4:C3:F0:B1:D2:E3''] [vendor_row ''RETURNED_TO_VENDOR''] = Inr ((), [db]) \<and>
     applyRegisterEntryToMirror [vendor_row ''RETURNED_TO_VENDOR''] (demo_unit ''A1'' ''A4:C3:F0:B1:D2:E3'')
        ''sl-1'' ''t'' (purchaseRegisterHistoryEntry ''inv1'' None ''2026-02-02'') ''inv1'' = ([mem], REACTIVATED) \<and>
     sl_ponSerial db = Some ''PON-OLD'' \<and> sl_ponSerial mem = None \<and>
     sl_customerId db = Some ''c1'' \<and> sl_customerId mem = None"
proof -
  let ?h = "purchaseRegisterHistoryEntry ''inv1'' None ''2026-02-02''"
  let ?mem = "receipt_row ''sl-0'' ''t'' [?h] ''inv1'' ''BR1'' (demo_unit ''A1'' ''A4:C3:F0:B1:D2:E3'')"
  let ?db = "?mem\<lparr>sl_deviceSerial := ''a1'', sl_ponSerial := Some ''PON-OLD'',
      sl_customerId := Some ''c1'', sl_customerName := Some ''Ram''\<rparr>"
  have "registerPurchaseSerials (\<lambda>_. ''sl-1'') ''t'' ''inv1'' None ''2026-02-02'' ''BR1''
        [demo_unit ''A1'' ''A4:C3:F0:B1:D2:E3''] [vendor_row ''RETURNED_TO_VENDOR''] = Inr ((), [?db])"
    and "applyRegisterEntryToMirror [vendor_row ''RETURNED_TO_VENDOR''] (demo_unit ''A1'' ''A4:C3:F0:B1:D2:E3'')
        ''sl-1'' ''t'' ?h ''inv1'' = ([?mem], REACTIVATED)"
    by code_simp+
  then show ?thesis by (simp add: receipt_row_def demo_unit_def)
qed

end
