(* ===== verification/SerialLifecycle.thy ===== *)
theory SerialLifecycle
  imports SerialRegister
begin

text \<open>
  The life of a registered unit under stock operations,
  \<open>server/src/services/serialOperationLifecycle.service.ts\<close> with the three UPDATE statements of
  \<open>server/src/models/inventory.repo.ts\<close> it issues, and the demo-mode twins. A PULLOUT moves its
  units to IN_TRANSIT, a CONSUMABLE_ISSUE to CONSUMED, a STOCK_OUT to SOLD; reversing the
  operation or receiving the pullout moves exactly the operation's own units on. The lemmas
  characterise each transaction completely: when it succeeds and which rows it changes.
\<close>

section \<open>Operations\<close>

text \<open>\<open>SerializableOperation\<close>; \<open>op_items\<close> is \<open>None\<close> when the document has no array of lines.\<close>

record stock_op =
  op_id :: string
  op_type :: string
  op_branchId :: string
  op_referenceNumber :: string
  op_items :: "jsval list option"
  op_deviceSerials :: jsval

definition issueStatusForOperation :: "string \<Rightarrow> string option" where
  "issueStatusForOperation opType =
     (let t = to_upper (trim opType) in
      if t = ''PULLOUT'' then Some ''IN_TRANSIT''
      else if t = ''CONSUMABLE_ISSUE'' then Some ''CONSUMED''
      else if t = ''STOCK_OUT'' then Some ''SOLD''
      else None)"

definition operationHistoryEntry :: "string \<Rightarrow> stock_op \<Rightarrow> string \<Rightarrow> string \<Rightarrow> history_entry" where
  "operationHistoryEntry status op dateAD notes =
     \<lparr>he_status = status, he_sourceType = ''STOCK_OP'', he_sourceId = op_id op,
      he_dateAD = dateAD, he_notes = notes\<rparr>"

definition serialsOfItem :: "jsval \<Rightarrow> string list" where
  "serialsOfItem item =
     filter (\<lambda>s. s \<noteq> [])
       (map (\<lambda>entry. serial_field entry ''deviceSerial'') (arr_or_empty (jget item ''deviceSerials'')))"

definition damagedStockSerialKeys :: "jsval list option \<Rightarrow> string list" where
  "damagedStockSerialKeys items =
     concat (map (\<lambda>item. if to_upper (str_or (jget item ''condition'')) \<noteq> ''DAMAGED_STOCK'' then []
                         else map (\<lambda>s. serialGateKey (JStr s)) (serialsOfItem item))
       (case items of None \<Rightarrow> [] | Some xs \<Rightarrow> xs))"

definition operationSerials :: "stock_op \<Rightarrow> string list" where
  "operationSerials op =
     concat (map serialsOfItem
       (case op_items op of Some (x # xs) \<Rightarrow> x # xs
        | _ \<Rightarrow> [JObj [(''deviceSerials'', op_deviceSerials op)]]))"

definition op_label :: "stock_op \<Rightarrow> string" where
  "op_label op = (if op_referenceNumber op = [] then op_id op else op_referenceNumber op)"

definition issue_history :: "string \<Rightarrow> stock_op \<Rightarrow> string \<Rightarrow> history_entry" where
  "issue_history status op ts = operationHistoryEntry status op ts
     (''Issued by stock operation '' @ op_label op @ '' ('' @ op_type op @ '')'')"

definition restore_history :: "stock_op \<Rightarrow> string \<Rightarrow> string \<Rightarrow> string \<Rightarrow> history_entry" where
  "restore_history op reason reversedBy ts = operationHistoryEntry ''IN_STOCK'' op ts
     (''Restored -- '' @ op_type op @ '' '' @ op_label op @ '' reversed by '' @ reversedBy @ '': '' @ reason)"

definition receive_history :: "stock_op \<Rightarrow> string \<Rightarrow> string \<Rightarrow> history_entry" where
  "receive_history op destinationId ts = operationHistoryEntry ''IN_STOCK'' op ts
     (''Received at '' @ destinationId @ '' -- pullout '' @ op_label op)"

section \<open>The statements\<close>

definition issue_row :: "string \<Rightarrow> string \<Rightarrow> history_entry \<Rightarrow> string \<Rightarrow> slog_row \<Rightarrow> slog_row" where
  "issue_row status opid h ts r =
     r\<lparr>sl_status := status, sl_sourceType := ''STOCK_OP'', sl_sourceId := Some opid,
       sl_history := sl_history r @ [h], sl_updatedAt := ts\<rparr>"

definition restore_row :: "string \<Rightarrow> history_entry \<Rightarrow> string \<Rightarrow> slog_row \<Rightarrow> slog_row" where
  "restore_row opid h ts r =
     r\<lparr>sl_status := ''IN_STOCK'', sl_customerId := None, sl_customerName := None,
       sl_sourceType := ''STOCK_OP'', sl_sourceId := Some opid,
       sl_history := sl_history r @ [h], sl_updatedAt := ts\<rparr>"

definition receive_row :: "string \<Rightarrow> string \<Rightarrow> history_entry \<Rightarrow> string \<Rightarrow> slog_row \<Rightarrow> slog_row" where
  "receive_row destinationId opid h ts r =
     r\<lparr>sl_status := ''IN_STOCK'', sl_branchId := Some destinationId, sl_sourceType := ''STOCK_OP'',
       sl_sourceId := Some opid, sl_history := sl_history r @ [h], sl_updatedAt := ts\<rparr>"

text \<open>An UPDATE ... WHERE: the number of rows it matched and the new table.\<close>

definition sql_update :: "(slog_row \<Rightarrow> bool) \<Rightarrow> (slog_row \<Rightarrow> slog_row) \<Rightarrow> slog_row list \<Rightarrow> nat \<times> slog_row list" where
  "sql_update P f rows = (length (filter P rows), map (\<lambda>r. if P r then f r else r) rows)"

definition SERIAL_LOG_ISSUE_ON_OPERATION ::
  "string \<Rightarrow> string \<Rightarrow> history_entry \<Rightarrow> string \<Rightarrow> string \<Rightarrow> string \<Rightarrow> slog_row list \<Rightarrow> nat \<times> slog_row list" where
  "SERIAL_LOG_ISSUE_ON_OPERATION status opid h ts deviceSerial branchId =
     sql_update (\<lambda>r. pg_key (sl_deviceSerial r) = pg_key deviceSerial \<and>
                     sl_branchId r = Some branchId \<and> sl_status r = ''IN_STOCK'')
       (issue_row status opid h ts)"

definition restorable :: "string \<Rightarrow> string \<Rightarrow> string \<Rightarrow> slog_row \<Rightarrow> bool" where
  "restorable opid status branchId r \<longleftrightarrow>
     sl_sourceId r = Some opid \<and> sl_status r = status \<and> sl_branchId r = Some branchId"

definition SERIAL_LOG_RESTORE_ON_OPERATION_REVERSAL ::
  "string \<Rightarrow> history_entry \<Rightarrow> string \<Rightarrow> string \<Rightarrow> string \<Rightarrow> slog_row list \<Rightarrow> string list \<times> slog_row list" where
  "SERIAL_LOG_RESTORE_ON_OPERATION_REVERSAL opid h ts status branchId rows =
     (map sl_deviceSerial (filter (restorable opid status branchId) rows),
      map (\<lambda>r. if restorable opid status branchId r then restore_row opid h ts r else r) rows)"

definition receivable :: "string \<Rightarrow> slog_row \<Rightarrow> bool" where
  "receivable opid r \<longleftrightarrow> sl_sourceId r = Some opid \<and> sl_status r = ''IN_TRANSIT''"

definition SERIAL_LOG_RECEIVE_PULLOUT ::
  "string \<Rightarrow> string \<Rightarrow> history_entry \<Rightarrow> string \<Rightarrow> slog_row list \<Rightarrow> string list \<times> slog_row list" where
  "SERIAL_LOG_RECEIVE_PULLOUT destinationId opid h ts rows =
     (map sl_deviceSerial (filter (receivable opid) rows),
      map (\<lambda>r. if receivable opid r then receive_row destinationId opid h ts r else r) rows)"

section \<open>The transactional operations\<close>

text \<open>One unit of the issue loop: a statement that does not match exactly one row aborts.\<close>

definition issue_unit ::
  "string \<Rightarrow> stock_op \<Rightarrow> string \<Rightarrow> string list \<Rightarrow> gate_entry \<Rightarrow> (slog_row list, unit) tx" where
  "issue_unit status op ts damaged e =
     (if serialGateKey (JStr (ge_deviceSerial e)) \<in> set damaged then treturn ()
      else (\<lambda>rows.
        let (n, rows') = SERIAL_LOG_ISSUE_ON_OPERATION status (op_id op) (issue_history status op ts) ts
              (ge_deviceSerial e) (op_branchId op) rows
        in if n \<noteq> 1
           then Inl (ApiError 409 (''Device serial '' @ ge_deviceSerial e @
             '' changed state before this operation could be posted. Nothing was saved; please retry.''))
           else Inr ((), rows')))"

definition issueOperationSerialsInDb ::
  "gate_entry list \<Rightarrow> stock_op \<Rightarrow> string \<Rightarrow> (slog_row list, string list) tx" where
  "issueOperationSerialsInDb entries op ts =
     (case issueStatusForOperation (op_type op) of
        None \<Rightarrow> treturn []
      | Some status \<Rightarrow>
          if entries = [] then treturn []
          else let damaged = damagedStockSerialKeys (op_items op) in
            tbind (tfor (issue_unit status op ts damaged) entries) (\<lambda>_.
            treturn (map ge_deviceSerial
              (filter (\<lambda>e. serialGateKey (JStr (ge_deviceSerial e)) \<notin> set damaged) entries))))"

definition restoreOperationSerialsInDb ::
  "stock_op \<Rightarrow> string \<Rightarrow> string \<Rightarrow> string \<Rightarrow> slog_row list \<Rightarrow> string list \<times> slog_row list" where
  "restoreOperationSerialsInDb op reason reversedBy ts rows =
     (case issueStatusForOperation (op_type op) of
        None \<Rightarrow> ([], rows)
      | Some status \<Rightarrow>
          let (ds, rows') = SERIAL_LOG_RESTORE_ON_OPERATION_REVERSAL (op_id op)
                (restore_history op reason reversedBy ts) ts status (op_branchId op) rows
          in (filter (\<lambda>d. d \<noteq> []) ds, rows'))"

definition receivePulloutSerialsInDb ::
  "stock_op \<Rightarrow> string \<Rightarrow> string \<Rightarrow> slog_row list \<Rightarrow> string list \<times> slog_row list" where
  "receivePulloutSerialsInDb op destinationId ts rows =
     (if to_upper (op_type op) \<noteq> ''PULLOUT'' then ([], rows)
      else let (ds, rows') = SERIAL_LOG_RECEIVE_PULLOUT destinationId (op_id op)
                 (receive_history op destinationId ts) ts rows
           in (filter (\<lambda>d. d \<noteq> []) ds, rows'))"

section \<open>The demo-mode twins\<close>

definition opt_or_empty :: "string option \<Rightarrow> string" where
  "opt_or_empty v = (case v of None \<Rightarrow> [] | Some s \<Rightarrow> s)"

definition issueOperationSerialsInMemory ::
  "slog_row list \<Rightarrow> gate_entry list \<Rightarrow> stock_op \<Rightarrow> string \<Rightarrow> slog_row list" where
  "issueOperationSerialsInMemory rows entries op ts =
     (case issueStatusForOperation (op_type op) of
        None \<Rightarrow> rows
      | Some status \<Rightarrow>
          if entries = [] then rows
          else let damaged = damagedStockSerialKeys (op_items op);
                   keys = map (\<lambda>e. serialGateKey (JStr (ge_deviceSerial e))) entries
          in map (\<lambda>r. let key = serialGateKey (JStr (sl_deviceSerial r)) in
                   if key \<notin> set keys \<or> key \<in> set damaged then r
                   else if sl_status r \<noteq> ''IN_STOCK'' \<or> opt_or_empty (sl_branchId r) \<noteq> op_branchId op then r
                   else issue_row status (op_id op) (issue_history status op ts) ts r) rows)"

definition restoreOperationSerialsInMemory ::
  "slog_row list \<Rightarrow> stock_op \<Rightarrow> string \<Rightarrow> string \<Rightarrow> string \<Rightarrow> slog_row list" where
  "restoreOperationSerialsInMemory rows op reason reversedBy ts =
     (case issueStatusForOperation (op_type op) of
        None \<Rightarrow> rows
      | Some status \<Rightarrow>
          map (\<lambda>r. if opt_or_empty (sl_sourceId r) \<noteq> op_id op then r
                   else if sl_status r \<noteq> status then r
                   else if opt_or_empty (sl_branchId r) \<noteq> op_branchId op then r
                   else restore_row (op_id op) (restore_history op reason reversedBy ts) ts r) rows)"

definition receivePulloutSerialsInMemory ::
  "slog_row list \<Rightarrow> stock_op \<Rightarrow> string \<Rightarrow> string \<Rightarrow> slog_row list" where
  "receivePulloutSerialsInMemory rows op destinationId ts =
     (if to_upper (op_type op) \<noteq> ''PULLOUT'' then rows
      else map (\<lambda>r. if opt_or_empty (sl_sourceId r) \<noteq> op_id op then r
                    else if sl_status r \<noteq> ''IN_TRANSIT'' then r
                    else receive_row destinationId (op_id op) (receive_history op destinationId ts) ts r) rows)"


section \<open>What a statement changes\<close>

abbreviation same_unit :: "slog_row \<Rightarrow> slog_row \<Rightarrow> bool" where
  "same_unit r r' \<equiv> sl_id r' = sl_id r \<and> sl_deviceSerial r' = sl_deviceSerial r \<and>
     sl_ponSerial r' = sl_ponSerial r \<and> sl_macAddress r' = sl_macAddress r \<and>
     sl_productId r' = sl_productId r"

lemma issue_row_simps [simp]:
  "same_unit r (issue_row st opid h ts r)"
  "sl_status (issue_row st opid h ts r) = st"
  "sl_branchId (issue_row st opid h ts r) = sl_branchId r"
  "sl_sourceId (issue_row st opid h ts r) = Some opid"
  "sl_history (issue_row st opid h ts r) = sl_history r @ [h]"
  by (simp_all add: issue_row_def)

lemma restore_row_simps [simp]:
  "same_unit r (restore_row opid h ts r)"
  "sl_status (restore_row opid h ts r) = ''IN_STOCK''"
  "sl_branchId (restore_row opid h ts r) = sl_branchId r"
  "sl_sourceId (restore_row opid h ts r) = Some opid"
  "sl_history (restore_row opid h ts r) = sl_history r @ [h]"
  by (simp_all add: restore_row_def)

lemma receive_row_simps [simp]:
  "same_unit r (receive_row dest opid h ts r)"
  "sl_status (receive_row dest opid h ts r) = ''IN_STOCK''"
  "sl_branchId (receive_row dest opid h ts r) = Some dest"
  "sl_sourceId (receive_row dest opid h ts r) = Some opid"
  "sl_history (receive_row dest opid h ts r) = sl_history r @ [h]"
  by (simp_all add: receive_row_def)

text \<open>An UPDATE that leaves the identifiers alone keeps the register's uniqueness.\<close>

lemma unique_keys_map:
  "(\<And>r. g (f r) = g r) \<Longrightarrow> unique_keys g (map f rows) = unique_keys g rows"
  by (simp add: unique_keys_def sorted_wrt_map)

lemma register_inv_map:
  assumes "\<And>r. same_unit r (f r)"
  shows "register_inv (map f rows) = register_inv rows"
  using assms by (simp add: register_inv_def unique_keys_map comp_def)

lemma issueStatus_not_stock:
  "issueStatusForOperation t = Some st \<Longrightarrow> st \<in> {''IN_TRANSIT'', ''CONSUMED'', ''SOLD''}"
  by (auto simp: issueStatusForOperation_def Let_def split: if_splits)

lemma issueStatus_ne_stock: "issueStatusForOperation t = Some st \<Longrightarrow> st \<noteq> ''IN_STOCK''"
  by (auto dest: issueStatus_not_stock)

section \<open>The issue loop\<close>

definition at_stock :: "string \<Rightarrow> slog_row \<Rightarrow> bool" where
  "at_stock branchId r \<longleftrightarrow> sl_status r = ''IN_STOCK'' \<and> sl_branchId r = Some branchId"

definition live_entries :: "stock_op \<Rightarrow> gate_entry list \<Rightarrow> gate_entry list" where
  "live_entries op es =
     filter (\<lambda>e. serialGateKey (JStr (ge_deviceSerial e)) \<notin> set (damagedStockSerialKeys (op_items op))) es"

abbreviation entry_pg_key :: "gate_entry \<Rightarrow> string" where
  "entry_pg_key e \<equiv> pg_key (ge_deviceSerial e)"

definition issue_where :: "(slog_row \<Rightarrow> slog_row) \<Rightarrow> string set \<Rightarrow> slog_row list \<Rightarrow> slog_row list" where
  "issue_where f K rows = map (\<lambda>r. if row_key r \<in> K then f r else r) rows"

lemma filter_length_one:
  assumes "distinct (map k rows)"
  shows "length (filter (\<lambda>r. k r = x \<and> P r) rows) = 1 \<longleftrightarrow> (\<exists>r \<in> set rows. k r = x \<and> P r)"
  using assms
proof (induction rows)
  case Nil
  then show ?case by simp
next
  case (Cons r rows)
  show ?case
  proof (cases "k r = x \<and> P r")
    case True
    with Cons.prems have "x \<notin> k ` set rows" by simp
    then have "\<forall>r' \<in> set rows. k r' \<noteq> x" by blast
    then have "filter (\<lambda>r. k r = x \<and> P r) rows = []" by (auto simp: filter_empty_conv)
    with True show ?thesis by simp
  next
    case False
    with Cons show ?thesis by auto
  qed
qed

lemma issue_unit_iff:
  assumes inv: "distinct (map row_key rows)"
    and live: "serialGateKey (JStr (ge_deviceSerial e)) \<notin> set damaged"
  shows "issue_unit st op ts damaged e rows = Inr ((), rows') \<longleftrightarrow>
     (\<exists>r \<in> set rows. row_key r = entry_pg_key e \<and> at_stock (op_branchId op) r) \<and>
     rows' = issue_where (issue_row st (op_id op) (issue_history st op ts) ts) {entry_pg_key e} rows"
    (is "?L \<longleftrightarrow> ?E \<and> ?R")
proof -
  let ?P = "\<lambda>r. sl_branchId r = Some (op_branchId op) \<and> sl_status r = ''IN_STOCK''"
  have E: "?E \<longleftrightarrow> length (filter (\<lambda>r. row_key r = entry_pg_key e \<and> ?P r) rows) = 1"
    unfolding filter_length_one [OF inv] by (auto simp: at_stock_def)
  have "?E \<Longrightarrow> map (\<lambda>r. if row_key r = entry_pg_key e \<and> ?P r then issue_row st (op_id op) (issue_history st op ts) ts r else r) rows
     = issue_where (issue_row st (op_id op) (issue_history st op ts) ts) {entry_pg_key e} rows"
    using inv by (auto simp: issue_where_def at_stock_def distinct_map inj_on_def)
  then show ?thesis
    using E live
    by (auto simp: issue_unit_def SERIAL_LOG_ISSUE_ON_OPERATION_def sql_update_def Let_def)
qed

lemma issue_where_keys [simp]:
  "(\<And>r. same_unit r (f r)) \<Longrightarrow> map row_key (issue_where f K rows) = map row_key rows"
  by (simp add: issue_where_def)

lemma issue_where_twice:
  "(\<And>r. same_unit r (f r)) \<Longrightarrow> k \<notin> K \<Longrightarrow>
   issue_where f K (issue_where f {k} rows) = issue_where f (insert k K) rows"
  by (auto simp: issue_where_def)

lemma issue_where_stock:
  assumes "st \<noteq> ''IN_STOCK''"
  shows "(\<exists>r \<in> set (issue_where (issue_row st opid h ts) {k} rows). row_key r = k' \<and> at_stock b r) \<longleftrightarrow>
     k' \<noteq> k \<and> (\<exists>r \<in> set rows. row_key r = k' \<and> at_stock b r)"
  using assms by (auto simp: issue_where_def at_stock_def)

lemma issue_loop_iff:
  assumes "distinct (map row_key rows)" and "st \<noteq> ''IN_STOCK''"
  shows "tfor (issue_unit st op ts (damagedStockSerialKeys (op_items op))) es rows = Inr ((), rows') \<longleftrightarrow>
     distinct (map entry_pg_key (live_entries op es)) \<and>
     (\<forall>e \<in> set (live_entries op es).
        \<exists>r \<in> set rows. row_key r = entry_pg_key e \<and> at_stock (op_branchId op) r) \<and>
     rows' = issue_where (issue_row st (op_id op) (issue_history st op ts) ts)
               (entry_pg_key ` set (live_entries op es)) rows"
  using assms(1)
proof (induction es arbitrary: rows)
  case Nil
  then show ?case by (auto simp: live_entries_def issue_where_def)
next
  case (Cons e es)
  let ?f = "issue_row st (op_id op) (issue_history st op ts) ts"
  let ?d = "damagedStockSerialKeys (op_items op)"
  show ?case
  proof (cases "serialGateKey (JStr (ge_deviceSerial e)) \<in> set ?d")
    case True
    then show ?thesis using Cons by (simp add: live_entries_def issue_unit_def)
  next
    case False
    let ?r1 = "issue_where ?f {entry_pg_key e} rows"
    have live: "live_entries op (e # es) = e # live_entries op es" using False by (simp add: live_entries_def)
    have "distinct (map row_key ?r1)" using Cons.prems by simp
    note IH = Cons.IH [OF this]
    have "tfor (issue_unit st op ts ?d) (e # es) rows = Inr ((), rows') \<longleftrightarrow>
        (\<exists>r \<in> set rows. row_key r = entry_pg_key e \<and> at_stock (op_branchId op) r) \<and>
        tfor (issue_unit st op ts ?d) es ?r1 = Inr ((), rows')"
      by (auto simp: issue_unit_iff [OF Cons.prems False])
    note run = this [unfolded IH issue_where_stock [OF assms(2)]]
    show ?thesis
    proof (cases "entry_pg_key e \<in> entry_pg_key ` set (live_entries op es)")
      case True
      then show ?thesis unfolding run live by auto
    next
      case False
      then have "issue_where ?f (entry_pg_key ` set (live_entries op es)) ?r1 =
          issue_where ?f (entry_pg_key ` set (live_entries op (e # es))) rows"
        unfolding live by (simp add: issue_where_twice)
      moreover from False have "\<forall>e' \<in> set (live_entries op es). entry_pg_key e' \<noteq> entry_pg_key e"
        by (metis imageI)
      ultimately show ?thesis using False unfolding run live by auto
    qed
  qed
qed

text \<open>The issue transaction, completely.\<close>

lemma issueOperationSerialsInDb_iff:
  assumes "distinct (map row_key rows)" and "issueStatusForOperation (op_type op) = Some st"
  shows "issueOperationSerialsInDb es op ts rows = Inr (ds, rows') \<longleftrightarrow>
     distinct (map entry_pg_key (live_entries op es)) \<and>
     (\<forall>e \<in> set (live_entries op es).
        \<exists>r \<in> set rows. row_key r = entry_pg_key e \<and> at_stock (op_branchId op) r) \<and>
     ds = map ge_deviceSerial (live_entries op es) \<and>
     rows' = issue_where (issue_row st (op_id op) (issue_history st op ts) ts)
               (entry_pg_key ` set (live_entries op es)) rows"
proof (cases "es = []")
  case True
  then show ?thesis using assms
    by (auto simp: issueOperationSerialsInDb_def live_entries_def issue_where_def)
next
  case False
  note loop = issue_loop_iff [OF assms(1) issueStatus_ne_stock [OF assms(2)]]
  from False assms(2) show ?thesis
    by (auto simp: issueOperationSerialsInDb_def Let_def loop live_entries_def)
qed


section \<open>Restoring and receiving\<close>

lemma restoreOperationSerialsInDb_rows:
  assumes "issueStatusForOperation (op_type op) = Some st"
  shows "snd (restoreOperationSerialsInDb op reason by_user ts rows) =
     map (\<lambda>r. if restorable (op_id op) st (op_branchId op) r
              then restore_row (op_id op) (restore_history op reason by_user ts) ts r else r) rows"
  using assms
  by (simp add: restoreOperationSerialsInDb_def SERIAL_LOG_RESTORE_ON_OPERATION_REVERSAL_def)

lemma receivePulloutSerialsInDb_rows:
  assumes "to_upper (op_type op) = ''PULLOUT''"
  shows "snd (receivePulloutSerialsInDb op dest ts rows) =
     map (\<lambda>r. if receivable (op_id op) r
              then receive_row dest (op_id op) (receive_history op dest ts) ts r else r) rows"
  using assms by (simp add: receivePulloutSerialsInDb_def SERIAL_LOG_RECEIVE_PULLOUT_def)

lemma restore_register_inv [simp]:
  "register_inv (snd (restoreOperationSerialsInDb op reason by_user ts rows)) = register_inv rows"
proof (cases "issueStatusForOperation (op_type op)")
  case None
  then show ?thesis by (simp add: restoreOperationSerialsInDb_def)
next
  case (Some st)
  then show ?thesis
    by (subst restoreOperationSerialsInDb_rows) (simp_all add: register_inv_map)
qed

lemma receive_register_inv [simp]:
  "register_inv (snd (receivePulloutSerialsInDb op dest ts rows)) = register_inv rows"
proof (cases "to_upper (op_type op) = ''PULLOUT''")
  case False
  then show ?thesis by (simp add: receivePulloutSerialsInDb_def)
next
  case True
  then show ?thesis
    by (subst receivePulloutSerialsInDb_rows) (simp_all add: register_inv_map)
qed

lemma register_inv_row_keys: "register_inv rows \<Longrightarrow> distinct (map row_key rows)"
  by (simp add: register_inv_def comp_def)

lemma issue_register_inv:
  assumes "issueOperationSerialsInDb es op ts rows = Inr (ds, rows')" and "register_inv rows"
  shows "register_inv rows'"
proof (cases "issueStatusForOperation (op_type op)")
  case None
  with assms show ?thesis by (auto simp: issueOperationSerialsInDb_def)
next
  case (Some st)
  have "rows' = issue_where (issue_row st (op_id op) (issue_history st op ts) ts)
      (entry_pg_key ` set (live_entries op es)) rows"
    using assms(1) unfolding issueOperationSerialsInDb_iff [OF register_inv_row_keys [OF assms(2)] Some]
    by blast
  then show ?thesis using assms(2) by (simp add: issue_where_def register_inv_map)
qed

text \<open>Serials being unique, the unit the statement found is the row with its key.\<close>

lemma stock_unique:
  assumes "distinct (map row_key rows)" and "\<forall>k \<in> K. \<exists>r \<in> set rows. row_key r = k \<and> at_stock b r"
    and "r \<in> set rows" and "row_key r \<in> K"
  shows "at_stock b r"
proof -
  from assms(2,4) obtain r' where "r' \<in> set rows" "row_key r' = row_key r" "at_stock b r'" by blast
  with assms(1,3) show ?thesis by (metis distinct_map inj_onD)
qed

text \<open>After a posted issue, exactly the issued rows answer to the operation's reversal.\<close>

lemma issued_restorable:
  assumes "r \<in> set rows" and "\<forall>r \<in> set rows. sl_sourceId r \<noteq> Some opid"
    and "distinct (map row_key rows)"
    and "\<forall>k \<in> K. \<exists>r \<in> set rows. row_key r = k \<and> at_stock b r"
  shows "restorable opid st b (if row_key r \<in> K then issue_row st opid h ts r else r)
           \<longleftrightarrow> row_key r \<in> K"
proof (cases "row_key r \<in> K")
  case True
  with stock_unique [OF assms(3,4,1)] show ?thesis by (simp add: restorable_def at_stock_def)
qed (use assms(1,2) in \<open>auto simp: restorable_def\<close>)

lemma issue_restore_rows:
  assumes run: "issueOperationSerialsInDb es op ts rows = Inr (ds, rows1)"
    and inv: "register_inv rows" and fresh: "\<forall>r \<in> set rows. sl_sourceId r \<noteq> Some (op_id op)"
    and st: "issueStatusForOperation (op_type op) = Some st"
  shows "snd (restoreOperationSerialsInDb op reason by_user ts' rows1) =
    issue_where (\<lambda>r. restore_row (op_id op) (restore_history op reason by_user ts') ts'
        (issue_row st (op_id op) (issue_history st op ts) ts r))
      (entry_pg_key ` set (live_entries op es)) rows"
proof -
  note iff = issueOperationSerialsInDb_iff [OF register_inv_row_keys [OF inv] st]
  from run have stock: "\<forall>k \<in> entry_pg_key ` set (live_entries op es).
      \<exists>r \<in> set rows. row_key r = k \<and> at_stock (op_branchId op) r"
    and rows1: "rows1 = issue_where (issue_row st (op_id op) (issue_history st op ts) ts)
      (entry_pg_key ` set (live_entries op es)) rows"
    unfolding iff by auto
  note sel = issued_restorable [OF _ fresh register_inv_row_keys [OF inv] stock]
  show ?thesis
    unfolding restoreOperationSerialsInDb_rows [OF st] rows1 issue_where_def map_map
    by (rule map_cong) (simp_all only: comp_def sel split: if_split, simp)
qed


lemma pullout_status: "to_upper (op_type op) = ''PULLOUT'' \<Longrightarrow> issueStatusForOperation (op_type op) = Some ''IN_TRANSIT''"
proof -
  assume t: "to_upper (op_type op) = ''PULLOUT''"
  have "to_upper (trim (op_type op)) = trim ''PULLOUT''" by (simp add: t [symmetric] trim_to_upper)
  also have "\<dots> = ''PULLOUT''" by code_simp
  finally show ?thesis by (simp add: issueStatusForOperation_def)
qed

lemma issue_receive_rows:
  assumes run: "issueOperationSerialsInDb es op ts rows = Inr (ds, rows1)"
    and inv: "register_inv rows" and fresh: "\<forall>r \<in> set rows. sl_sourceId r \<noteq> Some (op_id op)"
    and po: "to_upper (op_type op) = ''PULLOUT''"
  shows "snd (receivePulloutSerialsInDb op dest ts' rows1) =
    issue_where (\<lambda>r. receive_row dest (op_id op) (receive_history op dest ts') ts'
        (issue_row ''IN_TRANSIT'' (op_id op) (issue_history ''IN_TRANSIT'' op ts) ts r))
      (entry_pg_key ` set (live_entries op es)) rows"
proof -
  note st = pullout_status [OF po]
  from run have rows1: "rows1 = issue_where (issue_row ''IN_TRANSIT'' (op_id op) (issue_history ''IN_TRANSIT'' op ts) ts)
      (entry_pg_key ` set (live_entries op es)) rows"
    unfolding issueOperationSerialsInDb_iff [OF register_inv_row_keys [OF inv] st] by auto
  have sel: "r \<in> set rows \<Longrightarrow>
      receivable (op_id op) (if row_key r \<in> K then issue_row ''IN_TRANSIT'' (op_id op) h ts r else r)
        \<longleftrightarrow> row_key r \<in> K" for r K h
    using fresh by (simp add: receivable_def)
  show ?thesis
    unfolding receivePulloutSerialsInDb_rows [OF po] rows1 issue_where_def map_map
    by (rule map_cong) (simp_all only: comp_def sel split: if_split, simp)
qed

section \<open>The demo-mode twins\<close>

definition slog_keyed :: "slog_row list \<Rightarrow> gate_entry list \<Rightarrow> bool" where
  "slog_keyed rows es \<longleftrightarrow>
     (\<forall>r \<in> set rows. row_key r = serialGateKey (JStr (sl_deviceSerial r))) \<and>
     (\<forall>e \<in> set es. entry_pg_key e = serialGateKey (JStr (ge_deviceSerial e)))"

lemma issue_twin:
  assumes run: "issueOperationSerialsInDb es op ts rows = Inr (ds, rows')"
    and inv: "register_inv rows" and key: "slog_keyed rows es"
  shows "issueOperationSerialsInMemory rows es op ts = rows'"
proof (cases "issueStatusForOperation (op_type op)")
  case None
  with run show ?thesis by (simp add: issueOperationSerialsInDb_def issueOperationSerialsInMemory_def)
next
  case (Some st)
  let ?d = "set (damagedStockSerialKeys (op_items op))"
  let ?ks = "serialGateKey ` JStr ` ge_deviceSerial ` set es"
  let ?K = "entry_pg_key ` set (live_entries op es)"
  from run have stock: "\<forall>k \<in> ?K. \<exists>r \<in> set rows. row_key r = k \<and> at_stock (op_branchId op) r"
    and rows': "rows' = issue_where (issue_row st (op_id op) (issue_history st op ts) ts) ?K rows"
    unfolding issueOperationSerialsInDb_iff [OF register_inv_row_keys [OF inv] Some] by auto
  have sel: "row_key r \<in> ?K \<longleftrightarrow> row_key r \<in> ?ks \<and> row_key r \<notin> ?d" for r
    using key by (auto simp: slog_keyed_def live_entries_def image_iff)
  have at: "at_stock (op_branchId op) r" if "r \<in> set rows" and "row_key r \<in> ?K" for r
    using stock_unique [OF register_inv_row_keys [OF inv] stock that] .
  show ?thesis
  proof (cases "es = []")
    case True
    with rows' Some show ?thesis
      by (simp add: issueOperationSerialsInMemory_def live_entries_def issue_where_def)
  next
    case False
    have "(let k = serialGateKey (JStr (sl_deviceSerial r)) in
             if k \<notin> ?ks \<or> k \<in> ?d then r
             else if sl_status r \<noteq> ''IN_STOCK'' \<or> opt_or_empty (sl_branchId r) \<noteq> op_branchId op then r
             else f r) = (if row_key r \<in> ?K then f r else r)" if r: "r \<in> set rows" for r and f :: "slog_row \<Rightarrow> slog_row"
    proof -
      have k: "serialGateKey (JStr (sl_deviceSerial r)) = row_key r"
        using key r by (simp add: slog_keyed_def)
      from at [OF r] have "row_key r \<in> ?K \<Longrightarrow> sl_status r = ''IN_STOCK'' \<and> opt_or_empty (sl_branchId r) = op_branchId op"
        by (simp add: at_stock_def opt_or_empty_def)
      then show ?thesis unfolding k Let_def sel by auto
    qed
    with False Some rows' show ?thesis
      by (simp add: issueOperationSerialsInMemory_def issue_where_def image_image)
  qed
qed

lemma opt_or_empty_eq: "s \<noteq> [] \<Longrightarrow> opt_or_empty v = s \<longleftrightarrow> v = Some s"
  by (auto simp: opt_or_empty_def split: option.splits)

lemma restore_twin:
  assumes "op_id op \<noteq> []" and "op_branchId op \<noteq> []"
  shows "restoreOperationSerialsInMemory rows op reason by_user ts =
    snd (restoreOperationSerialsInDb op reason by_user ts rows)"
proof (cases "issueStatusForOperation (op_type op)")
  case None
  then show ?thesis by (simp add: restoreOperationSerialsInMemory_def restoreOperationSerialsInDb_def)
next
  case (Some st)
  with assms show ?thesis
    by (simp add: restoreOperationSerialsInMemory_def restoreOperationSerialsInDb_rows
        restorable_def opt_or_empty_eq)
qed

lemma receive_twin:
  assumes "op_id op \<noteq> []"
  shows "receivePulloutSerialsInMemory rows op dest ts = snd (receivePulloutSerialsInDb op dest ts rows)"
proof (cases "to_upper (op_type op) = ''PULLOUT''")
  case False
  then show ?thesis by (simp add: receivePulloutSerialsInMemory_def receivePulloutSerialsInDb_def)
next
  case True
  with assms show ?thesis
    by (simp add: receivePulloutSerialsInMemory_def receivePulloutSerialsInDb_rows receivable_def opt_or_empty_eq)
qed


section \<open>Properties\<close>

text \<open>C26. Issuing the units of a stock operation is all or nothing and drawn from stock: on a register
with unique serials the transaction succeeds exactly when no unit is named twice and every
unit not listed as damaged stock has a row that is IN_STOCK at the operation's own branch; it
then returns those units and moves exactly their rows to the operation's status, attributed to it.\<close>

theorem serial_issue_complete:
  assumes "register_inv rows" and "issueStatusForOperation (op_type op) = Some st"
  shows "issueOperationSerialsInDb es op ts rows = Inr (ds, rows') \<longleftrightarrow>
     distinct (map entry_pg_key (live_entries op es)) \<and>
     (\<forall>e \<in> set (live_entries op es).
        \<exists>r \<in> set rows. row_key r = entry_pg_key e \<and> at_stock (op_branchId op) r) \<and>
     ds = map ge_deviceSerial (live_entries op es) \<and>
     rows' = map (\<lambda>r. if row_key r \<in> entry_pg_key ` set (live_entries op es)
                      then issue_row st (op_id op) (issue_history st op ts) ts r else r) rows"
  unfolding issueOperationSerialsInDb_iff [OF register_inv_row_keys [OF assms(1)] assms(2)]
  by (simp only: issue_where_def)

definition demo_op :: "string \<Rightarrow> stock_op" where
  "demo_op ty = \<lparr>op_id = ''op1'', op_type = ty, op_branchId = ''BR1'', op_referenceNumber = ''STO-1'',
     op_items = Some [], op_deviceSerials = JUndef\<rparr>"

definition stock_row :: "string \<Rightarrow> string \<Rightarrow> string \<Rightarrow> slog_row" where
  "stock_row i d st = (vendor_row st)\<lparr>sl_id := i, sl_deviceSerial := d, sl_ponSerial := None,
     sl_branchId := Some ''BR1'', sl_customerId := None, sl_customerName := None\<rparr>"

definition demo_register :: "slog_row list" where
  "demo_register = [stock_row ''r1'' ''SN-1'' ''IN_STOCK'', stock_row ''r2'' ''SN-2'' ''SOLD'',
     stock_row ''r3'' ''SN-3'' ''IN_STOCK'']"

lemma demo_register_inv: "register_inv demo_register" by code_simp

lemma demo_issue:
  "issueOperationSerialsInDb [demo_entry ''sn-1''] (demo_op ''PULLOUT'') ''t1'' demo_register =
     Inr ([''sn-1''], [issue_row ''IN_TRANSIT'' ''op1'' (issue_history ''IN_TRANSIT'' (demo_op ''PULLOUT'') ''t1'') ''t1''
         (stock_row ''r1'' ''SN-1'' ''IN_STOCK''), stock_row ''r2'' ''SN-2'' ''SOLD'', stock_row ''r3'' ''SN-3'' ''IN_STOCK''])"
  by code_simp

theorem serial_issue_complete_witness:
  "(\<exists>ds rows'. issueOperationSerialsInDb [demo_entry ''sn-1''] (demo_op ''PULLOUT'') ''t1'' demo_register = Inr (ds, rows')) \<and>
   (\<nexists>ds rows'. issueOperationSerialsInDb [demo_entry ''SN-1'', demo_entry ''SN-2''] (demo_op ''PULLOUT'') ''t1''
      demo_register = Inr (ds, rows'))"
proof -
  have st: "issueStatusForOperation (op_type (demo_op ''PULLOUT'')) = Some ''IN_TRANSIT''"
    and no: "\<not> (\<forall>e \<in> set (live_entries (demo_op ''PULLOUT'') [demo_entry ''SN-1'', demo_entry ''SN-2'']).
        \<exists>r \<in> set demo_register. row_key r = entry_pg_key e \<and> at_stock (op_branchId (demo_op ''PULLOUT'')) r)"
    by code_simp+
  show ?thesis
    using demo_issue no unfolding serial_issue_complete [OF demo_register_inv st] by blast
qed

text \<open>C35. Reversing a stock operation gives back what it took: when the operation's id is new to the
register, issuing its units and then reversing it leaves every row with the device, status
and branch it had; the issued units are in stock with no customer, and the rows the operation
did not draw are returned exactly as they were.\<close>

theorem serial_issue_restore:
  assumes "issueOperationSerialsInDb es op ts rows = Inr (ds, rows1)" and "register_inv rows"
    and "\<forall>r \<in> set rows. sl_sourceId r \<noteq> Some (op_id op)"
    and "issueStatusForOperation (op_type op) = Some st"
    and "rows2 = snd (restoreOperationSerialsInDb op reason by_user ts' rows1)"
  shows "map (\<lambda>r. (sl_id r, sl_deviceSerial r, sl_status r, sl_branchId r)) rows2 =
      map (\<lambda>r. (sl_id r, sl_deviceSerial r, sl_status r, sl_branchId r)) rows \<and>
    (\<forall>r \<in> set rows2. row_key r \<in> entry_pg_key ` set (live_entries op es) \<longrightarrow>
       at_stock (op_branchId op) r \<and> sl_customerId r = None) \<and>
    filter (\<lambda>r. row_key r \<notin> entry_pg_key ` set (live_entries op es)) rows2 =
      filter (\<lambda>r. row_key r \<notin> entry_pg_key ` set (live_entries op es)) rows"
proof -
  let ?K = "entry_pg_key ` set (live_entries op es)"
  let ?f = "\<lambda>r. restore_row (op_id op) (restore_history op reason by_user ts') ts'
        (issue_row st (op_id op) (issue_history st op ts) ts r)"
  from assms(1) have stock: "\<forall>k \<in> ?K. \<exists>r \<in> set rows. row_key r = k \<and> at_stock (op_branchId op) r"
    unfolding issueOperationSerialsInDb_iff [OF register_inv_row_keys [OF assms(2)] assms(4)] by auto
  note at = stock_unique [OF register_inv_row_keys [OF assms(2)] stock]
  have rows2: "rows2 = issue_where ?f ?K rows"
    unfolding assms(5) by (rule issue_restore_rows [OF assms(1-4)])
  have "map (\<lambda>r. (sl_id r, sl_deviceSerial r, sl_status r, sl_branchId r)) rows2 =
      map (\<lambda>r. (sl_id r, sl_deviceSerial r, sl_status r, sl_branchId r)) rows"
    unfolding rows2 issue_where_def map_map
    by (rule map_cong) (use at in \<open>simp_all add: at_stock_def\<close>)
  moreover have "\<forall>r \<in> set rows2. row_key r \<in> ?K \<longrightarrow> at_stock (op_branchId op) r \<and> sl_customerId r = None"
    using at by (auto simp: rows2 issue_where_def at_stock_def restore_row_def issue_row_def)
  moreover have "filter (\<lambda>r. row_key r \<notin> ?K) rows2 = filter (\<lambda>r. row_key r \<notin> ?K) rows"
    unfolding rows2 issue_where_def by (induction rows) simp_all
  ultimately show ?thesis by blast
qed

theorem serial_issue_restore_witness:
  "\<exists>rows1 rows2. issueOperationSerialsInDb [demo_entry ''sn-1''] (demo_op ''PULLOUT'') ''t1'' demo_register
        = Inr ([''sn-1''], rows1) \<and>
     map sl_status rows1 = [''IN_TRANSIT'', ''SOLD'', ''IN_STOCK''] \<and>
     snd (restoreOperationSerialsInDb (demo_op ''PULLOUT'') ''typo'' ''ram'' ''t2'' rows1) = rows2 \<and>
     map (\<lambda>r. (sl_id r, sl_deviceSerial r, sl_status r, sl_branchId r)) rows2 =
     map (\<lambda>r. (sl_id r, sl_deviceSerial r, sl_status r, sl_branchId r)) demo_register"
proof -
  have fresh: "\<forall>r \<in> set demo_register. sl_sourceId r \<noteq> Some (op_id (demo_op ''PULLOUT''))"
    and st: "issueStatusForOperation (op_type (demo_op ''PULLOUT'')) = Some ''IN_TRANSIT''"
    by code_simp+
  from serial_issue_restore [OF demo_issue demo_register_inv fresh st refl] demo_issue
  show ?thesis by (auto simp: stock_row_def vendor_row_def)
qed

text \<open>A received pullout lands: after a pullout with a new id is posted and received at a
destination, every unit it drew is in stock at that destination and at no other branch, and
every other row of the register is unchanged.\<close>

theorem serial_pullout_lands:
  assumes "issueOperationSerialsInDb es op ts rows = Inr (ds, rows1)" and "register_inv rows"
    and "\<forall>r \<in> set rows. sl_sourceId r \<noteq> Some (op_id op)"
    and "to_upper (op_type op) = ''PULLOUT''"
    and "rows2 = snd (receivePulloutSerialsInDb op dest ts' rows1)"
  shows "map sl_deviceSerial rows2 = map sl_deviceSerial rows \<and>
    (\<forall>r \<in> set rows2. row_key r \<in> entry_pg_key ` set (live_entries op es) \<longrightarrow> at_stock dest r) \<and>
    filter (\<lambda>r. row_key r \<notin> entry_pg_key ` set (live_entries op es)) rows2 =
      filter (\<lambda>r. row_key r \<notin> entry_pg_key ` set (live_entries op es)) rows"
proof -
  let ?K = "entry_pg_key ` set (live_entries op es)"
  let ?f = "\<lambda>r. receive_row dest (op_id op) (receive_history op dest ts') ts'
        (issue_row ''IN_TRANSIT'' (op_id op) (issue_history ''IN_TRANSIT'' op ts) ts r)"
  have rows2: "rows2 = issue_where ?f ?K rows"
    unfolding assms(5) by (rule issue_receive_rows [OF assms(1-4)])
  have "filter (\<lambda>r. row_key r \<notin> ?K) rows2 = filter (\<lambda>r. row_key r \<notin> ?K) rows"
    unfolding rows2 issue_where_def by (induction rows) simp_all
  moreover have "map sl_deviceSerial rows2 = map sl_deviceSerial rows"
    by (simp add: rows2 issue_where_def)
  moreover have "\<forall>r \<in> set rows2. row_key r \<in> ?K \<longrightarrow> at_stock dest r"
    by (auto simp: rows2 issue_where_def at_stock_def)
  ultimately show ?thesis by blast
qed

theorem serial_pullout_lands_witness:
  "\<exists>rows1 rows2. issueOperationSerialsInDb [demo_entry ''sn-1''] (demo_op ''PULLOUT'') ''t1'' demo_register
        = Inr ([''sn-1''], rows1) \<and>
     snd (receivePulloutSerialsInDb (demo_op ''PULLOUT'') ''BR7'' ''t2'' rows1) = rows2 \<and>
     (\<forall>r \<in> set rows2. row_key r = ''sn-1'' \<longrightarrow> at_stock ''BR7'' r)"
proof -
  have fresh: "\<forall>r \<in> set demo_register. sl_sourceId r \<noteq> Some (op_id (demo_op ''PULLOUT''))"
    and po: "to_upper (op_type (demo_op ''PULLOUT'')) = ''PULLOUT''"
    and k: "entry_pg_key ` set (live_entries (demo_op ''PULLOUT'') [demo_entry ''sn-1'']) = {''sn-1''}"
    by code_simp+
  from serial_pullout_lands [OF demo_issue demo_register_inv fresh po refl] demo_issue show ?thesis
    unfolding k by blast
qed



end
