(* ===== verification/Dates.thy ===== *)
theory Dates
  imports SerialIdentity
begin

text \<open>
  Calendar dates. The first part models the language's UTC date arithmetic (\<open>Date.UTC\<close>, the
  UTC fields of a date, \<open>toISOString\<close>) as day numbers since 1970-01-01 in the proleptic
  Gregorian calendar; the second part the date validators of \<open>shared/warrantyTerm.ts\<close>,
  \<open>shared/billTerms.ts\<close> and \<open>accounting.service.ts\<close>. The lemmas show that day numbers and
  civil dates are inverse to each other and that comparing two ISO date strings compares the days.
\<close>

section \<open>Day numbers\<close>

definition is_leap :: "int \<Rightarrow> bool" where
  "is_leap y \<longleftrightarrow> (y mod 4 = 0 \<and> y mod 100 \<noteq> 0) \<or> y mod 400 = 0"

text \<open>Days before the first of January of year \<open>y\<close>, counted from year 1.\<close>

definition days_before_year :: "int \<Rightarrow> int" where
  "days_before_year y = 365 * (y - 1) + (y - 1) div 4 - (y - 1) div 100 + (y - 1) div 400"

text \<open>Days before month \<open>m\<close> (0 is January, 12 the next January).\<close>

definition month_starts :: "int list" where
  "month_starts = [0, 31, 59, 90, 120, 151, 181, 212, 243, 273, 304, 334, 365]"

definition days_before_month :: "bool \<Rightarrow> nat \<Rightarrow> int" where
  "days_before_month leap m = month_starts ! m + (if leap \<and> 2 \<le> m then 1 else 0)"

definition days_in_month :: "int \<Rightarrow> nat \<Rightarrow> int" where
  "days_in_month y m = days_before_month (is_leap y) (Suc m) - days_before_month (is_leap y) m"

definition epoch :: int where
  "epoch = 719162"

text \<open>\<open>Date.UTC(y, m, d)\<close> in days; the month may lie outside 0..11, the years 0..99 are the 1900s.\<close>

definition date_utc :: "int \<Rightarrow> int \<Rightarrow> int \<Rightarrow> int" where
  "date_utc y m d =
     (let yr = (if 0 \<le> y \<and> y \<le> 99 then 1900 + y else y);
          ym = yr + m div 12
      in days_before_year ym + days_before_month (is_leap ym) (nat (m mod 12)) + d - 1 - epoch)"

text \<open>\<open>getUTCFullYear\<close>, \<open>getUTCMonth\<close> and \<open>getUTCDate\<close> of a day.\<close>

definition year_in_cycle :: "int \<Rightarrow> nat" where
  "year_in_cycle r = length (takeWhile (\<lambda>k. days_before_year (int k + 2) \<le> r) [0..<400])"

definition utc_year :: "int \<Rightarrow> int" where
  "utc_year n = (let t = n + epoch in 400 * (t div 146097) + int (year_in_cycle (t mod 146097)) + 1)"

definition utc_month :: "int \<Rightarrow> nat" where
  "utc_month n =
     (let y = utc_year n; doy = n + epoch - days_before_year y
      in length (takeWhile (\<lambda>m. days_before_month (is_leap y) (Suc m) \<le> doy) [0..<12]))"

definition utc_date :: "int \<Rightarrow> int" where
  "utc_date n =
     (let y = utc_year n
      in n + epoch - days_before_year y - days_before_month (is_leap y) (utc_month n) + 1)"

definition int_pad :: "nat \<Rightarrow> int \<Rightarrow> string" where
  "int_pad w i = pad_start w (CHR ''0'') (nat_str (nat i))"

text \<open>The date part of \<open>toISOString()\<close>, cut to ten characters as the code cuts it.\<close>

definition iso_day :: "int \<Rightarrow> string" where
  "iso_day n =
     (let y = utc_year n;
          ys = (if 0 \<le> y \<and> y \<le> 9999 then int_pad 4 y
                else (if y < 0 then CHR ''-'' else CHR ''+'') # int_pad 6 \<bar>y\<bar>)
      in take 10 (ys @ ''-'' @ int_pad 2 (int (utc_month n) + 1) @ ''-'' @ int_pad 2 (utc_date n)))"

section \<open>Day numbers and civil dates are inverse\<close>

definition valid_civil :: "int \<Rightarrow> nat \<Rightarrow> int \<Rightarrow> bool" where
  "valid_civil y m d \<longleftrightarrow> m < 12 \<and> 1 \<le> d \<and> d \<le> days_in_month y m"

definition civil_day :: "int \<Rightarrow> nat \<Rightarrow> int \<Rightarrow> int" where
  "civil_day y m d = days_before_year y + days_before_month (is_leap y) m + d - 1 - epoch"

lemma date_utc_civil:
  "100 \<le> y \<Longrightarrow> m < 12 \<Longrightarrow> date_utc y (int m) d = civil_day y m d"
  by (simp add: date_utc_def civil_day_def Let_def)

lemma length_takeWhile_upt:
  assumes "k \<le> n" and "\<And>i. i < n \<Longrightarrow> P i \<longleftrightarrow> i < k"
  shows "length (takeWhile P [0..<n]) = k"
proof -
  have "[0..<n] = [0..<k] @ [k..<n]" using assms(1) by (metis le0 upt_add_eq_append le_add_diff_inverse add_0)
  moreover have "takeWhile P ([0..<k] @ [k..<n]) = [0..<k] @ takeWhile P [k..<n]"
    using assms by (intro takeWhile_append2) auto
  moreover have "takeWhile P [k..<n] = []" using assms(2) by (cases "k < n") (auto simp: upt_conv_Cons)
  ultimately show ?thesis by simp
qed

lemma div_pred:
  assumes "0 < (n::int)"
  shows "y div n = (y - 1) div n + (if y mod n = 0 then 1 else 0)"
proof -
  define q r where "q = (y - 1) div n" and "r = (y - 1) mod n"
  have y: "y = n * q + (r + 1)" by (simp add: q_def r_def)
  have r: "0 \<le> r" "r < n" using assms by (simp_all add: r_def)
  show ?thesis
  proof (cases "r + 1 = n")
    case True
    then have "y = n * (q + 1) + 0" using y by (simp add: distrib_left)
    then have "y div n = q + 1" "y mod n = 0"
      using assms by (auto intro: int_div_pos_eq int_mod_pos_eq)
    then show ?thesis by (simp add: q_def)
  next
    case False
    then have "y div n = q" "y mod n = r + 1"
      using y r by (auto intro: int_div_pos_eq int_mod_pos_eq)
    then show ?thesis using r by (simp add: q_def)
  qed
qed

lemma div_shift: "0 < (n::int) \<Longrightarrow> (n * k + a) div n = k + a div n"
  by simp

lemma mod_dvd_chain: "(y::int) mod (a * b) = 0 \<Longrightarrow> y mod a = 0"
  by (metis dvd_mult_left mod_eq_0_iff_dvd)

lemma leap_count:
  "(B \<longrightarrow> A) \<Longrightarrow> (C \<longrightarrow> B) \<Longrightarrow>
   (if A then 1 else 0) - (if B then 1 else 0) + (if C then 1 else 0) = (if (A \<and> \<not> B) \<or> C then 1 else (0::int))"
  by auto

lemma days_before_year_Suc:
  "days_before_year (y + 1) = days_before_year y + (if is_leap y then 366 else 365)"
proof -
  have step: "y div 4 = (y - 1) div 4 + (if y mod 4 = 0 then 1 else 0)"
    "y div 100 = (y - 1) div 100 + (if y mod 100 = 0 then 1 else 0)"
    "y div 400 = (y - 1) div 400 + (if y mod 400 = 0 then 1 else 0)"
    by (rule div_pred, simp)+
  have c: "y mod 100 = 0 \<longrightarrow> y mod 4 = 0" "y mod 400 = 0 \<longrightarrow> y mod 100 = 0"
  proof -
    have "(100::int) = 4 * 25" "(400::int) = 100 * 4" by simp_all
    then show "y mod 100 = 0 \<longrightarrow> y mod 4 = 0" "y mod 400 = 0 \<longrightarrow> y mod 100 = 0"
      by (metis mod_dvd_chain)+
  qed
  note n = leap_count [OF c]
  have "days_before_year (y + 1) = 365 * y + y div 4 - y div 100 + y div 400"
    by (simp only: days_before_year_def add_diff_cancel_right')
  also have "\<dots> = days_before_year y + 365 + (if is_leap y then 1 else 0)"
    unfolding step days_before_year_def is_leap_def n [symmetric] by (simp add: right_diff_distrib)
  finally show ?thesis by (simp only: split: if_split) simp
qed

lemma days_before_year_mono: "a \<le> b \<Longrightarrow> days_before_year a \<le> days_before_year b"
proof (induction b rule: int_ge_induct)
  case base
  show ?case by simp
next
  case (step b)
  then show ?case by (simp add: days_before_year_Suc)
qed

lemma days_before_year_cycle: "days_before_year (400 * q + y) = 146097 * q + days_before_year y"
proof -
  have "400 * q + y - 1 = 4 * (100 * q) + (y - 1)" "400 * q + y - 1 = 100 * (4 * q) + (y - 1)"
    "400 * q + y - 1 = 400 * q + (y - 1)"
    by simp_all
  then have "(400 * q + y - 1) div 4 = 100 * q + (y - 1) div 4"
    "(400 * q + y - 1) div 100 = 4 * q + (y - 1) div 100"
    "(400 * q + y - 1) div 400 = q + (y - 1) div 400"
    by (metis div_shift zero_less_numeral)+
  then show ?thesis by (simp add: days_before_year_def)
qed

lemma is_leap_cycle: "is_leap (400 * q + y) = is_leap y"
proof -
  have "400 * q + y = y + 4 * (100 * q)" "400 * q + y = y + 100 * (4 * q)" "400 * q + y = y + 400 * q"
    by simp_all
  then have "(400 * q + y) mod 4 = y mod 4" "(400 * q + y) mod 100 = y mod 100" "(400 * q + y) mod 400 = y mod 400"
    by (metis mod_mult_self2)+
  then show ?thesis by (simp add: is_leap_def)
qed


lemma year_in_cycle:
  assumes "days_before_year (int k + 1) \<le> r" and "r < days_before_year (int k + 2)" and "k < 400"
  shows "year_in_cycle r = k"
  unfolding year_in_cycle_def
proof (rule length_takeWhile_upt)
  show "k \<le> 400" using assms(3) by simp
  fix i
  show "days_before_year (int i + 2) \<le> r \<longleftrightarrow> i < k"
  proof
    assume "days_before_year (int i + 2) \<le> r"
    with assms(2) have "\<not> days_before_year (int k + 2) \<le> days_before_year (int i + 2)" by simp
    then show "i < k" using days_before_year_mono [of "int k + 2" "int i + 2"] by linarith
  next
    assume "i < k"
    then have "days_before_year (int i + 2) \<le> days_before_year (int k + 1)"
      by (intro days_before_year_mono) simp
    with assms(1) show "days_before_year (int i + 2) \<le> r" by simp
  qed
qed

lemma utc_year_unique:
  assumes "days_before_year y \<le> n + epoch" and "n + epoch < days_before_year (y + 1)"
  shows "utc_year n = y"
proof -
  define q k where "q = (y - 1) div 400" and "k = nat ((y - 1) mod 400)"
  have k: "int k = (y - 1) mod 400" "k < 400" by (simp_all add: k_def nat_less_iff)
  have y: "y = 400 * q + (int k + 1)" by (simp add: q_def k(1))
  define r where "r = n + epoch - 146097 * q"
  have y1: "y + 1 = 400 * q + (int k + 2)" using y by simp
  have lo: "days_before_year (int k + 1) \<le> r" and hi: "r < days_before_year (int k + 2)"
    using assms unfolding r_def y1 unfolding y days_before_year_cycle by simp_all
  have "days_before_year 1 \<le> days_before_year (int k + 1)" "days_before_year (int k + 2) \<le> days_before_year 401"
    using k(2) by (intro days_before_year_mono; simp)+
  moreover have "days_before_year 1 = 0" "days_before_year 401 = 146097" by (simp_all add: days_before_year_def)
  ultimately have r: "0 \<le> r" "r < 146097" using lo hi by linarith+
  have "n + epoch = 146097 * q + r" by (simp add: r_def)
  then have "(n + epoch) div 146097 = q" "(n + epoch) mod 146097 = r"
    using r by (auto intro: int_div_pos_eq int_mod_pos_eq)
  then show ?thesis using year_in_cycle [OF lo hi k(2)] y by (simp add: utc_year_def Let_def)
qed

lemma takeWhile_upt:
  assumes "k = length (takeWhile P [0..<n])"
  shows "k \<le> n" and "i < k \<Longrightarrow> P i" and "k < n \<Longrightarrow> \<not> P k"
proof -
  show le: "k \<le> n" using length_takeWhile_le [of P "[0..<n]"] by (simp add: assms)
  show "P i" if "i < k"
  proof -
    have "takeWhile P [0..<n] ! i = i" using that le by (simp add: takeWhile_nth assms)
    then have "i \<in> set (takeWhile P [0..<n])" using that by (metis assms nth_mem)
    then show ?thesis by (rule set_takeWhileD [THEN conjunct2])
  qed
  show "\<not> P k" if "k < n" using nth_length_takeWhile [of P "[0..<n]"] that by (simp add: assms)
qed

lemma utc_year_bounds:
  "days_before_year (utc_year n) \<le> n + epoch \<and> n + epoch < days_before_year (utc_year n + 1)"
proof -
  define q r where "q = (n + epoch) div 146097" and "r = (n + epoch) mod 146097"
  have r: "0 \<le> r" "r < 146097" by (simp_all add: r_def)
  let ?P = "\<lambda>k. days_before_year (int k + 2) \<le> r"
  define k where "k = year_in_cycle r"
  have len: "k = length (takeWhile ?P [0..<400])" by (simp add: k_def year_in_cycle_def)
  note k = takeWhile_upt [OF len]
  have "\<not> ?P 399" using r by (simp add: days_before_year_def)
  then have "k < 400" using k(1) k(2) [of 399] by (cases "k = 400") auto
  with k(3) have nP: "\<not> ?P k" .
  have "days_before_year (int k + 1) \<le> r"
  proof (cases k)
    case 0
    then show ?thesis using r by (simp add: days_before_year_def)
  next
    case (Suc j)
    then have "?P j" using k(2) by simp
    then show ?thesis using Suc by (simp add: algebra_simps)
  qed
  moreover have y: "utc_year n = 400 * q + (int k + 1)" by (simp add: utc_year_def Let_def q_def k_def r_def)
  moreover have "n + epoch = 146097 * q + r" by (simp add: q_def r_def)
  moreover have "utc_year n + 1 = 400 * q + (int k + 2)" using y by simp
  ultimately show ?thesis using nP by (simp only: days_before_year_cycle) simp
qed

text \<open>A faster evaluation of the year: a guess from the mean length of a year, checked.\<close>

definition year_guess :: "int \<Rightarrow> int" where
  "year_guess t =
     (let y = t * 400 div 146097 + 1
      in if t < days_before_year y then y - 1 else if days_before_year (y + 1) \<le> t then y + 1 else y)"

lemma utc_year_code [code]:
  "utc_year n =
     (let t = n + epoch; y = year_guess t
      in if days_before_year y \<le> t \<and> t < days_before_year (y + 1) then y
         else 400 * (t div 146097) + int (year_in_cycle (t mod 146097)) + 1)"
  using utc_year_unique by (simp add: Let_def utc_year_def)

lemma month_steps: "m < 12 \<Longrightarrow> days_before_month l m < days_before_month l (Suc m)"
  by (auto simp: days_before_month_def month_starts_def less_Suc_eq numeral_eq_Suc)

lemma days_before_month_mono:
  "a \<le> b \<Longrightarrow> b \<le> 12 \<Longrightarrow> days_before_month l a \<le> days_before_month l b"
proof (induction b)
  case (Suc b)
  then show ?case using month_steps [of b l] by (cases "a = Suc b") auto
qed simp

lemma days_before_month_ends [simp]:
  "days_before_month l 0 = 0" "days_before_month l 12 = (if l then 366 else 365)"
  by (simp_all add: days_before_month_def month_starts_def)

lemma utc_month_unique:
  assumes "m < 12" and "days_before_month (is_leap (utc_year n)) m \<le> n + epoch - days_before_year (utc_year n)"
    and "n + epoch - days_before_year (utc_year n) < days_before_month (is_leap (utc_year n)) (Suc m)"
  shows "utc_month n = m"
  unfolding utc_month_def Let_def
proof (rule length_takeWhile_upt)
  show "m \<le> 12" using assms(1) by simp
  fix i :: nat assume "i < 12"
  let ?b = "days_before_month (is_leap (utc_year n))"
  show "?b (Suc i) \<le> n + epoch - days_before_year (utc_year n) \<longleftrightarrow> i < m"
  proof
    assume "?b (Suc i) \<le> n + epoch - days_before_year (utc_year n)"
    with assms(3) have "\<not> ?b (Suc m) \<le> ?b (Suc i)" by simp
    then show "i < m" using days_before_month_mono [of "Suc m" "Suc i"] \<open>i < 12\<close> by fastforce
  next
    assume "i < m"
    then have "?b (Suc i) \<le> ?b m" using assms(1) by (intro days_before_month_mono) simp_all
    with assms(2) show "?b (Suc i) \<le> n + epoch - days_before_year (utc_year n)" by simp
  qed
qed

lemma utc_fields:
  assumes "valid_civil y m d"
  shows "utc_year (civil_day y m d) = y" and "utc_month (civil_day y m d) = m"
    and "utc_date (civil_day y m d) = d"
proof -
  let ?b = "days_before_month (is_leap y)"
  have v: "m < 12" "1 \<le> d" "d \<le> ?b (Suc m) - ?b m" using assms by (simp_all add: valid_civil_def days_in_month_def)
  have "?b (Suc m) \<le> ?b 12" "?b 0 \<le> ?b m" using v(1) by (intro days_before_month_mono; simp)+
  then have t: "days_before_year y \<le> civil_day y m d + epoch" "civil_day y m d + epoch < days_before_year (y + 1)"
    using v by (auto simp: civil_day_def days_before_year_Suc split: if_splits)
  show y: "utc_year (civil_day y m d) = y" by (rule utc_year_unique [OF t])
  show m: "utc_month (civil_day y m d) = m"
    by (rule utc_month_unique) (use v y in \<open>simp_all add: civil_day_def\<close>)
  show "utc_date (civil_day y m d) = d" 
    unfolding utc_date_def Let_def y m by (simp add: civil_day_def)
qed


lemma civil_fields:
  "valid_civil (utc_year n) (utc_month n) (utc_date n)"
  "civil_day (utc_year n) (utc_month n) (utc_date n) = n"
proof -
  let ?y = "utc_year n"
  let ?b = "days_before_month (is_leap ?y)"
  let ?doy = "n + epoch - days_before_year ?y"
  have doy: "0 \<le> ?doy" "?doy < ?b 12"
    using utc_year_bounds [of n] by (auto simp: days_before_year_Suc split: if_splits)
  have len: "utc_month n = length (takeWhile (\<lambda>m. ?b (Suc m) \<le> ?doy) [0..<12])"
    by (simp add: utc_month_def Let_def)
  note k = takeWhile_upt [OF len]
  have m: "utc_month n < 12" using k(1) k(2) [of 11] doy by (cases "utc_month n = 12") auto
  have "?b (utc_month n) \<le> ?doy"
    using k(2) [of "utc_month n - 1"] doy by (cases "utc_month n") auto
  with m k(3) show "valid_civil ?y (utc_month n) (utc_date n)"
    by (simp add: valid_civil_def utc_date_def Let_def days_in_month_def)
  show "civil_day ?y (utc_month n) (utc_date n) = n"
    by (simp add: civil_day_def utc_date_def Let_def)
qed

lemma civil_day_inject:
  "valid_civil y m d \<Longrightarrow> valid_civil y' m' d' \<Longrightarrow>
   civil_day y m d = civil_day y' m' d' \<longleftrightarrow> y = y' \<and> m = m' \<and> d = d'"
  using utc_fields by metis


lemma civil_day_less:
  assumes "valid_civil y m d" and "valid_civil y' m' d'"
    and "y < y' \<or> y = y' \<and> (m < m' \<or> m = m' \<and> d < d')"
  shows "civil_day y m d < civil_day y' m' d'"
proof -
  have v: "m < 12" "1 \<le> d" "d \<le> days_before_month (is_leap y) (Suc m) - days_before_month (is_leap y) m"
    and v': "m' < 12" "1 \<le> d'"
    using assms(1,2) by (simp_all add: valid_civil_def days_in_month_def)
  from assms(3) consider "y < y'" | "y = y'" "m < m'" | "y = y'" "m = m'" "d < d'" by blast
  then show ?thesis
  proof cases
    case 1
    have "days_before_month (is_leap y) (Suc m) \<le> days_before_month (is_leap y) 12"
      and "days_before_month (is_leap y') 0 \<le> days_before_month (is_leap y') m'"
      using v v' by (intro days_before_month_mono; simp)+
    moreover have "days_before_year (y + 1) \<le> days_before_year y'" using 1 by (intro days_before_year_mono) simp
    ultimately show ?thesis using v v'
      by (simp add: civil_day_def days_before_year_Suc split: if_splits)
  next
    case 2
    have "days_before_month (is_leap y) (Suc m) \<le> days_before_month (is_leap y) m'"
      using 2 v' by (intro days_before_month_mono) simp_all
    then show ?thesis using 2 v v' by (simp add: civil_day_def)
  next
    case 3
    then show ?thesis by (simp add: civil_day_def)
  qed
qed

section \<open>String comparison\<close>

text \<open>\<open>a <= b\<close> and \<open>a < b\<close> on strings: by character code, a prefix first.\<close>

fun str_le :: "string \<Rightarrow> string \<Rightarrow> bool" where
  "str_le [] _ = True"
| "str_le (c # cs) [] = False"
| "str_le (c # cs) (d # ds) = ((of_char c :: nat) < of_char d \<or> c = d \<and> str_le cs ds)"

definition str_lt :: "string \<Rightarrow> string \<Rightarrow> bool" where
  "str_lt a b \<longleftrightarrow> \<not> str_le b a"

lemma of_char_eq: "(of_char c :: nat) = of_char d \<Longrightarrow> c = d"
  by (metis char_of_char)

lemma str_le_refl [simp]: "str_le s s"
  by (induction s) simp_all

lemma str_le_total: "str_le a b \<or> str_le b a"
proof (induction a b rule: str_le.induct)
  case (3 c cs d ds)
  consider "(of_char c :: nat) < of_char d" | "(of_char d :: nat) < of_char c" | "c = d"
    by (metis linorder_neqE_nat of_char_eq)
  then show ?case using 3 by cases simp_all
qed simp_all

lemma str_le_antisym: "str_le a b \<Longrightarrow> str_le b a \<Longrightarrow> a = b"
  by (induction a b rule: str_le.induct) (auto, metis list.exhaust str_le.simps(2))

lemma str_le_trans: "str_le a b \<Longrightarrow> str_le b c \<Longrightarrow> str_le a c"
proof (induction a b arbitrary: c rule: str_le.induct)
  case (3 x xs y ys)
  then show ?case by (cases c) auto
qed auto

lemma str_lt_le: "str_lt a b \<longleftrightarrow> str_le a b \<and> a \<noteq> b"
  using str_le_total str_le_antisym by (auto simp: str_lt_def)

lemma str_le_append:
  "length a = length b \<Longrightarrow> str_le (a @ x) (b @ y) \<longleftrightarrow> str_lt a b \<or> a = b \<and> str_le x y"
proof (induction a b rule: list_induct2)
  case Nil
  then show ?case by (simp add: str_lt_def)
next
  case (Cons c cs d ds)
  then show ?case by (auto simp: str_lt_def dest: of_char_eq)
qed

lemma digits_val_Cons: "digits_val (c # cs) = digit_val c * 10 ^ length cs + digits_val cs"
proof (induction cs rule: rev_induct)
  case Nil
  then show ?case by (simp add: digits_val_def)
next
  case (snoc d cs)
  have "digits_val (c # cs @ [d]) = 10 * digits_val (c # cs) + digit_val d"
    using digits_val_append [of "c # cs" d] by simp
  with snoc show ?case by (simp add: digits_val_append algebra_simps)
qed

lemma digit_val_less: "is_digit c \<Longrightarrow> digit_val c < 10"
  by (auto simp: is_digit_def digit_val_def)

lemma digits_val_bound: "list_all is_digit cs \<Longrightarrow> digits_val cs < 10 ^ length cs"
proof (induction cs)
  case Nil
  then show ?case by (simp add: digits_val_def)
next
  case (Cons c cs)
  then have "digit_val c \<le> 9" using digit_val_less [of c] by simp
  then have "digit_val c * 10 ^ length cs \<le> 9 * 10 ^ length cs" by (rule mult_right_mono) simp
  moreover have "digits_val cs < 10 ^ length cs" using Cons by simp
  moreover have "(10::nat) ^ length (c # cs) = 9 * 10 ^ length cs + 10 ^ length cs" by simp
  ultimately show ?case unfolding digits_val_Cons by linarith
qed

lemma digit_le: "is_digit c \<Longrightarrow> is_digit d \<Longrightarrow> (of_char c :: nat) < of_char d \<longleftrightarrow> digit_val c < digit_val d"
  by (auto simp: is_digit_def digit_val_def)

lemma lex_digits:
  assumes "(x::nat) < b" and "y < b"
  shows "c * b + x \<le> d * b + y \<longleftrightarrow> c < d \<or> c = d \<and> x \<le> y"
proof -
  have "c * b + x < d * b + y" if "c < d"
  proof -
    have "(c + 1) * b \<le> d * b" using that by (intro mult_right_mono) simp_all
    then show ?thesis using assms(1) by simp
  qed
  moreover have "d * b + y < c * b + x" if "d < c"
  proof -
    have "(d + 1) * b \<le> c * b" using that by (intro mult_right_mono) simp_all
    then show ?thesis using assms(2) by simp
  qed
  ultimately show ?thesis by (cases c d rule: linorder_cases) fastforce+
qed

lemma str_le_digits:
  "length a = length b \<Longrightarrow> list_all is_digit a \<Longrightarrow> list_all is_digit b \<Longrightarrow>
   str_le a b \<longleftrightarrow> digits_val a \<le> digits_val b"
proof (induction a b rule: list_induct2)
  case Nil
  then show ?case by simp
next
  case (Cons c cs d ds)
  then have d: "is_digit c" "is_digit d" "list_all is_digit cs" "list_all is_digit ds" by simp_all
  have "of_char c = digit_val c + (48::nat)" "of_char d = digit_val d + (48::nat)"
    using d(1,2) by (simp_all add: is_digit_def digit_val_def)
  then have "digit_val c = digit_val d \<Longrightarrow> c = d" by (metis of_char_eq)
  then have "c = d \<longleftrightarrow> digit_val c = digit_val d" by blast
  then show ?case
    using Cons.IH [OF d(3,4)] digits_val_bound [OF d(3)] digits_val_bound [OF d(4)] Cons.hyps
    by (simp add: digits_val_Cons lex_digits digit_le [OF d(1,2)])
qed

lemma digits_val_inject:
  "length a = length b \<Longrightarrow> list_all is_digit a \<Longrightarrow> list_all is_digit b \<Longrightarrow>
   digits_val a = digits_val b \<longleftrightarrow> a = b"
  by (metis eq_iff str_le_antisym str_le_digits)


section \<open>ISO dates\<close>

text \<open>The groups of \<open>/^(\d{4})-(\d{2})-(\d{2})$/\<close>.\<close>

definition parse_ad :: "string \<Rightarrow> (nat \<times> nat \<times> nat) option" where
  "parse_ad s =
     (let y = take 4 s; m = take 2 (drop 5 s); d = drop 8 s
      in if length s = 10 \<and> s = y @ ''-'' @ m @ ''-'' @ d \<and> list_all is_digit (y @ m @ d)
         then Some (digits_val y, digits_val m, digits_val d) else None)"

text \<open>The UTC fields of \<open>new Date(Date.UTC(year, month - 1, day))\<close> are the given ones.\<close>

definition utc_matches :: "nat \<Rightarrow> nat \<Rightarrow> nat \<Rightarrow> bool" where
  "utc_matches y m d =
     (let n = date_utc (int y) (int m - 1) (int d)
      in utc_year n = int y \<and> int (utc_month n) = int m - 1 \<and> utc_date n = int d)"

definition isAdDate :: "jsval \<Rightarrow> bool" where
  "isAdDate v =
     (case v of JStr s \<Rightarrow> (case parse_ad s of None \<Rightarrow> False | Some (y, m, d) \<Rightarrow> utc_matches y m d)
      | _ \<Rightarrow> False)"

definition isAccountingDate :: "jsval \<Rightarrow> bool" where
  "isAccountingDate v =
     (case v of JStr s \<Rightarrow> (case parse_ad s of None \<Rightarrow> False | Some (y, m, d) \<Rightarrow> utc_matches y m d)
      | _ \<Rightarrow> False)"

definition isValidADDate :: "jsval \<Rightarrow> bool" where
  "isValidADDate v =
     (case parse_ad (trim (str_nullish v)) of None \<Rightarrow> False
      | Some (y, m, d) \<Rightarrow>
          if m < 1 \<or> m > 12 \<or> d < 1 \<or> d > 31 then False else utc_matches y m d)"

lemma utc_matches_iff:
  "utc_matches y m d \<longleftrightarrow> 100 \<le> y \<and> 1 \<le> m \<and> valid_civil (int y) (m - 1) (int d)"
proof (cases "1 \<le> m")
  case False
  then show ?thesis by (simp add: utc_matches_def Let_def)
next
  case True
  then obtain k where m: "m = Suc k" by (cases m) auto
  let ?n = "date_utc (int y) (int k) (int d)"
  show ?thesis
  proof
    assume "utc_matches y m d"
    then have f: "utc_year ?n = int y" "utc_month ?n = k" "utc_date ?n = int d"
      by (simp_all add: utc_matches_def Let_def m)
    with civil_fields [of ?n] have v: "valid_civil (int y) k (int d)" and e: "civil_day (int y) k (int d) = ?n"
      by simp_all
    have "100 \<le> y"
    proof (rule ccontr)
      assume "\<not> 100 \<le> y"
      then have n: "?n = civil_day (1900 + int y) k (int d)"
        using v by (simp add: date_utc_def civil_day_def Let_def valid_civil_def)
      have "days_before_year (2 + int y) \<le> days_before_year (1900 + int y)"
        by (rule days_before_year_mono) simp
      moreover have "days_before_year (2 + int y) \<ge> days_before_year (int y) + 730"
        using days_before_year_Suc [of "int y"] days_before_year_Suc [of "int y + 1"] by (simp split: if_splits)
      ultimately show False using e unfolding n
        by (auto simp: civil_day_def days_before_month_def split: if_splits)
    qed
    with v show "100 \<le> y \<and> 1 \<le> m \<and> valid_civil (int y) (m - 1) (int d)" by (simp add: m)
  next
    assume a: "100 \<le> y \<and> 1 \<le> m \<and> valid_civil (int y) (m - 1) (int d)"
    then have "?n = civil_day (int y) k (int d)"
      by (simp add: m date_utc_civil valid_civil_def)
    with a utc_fields [of "int y" k "int d"] show "utc_matches y m d"
      by (simp add: utc_matches_def Let_def m)
  qed
qed

lemma isAdDate_code [code]:
  "isAdDate v =
     (case v of JStr s \<Rightarrow> (case parse_ad s of None \<Rightarrow> False
        | Some (y, m, d) \<Rightarrow> 100 \<le> y \<and> 1 \<le> m \<and> m \<le> 12 \<and> 1 \<le> d \<and> int d \<le> days_in_month (int y) (m - 1))
      | _ \<Rightarrow> False)"
  by (auto simp: isAdDate_def utc_matches_iff valid_civil_def split: jsval.splits option.splits)

text \<open>The day an ISO date names.\<close>

definition ad_day :: "string \<Rightarrow> int" where
  "ad_day s = (case parse_ad s of None \<Rightarrow> 0 | Some (y, m, d) \<Rightarrow> civil_day (int y) (m - 1) (int d))"

lemma isAdDate_cases:
  assumes "isAdDate (JStr s)"
  obtains ys ms ds where "s = ys @ ''-'' @ ms @ ''-'' @ ds" "length ys = 4" "length ms = 2" "length ds = 2"
    "list_all is_digit (ys @ ms @ ds)" "parse_ad s = Some (digits_val ys, digits_val ms, digits_val ds)"
    "100 \<le> digits_val ys" "1 \<le> digits_val ms"
    "valid_civil (int (digits_val ys)) (digits_val ms - 1) (int (digits_val ds))"
    "ad_day s = civil_day (int (digits_val ys)) (digits_val ms - 1) (int (digits_val ds))"
proof -
  let ?y = "take 4 s" and ?m = "take 2 (drop 5 s)" and ?d = "drop 8 s"
  from assms have p: "length s = 10 \<and> s = ?y @ ''-'' @ ?m @ ''-'' @ ?d \<and> list_all is_digit (?y @ ?m @ ?d)"
    and u: "utc_matches (digits_val ?y) (digits_val ?m) (digits_val ?d)"
    by (auto simp: isAdDate_def parse_ad_def Let_def split: if_splits)
  then have "parse_ad s = Some (digits_val ?y, digits_val ?m, digits_val ?d)"
    by (simp add: parse_ad_def Let_def)
  moreover from this have "ad_day s = civil_day (int (digits_val ?y)) (digits_val ?m - 1) (int (digits_val ?d))"
    by (simp add: ad_day_def)
  ultimately show ?thesis using that [of ?y ?m ?d] p u [unfolded utc_matches_iff] by auto
qed


lemma lex_not:
  "(a < a' \<or> a = a' \<and> (b < b' \<or> b = b' \<and> c \<le> c')) \<longleftrightarrow>
   \<not> (a' < a \<or> a' = a \<and> (b' < b \<or> b' = b \<and> c' < (c::nat)))" for a b :: nat
  by auto

text \<open>Comparing ISO date strings compares the days.\<close>

lemma ad_le:
  assumes "isAdDate (JStr a)" and "isAdDate (JStr b)"
  shows "str_le a b \<longleftrightarrow> ad_day a \<le> ad_day b"
proof -
  obtain y m d where a: "a = y @ ''-'' @ m @ ''-'' @ d" "length y = 4" "length m = 2" "length d = 2"
    "list_all is_digit (y @ m @ d)" "1 \<le> digits_val m"
    "valid_civil (int (digits_val y)) (digits_val m - 1) (int (digits_val d))"
    "ad_day a = civil_day (int (digits_val y)) (digits_val m - 1) (int (digits_val d))"
    using assms(1) by (rule isAdDate_cases)
  obtain y' m' d' where b: "b = y' @ ''-'' @ m' @ ''-'' @ d'" "length y' = 4" "length m' = 2" "length d' = 2"
    "list_all is_digit (y' @ m' @ d')" "1 \<le> digits_val m'"
    "valid_civil (int (digits_val y')) (digits_val m' - 1) (int (digits_val d'))"
    "ad_day b = civil_day (int (digits_val y')) (digits_val m' - 1) (int (digits_val d'))"
    using assms(2) by (rule isAdDate_cases)
  have y: "str_lt y y' \<longleftrightarrow> digits_val y < digits_val y'" "y = y' \<longleftrightarrow> digits_val y = digits_val y'"
    and m: "str_lt m m' \<longleftrightarrow> digits_val m < digits_val m'" "m = m' \<longleftrightarrow> digits_val m = digits_val m'"
    and d: "str_le d d' \<longleftrightarrow> digits_val d \<le> digits_val d'"
    using a b by (auto simp: str_lt_def str_le_digits digits_val_inject)
  have "str_le a b \<longleftrightarrow> str_lt y y' \<or> y = y' \<and> (str_lt m m' \<or> m = m' \<and> str_le d d')"
    using a(2-4) b(2-4) by (simp add: a(1) b(1) str_le_append)
  then have str: "str_le a b \<longleftrightarrow> \<not> (digits_val y' < digits_val y \<or> digits_val y' = digits_val y \<and>
      (digits_val m' < digits_val m \<or> digits_val m' = digits_val m \<and> digits_val d' < digits_val d))"
    unfolding y m d by (simp only: lex_not)
  have mm: "digits_val m < digits_val m' \<Longrightarrow> digits_val m - 1 < digits_val m' - 1"
    "digits_val m' < digits_val m \<Longrightarrow> digits_val m' - 1 < digits_val m - 1"
    using a(6) b(6) by simp_all
  show ?thesis
  proof (cases "str_le a b")
    case False
    with str mm have "civil_day (int (digits_val y')) (digits_val m' - 1) (int (digits_val d'))
        < civil_day (int (digits_val y)) (digits_val m - 1) (int (digits_val d))"
      by (intro civil_day_less [OF b(7) a(7)]) auto
    with False show ?thesis by (simp add: a(8) b(8))
  next
    case True
    then consider "a = b" | "digits_val y < digits_val y' \<or> digits_val y = digits_val y' \<and>
      (digits_val m < digits_val m' \<or> digits_val m = digits_val m' \<and> digits_val d < digits_val d')"
      unfolding str using y(2) m(2) d a(1-5) b(1-5) digits_val_inject [of d d'] by (auto simp: not_less)
    then have "ad_day a \<le> ad_day b"
    proof cases
      case 2
      then have "civil_day (int (digits_val y)) (digits_val m - 1) (int (digits_val d))
        < civil_day (int (digits_val y')) (digits_val m' - 1) (int (digits_val d'))"
        using mm by (intro civil_day_less [OF a(7) b(7)]) auto
      then show ?thesis by (simp add: a(8) b(8))
    qed simp
    with True show ?thesis by simp
  qed
qed

lemma int_pad:
  assumes "0 \<le> i" and "i < 10 ^ w" and "0 < w"
  shows "length (int_pad w i) = w" and "list_all is_digit (int_pad w i)" and "digits_val (int_pad w i) = nat i"
proof -
  have "nat i < 10 ^ w" using assms by (simp add: nat_less_iff)
  then have "length (nat_str (nat i)) \<le> w" using assms(3) by (rule length_nat_str_le [rotated])
  then show "length (int_pad w i) = w" by (simp add: int_pad_def length_pad_start)
  have "is_digit (CHR ''0'')" by (simp add: is_digit_def)
  then show "list_all is_digit (int_pad w i)"
    using nat_str_digits [of _ "nat i"] by (auto simp: int_pad_def pad_start_def list_all_iff)
  show "digits_val (int_pad w i) = nat i" by (simp add: int_pad_def)
qed

lemma days_in_month_le: "m < 12 \<Longrightarrow> days_in_month y m \<le> 31"
  by (auto simp: days_in_month_def days_before_month_def month_starts_def less_Suc_eq numeral_eq_Suc)

lemma parse_ad_join:
  assumes "length y = 4" "length m = 2" "length d = 2" "list_all is_digit (y @ m @ d)"
  shows "parse_ad (y @ ''-'' @ m @ ''-'' @ d) = Some (digits_val y, digits_val m, digits_val d)"
proof -
  let ?s = "y @ ''-'' @ m @ ''-'' @ d"
  have "take 4 ?s = y" "take 2 (drop 5 ?s) = m" "drop 8 ?s = d" "length ?s = 10"
    using assms by (simp_all add: drop_Cons')
  then show ?thesis using assms(4) by (simp add: parse_ad_def Let_def)
qed

lemma iso_day_parts:
  assumes "0 \<le> utc_year n" and "utc_year n \<le> 9999"
  shows "parse_ad (iso_day n) = Some (nat (utc_year n), utc_month n + 1, nat (utc_date n))"
proof -
  have v: "utc_month n < 12" "1 \<le> utc_date n" "utc_date n \<le> 31"
    using civil_fields(1) [of n] days_in_month_le [of "utc_month n" "utc_year n"]
    by (auto simp: valid_civil_def)
  note y = int_pad [of "utc_year n" 4] and m = int_pad [of "int (utc_month n) + 1" 2]
    and d = int_pad [of "utc_date n" 2]
  have iso: "iso_day n = int_pad 4 (utc_year n) @ ''-'' @ int_pad 2 (int (utc_month n) + 1) @ ''-'' @ int_pad 2 (utc_date n)"
    unfolding iso_day_def Let_def using assms v y(1) m(1) d(1) by simp
  have "nat (int (utc_month n) + 1) = utc_month n + 1" by simp
  then show ?thesis unfolding iso
    by (subst parse_ad_join) (use assms v y m d in simp_all)
qed

lemma iso_day_valid:
  assumes "100 \<le> utc_year n" and "utc_year n \<le> 9999"
  shows "isAdDate (JStr (iso_day n))" and "ad_day (iso_day n) = n"
proof -
  have p: "parse_ad (iso_day n) = Some (nat (utc_year n), utc_month n + 1, nat (utc_date n))"
    by (rule iso_day_parts) (use assms in simp_all)
  have "0 \<le> utc_date n" using civil_fields(1) [of n] by (simp add: valid_civil_def)
  with p assms civil_fields [of n]
  show "isAdDate (JStr (iso_day n))" and "ad_day (iso_day n) = n"
    by (simp_all add: isAdDate_def utc_matches_iff ad_day_def)
qed

lemma ad_day_inject:
  "isAdDate (JStr a) \<Longrightarrow> isAdDate (JStr b) \<Longrightarrow> ad_day a = ad_day b \<longleftrightarrow> a = b"
  by (metis ad_le eq_iff str_le_antisym)

text \<open>The years of an ISO date, and printing back the day of one.\<close>

lemma ad_day_year: "isAdDate (JStr s) \<Longrightarrow> 100 \<le> utc_year (ad_day s) \<and> utc_year (ad_day s) \<le> 9999"
proof -
  assume "isAdDate (JStr s)"
  then obtain y m d where s: "length y = 4" "list_all is_digit (y @ m @ d)" "100 \<le> digits_val y"
    "valid_civil (int (digits_val y)) (digits_val m - 1) (int (digits_val d))"
    "ad_day s = civil_day (int (digits_val y)) (digits_val m - 1) (int (digits_val d))"
    by (rule isAdDate_cases)
  have "list_all is_digit y" using s(2) by simp
  then have "digits_val y < 10 ^ 4" using digits_val_bound [of y] s(1) by simp
  with s show ?thesis using utc_fields(1) [OF s(4)] by simp
qed

lemma iso_day_ad_day: "isAdDate (JStr s) \<Longrightarrow> iso_day (ad_day s) = s"
  using ad_day_year iso_day_valid ad_day_inject by metis


lemma isAccountingDate_eq: "isAccountingDate v = isAdDate v"
  by (simp add: isAccountingDate_def isAdDate_def)

lemma isValidADDate_iff: "isValidADDate (JStr s) = isAdDate (JStr (trim s))"
proof -
  have r: "utc_matches y m d \<Longrightarrow> \<not> (m < 1 \<or> m > 12 \<or> d < 1 \<or> d > 31)" for y m d
    using days_in_month_le [of "m - 1" "int y"] by (auto simp: utc_matches_iff valid_civil_def)
  show ?thesis
  proof (cases "parse_ad (trim s)")
    case (Some x)
    then show ?thesis using r by (cases x) (auto simp: isValidADDate_def isAdDate_def)
  qed (simp add: isValidADDate_def isAdDate_def)
qed

section \<open>Properties\<close>

text \<open>The three date validators accept the same dates, and exactly the real ones: four, two and two
digits that name an existing day of the Gregorian calendar from the year 100 on (the years
0..99, which the language's \<open>Date.UTC\<close> reads as the 1900s, are refused).\<close>

theorem date_validators:
  "isAdDate (JStr s) = (\<exists>y m d. parse_ad s = Some (y, m, d) \<and> 100 \<le> y \<and> 1 \<le> m \<and> m \<le> 12 \<and> 1 \<le> d \<and>
      int d \<le> days_in_month (int y) (m - 1)) \<and>
   isAccountingDate v = isAdDate v \<and>
   isValidADDate (JStr s) = isAdDate (JStr (trim s))"
proof (intro conjI)
  show "isAdDate (JStr s) = (\<exists>y m d. parse_ad s = Some (y, m, d) \<and> 100 \<le> y \<and> 1 \<le> m \<and> m \<le> 12 \<and> 1 \<le> d \<and>
      int d \<le> days_in_month (int y) (m - 1))"
    by (auto simp: isAdDate_def utc_matches_iff valid_civil_def split: option.splits)
  show "isAccountingDate v = isAdDate v" by (rule isAccountingDate_eq)
  show "isValidADDate (JStr s) = isAdDate (JStr (trim s))" by (rule isValidADDate_iff)
qed

text \<open>Comparing two accepted dates as strings, the way the code orders dates everywhere, compares
the calendar days they name; and printing the day of an accepted date gives the date back.\<close>

theorem date_string_order:
  assumes "isAdDate (JStr a)" and "isAdDate (JStr b)"
  shows "(str_le a b \<longleftrightarrow> ad_day a \<le> ad_day b) \<and> (str_lt a b \<longleftrightarrow> ad_day a < ad_day b) \<and>
    iso_day (ad_day a) = a"
  using ad_le [OF assms] ad_le [OF assms(2,1)] iso_day_ad_day [OF assms(1)] by (auto simp: str_lt_def)

theorem date_string_order_witness:
  "isAdDate (JStr ''2024-02-29'') \<and> \<not> isAdDate (JStr ''2023-02-29'') \<and> ad_day ''2024-02-29'' < ad_day ''2024-10-01''"
proof -
  have v: "isAdDate (JStr ''2024-02-29'')" "isAdDate (JStr ''2024-10-01'')" "\<not> isAdDate (JStr ''2023-02-29'')"
    and "str_lt ''2024-02-29'' ''2024-10-01''"
    by code_simp+
  with date_string_order [OF v(1,2)] show ?thesis by blast
qed

end
