(* ===== verification/Money.thy ===== *)
theory Money
  imports SerialIdentity
begin

text \<open>
  Money arithmetic, \<open>server/src/utils/money.ts\<close>: the coercion \<open>num\<close> of untrusted input, the
  rounding to paisa, the discount allocation and VAT of a bill, the valuation of a stock
  operation. A finite JavaScript number is its exact rational value, so the rounding error of a
  double before \<open>roundMoney\<close> is outside the model; \<open>Number.EPSILON\<close> is the rational \<open>2^-52\<close>.
  The lemmas on \<open>round_money\<close> and \<open>is_cents\<close> are the ones the ledger rests on: rounding is the
  identity on whole paisa, keeps the order and moves an amount by at most half a paisa.
\<close>

section \<open>Coercion and rounding\<close>

definition num_or :: "rat \<Rightarrow> jsval \<Rightarrow> rat" where
  "num_or fallback v = (case to_number v of Fin r \<Rightarrow> r | _ \<Rightarrow> fallback)"

abbreviation num :: "jsval \<Rightarrow> rat" where
  "num \<equiv> num_or 0"

definition js_epsilon :: rat where
  "js_epsilon = 1 / 2 ^ 52"

definition round_money :: "rat \<Rightarrow> rat" where
  "round_money v = of_int (round_half_up ((v + js_epsilon) * 100)) / 100"

text \<open>\<open>roundMoney\<close> on any number: the non-finite ones stay what they are.\<close>

fun roundMoney :: "jnum \<Rightarrow> jnum" where
  "roundMoney (Fin v) = Fin (round_money v)"
| "roundMoney n = n"

definition clamp :: "rat \<Rightarrow> rat \<Rightarrow> rat \<Rightarrow> rat" where
  "clamp v lo hi = min hi (max lo v)"

text \<open>A whole number of paisa.\<close>

definition is_cents :: "rat \<Rightarrow> bool" where
  "is_cents r \<longleftrightarrow> of_int \<lfloor>100 * r\<rfloor> = 100 * r"

lemma is_cents_iff: "is_cents r \<longleftrightarrow> (\<exists>n. r = of_int n / 100)"
proof
  assume "is_cents r"
  then obtain n where "of_int n = 100 * r" unfolding is_cents_def ..
  then have "r = of_int n / 100" by simp
  then show "\<exists>n. r = of_int n / 100" ..
next
  assume "\<exists>n. r = of_int n / 100"
  then obtain n where "r = of_int n / 100" ..
  then have "100 * r = of_int n" by simp
  then show "is_cents r" by (simp add: is_cents_def)
qed

lemma is_cents_0 [simp]: "is_cents 0"
  by (simp add: is_cents_def)

lemma is_cents_add [intro]: "is_cents a \<Longrightarrow> is_cents b \<Longrightarrow> is_cents (a + b)"
proof -
  assume "is_cents a" and "is_cents b"
  then obtain m n where "a = of_int m / 100" "b = of_int n / 100" by (auto simp: is_cents_iff)
  then have "a + b = of_int (m + n) / 100" by (simp add: add_divide_distrib)
  then show ?thesis unfolding is_cents_iff ..
qed

lemma is_cents_uminus [intro]: "is_cents a \<Longrightarrow> is_cents (- a)"
proof -
  assume "is_cents a"
  then obtain n where "a = of_int n / 100" by (auto simp: is_cents_iff)
  then have "- a = of_int (- n) / 100" by simp
  then show ?thesis unfolding is_cents_iff ..
qed

lemma is_cents_diff [intro]: "is_cents a \<Longrightarrow> is_cents b \<Longrightarrow> is_cents (a - b)"
  using is_cents_add [of a "- b"] by auto

lemma is_cents_sum_list: "\<forall>x \<in> set xs. is_cents x \<Longrightarrow> is_cents (sum_list xs)"
  by (induction xs) auto

lemma is_cents_round [simp]: "is_cents (round_money v)"
  by (auto simp: is_cents_iff round_money_def)

lemma round_half_up_int: "0 \<le> e \<Longrightarrow> e < 1 / 2 \<Longrightarrow> round_half_up (of_int n + e) = n"
  by (simp add: round_half_up_def floor_eq_iff)

lemma round_money_cents [simp]: "is_cents r \<Longrightarrow> round_money r = r"
proof -
  assume "is_cents r"
  then obtain n where n: "r = of_int n / 100" by (auto simp: is_cents_iff)
  then have "(r + js_epsilon) * 100 = of_int n + js_epsilon * 100" by (simp add: distrib_right)
  moreover have "round_half_up (of_int n + js_epsilon * 100) = n"
    by (rule round_half_up_int) (simp_all add: js_epsilon_def)
  ultimately show ?thesis by (simp add: round_money_def n)
qed

lemma round_money_idem [simp]: "round_money (round_money v) = round_money v"
  by simp

text \<open>Whole paisa evaluate without the epsilon.\<close>

lemma round_money_code [code]:
  "round_money x = (if snd (quotient_of (100 * x)) = 1 then x else of_int (round_half_up ((x + js_epsilon) * 100)) / 100)"
proof (cases "snd (quotient_of (100 * x)) = 1")
  case True
  then obtain n where "quotient_of (100 * x) = (n, 1)" by (metis prod.collapse)
  then have "100 * x = of_int n" using quotient_of_div by fastforce
  then have "is_cents x" by (auto simp: is_cents_iff intro!: exI [of _ n])
  with True show ?thesis by simp
next
  case False
  then show ?thesis by (simp add: round_money_def)
qed

lemma round_money_0 [simp]: "round_money 0 = 0"
  by simp

lemma round_money_mono: "a \<le> b \<Longrightarrow> round_money a \<le> round_money b"
  by (auto simp: round_money_def round_half_up_def intro!: divide_right_mono floor_mono)

lemma round_money_nonneg: "0 \<le> a \<Longrightarrow> 0 \<le> round_money a"
  using round_money_mono [of 0 a] by simp

text \<open>Rounding moves an amount by at most half a paisa (and the epsilon the code adds).\<close>

lemma round_money_error: "\<bar>round_money v - v\<bar> \<le> 1 / 200 + js_epsilon"
proof -
  define n :: rat where "n = of_int \<lfloor>(v + js_epsilon) * 100 + 1 / 2\<rfloor>"
  have "n \<le> (v + js_epsilon) * 100 + 1 / 2" and "(v + js_epsilon) * 100 + 1 / 2 < n + 1"
    unfolding n_def by linarith+
  moreover have "js_epsilon \<ge> 0" by (simp add: js_epsilon_def)
  ultimately have "n / 100 - v \<le> 1 / 200 + js_epsilon" and "- (n / 100 - v) \<le> 1 / 200 + js_epsilon"
    by (simp_all add: field_simps)
  then have "\<bar>n / 100 - v\<bar> \<le> 1 / 200 + js_epsilon" by (rule abs_leI)
  then show ?thesis by (simp add: round_money_def round_half_up_def n_def)
qed

lemma cents_eq: "is_cents a \<Longrightarrow> is_cents b \<Longrightarrow> \<bar>a - b\<bar> < 1 / 100 \<Longrightarrow> a = b"
proof -
  assume "is_cents a" and "is_cents b" and d: "\<bar>a - b\<bar> < 1 / 100"
  then obtain m n where mn: "a = of_int m / 100" "b = of_int n / 100" by (auto simp: is_cents_iff)
  with d have "\<bar>of_int (m - n) :: rat\<bar> < 1" by (simp add: diff_divide_distrib [symmetric])
  then have "\<bar>m - n\<bar> < 1" by (metis of_int_abs of_int_less_1_iff)
  with mn show ?thesis by simp
qed

section \<open>Stock valuation\<close>

definition find_product :: "jsval list \<Rightarrow> jsval \<Rightarrow> jsval" where
  "find_product products item =
     (case List.find (\<lambda>p. truthy p \<and> strict_eq (jget p ''id'') (jget item ''productId'')) products of
        None \<Rightarrow> JUndef | Some p \<Rightarrow> p)"

definition resolveLedgerUnitCost :: "jsval list \<Rightarrow> jsval \<Rightarrow> jnum" where
  "resolveLedgerUnitCost products item =
     (let cost = to_number (jget (find_product products item) ''costPrice'');
          price = to_number (jget item ''unitPrice'')
      in case cost of
           Fin c \<Rightarrow> if 0 \<le> c then Fin c else if price = NaN then Fin 0 else price
         | _ \<Rightarrow> if price = NaN then Fin 0 else price)"

definition computeOperationTotalValue :: "jsval list \<Rightarrow> (jsval \<Rightarrow> jsval) \<Rightarrow> rat" where
  "computeOperationTotalValue items resolveUnitCost =
     round_money (sum_list (map (\<lambda>item. \<bar>num (jget item ''quantity'')\<bar> * num (resolveUnitCost item)) items))"

definition computeLegacyOperationTotalValue :: "jsval \<Rightarrow> jsval \<Rightarrow> rat" where
  "computeLegacyOperationTotalValue quantityChanged costPerUnit =
     round_money (\<bar>num quantityChanged\<bar> * num costPerUnit)"

section \<open>Bills\<close>

definition isTaxableLine :: "jsval \<Rightarrow> bool" where
  "isTaxableLine item =
     (if jget item ''taxRate'' \<noteq> JUndef \<and> jget item ''taxRate'' \<noteq> JNull then num (jget item ''taxRate'') > 0
      else \<not> truthy (jget item ''isTaxExempt''))"

definition DEFAULT_VAT_RATE_PERCENT :: rat where
  "DEFAULT_VAT_RATE_PERCENT = 13"

definition defaultVatRateFor :: "jsval \<Rightarrow> rat" where
  "defaultVatRateFor profile =
     (case to_number (jget profile ''defaultTaxRate'') of
        Fin r \<Rightarrow> if r > 0 then r else DEFAULT_VAT_RATE_PERCENT
      | _ \<Rightarrow> DEFAULT_VAT_RATE_PERCENT)"

definition taxRateFor :: "jsval \<Rightarrow> rat \<Rightarrow> rat" where
  "taxRateFor item defaultRate =
     (let rate = num (jget item ''taxRate'') in if rate > 0 then rate else defaultRate)"

record bill_line =
  bl_gross :: rat
  bl_taxable :: bool
  bl_rate :: rat
  bl_discount :: rat

record bill_allocation =
  al_lines :: "bill_line list"
  al_netLines :: "rat list"
  al_grossSubtotal :: rat
  al_discount :: rat

definition bill_line_of :: "rat \<Rightarrow> jsval \<Rightarrow> bill_line" where
  "bill_line_of fallbackRate item =
     \<lparr>bl_gross = num (jget item ''quantity'') * num (jget item ''unitPrice''),
      bl_taxable = isTaxableLine item, bl_rate = taxRateFor item fallbackRate,
      bl_discount = num (jget item ''discount'')\<rparr>"

text \<open>\<open>JUndef\<close> is the omitted argument.\<close>

definition fallback_rate :: "jsval \<Rightarrow> rat" where
  "fallback_rate defaultVatRate =
     (case to_number defaultVatRate of
        Fin r \<Rightarrow> if defaultVatRate \<noteq> JUndef \<and> r > 0 then r else DEFAULT_VAT_RATE_PERCENT
      | _ \<Rightarrow> DEFAULT_VAT_RATE_PERCENT)"

definition line_discounts :: "jsval \<Rightarrow> rat \<Rightarrow> bill_line list \<Rightarrow> rat list" where
  "line_discounts discountInput grossSubtotal lines =
     (if discountInput \<noteq> JUndef
      then let applied = clamp (num discountInput) 0 grossSubtotal
           in map (\<lambda>l. if bl_gross l > 0 \<and> grossSubtotal > 0
                       then bl_gross l / grossSubtotal * applied else 0) lines
      else map (\<lambda>l. clamp (bl_discount l) 0 (bl_gross l)) lines)"

definition allocateBillLines :: "jsval list \<Rightarrow> jsval \<Rightarrow> jsval \<Rightarrow> bill_allocation" where
  "allocateBillLines items discountInput defaultVatRate =
     (let lines = map (bill_line_of (fallback_rate defaultVatRate)) items;
          grossSubtotal = sum_list (map bl_gross lines);
          lineDiscounts = line_discounts discountInput grossSubtotal lines
      in \<lparr>al_lines = lines,
          al_netLines = map2 (\<lambda>l d. max 0 (bl_gross l - d)) lines lineDiscounts,
          al_grossSubtotal = grossSubtotal,
          al_discount = (if discountInput \<noteq> JUndef then clamp (num discountInput) 0 grossSubtotal
                         else sum_list lineDiscounts)\<rparr>)"

definition billLineNetAmounts :: "jsval list \<Rightarrow> jsval \<Rightarrow> rat list" where
  "billLineNetAmounts items discountInput =
     map round_money (al_netLines (allocateBillLines items discountInput JUndef))"

record bill_totals =
  bt_grossSubtotal :: rat
  bt_discount :: rat
  bt_netSubtotal :: rat
  bt_taxableAmount :: rat
  bt_nonTaxableAmount :: rat
  bt_vatAmount :: rat
  bt_grandTotal :: rat

definition taxable_of :: "bill_allocation \<Rightarrow> rat" where
  "taxable_of al = sum_list (map2 (\<lambda>l n. if bl_taxable l then n else 0) (al_lines al) (al_netLines al))"

definition nonTaxable_of :: "bill_allocation \<Rightarrow> rat" where
  "nonTaxable_of al = sum_list (map2 (\<lambda>l n. if bl_taxable l then 0 else n) (al_lines al) (al_netLines al))"

definition vat_of :: "bill_allocation \<Rightarrow> rat" where
  "vat_of al = sum_list (map2 (\<lambda>l n. if bl_taxable l then n * bl_rate l / 100 else 0) (al_lines al) (al_netLines al))"

definition computeBillTotals :: "jsval list \<Rightarrow> jsval \<Rightarrow> jsval \<Rightarrow> bill_totals" where
  "computeBillTotals items discountInput defaultVatRate =
     (let al = allocateBillLines items discountInput defaultVatRate;
          netSubtotal = al_grossSubtotal al - al_discount al
      in \<lparr>bt_grossSubtotal = round_money (al_grossSubtotal al),
          bt_discount = round_money (al_discount al),
          bt_netSubtotal = round_money netSubtotal,
          bt_taxableAmount = round_money (taxable_of al),
          bt_nonTaxableAmount = round_money (nonTaxable_of al),
          bt_vatAmount = round_money (vat_of al),
          bt_grandTotal = round_money (netSubtotal + vat_of al)\<rparr>)"


section \<open>The allocation is exact\<close>

lemma clamp_between: "lo \<le> hi \<Longrightarrow> lo \<le> clamp v lo hi \<and> clamp v lo hi \<le> hi"
  by (auto simp: clamp_def)

definition lines_nonneg :: "jsval list \<Rightarrow> bool" where
  "lines_nonneg items \<longleftrightarrow>
     (\<forall>item \<in> set items. 0 \<le> num (jget item ''quantity'') * num (jget item ''unitPrice''))"

lemma map2_same: "map2 f xs (map g xs) = map (\<lambda>x. f x (g x)) xs"
  by (induction xs) simp_all

lemma net_lines_sum:
  assumes "\<forall>l \<in> set ls. d l \<le> bl_gross l"
  shows "sum_list (map (\<lambda>l. max 0 (bl_gross l - d l)) ls) = sum_list (map bl_gross ls) - sum_list (map d ls)"
  using assms by (induction ls) auto

lemma sum_list_share:
  assumes "g \<noteq> (0::rat)"
  shows "sum_list (map (\<lambda>l. bl_gross l / g * a) ls) = sum_list (map bl_gross ls) / g * a"
  by (induction ls) (simp_all add: add_divide_distrib distrib_right)

definition line_discount :: "jsval \<Rightarrow> rat \<Rightarrow> bill_line \<Rightarrow> rat" where
  "line_discount disc gross l =
     (if disc \<noteq> JUndef
      then if bl_gross l > 0 \<and> gross > 0 then bl_gross l / gross * clamp (num disc) 0 gross else 0
      else clamp (bl_discount l) 0 (bl_gross l))"

lemma line_discounts_eq: "line_discounts disc g ls = map (line_discount disc g) ls"
  by (simp add: line_discounts_def line_discount_def Let_def)

lemma al_netLines_eq:
  "al_netLines (allocateBillLines items disc vat) =
     map (\<lambda>l. max 0 (bl_gross l - line_discount disc (al_grossSubtotal (allocateBillLines items disc vat)) l))
       (al_lines (allocateBillLines items disc vat))"
  by (simp add: allocateBillLines_def Let_def line_discounts_eq map2_same del: map_map)

lemma al_grossSubtotal_eq:
  "al_grossSubtotal (allocateBillLines items disc vat) =
     sum_list (map bl_gross (al_lines (allocateBillLines items disc vat)))"
  by (simp add: allocateBillLines_def Let_def)

lemma al_lines_nonneg:
  "lines_nonneg items \<Longrightarrow> l \<in> set (al_lines (allocateBillLines items disc vat)) \<Longrightarrow> 0 \<le> bl_gross l"
  by (auto simp: allocateBillLines_def Let_def lines_nonneg_def bill_line_of_def)

lemma gross_le_total:
  assumes "\<forall>l \<in> set ls. 0 \<le> bl_gross l" and "l \<in> set ls"
  shows "bl_gross l \<le> sum_list (map bl_gross ls)"
  using assms by (intro member_le_sum_list) auto

lemma line_discount_bounds:
  assumes "0 \<le> bl_gross l" and "bl_gross l \<le> gross"
  shows "0 \<le> line_discount disc gross l \<and> line_discount disc gross l \<le> bl_gross l"
proof (cases "disc = JUndef")
  case True
  then show ?thesis using clamp_between [OF assms(1)] by (simp add: line_discount_def)
next
  case False
  have c: "0 \<le> clamp (num disc) 0 gross \<and> clamp (num disc) 0 gross \<le> gross"
    using assms by (intro clamp_between) simp
  have "bl_gross l / gross * clamp (num disc) 0 gross \<le> bl_gross l / gross * gross" if "gross > 0"
    using c assms(1) that by (intro mult_left_mono) auto
  with False c assms show ?thesis by (auto simp: line_discount_def)
qed

lemma sum_line_discount:
  assumes "\<forall>l \<in> set ls. 0 \<le> bl_gross l" and "gross = sum_list (map bl_gross ls)" and "disc \<noteq> JUndef"
  shows "sum_list (map (line_discount disc gross) ls) = clamp (num disc) 0 gross"
proof (cases "gross > 0")
  case True
  have share: "map (line_discount disc gross) ls = map (\<lambda>l. bl_gross l / gross * clamp (num disc) 0 gross) ls"
    using assms(1,3) True by (auto simp: line_discount_def)
  have "sum_list (map (line_discount disc gross) ls) =
      sum_list (map bl_gross ls) / gross * clamp (num disc) 0 gross"
    unfolding share by (rule sum_list_share) (use True in simp)
  also have "\<dots> = gross / gross * clamp (num disc) 0 gross" by (simp only: assms(2) [symmetric])
  finally have "sum_list (map (line_discount disc gross) ls) = gross / gross * clamp (num disc) 0 gross" .
  then show ?thesis using True by simp
next
  case False
  moreover have "0 \<le> gross" using assms(1,2) by (auto intro!: sum_list_nonneg)
  ultimately have "gross = 0" by simp
  then show ?thesis using assms(3) by (simp add: line_discount_def [abs_def] clamp_def sum_list_triv)
qed

text \<open>
  On lines with nonnegative gross value the allocation spreads exactly the applied discount:
  the net lines sum to gross minus discount, each between zero and its gross.
\<close>

lemma allocate_exact:
  assumes "lines_nonneg items" and "al = allocateBillLines items disc vat"
  shows "sum_list (al_netLines al) = al_grossSubtotal al - al_discount al"
    and "0 \<le> al_discount al" and "al_discount al \<le> al_grossSubtotal al"
    and "list_all2 (\<lambda>n l. 0 \<le> n \<and> n \<le> bl_gross l) (al_netLines al) (al_lines al)"
proof -
  let ?ls = "al_lines al" and ?g = "al_grossSubtotal al"
  let ?d = "line_discount disc ?g"
  have nn: "\<forall>l \<in> set ?ls. 0 \<le> bl_gross l" using assms al_lines_nonneg by simp
  have g: "?g = sum_list (map bl_gross ?ls)" by (simp only: assms(2) al_grossSubtotal_eq)
  have b: "\<forall>l \<in> set ?ls. 0 \<le> ?d l \<and> ?d l \<le> bl_gross l"
    using nn gross_le_total [OF nn] line_discount_bounds unfolding g by blast
  have net: "al_netLines al = map (\<lambda>l. max 0 (bl_gross l - ?d l)) ?ls"
    by (simp only: assms(2) al_netLines_eq)
  have d: "al_discount al = sum_list (map ?d ?ls)"
  proof (cases "disc = JUndef")
    case True
    then show ?thesis by (simp add: assms(2) allocateBillLines_def line_discounts_eq Let_def)
  next
    case False
    have "al_discount al = clamp (num disc) 0 ?g"
      using False by (simp add: assms(2) allocateBillLines_def Let_def)
    then show ?thesis using sum_line_discount [OF nn g False] by simp
  qed
  show "sum_list (al_netLines al) = ?g - al_discount al"
    unfolding net d g by (rule net_lines_sum) (use b g in simp)
  show "0 \<le> al_discount al" unfolding d using b by (auto intro!: sum_list_nonneg)
  show "al_discount al \<le> ?g" unfolding d g by (rule sum_list_mono) (use b g in simp)
  show "list_all2 (\<lambda>n l. 0 \<le> n \<and> n \<le> bl_gross l) (al_netLines al) ?ls"
    unfolding net using b by (auto simp: list_all2_conv_all_nth)
qed


section \<open>Properties\<close>

lemma split_sums:
  "length ns = length ls \<Longrightarrow>
   sum_list (map2 (\<lambda>l n. if P l then n else 0) ls ns) + sum_list (map2 (\<lambda>l n. if P l then 0 else n) ls ns)
     = (sum_list ns :: rat)"
  by (induction ns ls rule: list_induct2) auto

lemma taxable_split:
  "length (al_netLines al) = length (al_lines al) \<Longrightarrow>
   taxable_of al + nonTaxable_of al = sum_list (al_netLines al)"
  unfolding taxable_of_def nonTaxable_of_def by (rule split_sums)

text \<open>Two rounded parts and the rounded whole differ by at most one paisa.\<close>

lemma round_money_parts: "\<bar>round_money a + round_money b - round_money (a + b)\<bar> \<le> 1 / 100"
proof -
  define d where "d = round_money a + round_money b - round_money (a + b)"
  have e: "js_epsilon < 1 / 600" by (simp add: js_epsilon_def)
  have "\<bar>d\<bar> < 2 / 100"
    using round_money_error [of a] round_money_error [of b] round_money_error [of "a + b"] e
    unfolding d_def by linarith
  have "is_cents d" unfolding d_def by (intro is_cents_diff is_cents_add) simp_all
  then obtain n where n: "d = of_int n / 100" by (auto simp: is_cents_iff)
  with \<open>\<bar>d\<bar> < 2 / 100\<close> have "\<bar>of_int n :: rat\<bar> < of_int 2" by simp
  then have "\<bar>n\<bar> < 2" by (simp only: of_int_abs [symmetric] of_int_less_iff)
  then have "\<bar>n\<bar> \<le> 1" by simp
  then have "\<bar>of_int n :: rat\<bar> \<le> of_int 1" by (simp only: of_int_abs [symmetric] of_int_le_iff)
  with n show ?thesis unfolding d_def [symmetric] by simp
qed

lemma round_money_shift: "is_cents c \<Longrightarrow> round_money (c + v) = c + round_money v"
proof -
  assume "is_cents c"
  then obtain n where n: "c = of_int n / 100" by (auto simp: is_cents_iff)
  have "(c + v + js_epsilon) * 100 + 1 / 2 = of_int n + ((v + js_epsilon) * 100 + 1 / 2)"
    by (simp add: n algebra_simps)
  then have "round_half_up ((c + v + js_epsilon) * 100) = n + round_half_up ((v + js_epsilon) * 100)"
    by (simp only: round_half_up_def) linarith
  then show ?thesis by (simp add: round_money_def n add_divide_distrib)
qed


definition demo_bill :: "jsval list" where
  "demo_bill =
     [JObj [(''quantity'', JNum (Fin 3)), (''unitPrice'', JNum (Fin 100)), (''taxRate'', JNum (Fin 13))],
      JObj [(''quantity'', JNum (Fin 1)), (''unitPrice'', JNum (Fin 50)), (''isTaxExempt'', JBool True)]]"


end
