(* ===== verification/Terms.thy ===== *)
theory Terms
  imports Dates Money
begin

text \<open>
  Terms of a contract: the warranty arithmetic of \<open>shared/warrantyTerm.ts\<close>, the bill terms of
  \<open>shared/billTerms.ts\<close> with their resolution in \<open>server/src/services/billTerms.service.ts\<close>, and the
  line-quantity rule of \<open>shared/lineQuantity.ts\<close> with its guard in \<open>server/src/utils/lineQuantity.ts\<close>.
  The lemmas show what a stored expiry or due date is: a real date, never before the start, the
  stated number of months or days later.
\<close>

section \<open>Calendar months\<close>

definition MAX_WARRANTY_MONTHS :: int where
  "MAX_WARRANTY_MONTHS = 120"

definition EXPIRING_SOON_DAYS :: int where
  "EXPIRING_SOON_DAYS = 30"

fun jnum_int :: "jnum \<Rightarrow> int option" where
  "jnum_int (Fin r) = (if of_int \<lfloor>r\<rfloor> = r then Some \<lfloor>r\<rfloor> else None)"
| "jnum_int _ = None"

definition addCalendarMonths :: "string \<Rightarrow> jnum \<Rightarrow> string option" where
  "addCalendarMonths dateAD months =
     (case jnum_int months of None \<Rightarrow> None
      | Some n \<Rightarrow>
          if \<not> isAdDate (JStr dateAD) \<or> n < 0 \<or> n > MAX_WARRANTY_MONTHS then None
          else case parse_ad dateAD of None \<Rightarrow> None
            | Some (year, month, day) \<Rightarrow>
                let monthIndex = int month - 1 + n;
                    targetYear = int year + monthIndex div 12;
                    targetMonth = ((monthIndex mod 12) + 12) mod 12;
                    lastDay = utc_date (date_utc targetYear (targetMonth + 1) 0);
                    clampedDay = min (int day) lastDay
                in Some (int_pad 4 targetYear @ ''-'' @ int_pad 2 (targetMonth + 1) @ ''-'' @ int_pad 2 clampedDay))"

definition DEFAULT_WARRANTY_MONTHS :: jnum where
  "DEFAULT_WARRANTY_MONTHS = Fin 12"

definition defaultWarrantyEnd :: "string \<Rightarrow> jnum option \<Rightarrow> string option" where
  "defaultWarrantyEnd startAD months =
     addCalendarMonths startAD (case months of None \<Rightarrow> DEFAULT_WARRANTY_MONTHS | Some m \<Rightarrow> m)"

definition warrantyTermError :: "jsval \<Rightarrow> string option" where
  "warrantyTermError value =
     (case jnum_int (to_number value) of
        Some n \<Rightarrow> if n < 0 \<or> n > MAX_WARRANTY_MONTHS
                  then Some ''Warranty term must be a whole number of months between 0 and 120.'' else None
      | None \<Rightarrow> Some ''Warranty term must be a whole number of months between 0 and 120.'')"

definition isValidWarrantyRange :: "jsval \<Rightarrow> jsval \<Rightarrow> bool" where
  "isValidWarrantyRange startAD endAD \<longleftrightarrow>
     isAdDate startAD \<and> isAdDate endAD \<and> str_le (str_nullish startAD) (str_nullish endAD)"

section \<open>Coverage\<close>

record coverage_args =
  ca_covered :: jsval
  ca_endDateAD :: jsval
  ca_startDateAD :: string
  ca_termMonths :: jnum
  ca_label :: string

record coverage_resolution =
  cr_covered :: bool
  cr_endDateAD :: "string option"
  cr_termMonths :: "int option"
  cr_error :: "string option"

fun js_bool :: "jsval \<Rightarrow> bool option" where
  "js_bool (JBool b) = Some b"
| "js_bool _ = None"

fun finite_trunc :: "jnum \<Rightarrow> int" where
  "finite_trunc (Fin r) = trunc_rat r"
| "finite_trunc _ = 0"

definition resolveWarrantyCoverage :: "coverage_args \<Rightarrow> coverage_resolution" where
  "resolveWarrantyCoverage args =
     (let label = (if ca_label args = [] then ''Warranty expiry'' else ca_label args);
          term = finite_trunc (ca_termMonths args);
          explicit = js_bool (ca_covered args);
          typed = (case str_val (ca_endDateAD args) of Some s \<Rightarrow> trim s | None \<Rightarrow> []);
          kept = (if term > 0 then Some term else None)
      in if explicit = Some False
         then \<lparr>cr_covered = False, cr_endDateAD = None, cr_termMonths = kept, cr_error = None\<rparr>
         else if typed \<noteq> [] then
           (if \<not> isValidWarrantyRange (JStr (ca_startDateAD args)) (JStr typed)
            then \<lparr>cr_covered = True, cr_endDateAD = None, cr_termMonths = None,
                  cr_error = Some (label @ '' must be a real date on or after the warranty start date.'')\<rparr>
            else \<lparr>cr_covered = True, cr_endDateAD = Some typed, cr_termMonths = kept, cr_error = None\<rparr>)
         else if explicit = Some True
         then \<lparr>cr_covered = True, cr_endDateAD = None, cr_termMonths = None,
               cr_error = Some (label @ '' is required, or turn the warranty off for this unit.'')\<rparr>
         else if term \<le> 0
         then \<lparr>cr_covered = False, cr_endDateAD = None, cr_termMonths = None, cr_error = None\<rparr>
         else case addCalendarMonths (ca_startDateAD args) (Fin (of_int term)) of
             None \<Rightarrow> \<lparr>cr_covered = True, cr_endDateAD = None, cr_termMonths = None,
                      cr_error = Some (label @ '' needs a valid start date.'')\<rparr>
           | Some derived \<Rightarrow>
               \<lparr>cr_covered = True, cr_endDateAD = Some derived, cr_termMonths = Some term, cr_error = None\<rparr>)"

section \<open>The warranty state\<close>

datatype warranty_state = VALID | EXPIRING_SOON | EXPIRED

definition warrantyDaysRemaining :: "string \<Rightarrow> string \<Rightarrow> int option" where
  "warrantyDaysRemaining endAD today =
     (if \<not> isAdDate (JStr endAD) \<or> \<not> isAdDate (JStr today) then None
      else Some (ad_day endAD - ad_day today))"

definition warrantyStateFor :: "string \<Rightarrow> string \<Rightarrow> warranty_state" where
  "warrantyStateFor endAD today =
     (case warrantyDaysRemaining endAD today of
        None \<Rightarrow> EXPIRED
      | Some days \<Rightarrow> if days < 0 then EXPIRED else if days \<le> EXPIRING_SOON_DAYS then EXPIRING_SOON else VALID)"

definition day_word :: "int \<Rightarrow> string" where
  "day_word n = (if n = 1 then ''day'' else ''days'')"

definition warrantyStatusLabel :: "string \<Rightarrow> string \<Rightarrow> string" where
  "warrantyStatusLabel endAD today =
     (case warrantyDaysRemaining endAD today of
        None \<Rightarrow> ''No expiry recorded''
      | Some days \<Rightarrow>
          if days < 0 then ''Expired ('' @ int_str \<bar>days\<bar> @ '' '' @ day_word \<bar>days\<bar> @ '' ago)''
          else if days \<le> EXPIRING_SOON_DAYS
          then ''Expiring ('' @ int_str days @ '' '' @ day_word days @ '' left)''
          else ''Valid ('' @ int_str days @ '' '' @ day_word days @ '' left)'')"

section \<open>Bill terms\<close>

definition MAX_BILL_TERM_DAYS :: int where
  "MAX_BILL_TERM_DAYS = 3650"

definition addDaysAD :: "string \<Rightarrow> jnum \<Rightarrow> string option" where
  "addDaysAD dateAD days =
     (if \<not> isValidADDate (JStr dateAD) then None
      else case jtrunc days of
          Fin r \<Rightarrow>
            let count = \<lfloor>r\<rfloor> in
            if count < 0 \<or> count > MAX_BILL_TERM_DAYS then None
            else (case parse_ad (trim dateAD) of None \<Rightarrow> None
                  | Some (year, month, day) \<Rightarrow>
                      Some (iso_day (date_utc (int year) (int month - 1) (int day) + count)))
        | _ \<Rightarrow> None)"

definition computeDueDateAD :: "string \<Rightarrow> jnum \<Rightarrow> string option" where
  "computeDueDateAD invoiceDateAD dueDays = addDaysAD invoiceDateAD dueDays"

record bill_term =
  bt_id :: string
  bt_code :: string
  bt_dueDays :: jsval
  bt_active :: bool

text \<open>The in-memory masters the service reads while PostgreSQL is down.\<close>

record terms_master =
  tm_billTerms :: "bill_term list"
  tm_customers :: "(string \<times> string \<times> string option) list"
  tm_suppliers :: "(string \<times> string option) list"
  tm_salesInvoices :: "string option list"
  tm_purchaseInvoices :: "string option list"

definition findBillTermById :: "terms_master \<Rightarrow> string \<Rightarrow> bill_term option" where
  "findBillTermById ms termId =
     (let clean = trim termId in
      if clean = [] then None else List.find (\<lambda>t. bt_id t = clean) (tm_billTerms ms))"

definition findBillTermByCode :: "terms_master \<Rightarrow> string \<Rightarrow> bill_term option" where
  "findBillTermByCode ms code =
     (let clean = trim code in
      if clean = [] then None
      else List.find (\<lambda>t. to_lower (bt_code t) = to_lower clean) (tm_billTerms ms))"

definition listBillTerms :: "terms_master \<Rightarrow> bool \<Rightarrow> bill_term list" where
  "listBillTerms ms includeInactive = filter (\<lambda>t. includeInactive \<or> bt_active t) (tm_billTerms ms)"

definition billTermUsageCount :: "terms_master \<Rightarrow> string \<Rightarrow> nat" where
  "billTermUsageCount ms termId =
     (let clean = trim termId in
      if clean = [] then 0
      else length (filter (\<lambda>(i, c, t). t = Some clean) (tm_customers ms)) +
           length (filter (\<lambda>(i, t). t = Some clean) (tm_suppliers ms)) +
           length (filter (\<lambda>t. t = Some clean) (tm_salesInvoices ms)) +
           length (filter (\<lambda>t. t = Some clean) (tm_purchaseInvoices ms)))"

datatype party_type = CUSTOMER | SUPPLIER

definition findPartyDefaultBillTerm :: "terms_master \<Rightarrow> party_type \<Rightarrow> string \<Rightarrow> bill_term option" where
  "findPartyDefaultBillTerm ms partyType partyId =
     (let clean = trim partyId;
          byId = (\<lambda>tid. case tid of None \<Rightarrow> None | Some i \<Rightarrow> List.find (\<lambda>t. bt_id t = i) (tm_billTerms ms))
      in if clean = [] then None
         else case partyType of
             CUSTOMER \<Rightarrow> (case List.find (\<lambda>(i, c, t). i = clean \<or> c = clean) (tm_customers ms) of
                 None \<Rightarrow> None | Some (i, c, t) \<Rightarrow> byId t)
           | SUPPLIER \<Rightarrow> (case List.find (\<lambda>(i, t). i = clean) (tm_suppliers ms) of
                 None \<Rightarrow> None | Some (i, t) \<Rightarrow> byId t))"

record invoice_terms_input =
  it_invoiceDateAD :: jsval
  it_dueDateAD :: jsval
  it_billTermsId :: string
  it_party :: "(party_type \<times> string) option"

record resolved_terms =
  rt_billTermsId :: "string option"
  rt_dueDateAD :: "string option"
  rt_dueDateBS :: "string option"

definition date_part :: "jsval \<Rightarrow> string" where
  "date_part v = takeWhile (\<lambda>c. c \<noteq> CHR ''T'') (str_nullish v)"

definition num_or_zero :: "jnum \<Rightarrow> jnum" where
  "num_or_zero n = (if n = NaN then Fin 0 else n)"

definition resolve_term :: "terms_master \<Rightarrow> invoice_terms_input \<Rightarrow> bill_term option res" where
  "resolve_term ms input =
     (let requested = trim (it_billTermsId input) in
      if requested \<noteq> [] then
        (case findBillTermById ms requested of
           Some t \<Rightarrow> if bt_active t then Inr (Some t)
                     else throw 400 ''The selected bill terms were not found or are inactive.''
         | None \<Rightarrow> throw 400 ''The selected bill terms were not found or are inactive.'')
      else case it_party input of
          Some (pt, pid) \<Rightarrow>
            if pid = [] then Inr None
            else (case findPartyDefaultBillTerm ms pt pid of
                    Some t \<Rightarrow> Inr (if bt_active t then Some t else None)
                  | None \<Rightarrow> Inr None)
        | None \<Rightarrow> Inr None)"

text \<open>\<open>bs_of\<close> is the calendar's display string of a date (\<open>resolveBsDateForLedger\<close>).\<close>

definition resolveInvoiceTerms ::
  "(string \<Rightarrow> string) \<Rightarrow> terms_master \<Rightarrow> invoice_terms_input \<Rightarrow> resolved_terms res" where
  "resolveInvoiceTerms bs_of ms input =
     (let invoiceDate = date_part (it_invoiceDateAD input);
          explicit = date_part (it_dueDateAD input)
      in rbind (guard (isValidADDate (JStr invoiceDate)) 400
                 ''A valid invoice date is required to calculate bill terms.'') (\<lambda>_.
         rbind (guard (explicit = [] \<or> isValidADDate (JStr explicit)) 400
                 (''Due date  @ to_str (it_dueDateAD input) @  is not a valid date.'')) (\<lambda>_.
         rbind (guard (explicit = [] \<or> \<not> str_lt explicit invoiceDate) 400
                 ''The due date cannot be before the invoice date.'') (\<lambda>_.
         rbind (resolve_term ms input) (\<lambda>term.
           let due = (if explicit \<noteq> [] then Some explicit
                      else case term of None \<Rightarrow> None
                        | Some t \<Rightarrow> computeDueDateAD invoiceDate (num_or_zero (to_number (bt_dueDays t))))
           in case due of
                None \<Rightarrow> Inr \<lparr>rt_billTermsId = map_option bt_id term, rt_dueDateAD = None, rt_dueDateBS = None\<rparr>
              | Some d \<Rightarrow>
                  rbind (guard (\<not> str_lt d invoiceDate) 400
                    ''The calculated due date falls before the invoice date.'') (\<lambda>_.
                  Inr \<lparr>rt_billTermsId = map_option bt_id term, rt_dueDateAD = Some d,
                       rt_dueDateBS = Some (bs_of d)\<rparr>))))))"

section \<open>Line quantities\<close>

definition MAX_LINE_QUANTITY :: jnum where
  "MAX_LINE_QUANTITY = Fin 1000"

fun jle :: "jnum \<Rightarrow> jnum \<Rightarrow> bool" where
  "jle NaN _ = False"
| "jle _ NaN = False"
| "jle NegInf _ = True"
| "jle _ PosInf = True"
| "jle (Fin a) (Fin b) = (a \<le> b)"
| "jle _ _ = False"

fun jmin :: "rat \<Rightarrow> jnum \<Rightarrow> jnum" where
  "jmin a (Fin b) = Fin (min a b)"
| "jmin a PosInf = Fin a"
| "jmin a b = b"

definition parseLineQuantity :: "jsval \<Rightarrow> rat \<Rightarrow> jnum \<Rightarrow> jnum" where
  "parseLineQuantity value mn mx =
     (case jfloor (to_number value) of
        Fin parsed \<Rightarrow> jmin (max parsed mn) mx
      | _ \<Rightarrow> Fin mn)"

definition clampLineQuantity :: "jsval \<Rightarrow> jnum option \<Rightarrow> jnum" where
  "clampLineQuantity value mx =
     parseLineQuantity value 1 (case mx of None \<Rightarrow> MAX_LINE_QUANTITY | Some m \<Rightarrow> m)"

record quantity_options =
  qo_allowSigned :: bool
  qo_allowZero :: bool
  qo_max :: "jnum option"
  qo_label :: "string option"

definition lineQuantityRefusal :: "jsval \<Rightarrow> quantity_options \<Rightarrow> string option" where
  "lineQuantityRefusal value opts =
     (let mx = (case qo_max opts of None \<Rightarrow> MAX_LINE_QUANTITY | Some m \<Rightarrow> m);
          label = (case qo_label opts of None \<Rightarrow> [] | Some l \<Rightarrow> if l = [] then [] else '' for '' @ l);
          mn = (if qo_allowSigned opts then jneg mx else if qo_allowZero opts then Fin 0 else Fin 1);
          bounds = (if is_finite mx then ''between '' @ num_str mn @ '' and '' @ num_str mx
                    else ''of at least '' @ num_str mn);
          parsed = to_number value
      in if \<not> is_finite parsed \<or> \<not> is_integer parsed
         then Some (''Line quantity'' @ label @ '' must be a whole number '' @ bounds @ ''.'')
         else if \<not> jle mn parsed \<or> \<not> jle parsed mx
         then Some (''Line quantity'' @ label @ '' must be '' @ bounds @ '' (received '' @ num_str parsed @ '').'')
         else None)"

record quantity_guard =
  qg_quantityOf :: "jsval \<Rightarrow> jsval"
  qg_labelOf :: "jsval \<Rightarrow> string"
  qg_allowSigned :: bool
  qg_allowZero :: bool
  qg_uncapped :: bool

definition default_label :: "jsval \<Rightarrow> string" where
  "default_label item =
     to_str (js_or (jget item ''productName'') (js_or (jget item ''productId'') (JStr ''line item'')))"

definition default_quantity_guard :: quantity_guard where
  "default_quantity_guard = \<lparr>qg_quantityOf = (\<lambda>item. jget item ''quantity''), qg_labelOf = default_label,
     qg_allowSigned = False, qg_allowZero = False, qg_uncapped = False\<rparr>"

fun firstLineQuantityRefusal :: "jsval list \<Rightarrow> quantity_guard \<Rightarrow> string option" where
  "firstLineQuantityRefusal [] g = None"
| "firstLineQuantityRefusal (item # items) g =
     (case lineQuantityRefusal (qg_quantityOf g item)
             \<lparr>qo_allowSigned = qg_allowSigned g, qo_allowZero = qg_allowZero g,
              qo_max = Some (if qg_uncapped g then PosInf else MAX_LINE_QUANTITY),
              qo_label = Some (qg_labelOf g item)\<rparr> of
        Some refusal \<Rightarrow> Some refusal
      | None \<Rightarrow> firstLineQuantityRefusal items g)"


section \<open>Months: the clamped date\<close>

lemma last_day_of_month:
  assumes "100 \<le> y" and "m < 12"
  shows "utc_date (date_utc y (int m + 1) 0) = days_in_month y m"
proof -
  have "date_utc y (int m + 1) 0 = civil_day y m (days_in_month y m)"
  proof (cases "m = 11")
    case True
    then have "date_utc y (int m + 1) 0 = days_before_year (y + 1) - 1 - epoch"
      using assms(1) by (simp add: date_utc_def Let_def)
    moreover have "days_in_month y 11 = days_before_month (is_leap y) 12 - days_before_month (is_leap y) 11"
      by (simp add: days_in_month_def)
    ultimately show ?thesis using True by (simp add: civil_day_def days_before_year_Suc)
  next
    case False
    then have "Suc m < 12" using assms(2) by simp
    then have "date_utc y (int (Suc m)) 0 = civil_day y (Suc m) 0" by (rule date_utc_civil [OF assms(1)])
    then show ?thesis by (simp add: civil_day_def days_in_month_def add.commute)
  qed
  moreover have "1 \<le> days_in_month y m" using month_steps [OF assms(2), of "is_leap y"] by (simp add: days_in_month_def)
  then have "valid_civil y m (days_in_month y m)" using assms(2) by (simp add: valid_civil_def)
  ultimately show ?thesis by (simp add: utc_fields)
qed

definition ad_year :: "string \<Rightarrow> int" where
  "ad_year s = utc_year (ad_day s)"

definition ad_month_index :: "string \<Rightarrow> int" where
  "ad_month_index s = 12 * utc_year (ad_day s) + int (utc_month (ad_day s))"

definition ad_dom :: "string \<Rightarrow> int" where
  "ad_dom s = utc_date (ad_day s)"

lemma ad_fields:
  assumes "isAdDate (JStr s)"
  obtains y m d where "parse_ad s = Some (y, m, d)" "100 \<le> y" "y \<le> 9999" "1 \<le> m" "m \<le> 12"
    "valid_civil (int y) (m - 1) (int d)" "ad_day s = civil_day (int y) (m - 1) (int d)"
    "utc_year (ad_day s) = int y" "utc_month (ad_day s) = m - 1" "utc_date (ad_day s) = int d"
proof -
  obtain y m d where p: "parse_ad s = Some (y, m, d)" "100 \<le> y" "1 \<le> m"
    "valid_civil (int y) (m - 1) (int d)" "ad_day s = civil_day (int y) (m - 1) (int d)"
    using assms by (rule isAdDate_cases)
  moreover from this utc_fields [OF p(4)] have "utc_year (ad_day s) = int y" "utc_month (ad_day s) = m - 1"
    "utc_date (ad_day s) = int d" by simp_all
  moreover have "y \<le> 9999" using ad_day_year [OF assms] calculation(6) by simp
  moreover have "m \<le> 12" using p(4) by (auto simp: valid_civil_def)
  ultimately show ?thesis using that by blast
qed

lemma addCalendarMonths_Some:
  assumes "isAdDate (JStr s)" and "0 \<le> n" and "n \<le> 120" and "ad_month_index s + n < 12 * 10000"
  obtains r where "addCalendarMonths s (Fin (of_int n)) = Some r" "isAdDate (JStr r)"
    "ad_month_index r = ad_month_index s + n"
    "ad_dom r = min (ad_dom s) (days_in_month (ad_year r) (utc_month (ad_day r)))"
proof -
  from assms(1) obtain y m d where p: "parse_ad s = Some (y, m, d)" "100 \<le> y" "1 \<le> m" "m \<le> 12"
    "valid_civil (int y) (m - 1) (int d)"
    "utc_year (ad_day s) = int y" "utc_month (ad_day s) = m - 1" "utc_date (ad_day s) = int d"
    by (rule ad_fields)
  define mi where "mi = int m - 1 + n"
  define ty tm where "ty = int y + mi div 12" and "tm = nat (mi mod 12)"
  have mi: "0 \<le> mi" using p(3) assms(2) by (simp add: mi_def)
  then have "0 \<le> mi div 12" by simp
  then have ty: "100 \<le> ty" using p(2) by (simp add: ty_def)
  have tm: "int tm = mi mod 12" "tm < 12" by (simp_all add: tm_def nat_less_iff)
  have idx: "12 * ty + int tm = 12 * int y + mi" by (simp add: ty_def tm(1))
  have sidx: "ad_month_index s = 12 * int y + (int m - 1)" using p(3) by (simp add: ad_month_index_def p(6,7))
  with idx have tyi: "12 * ty + int tm = ad_month_index s + n" by (simp add: mi_def)
  with assms(4) have "ty \<le> 9999" by simp
  define dim cd where "dim = days_in_month ty tm" and "cd = min (int d) dim"
  have dim: "1 \<le> dim" "dim \<le> 31"
    using month_steps [OF tm(2), of "is_leap ty"] days_in_month_le [OF tm(2), of ty]
    by (simp_all add: dim_def days_in_month_def)
  have cd: "1 \<le> cd" "cd \<le> dim" using dim p(5) by (auto simp: cd_def valid_civil_def)
  have last: "utc_date (date_utc ty (int tm + 1) 0) = dim"
    using last_day_of_month [OF ty tm(2)] by (simp only: dim_def)
  define r where "r = int_pad 4 ty @ ''-'' @ int_pad 2 (int tm + 1) @ ''-'' @ int_pad 2 cd"
  have some: "addCalendarMonths s (Fin (of_int n)) = Some r"
    unfolding addCalendarMonths_def jnum_int.simps
    using assms(1-3) last by (simp add: p(1) MAX_WARRANTY_MONTHS_def Let_def mi_def [symmetric]
        ty_def [symmetric] tm(1) [symmetric] r_def cd_def)
  note w = int_pad [of ty 4] int_pad [of "int tm + 1" 2] int_pad [of cd 2]
  have "nat (int tm + 1) = Suc tm" by simp
  then have pr: "parse_ad r = Some (nat ty, Suc tm, nat cd)"
    unfolding r_def by (subst parse_ad_join) (use ty \<open>ty \<le> 9999\<close> tm cd dim w in simp_all)
  have v: "valid_civil ty tm cd" using tm cd by (simp add: valid_civil_def dim_def)
  have ok: "isAdDate (JStr r)" and day: "ad_day r = civil_day ty tm cd"
    using pr ty cd v by (simp_all add: isAdDate_def utc_matches_iff ad_day_def)
  from utc_fields [OF v] have "ad_month_index r = 12 * ty + int tm"
    "ad_dom r = cd" "ad_year r = ty" "utc_month (ad_day r) = tm"
    by (simp_all add: ad_month_index_def ad_dom_def ad_year_def day)
  then show ?thesis using that [OF some ok] tyi p(8) by (simp add: cd_def dim_def ad_dom_def)
qed

lemma month_index_le:
  assumes "isAdDate (JStr a)" and "isAdDate (JStr b)" and "ad_month_index a < ad_month_index b"
  shows "ad_day a < ad_day b"
proof -
  let ?y = "\<lambda>s. utc_year (ad_day s)" and ?m = "\<lambda>s. utc_month (ad_day s)"
  note a = civil_fields [of "ad_day a"] and b = civil_fields [of "ad_day b"]
  have "?m a < 12" "?m b < 12" using a(1) b(1) by (simp_all add: valid_civil_def)
  with assms(3) have "?y a < ?y b \<or> ?y a = ?y b \<and> ?m a < ?m b"
    unfolding ad_month_index_def by linarith
  then show ?thesis using civil_day_less [OF a(1) b(1)] by (auto simp: a(2) b(2))
qed

lemma addCalendarMonths_after:
  assumes "addCalendarMonths s (Fin (of_int n)) = Some r" and "isAdDate (JStr s)" and "0 \<le> n" and "n \<le> 120"
    and "ad_month_index s + n < 12 * 10000"
  shows "isAdDate (JStr r) \<and> str_le s r"
proof -
  obtain r' where r: "addCalendarMonths s (Fin (of_int n)) = Some r'" "isAdDate (JStr r')"
    "ad_month_index r' = ad_month_index s + n"
    "ad_dom r' = min (ad_dom s) (days_in_month (ad_year r') (utc_month (ad_day r')))"
    using addCalendarMonths_Some [OF assms(2-5)] by blast
  have "ad_day s \<le> ad_day r'"
  proof (cases "n = 0")
    case False
    then show ?thesis using month_index_le [OF assms(2) r(2)] r(3) assms(3) by simp
  next
    case True
    note a = civil_fields [of "ad_day s"] and b = civil_fields [of "ad_day r'"]
    have "utc_month (ad_day s) < 12" "utc_month (ad_day r') < 12" using a(1) b(1) by (simp_all add: valid_civil_def)
    with r(3) True have y: "utc_year (ad_day r') = utc_year (ad_day s)"
      unfolding ad_month_index_def by linarith
    with r(3) True have "utc_month (ad_day r') = utc_month (ad_day s)" by (simp add: ad_month_index_def)
    note e = y this
    have "utc_date (ad_day r') = utc_date (ad_day s)"
      using r(4) a(1) by (simp add: ad_dom_def ad_year_def e valid_civil_def)
    then show ?thesis using a(2) b(2) e by (metis order_refl)
  qed
  with r assms(1) show ?thesis by (simp add: ad_le [OF assms(2)])
qed


section \<open>Days\<close>

lemma utc_year_mono: "a \<le> b \<Longrightarrow> utc_year a \<le> utc_year b"
  using utc_year_bounds [of a] utc_year_bounds [of b] days_before_year_mono [of "utc_year b + 1" "utc_year a"]
  by linarith

lemma days_before_year_add: "days_before_year y + 365 * int k \<le> days_before_year (y + int k)"
proof (induction k)
  case (Suc k)
  have "y + int (Suc k) = (y + int k) + 1" by simp
  then have "days_before_year (y + int (Suc k)) \<ge> days_before_year (y + int k) + 365"
    by (simp only: days_before_year_Suc) simp
  with Suc show ?case by simp
qed simp

lemma utc_year_add: "k \<le> 365 * int j \<Longrightarrow> utc_year (n + k) \<le> utc_year n + int j"
proof -
  assume k: "k \<le> 365 * int j"
  have "days_before_year (utc_year n + 1) + 365 * int j \<le> days_before_year (utc_year n + 1 + int j)"
    by (rule days_before_year_add)
  with utc_year_bounds [of n] utc_year_bounds [of "n + k"] k
  have "\<not> days_before_year (utc_year n + 1 + int j) \<le> days_before_year (utc_year (n + k))" by linarith
  then show ?thesis using days_before_year_mono [of "utc_year n + 1 + int j" "utc_year (n + k)"] by linarith
qed

lemma isAdDate_trim: "isAdDate (JStr s) \<Longrightarrow> trim s = s"
proof -
  assume "isAdDate (JStr s)"
  then obtain y m d where s: "s = y @ ''-'' @ m @ ''-'' @ d" "list_all is_digit (y @ m @ d)"
    by (rule isAdDate_cases)
  have "c \<in> set s \<Longrightarrow> is_digit c \<or> c = CHR ''-''" for c
    using s(2) by (auto simp: s(1) list_all_iff)
  then have "c \<in> set s \<Longrightarrow> \<not> is_space c" for c using digit_not_space by blast
  then show ?thesis by (intro trim_no_space) simp
qed

lemma valid_ad_day: "isAdDate (JStr s) \<Longrightarrow> parse_ad s = Some (y, m, d) \<Longrightarrow> date_utc (int y) (int m - 1) (int d) = ad_day s"
proof -
  assume a: "isAdDate (JStr s)" and p: "parse_ad s = Some (y, m, d)"
  then have "100 \<le> y" "1 \<le> m" "valid_civil (int y) (m - 1) (int d)"
    by (simp_all add: isAdDate_def utc_matches_iff)
  moreover from this have "int (m - 1) = int m - 1" "m - 1 < 12" by (simp_all add: valid_civil_def)
  ultimately show ?thesis using date_utc_civil [of "int y" "m - 1" "int d"] p by (simp add: ad_day_def)
qed

lemma trunc_of_int [simp]: "trunc_rat (of_int k) = k"
  by (simp add: trunc_rat_def)

lemma addDaysAD_valid:
  assumes "isValidADDate (JStr s)" and "jtrunc days = Fin (of_int k)" and "0 \<le> k" and "k \<le> 3650"
  shows "addDaysAD s days = Some (iso_day (ad_day (trim s) + k))"
proof -
  from assms(1) have a: "isAdDate (JStr (trim s))" using isValidADDate_iff by blast
  then obtain y m d where p: "parse_ad (trim s) = Some (y, m, d)" by (rule ad_fields)
  with assms valid_ad_day [OF a p] show ?thesis
    by (simp add: addDaysAD_def MAX_BILL_TERM_DAYS_def Let_def)
qed

lemma iso_day_later:
  assumes "isAdDate (JStr s)" and "0 \<le> k" and "k \<le> 3650" and "utc_year (ad_day s) \<le> 9989"
  shows "isAdDate (JStr (iso_day (ad_day s + k)))" and "ad_day (iso_day (ad_day s + k)) = ad_day s + k"
proof -
  have "utc_year (ad_day s) \<le> utc_year (ad_day s + k)" using assms(2) by (intro utc_year_mono) simp
  moreover have "utc_year (ad_day s + k) \<le> utc_year (ad_day s) + int 10" using assms(3) by (intro utc_year_add) simp
  ultimately have "100 \<le> utc_year (ad_day s + k)" "utc_year (ad_day s + k) \<le> 9999"
    using ad_day_year [OF assms(1)] assms(4) by simp_all
  then show "isAdDate (JStr (iso_day (ad_day s + k)))" and "ad_day (iso_day (ad_day s + k)) = ad_day s + k"
    by (rule iso_day_valid)+
qed


section \<open>Properties\<close>

text \<open>C39. A warranty of N months ends N calendar months later: for a real start date and a term of 0 to
120 months (up to the year 9999) the helper returns a real date, N months after the start's
month, on the same day of the month or the month's last day if that is shorter, and never
before the start.\<close>

theorem warranty_months:
  assumes "isAdDate (JStr s)" and "0 \<le> n" and "n \<le> 120" and "ad_month_index s + n < 120000"
  shows "\<exists>r. addCalendarMonths s (Fin (of_int n)) = Some r \<and> isAdDate (JStr r) \<and>
    ad_month_index r = ad_month_index s + n \<and>
    ad_dom r = min (ad_dom s) (days_in_month (ad_year r) (utc_month (ad_day r))) \<and> str_le s r"
proof -
  have b: "ad_month_index s + n < 12 * 10000" using assms(4) by simp
  obtain r where r: "addCalendarMonths s (Fin (of_int n)) = Some r" "isAdDate (JStr r)"
    "ad_month_index r = ad_month_index s + n"
    "ad_dom r = min (ad_dom s) (days_in_month (ad_year r) (utc_month (ad_day r)))"
    using addCalendarMonths_Some [OF assms(1-3) b] by blast
  with addCalendarMonths_after [OF r(1) assms(1-3) b] show ?thesis by blast
qed

theorem warranty_months_witness:
  "isAdDate (JStr ''2024-01-31'') \<and> ad_month_index ''2024-01-31'' + 1 < 120000 \<and>
   (\<exists>r. addCalendarMonths ''2024-01-31'' (Fin (of_int 1)) = Some r \<and> ad_dom r = 29)"
proof -
  have v: "isAdDate (JStr ''2024-01-31'')" and i: "ad_month_index ''2024-01-31'' = 24288"
    and d: "ad_dom ''2024-01-31'' = 31" by code_simp+
  have b: "ad_month_index ''2024-01-31'' + 1 < 120000" by (simp add: i)
  from warranty_months [OF v _ _ b] obtain r where
    r: "addCalendarMonths ''2024-01-31'' (Fin (of_int 1)) = Some r" "ad_month_index r = 24289"
      "ad_dom r = min 31 (days_in_month (ad_year r) (utc_month (ad_day r)))"
    by (auto simp: i d)
  have "utc_month (ad_day r) < 12" using civil_fields(1) [of "ad_day r"] by (simp add: valid_civil_def)
  with r(2) have y: "utc_year (ad_day r) = 2024" unfolding ad_month_index_def by linarith
  with r(2) have "ad_year r = 2024" "utc_month (ad_day r) = 1"
    by (simp_all add: ad_month_index_def ad_year_def)
  moreover have "days_in_month 2024 1 = 29" by code_simp
  ultimately show ?thesis using v b r by auto
qed

text \<open>What a capture screen decided is what is stored: switching the warranty off always writes no
expiry, a covered unit without error has an expiry that is a real date not before its start,
an unreadable or missing expiry on a covered unit is an error and never a silent default, and
an error stores no date.\<close>

theorem warranty_coverage_sound:
  assumes "ad_month_index (ca_startDateAD args) + 120 < 120000" and "r = resolveWarrantyCoverage args"
  shows "(cr_covered r \<and> cr_error r = None \<longrightarrow>
       (\<exists>e. cr_endDateAD r = Some e \<and> isAdDate (JStr e) \<and> isAdDate (JStr (ca_startDateAD args)) \<and>
          str_le (ca_startDateAD args) e)) \<and>
    (\<not> cr_covered r \<or> cr_error r \<noteq> None \<longrightarrow> cr_endDateAD r = None) \<and>
    (ca_covered args = JBool False \<longrightarrow> \<not> cr_covered r \<and> cr_error r = None) \<and>
    (ca_covered args = JBool True \<and> ca_endDateAD args = JStr [] \<longrightarrow> cr_error r \<noteq> None)"
proof -
  let ?s = "ca_startDateAD args" and ?months = "finite_trunc (ca_termMonths args)"
  have derived: "isAdDate (JStr e) \<and> isAdDate (JStr ?s) \<and> str_le ?s e"
    if add: "addCalendarMonths ?s (Fin (of_int ?months)) = Some e" and pos: "\<not> ?months \<le> 0" for e
  proof -
    from add have v: "isAdDate (JStr ?s)" and hi: "?months \<le> 120"
      by (auto simp: addCalendarMonths_def MAX_WARRANTY_MONTHS_def split: if_splits option.splits)
    with pos assms(1) have "0 \<le> ?months" "ad_month_index ?s + ?months < 12 * 10000" by simp_all
    with addCalendarMonths_after [OF add v _ hi] v show ?thesis by blast
  qed
  show ?thesis
    unfolding assms(2) resolveWarrantyCoverage_def Let_def
    using derived
    by (auto simp: isValidWarrantyRange_def split: if_splits option.splits)
qed

definition demo_coverage :: "jsval \<Rightarrow> jsval \<Rightarrow> coverage_args" where
  "demo_coverage covered endD = \<lparr>ca_covered = covered, ca_endDateAD = endD, ca_startDateAD = ''2026-03-15'',
     ca_termMonths = Fin 12, ca_label = []\<rparr>"

theorem warranty_coverage_sound_witness:
  "ad_month_index ''2026-03-15'' + 120 < 120000 \<and>
   cr_error (resolveWarrantyCoverage (demo_coverage (JBool True) (JStr []))) \<noteq> None \<and>
   \<not> cr_covered (resolveWarrantyCoverage (demo_coverage (JBool False) (JStr ''2027-03-15'')))"
proof -
  have "ad_month_index ''2026-03-15'' = 24314" by code_simp
  then have b: "ad_month_index (ca_startDateAD (demo_coverage c e)) + 120 < 120000" for c e
    by (simp add: demo_coverage_def)
  show ?thesis
    using warranty_coverage_sound [OF b refl, of "JBool True" "JStr []"]
      warranty_coverage_sound [OF b refl, of "JBool False" "JStr ''2027-03-15''"] b
    by (simp add: demo_coverage_def)
qed

text \<open>A bill term of K days (0 to 3650) gives a due date exactly K days after the invoice date: a
real date on or after it, from which the warranty clock's day count reads K back.\<close>

theorem due_date_days:
  assumes "isAdDate (JStr s)" and "0 \<le> k" and "k \<le> 3650" and "utc_year (ad_day s) \<le> 9989"
  shows "\<exists>r. computeDueDateAD s (Fin (of_int k)) = Some r \<and> isAdDate (JStr r) \<and>
    ad_day r = ad_day s + k \<and> str_le s r \<and> warrantyDaysRemaining r s = Some k"
proof -
  have "isValidADDate (JStr s)" using assms(1) isAdDate_trim [OF assms(1)] isValidADDate_iff by simp
  then have "computeDueDateAD s (Fin (of_int k)) = Some (iso_day (ad_day s + k))"
    using addDaysAD_valid [of s "Fin (of_int k)" k] assms isAdDate_trim [OF assms(1)]
    by (simp add: computeDueDateAD_def)
  with iso_day_later [OF assms] assms show ?thesis
    by (simp add: ad_le [OF assms(1)] warrantyDaysRemaining_def)
qed

theorem due_date_days_witness:
  "\<exists>r. computeDueDateAD ''2026-12-15'' (Fin (of_int 30)) = Some r \<and> ad_day r = ad_day ''2026-12-15'' + 30"
proof -
  have v: "isAdDate (JStr ''2026-12-15'')" and y: "utc_year (ad_day ''2026-12-15'') = 2026" by code_simp+
  then have "utc_year (ad_day ''2026-12-15'') \<le> 9989" by simp
  from due_date_days [OF v _ _ this, of 30] show ?thesis by auto
qed

text \<open>The API refuses exactly the line quantities the screens would change: a quantity passes the
server rule if and only if the client's clamp returns it unchanged, that is, when it is a
whole number from 1 to 1000.\<close>

theorem quantity_rule_is_clamp:
  "(lineQuantityRefusal v \<lparr>qo_allowSigned = False, qo_allowZero = False, qo_max = None, qo_label = l\<rparr> = None)
     = (clampLineQuantity v None = to_number v) \<and>
   (clampLineQuantity v None = to_number v) =
     (\<exists>n::int. to_number v = Fin (of_int n) \<and> 1 \<le> n \<and> n \<le> 1000)"
proof (cases "to_number v")
  case (Fin r)
  have ints: "(\<exists>n::int. r = of_int n \<and> 1 \<le> n \<and> n \<le> 1000) \<longleftrightarrow> of_int \<lfloor>r\<rfloor> = r \<and> 1 \<le> r \<and> r \<le> 1000"
    by (auto intro!: exI [of _ "\<lfloor>r\<rfloor>"] simp: le_floor_iff floor_le_iff)
  show ?thesis using Fin
    by (auto simp: lineQuantityRefusal_def clampLineQuantity_def parseLineQuantity_def MAX_LINE_QUANTITY_def
        Let_def ints min_def max_def split: if_splits)
qed (simp_all add: lineQuantityRefusal_def clampLineQuantity_def parseLineQuantity_def MAX_LINE_QUANTITY_def Let_def)


lemma rbind_guard_eq [simp]:
  "rbind (guard b st msg) f = Inr x \<longleftrightarrow> b \<and> f () = Inr x"
  by (simp add: rbind_def guard_def throw_def)

lemma rbind_Inr_iff: "rbind m f = Inr y \<longleftrightarrow> (\<exists>x. m = Inr x \<and> f x = Inr y)"
  by (simp add: rbind_def split: sum.splits)

lemma find_member: "List.find P xs = Some x \<Longrightarrow> x \<in> set xs"
  by (auto simp: find_Some_iff)

lemma resolve_term_active:
  assumes "resolve_term ms input = Inr (Some t)"
  shows "t \<in> set (tm_billTerms ms) \<and> bt_active t"
  using assms
  by (auto simp: resolve_term_def findBillTermById_def findPartyDefaultBillTerm_def throw_def Let_def
      split: if_splits option.splits party_type.splits dest!: find_member)

text \<open>The due date an invoice stores: if the terms resolve, the invoice date is real, the recorded
term exists and is active, an explicit due date is stored as typed, and in any case the stored
due date is a real date not before the invoice date with the calendar's own BS spelling; a date
computed from the term is the invoice date plus the term's days.\<close>

theorem invoice_due_date:
  assumes "resolveInvoiceTerms bs ms input = Inr r" and "invd = date_part (it_invoiceDateAD input)"
    and "utc_year (ad_day (trim invd)) \<le> 9989"
  shows "isAdDate (JStr (trim invd)) \<and>
    (\<forall>i. rt_billTermsId r = Some i \<longrightarrow> (\<exists>t \<in> set (tm_billTerms ms). bt_id t = i \<and> bt_active t)) \<and>
    (\<forall>d. rt_dueDateAD r = Some d \<longrightarrow> isAdDate (JStr (trim d)) \<and> \<not> str_lt d invd \<and> rt_dueDateBS r = Some (bs d) \<and>
       (date_part (it_dueDateAD input) \<noteq> [] \<longrightarrow> d = date_part (it_dueDateAD input)) \<and>
       (date_part (it_dueDateAD input) = [] \<longrightarrow>
          (\<exists>k. 0 \<le> k \<and> k \<le> 3650 \<and> ad_day d = ad_day (trim invd) + k)))"
proof -
  let ?e = "date_part (it_dueDateAD input)"
  from assms(1,2) obtain tm0 where ok: "isValidADDate (JStr invd)"
    and ex: "?e = [] \<or> isValidADDate (JStr ?e)" and tm: "resolve_term ms input = Inr tm0"
    and fin: "(case (if ?e \<noteq> [] then Some ?e else case tm0 of None \<Rightarrow> None
        | Some t \<Rightarrow> computeDueDateAD invd (num_or_zero (to_number (bt_dueDays t)))) of
      None \<Rightarrow> Inr \<lparr>rt_billTermsId = map_option bt_id tm0, rt_dueDateAD = None, rt_dueDateBS = None\<rparr>
    | Some d \<Rightarrow> rbind (guard (\<not> str_lt d invd) 400 ''The calculated due date falls before the invoice date.'')
        (\<lambda>_. Inr \<lparr>rt_billTermsId = map_option bt_id tm0, rt_dueDateAD = Some d, rt_dueDateBS = Some (bs d)\<rparr>)) = Inr r"
    by (auto simp: resolveInvoiceTerms_def Let_def rbind_Inr_iff)
  have v: "isAdDate (JStr (trim invd))" using ok isValidADDate_iff by blast
  have ids: "\<forall>i. rt_billTermsId r = Some i \<longrightarrow> (\<exists>t \<in> set (tm_billTerms ms). bt_id t = i \<and> bt_active t)"
    using fin tm resolve_term_active by (auto split: option.splits if_splits)
  have comp: "isAdDate (JStr (trim d)) \<and> (\<exists>k. 0 \<le> k \<and> k \<le> 3650 \<and> ad_day d = ad_day (trim invd) + k)"
    if "computeDueDateAD invd n = Some d" for n d
  proof -
    from that obtain q where n: "jtrunc n = Fin q" by (auto simp: computeDueDateAD_def addDaysAD_def split: if_splits jnum.splits)
    define k where "k = \<lfloor>q\<rfloor>"
    have q: "q = of_int k" using n by (cases n) (auto simp: k_def)
    from that n q have k: "0 \<le> k" "k \<le> 3650"
      by (auto simp: computeDueDateAD_def addDaysAD_def MAX_BILL_TERM_DAYS_def Let_def split: if_splits)
    have "d = iso_day (ad_day (trim invd) + k)"
      using that addDaysAD_valid [OF ok] n q k by (simp add: computeDueDateAD_def)
    with iso_day_later [OF v k assms(3)] k isAdDate_trim show ?thesis by auto
  qed
  from fin have "\<forall>d. rt_dueDateAD r = Some d \<longrightarrow> isAdDate (JStr (trim d)) \<and> \<not> str_lt d invd \<and> rt_dueDateBS r = Some (bs d) \<and>
       (?e \<noteq> [] \<longrightarrow> d = ?e) \<and> (?e = [] \<longrightarrow> (\<exists>k. 0 \<le> k \<and> k \<le> 3650 \<and> ad_day d = ad_day (trim invd) + k))"
    using comp ex isValidADDate_iff by (auto split: option.splits if_splits)
  with v ids show ?thesis by blast
qed

definition demo_terms :: terms_master where
  "demo_terms = \<lparr>tm_billTerms = [\<lparr>bt_id = ''bt30'', bt_code = ''NET30'', bt_dueDays = JNum (Fin 30), bt_active = True\<rparr>],
     tm_customers = [], tm_suppliers = [(''s1'', Some ''bt30'')], tm_salesInvoices = [], tm_purchaseInvoices = []\<rparr>"

definition demo_terms_input :: invoice_terms_input where
  "demo_terms_input = \<lparr>it_invoiceDateAD = JStr ''2026-12-15T00:00'', it_dueDateAD = JUndef, it_billTermsId = [],
     it_party = Some (SUPPLIER, ''s1'')\<rparr>"

lemma demo_terms_run:
  "resolveInvoiceTerms (\<lambda>_. ''BS'') demo_terms demo_terms_input =
     Inr \<lparr>rt_billTermsId = Some ''bt30'', rt_dueDateAD = Some ''2027-01-14'', rt_dueDateBS = Some ''BS''\<rparr>"
proof -
  have t: "resolve_term demo_terms demo_terms_input = Inr (Some (hd (tm_billTerms demo_terms)))"
    and v: "isValidADDate (JStr ''2026-12-15'')" and lt: "\<not> str_lt ''2027-01-14'' ''2026-12-15''"
    and dp: "date_part (it_invoiceDateAD demo_terms_input) = ''2026-12-15''"
    and e: "date_part (it_dueDateAD demo_terms_input) = []"
    and iso: "iso_day (ad_day (trim ''2026-12-15'') + 30) = ''2027-01-14''"
    by code_simp+
  have "computeDueDateAD ''2026-12-15'' (Fin 30) = Some ''2027-01-14''"
    using addDaysAD_valid [OF v, of "Fin 30" 30] trunc_of_int [of 30] iso by (simp add: computeDueDateAD_def)
  then show ?thesis
    unfolding resolveInvoiceTerms_def Let_def t dp e
    using v lt by (simp add: rbind_def guard_def demo_terms_def num_or_zero_def)
qed

theorem invoice_due_date_witness:
  "resolveInvoiceTerms (\<lambda>_. ''BS'') demo_terms demo_terms_input =
     Inr \<lparr>rt_billTermsId = Some ''bt30'', rt_dueDateAD = Some ''2027-01-14'', rt_dueDateBS = Some ''BS''\<rparr> \<and>
   isAdDate (JStr ''2027-01-14'')"
proof -
  have "utc_year (ad_day (trim (date_part (it_invoiceDateAD demo_terms_input)))) = 2026" by code_simp
  then have y: "utc_year (ad_day (trim (date_part (it_invoiceDateAD demo_terms_input)))) \<le> 9989" by simp
  have "trim ''2027-01-14'' = ''2027-01-14''" by code_simp
  with invoice_due_date [OF demo_terms_run refl y] demo_terms_run show ?thesis by simp
qed

end
