(* ===== verification/LedgerState.thy ===== *)
theory LedgerState
  imports Dates Money
begin

text \<open>
  The tables of the general ledger and the statements of
  \<open>server/src/models/accounting.repo.ts\<close> that \<open>accounting.service.ts\<close> runs on them. A table is the
  list of its rows in insertion order; a statement is a query or an update of the record
  \<open>ledger\<close>. A NUMERIC column holds an exact rational, a jsonb profile its list of fields.
  \<open>lg_seq\<close> is the sequence \<open>gl_journal_no_seq\<close> and \<open>lg_uuid\<close> the supply of \<open>crypto.randomUUID\<close>:
  every call returns a string never returned before.
\<close>

section \<open>Rows\<close>

record gl_group =
  gg_id :: string
  gg_parentId :: "string option"
  gg_code :: string
  gg_name :: string
  gg_accountType :: string
  gg_statementGroup :: string
  gg_normalBalance :: string
  gg_sortOrder :: int

record bank_meta =
  bm_bankName :: "string option"
  bm_bankBranch :: "string option"
  bm_accountNumber :: "string option"
  bm_accountHolder :: "string option"
  bm_swiftCode :: "string option"

record gl_account =
  ga_id :: string
  ga_code :: string
  ga_name :: string
  ga_groupId :: string
  ga_description :: "string option"
  ga_isControl :: bool
  ga_subledgerType :: string
  ga_postingRole :: "string option"
  ga_accountKind :: string
  ga_bank :: bank_meta
  ga_masterProfile :: "(string \<times> jsval) list"
  ga_isActive :: bool

record fiscal_year =
  fy_id :: string
  fy_code :: string
  fy_startDateAD :: string
  fy_endDateAD :: string
  fy_isClosed :: bool

record gl_period =
  gp_id :: string
  gp_fiscalYearId :: string
  gp_fiscalYearCode :: string
  gp_periodKey :: string
  gp_startDateAD :: string
  gp_endDateAD :: string
  gp_status :: string
  gp_closedBy :: "string option"

record cost_center =
  cc_id :: string
  cc_code :: string
  cc_branchId :: "string option"
  cc_active :: bool

record gl_book =
  sb_id :: string
  sb_accountId :: string
  sb_partyId :: "string option"
  sb_isActive :: bool

record gl_journal =
  gj_id :: string
  gj_journalNo :: string
  gj_journalDateAD :: string
  gj_fiscalYearId :: string
  gj_periodId :: string
  gj_branchId :: string
  gj_sourceType :: string
  gj_sourceId :: "string option"
  gj_voucherType :: string
  gj_voucherClass :: "string option"
  gj_referenceNo :: "string option"
  gj_referenceDateAD :: "string option"
  gj_chequeNo :: "string option"
  gj_chequeDateAD :: "string option"
  gj_currency :: string
  gj_exchangeRate :: rat
  gj_memo :: "string option"
  gj_status :: string
  gj_reversalOfId :: "string option"
  gj_postedBy :: "string option"
  gj_isDemo :: bool

record gl_line =
  gl_id :: string
  gl_journalId :: string
  gl_lineNo :: nat
  gl_accountId :: string
  gl_costCenterId :: "string option"
  gl_branchId :: string
  gl_debit :: rat
  gl_credit :: rat
  gl_memo :: "string option"

record gl_subentry =
  gs_id :: string
  gs_journalId :: string
  gs_lineId :: string
  gs_accountId :: string
  gs_subledgerId :: string
  gs_subledgerType :: string
  gs_partyId :: "string option"
  gs_partyName :: "string option"
  gs_branchId :: string
  gs_entryDateAD :: string
  gs_debit :: rat
  gs_credit :: rat

record ledger =
  lg_groups :: "gl_group list"
  lg_accounts :: "gl_account list"
  lg_fiscalYears :: "fiscal_year list"
  lg_periods :: "gl_period list"
  lg_branches :: "string list"
  lg_costCenters :: "cost_center list"
  lg_books :: "gl_book list"
  lg_journals :: "gl_journal list"
  lg_lines :: "gl_line list"
  lg_subledger :: "gl_subentry list"
  lg_seq :: nat
  lg_uuid :: nat

definition randomUUID :: "(ledger, string) tx" where
  "randomUUID = (\<lambda>s. Inr (nat_str (lg_uuid s), s\<lparr>lg_uuid := Suc (lg_uuid s)\<rparr>))"

section \<open>Chart statements\<close>

definition ACCOUNT_GROUP_BY_ID :: "string \<Rightarrow> ledger \<Rightarrow> gl_group option" where
  "ACCOUNT_GROUP_BY_ID gid s = List.find (\<lambda>g. gg_id g = gid) (lg_groups s)"

definition ACCOUNT_GROUP_BY_CODE :: "string \<Rightarrow> ledger \<Rightarrow> gl_group option" where
  "ACCOUNT_GROUP_BY_CODE code s = List.find (\<lambda>g. gg_code g = code) (lg_groups s)"

definition ACCOUNT_GROUP_ACCOUNT_COUNT :: "string \<Rightarrow> ledger \<Rightarrow> nat" where
  "ACCOUNT_GROUP_ACCOUNT_COUNT gid s = length (filter (\<lambda>a. ga_groupId a = gid) (lg_accounts s))"

definition ACCOUNT_GROUP_CHILD_COUNT :: "string \<Rightarrow> ledger \<Rightarrow> nat" where
  "ACCOUNT_GROUP_CHILD_COUNT gid s = length (filter (\<lambda>g. gg_parentId g = Some gid) (lg_groups s))"

definition ACCOUNT_GROUP_INSERT :: "gl_group \<Rightarrow> ledger \<Rightarrow> ledger" where
  "ACCOUNT_GROUP_INSERT g s = s\<lparr>lg_groups := lg_groups s @ [g]\<rparr>"

definition ACCOUNT_GROUP_UPDATE :: "string \<Rightarrow> string option \<Rightarrow> int option \<Rightarrow> ledger \<Rightarrow> ledger" where
  "ACCOUNT_GROUP_UPDATE gid nm so s = s\<lparr>lg_groups := map (\<lambda>g. if gg_id g = gid
     then g\<lparr>gg_name := (case nm of None \<Rightarrow> gg_name g | Some n \<Rightarrow> n),
            gg_sortOrder := (case so of None \<Rightarrow> gg_sortOrder g | Some n \<Rightarrow> n)\<rparr> else g) (lg_groups s)\<rparr>"

definition ACCOUNT_GROUP_SET_PARENT ::
  "string \<Rightarrow> string option \<Rightarrow> string \<Rightarrow> string \<Rightarrow> string \<Rightarrow> ledger \<Rightarrow> ledger" where
  "ACCOUNT_GROUP_SET_PARENT gid parent ty sg nb s = s\<lparr>lg_groups := map (\<lambda>g. if gg_id g = gid
     then g\<lparr>gg_parentId := parent, gg_accountType := ty, gg_statementGroup := sg, gg_normalBalance := nb\<rparr>
     else g) (lg_groups s)\<rparr>"

definition ACCOUNT_GROUP_DELETE :: "string \<Rightarrow> ledger \<Rightarrow> ledger" where
  "ACCOUNT_GROUP_DELETE gid s = s\<lparr>lg_groups := filter (\<lambda>g. gg_id g \<noteq> gid) (lg_groups s)\<rparr>"

definition ACCOUNT_BY_ID :: "string \<Rightarrow> ledger \<Rightarrow> gl_account option" where
  "ACCOUNT_BY_ID aid s = List.find (\<lambda>a. ga_id a = aid) (lg_accounts s)"

definition ACCOUNT_BY_CODE :: "string \<Rightarrow> ledger \<Rightarrow> gl_account option" where
  "ACCOUNT_BY_CODE code s = List.find (\<lambda>a. ga_code a = code) (lg_accounts s)"

definition ACCOUNT_BY_POSTING_ROLE :: "string \<Rightarrow> ledger \<Rightarrow> gl_account option" where
  "ACCOUNT_BY_POSTING_ROLE role s = List.find (\<lambda>a. ga_postingRole a = Some role) (lg_accounts s)"

definition ACCOUNT_JOURNAL_LINE_COUNT :: "string \<Rightarrow> ledger \<Rightarrow> nat" where
  "ACCOUNT_JOURNAL_LINE_COUNT aid s = length (filter (\<lambda>l. gl_accountId l = aid) (lg_lines s))"

definition ACCOUNT_INSERT :: "gl_account \<Rightarrow> ledger \<Rightarrow> ledger" where
  "ACCOUNT_INSERT a s = s\<lparr>lg_accounts := lg_accounts s @ [a]\<rparr>"

definition updated_account ::
  "string option \<Rightarrow> string option \<Rightarrow> string option \<Rightarrow> bool option \<Rightarrow> string option \<Rightarrow> string \<Rightarrow>
   bank_meta \<Rightarrow> (string \<times> jsval) list option \<Rightarrow> gl_account \<Rightarrow> gl_account" where
  "updated_account nm descr role active gid kind bank profile a =
     a\<lparr>ga_name := (case nm of None \<Rightarrow> ga_name a | Some n \<Rightarrow> n),
       ga_description := (case descr of None \<Rightarrow> ga_description a | Some d \<Rightarrow> Some d),
       ga_postingRole := role,
       ga_isActive := (case active of None \<Rightarrow> ga_isActive a | Some b \<Rightarrow> b),
       ga_groupId := (case gid of None \<Rightarrow> ga_groupId a | Some g \<Rightarrow> g),
       ga_accountKind := kind, ga_bank := bank,
       ga_masterProfile := (case profile of None \<Rightarrow> ga_masterProfile a | Some p \<Rightarrow> p)\<rparr>"

definition ACCOUNT_UPDATE ::
  "string \<Rightarrow> string option \<Rightarrow> string option \<Rightarrow> string option \<Rightarrow> bool option \<Rightarrow> string option \<Rightarrow> string \<Rightarrow>
   bank_meta \<Rightarrow> (string \<times> jsval) list option \<Rightarrow> ledger \<Rightarrow> ledger" where
  "ACCOUNT_UPDATE aid nm descr role active gid kind bank profile s =
     s\<lparr>lg_accounts := map (\<lambda>a. if ga_id a = aid
        then updated_account nm descr role active gid kind bank profile a else a) (lg_accounts s)\<rparr>"

definition ACCOUNT_DELETE :: "string \<Rightarrow> ledger \<Rightarrow> ledger" where
  "ACCOUNT_DELETE aid s = s\<lparr>lg_accounts := filter (\<lambda>a. ga_id a \<noteq> aid) (lg_accounts s)\<rparr>"

section \<open>Period statements\<close>

definition FISCAL_YEAR_BOUNDS :: "string \<Rightarrow> ledger \<Rightarrow> fiscal_year option" where
  "FISCAL_YEAR_BOUNDS date s =
     (case filter (\<lambda>f. str_le (fy_startDateAD f) date \<and> str_le date (fy_endDateAD f)) (lg_fiscalYears s) of
        [] \<Rightarrow> None
      | f # fs \<Rightarrow> Some (foldl (\<lambda>a b. if str_lt (fy_startDateAD a) (fy_startDateAD b) then b else a) f fs))"

definition PERIOD_BY_KEY :: "string \<Rightarrow> string \<Rightarrow> ledger \<Rightarrow> gl_period option" where
  "PERIOD_BY_KEY fy key s = List.find (\<lambda>p. gp_fiscalYearId p = fy \<and> gp_periodKey p = key) (lg_periods s)"

definition PERIOD_BY_ID :: "string \<Rightarrow> ledger \<Rightarrow> gl_period option" where
  "PERIOD_BY_ID pid s = List.find (\<lambda>p. gp_id p = pid) (lg_periods s)"

definition PERIOD_INSERT :: "gl_period \<Rightarrow> ledger \<Rightarrow> ledger" where
  "PERIOD_INSERT p s = s\<lparr>lg_periods := lg_periods s @ [p]\<rparr>"

definition PERIOD_INSERT_IF_MISSING :: "gl_period \<Rightarrow> ledger \<Rightarrow> ledger" where
  "PERIOD_INSERT_IF_MISSING p s =
     (if PERIOD_BY_KEY (gp_fiscalYearId p) (gp_periodKey p) s \<noteq> None then s else PERIOD_INSERT p s)"

definition PERIOD_SET_STATUS :: "string \<Rightarrow> string \<Rightarrow> string option \<Rightarrow> ledger \<Rightarrow> ledger" where
  "PERIOD_SET_STATUS pid status actor s = s\<lparr>lg_periods := map (\<lambda>p. if gp_id p = pid
     then p\<lparr>gp_status := status, gp_closedBy := (if status = ''CLOSED'' then actor else None)\<rparr>
     else p) (lg_periods s)\<rparr>"

section \<open>Journal statements\<close>

definition BRANCH_EXISTS :: "string \<Rightarrow> ledger \<Rightarrow> bool" where
  "BRANCH_EXISTS b s = (b \<in> set (lg_branches s))"

definition ACCOUNTS_BY_IDS :: "string list \<Rightarrow> ledger \<Rightarrow> gl_account list" where
  "ACCOUNTS_BY_IDS ids s = filter (\<lambda>a. ga_id a \<in> set ids) (lg_accounts s)"

definition COST_CENTERS_BY_IDS :: "string list \<Rightarrow> ledger \<Rightarrow> cost_center list" where
  "COST_CENTERS_BY_IDS ids s = filter (\<lambda>c. cc_id c \<in> set ids) (lg_costCenters s)"

text \<open>The general book (no party) comes first; the order among party books is immaterial.\<close>

definition SUBLEDGER_BOOKS_BY_ACCOUNT :: "string \<Rightarrow> ledger \<Rightarrow> gl_book list" where
  "SUBLEDGER_BOOKS_BY_ACCOUNT aid s =
     (let bs = filter (\<lambda>b. sb_accountId b = aid \<and> sb_isActive b) (lg_books s)
      in filter (\<lambda>b. sb_partyId b = None) bs @ filter (\<lambda>b. sb_partyId b \<noteq> None) bs)"

definition NEXT_JOURNAL_SEQUENCE :: "(ledger, nat) tx" where
  "NEXT_JOURNAL_SEQUENCE = (\<lambda>s. Inr (Suc (lg_seq s), s\<lparr>lg_seq := Suc (lg_seq s)\<rparr>))"

text \<open>
  The constraints of the table: the id is a VARCHAR(50), a reversal names an existing journal, and the
  partial unique index \<open>uq_gl_journals_opening_balance\<close> lets one opening balance per branch in.
\<close>

definition JOURNAL_INSERT :: "gl_journal \<Rightarrow> (ledger, unit) tx" where
  "JOURNAL_INSERT j = (\<lambda>s.
     if length (gj_id j) > 50 then Inl (ApiError 500 ''value too long for type character varying(50)'')
     else if (case gj_reversalOfId j of None \<Rightarrow> False | Some x \<Rightarrow> \<not> list_ex (\<lambda>k. gj_id k = x) (lg_journals s))
     then Inl (ApiError 500 ''insert on table gl_journals violates foreign key constraint'')
     else if gj_sourceType j = ''OPENING_BALANCE'' \<and>
        list_ex (\<lambda>k. gj_sourceType k = ''OPENING_BALANCE'' \<and> gj_branchId k = gj_branchId j) (lg_journals s)
     then Inl (ApiError 409 ''duplicate key value violates unique constraint uq_gl_journals_opening_balance'')
     else Inr ((), s\<lparr>lg_journals := lg_journals s @ [j]\<rparr>))"

definition JOURNAL_LINE_INSERT :: "gl_line \<Rightarrow> ledger \<Rightarrow> ledger" where
  "JOURNAL_LINE_INSERT l s = s\<lparr>lg_lines := lg_lines s @ [l]\<rparr>"

definition SUBLEDGER_INSERT :: "gl_subentry \<Rightarrow> ledger \<Rightarrow> ledger" where
  "SUBLEDGER_INSERT e s = s\<lparr>lg_subledger := lg_subledger s @ [e]\<rparr>"

text \<open>
  The rows of one party on the general book move to the party's own book. The statement's other case, a row without a book, is of rows
  written before the books existed; every row of this model has one.
\<close>

definition SUBLEDGER_REASSIGN_PARTY :: "string \<Rightarrow> string \<Rightarrow> string \<Rightarrow> string option \<Rightarrow> ledger \<Rightarrow> ledger" where
  "SUBLEDGER_REASSIGN_PARTY accountId partyId bookId generalBook s =
     s\<lparr>lg_subledger := map (\<lambda>e. if gs_accountId e = accountId \<and> gs_partyId e = Some partyId \<and> generalBook = Some (gs_subledgerId e)
        then e\<lparr>gs_subledgerId := bookId\<rparr> else e) (lg_subledger s)\<rparr>"

definition JOURNAL_LOCK_BY_ID :: "string \<Rightarrow> ledger \<Rightarrow> gl_journal option" where
  "JOURNAL_LOCK_BY_ID jid s = List.find (\<lambda>j. gj_id j = jid) (lg_journals s)"

definition JOURNAL_REVERSAL_EXISTS :: "string \<Rightarrow> ledger \<Rightarrow> gl_journal option" where
  "JOURNAL_REVERSAL_EXISTS jid s = List.find (\<lambda>j. gj_reversalOfId j = Some jid) (lg_journals s)"

text \<open>Lines come in line order, which is the order the posting loop inserts them in.\<close>

definition JOURNAL_LINES :: "string \<Rightarrow> ledger \<Rightarrow> gl_line list" where
  "JOURNAL_LINES jid s = filter (\<lambda>l. gl_journalId l = jid) (lg_lines s)"

definition JOURNAL_SUBLEDGER :: "string \<Rightarrow> ledger \<Rightarrow> gl_subentry list" where
  "JOURNAL_SUBLEDGER jid s = filter (\<lambda>e. gs_journalId e = jid) (lg_subledger s)"

definition branch_matches :: "string option \<Rightarrow> string \<Rightarrow> bool" where
  "branch_matches v b \<longleftrightarrow> (case v of None \<Rightarrow> True | Some x \<Rightarrow> b = x)"

definition posted_line :: "ledger \<Rightarrow> gl_line \<Rightarrow> bool" where
  "posted_line s l \<longleftrightarrow> list_ex (\<lambda>j. gj_id j = gl_journalId l \<and> gj_status j = ''POSTED'') (lg_journals s)"

definition GL_CONTROL_BALANCE :: "string \<Rightarrow> string option \<Rightarrow> ledger \<Rightarrow> rat \<times> nat" where
  "GL_CONTROL_BALANCE aid branch s =
     (let ls = filter (\<lambda>l. gl_accountId l = aid \<and> posted_line s l \<and> branch_matches branch (gl_branchId l)) (lg_lines s)
      in (sum_list (map (\<lambda>l. gl_debit l - gl_credit l) ls), length ls))"

definition SUBLEDGER_BALANCE :: "string \<Rightarrow> string option \<Rightarrow> ledger \<Rightarrow> rat \<times> nat" where
  "SUBLEDGER_BALANCE aid branch s =
     (let es = filter (\<lambda>e. gs_accountId e = aid \<and> branch_matches branch (gs_branchId e)) (lg_subledger s)
      in (sum_list (map (\<lambda>e. gs_debit e - gs_credit e) es), length es))"

section \<open>Ordered queries\<close>

text \<open>\<open>ORDER BY\<close> and \<open>ORDER BY ... LIMIT 1\<close> over a total preorder of rows, as an insertion sort.\<close>

fun insert_by :: "('a \<Rightarrow> 'a \<Rightarrow> bool) \<Rightarrow> 'a \<Rightarrow> 'a list \<Rightarrow> 'a list" where
  "insert_by le x [] = [x]"
| "insert_by le x (y # ys) = (if le x y then x # y # ys else y # insert_by le x ys)"

definition order_by :: "('a \<Rightarrow> 'a \<Rightarrow> bool) \<Rightarrow> 'a list \<Rightarrow> 'a list" where
  "order_by le xs = foldr (insert_by le) xs []"

definition first_row :: "'a list \<Rightarrow> 'a option" where
  "first_row xs = (case xs of [] \<Rightarrow> None | x # _ \<Rightarrow> Some x)"

lemma set_insert_by [simp]: "set (insert_by le x ys) = insert x (set ys)"
  by (induction ys) auto

lemma set_order_by [simp]: "set (order_by le xs) = set xs"
  by (induction xs) (auto simp: order_by_def)

lemma distinct_insert_by: "x \<notin> set ys \<Longrightarrow> distinct ys \<Longrightarrow> distinct (insert_by le x ys)"
  by (induction ys) auto

lemma distinct_order_by: "distinct xs \<Longrightarrow> distinct (order_by le xs)"
  by (induction xs) (use set_order_by [of le] in \<open>auto simp: order_by_def intro!: distinct_insert_by\<close>)

text \<open>One row per party, ordered by party id with the missing ones last.\<close>

definition party_le :: "string option \<Rightarrow> string option \<Rightarrow> bool" where
  "party_le p q = (case p of None \<Rightarrow> q = None | Some x \<Rightarrow> (case q of None \<Rightarrow> True | Some y \<Rightarrow> str_le x y))"

definition SUBLEDGER_PARTY_BALANCE ::
  "string \<Rightarrow> string option \<Rightarrow> ledger \<Rightarrow> ((string \<times> string option \<times> string) \<times> rat) list" where
  "SUBLEDGER_PARTY_BALANCE aid branch s =
     (let es = filter (\<lambda>e. gs_accountId e = aid \<and> branch_matches branch (gs_branchId e)) (lg_subledger s);
          key = (\<lambda>e. (gs_subledgerType e, gs_partyId e, gs_partyName e))
      in map (\<lambda>k. ((fst k, fst (snd k), case snd (snd k) of None \<Rightarrow> [] | Some n \<Rightarrow> n),
                   sum_list (map (\<lambda>e. gs_debit e - gs_credit e) (filter (\<lambda>e. key e = k) es))))
           (order_by (\<lambda>k l. party_le (fst (snd k)) (fst (snd l))) (remdups (map key es))))"

section \<open>Field conversions\<close>

text \<open>\<open>text(value, max)\<close> of the service.\<close>

definition text_val :: "jsval \<Rightarrow> nat \<Rightarrow> string" where
  "text_val v mx = (case v of JStr s \<Rightarrow> take mx (trim s) | _ \<Rightarrow> [])"

definition text_null :: "jsval \<Rightarrow> nat \<Rightarrow> string option" where
  "text_null v mx = or_null (text_val v mx)"

definition requireDate :: "jsval \<Rightarrow> string res" where
  "requireDate v =
     (let date = text_val v 10
      in if isAccountingDate (JStr date) then Inr date
         else throw 400 ''A real journal date (YYYY-MM-DD) is required.'')"

definition optionalDate :: "jsval \<Rightarrow> string \<Rightarrow> string option res" where
  "optionalDate v field =
     (let date = text_val v 10
      in if date = [] then Inr None
         else if isAccountingDate (JStr date) then Inr (Some date)
         else throw 400 (field @ '' must be a real date (YYYY-MM-DD).''))"

definition amount :: "jsval \<Rightarrow> string \<Rightarrow> rat res" where
  "amount v field =
     (case roundMoney (to_number v) of
        Fin parsed \<Rightarrow>
          if parsed < 0 then throw 400 (field @ '' must be a non-negative amount.'')
          else if parsed > 9999999999999 / 100 then throw 400 (field @ '' exceeds the ledger limit.'')
          else Inr parsed
      | _ \<Rightarrow> throw 400 (field @ '' must be a non-negative amount.''))"

lemma text_val_length: "length (text_val v n) \<le> n"
  by (auto simp: text_val_def split: jsval.split)

lemma text_val_clean: "trim x = x \<Longrightarrow> length x \<le> n \<Longrightarrow> text_val (JStr x) n = x"
  by (simp add: text_val_def)

lemma amount_ok:
  assumes "amount v f = Inr r"
  shows "is_cents r" and "0 \<le> r"
proof -
  from assms obtain x where "to_number v = Fin x" "r = round_money x" "0 \<le> r"
    by (cases "to_number v") (auto simp: amount_def throw_def split: if_splits)
  then show "is_cents r" and "0 \<le> r" by simp_all
qed

lemma requireDate_ok: "requireDate v = Inr d \<Longrightarrow> isAdDate (JStr d)"
  by (auto simp: isAccountingDate_eq requireDate_def throw_def Let_def split: if_splits)

end
