(* ===== verification/LedgerChart.thy ===== *)
theory LedgerChart
  imports LedgerState
begin

text \<open>
  The chart of accounts: account groups and accounts of
  \<open>server/src/services/accounting.service.ts\<close>, each operation a transaction on the ledger's
  tables. A group inherits its parent's accounting nature and may move only while empty; an
  account's code and control nature never change, and an account with posted lines keeps its
  group and cannot be deleted -- which is what keeps the posted history classified.
\<close>

section \<open>Vocabularies\<close>

definition ACCOUNT_TYPES :: "string list" where
  "ACCOUNT_TYPES = [''ASSET'', ''LIABILITY'', ''EQUITY'', ''INCOME'', ''EXPENSE'']"

definition ACCOUNT_KINDS :: "string list" where
  "ACCOUNT_KINDS = [''CASH'', ''BANK'', ''OTHER'']"

definition STATEMENT_GROUPS :: "string list" where
  "STATEMENT_GROUPS = [''CURRENT_ASSET'', ''NON_CURRENT_ASSET'', ''CURRENT_LIABILITY'', ''NON_CURRENT_LIABILITY'',
     ''EQUITY'', ''REVENUE'', ''COST_OF_SALES'', ''OPERATING_EXPENSE'', ''OTHER_INCOME'', ''OTHER_EXPENSE'']"

definition SUBLEDGER_TYPES :: "string list" where
  "SUBLEDGER_TYPES = [''NONE'', ''CUSTOMER'', ''SUPPLIER'', ''EMPLOYEE'', ''INVENTORY'', ''FIXED_ASSET'', ''BANK'',
     ''CASH'', ''TAX'', ''INTER_BRANCH'']"

definition POSTING_ROLES :: "string list" where
  "POSTING_ROLES = [''AR_CONTROL'', ''AP_CONTROL'', ''CASH'', ''BANK'', ''INVENTORY'', ''SALES'', ''COGS'',
     ''TAX_OUTPUT'', ''TAX_INPUT'', ''RETAINED_EARNINGS'', ''SALARY_PAYABLE'', ''INTER_BRANCH_CLEARING'',
     ''STOCK_EXPENSE'', ''CPE_ASSET'', ''DUE_FROM_HO'', ''DUE_TO_HO'', ''FIXED_ASSET'',
     ''ACCUMULATED_DEPRECIATION'', ''DEPRECIATION_EXPENSE'', ''GAIN_ON_DISPOSAL'', ''LOSS_ON_DISPOSAL'',
     ''SALARY_EXPENSE'', ''TDS_PAYABLE'', ''SSF_PAYABLE'', ''EMPLOYEE_ADVANCE'', ''EMPLOYEE_LOAN'']"

definition STATEMENT_GROUPS_BY_TYPE :: "string \<Rightarrow> string list" where
  "STATEMENT_GROUPS_BY_TYPE t =
     (if t = ''ASSET'' then [''CURRENT_ASSET'', ''NON_CURRENT_ASSET'']
      else if t = ''LIABILITY'' then [''CURRENT_LIABILITY'', ''NON_CURRENT_LIABILITY'']
      else if t = ''EQUITY'' then [''EQUITY'']
      else if t = ''INCOME'' then [''REVENUE'', ''OTHER_INCOME'']
      else [''COST_OF_SALES'', ''OPERATING_EXPENSE'', ''OTHER_EXPENSE''])"

section \<open>Validated fields\<close>

definition is_code_char :: "char \<Rightarrow> bool" where
  "is_code_char c \<longleftrightarrow> is_upper c \<or> is_digit c \<or> c \<in> {CHR ''.'', CHR ''_'', CHR ''-''}"

definition accountCode :: "jsval \<Rightarrow> string res" where
  "accountCode v =
     (let code = to_upper (text_val v 30)
      in if code \<noteq> [] \<and> (is_upper (hd code) \<or> is_digit (hd code)) \<and> list_all is_code_char code
         then Inr code
         else throw 400 ''Account code must be 1-30 letters, digits, dots, dashes or underscores.'')"

definition accountKind :: "jsval \<Rightarrow> string option \<Rightarrow> string \<Rightarrow> string res" where
  "accountKind v postingRole fallback =
     (let raw = to_upper (text_val v 10);
          kind = (if raw = [] then fallback else raw)
      in if kind \<notin> set ACCOUNT_KINDS
         then throw 400 (''Account kind must be one of: '' @ join '', '' ACCOUNT_KINDS @ ''.'')
         else if postingRole = Some ''CASH'' \<and> kind \<noteq> ''CASH''
         then throw 400 ''A ledger holding the CASH posting role must have account kind CASH.''
         else if postingRole = Some ''BANK'' \<and> kind \<noteq> ''BANK''
         then throw 400 ''A ledger holding the BANK posting role must have account kind BANK.''
         else case postingRole of
             None \<Rightarrow> Inr kind
           | Some role \<Rightarrow>
               if (kind = ''CASH'' \<or> kind = ''BANK'') \<and> role \<noteq> kind
               then throw 400 (''A '' @ kind @ '' ledger can only hold the '' @ kind @ '' posting role; ''
                      @ role @ '' belongs to a different ledger.'')
               else Inr kind)"

definition opt_or_null :: "string option \<Rightarrow> string option" where
  "opt_or_null v = (case v of None \<Rightarrow> None | Some s \<Rightarrow> or_null s)"

definition no_bank :: bank_meta where
  "no_bank = \<lparr>bm_bankName = None, bm_bankBranch = None, bm_accountNumber = None, bm_accountHolder = None,
     bm_swiftCode = None\<rparr>"

definition bank_field :: "jsval \<Rightarrow> string \<Rightarrow> nat \<Rightarrow> string option \<Rightarrow> string option" where
  "bank_field input k mx existing =
     (if has_own input k then text_null (jget input k) mx else opt_or_null existing)"

definition bankMetadata :: "jsval \<Rightarrow> string \<Rightarrow> bank_meta option \<Rightarrow> bank_meta res" where
  "bankMetadata input kind existing =
     (let allowed = (kind = ''BANK'');
          provided = list_ex (\<lambda>f. has_own input f \<and> text_val (jget input f) 150 \<noteq> [])
            [''bankName'', ''bankBranch'', ''accountNumber'', ''accountHolder'', ''swiftCode''];
          old = (case existing of None \<Rightarrow> no_bank | Some b \<Rightarrow> b)
      in if \<not> allowed \<and> provided
         then throw 400 ''Bank details are only allowed on a ledger with account kind BANK.''
         else if \<not> allowed then Inr no_bank
         else Inr \<lparr>bm_bankName = bank_field input ''bankName'' 150 (bm_bankName old),
                   bm_bankBranch = bank_field input ''bankBranch'' 150 (bm_bankBranch old),
                   bm_accountNumber = bank_field input ''accountNumber'' 100 (bm_accountNumber old),
                   bm_accountHolder = bank_field input ''accountHolder'' 150 (bm_accountHolder old),
                   bm_swiftCode = bank_field input ''swiftCode'' 50 (bm_swiftCode old)\<rparr>)"

section \<open>Account groups\<close>

definition group_nature :: "gl_group option \<Rightarrow> jsval \<Rightarrow> (string \<times> string \<times> string) res" where
  "group_nature parent input =
     (case parent of
        Some p \<Rightarrow> Inr (gg_accountType p, gg_statementGroup p, gg_normalBalance p)
      | None \<Rightarrow>
          let ty = to_upper (text_val (jget input ''accountType'') 20);
              sg = to_upper (text_val (jget input ''statementGroup'') 30);
              nb = to_upper (text_val (jget input ''normalBalance'') 6)
          in rbind (guard (ty \<in> set ACCOUNT_TYPES) 400
                     (''Account type must be one of: '' @ join '', '' ACCOUNT_TYPES @ ''.'')) (\<lambda>_.
             rbind (guard (sg \<in> set STATEMENT_GROUPS) 400
                     (''Statement group must be one of: '' @ join '', '' STATEMENT_GROUPS @ ''.'')) (\<lambda>_.
             rbind (guard (sg \<in> set (STATEMENT_GROUPS_BY_TYPE ty)) 400
                     (''Statement group '' @ sg @ '' cannot belong to an '' @ ty @ '' group. Expected: ''
                      @ join '' or '' (STATEMENT_GROUPS_BY_TYPE ty) @ ''.'')) (\<lambda>_.
             Inr (ty, sg, if nb = ''DEBIT'' \<or> nb = ''CREDIT'' then nb
                          else if ty = ''ASSET'' \<or> ty = ''EXPENSE'' then ''DEBIT'' else ''CREDIT'')))))"

definition find_parent :: "string option \<Rightarrow> (ledger, gl_group option) tx" where
  "find_parent parentId =
     (case parentId of None \<Rightarrow> treturn None
      | Some pid \<Rightarrow> tbind (tquery (ACCOUNT_GROUP_BY_ID pid)) (\<lambda>p.
          case p of None \<Rightarrow> tthrow 400 ''Parent account group not found.'' | Some g \<Rightarrow> treturn (Some g)))"

fun trunc_or_zero :: "jnum \<Rightarrow> int" where
  "trunc_or_zero (Fin r) = trunc_rat r"
| "trunc_or_zero _ = 0"

definition createAccountGroup :: "jsval \<Rightarrow> (ledger, gl_group option) tx" where
  "createAccountGroup input =
     tbind (tlift (accountCode (jget input ''code''))) (\<lambda>code.
     let name = text_val (jget input ''name'') 150; parentId = text_null (jget input ''parentId'') 50 in
     tbind (tguard (name \<noteq> []) 400 ''Account group name is required.'') (\<lambda>_.
     tbind (find_parent parentId) (\<lambda>parent.
     tbind (tlift (group_nature parent input)) (\<lambda>(ty, sg, nb).
     tbind (tquery (ACCOUNT_GROUP_BY_CODE code)) (\<lambda>dup.
     tbind (tguard (dup = None) 409 (''Account group code '' @ code @ '' already exists.'')) (\<lambda>_.
     tbind randomUUID (\<lambda>u.
     let newId = ''glg-'' @ u in
     tbind (texec (ACCOUNT_GROUP_INSERT \<lparr>gg_id = newId, gg_parentId = parentId, gg_code = code, gg_name = name,
        gg_accountType = ty, gg_statementGroup = sg, gg_normalBalance = nb,
        gg_sortOrder = trunc_or_zero (to_number (jget input ''sortOrder''))\<rparr>)) (\<lambda>_.
     tquery (ACCOUNT_GROUP_BY_ID newId)))))))))"

text \<open>
  The walk from the new parent to the root. A row is visited at most once, so the groups not
  yet seen shrink with every step; an id without a row ends the walk.
\<close>

definition group_parent :: "ledger \<Rightarrow> string \<Rightarrow> string option" where
  "group_parent s gid =
     (case ACCOUNT_GROUP_BY_ID gid s of None \<Rightarrow> None | Some g \<Rightarrow> opt_or_null (gg_parentId g))"

function move_walk :: "ledger \<Rightarrow> string \<Rightarrow> string option \<Rightarrow> string list \<Rightarrow> unit res" where
  "move_walk s groupId None seen = Inr ()"
| "move_walk s groupId (Some current) seen =
     (if current = groupId then throw 400 ''A group cannot be moved under itself or one of its descendants.''
      else if current \<in> set seen then throw 400 ''The account group hierarchy contains a cycle.''
      else move_walk s groupId (group_parent s current) (current # seen))"
  by pat_completeness auto

lemma group_parent_row: "group_parent s x = Some y \<Longrightarrow> x \<in> gg_id ` set (lg_groups s)"
  by (auto simp: group_parent_def ACCOUNT_GROUP_BY_ID_def find_Some_iff split: option.splits)

termination move_walk
proof (relation "measure (\<lambda>(s, groupId, cur, seen). card (gg_id ` set (lg_groups s) - set seen) +
    (case cur of None \<Rightarrow> 0 | Some c \<Rightarrow> 1))")
  fix s :: ledger and groupId current :: string and seen :: "string list"
  let ?G = "gg_id ` set (lg_groups s)"
  assume "current \<notin> set seen"
  show "((s, groupId, group_parent s current, current # seen), (s, groupId, Some current, seen))
      \<in> measure (\<lambda>(s, groupId, cur, seen). card (gg_id ` set (lg_groups s) - set seen) +
          (case cur of None \<Rightarrow> 0 | Some c \<Rightarrow> 1))"
  proof (cases "group_parent s current")
    case None
    have "card (?G - set (current # seen)) \<le> card (?G - set seen)" by (rule card_mono) auto
    with None show ?thesis by simp
  next
    case (Some p)
    then have "current \<in> ?G - set seen" using group_parent_row [of s current] \<open>current \<notin> set seen\<close> by simp
    then have "card (?G - set (current # seen)) < card (?G - set seen)" by (intro psubset_card_mono) auto
    with Some show ?thesis by simp
  qed
qed simp

definition assertGroupMoveDoesNotCycle :: "string \<Rightarrow> string \<Rightarrow> (ledger, unit) tx" where
  "assertGroupMoveDoesNotCycle groupId parentId =
     (\<lambda>s. tlift (move_walk s groupId (or_null parentId) []) s)"

definition plural :: "nat \<Rightarrow> string" where
  "plural n = (if n = 1 then [] else ''s'')"

definition move_group :: "gl_group \<Rightarrow> string option \<Rightarrow> (ledger, unit) tx" where
  "move_group existing parentId =
     (let groupId = gg_id existing in
      tbind (tguard (parentId \<noteq> Some groupId) 400 ''A group cannot be its own parent.'') (\<lambda>_.
      tbind (tbind (find_parent parentId) (\<lambda>p. case p of
               None \<Rightarrow> treturn None
             | Some g \<Rightarrow> tbind (assertGroupMoveDoesNotCycle groupId (gg_id g)) (\<lambda>_. treturn (Some g)))) (\<lambda>newParent.
      tbind (tquery (ACCOUNT_GROUP_ACCOUNT_COUNT groupId)) (\<lambda>used.
      tbind (tquery (ACCOUNT_GROUP_CHILD_COUNT groupId)) (\<lambda>children.
      tbind (tguard (\<not> (used > 0 \<or> children > 0)) 409
        (''Account group '' @ gg_code existing @ '' still has '' @ nat_str used @ '' account'' @ plural used @ '' and ''
          @ nat_str children @ '' sub-group'' @ plural children @ ''. Move an empty group only.'')) (\<lambda>_.
      let nature = (case newParent of Some p \<Rightarrow> p | None \<Rightarrow> existing) in
      texec (ACCOUNT_GROUP_SET_PARENT groupId parentId (gg_accountType nature) (gg_statementGroup nature)
        (gg_normalBalance nature))))))))"

definition updateAccountGroup :: "string \<Rightarrow> jsval \<Rightarrow> (ledger, gl_group option) tx" where
  "updateAccountGroup groupId input =
     tbind (tquery (ACCOUNT_GROUP_BY_ID groupId)) (\<lambda>row.
     case row of None \<Rightarrow> tthrow 404 ''Account group not found.''
     | Some existing \<Rightarrow>
     tbind (tguard (\<not> list_ex (has_own input) [''code'', ''accountType'', ''statementGroup'', ''normalBalance'']) 400
       ''A group code, type, normal balance and statement mapping cannot be changed once the group exists.'') (\<lambda>_.
     tbind (if has_own input ''parentId'' then
              let parentId = text_null (jget input ''parentId'') 50 in
              if parentId \<noteq> opt_or_null (gg_parentId existing) then move_group existing parentId else treturn ()
            else treturn ()) (\<lambda>_.
     let name = text_val (jget input ''name'') 150; so = jtrunc (to_number (jget input ''sortOrder'')) in
     tbind (tguard (\<not> has_own input ''name'' \<or> name \<noteq> []) 400 ''Account group name cannot be empty.'') (\<lambda>_.
     tbind (tguard (\<not> has_own input ''sortOrder'' \<or> is_finite so) 400 ''Sort order must be a whole number.'') (\<lambda>_.
     tbind (texec (ACCOUNT_GROUP_UPDATE groupId (if has_own input ''name'' then Some name else None)
             (if has_own input ''sortOrder'' then Some (trunc_or_zero so) else None))) (\<lambda>_.
     tquery (ACCOUNT_GROUP_BY_ID groupId)))))))"

definition deleteAccountGroup :: "string \<Rightarrow> (ledger, gl_group) tx" where
  "deleteAccountGroup groupId =
     tbind (tquery (ACCOUNT_GROUP_BY_ID groupId)) (\<lambda>row.
     case row of None \<Rightarrow> tthrow 404 ''Account group not found.''
     | Some existing \<Rightarrow>
     tbind (tquery (ACCOUNT_GROUP_ACCOUNT_COUNT groupId)) (\<lambda>used.
     tbind (tquery (ACCOUNT_GROUP_CHILD_COUNT groupId)) (\<lambda>children.
     tbind (tguard (\<not> (used > 0 \<or> children > 0)) 409
       (''Account group '' @ gg_code existing @ '' still has '' @
         join '' and '' (filter (\<lambda>p. p \<noteq> [])
           [if used > 0 then nat_str used @ '' account'' @ plural used else [],
            if children > 0 then nat_str children @ '' sub-group'' @ plural children else []])
         @ ''. Move or delete them first.'')) (\<lambda>_.
     tbind (texec (ACCOUNT_GROUP_DELETE groupId)) (\<lambda>_. treturn existing)))))"

section \<open>The master profile\<close>

definition hex_digit :: "nat \<Rightarrow> char" where
  "hex_digit n = (if n < 10 then char_of (48 + n) else char_of (87 + n))"

text \<open>\<open>JSON.stringify\<close> of a string of 8-bit characters, a finite number or a boolean.\<close>

definition json_char :: "char \<Rightarrow> string" where
  "json_char c =
     (let n = of_char c :: nat; bs = [char_of (92 :: nat)] in
      if n = 34 \<or> n = 92 then bs @ [c]
      else if n = 8 then bs @ ''b'' else if n = 9 then bs @ ''t'' else if n = 10 then bs @ ''n''
      else if n = 12 then bs @ ''f'' else if n = 13 then bs @ ''r''
      else if n < 32 then bs @ ''u00'' @ [hex_digit (n div 16), hex_digit (n mod 16)]
      else [c])"

definition json_string :: "string \<Rightarrow> string" where
  "json_string s = [char_of (34 :: nat)] @ concat (map json_char s) @ [char_of (34 :: nat)]"

fun json_prim :: "jsval \<Rightarrow> string" where
  "json_prim (JStr s) = json_string s"
| "json_prim (JNum n) = num_str n"
| "json_prim (JBool b) = (if b then ''true'' else ''false'')"
| "json_prim _ = ''null''"

definition json_profile :: "(string \<times> jsval) list \<Rightarrow> string" where
  "json_profile fs = ''{'' @ join '','' (map (\<lambda>(k, v). json_string k @ '':'' @ json_prim v) fs) @ ''}''"

definition is_alpha :: "char \<Rightarrow> bool" where
  "is_alpha c \<longleftrightarrow> is_upper c \<or> is_lower c"

definition profile_key :: "string \<Rightarrow> bool" where
  "profile_key k \<longleftrightarrow> k \<noteq> [] \<and> is_alpha (hd k) \<and> list_all (\<lambda>c. is_alpha c \<or> is_digit c) k \<and> length k \<le> 40"

fun profile_value :: "jsval \<Rightarrow> jsval option" where
  "profile_value (JStr s) = Some (JStr (take 500 s))"
| "profile_value (JNum n) = (if is_finite n then Some (JNum n) else None)"
| "profile_value (JBool b) = Some (JBool b)"
| "profile_value _ = None"

text \<open>An assignment to a key already in the profile keeps the key's place.\<close>

fun profile_put :: "string \<Rightarrow> jsval \<Rightarrow> (string \<times> jsval) list \<Rightarrow> (string \<times> jsval) list" where
  "profile_put k v [] = [(k, v)]"
| "profile_put k v ((k', v') # fs) = (if k = k' then (k, v) # fs else (k', v') # profile_put k v fs)"

definition profile_of :: "(string \<times> jsval) list \<Rightarrow> (string \<times> jsval) list" where
  "profile_of fs = foldl (\<lambda>acc (k, v).
     if profile_key k then (case profile_value v of None \<Rightarrow> acc | Some w \<Rightarrow> profile_put k w acc) else acc) [] fs"

definition readMasterProfile :: "jsval \<Rightarrow> (string \<times> jsval) list option res" where
  "readMasterProfile v =
     (case v of
        JUndef \<Rightarrow> Inr None
      | JObj fs \<Rightarrow>
          let profile = profile_of fs
          in if length (json_profile profile) > 8000 then throw 400 ''The GL master profile is too large.''
             else Inr (Some profile)
      | _ \<Rightarrow> throw 400 ''The GL master profile must be an object.'')"

section \<open>Accounts\<close>

fun js_bool_opt :: "jsval \<Rightarrow> bool option" where
  "js_bool_opt (JBool b) = Some b"
| "js_bool_opt _ = None"

definition posting_role_input :: "jsval \<Rightarrow> string option res" where
  "posting_role_input v =
     (let raw = to_upper (text_val v 40)
      in if raw \<noteq> [] \<and> raw \<notin> set POSTING_ROLES
         then throw 400 (''Posting role must be one of: '' @ join '', '' POSTING_ROLES @ ''.'')
         else Inr (or_null raw))"

definition subledger_nature :: "jsval \<Rightarrow> (bool \<times> string) res" where
  "subledger_nature input =
     (let raw = to_upper (text_val (jget input ''subledgerType'') 30);
          ty = (if raw = [] then ''NONE'' else raw);
          control = (if jget input ''isControl'' = JUndef then ty \<noteq> ''NONE'' else truthy (jget input ''isControl''))
      in rbind (guard (ty \<in> set SUBLEDGER_TYPES) 400
                 (''Subledger type must be one of: '' @ join '', '' SUBLEDGER_TYPES @ ''.'')) (\<lambda>_.
         rbind (guard (control = (ty \<noteq> ''NONE'')) 400
                 ''A control account must name a subledger type, and an ordinary account must use NONE.'') (\<lambda>_.
         Inr (control, ty))))"

definition createAccount :: "jsval \<Rightarrow> (ledger, gl_account option) tx" where
  "createAccount input =
     tbind (tlift (accountCode (jget input ''code''))) (\<lambda>code.
     let name = text_val (jget input ''name'') 150; groupId = text_val (jget input ''groupId'') 50 in
     tbind (tguard (name \<noteq> []) 400 ''Account name is required.'') (\<lambda>_.
     tbind (tquery (ACCOUNT_GROUP_BY_ID groupId)) (\<lambda>grp.
     tbind (tguard (grp \<noteq> None) 400 ''Account group not found.'') (\<lambda>_.
     tbind (tlift (subledger_nature input)) (\<lambda>(isControl, subledgerType).
     tbind (tlift (posting_role_input (jget input ''postingRole''))) (\<lambda>role.
     tbind (tlift (accountKind (jget input ''accountKind'') role
              (if role = Some ''CASH'' then ''CASH'' else if role = Some ''BANK'' then ''BANK'' else ''OTHER''))) (\<lambda>kind.
     tbind (tlift (bankMetadata input kind None)) (\<lambda>bank.
     tbind (tquery (ACCOUNT_BY_CODE code)) (\<lambda>dup.
     tbind (tguard (dup = None) 409 (''Account code '' @ code @ '' already exists.'')) (\<lambda>_.
     tbind (tquery (\<lambda>s. case role of None \<Rightarrow> None | Some r \<Rightarrow> ACCOUNT_BY_POSTING_ROLE r s)) (\<lambda>holder.
     tbind (tguard (holder = None) 409 (''Posting role '' @ (case role of None \<Rightarrow> [] | Some r \<Rightarrow> r)
              @ '' is already assigned to another account.'')) (\<lambda>_.
     tbind randomUUID (\<lambda>u.
     tbind (tlift (readMasterProfile (jget input ''masterProfile''))) (\<lambda>profile.
     let newId = ''gla-'' @ u in
     tbind (texec (ACCOUNT_INSERT \<lparr>ga_id = newId, ga_code = code, ga_name = name, ga_groupId = groupId,
        ga_description = text_null (jget input ''description'') 500, ga_isControl = isControl,
        ga_subledgerType = subledgerType, ga_postingRole = role, ga_accountKind = kind, ga_bank = bank,
        ga_masterProfile = (case profile of None \<Rightarrow> [] | Some p \<Rightarrow> p), ga_isActive = True\<rparr>)) (\<lambda>_.
     tquery (ACCOUNT_BY_ID newId))))))))))))))))"

definition existing_kind :: "gl_account \<Rightarrow> string" where
  "existing_kind a =
     (if ga_accountKind a = ''CASH'' \<or> ga_accountKind a = ''BANK'' then ga_accountKind a
      else if ga_postingRole a = Some ''CASH'' then ''CASH''
      else if ga_postingRole a = Some ''BANK'' then ''BANK'' else ''OTHER'')"

definition updated_role :: "gl_account \<Rightarrow> jsval \<Rightarrow> (ledger, string option) tx" where
  "updated_role existing input =
     tbind (if has_own input ''postingRole'' then
              tbind (tlift (posting_role_input (jget input ''postingRole''))) (\<lambda>role.
              case role of None \<Rightarrow> treturn None
              | Some r \<Rightarrow> tbind (tquery (ACCOUNT_BY_POSTING_ROLE r)) (\<lambda>assigned.
                  case assigned of
                    Some a \<Rightarrow> if ga_id a \<noteq> ga_id existing
                      then tthrow 409 (''Posting role '' @ r @ '' is already assigned to another account.'')
                      else treturn (Some r)
                  | None \<Rightarrow> treturn (Some r)))
            else treturn (opt_or_null (ga_postingRole existing))) (\<lambda>role.
     treturn (if jget input ''isActive'' = JBool False then None else role))"

definition updated_group :: "gl_account \<Rightarrow> jsval \<Rightarrow> (ledger, string option) tx" where
  "updated_group existing input =
     (if \<not> has_own input ''groupId'' then treturn None
      else let groupId = text_val (jget input ''groupId'') 50 in
        tbind (tquery (ACCOUNT_GROUP_BY_ID groupId)) (\<lambda>grp.
        tbind (tguard (grp \<noteq> None) 400 ''Account group not found.'') (\<lambda>_.
        tbind (tquery (ACCOUNT_JOURNAL_LINE_COUNT (ga_id existing))) (\<lambda>used.
        tbind (tguard (\<not> (groupId \<noteq> ga_groupId existing \<and> used > 0)) 409
          (''Account '' @ ga_code existing @ '' already has posted entries, so its group cannot be changed. ''
            @ ''Create a new account for the new classification.'')) (\<lambda>_.
        treturn (Some groupId))))))"

definition updateAccount :: "string \<Rightarrow> jsval \<Rightarrow> (ledger, gl_account option) tx" where
  "updateAccount accountId input =
     tbind (tquery (ACCOUNT_BY_ID accountId)) (\<lambda>row.
     case row of None \<Rightarrow> tthrow 404 ''Account not found.''
     | Some existing \<Rightarrow>
     tbind (tguard (\<not> list_ex (has_own input) [''code'', ''subledgerType'', ''isControl'']) 400
       ''An account code and its control/subledger nature cannot be changed. Create a new account instead.'') (\<lambda>_.
     tbind (updated_role existing input) (\<lambda>role.
     tbind (tlift (accountKind (jget input ''accountKind'') role (existing_kind existing))) (\<lambda>kind.
     tbind (tlift (bankMetadata input kind (Some (ga_bank existing)))) (\<lambda>bank.
     let name = text_val (jget input ''name'') 150 in
     tbind (tguard (\<not> has_own input ''name'' \<or> name \<noteq> []) 400 ''Account name cannot be empty.'') (\<lambda>_.
     tbind (tlift (readMasterProfile (jget input ''masterProfile''))) (\<lambda>profile.
     tbind (updated_group existing input) (\<lambda>gid.
     tbind (texec (ACCOUNT_UPDATE accountId (if has_own input ''name'' then Some name else None)
        (if has_own input ''description'' then text_null (jget input ''description'') 500 else None)
        role (js_bool_opt (jget input ''isActive'')) gid kind bank profile)) (\<lambda>_.
     tquery (ACCOUNT_BY_ID accountId))))))))))"

definition deleteAccount :: "string \<Rightarrow> (ledger, gl_account) tx" where
  "deleteAccount accountId =
     tbind (tquery (ACCOUNT_BY_ID accountId)) (\<lambda>row.
     case row of None \<Rightarrow> tthrow 404 ''Account not found.''
     | Some existing \<Rightarrow>
     tbind (tguard (opt_or_null (ga_postingRole existing) = None) 409
       (''Account '' @ ga_code existing @ '' holds the '' @ (case ga_postingRole existing of None \<Rightarrow> [] | Some r \<Rightarrow> r)
         @ '' posting role. Clear or reassign the role before deleting it.'')) (\<lambda>_.
     tbind (tquery (ACCOUNT_JOURNAL_LINE_COUNT accountId)) (\<lambda>used.
     tbind (tguard (\<not> used > 0) 409
       (''Account '' @ ga_code existing @ '' has '' @ nat_str used @ '' posted line'' @ plural used
         @ '' and cannot be deleted. Deactivate it instead.'')) (\<lambda>_.
     tbind (texec (ACCOUNT_DELETE accountId)) (\<lambda>_. treturn existing)))))"

end
