(* ===== verification/LedgerPosting.thy ===== *)
theory LedgerPosting
  imports LedgerChart
begin

text \<open>
  Posting: accounting periods, \<open>postJournal\<close>, \<open>reverseJournal\<close>, \<open>readJournal\<close> and
  \<open>reconcileControlAccount\<close> of \<open>server/src/services/accounting.service.ts\<close>. A journal is posted
  in one transaction: its lines are validated against the accounts, cost centres and control
  books, the totals must agree, the date must fall in an open period, and every control line
  writes its subledger entry. \<open>post_effect\<close> is what a committed posting did to the tables; the
  invariants of the ledger are proved from it in \<open>LedgerInvariant\<close>.
\<close>

section \<open>Periods\<close>

definition parse_period_key :: "string \<Rightarrow> (nat \<times> nat) option" where
  "parse_period_key s =
     (let y = take 4 s; m = drop 5 s
      in if length s = 7 \<and> s = y @ ''-'' @ m \<and> list_all is_digit (y @ m) \<and>
            1 \<le> digits_val m \<and> digits_val m \<le> 12
         then Some (digits_val y, digits_val m) else None)"

definition periodBounds :: "jsval \<Rightarrow> (string \<times> string \<times> string) res" where
  "periodBounds v =
     (let key = text_val v 7
      in case parse_period_key key of
           None \<Rightarrow> throw 400 ''Period must be a calendar month in YYYY-MM form.''
         | Some (year, month) \<Rightarrow>
             Inr (key, iso_day (date_utc (int year) (int month - 1) 1), iso_day (date_utc (int year) (int month) 0)))"

definition periodKeyForDate :: "string \<Rightarrow> string" where
  "periodKeyForDate date = take 7 date"

definition fiscalYearForDate :: "string \<Rightarrow> (ledger, fiscal_year) tx" where
  "fiscalYearForDate date =
     tbind (tquery (FISCAL_YEAR_BOUNDS date)) (\<lambda>found.
     case found of
       None \<Rightarrow> tthrow 400 (''No fiscal year contains '' @ date @ ''. Create the fiscal year first.'')
     | Some fy \<Rightarrow> treturn fy)"

definition new_period :: "string \<Rightarrow> fiscal_year \<Rightarrow> string \<Rightarrow> string \<Rightarrow> string \<Rightarrow> gl_period" where
  "new_period pid fy key startD endD =
     \<lparr>gp_id = pid, gp_fiscalYearId = fy_id fy, gp_fiscalYearCode = fy_code fy, gp_periodKey = key,
      gp_startDateAD = startD, gp_endDateAD = endD, gp_status = ''OPEN'', gp_closedBy = None\<rparr>"

definition ensureOpenPeriod :: "string \<Rightarrow> (ledger, gl_period) tx" where
  "ensureOpenPeriod date =
     tbind (fiscalYearForDate date) (\<lambda>fy.
     tbind (tlift (periodBounds (JStr (periodKeyForDate date)))) (\<lambda>(key, startD, endD).
     tbind (tquery (PERIOD_BY_KEY (fy_id fy) key)) (\<lambda>found.
     tbind (case found of
              Some p \<Rightarrow> treturn found
            | None \<Rightarrow> tbind randomUUID (\<lambda>u.
                tbind (texec (PERIOD_INSERT_IF_MISSING (new_period (''glp-'' @ u) fy key startD endD))) (\<lambda>_.
                tquery (PERIOD_BY_KEY (fy_id fy) key)))) (\<lambda>again.
     case again of
       None \<Rightarrow> tthrow 500 ''Internal Server Error''
     | Some p \<Rightarrow>
         if gp_status p \<noteq> ''OPEN''
         then tthrow 409 (''Accounting period '' @ key @ '' is closed. Reopen it before posting.'')
         else treturn p))))"

definition createPeriod :: "jsval \<Rightarrow> (ledger, gl_period option) tx" where
  "createPeriod input =
     tbind (tlift (periodBounds (jget input ''periodKey''))) (\<lambda>(key, startD, endD).
     tbind (fiscalYearForDate startD) (\<lambda>fy.
     tbind (tquery (PERIOD_BY_KEY (fy_id fy) key)) (\<lambda>existing.
     tbind (tguard (existing = None) 409 (''Accounting period '' @ key @ '' already exists.'')) (\<lambda>_.
     tbind randomUUID (\<lambda>u.
     tbind (texec (PERIOD_INSERT (new_period (''glp-'' @ u) fy key startD endD))) (\<lambda>_.
     tquery (PERIOD_BY_ID (''glp-'' @ u))))))))"

definition setPeriodStatus :: "string \<Rightarrow> string \<Rightarrow> string option \<Rightarrow> (ledger, gl_period option) tx" where
  "setPeriodStatus periodId status actor =
     tbind (tquery (PERIOD_BY_ID periodId)) (\<lambda>row.
     case row of
       None \<Rightarrow> tthrow 404 ''Accounting period not found.''
     | Some p \<Rightarrow>
         if gp_status p = status then treturn (Some p)
         else tbind (texec (PERIOD_SET_STATUS periodId status actor)) (\<lambda>_. tquery (PERIOD_BY_ID periodId)))"

section \<open>The lines of a journal\<close>

record jline =
  jl_lineNo :: nat
  jl_account :: gl_account
  jl_costCenterId :: "string option"
  jl_debit :: rat
  jl_credit :: rat
  jl_memo :: "string option"
  jl_subledgerType :: string
  jl_partyId :: "string option"
  jl_partyName :: "string option"

definition line_label :: "nat \<Rightarrow> string" where
  "line_label n = ''Line '' @ nat_str n"

definition check_cost_center :: "cost_center list \<Rightarrow> string \<Rightarrow> nat \<Rightarrow> string option \<Rightarrow> unit res" where
  "check_cost_center centers branchId lineNo costCenterId =
     (case costCenterId of None \<Rightarrow> Inr ()
      | Some cid \<Rightarrow>
          (case List.find (\<lambda>c. cc_id c = cid) centers of
             None \<Rightarrow> throw 400 (line_label lineNo @ '': cost centre not found.'')
           | Some c \<Rightarrow>
               if \<not> cc_active c then throw 400 (line_label lineNo @ '': cost centre '' @ cc_code c @ '' is inactive.'')
               else (case opt_or_null (cc_branchId c) of
                   None \<Rightarrow> Inr ()
                 | Some b \<Rightarrow> if b \<noteq> branchId
                     then throw 400 (line_label lineNo @ '': cost centre '' @ cc_code c @ '' belongs to another branch.'')
                     else Inr ())))"

definition check_party ::
  "nat \<Rightarrow> gl_account \<Rightarrow> string \<Rightarrow> string option \<Rightarrow> string option \<Rightarrow>
   (string \<times> string option \<times> string option) res" where
  "check_party lineNo account rawSubledger partyId partyName =
     (if ga_isControl account then
        if rawSubledger \<noteq> ga_subledgerType account
        then throw 400 (line_label lineNo @ '': control account '' @ ga_code account @ '' requires a ''
               @ ga_subledgerType account @ '' subledger entry.'')
        else if partyId = None \<and> partyName = None
        then throw 400 (line_label lineNo @ '': a control-account line must name the subledger party.'')
        else Inr (rawSubledger, partyId, partyName)
      else if rawSubledger \<noteq> [] \<and> rawSubledger \<noteq> ''NONE''
      then throw 400 (line_label lineNo @ '': account '' @ ga_code account @ '' is not a control account.'')
      else Inr (''NONE'', None, None))"

definition journal_line ::
  "gl_account list \<Rightarrow> cost_center list \<Rightarrow> string \<Rightarrow> nat \<Rightarrow> jsval \<Rightarrow> jline res" where
  "journal_line accounts centers branchId lineNo raw =
     (case List.find (\<lambda>a. ga_id a = text_val (jget raw ''accountId'') 50) accounts of
        None \<Rightarrow> throw 400 (line_label lineNo @ '': account not found.'')
      | Some account \<Rightarrow>
          if \<not> ga_isActive account
          then throw 400 (line_label lineNo @ '': account '' @ ga_code account @ '' is inactive.'')
          else
          rbind (amount (jget raw ''debit'') (line_label lineNo @ '' debit'')) (\<lambda>debit.
          rbind (amount (jget raw ''credit'') (line_label lineNo @ '' credit'')) (\<lambda>credit.
          rbind (guard ((debit > 0) \<noteq> (credit > 0)) 400
                   (line_label lineNo @ '' must have exactly one of debit or credit.'')) (\<lambda>_.
          let cc = text_null (jget raw ''costCenterId'') 50 in
          rbind (check_cost_center centers branchId lineNo cc) (\<lambda>_.
          rbind (check_party lineNo account (to_upper (text_val (jget raw ''subledgerType'') 30))
                   (text_null (jget raw ''partyId'') 100) (text_null (jget raw ''partyName'') 200)) (\<lambda>(ty, pid, pname).
          Inr \<lparr>jl_lineNo = lineNo, jl_account = account, jl_costCenterId = cc, jl_debit = debit, jl_credit = credit,
               jl_memo = text_null (jget raw ''memo'') 300, jl_subledgerType = ty, jl_partyId = pid,
               jl_partyName = pname\<rparr>))))))"

fun journal_lines ::
  "gl_account list \<Rightarrow> cost_center list \<Rightarrow> string \<Rightarrow> nat \<Rightarrow> jsval list \<Rightarrow> jline list res" where
  "journal_lines accounts centers branchId n [] = Inr []"
| "journal_lines accounts centers branchId n (raw # raws) =
     rbind (journal_line accounts centers branchId n raw) (\<lambda>l.
     rbind (journal_lines accounts centers branchId (Suc n) raws) (\<lambda>ls. Inr (l # ls)))"

definition text_ids :: "jsval list \<Rightarrow> string \<Rightarrow> string list" where
  "text_ids raws k = remdups (filter (\<lambda>x. x \<noteq> []) (map (\<lambda>l. text_val (jget l k) 50) raws))"

text \<open>\<open>toFixed(2)\<close> of a nonnegative amount.\<close>

definition fixed2 :: "rat \<Rightarrow> string" where
  "fixed2 r = (let n = nat (round_half_up (100 * r))
               in nat_str (n div 100) @ ''.'' @ pad_start 2 (CHR ''0'') (nat_str (n mod 100)))"

definition check_totals :: "jline list \<Rightarrow> unit res" where
  "check_totals lines =
     (let totalDebit = round_money (sum_list (map jl_debit lines));
          totalCredit = round_money (sum_list (map jl_credit lines))
      in rbind (guard (\<not> totalDebit \<le> 0) 400 ''A journal must carry a positive amount.'') (\<lambda>_.
         guard (\<not> \<bar>totalDebit - totalCredit\<bar> \<ge> 5 / 1000) 400
           (''Journal is not balanced: debits '' @ fixed2 totalDebit @ '' /= credits '' @ fixed2 totalCredit @ ''.'')))"

text \<open>Every control account of the journal has an active book; each account is looked up once.\<close>

fun check_books :: "ledger \<Rightarrow> string list \<Rightarrow> jline list \<Rightarrow> unit res" where
  "check_books s seen [] = Inr ()"
| "check_books s seen (l # ls) =
     (let a = jl_account l in
      if \<not> ga_isControl a \<or> ga_id a \<in> set seen then check_books s seen ls
      else if SUBLEDGER_BOOKS_BY_ACCOUNT (ga_id a) s = []
      then throw 400 (''Control account '' @ ga_code a @ '' '' @ ga_name a @ '' has no active subledger book. ''
             @ ''Create one in Accounting -> Subledgers before posting.'')
      else check_books s (ga_id a # seen) ls)"

definition pick_book :: "gl_book list \<Rightarrow> string option \<Rightarrow> gl_book option" where
  "pick_book books partyId =
     (case (case partyId of None \<Rightarrow> None | Some p \<Rightarrow> List.find (\<lambda>b. sb_partyId b = Some p) books) of
        Some b \<Rightarrow> Some b
      | None \<Rightarrow> (case List.find (\<lambda>b. opt_or_null (sb_partyId b) = None) books of
          Some b \<Rightarrow> Some b
        | None \<Rightarrow> (case books of [b] \<Rightarrow> Some b | _ \<Rightarrow> None)))"

section \<open>Posting a journal\<close>

record posted_journal =
  pj_id :: string
  pj_journalNo :: string
  pj_periodId :: string
  pj_fiscalYearId :: string

definition number_prefix :: "string \<Rightarrow> string" where
  "number_prefix sourceType =
     (if sourceType = ''CASH_RECEIPT'' then ''RV''
      else if sourceType = ''CASH_PAYMENT'' then ''PV''
      else if sourceType = ''CASH_BANK'' then ''CB'' else ''MJ'')"

definition text_or :: "jsval \<Rightarrow> nat \<Rightarrow> string \<Rightarrow> string" where
  "text_or v mx d = (let t = to_upper (text_val v mx) in if t = [] then d else t)"

definition currency_input :: "jsval \<Rightarrow> string res" where
  "currency_input v =
     (let c = text_or v 10 ''NPR''
      in if length c = 3 \<and> list_all is_upper c then Inr c
         else throw 400 ''Currency must be a three-letter ISO code.'')"

definition exchange_rate_input :: "jsval \<Rightarrow> rat res" where
  "exchange_rate_input v =
     (case to_number (nullish v (JNum (Fin 1))) of
        Fin r \<Rightarrow> if r \<le> 0 \<or> r > 99999999 then throw 400 ''Exchange rate must be a positive number.''
                 else Inr (of_int (round_half_up (r * 1000000)) / 1000000)
      | _ \<Rightarrow> throw 400 ''Exchange rate must be a positive number.'')"

definition journal_header ::
  "jsval \<Rightarrow> string \<Rightarrow> string \<Rightarrow> gl_period \<Rightarrow> string \<Rightarrow> nat \<Rightarrow> gl_journal res" where
  "journal_header input date branchId period journalId sequence =
     (let sourceType = text_or (jget input ''sourceType'') 30 ''MANUAL'' in
      rbind (currency_input (jget input ''currency'')) (\<lambda>currency.
      rbind (exchange_rate_input (jget input ''exchangeRate'')) (\<lambda>rate.
      rbind (optionalDate (jget input ''referenceDateAD'') ''Reference date'') (\<lambda>refDate.
      rbind (optionalDate (jget input ''chequeDateAD'') ''Cheque date'') (\<lambda>chqDate.
      Inr \<lparr>gj_id = journalId,
        gj_journalNo = number_prefix sourceType @ ''-'' @ gp_fiscalYearCode period @ ''-'' @
          pad_start 5 (CHR ''0'') (nat_str sequence),
        gj_journalDateAD = date, gj_fiscalYearId = gp_fiscalYearId period, gj_periodId = gp_id period,
        gj_branchId = branchId, gj_sourceType = sourceType,
        gj_sourceId = text_null (jget input ''sourceId'') 100,
        gj_voucherType = text_or (jget input ''voucherType'') 30 ''JOURNAL'',
        gj_voucherClass = text_null (jget input ''voucherClass'') 50,
        gj_referenceNo = text_null (jget input ''referenceNo'') 100, gj_referenceDateAD = refDate,
        gj_chequeNo = text_null (jget input ''chequeNo'') 100, gj_chequeDateAD = chqDate,
        gj_currency = currency, gj_exchangeRate = rate,
        gj_memo = text_null (jget input ''memo'') 1000, gj_status = ''POSTED'',
        gj_reversalOfId = text_null (jget input ''reversalOfId'') 50,
        gj_postedBy = opt_or_null (str_val (jget input ''actor'')),
        gj_isDemo = truthy (jget input ''isDemo'')\<rparr>)))))"

definition insert_line ::
  "(string \<Rightarrow> gl_book list) \<Rightarrow> string \<Rightarrow> string \<Rightarrow> string \<Rightarrow> jline \<Rightarrow> (ledger, unit) tx" where
  "insert_line books journalId branchId date l =
     tbind randomUUID (\<lambda>u.
     let lineId = ''gll-'' @ u; a = jl_account l in
     tbind (texec (JOURNAL_LINE_INSERT \<lparr>gl_id = lineId, gl_journalId = journalId, gl_lineNo = jl_lineNo l,
        gl_accountId = ga_id a, gl_costCenterId = jl_costCenterId l, gl_branchId = branchId,
        gl_debit = jl_debit l, gl_credit = jl_credit l, gl_memo = jl_memo l\<rparr>)) (\<lambda>_.
     if \<not> ga_isControl a then treturn ()
     else case pick_book (books (ga_id a)) (jl_partyId l) of
         None \<Rightarrow> tthrow 400 (''Control account '' @ ga_code a @ '' '' @ ga_name a @ '' has no subledger book for ''
           @ (case jl_partyName l of Some n \<Rightarrow> n | None \<Rightarrow> (case jl_partyId l of Some p \<Rightarrow> p | None \<Rightarrow> ''null''))
           @ ''. Create that party's subledger or the account's general book before posting.'')
       | Some book \<Rightarrow> tbind randomUUID (\<lambda>u2.
           texec (SUBLEDGER_INSERT \<lparr>gs_id = ''gls-'' @ u2, gs_journalId = journalId, gs_lineId = lineId,
             gs_accountId = ga_id a, gs_subledgerId = sb_id book, gs_subledgerType = jl_subledgerType l,
             gs_partyId = jl_partyId l, gs_partyName = jl_partyName l, gs_branchId = branchId,
             gs_entryDateAD = date, gs_debit = jl_debit l, gs_credit = jl_credit l\<rparr>))))"

definition postJournal :: "jsval \<Rightarrow> (ledger, posted_journal) tx" where
  "postJournal input =
     tbind (tlift (requireDate (jget input ''journalDateAD''))) (\<lambda>date.
     let branchId = text_val (jget input ''branchId'') 50; rawLines = arr_or_empty (jget input ''lines'') in
     tbind (tguard (branchId \<noteq> []) 400 ''A branch is required for every journal.'') (\<lambda>_.
     tbind (tquery (BRANCH_EXISTS branchId)) (\<lambda>exists.
     tbind (tguard exists 400 (''Branch '' @ branchId @ '' does not exist.'')) (\<lambda>_.
     tbind (tguard (\<not> length rawLines < 2) 400 ''A journal needs at least two lines.'') (\<lambda>_.
     tbind (tguard (\<not> length rawLines > 1000) 400 ''A journal can hold at most 1000 lines.'') (\<lambda>_.
     let accountIds = text_ids rawLines ''accountId'' in
     tbind (tguard (accountIds \<noteq> []) 400 ''Every journal line needs an account.'') (\<lambda>_.
     tbind (tquery (ACCOUNTS_BY_IDS accountIds)) (\<lambda>accounts.
     tbind (tquery (COST_CENTERS_BY_IDS (text_ids rawLines ''costCenterId''))) (\<lambda>centers.
     tbind (tlift (journal_lines accounts centers branchId 1 rawLines)) (\<lambda>lines.
     tbind (tlift (check_totals lines)) (\<lambda>_.
     tbind (tquery (\<lambda>s. s)) (\<lambda>s0.
     tbind (tlift (check_books s0 [] lines)) (\<lambda>_.
     tbind (ensureOpenPeriod date) (\<lambda>period.
     tbind NEXT_JOURNAL_SEQUENCE (\<lambda>sequence.
     tbind randomUUID (\<lambda>u.
     let journalId = ''glj-'' @ u in
     tbind (tlift (journal_header input date branchId period journalId sequence)) (\<lambda>header.
     tbind (JOURNAL_INSERT header) (\<lambda>_.
     tbind (tfor (insert_line (\<lambda>aid. SUBLEDGER_BOOKS_BY_ACCOUNT aid s0) journalId branchId date) lines) (\<lambda>_.
     treturn \<lparr>pj_id = journalId, pj_journalNo = gj_journalNo header, pj_periodId = gp_id period,
              pj_fiscalYearId = gp_fiscalYearId period\<rparr>)))))))))))))))))))"

section \<open>Reversal\<close>

definition REVERSIBLE_MANUAL_SOURCES :: "string list" where
  "REVERSIBLE_MANUAL_SOURCES = [''MANUAL'', ''CASH_RECEIPT'', ''CASH_PAYMENT'', ''CASH_BANK'']"

definition opt_json :: "string option \<Rightarrow> jsval" where
  "opt_json v = (case v of None \<Rightarrow> JNull | Some s \<Rightarrow> JStr s)"

text \<open>\<open>subledgerByLine\<close>: the last entry of a line wins.\<close>

definition entry_of_line :: "gl_subentry list \<Rightarrow> string \<Rightarrow> gl_subentry option" where
  "entry_of_line es lineId = List.find (\<lambda>e. gs_lineId e = lineId) (rev es)"

definition contra_line :: "string \<Rightarrow> gl_subentry list \<Rightarrow> gl_line \<Rightarrow> jsval" where
  "contra_line journalNo es l =
     JObj ([(''accountId'', JStr (gl_accountId l)), (''costCenterId'', opt_json (gl_costCenterId l)),
            (''debit'', JNum (Fin (gl_credit l))), (''credit'', JNum (Fin (gl_debit l))),
            (''memo'', JStr (take 300 (''Reversal of '' @ journalNo)))] @
           (case entry_of_line es (gl_id l) of
              None \<Rightarrow> []
            | Some e \<Rightarrow> [(''subledgerType'', JStr (gs_subledgerType e)), (''partyId'', opt_json (gs_partyId e)),
                         (''partyName'', opt_json (gs_partyName e))]))"

definition contra_journal ::
  "gl_journal \<Rightarrow> gl_line list \<Rightarrow> gl_subentry list \<Rightarrow> string \<Rightarrow> string \<Rightarrow> jsval \<Rightarrow> jsval" where
  "contra_journal original ls es date reason actor =
     JObj [(''journalDateAD'', JStr date), (''branchId'', JStr (gj_branchId original)),
       (''sourceType'', JStr (to_upper (gj_sourceType original) @ ''_REVERSAL'')),
       (''sourceId'', (let sid = text_val (opt_json (gj_sourceId original)) 90
                       in if sid = [] then JNull else JStr (sid @ '':REV''))),
       (''voucherType'', JStr (gj_voucherType original)), (''voucherClass'', opt_json (gj_voucherClass original)),
       (''referenceNo'', opt_json (gj_referenceNo original)),
       (''referenceDateAD'', opt_json (gj_referenceDateAD original)),
       (''chequeNo'', opt_json (gj_chequeNo original)), (''chequeDateAD'', opt_json (gj_chequeDateAD original)),
       (''currency'', JStr (gj_currency original)), (''exchangeRate'', JNum (Fin (gj_exchangeRate original))),
       (''memo'', JStr (take 1000 (''Reversal of '' @ gj_journalNo original @ '': '' @ reason))),
       (''reversalOfId'', JStr (gj_id original)), (''isDemo'', JBool (gj_isDemo original)),
       (''lines'', JArr (map (contra_line (gj_journalNo original) es) ls)), (''actor'', actor)]"

definition reverseJournal :: "jsval \<Rightarrow> jsval \<Rightarrow> (ledger, posted_journal) tx" where
  "reverseJournal journalId input =
     (let jid = text_val journalId 50 in
      tbind (tguard (jid \<noteq> []) 400 ''A journal id is required.'') (\<lambda>_.
      tbind (tquery (JOURNAL_LOCK_BY_ID jid)) (\<lambda>row.
      case row of None \<Rightarrow> tthrow 404 ''Journal not found.''
      | Some original \<Rightarrow>
      let sourceType = to_upper (gj_sourceType original); no = gj_journalNo original in
      tbind (tguard (sourceType \<in> set REVERSIBLE_MANUAL_SOURCES) 409
        (''Journal '' @ no @ '' was posted by '' @ (if sourceType = [] then ''another document'' else sourceType)
          @ ''. Reverse it from the document that created it.'')) (\<lambda>_.
      tbind (tguard (opt_or_null (gj_reversalOfId original) = None) 409
        (''Journal '' @ no @ '' is itself a reversal and cannot be reversed.'')) (\<lambda>_.
      tbind (tguard (gj_status original = ''POSTED'') 409
        (''Journal '' @ no @ '' is '' @ gj_status original @ '' and cannot be reversed.'')) (\<lambda>_.
      tbind (tquery (JOURNAL_REVERSAL_EXISTS jid)) (\<lambda>existing.
      tbind (tguard (existing = None) 409
        (''Journal '' @ no @ '' was already reversed by '' @
          (case existing of None \<Rightarrow> [] | Some e \<Rightarrow> gj_journalNo e) @ ''.'')) (\<lambda>_.
      let reason = text_val (jget input ''reason'') 500 in
      tbind (tguard (reason \<noteq> []) 400 ''A reversal reason is required.'') (\<lambda>_.
      tbind (tlift (requireDate (jget input ''journalDateAD''))) (\<lambda>date.
      tbind (tquery (JOURNAL_LINES jid)) (\<lambda>ls.
      tbind (tquery (JOURNAL_SUBLEDGER jid)) (\<lambda>es.
      tbind (tguard (ls \<noteq> []) 409 (''Journal '' @ no @ '' has no lines to reverse.'')) (\<lambda>_.
      postJournal (contra_journal original ls es date reason (jget input ''actor'')))))))))))))))"

section \<open>Reading and reconciling\<close>

record journal_view =
  jv_header :: gl_journal
  jv_totalDebit :: rat
  jv_totalCredit :: rat
  jv_lines :: "gl_line list"
  jv_subledger :: "gl_subentry list"

definition readJournal :: "string \<Rightarrow> ledger \<Rightarrow> journal_view option" where
  "readJournal journalId s =
     (case JOURNAL_LOCK_BY_ID journalId s of None \<Rightarrow> None
      | Some j \<Rightarrow> Some \<lparr>jv_header = j,
          jv_totalDebit = sum_list (map gl_debit (JOURNAL_LINES journalId s)),
          jv_totalCredit = sum_list (map gl_credit (JOURNAL_LINES journalId s)),
          jv_lines = JOURNAL_LINES journalId s, jv_subledger = JOURNAL_SUBLEDGER journalId s\<rparr>)"

record reconciliation =
  rc_accountId :: string
  rc_glBalance :: rat
  rc_subledgerBalance :: rat
  rc_difference :: rat
  rc_status :: string
  rc_lineCount :: nat
  rc_entryCount :: nat
  rc_parties :: "((string \<times> string option \<times> string) \<times> rat) list"

definition reconcileControlAccount :: "string \<Rightarrow> string option \<Rightarrow> ledger \<Rightarrow> reconciliation res" where
  "reconcileControlAccount accountId branchId s =
     (case ACCOUNT_BY_ID accountId s of
        None \<Rightarrow> throw 404 ''Account not found.''
      | Some a \<Rightarrow>
          if \<not> ga_isControl a
          then throw 400 (''Account '' @ ga_code a @ '' is not a control account and has no subledger.'')
          else
          let br = opt_or_null branchId;
              (glb, lc) = GL_CONTROL_BALANCE accountId br s;
              (slb, ec) = SUBLEDGER_BALANCE accountId br s;
              glBalance = round_money glb; subledgerBalance = round_money slb;
              difference = round_money (glBalance - subledgerBalance)
          in Inr \<lparr>rc_accountId = accountId, rc_glBalance = glBalance, rc_subledgerBalance = subledgerBalance,
               rc_difference = difference,
               rc_status = (if \<bar>difference\<bar> < 5 / 1000 then ''RECONCILED'' else ''DIFFERENCE''),
               rc_lineCount = lc, rc_entryCount = ec, rc_parties = SUBLEDGER_PARTY_BALANCE accountId br s\<rparr>)"

end
