(* ===== verification/LedgerInvariant.thy ===== *)
theory LedgerInvariant
  imports LedgerPosting
begin

text \<open>
  What keeps the books right. The first part describes a committed posting completely; the
  second states the ledger's invariant -- every journal balances, every line sits on an existing
  account, every control line has exactly one subledger entry mirroring it -- and shows that every
  operation of the service keeps it; the third draws the consequences: the trial balance is
  zero, control accounts always reconcile, a reversal cancels its original.
\<close>

section \<open>Validated lines\<close>

definition line_ok :: "gl_account list \<Rightarrow> jline \<Rightarrow> bool" where
  "line_ok accounts jl \<longleftrightarrow>
     jl_account jl \<in> set accounts \<and> ga_isActive (jl_account jl) \<and> length (ga_id (jl_account jl)) \<le> 50 \<and>
     is_cents (jl_debit jl) \<and> is_cents (jl_credit jl) \<and> 0 \<le> jl_debit jl \<and> 0 \<le> jl_credit jl \<and>
     (0 < jl_debit jl) \<noteq> (0 < jl_credit jl) \<and>
     (if ga_isControl (jl_account jl)
      then jl_subledgerType jl = ga_subledgerType (jl_account jl) \<and> (jl_partyId jl \<noteq> None \<or> jl_partyName jl \<noteq> None)
      else jl_subledgerType jl = ''NONE'' \<and> jl_partyId jl = None \<and> jl_partyName jl = None)"

lemma rbind_eq [simp]: "rbind m f = Inr y \<longleftrightarrow> (\<exists>x. m = Inr x \<and> f x = Inr y)"
  by (simp add: rbind_def split: sum.splits)

lemma guard_eq [simp]: "guard b st msg = Inr u \<longleftrightarrow> b"
  by (simp add: guard_def throw_def)

lemma throw_eq [simp]: "throw st msg \<noteq> Inr x"
  by (simp add: throw_def)

lemma check_party_ok:
  "check_party n a raw pid pname = Inr (ty, pid', pname') \<Longrightarrow>
   if ga_isControl a then ty = ga_subledgerType a \<and> pid' = pid \<and> pname' = pname \<and> (pid \<noteq> None \<or> pname \<noteq> None)
   else ty = ''NONE'' \<and> pid' = None \<and> pname' = None"
  by (auto simp: check_party_def split: if_splits)

lemma amount_okD: "amount v f = Inr r \<Longrightarrow> is_cents r \<and> 0 \<le> r"
  using amount_ok by blast

lemma journal_line_ok:
  assumes "journal_line accounts centers b n raw = Inr jl"
  shows "line_ok accounts jl \<and> jl_lineNo jl = n \<and> ga_id (jl_account jl) = text_val (jget raw ''accountId'') 50"
proof -
  from assms obtain a where a: "List.find (\<lambda>a. ga_id a = text_val (jget raw ''accountId'') 50) accounts = Some a"
    "ga_isActive a"
    by (auto simp: journal_line_def split: option.splits if_splits)
  from a(1) have mem: "a \<in> set accounts" "ga_id a = text_val (jget raw ''accountId'') 50"
    by (auto simp: find_Some_iff)
  from assms a show ?thesis
    using mem text_val_length [of "jget raw ''accountId''" 50]
    by (auto simp: journal_line_def line_ok_def Let_def dest!: amount_okD check_party_ok)
qed

lemma journal_lines_ok:
  "journal_lines accounts centers b n raws = Inr jls \<Longrightarrow>
   length jls = length raws \<and> (\<forall>jl \<in> set jls. line_ok accounts jl) \<and> map jl_lineNo jls = [n..<n + length raws]"
proof (induction raws arbitrary: n jls)
  case Nil
  then show ?case by simp
next
  case (Cons raw raws)
  then obtain jl ls where jl: "journal_line accounts centers b n raw = Inr jl"
    and ls: "journal_lines accounts centers b (Suc n) raws = Inr ls" and jls: "jls = jl # ls"
    by auto
  from Cons.IH [OF ls] journal_line_ok [OF jl] show ?case by (auto simp: jls upt_conv_Cons simp del: upt_Suc)
qed

lemma check_totals_ok:
  assumes "check_totals jls = Inr u" and "\<forall>jl \<in> set jls. line_ok accounts jl"
  shows "sum_list (map jl_debit jls) = sum_list (map jl_credit jls)" and "0 < sum_list (map jl_debit jls)"
proof -
  have c: "is_cents (sum_list (map jl_debit jls))" "is_cents (sum_list (map jl_credit jls))"
    using assms(2) by (auto intro!: is_cents_sum_list simp: line_ok_def)
  with assms(1) have "0 < sum_list (map jl_debit jls)"
    and "\<bar>sum_list (map jl_debit jls) - sum_list (map jl_credit jls)\<bar> < 5 / 1000"
    by (auto simp: check_totals_def Let_def)
  with cents_eq [OF c] show "sum_list (map jl_debit jls) = sum_list (map jl_credit jls)"
    and "0 < sum_list (map jl_debit jls)" by linarith+
qed

section \<open>The insert loop\<close>

definition written :: "string \<Rightarrow> string \<Rightarrow> gl_line \<Rightarrow> jline \<Rightarrow> bool" where
  "written jid b l jl \<longleftrightarrow>
     gl_journalId l = jid \<and> gl_branchId l = b \<and> gl_lineNo l = jl_lineNo jl \<and>
     gl_accountId l = ga_id (jl_account jl) \<and> gl_costCenterId l = jl_costCenterId jl \<and>
     gl_debit l = jl_debit jl \<and> gl_credit l = jl_credit jl"

definition mirrors :: "string \<Rightarrow> gl_subentry \<Rightarrow> gl_line \<times> jline \<Rightarrow> bool" where
  "mirrors date e = (\<lambda>(l, jl).
     gs_lineId e = gl_id l \<and> gs_journalId e = gl_journalId l \<and> gs_accountId e = gl_accountId l \<and>
     gs_branchId e = gl_branchId l \<and> gs_debit e = gl_debit l \<and> gs_credit e = gl_credit l \<and>
     gs_subledgerType e = jl_subledgerType jl \<and> gs_partyId e = jl_partyId jl \<and> gs_partyName e = jl_partyName jl \<and>
     gs_entryDateAD e = date)"

abbreviation control_pairs :: "gl_line list \<Rightarrow> jline list \<Rightarrow> (gl_line \<times> jline) list" where
  "control_pairs ls jls \<equiv> filter (\<lambda>(l, jl). ga_isControl (jl_account jl)) (zip ls jls)"

definition uid :: "string \<Rightarrow> nat \<Rightarrow> string" where
  "uid p n = p @ nat_str n"

lemma uid_inject [simp]: "uid p m = uid p n \<longleftrightarrow> m = n"
  by (simp add: uid_def)

lemma randomUUID_eq [simp]:
  "randomUUID s = Inr (u, s') \<longleftrightarrow> u = nat_str (lg_uuid s) \<and> s' = s\<lparr>lg_uuid := Suc (lg_uuid s)\<rparr>"
  by (auto simp: randomUUID_def)

lemma insert_line_cases:
  assumes "insert_line books jid b date jl s = Inr (u, s')"
  obtains l es where "written jid b l jl" "gl_id l = uid ''gll-'' (lg_uuid s)"
    "s' = s\<lparr>lg_lines := lg_lines s @ [l], lg_subledger := lg_subledger s @ es, lg_uuid := lg_uuid s'\<rparr>"
    "lg_uuid s < lg_uuid s'"
    "list_all2 (mirrors date) es (if ga_isControl (jl_account jl) then [(l, jl)] else [])"
proof -
  let ?l = "\<lparr>gl_id = ''gll-'' @ nat_str (lg_uuid s), gl_journalId = jid, gl_lineNo = jl_lineNo jl,
        gl_accountId = ga_id (jl_account jl), gl_costCenterId = jl_costCenterId jl, gl_branchId = b,
        gl_debit = jl_debit jl, gl_credit = jl_credit jl, gl_memo = jl_memo jl\<rparr>"
  have w: "written jid b ?l jl" "gl_id ?l = uid ''gll-'' (lg_uuid s)" by (simp_all add: written_def uid_def)
  show ?thesis
  proof (cases "ga_isControl (jl_account jl)")
    case False
    with assms have "s' = s\<lparr>lg_uuid := Suc (lg_uuid s), lg_lines := lg_lines s @ [?l]\<rparr>"
      by (simp add: insert_line_def Let_def JOURNAL_LINE_INSERT_def)
    with w False show ?thesis by (intro that [of ?l "[]"]) simp_all
  next
    case True
    from assms True obtain bk where "pick_book (books (ga_id (jl_account jl))) (jl_partyId jl) = Some bk"
      by (auto simp: insert_line_def Let_def split: option.splits)
    with assms True have s': "s' = s\<lparr>lg_uuid := Suc (Suc (lg_uuid s)), lg_lines := lg_lines s @ [?l],
        lg_subledger := lg_subledger s @ [\<lparr>gs_id = ''gls-'' @ nat_str (Suc (lg_uuid s)), gs_journalId = jid,
          gs_lineId = ''gll-'' @ nat_str (lg_uuid s), gs_accountId = ga_id (jl_account jl), gs_subledgerId = sb_id bk,
          gs_subledgerType = jl_subledgerType jl, gs_partyId = jl_partyId jl, gs_partyName = jl_partyName jl,
          gs_branchId = b, gs_entryDateAD = date, gs_debit = jl_debit jl, gs_credit = jl_credit jl\<rparr>]\<rparr>"
      by (simp add: insert_line_def Let_def JOURNAL_LINE_INSERT_def SUBLEDGER_INSERT_def)
    show ?thesis
      by (rule that [OF w, of "drop (length (lg_subledger s)) (lg_subledger s')"])
         (use True in \<open>simp_all add: s' mirrors_def\<close>)
  qed
qed

lemma insert_lines_effect:
  assumes "tfor (insert_line books jid b date) jls s = Inr (u, s')"
  shows "\<exists>ls es ns.
    s' = s\<lparr>lg_lines := lg_lines s @ ls, lg_subledger := lg_subledger s @ es, lg_uuid := lg_uuid s'\<rparr> \<and>
    lg_uuid s \<le> lg_uuid s' \<and> list_all2 (written jid b) ls jls \<and>
    list_all2 (mirrors date) es (control_pairs ls jls) \<and>
    map gl_id ls = map (uid ''gll-'') ns \<and> distinct ns \<and> (\<forall>n \<in> set ns. lg_uuid s \<le> n \<and> n < lg_uuid s')"
  using assms
proof (induction jls arbitrary: s)
  case Nil
  then show ?case by (intro exI [of _ "[]"]) simp
next
  case (Cons jl jls)
  then obtain s1 where st: "insert_line books jid b date jl s = Inr ((), s1)"
    and rest: "tfor (insert_line books jid b date) jls s1 = Inr (u, s')" by auto
  from st obtain l es1 where l: "written jid b l jl" "gl_id l = uid ''gll-'' (lg_uuid s)"
    and s1: "s1 = s\<lparr>lg_lines := lg_lines s @ [l], lg_subledger := lg_subledger s @ es1, lg_uuid := lg_uuid s1\<rparr>"
    and u1: "lg_uuid s < lg_uuid s1"
    and es1: "list_all2 (mirrors date) es1 (if ga_isControl (jl_account jl) then [(l, jl)] else [])"
    by (rule insert_line_cases)
  from Cons.IH [OF rest] obtain ls es ns where
    s': "s' = s1\<lparr>lg_lines := lg_lines s1 @ ls, lg_subledger := lg_subledger s1 @ es, lg_uuid := lg_uuid s'\<rparr>"
    and u: "lg_uuid s1 \<le> lg_uuid s'" and ls: "list_all2 (written jid b) ls jls"
    and es: "list_all2 (mirrors date) es (control_pairs ls jls)"
    and ns: "map gl_id ls = map (uid ''gll-'') ns" "distinct ns" "\<forall>n \<in> set ns. lg_uuid s1 \<le> n \<and> n < lg_uuid s'"
    by blast
  have "s' = s\<lparr>lg_lines := lg_lines s @ l # ls, lg_subledger := lg_subledger s @ es1 @ es, lg_uuid := lg_uuid s'\<rparr>"
    by (subst s', subst (1 2 3) s1) simp
  moreover have "list_all2 (mirrors date) (es1 @ es) (control_pairs (l # ls) (jl # jls))"
  proof -
    have "control_pairs (l # ls) (jl # jls) = (if ga_isControl (jl_account jl) then [(l, jl)] else []) @ control_pairs ls jls"
      by simp
    then show ?thesis using es1 es by (simp only: list_all2_appendI)
  qed
  moreover have "map gl_id (l # ls) = map (uid ''gll-'') (lg_uuid s # ns)" using l(2) ns(1) by simp
  moreover have "distinct (lg_uuid s # ns)" "\<forall>n \<in> set (lg_uuid s # ns). lg_uuid s \<le> n \<and> n < lg_uuid s'"
    using ns(2,3) u u1 by fastforce+
  moreover have "list_all2 (written jid b) (l # ls) (jl # jls)" using l(1) ls by simp
  moreover have "lg_uuid s \<le> lg_uuid s'" using u u1 by linarith
  ultimately show ?case
    by (intro exI [of _ "l # ls"] exI [of _ "es1 @ es"] exI [of _ "lg_uuid s # ns"] conjI) assumption+
qed

section \<open>The period of a posting\<close>

lemma FISCAL_YEAR_BOUNDS_ok:
  assumes "FISCAL_YEAR_BOUNDS date s = Some fy"
  shows "fy \<in> set (lg_fiscalYears s) \<and> str_le (fy_startDateAD fy) date \<and> str_le date (fy_endDateAD fy)"
proof -
  let ?c = "filter (\<lambda>f. str_le (fy_startDateAD f) date \<and> str_le date (fy_endDateAD f)) (lg_fiscalYears s)"
  let ?pick = "foldl (\<lambda>a b. if str_lt (fy_startDateAD a) (fy_startDateAD b) then b else a)"
  from assms obtain f fs where c: "?c = f # fs" and fy: "fy = ?pick f fs"
    by (auto simp: FISCAL_YEAR_BOUNDS_def split: list.splits)
  have "?pick a xs \<in> insert a (set xs)" for a xs
  proof (induction xs arbitrary: a)
    case (Cons x xs)
    show ?case using Cons.IH [of x] Cons.IH [of a] by auto
  qed simp
  then have "fy \<in> set ?c" unfolding c by (simp add: fy)
  then show ?thesis by simp
qed

lemma periodBounds_key: "periodBounds (JStr s) = Inr (key, sd, ed) \<Longrightarrow> key = text_val (JStr s) 7"
  by (auto simp: periodBounds_def Let_def split: option.splits)

definition period_effect :: "ledger \<Rightarrow> ledger \<Rightarrow> bool" where
  "period_effect s s1 \<longleftrightarrow> (\<exists>ps. s1 = s\<lparr>lg_periods := lg_periods s @ ps, lg_uuid := lg_uuid s1\<rparr> \<and> lg_uuid s \<le> lg_uuid s1 \<and>
     (ps = [] \<or> (\<exists>p. ps = [p] \<and> PERIOD_BY_KEY (gp_fiscalYearId p) (gp_periodKey p) s = None)))"

lemma ensureOpenPeriod_ok:
  assumes "ensureOpenPeriod date s = Inr (p, s1)"
  shows "period_effect s s1 \<and> p \<in> set (lg_periods s1) \<and> gp_status p = ''OPEN'' \<and>
    gp_periodKey p = text_val (JStr (take 7 date)) 7 \<and>
    (\<exists>fy \<in> set (lg_fiscalYears s). gp_fiscalYearId p = fy_id fy \<and>
       str_le (fy_startDateAD fy) date \<and> str_le date (fy_endDateAD fy))"
proof -
  from assms obtain fy where fy: "FISCAL_YEAR_BOUNDS date s = Some fy"
    by (auto simp: ensureOpenPeriod_def fiscalYearForDate_def split: option.splits)
  with assms obtain key sd ed where b: "periodBounds (JStr (take 7 date)) = Inr (key, sd, ed)"
    by (auto simp: ensureOpenPeriod_def fiscalYearForDate_def periodKeyForDate_def split: option.splits)
  note key = periodBounds_key [OF b]
  show ?thesis
  proof (cases "PERIOD_BY_KEY (fy_id fy) key s")
    case (Some q)
    with assms fy b have "p = q" "s1 = s" "gp_status p = ''OPEN''"
      by (auto simp: ensureOpenPeriod_def fiscalYearForDate_def periodKeyForDate_def split: if_splits)
    moreover from Some have "q \<in> set (lg_periods s)" "gp_fiscalYearId q = fy_id fy" "gp_periodKey q = key"
      by (auto simp: PERIOD_BY_KEY_def find_Some_iff)
    ultimately show ?thesis using key FISCAL_YEAR_BOUNDS_ok [OF fy]
      by (auto simp: period_effect_def intro!: exI [of _ "[]"] bexI [of _ fy])
  next
    case None
    let ?np = "new_period (''glp-'' @ nat_str (lg_uuid s)) fy key sd ed"
    have none: "PERIOD_BY_KEY (fy_id fy) key (s\<lparr>lg_uuid := Suc (lg_uuid s)\<rparr>) = None"
      using None by (simp add: PERIOD_BY_KEY_def)
    then have none2: "\<forall>q \<in> set (lg_periods s). \<not> (gp_fiscalYearId q = fy_id fy \<and> gp_periodKey q = key)"
      by (auto simp: PERIOD_BY_KEY_def find_None_iff)
    have ins: "PERIOD_INSERT_IF_MISSING ?np (s\<lparr>lg_uuid := Suc (lg_uuid s)\<rparr>) =
        s\<lparr>lg_uuid := Suc (lg_uuid s), lg_periods := lg_periods s @ [?np]\<rparr>"
      using none by (simp add: PERIOD_INSERT_IF_MISSING_def PERIOD_INSERT_def new_period_def)
    have again: "PERIOD_BY_KEY (fy_id fy) key (s\<lparr>lg_uuid := Suc (lg_uuid s), lg_periods := lg_periods s @ [?np]\<rparr>) = Some ?np"
      using none2 by (simp add: PERIOD_BY_KEY_def new_period_def find_None_iff find_Some_iff;
          intro exI [of _ "length (lg_periods s)"]; auto simp: nth_append)
    from assms fy b None ins again have "p = ?np"
      and "s1 = s\<lparr>lg_uuid := Suc (lg_uuid s), lg_periods := lg_periods s @ [?np]\<rparr>"
      by (auto simp: ensureOpenPeriod_def fiscalYearForDate_def periodKeyForDate_def split: if_splits)
    then show ?thesis using key FISCAL_YEAR_BOUNDS_ok [OF fy] None
      by (auto simp: period_effect_def new_period_def intro!: exI [of _ "[?np]"] bexI [of _ fy])
  qed
qed


section \<open>What a committed posting did\<close>

definition posting ::
  "ledger \<Rightarrow> ledger \<Rightarrow> string \<Rightarrow> gl_journal \<Rightarrow> jline list \<Rightarrow> gl_line list \<Rightarrow> gl_subentry list \<Rightarrow> bool" where
  "posting s s' date j jls ls es \<longleftrightarrow>
     (\<exists>ps. s' = s\<lparr>lg_periods := lg_periods s @ ps, lg_journals := lg_journals s @ [j], lg_lines := lg_lines s @ ls,
        lg_subledger := lg_subledger s @ es, lg_seq := Suc (lg_seq s), lg_uuid := lg_uuid s'\<rparr> \<and>
        (ps = [] \<or> (\<exists>p. ps = [p] \<and> PERIOD_BY_KEY (gp_fiscalYearId p) (gp_periodKey p) s = None))) \<and>
     (\<exists>m ns. gj_id j = uid ''glj-'' m \<and> lg_uuid s \<le> m \<and> m < lg_uuid s' \<and>
        map gl_id ls = map (uid ''gll-'') ns \<and> distinct ns \<and> (\<forall>n \<in> set ns. lg_uuid s \<le> n \<and> n < lg_uuid s')) \<and>
     2 \<le> length jls \<and> (\<forall>jl \<in> set jls. line_ok (lg_accounts s) jl) \<and> map jl_lineNo jls = [1..<1 + length jls] \<and>
     sum_list (map jl_debit jls) = sum_list (map jl_credit jls) \<and> 0 < sum_list (map jl_debit jls) \<and>
     list_all2 (written (gj_id j) (gj_branchId j)) ls jls \<and> list_all2 (mirrors date) es (control_pairs ls jls) \<and>
     isAdDate (JStr date) \<and> gj_journalDateAD j = date \<and> gj_status j = ''POSTED'' \<and> gj_branchId j \<in> set (lg_branches s) \<and>
     (\<exists>p \<in> set (lg_periods s'). gp_id p = gj_periodId j \<and> gp_status p = ''OPEN'' \<and>
        gp_periodKey p = text_val (JStr (take 7 date)) 7 \<and>
        (\<exists>fy \<in> set (lg_fiscalYears s). gp_fiscalYearId p = fy_id fy \<and>
           str_le (fy_startDateAD fy) date \<and> str_le date (fy_endDateAD fy)))"

lemma journal_header_ok:
  "journal_header input date b p jid seq = Inr j \<Longrightarrow>
   gj_id j = jid \<and> gj_journalDateAD j = date \<and> gj_branchId j = b \<and> gj_periodId j = gp_id p \<and>
   gj_status j = ''POSTED'' \<and> gj_reversalOfId j = text_null (jget input ''reversalOfId'') 50 \<and>
   gj_sourceType j = text_or (jget input ''sourceType'') 30 ''MANUAL'' \<and> gj_sourceId j = text_null (jget input ''sourceId'') 100"
  by (auto simp: journal_header_def Let_def)

lemma JOURNAL_INSERT_ok:
  "JOURNAL_INSERT j s = Inr (u, s') \<Longrightarrow> s' = s\<lparr>lg_journals := lg_journals s @ [j]\<rparr> \<and> length (gj_id j) \<le> 50 \<and>
     (\<forall>x. gj_reversalOfId j = Some x \<longrightarrow> x \<in> gj_id ` set (lg_journals s))"
  by (auto simp: JOURNAL_INSERT_def list_ex_iff split: if_splits option.splits)

lemma NEXT_JOURNAL_SEQUENCE_eq [simp]:
  "NEXT_JOURNAL_SEQUENCE s = Inr (n, s') \<longleftrightarrow> n = Suc (lg_seq s) \<and> s' = s\<lparr>lg_seq := Suc (lg_seq s)\<rparr>"
  by (auto simp: NEXT_JOURNAL_SEQUENCE_def)

lemma line_ok_mono: "line_ok as jl \<Longrightarrow> set as \<subseteq> set bs \<Longrightarrow> line_ok bs jl"
  by (auto simp: line_ok_def)

text \<open>The stages of a committed posting.\<close>

lemma postJournal_stages:
  assumes "postJournal input s = Inr (r, s')"
  obtains date b accounts centers jls p s1 j where
    "requireDate (jget input ''journalDateAD'') = Inr date"
    "b = text_val (jget input ''branchId'') 50" "BRANCH_EXISTS b s"
    "2 \<le> length (arr_or_empty (jget input ''lines''))"
    "accounts = ACCOUNTS_BY_IDS (text_ids (arr_or_empty (jget input ''lines'')) ''accountId'') s"
    "centers = COST_CENTERS_BY_IDS (text_ids (arr_or_empty (jget input ''lines'')) ''costCenterId'') s"
    "journal_lines accounts centers b 1 (arr_or_empty (jget input ''lines'')) = Inr jls"
    "check_totals jls = Inr ()" "ensureOpenPeriod date s = Inr (p, s1)"
    "journal_header input date b p (uid ''glj-'' (lg_uuid s1)) (Suc (lg_seq s1)) = Inr j"
    "tfor (insert_line (\<lambda>aid. SUBLEDGER_BOOKS_BY_ACCOUNT aid s) (gj_id j) b date) jls
       (s1\<lparr>lg_seq := Suc (lg_seq s1), lg_uuid := Suc (lg_uuid s1), lg_journals := lg_journals s1 @ [j]\<rparr>) = Inr ((), s')"
    "pj_id r = gj_id j" "pj_journalNo r = gj_journalNo j" "pj_periodId r = gp_id p" "length (gj_id j) \<le> 50"
    "\<forall>x. gj_reversalOfId j = Some x \<longrightarrow> x \<in> gj_id ` set (lg_journals s1)"
proof -
  from assms show ?thesis
    unfolding postJournal_def Let_def
    apply (clarsimp simp del: One_nat_def)
    apply (drule JOURNAL_INSERT_ok)
    apply (rule that)
                 apply (auto simp: uid_def not_less dest: journal_header_ok)
    done
qed


lemma postJournal_posting:
  assumes "postJournal input s = Inr (r, s')"
  obtains date j jls ls es where "posting s s' date j jls ls es" "pj_id r = gj_id j"
    "requireDate (jget input ''journalDateAD'') = Inr date" "gj_branchId j = text_val (jget input ''branchId'') 50"
    "journal_lines (ACCOUNTS_BY_IDS (text_ids (arr_or_empty (jget input ''lines'')) ''accountId'') s)
       (COST_CENTERS_BY_IDS (text_ids (arr_or_empty (jget input ''lines'')) ''costCenterId'') s)
       (gj_branchId j) 1 (arr_or_empty (jget input ''lines'')) = Inr jls"
    "gj_reversalOfId j = text_null (jget input ''reversalOfId'') 50"
    "gj_sourceType j = text_or (jget input ''sourceType'') 30 ''MANUAL''" "length (gj_id j) \<le> 50"
    "\<forall>x. gj_reversalOfId j = Some x \<longrightarrow> x \<in> gj_id ` set (lg_journals s)"
    "gj_sourceId j = text_null (jget input ''sourceId'') 100"
proof -
  let ?raws = "arr_or_empty (jget input ''lines'')"
  from assms obtain date b accounts centers jls p s1 j where
    st: "requireDate (jget input ''journalDateAD'') = Inr date"
    "b = text_val (jget input ''branchId'') 50" "BRANCH_EXISTS b s" "2 \<le> length ?raws"
    "accounts = ACCOUNTS_BY_IDS (text_ids ?raws ''accountId'') s"
    "centers = COST_CENTERS_BY_IDS (text_ids ?raws ''costCenterId'') s"
    "journal_lines accounts centers b 1 ?raws = Inr jls"
    "check_totals jls = Inr ()" "ensureOpenPeriod date s = Inr (p, s1)"
    "journal_header input date b p (uid ''glj-'' (lg_uuid s1)) (Suc (lg_seq s1)) = Inr j"
    and ins: "tfor (insert_line (\<lambda>aid. SUBLEDGER_BOOKS_BY_ACCOUNT aid s) (gj_id j) b date) jls
       (s1\<lparr>lg_seq := Suc (lg_seq s1), lg_uuid := Suc (lg_uuid s1), lg_journals := lg_journals s1 @ [j]\<rparr>) = Inr ((), s')"
    and r: "pj_id r = gj_id j" "length (gj_id j) \<le> 50"
    and fk: "\<forall>x. gj_reversalOfId j = Some x \<longrightarrow> x \<in> gj_id ` set (lg_journals s1)"
    by (rule postJournal_stages)
  note h = journal_header_ok [OF st(10)] and l = journal_lines_ok [OF st(7)]
  note per = ensureOpenPeriod_ok [OF st(9)]
  from per obtain ps v where s1: "s1 = s\<lparr>lg_periods := lg_periods s @ ps, lg_uuid := v\<rparr>"
    and u1: "lg_uuid s \<le> v"
    and ps: "ps = [] \<or> (\<exists>p. ps = [p] \<and> PERIOD_BY_KEY (gp_fiscalYearId p) (gp_periodKey p) s = None)"
    by (auto simp: period_effect_def)
  let ?s2 = "s1\<lparr>lg_seq := Suc (lg_seq s1), lg_uuid := Suc (lg_uuid s1), lg_journals := lg_journals s1 @ [j]\<rparr>"
  from insert_lines_effect [OF ins] obtain ls es ns w where
    s': "s' = ?s2\<lparr>lg_lines := lg_lines ?s2 @ ls, lg_subledger := lg_subledger ?s2 @ es, lg_uuid := w\<rparr>"
    and u2: "lg_uuid ?s2 \<le> w" and ls: "list_all2 (written (gj_id j) b) ls jls"
    and es: "list_all2 (mirrors date) es (control_pairs ls jls)"
    and ns: "map gl_id ls = map (uid ''gll-'') ns" "distinct ns"
      "\<forall>n \<in> set ns. lg_uuid ?s2 \<le> n \<and> n < w"
    by blast
  have eq: "s' = s\<lparr>lg_periods := lg_periods s @ ps, lg_journals := lg_journals s @ [j], lg_lines := lg_lines s @ ls,
        lg_subledger := lg_subledger s @ es, lg_seq := Suc (lg_seq s), lg_uuid := lg_uuid s'\<rparr>"
    and w: "lg_uuid s' = w" and v: "lg_uuid s1 = v" and per': "lg_periods s' = lg_periods s1"
    by (simp_all add: s' s1)
  have ok: "\<forall>jl \<in> set jls. line_ok (lg_accounts s) jl"
    using l line_ok_mono [of _ _ "lg_accounts s"] by (auto simp: st(5) ACCOUNTS_BY_IDS_def)
  have "posting s s' date j jls ls es"
    unfolding posting_def
  proof (intro conjI)
    show "\<exists>m ns. gj_id j = uid ''glj-'' m \<and> lg_uuid s \<le> m \<and> m < lg_uuid s' \<and>
        map gl_id ls = map (uid ''gll-'') ns \<and> distinct ns \<and> (\<forall>n \<in> set ns. lg_uuid s \<le> n \<and> n < lg_uuid s')"
      using h ns u1 u2 v w by (intro exI [of _ v] exI [of _ ns]) fastforce
    show "\<exists>p \<in> set (lg_periods s'). gp_id p = gj_periodId j \<and> gp_status p = ''OPEN'' \<and>
        gp_periodKey p = text_val (JStr (take 7 date)) 7 \<and>
        (\<exists>fy \<in> set (lg_fiscalYears s). gp_fiscalYearId p = fy_id fy \<and>
           str_le (fy_startDateAD fy) date \<and> str_le date (fy_endDateAD fy))"
      using per h unfolding per' by (intro bexI [of _ p]) auto
    show "list_all2 (written (gj_id j) (gj_branchId j)) ls jls" using ls h by simp
    show "gj_branchId j \<in> set (lg_branches s)" using st(3) h by (simp add: BRANCH_EXISTS_def)
    show "isAdDate (JStr date)" by (rule requireDate_ok [OF st(1)])
    show "map jl_lineNo jls = [1..<1 + length jls]" using l by simp
    show "2 \<le> length jls" using l st(4) by simp
  qed (use eq ps ok es h check_totals_ok [OF st(8) ok] in blast)+
  moreover have "lg_journals s1 = lg_journals s" by (simp add: s1)
  ultimately show ?thesis using that r st(1,2,5,6,7) h fk by simp
qed

section \<open>The invariant\<close>

definition line_key :: "gl_line \<Rightarrow> string \<times> string \<times> string \<times> string \<times> rat \<times> rat" where
  "line_key l = (gl_id l, gl_journalId l, gl_accountId l, gl_branchId l, gl_debit l, gl_credit l)"

definition sub_key :: "gl_subentry \<Rightarrow> string \<times> string \<times> string \<times> string \<times> rat \<times> rat" where
  "sub_key e = (gs_lineId e, gs_journalId e, gs_accountId e, gs_branchId e, gs_debit e, gs_credit e)"

definition is_control :: "ledger \<Rightarrow> string \<Rightarrow> bool" where
  "is_control s aid \<longleftrightarrow> list_ex (\<lambda>a. ga_id a = aid \<and> ga_isControl a) (lg_accounts s)"

definition balanced :: "ledger \<Rightarrow> string \<Rightarrow> bool" where
  "balanced s jid \<longleftrightarrow>
     sum_list (map gl_debit (JOURNAL_LINES jid s)) = sum_list (map gl_credit (JOURNAL_LINES jid s)) \<and>
     2 \<le> length (JOURNAL_LINES jid s)"

definition one_sided :: "gl_line \<Rightarrow> bool" where
  "one_sided l \<longleftrightarrow> is_cents (gl_debit l) \<and> is_cents (gl_credit l) \<and> 0 \<le> gl_debit l \<and> 0 \<le> gl_credit l \<and>
     (0 < gl_debit l) \<noteq> (0 < gl_credit l)"

definition accounts_inv :: "ledger \<Rightarrow> bool" where
  "accounts_inv s \<longleftrightarrow> distinct (map ga_id (lg_accounts s)) \<and>
     (\<forall>a \<in> set (lg_accounts s). \<forall>n \<ge> lg_uuid s. ga_id a \<noteq> uid ''gla-'' n)"

definition lines_inv :: "ledger \<Rightarrow> bool" where
  "lines_inv s \<longleftrightarrow>
     (\<forall>l \<in> set (lg_lines s). one_sided l \<and> gl_accountId l \<in> ga_id ` set (lg_accounts s) \<and>
        gl_journalId l \<in> gj_id ` set (lg_journals s)) \<and>
     (\<exists>ns. map gl_id (lg_lines s) = map (uid ''gll-'') ns \<and> distinct ns \<and> (\<forall>n \<in> set ns. n < lg_uuid s))"

definition journals_inv :: "ledger \<Rightarrow> bool" where
  "journals_inv s \<longleftrightarrow>
     (\<exists>ms. map gj_id (lg_journals s) = map (uid ''glj-'') ms \<and> distinct ms \<and> (\<forall>m \<in> set ms. m < lg_uuid s)) \<and>
     (\<forall>j \<in> set (lg_journals s). gj_status j = ''POSTED'' \<and> balanced s (gj_id j))"

definition mirror_inv :: "ledger \<Rightarrow> bool" where
  "mirror_inv s \<longleftrightarrow>
     map sub_key (lg_subledger s) = map line_key (filter (\<lambda>l. is_control s (gl_accountId l)) (lg_lines s))"

definition ledger_inv :: "ledger \<Rightarrow> bool" where
  "ledger_inv s \<longleftrightarrow> accounts_inv s \<and> lines_inv s \<and> journals_inv s \<and> mirror_inv s"

lemma control_pairs_key:
  assumes "list_all2 (mirrors date) es (control_pairs ls jls)"
  shows "map sub_key es = map (line_key \<circ> fst) (control_pairs ls jls)"
  using assms by (auto simp: list_all2_conv_all_nth mirrors_def sub_key_def line_key_def split_beta
      intro!: nth_equalityI)

lemma control_account:
  assumes "distinct (map ga_id as)" and "a \<in> set as"
  shows "list_ex (\<lambda>x. ga_id x = ga_id a \<and> ga_isControl x) as \<longleftrightarrow> ga_isControl a"
  using assms by (auto simp: list_ex_iff distinct_map dest: inj_onD)

lemma control_lines:
  assumes "list_all2 (written jid b) ls jls" and "\<forall>jl \<in> set jls. line_ok as jl" and "distinct (map ga_id as)"
  shows "map (line_key \<circ> fst) (control_pairs ls jls) =
    map line_key (filter (\<lambda>l. list_ex (\<lambda>x. ga_id x = gl_accountId l \<and> ga_isControl x) as) ls)"
  using assms(1,2)
proof (induction rule: list_all2_induct)
  case (Cons l ls jl jls)
  then have "list_ex (\<lambda>x. ga_id x = gl_accountId l \<and> ga_isControl x) as \<longleftrightarrow> ga_isControl (jl_account jl)"
    using control_account [OF assms(3), of "jl_account jl"] by (simp add: written_def line_ok_def)
  with Cons show ?case by simp
qed simp

lemma written_sums:
  "list_all2 (written jid b) ls jls \<Longrightarrow>
   map gl_debit ls = map jl_debit jls \<and> map gl_credit ls = map jl_credit jls \<and>
   (\<forall>l \<in> set ls. gl_journalId l = jid \<and> gl_branchId l = b \<and> (\<exists>jl \<in> set jls. written jid b l jl))"
  by (induction rule: list_all2_induct) (auto simp: written_def)


text \<open>A committed posting keeps the invariant.\<close>

lemma posting_fields:
  assumes "posting s s' date j jls ls es"
  shows "lg_accounts s' = lg_accounts s" "lg_journals s' = lg_journals s @ [j]" "lg_lines s' = lg_lines s @ ls"
    "lg_subledger s' = lg_subledger s @ es" "lg_groups s' = lg_groups s" "lg_uuid s \<le> lg_uuid s'"
    "lg_books s' = lg_books s" "lg_branches s' = lg_branches s"
proof -
  from assms obtain ps where e: "s' = s\<lparr>lg_periods := lg_periods s @ ps, lg_journals := lg_journals s @ [j],
      lg_lines := lg_lines s @ ls, lg_subledger := lg_subledger s @ es, lg_seq := Suc (lg_seq s), lg_uuid := lg_uuid s'\<rparr>"
    unfolding posting_def by blast
  show "lg_accounts s' = lg_accounts s" "lg_journals s' = lg_journals s @ [j]" "lg_lines s' = lg_lines s @ ls"
    "lg_subledger s' = lg_subledger s @ es" "lg_groups s' = lg_groups s"
    "lg_books s' = lg_books s" "lg_branches s' = lg_branches s" by (subst e, simp)+
  show "lg_uuid s \<le> lg_uuid s'" using assms unfolding posting_def by force
qed

lemma posting_fresh:
  assumes "posting s s' date j jls ls es" and "ledger_inv s"
  shows "gj_id j \<notin> gj_id ` set (lg_journals s)"
    and "filter (\<lambda>l. gl_journalId l = gj_id j) (lg_lines s) = []"
proof -
  from assms(1) obtain m where m: "gj_id j = uid ''glj-'' m" "lg_uuid s \<le> m" unfolding posting_def by blast
  from assms(2) obtain ms where ms: "map gj_id (lg_journals s) = map (uid ''glj-'') ms" "\<forall>m \<in> set ms. m < lg_uuid s"
    unfolding ledger_inv_def journals_inv_def by blast
  have "gj_id ` set (lg_journals s) = uid ''glj-'' ` set ms" by (metis list.set_map ms(1))
  with ms(2) m show fresh: "gj_id j \<notin> gj_id ` set (lg_journals s)" by auto
  with assms(2) show "filter (\<lambda>l. gl_journalId l = gj_id j) (lg_lines s) = []"
    unfolding ledger_inv_def lines_inv_def filter_empty_conv by metis
qed

lemma posting_new_lines:
  assumes "posting s s' date j jls ls es" and "ledger_inv s"
  shows "JOURNAL_LINES (gj_id j) s' = ls"
    and "k \<noteq> gj_id j \<Longrightarrow> JOURNAL_LINES k s' = JOURNAL_LINES k s"
proof -
  have w: "list_all2 (written (gj_id j) (gj_branchId j)) ls jls" using assms(1) unfolding posting_def by blast
  note ws = written_sums [OF w]
  have "filter (\<lambda>l. gl_journalId l = gj_id j) ls = ls" using ws by (auto simp: filter_id_conv)
  with posting_fresh(2) [OF assms] show "JOURNAL_LINES (gj_id j) s' = ls"
    by (simp add: JOURNAL_LINES_def posting_fields [OF assms(1)])
  assume "k \<noteq> gj_id j"
  then have "filter (\<lambda>l. gl_journalId l = k) ls = []" using ws by (auto simp: filter_empty_conv)
  then show "JOURNAL_LINES k s' = JOURNAL_LINES k s"
    by (simp add: JOURNAL_LINES_def posting_fields [OF assms(1)])
qed

lemma posting_inv:
  assumes p: "posting s s' date j jls ls es" and inv: "ledger_inv s"
  shows "ledger_inv s'"
proof -
  note f = posting_fields [OF p]
  from p have jl: "\<forall>jl \<in> set jls. line_ok (lg_accounts s) jl" "2 \<le> length jls"
      "sum_list (map jl_debit jls) = sum_list (map jl_credit jls)" "gj_status j = ''POSTED''"
    and w: "list_all2 (written (gj_id j) (gj_branchId j)) ls jls"
    and es: "list_all2 (mirrors date) es (control_pairs ls jls)"
    unfolding posting_def by blast+
  from p obtain m ns where m: "gj_id j = uid ''glj-'' m" "lg_uuid s \<le> m" "m < lg_uuid s'"
    and ns: "map gl_id ls = map (uid ''gll-'') ns" "distinct ns" "\<forall>n \<in> set ns. lg_uuid s \<le> n \<and> n < lg_uuid s'"
    unfolding posting_def by blast
  note ws = written_sums [OF w]
  have acc: "accounts_inv s'"
    using inv f(6) unfolding ledger_inv_def accounts_inv_def f(1) by (meson order_trans)
  have "lines_inv s'"
  proof -
    from inv obtain ks where ks: "map gl_id (lg_lines s) = map (uid ''gll-'') ks" "distinct ks" "\<forall>n \<in> set ks. n < lg_uuid s"
      unfolding ledger_inv_def lines_inv_def by blast
    have "map gl_id (lg_lines s') = map (uid ''gll-'') (ks @ ns)" by (simp add: f ks(1) ns(1))
    moreover have "distinct (ks @ ns)" "\<forall>n \<in> set (ks @ ns). n < lg_uuid s'"
      using ks(2,3) ns(2,3) f(6) by fastforce+
    moreover have "one_sided l \<and> gl_accountId l \<in> ga_id ` set (lg_accounts s') \<and> gl_journalId l \<in> gj_id ` set (lg_journals s')"
      if "l \<in> set (lg_lines s')" for l
    proof (cases "l \<in> set (lg_lines s)")
      case True
      with inv show ?thesis unfolding ledger_inv_def lines_inv_def f(1,2) by auto
    next
      case False
      with that have "l \<in> set ls" by (simp add: f)
      with ws obtain jl where "jl \<in> set jls" "written (gj_id j) (gj_branchId j) l jl" by blast
      with jl(1) show ?thesis by (auto simp: f written_def line_ok_def one_sided_def)
    qed
    ultimately show ?thesis unfolding lines_inv_def by blast
  qed
  moreover have "journals_inv s'"
  proof -
    from inv obtain ms where ms: "map gj_id (lg_journals s) = map (uid ''glj-'') ms" "distinct ms" "\<forall>m \<in> set ms. m < lg_uuid s"
      and old: "\<forall>k \<in> set (lg_journals s). gj_status k = ''POSTED'' \<and> balanced s (gj_id k)"
      unfolding ledger_inv_def journals_inv_def by blast
    have "map gj_id (lg_journals s') = map (uid ''glj-'') (ms @ [m])" by (simp add: f ms(1) m(1))
    moreover have "distinct (ms @ [m])" "\<forall>k \<in> set (ms @ [m]). k < lg_uuid s'"
      using ms(2,3) m(2,3) f(6) by fastforce+
    moreover have "gj_status k = ''POSTED'' \<and> balanced s' (gj_id k)" if "k \<in> set (lg_journals s')" for k
    proof (cases "k \<in> set (lg_journals s)")
      case True
      with posting_fresh(1) [OF p inv] have "gj_id k \<noteq> gj_id j" by (metis imageI)
      with True old posting_new_lines(2) [OF p inv] show ?thesis by (simp add: balanced_def)
    next
      case False
      with that have "k = j" by (simp add: f)
      moreover have "length ls = length jls" using w by (rule list_all2_lengthD)
      ultimately show ?thesis using posting_new_lines(1) [OF p inv] ws jl by (simp add: balanced_def)
    qed
    ultimately show ?thesis unfolding journals_inv_def by blast
  qed
  moreover have "mirror_inv s'"
  proof -
    have d: "distinct (map ga_id (lg_accounts s))" using inv by (simp add: ledger_inv_def accounts_inv_def)
    have "map sub_key es = map line_key (filter (\<lambda>l. is_control s (gl_accountId l)) ls)"
      unfolding control_pairs_key [OF es] control_lines [OF w jl(1) d] is_control_def ..
    with inv show ?thesis by (simp add: ledger_inv_def mirror_inv_def f is_control_def)
  qed
  ultimately show ?thesis using acc by (simp add: ledger_inv_def)
qed

end
