(* ===== verification/LedgerReach.thy ===== *)
theory LedgerReach
  imports LedgerInvariant
begin

text \<open>
  The ledger as a state machine. A step is one committed transaction of
  \<open>accounting.service.ts\<close> -- a posting, a reversal, an operation on periods, groups or accounts --
  or a change of the masters other services own (branches, fiscal years, cost centres, books).
  Every step keeps the ledger's invariant, so it holds in every reachable state.
\<close>

section \<open>What an operation of the chart does\<close>

text \<open>Operations on periods and groups leave accounts and postings alone.\<close>

definition same_books :: "ledger \<Rightarrow> ledger \<Rightarrow> bool" where
  "same_books s s' \<longleftrightarrow> lg_journals s' = lg_journals s \<and> lg_lines s' = lg_lines s \<and>
     lg_subledger s' = lg_subledger s \<and> lg_branches s' = lg_branches s \<and> lg_uuid s \<le> lg_uuid s' \<and>
     lg_fiscalYears s' = lg_fiscalYears s \<and> lg_costCenters s' = lg_costCenters s \<and> lg_books s' = lg_books s \<and>
     gp_id ` set (lg_periods s) \<subseteq> gp_id ` set (lg_periods s') \<and>
     gp_fiscalYearId ` set (lg_periods s') \<subseteq> gp_fiscalYearId ` set (lg_periods s) \<union> fy_id ` set (lg_fiscalYears s)"

lemma same_books_refl [simp]: "same_books s s"
  by (simp add: same_books_def)

definition account_kept :: "ledger \<Rightarrow> gl_account \<Rightarrow> gl_account \<Rightarrow> bool" where
  "account_kept s a b \<longleftrightarrow> ga_id b = ga_id a \<and> ga_code b = ga_code a \<and> ga_isControl b = ga_isControl a \<and>
     ga_subledgerType b = ga_subledgerType a \<and>
     (ACCOUNT_JOURNAL_LINE_COUNT (ga_id a) s \<noteq> 0 \<longrightarrow> ga_groupId b = ga_groupId a)"

definition accounts_change :: "ledger \<Rightarrow> ledger \<Rightarrow> bool" where
  "accounts_change s s' \<longleftrightarrow>
     lg_accounts s' = lg_accounts s \<or>
     (\<exists>a n. lg_accounts s' = lg_accounts s @ [a] \<and> ga_id a = uid ''gla-'' n \<and> lg_uuid s \<le> n \<and> n < lg_uuid s') \<or>
     (\<exists>f. lg_accounts s' = map f (lg_accounts s) \<and> (\<forall>a \<in> set (lg_accounts s). account_kept s a (f a))) \<or>
     (\<exists>aid. lg_accounts s' = filter (\<lambda>a. ga_id a \<noteq> aid) (lg_accounts s) \<and> ACCOUNT_JOURNAL_LINE_COUNT aid s = 0)"

lemma createPeriod_books:
  assumes "createPeriod i s = Inr (r, s')"
  shows "same_books s s' \<and> lg_accounts s' = lg_accounts s \<and> lg_groups s' = lg_groups s"
proof -
  from assms obtain fy u key sd ed date where "FISCAL_YEAR_BOUNDS date s = Some fy"
    "s' = PERIOD_INSERT (new_period u fy key sd ed) (s\<lparr>lg_uuid := Suc (lg_uuid s)\<rparr>)"
    by (auto simp: createPeriod_def fiscalYearForDate_def split: option.splits)
  then show ?thesis by (auto simp: PERIOD_INSERT_def same_books_def new_period_def dest: FISCAL_YEAR_BOUNDS_ok)
qed

lemma PERIOD_SET_STATUS_books: "same_books s (PERIOD_SET_STATUS p st a s)"
proof -
  have "map gp_id (lg_periods (PERIOD_SET_STATUS p st a s)) = map gp_id (lg_periods s)" by (simp add: PERIOD_SET_STATUS_def)
  then have "gp_id ` set (lg_periods s) = gp_id ` set (lg_periods (PERIOD_SET_STATUS p st a s))" by (metis list.set_map)
  moreover have "gp_fiscalYearId ` set (lg_periods (PERIOD_SET_STATUS p st a s)) \<subseteq> gp_fiscalYearId ` set (lg_periods s)"
    by (auto simp: PERIOD_SET_STATUS_def)
  ultimately show ?thesis by (auto simp: same_books_def) (simp_all add: PERIOD_SET_STATUS_def)
qed

lemma setPeriodStatus_books:
  assumes "setPeriodStatus p st a s = Inr (r, s')"
  shows "same_books s s' \<and> lg_accounts s' = lg_accounts s \<and> lg_groups s' = lg_groups s"
proof -
  from assms have "s' = s \<or> s' = PERIOD_SET_STATUS p st a s"
    by (auto simp: setPeriodStatus_def split: option.splits if_splits)
  moreover have "lg_accounts (PERIOD_SET_STATUS p st a s) = lg_accounts s" "lg_groups (PERIOD_SET_STATUS p st a s) = lg_groups s"
    by (simp_all add: PERIOD_SET_STATUS_def)
  ultimately show ?thesis using PERIOD_SET_STATUS_books by auto
qed

lemma find_parent_state: "find_parent p s = Inr (g, s') \<Longrightarrow> s' = s \<and> (\<forall>pid. p = Some pid \<longrightarrow> ACCOUNT_GROUP_BY_ID pid s = g \<and> g \<noteq> None)"
  by (auto simp: find_parent_def split: option.splits intro: sym)

lemma createAccountGroup_books: "createAccountGroup i s = Inr (r, s') \<Longrightarrow> same_books s s' \<and> lg_accounts s' = lg_accounts s"
  by (auto simp: createAccountGroup_def ACCOUNT_GROUP_INSERT_def same_books_def Let_def dest!: find_parent_state)

lemma assertGroupMove_state: "assertGroupMoveDoesNotCycle g p s = Inr (r, s') \<Longrightarrow> s' = s"
  by (simp add: assertGroupMoveDoesNotCycle_def)

lemma move_group_books: "move_group g p s = Inr (r, s') \<Longrightarrow> same_books s s' \<and> lg_accounts s' = lg_accounts s"
  by (auto simp: move_group_def ACCOUNT_GROUP_SET_PARENT_def same_books_def Let_def
      dest!: find_parent_state assertGroupMove_state split: option.splits)

lemma ACCOUNT_GROUP_UPDATE_books: "same_books s s1 \<Longrightarrow> same_books s (ACCOUNT_GROUP_UPDATE g nm so s1)"
  by (simp add: ACCOUNT_GROUP_UPDATE_def same_books_def)

lemma updateAccountGroup_books:
  assumes "updateAccountGroup g i s = Inr (r, s')"
  shows "same_books s s' \<and> lg_accounts s' = lg_accounts s"
proof -
  from assms obtain s1 e p nm so where "s1 = s \<or> (\<exists>r. move_group e p s = Inr (r, s1))" "s' = ACCOUNT_GROUP_UPDATE g nm so s1"
    by (auto simp: updateAccountGroup_def Let_def split: option.splits if_splits) blast+
  moreover have "lg_accounts (ACCOUNT_GROUP_UPDATE g nm so s1) = lg_accounts s1" by (simp add: ACCOUNT_GROUP_UPDATE_def)
  ultimately show ?thesis using move_group_books ACCOUNT_GROUP_UPDATE_books by (metis same_books_refl)
qed

lemma deleteAccountGroup_books: "deleteAccountGroup g s = Inr (r, s') \<Longrightarrow> same_books s s' \<and> lg_accounts s' = lg_accounts s"
  by (auto simp: deleteAccountGroup_def ACCOUNT_GROUP_DELETE_def same_books_def split: option.splits)

lemma createAccount_books: "createAccount i s = Inr (r, s') \<Longrightarrow> same_books s s' \<and> accounts_change s s' \<and> lg_groups s' = lg_groups s"
  by (auto simp: createAccount_def ACCOUNT_INSERT_def same_books_def accounts_change_def Let_def uid_def)

lemma updated_role_state: "updated_role a i s = Inr (r, s') \<Longrightarrow> s' = s"
  by (auto simp: updated_role_def split: option.splits if_splits)

lemma updated_group_state:
  "updated_group a i s = Inr (r, s') \<Longrightarrow>
   s' = s \<and> (\<forall>g. r = Some g \<longrightarrow> g \<noteq> ga_groupId a \<longrightarrow> ACCOUNT_JOURNAL_LINE_COUNT (ga_id a) s = 0)"
  by (auto simp: updated_group_def Let_def split: if_splits)

lemma ACCOUNT_BY_ID_unique:
  assumes "ACCOUNT_BY_ID aid s = Some e" and "distinct (map ga_id (lg_accounts s))"
  shows "a \<in> set (lg_accounts s) \<Longrightarrow> ga_id a = aid \<longleftrightarrow> a = e" and "e \<in> set (lg_accounts s)" and "ga_id e = aid"
proof -
  from assms(1) show e: "e \<in> set (lg_accounts s)" "ga_id e = aid" by (auto simp: ACCOUNT_BY_ID_def find_Some_iff)
  with assms(2) show "a \<in> set (lg_accounts s) \<Longrightarrow> ga_id a = aid \<longleftrightarrow> a = e"
    by (auto simp: distinct_map dest: inj_onD)
qed

lemma updateAccount_books:
  assumes up: "updateAccount aid i s = Inr (r, s')" and d: "distinct (map ga_id (lg_accounts s))"
  shows "same_books s s' \<and> accounts_change s s' \<and> lg_groups s' = lg_groups s"
proof -
  from up obtain e gid nm descr role active kind bank profile where e: "ACCOUNT_BY_ID aid s = Some e"
    and gid: "\<forall>g. gid = Some g \<longrightarrow> g \<noteq> ga_groupId e \<longrightarrow> ACCOUNT_JOURNAL_LINE_COUNT (ga_id e) s = 0"
    and s': "s' = ACCOUNT_UPDATE aid nm descr role active gid kind bank profile s"
    by (auto simp: updateAccount_def Let_def dest!: updated_role_state updated_group_state split: option.splits)
  note u = ACCOUNT_BY_ID_unique [OF e d]
  let ?f = "\<lambda>a. if ga_id a = aid then updated_account nm descr role active gid kind bank profile a else a"
  have "lg_accounts s' = map ?f (lg_accounts s)" by (simp add: s' ACCOUNT_UPDATE_def)
  moreover have "account_kept s a (?f a)" if "a \<in> set (lg_accounts s)" for a
    using gid u(1) [OF that] by (auto simp: account_kept_def updated_account_def split: option.splits)
  ultimately have "accounts_change s s'" unfolding accounts_change_def by blast
  then show ?thesis by (simp add: s' ACCOUNT_UPDATE_def same_books_def)
qed

lemma deleteAccount_books: "deleteAccount aid s = Inr (r, s') \<Longrightarrow> same_books s s' \<and> accounts_change s s' \<and> lg_groups s' = lg_groups s"
  by (auto simp: deleteAccount_def ACCOUNT_DELETE_def same_books_def accounts_change_def split: option.splits)


section \<open>Every operation keeps the invariant\<close>

lemma is_control_iff: "is_control s aid \<longleftrightarrow> (\<exists>a \<in> set (lg_accounts s). ga_id a = aid \<and> ga_isControl a)"
  by (auto simp: is_control_def list_ex_iff)

lemma accounts_change_accounts_inv:
  assumes ch: "accounts_change s s'" and u: "lg_uuid s \<le> lg_uuid s'" and inv: "accounts_inv s"
  shows "accounts_inv s'"
proof -
  have d: "distinct (map ga_id (lg_accounts s))"
    and fresh: "ga_id a \<noteq> uid ''gla-'' n" if "a \<in> set (lg_accounts s)" "lg_uuid s \<le> n" for a n
    using inv that by (auto simp: accounts_inv_def)
  have d: "distinct (map ga_id (lg_accounts s))" using inv by (simp add: accounts_inv_def)
  from ch consider (same) "lg_accounts s' = lg_accounts s"
    | (new) a n where "lg_accounts s' = lg_accounts s @ [a]" "ga_id a = uid ''gla-'' n" "lg_uuid s \<le> n" "n < lg_uuid s'"
    | (upd) f where "lg_accounts s' = map f (lg_accounts s)" "\<forall>a \<in> set (lg_accounts s). account_kept s a (f a)"
    | (del) aid where "lg_accounts s' = filter (\<lambda>a. ga_id a \<noteq> aid) (lg_accounts s)"
    unfolding accounts_change_def by blast
  then show ?thesis
  proof cases
    case same
    with inv u show ?thesis by (simp add: accounts_inv_def)
  next
    case new
    then have "ga_id a \<notin> ga_id ` set (lg_accounts s)" using fresh by (metis imageE)
    with new d u fresh show ?thesis by (auto simp: accounts_inv_def)
  next
    case upd
    then have "map ga_id (lg_accounts s') = map ga_id (lg_accounts s)" by (simp add: account_kept_def)
    with d have "distinct (map ga_id (lg_accounts s'))" by (simp only:)
    with upd u fresh show ?thesis by (auto simp: accounts_inv_def account_kept_def)
  next
    case del
    with d u fresh show ?thesis by (auto simp: accounts_inv_def distinct_map_filter)
  qed
qed

text \<open>An account with posted lines survives every step as it was classified, and no other takes its id.\<close>

lemma account_kept_refl [simp]: "account_kept s a a"
  by (simp add: account_kept_def)

lemma used_account_kept:
  assumes ch: "accounts_change s s'" and a: "a \<in> set (lg_accounts s)" and used: "ACCOUNT_JOURNAL_LINE_COUNT (ga_id a) s \<noteq> 0"
  shows "\<exists>b \<in> set (lg_accounts s'). account_kept s a b"
  using ch unfolding accounts_change_def
proof (elim disjE exE conjE)
  fix f assume "lg_accounts s' = map f (lg_accounts s)" "\<forall>a \<in> set (lg_accounts s). account_kept s a (f a)"
  with a show ?thesis by auto
next
  fix aid assume "lg_accounts s' = filter (\<lambda>a. ga_id a \<noteq> aid) (lg_accounts s)" "ACCOUNT_JOURNAL_LINE_COUNT aid s = 0"
  with a used have "a \<in> set (lg_accounts s')" by auto
  then show ?thesis by (intro bexI [of _ a]) simp_all
qed (use a in \<open>auto intro: bexI [of _ a]\<close>)

lemma account_origin:
  assumes ch: "accounts_change s s'" and b: "b \<in> set (lg_accounts s')"
  shows "(\<exists>a \<in> set (lg_accounts s). account_kept s a b) \<or> (\<exists>n \<ge> lg_uuid s. ga_id b = uid ''gla-'' n)"
  using ch unfolding accounts_change_def
proof (elim disjE exE conjE)
  fix f assume "lg_accounts s' = map f (lg_accounts s)" "\<forall>a \<in> set (lg_accounts s). account_kept s a (f a)"
  with b show ?thesis by auto
qed (use b in \<open>auto intro: bexI [of _ b]\<close>)

lemma accounts_change_lines:
  assumes ch: "accounts_change s s'" and inv: "accounts_inv s" "lines_inv s" and l: "l \<in> set (lg_lines s)"
  shows "gl_accountId l \<in> ga_id ` set (lg_accounts s')" and "is_control s' (gl_accountId l) = is_control s (gl_accountId l)"
proof -
  from inv(2) l obtain a where a: "a \<in> set (lg_accounts s)" "ga_id a = gl_accountId l"
    by (auto simp: lines_inv_def)
  have "ACCOUNT_JOURNAL_LINE_COUNT (ga_id a) s \<noteq> 0"
    using l a(2) by (auto simp: ACCOUNT_JOURNAL_LINE_COUNT_def filter_empty_conv)
  with ch a(1) obtain b where b: "b \<in> set (lg_accounts s')" "account_kept s a b"
    using used_account_kept by blast
  with a(2) show "gl_accountId l \<in> ga_id ` set (lg_accounts s')" by (auto simp: account_kept_def image_iff intro: bexI [of _ b])
  have fresh: "uid ''gla-'' n \<noteq> gl_accountId l" if "lg_uuid s \<le> n" for n
    using inv(1) a that unfolding accounts_inv_def by metis
  show "is_control s' (gl_accountId l) = is_control s (gl_accountId l)"
  proof
    assume "is_control s' (gl_accountId l)"
    then obtain c where c: "c \<in> set (lg_accounts s')" "ga_id c = gl_accountId l" "ga_isControl c"
      by (auto simp: is_control_iff)
    with account_origin [OF ch c(1)] fresh obtain c' where "c' \<in> set (lg_accounts s)" "account_kept s c' c" by metis
    with c show "is_control s (gl_accountId l)" by (auto simp: is_control_iff account_kept_def intro: bexI [of _ c'])
  next
    assume "is_control s (gl_accountId l)"
    then obtain c where "c \<in> set (lg_accounts s)" "ga_id c = gl_accountId l" "ga_isControl c" by (auto simp: is_control_iff)
    moreover with a inv(1) have "c = a" unfolding accounts_inv_def distinct_map by (metis inj_onD)
    ultimately show "is_control s' (gl_accountId l)" using b a(2) by (auto simp: is_control_iff account_kept_def intro: bexI [of _ b])
  qed
qed

lemma chart_inv:
  assumes same: "same_books s s'" and ch: "accounts_change s s'" and inv: "ledger_inv s"
  shows "ledger_inv s'"
proof -
  from same have eq: "lg_journals s' = lg_journals s" "lg_lines s' = lg_lines s" "lg_subledger s' = lg_subledger s"
    and u: "lg_uuid s \<le> lg_uuid s'" by (simp_all add: same_books_def)
  from inv have a: "accounts_inv s" and l: "lines_inv s" and j: "journals_inv s" and m: "mirror_inv s"
    by (simp_all add: ledger_inv_def)
  note lines = accounts_change_lines [OF ch a l]
  have "lines_inv s'" using l u lines(1) unfolding lines_inv_def eq by (meson order_less_le_trans)
  moreover have "journals_inv s'"
    using j u unfolding journals_inv_def balanced_def JOURNAL_LINES_def eq by (meson order_less_le_trans)
  moreover have "mirror_inv s'"
  proof -
    have "filter (\<lambda>l. is_control s' (gl_accountId l)) (lg_lines s) = filter (\<lambda>l. is_control s (gl_accountId l)) (lg_lines s)"
      using lines(2) by (rule filter_cong [OF refl])
    with m show ?thesis by (simp add: mirror_inv_def eq)
  qed
  ultimately show ?thesis using accounts_change_accounts_inv [OF ch u a] by (simp add: ledger_inv_def)
qed

lemma accounts_change_same [simp]: "lg_accounts s' = lg_accounts s \<Longrightarrow> accounts_change s s'"
  by (simp add: accounts_change_def)

end
