(* ===== verification/LedgerGroups.thy ===== *)
theory LedgerGroups
  imports LedgerReach
begin

text \<open>
  The tree of account groups: ids are unique, every parent exists, no group is its own
  ancestor, and a sub-group has the accounting nature of its parent -- so one branch of the
  chart reports in one section of the statements. Every operation on groups keeps this.
\<close>

definition parent_rel :: "ledger \<Rightarrow> (string \<times> string) set" where
  "parent_rel s = {(gg_id g, p) | g p. g \<in> set (lg_groups s) \<and> gg_parentId g = Some p}"

definition same_nature :: "gl_group \<Rightarrow> gl_group \<Rightarrow> bool" where
  "same_nature g p \<longleftrightarrow> gg_accountType g = gg_accountType p \<and> gg_statementGroup g = gg_statementGroup p \<and>
     gg_normalBalance g = gg_normalBalance p"

definition groups_inv :: "ledger \<Rightarrow> bool" where
  "groups_inv s \<longleftrightarrow>
     distinct (map gg_id (lg_groups s)) \<and> acyclic (parent_rel s) \<and>
     (\<forall>g \<in> set (lg_groups s). gg_parentId g \<noteq> Some [] \<and>
        (\<forall>p. gg_parentId g = Some p \<longrightarrow> (\<exists>h \<in> set (lg_groups s). gg_id h = p \<and> same_nature g h)) \<and>
        (\<forall>n \<ge> lg_uuid s. gg_id g \<noteq> uid ''glg-'' n))"

lemma GROUP_BY_ID_Some: "ACCOUNT_GROUP_BY_ID x s = Some g \<Longrightarrow> g \<in> set (lg_groups s) \<and> gg_id g = x"
  by (auto simp: ACCOUNT_GROUP_BY_ID_def find_Some_iff)

lemma childless: "ACCOUNT_GROUP_CHILD_COUNT x s = 0 \<longleftrightarrow> (\<forall>g \<in> set (lg_groups s). gg_parentId g \<noteq> Some x)"
  by (auto simp: ACCOUNT_GROUP_CHILD_COUNT_def filter_empty_conv)

text \<open>An edge from a group nobody points at closes no cycle.\<close>

lemma acyclic_insert_source:
  assumes "acyclic r" and "x \<noteq> p" and "x \<notin> Range r"
  shows "acyclic (insert (x, p) r)"
  using assms by (auto simp: acyclic_insert elim: rtranclE)

lemma groups_inv_frame:
  "groups_inv s \<Longrightarrow> lg_groups s' = lg_groups s \<Longrightarrow> lg_uuid s \<le> lg_uuid s' \<Longrightarrow> groups_inv s'"
  by (auto simp: groups_inv_def parent_rel_def)

lemma insert_group_inv:
  assumes inv: "groups_inv s" and u: "lg_uuid s \<le> n" "n < lg_uuid s'"
    and s': "lg_groups s' = lg_groups s @ [g]" and gid: "gg_id g = uid ''glg-'' n" and nb: "gg_parentId g \<noteq> Some []"
    and parent: "\<forall>p. gg_parentId g = Some p \<longrightarrow> (\<exists>h \<in> set (lg_groups s). gg_id h = p \<and> same_nature g h)"
  shows "groups_inv s'"
proof -
  have fresh: "gg_id g \<noteq> gg_id h" if "h \<in> set (lg_groups s)" for h
    using inv u that gid unfolding groups_inv_def by metis
  have "acyclic (parent_rel s')"
  proof (cases "gg_parentId g")
    case None
    then have "parent_rel s' = parent_rel s" by (auto simp: parent_rel_def s')
    with inv show ?thesis by (simp add: groups_inv_def)
  next
    case (Some p)
    then have "parent_rel s' = insert (gg_id g, p) (parent_rel s)" by (auto simp: parent_rel_def s')
    moreover have "gg_id g \<noteq> p" using Some parent fresh by metis
    moreover have "gg_id g \<notin> Range (parent_rel s)"
      using inv fresh unfolding groups_inv_def parent_rel_def by (auto simp: Range_iff) metis
    moreover have "acyclic (parent_rel s)" using inv by (simp add: groups_inv_def)
    ultimately show ?thesis by (metis acyclic_insert_source)
  qed
  moreover have "distinct (map gg_id (lg_groups s'))"
    using inv fresh by (auto simp: groups_inv_def s' image_iff)
  ultimately show ?thesis
    using inv parent nb u gid unfolding groups_inv_def s' by (auto simp: same_nature_def)
qed

lemma createAccountGroup_effect:
  assumes "createAccountGroup i s = Inr (r, s')"
  obtains parent ty sg nb code nm so where
    "\<forall>p. text_null (jget i ''parentId'') 50 = Some p \<longrightarrow> ACCOUNT_GROUP_BY_ID p s = parent \<and> parent \<noteq> None"
    "group_nature parent i = Inr (ty, sg, nb)"
    "s' = s\<lparr>lg_uuid := Suc (lg_uuid s), lg_groups := lg_groups s @ [\<lparr>gg_id = uid ''glg-'' (lg_uuid s),
        gg_parentId = text_null (jget i ''parentId'') 50, gg_code = code, gg_name = nm, gg_accountType = ty,
        gg_statementGroup = sg, gg_normalBalance = nb, gg_sortOrder = so\<rparr>]\<rparr>"
proof -
  from assms show ?thesis
    unfolding createAccountGroup_def ACCOUNT_GROUP_INSERT_def Let_def
    by (clarsimp dest!: find_parent_state; intro that) (auto simp: uid_def)
qed

lemma createAccountGroup_inv:
  assumes run: "createAccountGroup i s = Inr (r, s')" and inv: "groups_inv s"
  shows "groups_inv s'"
proof -
  from run obtain parent ty sg nb code nm so where
    parent: "\<forall>p. text_null (jget i ''parentId'') 50 = Some p \<longrightarrow> ACCOUNT_GROUP_BY_ID p s = parent \<and> parent \<noteq> None"
    and nat: "group_nature parent i = Inr (ty, sg, nb)"
    and s': "s' = s\<lparr>lg_uuid := Suc (lg_uuid s), lg_groups := lg_groups s @ [\<lparr>gg_id = uid ''glg-'' (lg_uuid s),
        gg_parentId = text_null (jget i ''parentId'') 50, gg_code = code, gg_name = nm, gg_accountType = ty,
        gg_statementGroup = sg, gg_normalBalance = nb, gg_sortOrder = so\<rparr>]\<rparr>"
    by (rule createAccountGroup_effect)
  let ?g = "last (lg_groups s')"
  have g: "gg_parentId ?g = text_null (jget i ''parentId'') 50" "gg_accountType ?g = ty" "gg_statementGroup ?g = sg"
    "gg_normalBalance ?g = nb" by (simp_all add: s')
  show ?thesis
  proof (rule insert_group_inv [OF inv, of "lg_uuid s" s' ?g])
    show "gg_parentId ?g \<noteq> Some []" by (simp add: g text_null_def or_null_def)
    show "\<forall>p. gg_parentId ?g = Some p \<longrightarrow> (\<exists>h \<in> set (lg_groups s). gg_id h = p \<and> same_nature ?g h)"
    proof (intro allI impI)
      fix p assume "gg_parentId ?g = Some p"
      with parent obtain h where h: "parent = Some h" "ACCOUNT_GROUP_BY_ID p s = Some h" by (auto simp: g(1))
      with nat have "same_nature ?g h" unfolding same_nature_def g by (auto simp: group_nature_def)
      with GROUP_BY_ID_Some [OF h(2)] show "\<exists>h \<in> set (lg_groups s). gg_id h = p \<and> same_nature ?g h" by blast
    qed
  qed (simp_all add: s')
qed

text \<open>A label change touches neither the ids nor the edges nor the nature of a group.\<close>

lemma map_groups_inv:
  assumes inv: "groups_inv s" and s': "lg_groups s' = map f (lg_groups s)" and u: "lg_uuid s \<le> lg_uuid s'"
    and f: "\<forall>g \<in> set (lg_groups s). gg_id (f g) = gg_id g \<and> gg_parentId (f g) = gg_parentId g \<and> same_nature (f g) g"
  shows "groups_inv s'"
proof -
  have ids: "map gg_id (lg_groups s') = map gg_id (lg_groups s)" using f by (simp add: s')
  have edge: "(a, b) \<in> parent_rel t \<longleftrightarrow> (\<exists>g \<in> set (lg_groups t). gg_id g = a \<and> gg_parentId g = Some b)" for a b t
    by (auto simp: parent_rel_def)
  have "parent_rel s' = parent_rel s" using f by (simp add: set_eq_iff edge s' cong: bex_cong)
  moreover have "\<exists>h \<in> set (lg_groups s'). gg_id h = p \<and> same_nature (f g) h"
    if g: "g \<in> set (lg_groups s)" and p: "gg_parentId (f g) = Some p" for g p
  proof -
    from inv g p f obtain h where h: "h \<in> set (lg_groups s)" "gg_id h = p" "same_nature g h"
      unfolding groups_inv_def by metis
    with f g show ?thesis by (intro bexI [of _ "f h"]) (auto simp: s' same_nature_def)
  qed
  moreover have "distinct (map gg_id (lg_groups s'))" using inv by (simp only: ids groups_inv_def)
  moreover have "gg_parentId (f g) \<noteq> Some [] \<and> (\<forall>n \<ge> lg_uuid s'. gg_id (f g) \<noteq> uid ''glg-'' n)"
    if "g \<in> set (lg_groups s)" for g
    using inv f u that unfolding groups_inv_def by (metis order_trans)
  ultimately show ?thesis using inv unfolding groups_inv_def by (simp add: s')
qed

lemma relabel_inv: "groups_inv s \<Longrightarrow> groups_inv (ACCOUNT_GROUP_UPDATE x nm so s)"
  by (rule map_groups_inv [where s = s and f = "\<lambda>g. if gg_id g = x
       then g\<lparr>gg_name := (case nm of None \<Rightarrow> gg_name g | Some n \<Rightarrow> n),
              gg_sortOrder := (case so of None \<Rightarrow> gg_sortOrder g | Some n \<Rightarrow> n)\<rparr> else g"])
    (auto simp: ACCOUNT_GROUP_UPDATE_def same_nature_def)

lemma set_parent_inv:
  assumes inv: "groups_inv s" and e: "e \<in> set (lg_groups s)" and ne: "p \<noteq> Some (gg_id e)" "p \<noteq> Some []"
    and childless: "\<forall>g \<in> set (lg_groups s). gg_parentId g \<noteq> Some (gg_id e)"
    and nature: "case p of None \<Rightarrow> n = e | Some x \<Rightarrow> n \<in> set (lg_groups s) \<and> gg_id n = x"
  shows "groups_inv (ACCOUNT_GROUP_SET_PARENT (gg_id e) p (gg_accountType n) (gg_statementGroup n) (gg_normalBalance n) s)"
    (is "groups_inv ?s")
proof -
  let ?f = "\<lambda>g. if gg_id g = gg_id e then g\<lparr>gg_parentId := p, gg_accountType := gg_accountType n,
      gg_statementGroup := gg_statementGroup n, gg_normalBalance := gg_normalBalance n\<rparr> else g"
  have gs: "lg_groups ?s = map ?f (lg_groups s)" by (simp add: ACCOUNT_GROUP_SET_PARENT_def)
  have u: "lg_uuid ?s = lg_uuid s" by (simp add: ACCOUNT_GROUP_SET_PARENT_def)
  have ids: "map gg_id (lg_groups ?s) = map gg_id (lg_groups s)" by (simp add: gs)
  have sub: "parent_rel ?s \<subseteq> (case p of None \<Rightarrow> parent_rel s | Some x \<Rightarrow> insert (gg_id e, x) (parent_rel s))"
    by (auto simp: parent_rel_def gs split: if_splits option.splits)
  have acyc: "acyclic (case p of None \<Rightarrow> parent_rel s | Some x \<Rightarrow> insert (gg_id e, x) (parent_rel s))"
  proof (cases p)
    case None
    with inv show ?thesis by (simp add: groups_inv_def)
  next
    case (Some x)
    have "gg_id e \<notin> Range (parent_rel s)" using childless by (auto simp: parent_rel_def)
    moreover have "acyclic (parent_rel s)" using inv by (simp add: groups_inv_def)
    ultimately show ?thesis using Some ne(1) by (metis acyclic_insert_source option.simps(5))
  qed
  have one: "gg_id g = gg_id e \<longleftrightarrow> g = e" if "g \<in> set (lg_groups s)" for g
    using inv e that unfolding groups_inv_def distinct_map by (metis inj_onD)
  have par: "\<exists>h \<in> set (lg_groups ?s). gg_id h = q \<and> same_nature (?f g) h"
    if g: "g \<in> set (lg_groups s)" and q: "gg_parentId (?f g) = Some q" for g q
  proof (cases "g = e")
    case True
    with q nature ne have "n \<in> set (lg_groups s)" "gg_id n = q" "n \<noteq> e" by auto
    then show ?thesis using True one by (intro bexI [of _ n]) (auto simp: gs same_nature_def image_iff intro!: bexI [of _ n])
  next
    case False
    with q one [OF g] have "gg_parentId g = Some q" by simp
    with inv g obtain h where h: "h \<in> set (lg_groups s)" "gg_id h = q" "same_nature g h" unfolding groups_inv_def by blast
    with childless g \<open>gg_parentId g = Some q\<close> have "h \<noteq> e" by auto
    with h False one g show ?thesis by (intro bexI [of _ h]) (auto simp: gs image_iff intro!: bexI [of _ h])
  qed
  show ?thesis
    unfolding groups_inv_def
  proof (intro conjI ballI)
    show "distinct (map gg_id (lg_groups ?s))" using inv unfolding ids groups_inv_def by blast
    show "acyclic (parent_rel ?s)" using acyc sub by (rule acyclic_subset)
    fix g assume "g \<in> set (lg_groups ?s)"
    then obtain g0 where g0: "g0 \<in> set (lg_groups s)" "g = ?f g0" by (auto simp: gs)
    show "gg_parentId g \<noteq> Some []" using inv g0 ne by (auto simp: groups_inv_def)
    show "\<forall>p. gg_parentId g = Some p \<longrightarrow> (\<exists>h \<in> set (lg_groups ?s). gg_id h = p \<and> same_nature g h)"
      using par g0 by blast
    show "\<forall>n \<ge> lg_uuid ?s. gg_id g \<noteq> uid ''glg-'' n" using inv g0 by (auto simp: groups_inv_def u)
  qed
qed

lemma move_group_inv:
  assumes run: "move_group e p s = Inr (r, s')" and inv: "groups_inv s" and e: "e \<in> set (lg_groups s)" and p: "p \<noteq> Some []"
  shows "groups_inv s'"
proof -
  from run obtain q where "p \<noteq> Some (gg_id e)" "ACCOUNT_GROUP_CHILD_COUNT (gg_id e) s = 0"
    and q: "\<forall>x. p = Some x \<longrightarrow> ACCOUNT_GROUP_BY_ID x s = q \<and> q \<noteq> None" "p = None \<longrightarrow> q = None"
    and s': "s' = ACCOUNT_GROUP_SET_PARENT (gg_id e) p (gg_accountType (case q of Some h \<Rightarrow> h | None \<Rightarrow> e))
       (gg_statementGroup (case q of Some h \<Rightarrow> h | None \<Rightarrow> e)) (gg_normalBalance (case q of Some h \<Rightarrow> h | None \<Rightarrow> e)) s"
    by (fastforce simp: move_group_def find_parent_def Let_def split: option.splits dest!: assertGroupMove_state)
  then show ?thesis unfolding s' childless
    by (intro set_parent_inv [OF inv e _ p]) (auto split: option.splits dest: GROUP_BY_ID_Some)
qed

lemma updateAccountGroup_inv:
  assumes run: "updateAccountGroup x i s = Inr (r, s')" and inv: "groups_inv s"
  shows "groups_inv s'"
proof -
  from run obtain e s1 nm so where e: "ACCOUNT_GROUP_BY_ID x s = Some e"
    and mv: "s1 = s \<or> (\<exists>r p. move_group e p s = Inr (r, s1) \<and> p \<noteq> Some [])"
    and s': "s' = ACCOUNT_GROUP_UPDATE x nm so s1"
    by (auto simp: updateAccountGroup_def Let_def text_null_def or_null_def split: option.splits if_splits) blast+
  from e have "e \<in> set (lg_groups s)" by (simp add: GROUP_BY_ID_Some)
  with mv inv move_group_inv have "groups_inv s1" by blast
  then show ?thesis unfolding s' by (rule relabel_inv)
qed

lemma deleteAccountGroup_inv:
  assumes run: "deleteAccountGroup x s = Inr (r, s')" and inv: "groups_inv s"
  shows "groups_inv s'"
proof -
  from run have cl: "\<forall>g \<in> set (lg_groups s). gg_parentId g \<noteq> Some x" and s': "s' = ACCOUNT_GROUP_DELETE x s"
    by (auto simp: deleteAccountGroup_def childless split: option.splits)
  have "parent_rel s' \<subseteq> parent_rel s" by (auto simp: parent_rel_def s' ACCOUNT_GROUP_DELETE_def)
  then have "acyclic (parent_rel s')" using inv by (auto simp: groups_inv_def intro: acyclic_subset)
  then show ?thesis using inv cl unfolding groups_inv_def s'
    by (auto simp: ACCOUNT_GROUP_DELETE_def distinct_map_filter) metis
qed

end
