(* ===== verification/LedgerRefs.thy ===== *)
theory LedgerRefs
  imports LedgerReach
begin

text \<open>
  The references between the tables, which the schema declares as foreign keys and the operations keep: a period is of a fiscal year
  that exists, a journal of a branch, a fiscal year and a period, a line of a cost centre, a subledger entry of a book. The ids of
  subledger entries are drawn once each.
\<close>

definition refs_inv :: "ledger \<Rightarrow> bool" where
  "refs_inv s \<longleftrightarrow> gp_fiscalYearId ` set (lg_periods s) \<subseteq> fy_id ` set (lg_fiscalYears s) \<and>
     (\<forall>j \<in> set (lg_journals s). gj_branchId j \<in> set (lg_branches s) \<and> gj_fiscalYearId j \<in> fy_id ` set (lg_fiscalYears s) \<and>
        gj_periodId j \<in> gp_id ` set (lg_periods s)) \<and>
     (\<forall>l \<in> set (lg_lines s). \<forall>c. gl_costCenterId l = Some c \<longrightarrow> c \<in> cc_id ` set (lg_costCenters s)) \<and>
     (\<forall>e \<in> set (lg_subledger s). gs_subledgerId e \<in> sb_id ` set (lg_books s)) \<and>
     (\<exists>ns. map gs_id (lg_subledger s) = map (uid ''gls-'') ns \<and> distinct ns \<and> (\<forall>n \<in> set ns. n < lg_uuid s))"

lemma refs_same:
  assumes "same_books s s'" and "refs_inv s"
  shows "refs_inv s'"
proof -
  have eq: "lg_journals s' = lg_journals s" "lg_lines s' = lg_lines s" "lg_subledger s' = lg_subledger s" "lg_branches s' = lg_branches s"
    "lg_fiscalYears s' = lg_fiscalYears s" "lg_costCenters s' = lg_costCenters s" "lg_books s' = lg_books s" "lg_uuid s \<le> lg_uuid s'"
    and ids: "gp_id ` set (lg_periods s) \<subseteq> gp_id ` set (lg_periods s')"
    and years: "gp_fiscalYearId ` set (lg_periods s') \<subseteq> gp_fiscalYearId ` set (lg_periods s) \<union> fy_id ` set (lg_fiscalYears s)"
    using assms(1) by (simp_all add: same_books_def)
  have "gp_fiscalYearId ` set (lg_periods s') \<subseteq> fy_id ` set (lg_fiscalYears s')"
  proof -
    have "gp_fiscalYearId ` set (lg_periods s) \<subseteq> fy_id ` set (lg_fiscalYears s)" using assms(2) by (simp only: refs_inv_def)
    with years show ?thesis unfolding eq(5) by (meson Un_least order_refl subset_trans)
  qed
  moreover have "gj_periodId j \<in> gp_id ` set (lg_periods s')" if "j \<in> set (lg_journals s')" for j
  proof -
    have "gj_periodId j \<in> gp_id ` set (lg_periods s)" using assms(2) that unfolding refs_inv_def eq(1) by metis
    with ids show ?thesis by (rule set_mp)
  qed
  moreover have "\<exists>ns. map gs_id (lg_subledger s') = map (uid ''gls-'') ns \<and> distinct ns \<and> (\<forall>n \<in> set ns. n < lg_uuid s')"
    using assms(2) eq(8) unfolding refs_inv_def eq(3) by (metis order_less_le_trans)
  ultimately show ?thesis using assms(2) unfolding refs_inv_def eq by metis
qed

section \<open>A posting\<close>

lemma journal_line_center:
  "journal_line accounts centers b n raw = Inr jl \<Longrightarrow> jl_costCenterId jl = Some c \<Longrightarrow> c \<in> cc_id ` set centers"
  by (force simp: journal_line_def check_cost_center_def Let_def find_Some_iff split: option.splits if_splits)

lemma journal_lines_center:
  "journal_lines accounts centers b n raws = Inr jls \<Longrightarrow> jl \<in> set jls \<Longrightarrow> jl_costCenterId jl = Some c \<Longrightarrow> c \<in> cc_id ` set centers"
  by (induction raws arbitrary: n jls) (auto dest: journal_line_center)

lemma pick_book_mem: "pick_book bs p = Some b \<Longrightarrow> b \<in> set bs"
  by (auto simp: pick_book_def find_Some_iff split: option.splits list.splits)

lemma SUBLEDGER_BOOKS_mem: "b \<in> set (SUBLEDGER_BOOKS_BY_ACCOUNT aid s) \<Longrightarrow> b \<in> set (lg_books s)"
  by (auto simp: SUBLEDGER_BOOKS_BY_ACCOUNT_def Let_def)

lemma insert_line_refs:
  assumes run: "insert_line (\<lambda>aid. SUBLEDGER_BOOKS_BY_ACCOUNT aid s0) jid b date jl s = Inr (u, s')"
    and r: "refs_inv s" and books: "lg_books s0 = lg_books s" and c: "\<forall>c. jl_costCenterId jl = Some c \<longrightarrow> c \<in> cc_id ` set (lg_costCenters s)"
  shows "refs_inv s' \<and> lg_books s' = lg_books s \<and> lg_costCenters s' = lg_costCenters s"
proof -
  from r obtain ns where ns: "map gs_id (lg_subledger s) = map (uid ''gls-'') ns" "distinct ns" "\<forall>n \<in> set ns. n < lg_uuid s"
    by (auto simp: refs_inv_def)
  show ?thesis
  proof (cases "ga_isControl (jl_account jl)")
    case False
    let ?l = "\<lparr>gl_id = ''gll-'' @ nat_str (lg_uuid s), gl_journalId = jid, gl_lineNo = jl_lineNo jl, gl_accountId = ga_id (jl_account jl),
      gl_costCenterId = jl_costCenterId jl, gl_branchId = b, gl_debit = jl_debit jl, gl_credit = jl_credit jl, gl_memo = jl_memo jl\<rparr>"
    from False run have "s' = s\<lparr>lg_uuid := Suc (lg_uuid s), lg_lines := lg_lines s @ [?l]\<rparr>"
      by (simp add: insert_line_def Let_def JOURNAL_LINE_INSERT_def)
    moreover have "\<exists>ns. map gs_id (lg_subledger s) = map (uid ''gls-'') ns \<and> distinct ns \<and> (\<forall>n \<in> set ns. n < Suc (lg_uuid s))"
      using ns by (intro exI [of _ ns]) auto
    ultimately show ?thesis using r c by (auto simp: refs_inv_def)
  next
    case True
    with run obtain bk where bk: "pick_book (SUBLEDGER_BOOKS_BY_ACCOUNT (ga_id (jl_account jl)) s0) (jl_partyId jl) = Some bk"
      by (auto simp: insert_line_def Let_def split: option.splits)
    define l where "l = \<lparr>gl_id = ''gll-'' @ nat_str (lg_uuid s), gl_journalId = jid, gl_lineNo = jl_lineNo jl, gl_accountId = ga_id (jl_account jl),
      gl_costCenterId = jl_costCenterId jl, gl_branchId = b, gl_debit = jl_debit jl, gl_credit = jl_credit jl, gl_memo = jl_memo jl\<rparr>"
    define e where "e = \<lparr>gs_id = ''gls-'' @ nat_str (Suc (lg_uuid s)), gs_journalId = jid, gs_lineId = gl_id l, gs_accountId = ga_id (jl_account jl),
      gs_subledgerId = sb_id bk, gs_subledgerType = jl_subledgerType jl, gs_partyId = jl_partyId jl, gs_partyName = jl_partyName jl,
      gs_branchId = b, gs_entryDateAD = date, gs_debit = jl_debit jl, gs_credit = jl_credit jl\<rparr>"
    from run True bk have s': "s' = s\<lparr>lg_uuid := Suc (Suc (lg_uuid s)), lg_lines := lg_lines s @ [l], lg_subledger := lg_subledger s @ [e]\<rparr>"
      by (simp add: insert_line_def Let_def JOURNAL_LINE_INSERT_def SUBLEDGER_INSERT_def l_def e_def)
    have le: "gl_costCenterId l = jl_costCenterId jl" "gs_subledgerId e = sb_id bk" "gs_id e = uid ''gls-'' (Suc (lg_uuid s))"
      by (simp_all add: l_def e_def uid_def)
    have "bk \<in> set (lg_books s)" using pick_book_mem [OF bk] books by (auto dest: SUBLEDGER_BOOKS_mem)
    moreover have "map gs_id (lg_subledger s') = map (uid ''gls-'') (ns @ [Suc (lg_uuid s)])" by (simp add: s' ns(1) le)
    moreover have "distinct (ns @ [Suc (lg_uuid s)])" "\<forall>n \<in> set (ns @ [Suc (lg_uuid s)]). n < lg_uuid s'" using ns(2,3) by (auto simp: s')
    ultimately have "gs_subledgerId e \<in> sb_id ` set (lg_books s)" "\<exists>ns. map gs_id (lg_subledger s') = map (uid ''gls-'') ns \<and> distinct ns \<and>
      (\<forall>n \<in> set ns. n < lg_uuid s')" using le(2) by blast+
    with r c le(1) show ?thesis by (auto simp: refs_inv_def s')
  qed
qed

lemma insert_lines_refs:
  assumes "tfor (insert_line (\<lambda>aid. SUBLEDGER_BOOKS_BY_ACCOUNT aid s0) jid b date) jls s = Inr (u, s')"
    and "refs_inv s" and "lg_books s0 = lg_books s" and "\<forall>jl \<in> set jls. \<forall>c. jl_costCenterId jl = Some c \<longrightarrow> c \<in> cc_id ` set (lg_costCenters s)"
  shows "refs_inv s'"
  using assms
proof (induction jls arbitrary: s)
  case (Cons jl jls)
  then obtain s1 where one: "insert_line (\<lambda>aid. SUBLEDGER_BOOKS_BY_ACCOUNT aid s0) jid b date jl s = Inr ((), s1)"
    and rest: "tfor (insert_line (\<lambda>aid. SUBLEDGER_BOOKS_BY_ACCOUNT aid s0) jid b date) jls s1 = Inr (u, s')" by auto
  from insert_line_refs [OF one Cons.prems(2,3)] Cons.prems(4) Cons.prems(3) show ?case by (intro Cons.IH [OF rest]) auto
qed simp

lemma refs_period:
  assumes "refs_inv s" and "fy \<in> set (lg_fiscalYears s)"
  shows "refs_inv (PERIOD_INSERT (new_period u fy key sd ed) (s\<lparr>lg_uuid := Suc (lg_uuid s)\<rparr>))" and "refs_inv (s\<lparr>lg_uuid := Suc (lg_uuid s)\<rparr>)"
proof -
  have "same_books s (PERIOD_INSERT (new_period u fy key sd ed) (s\<lparr>lg_uuid := Suc (lg_uuid s)\<rparr>))" "same_books s (s\<lparr>lg_uuid := Suc (lg_uuid s)\<rparr>)"
    using assms(2) by (auto simp: same_books_def PERIOD_INSERT_def new_period_def)
  with assms(1) show "refs_inv (PERIOD_INSERT (new_period u fy key sd ed) (s\<lparr>lg_uuid := Suc (lg_uuid s)\<rparr>))" and "refs_inv (s\<lparr>lg_uuid := Suc (lg_uuid s)\<rparr>)"
    by (blast intro: refs_same)+
qed

lemma ensureOpenPeriod_refs:
  assumes run: "ensureOpenPeriod date s = Inr (p, s1)" and r: "refs_inv s"
  shows "refs_inv s1 \<and> p \<in> set (lg_periods s1) \<and> gp_fiscalYearId p \<in> fy_id ` set (lg_fiscalYears s1) \<and> lg_books s1 = lg_books s \<and>
    lg_costCenters s1 = lg_costCenters s \<and> lg_branches s1 = lg_branches s \<and> lg_fiscalYears s1 = lg_fiscalYears s"
proof -
  from run obtain fy where fy: "FISCAL_YEAR_BOUNDS date s = Some fy"
    by (auto simp: ensureOpenPeriod_def fiscalYearForDate_def split: option.splits)
  with run have "s1 = s \<or> s1 = s\<lparr>lg_uuid := Suc (lg_uuid s)\<rparr> \<or>
      (\<exists>u key sd ed. s1 = PERIOD_INSERT (new_period u fy key sd ed) (s\<lparr>lg_uuid := Suc (lg_uuid s)\<rparr>))"
    by (auto simp: ensureOpenPeriod_def fiscalYearForDate_def PERIOD_INSERT_IF_MISSING_def split: option.splits if_splits)
  with r FISCAL_YEAR_BOUNDS_ok [OF fy] have "refs_inv s1" by (auto intro: refs_period)
  moreover from ensureOpenPeriod_ok [OF run] have "p \<in> set (lg_periods s1)" "gp_fiscalYearId p \<in> fy_id ` set (lg_fiscalYears s)"
    "period_effect s s1" by auto
  moreover from this(3) obtain ps v where "s1 = s\<lparr>lg_periods := lg_periods s @ ps, lg_uuid := v\<rparr>" by (auto simp: period_effect_def)
  ultimately show ?thesis by simp
qed

lemma postJournal_refs:
  assumes "postJournal input s = Inr (r, s')" and "refs_inv s"
  shows "refs_inv s'"
proof -
  let ?raws = "arr_or_empty (jget input ''lines'')"
  from assms(1) obtain date b accounts centers jls p s1 j where
    st: "BRANCH_EXISTS b s" "centers = COST_CENTERS_BY_IDS (text_ids ?raws ''costCenterId'') s"
    "journal_lines accounts centers b 1 ?raws = Inr jls" "ensureOpenPeriod date s = Inr (p, s1)"
    "journal_header input date b p (uid ''glj-'' (lg_uuid s1)) (Suc (lg_seq s1)) = Inr j"
    and ins: "tfor (insert_line (\<lambda>aid. SUBLEDGER_BOOKS_BY_ACCOUNT aid s) (gj_id j) b date) jls
       (s1\<lparr>lg_seq := Suc (lg_seq s1), lg_uuid := Suc (lg_uuid s1), lg_journals := lg_journals s1 @ [j]\<rparr>) = Inr ((), s')"
    by (rule postJournal_stages)
  let ?s2 = "s1\<lparr>lg_seq := Suc (lg_seq s1), lg_uuid := Suc (lg_uuid s1), lg_journals := lg_journals s1 @ [j]\<rparr>"
  note p = ensureOpenPeriod_refs [OF st(4) assms(2)]
  have j: "gj_branchId j = b" "gj_periodId j = gp_id p" "gj_fiscalYearId j = gp_fiscalYearId p"
    using st(5) by (auto simp: journal_header_def Let_def)
  from p obtain ns where ns: "map gs_id (lg_subledger s1) = map (uid ''gls-'') ns" "distinct ns" "\<forall>n \<in> set ns. n < lg_uuid s1"
    by (auto simp: refs_inv_def)
  then have "\<exists>ns. map gs_id (lg_subledger ?s2) = map (uid ''gls-'') ns \<and> distinct ns \<and> (\<forall>n \<in> set ns. n < lg_uuid ?s2)"
    by (intro exI [of _ ns]) auto
  then have "refs_inv ?s2" using p j st(1) unfolding refs_inv_def by (auto simp: BRANCH_EXISTS_def)
  moreover have "\<forall>jl \<in> set jls. \<forall>c. jl_costCenterId jl = Some c \<longrightarrow> c \<in> cc_id ` set (lg_costCenters ?s2)"
    using journal_lines_center [OF st(3)] p by (fastforce simp: st(2) COST_CENTERS_BY_IDS_def)
  ultimately show ?thesis using p by (intro insert_lines_refs [OF ins]) auto
qed

section \<open>The other steps\<close>

text \<open>A change of the masters keeps every row that is referred to: the schema's keys are declared \<open>ON DELETE RESTRICT\<close>.\<close>

definition masters_referenced :: "ledger \<Rightarrow> string list \<Rightarrow> fiscal_year list \<Rightarrow> cost_center list \<Rightarrow> gl_book list \<Rightarrow> bool" where
  "masters_referenced s bs fys ccs books \<longleftrightarrow> gp_fiscalYearId ` set (lg_periods s) \<subseteq> fy_id ` set fys \<and>
     (\<forall>j \<in> set (lg_journals s). gj_branchId j \<in> set bs \<and> gj_fiscalYearId j \<in> fy_id ` set fys) \<and>
     (\<forall>l \<in> set (lg_lines s). \<forall>c. gl_costCenterId l = Some c \<longrightarrow> c \<in> cc_id ` set ccs) \<and>
     (\<forall>e \<in> set (lg_subledger s). gs_subledgerId e \<in> sb_id ` set books)"

lemma masters_refs:
  "masters_referenced s bs fys ccs books \<Longrightarrow> refs_inv s \<Longrightarrow>
    refs_inv (s\<lparr>lg_branches := bs, lg_fiscalYears := fys, lg_costCenters := ccs, lg_books := books\<rparr>)"
  by (auto simp: masters_referenced_def refs_inv_def)

lemma reassign_refs:
  assumes "bookId \<in> sb_id ` set (lg_books s)" and "refs_inv s"
  shows "refs_inv (SUBLEDGER_REASSIGN_PARTY a p bookId g s)"
proof -
  let ?s = "SUBLEDGER_REASSIGN_PARTY a p bookId g s"
  have "map gs_id (lg_subledger ?s) = map gs_id (lg_subledger s)" by (simp add: SUBLEDGER_REASSIGN_PARTY_def)
  moreover have "\<forall>e \<in> set (lg_subledger ?s). gs_subledgerId e \<in> sb_id ` set (lg_books s)"
    using assms by (auto simp: SUBLEDGER_REASSIGN_PARTY_def refs_inv_def)
  moreover have "lg_periods ?s = lg_periods s" "lg_fiscalYears ?s = lg_fiscalYears s" "lg_journals ?s = lg_journals s" "lg_branches ?s = lg_branches s"
    "lg_lines ?s = lg_lines s" "lg_costCenters ?s = lg_costCenters s" "lg_books ?s = lg_books s" "lg_uuid ?s = lg_uuid s"
    by (simp_all add: SUBLEDGER_REASSIGN_PARTY_def)
  ultimately show ?thesis using assms(2) by (simp add: refs_inv_def)
qed

end
