(* ===== verification/LedgerMachine.thy ===== *)
theory LedgerMachine
  imports LedgerGroups LedgerRefs
begin

text \<open>
  The ledger as a state machine, and what holds in every state it can reach. A step is one
  committed transaction of \<open>accounting.service.ts\<close>, the move of a party's subledger rows to its own book
  (\<open>post_generateSubledgers\<close> of \<open>subledgers.controller.ts\<close>), or a change of the masters that other services own, under
  the schema's foreign keys. A document service that reverses its own journal posts with \<open>reversalOfId\<close>
  (\<open>invoicePosting.service.ts\<close>); the manual voucher screens do not.
\<close>

section \<open>Further invariants\<close>

text \<open>Ids carry no surrounding blanks, so the service's \<open>text(id, 50)\<close> reads back what it stored; a line is of its journal's branch.\<close>

definition clean_inv :: "ledger \<Rightarrow> bool" where
  "clean_inv s \<longleftrightarrow> (\<forall>a \<in> set (lg_accounts s). trim (ga_id a) = ga_id a) \<and> (\<forall>b \<in> set (lg_branches s). trim b = b) \<and>
     (\<forall>l \<in> set (lg_lines s). text_val (JStr (gl_accountId l)) 50 = gl_accountId l) \<and>
     (\<forall>j \<in> set (lg_journals s). text_val (JStr (gj_branchId j)) 50 = gj_branchId j) \<and>
     (\<forall>l \<in> set (lg_lines s). \<forall>j \<in> set (lg_journals s). gl_journalId l = gj_id j \<longrightarrow> gl_branchId l = gj_branchId j) \<and>
     (\<forall>j \<in> set (lg_journals s). length (gj_id j) \<le> 50)"

definition manual_source :: "gl_journal \<Rightarrow> bool" where
  "manual_source j \<longleftrightarrow> to_upper (gj_sourceType j) \<in> set REVERSIBLE_MANUAL_SOURCES"

definition reversals_of :: "string \<Rightarrow> ledger \<Rightarrow> gl_journal list" where
  "reversals_of jid s = filter (\<lambda>k. gj_reversalOfId k = Some jid) (lg_journals s)"

text \<open>A reversal names a journal that exists, and a manual voucher has at most one.\<close>

definition reversal_inv :: "ledger \<Rightarrow> bool" where
  "reversal_inv s \<longleftrightarrow> (\<forall>k \<in> set (lg_journals s). \<forall>x. gj_reversalOfId k = Some x \<longrightarrow> x \<in> gj_id ` set (lg_journals s)) \<and>
     (\<forall>j \<in> set (lg_journals s). manual_source j \<longrightarrow> length (reversals_of (gj_id j) s) \<le> 1)"

definition ledger_ok :: "ledger \<Rightarrow> bool" where
  "ledger_ok s \<longleftrightarrow> ledger_inv s \<and> clean_inv s \<and> reversal_inv s \<and> groups_inv s \<and> refs_inv s"

section \<open>Steps and reachable states\<close>

definition reverses_document :: "jsval \<Rightarrow> ledger \<Rightarrow> bool" where
  "reverses_document input s \<longleftrightarrow>
     (case text_null (jget input ''reversalOfId'') 50 of None \<Rightarrow> True
      | Some x \<Rightarrow> (\<forall>j \<in> set (lg_journals s). gj_id j = x \<longrightarrow> \<not> manual_source j))"

inductive ledger_step :: "ledger \<Rightarrow> ledger \<Rightarrow> bool" where
  post: "postJournal input s = Inr (r, s') \<Longrightarrow> reverses_document input s \<Longrightarrow> ledger_step s s'"
| reverse: "reverseJournal jid input s = Inr (r, s') \<Longrightarrow> ledger_step s s'"
| create_period: "createPeriod input s = Inr (p, s') \<Longrightarrow> ledger_step s s'"
| set_period: "setPeriodStatus pid status actor s = Inr (p, s') \<Longrightarrow> ledger_step s s'"
| create_group: "createAccountGroup input s = Inr (g, s') \<Longrightarrow> ledger_step s s'"
| update_group: "updateAccountGroup gid input s = Inr (g, s') \<Longrightarrow> ledger_step s s'"
| delete_group: "deleteAccountGroup gid s = Inr (g0, s') \<Longrightarrow> ledger_step s s'"
| create_account: "createAccount input s = Inr (a, s') \<Longrightarrow> ledger_step s s'"
| update_account: "updateAccount aid input s = Inr (a, s') \<Longrightarrow> ledger_step s s'"
| delete_account: "deleteAccount aid s = Inr (a0, s') \<Longrightarrow> ledger_step s s'"
| reassign: "b \<in> set (lg_books s) \<Longrightarrow> sb_partyId b = Some p \<Longrightarrow>
    ledger_step s (SUBLEDGER_REASSIGN_PARTY (sb_accountId b) p (sb_id b) generalBook s)"
| masters: "\<forall>b \<in> set bs. trim b = b \<Longrightarrow> masters_referenced s bs fys ccs books \<Longrightarrow>
    ledger_step s (s\<lparr>lg_branches := bs, lg_fiscalYears := fys, lg_costCenters := ccs, lg_books := books\<rparr>)"

text \<open>The chart as the schema's foreign key and the service's own checks keep it: an account belongs to a group that exists, and a
group's statement group is one of its account type.\<close>

definition chart_placed :: "ledger \<Rightarrow> bool" where
  "chart_placed s \<longleftrightarrow> (\<forall>a \<in> set (lg_accounts s). ga_groupId a \<in> gg_id ` set (lg_groups s)) \<and>
     (\<forall>g \<in> set (lg_groups s). gg_accountType g \<in> set ACCOUNT_TYPES \<and>
        gg_statementGroup g \<in> set (STATEMENT_GROUPS_BY_TYPE (gg_accountType g)))"

text \<open>The books open empty, on a seeded chart of accounts.\<close>

definition ledger_init :: "ledger \<Rightarrow> bool" where
  "ledger_init s \<longleftrightarrow> lg_journals s = [] \<and> lg_lines s = [] \<and> lg_subledger s = [] \<and>
     gp_fiscalYearId ` set (lg_periods s) \<subseteq> fy_id ` set (lg_fiscalYears s) \<and>
     accounts_inv s \<and> groups_inv s \<and> chart_placed s \<and> (\<forall>a \<in> set (lg_accounts s). trim (ga_id a) = ga_id a) \<and>
     (\<forall>b \<in> set (lg_branches s). trim b = b)"

inductive ledger_reach :: "ledger \<Rightarrow> bool" where
  start: "ledger_init s \<Longrightarrow> ledger_reach s"
| step: "ledger_reach s \<Longrightarrow> ledger_step s s' \<Longrightarrow> ledger_reach s'"

inductive ledger_steps :: "ledger \<Rightarrow> ledger \<Rightarrow> bool" where
  none: "ledger_steps s s"
| more: "ledger_steps s s1 \<Longrightarrow> ledger_step s1 s2 \<Longrightarrow> ledger_steps s s2"

declare ledger_steps.none [simp]

section \<open>Chart steps\<close>

lemma trim_uid:
  assumes "\<forall>c \<in> set p. \<not> is_space c"
  shows "trim (uid p n) = uid p n"
proof (rule trim_no_space)
  show "\<forall>c \<in> set (uid p n). \<not> is_space c"
    using assms nat_str_digits digit_not_space by (auto simp: uid_def)
qed


lemma uid_gla_trim: "trim (uid ''gla-'' n) = uid ''gla-'' n"
  by (rule trim_uid) (simp add: is_space_def)

lemma chart_clean:
  assumes same: "same_books s s'" and ch: "accounts_change s s'" and c: "clean_inv s"
  shows "clean_inv s'"
proof -
  have "trim (ga_id b) = ga_id b" if b: "b \<in> set (lg_accounts s')" for b
    using account_origin [OF ch b] c uid_gla_trim by (auto simp: clean_inv_def account_kept_def)
  then show ?thesis using same c by (simp add: clean_inv_def same_books_def)
qed

lemma chart_ok:
  assumes "same_books s s'" and "accounts_change s s'" and "ledger_ok s" and "groups_inv s'"
  shows "ledger_ok s'"
  using assms chart_inv [of s s'] chart_clean [of s s'] refs_same [of s s']
  by (simp add: ledger_ok_def reversal_inv_def reversals_of_def same_books_def)

lemma chart_ok_groups:
  assumes "same_books s s' \<and> accounts_change s s' \<and> lg_groups s' = lg_groups s" and "ledger_ok s"
  shows "ledger_ok s'"
  using assms by (intro chart_ok [of s s']) (auto simp: ledger_ok_def same_books_def intro: groups_inv_frame)

section \<open>Posting steps\<close>

lemma posting_clean:
  assumes p: "posting s s' date j jls ls es" and inv: "ledger_inv s" and c: "clean_inv s" and b: "length (gj_branchId j) \<le> 50"
    and len: "length (gj_id j) \<le> 50"
  shows "clean_inv s'"
proof -
  note f = posting_fields [OF p]
  have jb: "gj_branchId j \<in> set (lg_branches s)" using p by (simp add: posting_def)
  have w: "list_all2 (written (gj_id j) (gj_branchId j)) ls jls" and ok: "\<forall>jl \<in> set jls. line_ok (lg_accounts s) jl"
    using p by (simp_all add: posting_def)
  have "text_val (JStr (gl_accountId l)) 50 = gl_accountId l" if "l \<in> set ls" for l
  proof -
    from written_sums [OF w] that obtain jl where "jl \<in> set jls" "written (gj_id j) (gj_branchId j) l jl" by blast
    with ok c show ?thesis by (intro text_val_clean) (auto simp: written_def line_ok_def clean_inv_def)
  qed
  moreover have "text_val (JStr (gj_branchId j)) 50 = gj_branchId j"
    using c b jb by (intro text_val_clean) (auto simp: clean_inv_def)
  moreover have "gl_branchId l = gj_branchId k"
    if l: "l \<in> set (lg_lines s')" and k: "k \<in> set (lg_journals s')" and e: "gl_journalId l = gj_id k" for l k
  proof (cases "l \<in> set (lg_lines s)")
    case True
    then have "gl_journalId l \<in> gj_id ` set (lg_journals s)" using inv by (auto simp: ledger_inv_def lines_inv_def)
    with e posting_fresh(1) [OF p inv] have "k \<noteq> j" by auto
    with k True e c show ?thesis by (simp add: f clean_inv_def)
  next
    case False
    with l have "l \<in> set ls" by (simp add: f)
    with written_sums [OF w] have "gl_journalId l = gj_id j" "gl_branchId l = gj_branchId j" by auto
    moreover from this e have "gj_id k = gj_id j" by simp
    with k posting_fresh(1) [OF p inv] have "k = j" unfolding f by (metis UnE empty_iff imageI list.set(1,2) set_append insertE)
    ultimately show ?thesis by simp
  qed
  ultimately show ?thesis using c len by (auto simp: clean_inv_def f)
qed

lemma journal_ids:
  assumes "ledger_inv s"
  shows "distinct (map gj_id (lg_journals s))"
proof -
  from assms obtain ms where ms: "map gj_id (lg_journals s) = map (uid ''glj-'') ms" "distinct ms"
    by (auto simp: ledger_inv_def journals_inv_def)
  then have "distinct (map (uid ''glj-'') ms)" by (simp add: distinct_map inj_on_def)
  with ms(1) show ?thesis by (simp only:)
qed

lemma posting_reversal:
  assumes p: "posting s s' date j jls ls es" and inv: "ledger_inv s" and r: "reversal_inv s"
    and target: "\<forall>x. gj_reversalOfId j = Some x \<longrightarrow> (\<exists>k \<in> set (lg_journals s). gj_id k = x \<and>
       (manual_source k \<longrightarrow> reversals_of x s = []))"
  shows "reversal_inv s'"
proof -
  note f = posting_fields [OF p]
  have rev: "reversals_of x s' = reversals_of x s @ (if gj_reversalOfId j = Some x then [j] else [])" for x
    by (simp add: reversals_of_def f)
  have self: "reversals_of (gj_id j) s' = []"
  proof -
    have "gj_reversalOfId k \<noteq> Some (gj_id j)" if "k \<in> set (lg_journals s')" for k
      using that r target posting_fresh(1) [OF p inv] unfolding reversal_inv_def f by (auto simp: image_iff) metis+
    then show ?thesis by (simp add: reversals_of_def filter_empty_conv)
  qed
  have one: "length (reversals_of (gj_id k) s') \<le> 1" if "k \<in> set (lg_journals s')" "manual_source k" for k
  proof (cases "k = j")
    case True
    with self show ?thesis by simp
  next
    case False
    with that have k: "k \<in> set (lg_journals s)" by (simp add: f)
    show ?thesis
    proof (cases "gj_reversalOfId j = Some (gj_id k)")
      case True
      with target obtain k' where k': "k' \<in> set (lg_journals s)" "gj_id k' = gj_id k"
        "manual_source k' \<longrightarrow> reversals_of (gj_id k) s = []" by blast
      from journal_ids [OF inv] k k' have "k' = k" unfolding distinct_map by (metis inj_onD)
      with k' that True show ?thesis by (simp add: rev)
    next
      case False
      with r k that show ?thesis by (simp add: rev reversal_inv_def)
    qed
  qed
  moreover have "x \<in> gj_id ` set (lg_journals s')" if "k \<in> set (lg_journals s')" "gj_reversalOfId k = Some x" for k x
    using that r target unfolding reversal_inv_def f by auto
  ultimately show ?thesis by (simp add: reversal_inv_def)
qed

lemma posting_ok:
  assumes p: "posting s s' date j jls ls es" and ok: "ledger_ok s" and b: "length (gj_branchId j) \<le> 50"
    and len: "length (gj_id j) \<le> 50" and refs: "refs_inv s'" and target: "\<forall>x. gj_reversalOfId j = Some x \<longrightarrow> (\<exists>k \<in> set (lg_journals s). gj_id k = x \<and>
       (manual_source k \<longrightarrow> reversals_of x s = []))"
  shows "ledger_ok s'"
  using ok refs posting_inv [OF p] posting_clean [OF p _ _ b len] posting_reversal [OF p _ _ target]
    groups_inv_frame [of s s'] posting_fields(5,6) [OF p] by (simp add: ledger_ok_def)

lemma post_ok:
  assumes "postJournal input s = Inr (r, s')" and "reverses_document input s" and "ledger_ok s"
  shows "ledger_ok s'"
proof -
  from assms(1) obtain date j jls ls es where p: "posting s s' date j jls ls es"
    and b: "gj_branchId j = text_val (jget input ''branchId'') 50" and rv: "gj_reversalOfId j = text_null (jget input ''reversalOfId'') 50"
    and len: "length (gj_id j) \<le> 50" and fk: "\<forall>x. gj_reversalOfId j = Some x \<longrightarrow> x \<in> gj_id ` set (lg_journals s)"
    by (rule postJournal_posting)
  show ?thesis
  proof (rule posting_ok [OF p assms(3) _ len])
    show "refs_inv s'" using postJournal_refs [OF assms(1)] assms(3) by (simp add: ledger_ok_def)
    show "length (gj_branchId j) \<le> 50" by (simp add: b text_val_length)
    show "\<forall>x. gj_reversalOfId j = Some x \<longrightarrow> (\<exists>k \<in> set (lg_journals s). gj_id k = x \<and> (manual_source k \<longrightarrow> reversals_of x s = []))"
    proof (intro allI impI)
      fix x assume x: "gj_reversalOfId j = Some x"
      with fk obtain k where k: "k \<in> set (lg_journals s)" "gj_id k = x" by blast
      with x assms(2) have "\<not> manual_source k" by (auto simp: rv reverses_document_def)
      with k show "\<exists>k \<in> set (lg_journals s). gj_id k = x \<and> (manual_source k \<longrightarrow> reversals_of x s = [])" by blast
    qed
  qed
qed


section \<open>Reversal steps\<close>

lemma no_reversal: "JOURNAL_REVERSAL_EXISTS x s = None \<longleftrightarrow> reversals_of x s = []"
  by (auto simp: JOURNAL_REVERSAL_EXISTS_def reversals_of_def find_None_iff filter_empty_conv)

lemma reverseJournal_effect:
  assumes "reverseJournal journalId input s = Inr (r, s')"
  obtains original date reason where
    "JOURNAL_LOCK_BY_ID (text_val journalId 50) s = Some original" "manual_source original"
    "gj_status original = ''POSTED''" "reversals_of (text_val journalId 50) s = []" "opt_or_null (gj_reversalOfId original) = None"
    "text_val journalId 50 \<noteq> []"
    "postJournal (contra_journal original (JOURNAL_LINES (text_val journalId 50) s) (JOURNAL_SUBLEDGER (text_val journalId 50) s)
       date reason (jget input ''actor'')) s = Inr (r, s')"
proof -
  from assms show ?thesis
    unfolding reverseJournal_def Let_def
    by (clarsimp split: option.splits simp: no_reversal) (rule that, auto simp: manual_source_def)
qed

lemma contra_fields [simp]:
  "jget (contra_journal j ls es d rs a) ''reversalOfId'' = JStr (gj_id j)"
  "jget (contra_journal j ls es d rs a) ''branchId'' = JStr (gj_branchId j)"
  "jget (contra_journal j ls es d rs a) ''lines'' = JArr (map (contra_line (gj_journalNo j) es) ls)"
  "jget (contra_journal j ls es d rs a) ''journalDateAD'' = JStr d"
  by (simp_all add: contra_journal_def Let_def)

lemma contra_line_fields [simp]:
  "jget (contra_line n es l) ''accountId'' = JStr (gl_accountId l)"
  "jget (contra_line n es l) ''debit'' = JNum (Fin (gl_credit l))"
  "jget (contra_line n es l) ''credit'' = JNum (Fin (gl_debit l))"
  by (simp_all add: contra_line_def)

lemma LOCK_BY_ID: "JOURNAL_LOCK_BY_ID x s = Some j \<Longrightarrow> j \<in> set (lg_journals s) \<and> gj_id j = x"
  by (auto simp: JOURNAL_LOCK_BY_ID_def find_Some_iff)

lemma journal_id_text:
  assumes "ledger_inv s" and "j \<in> set (lg_journals s)" and "length (gj_id j) \<le> 50" and "gj_id j \<noteq> []"
  shows "text_null (JStr (gj_id j)) 50 = Some (gj_id j)"
proof -
  from assms(1,2) obtain m where m: "gj_id j = uid ''glj-'' m"
    unfolding ledger_inv_def journals_inv_def by (metis (no_types, lifting) image_iff list.set_map)
  have "trim (gj_id j) = gj_id j" unfolding m by (rule trim_uid) (simp add: is_space_def)
  then show ?thesis using assms(3,4) by (simp add: text_null_def text_val_clean)
qed

lemma reverse_ok:
  assumes run: "reverseJournal journalId input s = Inr (r, s')" and ok: "ledger_ok s"
  shows "ledger_ok s'"
proof -
  from run obtain original date reason where
    o: "JOURNAL_LOCK_BY_ID (text_val journalId 50) s = Some original" and none: "reversals_of (text_val journalId 50) s = []"
    and ne: "text_val journalId 50 \<noteq> []"
    and post: "postJournal (contra_journal original (JOURNAL_LINES (text_val journalId 50) s)
       (JOURNAL_SUBLEDGER (text_val journalId 50) s) date reason (jget input ''actor'')) s = Inr (r, s')"
    by (rule reverseJournal_effect)
  note o' = LOCK_BY_ID [OF o]
  have id: "text_null (JStr (gj_id original)) 50 = Some (gj_id original)"
    using ok o' ne text_val_length [of journalId 50] by (intro journal_id_text) (auto simp: ledger_ok_def)
  from post obtain date j jls ls es where p: "posting s s' date j jls ls es"
    and b: "gj_branchId j = text_val (JStr (gj_branchId original)) 50" and rv: "gj_reversalOfId j = Some (gj_id original)"
    and len: "length (gj_id j) \<le> 50"
    by (rule postJournal_posting) (simp add: id)
  show ?thesis
  proof (rule posting_ok [OF p ok _ len])
    show "refs_inv s'" using postJournal_refs [OF post] ok by (simp add: ledger_ok_def)
    show "length (gj_branchId j) \<le> 50" by (simp only: b text_val_length)
    show "\<forall>x. gj_reversalOfId j = Some x \<longrightarrow> (\<exists>k \<in> set (lg_journals s). gj_id k = x \<and> (manual_source k \<longrightarrow> reversals_of x s = []))"
      using o' none unfolding rv by auto
  qed
qed

section \<open>Every reachable state\<close>

text \<open>What a subledger entry says beside the book it sits on.\<close>

definition entry_facts :: "gl_subentry \<Rightarrow> gl_subentry" where
  "entry_facts e = e\<lparr>gs_subledgerId := []\<rparr>"

lemma reassign_facts: "map entry_facts (lg_subledger (SUBLEDGER_REASSIGN_PARTY a p b g s)) = map entry_facts (lg_subledger s)"
  by (simp add: SUBLEDGER_REASSIGN_PARTY_def entry_facts_def)

lemma reassign_frame [simp]:
  "lg_journals (SUBLEDGER_REASSIGN_PARTY a p b g s) = lg_journals s" "lg_lines (SUBLEDGER_REASSIGN_PARTY a p b g s) = lg_lines s"
  "lg_accounts (SUBLEDGER_REASSIGN_PARTY a p b g s) = lg_accounts s" "lg_groups (SUBLEDGER_REASSIGN_PARTY a p b g s) = lg_groups s"
  "lg_branches (SUBLEDGER_REASSIGN_PARTY a p b g s) = lg_branches s" "lg_uuid (SUBLEDGER_REASSIGN_PARTY a p b g s) = lg_uuid s"
  by (simp_all add: SUBLEDGER_REASSIGN_PARTY_def)

lemma sub_key_facts: "sub_key (entry_facts e) = sub_key e"
  by (simp add: sub_key_def entry_facts_def)

lemma reassign_ok:
  assumes "b \<in> sb_id ` set (lg_books s)" and ok: "ledger_ok s"
  shows "ledger_ok (SUBLEDGER_REASSIGN_PARTY a p b g s)"
proof -
  have "map (sub_key \<circ> entry_facts) (lg_subledger (SUBLEDGER_REASSIGN_PARTY a p b g s)) = map (sub_key \<circ> entry_facts) (lg_subledger s)"
    using reassign_facts by (metis map_map)
  then have "map sub_key (lg_subledger (SUBLEDGER_REASSIGN_PARTY a p b g s)) = map sub_key (lg_subledger s)"
    by (simp only: o_def sub_key_facts)
  then have "ledger_inv (SUBLEDGER_REASSIGN_PARTY a p b g s)" using ok
    by (simp add: ledger_ok_def ledger_inv_def accounts_inv_def lines_inv_def journals_inv_def mirror_inv_def balanced_def JOURNAL_LINES_def
        is_control_def)
  moreover have "groups_inv (SUBLEDGER_REASSIGN_PARTY a p b g s)" using ok by (auto simp: ledger_ok_def intro: groups_inv_frame)
  ultimately show ?thesis using ok reassign_refs [OF assms(1)]
    by (simp add: ledger_ok_def clean_inv_def reversal_inv_def reversals_of_def)
qed

lemma step_ok: "ledger_step s s' \<Longrightarrow> ledger_ok s \<Longrightarrow> ledger_ok s'"
proof (induction rule: ledger_step.induct)
  case (create_group input s g s')
  then show ?case using createAccountGroup_books createAccountGroup_inv
    by (metis accounts_change_same chart_ok ledger_ok_def)
next
  case (update_group gid input s g s')
  then show ?case using updateAccountGroup_books updateAccountGroup_inv
    by (metis accounts_change_same chart_ok ledger_ok_def)
next
  case (delete_group gid s g s')
  then show ?case using deleteAccountGroup_books deleteAccountGroup_inv
    by (metis accounts_change_same chart_ok ledger_ok_def)
next
  case (update_account aid input s a s')
  then have "distinct (map ga_id (lg_accounts s))" by (simp add: ledger_ok_def ledger_inv_def accounts_inv_def)
  with update_account show ?case using updateAccount_books chart_ok_groups by metis
next
  case (reassign b s p generalBook)
  then show ?case by (intro reassign_ok) auto
next
  case (masters bs s fys ccs books)
  then show ?case
    by (simp add: masters_refs ledger_ok_def ledger_inv_def accounts_inv_def lines_inv_def journals_inv_def mirror_inv_def balanced_def
        JOURNAL_LINES_def is_control_def clean_inv_def reversal_inv_def reversals_of_def groups_inv_def parent_rel_def)
next
  case (create_account input s a s')
  then show ?case using createAccount_books chart_ok_groups by metis
next
  case (delete_account aid s a s')
  then show ?case using deleteAccount_books chart_ok_groups by metis
next
  case (create_period input s p s')
  then show ?case using createPeriod_books accounts_change_same chart_ok_groups by metis
next
  case (set_period pid status actor s p s')
  then show ?case using setPeriodStatus_books accounts_change_same chart_ok_groups by metis
qed (rule post_ok reverse_ok; assumption)+

lemma init_ok: "ledger_init s \<Longrightarrow> ledger_ok s"
  by (auto simp: ledger_init_def ledger_ok_def ledger_inv_def lines_inv_def journals_inv_def mirror_inv_def clean_inv_def
      reversal_inv_def reversals_of_def refs_inv_def intro: exI [of _ "[]"])

lemma reach_ok: "ledger_reach s \<Longrightarrow> ledger_ok s"
  by (induction rule: ledger_reach.induct) (auto intro: init_ok step_ok)

end
