(* ===== verification/LedgerDemo.thy ===== *)
theory LedgerDemo
  imports LedgerMachine
begin

text \<open>
  A small ledger -- a cash account, a receivable control account with its book, one fiscal year --
  one balanced journal posted on it, and the reversal of that journal, all evaluated step by
  step. The runs are the concrete inputs at which the claims on the ledger are witnessed.
\<close>

definition demo_account :: "string \<Rightarrow> string \<Rightarrow> bool \<Rightarrow> string \<Rightarrow> gl_account" where
  "demo_account i c ctl ty = \<lparr>ga_id = i, ga_code = c, ga_name = c, ga_groupId = ''g1'', ga_description = None, ga_isControl = ctl,
     ga_subledgerType = ty, ga_postingRole = None, ga_accountKind = ''OTHER'', ga_bank = no_bank, ga_masterProfile = [], ga_isActive = True\<rparr>"

definition demo_accounts :: "gl_account list" where
  "demo_accounts = [demo_account ''cash'' ''1000'' False ''NONE'', demo_account ''ar'' ''1200'' True ''CUSTOMER'']"

definition demo_fy :: fiscal_year where
  "demo_fy = \<lparr>fy_id = ''fy'', fy_code = ''2081-82'', fy_startDateAD = ''2024-07-16'', fy_endDateAD = ''2025-07-15'', fy_isClosed = False\<rparr>"

definition demo_period :: gl_period where
  "demo_period = new_period ''glp-0'' demo_fy ''2024-08'' ''2024-08-01'' ''2024-08-31''"

definition demo_group :: gl_group where
  "demo_group = \<lparr>gg_id = ''g1'', gg_parentId = None, gg_code = ''1'', gg_name = ''Assets'', gg_accountType = ''ASSET'',
     gg_statementGroup = ''CURRENT_ASSET'', gg_normalBalance = ''DEBIT'', gg_sortOrder = 0\<rparr>"

definition demo_ledger :: ledger where
  "demo_ledger = \<lparr>lg_groups = [demo_group], lg_accounts = demo_accounts, lg_fiscalYears = [demo_fy],
     lg_periods = [], lg_branches = [''b1''], lg_costCenters = [], lg_books = [\<lparr>sb_id = ''bk'', sb_accountId = ''ar'', sb_partyId = None, sb_isActive = True\<rparr>],
     lg_journals = [], lg_lines = [], lg_subledger = [], lg_seq = 0, lg_uuid = 0\<rparr>"

definition demo_line :: "string \<Rightarrow> rat \<Rightarrow> rat \<Rightarrow> string \<Rightarrow> jsval" where
  "demo_line a d c ty = JObj [(''accountId'', JStr a), (''debit'', JNum (Fin d)), (''credit'', JNum (Fin c)), (''subledgerType'', JStr ty), (''partyName'', JStr ''Ram'')]"

definition demo_raw :: "jsval list" where
  "demo_raw = [demo_line ''cash'' 100 0 [], demo_line ''ar'' 0 100 ''CUSTOMER'']"

definition demo_journal :: jsval where
  "demo_journal = JObj [(''journalDateAD'', JStr ''2024-08-01''), (''branchId'', JStr ''b1''),
     (''lines'', JArr demo_raw)]"

definition demo_jlines :: "jline list" where
  "demo_jlines = [
  \<lparr>jl_lineNo = 1, jl_account = demo_account ''cash'' ''1000'' False ''NONE'', jl_costCenterId = None, jl_debit = 100, jl_credit = 0,
               jl_memo = None, jl_subledgerType = ''NONE'', jl_partyId = None, jl_partyName = None\<rparr>,
  \<lparr>jl_lineNo = 2, jl_account = demo_account ''ar'' ''1200'' True ''CUSTOMER'', jl_costCenterId = None, jl_debit = 0, jl_credit = 100,
               jl_memo = None, jl_subledgerType = ''CUSTOMER'', jl_partyId = None, jl_partyName = Some ''Ram''\<rparr>]"

definition demo_header :: "string \<Rightarrow> string \<Rightarrow> string \<Rightarrow> string option \<Rightarrow> string option \<Rightarrow> gl_journal" where
  "demo_header jid no src memo rv = \<lparr>gj_id = jid, gj_journalNo = no, gj_journalDateAD = ''2024-08-01'', gj_fiscalYearId = ''fy'', gj_periodId = ''glp-0'',
     gj_branchId = ''b1'', gj_sourceType = src, gj_sourceId = None, gj_voucherType = ''JOURNAL'', gj_voucherClass = None,
     gj_referenceNo = None, gj_referenceDateAD = None, gj_chequeNo = None, gj_chequeDateAD = None, gj_currency = ''NPR'', gj_exchangeRate = 1,
     gj_memo = memo, gj_status = ''POSTED'', gj_reversalOfId = rv, gj_postedBy = None, gj_isDemo = False\<rparr>"

definition demo_gl_line :: "string \<Rightarrow> string \<Rightarrow> nat \<Rightarrow> string \<Rightarrow> rat \<Rightarrow> rat \<Rightarrow> string option \<Rightarrow> gl_line" where
  "demo_gl_line i j n a d c memo = \<lparr>gl_id = i, gl_journalId = j, gl_lineNo = n, gl_accountId = a, gl_costCenterId = None, gl_branchId = ''b1'',
     gl_debit = d, gl_credit = c, gl_memo = memo\<rparr>"

definition demo_sub :: "string \<Rightarrow> string \<Rightarrow> string \<Rightarrow> rat \<Rightarrow> rat \<Rightarrow> gl_subentry" where
  "demo_sub i j l d c = \<lparr>gs_id = i, gs_journalId = j, gs_lineId = l, gs_accountId = ''ar'', gs_subledgerId = ''bk'', gs_subledgerType = ''CUSTOMER'',
     gs_partyId = None, gs_partyName = Some ''Ram'', gs_branchId = ''b1'', gs_entryDateAD = ''2024-08-01'', gs_debit = d, gs_credit = c\<rparr>"

definition demo_posted :: ledger where
  "demo_posted = demo_ledger\<lparr>lg_periods := [demo_period], lg_seq := 1, lg_uuid := 5,
     lg_journals := [demo_header ''glj-1'' ''MJ-2081-82-00001'' ''MANUAL'' None None],
     lg_lines := [demo_gl_line ''gll-2'' ''glj-1'' 1 ''cash'' 100 0 None, demo_gl_line ''gll-3'' ''glj-1'' 2 ''ar'' 0 100 None],
     lg_subledger := [demo_sub ''gls-4'' ''glj-1'' ''gll-3'' 0 100]\<rparr>"

lemmas demo_defs = demo_account_def demo_accounts_def demo_fy_def demo_period_def demo_ledger_def demo_line_def demo_journal_def demo_jlines_def
  demo_header_def demo_gl_line_def demo_sub_def demo_posted_def new_period_def

lemmas text_eval = text_val_def text_null_def text_or_def trim_def is_space_def to_upper_def upper_char_def is_lower_def or_null_def

lemma demo_strs: "nat_str 0 = ''0''" "nat_str 1 = ''1''" "nat_str 2 = ''2''" "nat_str 3 = ''3''" "nat_str 4 = ''4''" "nat_str (Suc 0) = ''1''"
  "nat_str (Suc (Suc 0)) = ''2''" "nat_str (Suc (Suc (Suc 0))) = ''3''" "nat_str (Suc (Suc (Suc (Suc 0)))) = ''4''" "nat_str 5 = ''5''" "nat_str 6 = ''6''" "nat_str 7 = ''7''" "nat_str 8 = ''8''" 
  by code_simp+

lemma demo_amount: "amount (JNum (Fin 100)) f = Inr 100" "amount (JNum (Fin 0)) f = Inr 0" by (code_simp, code_simp)

lemma demo_bounds: "periodBounds (JStr ''2024-08'') = Inr (''2024-08'', ''2024-08-01'', ''2024-08-31'')"
proof -
  have "parse_period_key ''2024-08'' = Some (2024, 8)" by code_simp
  moreover have "iso_day (date_utc 2024 7 1) = ''2024-08-01''" "iso_day (date_utc 2024 8 0) = ''2024-08-31''" by (code_simp, code_simp)
  ultimately show ?thesis by (simp add: periodBounds_def text_eval)
qed

lemma demo_fy_bounds: "str_le ''2024-07-16'' ''2024-08-01''" "str_le ''2024-08-01'' ''2025-07-15''" by (code_simp, code_simp)

lemma demo_date: "requireDate (JStr ''2024-08-01'') = Inr ''2024-08-01''" by code_simp

lemma demo_open: "ensureOpenPeriod ''2024-08-01'' demo_ledger = Inr (demo_period, demo_ledger\<lparr>lg_uuid := 1, lg_periods := [demo_period]\<rparr>)"
  by (simp add: tx_run ensureOpenPeriod_def fiscalYearForDate_def FISCAL_YEAR_BOUNDS_def demo_defs demo_fy_bounds demo_bounds
    periodKeyForDate_def PERIOD_BY_KEY_def PERIOD_INSERT_IF_MISSING_def PERIOD_INSERT_def randomUUID_def demo_strs)

lemma demo_lines: "journal_lines demo_accounts [] ''b1'' (Suc 0) demo_raw = Inr demo_jlines"
  by (simp add: demo_raw_def demo_defs journal_line_def demo_amount text_eval check_cost_center_def check_party_def Let_def)

lemma demo_totals: "check_totals demo_jlines = Inr ()"
  by (simp add: check_totals_def demo_defs Let_def is_cents_def)

lemma demo_books: "check_books demo_ledger [] demo_jlines = Inr ()"
  by (simp add: demo_defs SUBLEDGER_BOOKS_BY_ACCOUNT_def)

lemma demo_rate: "exchange_rate_input JUndef = Inr 1" "exchange_rate_input (JNum (Fin 1)) = Inr 1" by (code_simp, code_simp)

lemma demo_pad: "pad_start 5 (CHR ''0'') ''1'' = ''00001''" "pad_start 5 (CHR ''0'') ''2'' = ''00002''" by (code_simp, code_simp)

lemma demo_head: "journal_header demo_journal ''2024-08-01'' ''b1'' demo_period ''glj-1'' (Suc 0) = Inr (demo_header ''glj-1'' ''MJ-2081-82-00001'' ''MANUAL'' None None)"
  by (simp add: demo_defs journal_header_def text_eval Let_def currency_input_def is_upper_def demo_rate demo_pad optionalDate_def number_prefix_def demo_strs opt_or_null_def)

lemma demo_header_fields [simp]:
  "gj_id (demo_header a b c d e) = a" "gj_reversalOfId (demo_header a b c d e) = e" "gj_sourceType (demo_header a b c d e) = c"
  by (simp_all add: demo_header_def)

lemma demo_post: "postJournal demo_journal demo_ledger = Inr (\<lparr>pj_id = ''glj-1'', pj_journalNo = ''MJ-2081-82-00001'', pj_periodId = ''glp-0'', pj_fiscalYearId = ''fy''\<rparr>, demo_posted)"
proof -
  have l: "arr_or_empty (jget demo_journal ''lines'') = demo_raw"
   "jget demo_journal ''journalDateAD'' = JStr ''2024-08-01''" "text_val (jget demo_journal ''branchId'') 50 = ''b1''"
    by (simp_all add: demo_journal_def text_eval)
  have i: "text_ids demo_raw ''accountId'' = [''cash'', ''ar'']"
    "text_ids demo_raw ''costCenterId'' = []"
    and n: "length demo_raw = 2" by (simp_all add: text_ids_def demo_raw_def demo_line_def text_eval)
  have a: "ACCOUNTS_BY_IDS [''cash'', ''ar''] demo_ledger = demo_accounts" "COST_CENTERS_BY_IDS [] demo_ledger = []" "BRANCH_EXISTS ''b1'' demo_ledger"
    by (simp_all add: ACCOUNTS_BY_IDS_def COST_CENTERS_BY_IDS_def BRANCH_EXISTS_def demo_defs)
  let ?s = "demo_ledger\<lparr>lg_periods := [demo_period], lg_seq := Suc 0, lg_uuid := Suc (Suc 0),
     lg_journals := [demo_header ''glj-1'' ''MJ-2081-82-00001'' ''MANUAL'' None None]\<rparr>"
  have I: "tfor (insert_line (\<lambda>aid. SUBLEDGER_BOOKS_BY_ACCOUNT aid demo_ledger) ''glj-1'' ''b1'' ''2024-08-01'') demo_jlines ?s = Inr ((), demo_posted)"
    by (simp add: demo_defs tx_run insert_line_def randomUUID_def demo_strs Let_def JOURNAL_LINE_INSERT_def SUBLEDGER_INSERT_def SUBLEDGER_BOOKS_BY_ACCOUNT_def pick_book_def opt_or_null_def)
  have h: "gj_sourceType (demo_header ''glj-1'' ''MJ-2081-82-00001'' ''MANUAL'' None None) = ''MANUAL''"
    "gp_id demo_period = ''glp-0''" "gp_fiscalYearId demo_period = ''fy''"
    "gj_journalNo (demo_header ''glj-1'' ''MJ-2081-82-00001'' ''MANUAL'' None None) = ''MJ-2081-82-00001''" by (simp_all add: demo_defs)
  note state = demo_books demo_open I a
  show ?thesis
    by (simp add: tx_run postJournal_def l i n demo_head h demo_date demo_lines demo_totals Let_def NEXT_JOURNAL_SEQUENCE_def randomUUID_def demo_strs JOURNAL_INSERT_def
        state [unfolded demo_ledger_def, simplified] demo_ledger_def)
qed
text \<open>Reversing it.\<close>

definition demo_reason :: jsval where
  "demo_reason = JObj [(''reason'', JStr ''typo''), (''journalDateAD'', JStr ''2024-08-01'')]"

definition demo_contra_jlines :: "jline list" where
  "demo_contra_jlines = [
  \<lparr>jl_lineNo = 1, jl_account = demo_account ''cash'' ''1000'' False ''NONE'', jl_costCenterId = None, jl_debit = 0, jl_credit = 100,
     jl_memo = Some ''Reversal of MJ-2081-82-00001'', jl_subledgerType = ''NONE'', jl_partyId = None, jl_partyName = None\<rparr>,
  \<lparr>jl_lineNo = 2, jl_account = demo_account ''ar'' ''1200'' True ''CUSTOMER'', jl_costCenterId = None, jl_debit = 100, jl_credit = 0,
     jl_memo = Some ''Reversal of MJ-2081-82-00001'', jl_subledgerType = ''CUSTOMER'', jl_partyId = None, jl_partyName = Some ''Ram''\<rparr>]"

abbreviation demo_contra_header :: gl_journal where
  "demo_contra_header \<equiv> demo_header ''glj-5'' ''MJ-2081-82-00002'' ''MANUAL_REVERSAL''
     (Some ''Reversal of MJ-2081-82-00001: typo'') (Some ''glj-1'')"

definition demo_reversed :: ledger where
  "demo_reversed = demo_posted\<lparr>lg_seq := 2, lg_uuid := 9,
     lg_journals := lg_journals demo_posted @ [demo_contra_header],
     lg_lines := lg_lines demo_posted @ [
       demo_gl_line ''gll-6'' ''glj-5'' 1 ''cash'' 0 100 (Some ''Reversal of MJ-2081-82-00001''),
       demo_gl_line ''gll-7'' ''glj-5'' 2 ''ar'' 100 0 (Some ''Reversal of MJ-2081-82-00001'')],
     lg_subledger := lg_subledger demo_posted @ [demo_sub ''gls-8'' ''glj-5'' ''gll-7'' 100 0]\<rparr>"

abbreviation demo_contra :: jsval where
  "demo_contra \<equiv> contra_journal (demo_header ''glj-1'' ''MJ-2081-82-00001'' ''MANUAL'' None None)
     (lg_lines demo_posted) (lg_subledger demo_posted) ''2024-08-01'' ''typo'' JUndef"

lemma demo_contra_fields:
  "jget demo_contra ''lines'' = JArr (map (contra_line ''MJ-2081-82-00001'' (lg_subledger demo_posted)) (lg_lines demo_posted))"
  "jget demo_contra ''journalDateAD'' = JStr ''2024-08-01''" "text_val (jget demo_contra ''branchId'') 50 = ''b1''"
  by (simp_all add: demo_header_def text_eval)

abbreviation demo_contra_raw :: "jsval list" where
  "demo_contra_raw \<equiv> map (contra_line ''MJ-2081-82-00001'' (lg_subledger demo_posted)) (lg_lines demo_posted)"

lemma demo_contra_ids:
  "text_ids demo_contra_raw ''accountId'' = [''cash'', ''ar'']" "text_ids demo_contra_raw ''costCenterId'' = []"
  "length demo_contra_raw = 2"
  by (simp_all add: text_ids_def demo_defs contra_line_def text_eval entry_of_line_def opt_json_def)

lemma demo_contra_lines: "journal_lines demo_accounts [] ''b1'' (Suc 0) demo_contra_raw = Inr demo_contra_jlines"
  by (simp add: demo_contra_jlines_def demo_defs journal_line_def demo_amount text_eval check_cost_center_def check_party_def
      Let_def contra_line_def entry_of_line_def opt_json_def)

lemma demo_contra_head:
  "journal_header demo_contra ''2024-08-01'' ''b1'' demo_period ''glj-5'' (Suc (Suc 0)) = Inr demo_contra_header"
  by (simp add: contra_journal_def demo_defs journal_header_def text_eval Let_def currency_input_def is_upper_def demo_rate
      demo_pad optionalDate_def number_prefix_def demo_strs opt_or_null_def opt_json_def)

lemma demo_contra_open: "ensureOpenPeriod ''2024-08-01'' demo_posted = Inr (demo_period, demo_posted)"
  by (simp add: tx_run ensureOpenPeriod_def fiscalYearForDate_def FISCAL_YEAR_BOUNDS_def demo_defs demo_fy_bounds demo_bounds
      periodKeyForDate_def PERIOD_BY_KEY_def)

lemma demo_contra_insert:
  "tfor (insert_line (\<lambda>aid. SUBLEDGER_BOOKS_BY_ACCOUNT aid demo_posted) ''glj-5'' ''b1'' ''2024-08-01'') demo_contra_jlines
     (demo_posted\<lparr>lg_seq := Suc (Suc 0), lg_uuid := 6, lg_journals := lg_journals demo_posted @ [demo_contra_header]\<rparr>) =
   Inr ((), demo_reversed)"
  by (simp add: demo_defs demo_contra_jlines_def demo_reversed_def tx_run insert_line_def randomUUID_def demo_strs Let_def
      JOURNAL_LINE_INSERT_def SUBLEDGER_INSERT_def SUBLEDGER_BOOKS_BY_ACCOUNT_def pick_book_def opt_or_null_def)

lemma demo_contra_checks:
  "check_totals demo_contra_jlines = Inr ()" "check_books demo_posted [] demo_contra_jlines = Inr ()"
  by (simp_all add: check_totals_def demo_contra_jlines_def demo_defs Let_def SUBLEDGER_BOOKS_BY_ACCOUNT_def is_cents_def)

lemma demo_contra_masters:
  "ACCOUNTS_BY_IDS [''cash'', ''ar''] demo_posted = demo_accounts" "COST_CENTERS_BY_IDS [] demo_posted = []"
  "BRANCH_EXISTS ''b1'' demo_posted"
  by (simp_all add: ACCOUNTS_BY_IDS_def COST_CENTERS_BY_IDS_def BRANCH_EXISTS_def demo_defs)

lemma demo_contra_insert_journal:
  "JOURNAL_INSERT demo_contra_header (demo_posted\<lparr>lg_seq := Suc (Suc 0), lg_uuid := 6\<rparr>) =
   Inr ((), demo_posted\<lparr>lg_seq := Suc (Suc 0), lg_uuid := 6, lg_journals := lg_journals demo_posted @ [demo_contra_header]\<rparr>)"
  by (simp add: JOURNAL_INSERT_def demo_posted_def)

lemma demo_contra_post:
  "postJournal demo_contra demo_posted =
   Inr (\<lparr>pj_id = ''glj-5'', pj_journalNo = ''MJ-2081-82-00002'', pj_periodId = ''glp-0'', pj_fiscalYearId = ''fy''\<rparr>, demo_reversed)"
proof -
  have s: "NEXT_JOURNAL_SEQUENCE demo_posted = Inr (Suc (Suc 0), demo_posted\<lparr>lg_seq := Suc (Suc 0)\<rparr>)"
    "randomUUID (demo_posted\<lparr>lg_seq := Suc (Suc 0)\<rparr>) = Inr (''5'', demo_posted\<lparr>lg_seq := Suc (Suc 0), lg_uuid := 6\<rparr>)"
    by (simp_all add: NEXT_JOURNAL_SEQUENCE_def randomUUID_def demo_posted_def demo_ledger_def demo_strs)
  have h: "gp_id demo_period = ''glp-0''" "gp_fiscalYearId demo_period = ''fy''"
    "gj_journalNo demo_contra_header = ''MJ-2081-82-00002''"
    "length (lg_lines demo_posted) = 2" by (simp_all add: demo_defs)
  note jl = demo_contra_lines demo_contra_ids
  show ?thesis
    unfolding postJournal_def demo_contra_fields(2,3) demo_contra_fields(1) Let_def arr_or_empty.simps
    by (simp add: tx_run demo_date demo_contra_masters demo_contra_checks demo_contra_open s
        demo_contra_insert_journal demo_contra_insert h demo_contra_head jl del: map_map list.map)
qed

lemma demo_reverse:
  "reverseJournal (JStr ''glj-1'') demo_reason demo_posted =
   Inr (\<lparr>pj_id = ''glj-5'', pj_journalNo = ''MJ-2081-82-00002'', pj_periodId = ''glp-0'', pj_fiscalYearId = ''fy''\<rparr>, demo_reversed)"
proof -
  have q: "JOURNAL_LOCK_BY_ID ''glj-1'' demo_posted = Some (demo_header ''glj-1'' ''MJ-2081-82-00001'' ''MANUAL'' None None)"
    "JOURNAL_REVERSAL_EXISTS ''glj-1'' demo_posted = None"
    "JOURNAL_LINES ''glj-1'' demo_posted = lg_lines demo_posted" "lg_lines demo_posted \<noteq> []"
    "JOURNAL_SUBLEDGER ''glj-1'' demo_posted = lg_subledger demo_posted"
    by (simp_all add: JOURNAL_LOCK_BY_ID_def JOURNAL_REVERSAL_EXISTS_def JOURNAL_LINES_def JOURNAL_SUBLEDGER_def demo_defs)
  have r: "text_val (JStr ''glj-1'') 50 = ''glj-1''" "text_val (jget demo_reason ''reason'') 500 = ''typo''"
    "jget demo_reason ''journalDateAD'' = JStr ''2024-08-01''" "jget demo_reason ''actor'' = JUndef"
    by (simp_all add: demo_reason_def text_eval)
  have h: "to_upper (gj_sourceType (demo_header a b ''MANUAL'' d e)) = ''MANUAL''" "gj_status (demo_header a b c d e) = ''POSTED''"
    "to_upper ''MANUAL'' = ''MANUAL''" for a b c d e
    by (simp_all add: demo_header_def text_eval)
  show ?thesis
    by (simp add: reverseJournal_def Let_def tx_run q r h demo_date demo_contra_post REVERSIBLE_MANUAL_SOURCES_def opt_or_null_def)
qed

text \<open>The two states are reachable.\<close>

lemma demo_init: "ledger_init demo_ledger"
proof -
  have "parent_rel demo_ledger = {}" by (auto simp: parent_rel_def demo_ledger_def demo_group_def)
  then show ?thesis
    by (simp add: ledger_init_def demo_defs accounts_inv_def groups_inv_def uid_def text_eval acyclic_def chart_placed_def demo_group_def
        ACCOUNT_TYPES_def STATEMENT_GROUPS_BY_TYPE_def)
qed

lemma demo_posted_step: "ledger_step demo_ledger demo_posted"
  by (rule ledger_step.post [OF demo_post]) (simp add: reverses_document_def demo_journal_def text_eval)

lemma demo_reversed_step: "ledger_step demo_posted demo_reversed"
  by (rule ledger_step.reverse [OF demo_reverse])

lemma demo_reach: "ledger_reach demo_posted" "ledger_reach demo_reversed"
  using demo_init demo_posted_step demo_reversed_step by (blast intro: ledger_reach.intros)+

end
