(* ===== verification/LedgerClaims.thy ===== *)
theory LedgerClaims
  imports LedgerDemo
begin

text \<open>
  What the ledger promises in every state it can reach: the books balance, posted history only
  grows and keeps its classification, control accounts agree with their subledgers, a reversal
  cancels its original once, a closed period takes no posting, and the groups form a forest.
\<close>

section \<open>Sums over the journals\<close>

lemma sum_by_key:
  fixes f :: "'a \<Rightarrow> rat"
  assumes "distinct ids"
  shows "sum_list (map f (filter (\<lambda>l. k l \<in> set ids) xs)) = (\<Sum>i \<leftarrow> ids. sum_list (map f (filter (\<lambda>l. k l = i) xs)))"
  using assms
proof (induction ids)
  case (Cons i ids)
  have "sum_list (map f (filter (\<lambda>l. k l \<in> set (i # ids)) ys)) =
      sum_list (map f (filter (\<lambda>l. k l = i) ys)) + sum_list (map f (filter (\<lambda>l. k l \<in> set ids) ys))" for ys
    using Cons.prems by (induction ys) auto
  with Cons show ?case by simp
qed simp

definition line_net :: "gl_line \<Rightarrow> rat" where
  "line_net l = gl_debit l - gl_credit l"

lemma sum_diff:
  fixes f g :: "'a \<Rightarrow> rat"
  shows "sum_list (map (\<lambda>x. f x - g x) xs) = sum_list (map f xs) - sum_list (map g xs)"
  by (induction xs) auto

lemma balanced_net:
  assumes "ledger_ok s" and "jid \<in> gj_id ` set (lg_journals s)"
  shows "sum_list (map line_net (JOURNAL_LINES jid s)) = 0"
  using assms unfolding line_net_def sum_diff by (auto simp: ledger_ok_def ledger_inv_def journals_inv_def balanced_def)

lemma trial_balance_zero:
  assumes ok: "ledger_ok s"
  shows "sum_list (map line_net (filter (\<lambda>l. P (gl_journalId l)) (lg_lines s))) = 0"
proof -
  let ?ids = "filter P (map gj_id (lg_journals s))"
  have "filter (\<lambda>l. P (gl_journalId l)) (lg_lines s) = filter (\<lambda>l. gl_journalId l \<in> set ?ids) (lg_lines s)"
    using ok by (intro filter_cong) (auto simp: ledger_ok_def ledger_inv_def lines_inv_def)
  moreover have "distinct ?ids" using ok journal_ids by (simp add: ledger_ok_def)
  moreover have "(\<Sum>i \<leftarrow> ?ids. sum_list (map line_net (filter (\<lambda>l. gl_journalId l = i) (lg_lines s)))) = (\<Sum>i \<leftarrow> ?ids. 0)"
    using balanced_net [OF ok] by (intro arg_cong [of _ _ sum_list] map_cong) (auto simp: JOURNAL_LINES_def)
  ultimately show ?thesis by (simp only: sum_by_key) (simp add: sum_list_triv)
qed

section \<open>Control accounts agree with their subledgers\<close>

lemma control_sums:
  assumes ok: "ledger_ok s" and a: "a \<in> set (lg_accounts s)" "ga_isControl a"
  shows "GL_CONTROL_BALANCE (ga_id a) br s = SUBLEDGER_BALANCE (ga_id a) br s"
proof -
  have ctl: "is_control s (ga_id a)" using a by (auto simp: is_control_iff)
  have posted: "posted_line s l" if "l \<in> set (lg_lines s)" for l
    using ok that by (fastforce simp: posted_line_def list_ex_iff ledger_ok_def ledger_inv_def lines_inv_def journals_inv_def)
  have gl: "filter (\<lambda>l. gl_accountId l = ga_id a \<and> posted_line s l \<and> branch_matches br (gl_branchId l)) (lg_lines s) =
      filter (\<lambda>l. gl_accountId l = ga_id a \<and> branch_matches br (gl_branchId l))
        (filter (\<lambda>l. is_control s (gl_accountId l)) (lg_lines s))"
    using ctl posted by (auto intro!: filter_cong)
  have m: "map sub_key (lg_subledger s) = map line_key (filter (\<lambda>l. is_control s (gl_accountId l)) (lg_lines s))"
    using ok by (simp add: ledger_ok_def ledger_inv_def mirror_inv_def)
  have "map sub_key (filter (\<lambda>e. gs_accountId e = ga_id a \<and> branch_matches br (gs_branchId e)) es) =
      map line_key (filter (\<lambda>l. gl_accountId l = ga_id a \<and> branch_matches br (gl_branchId l)) ls)"
    if "map sub_key es = map line_key ls" for es ls
    using that by (induction es arbitrary: ls) (auto simp: sub_key_def line_key_def)
  note keys = this [OF m]
  have net: "map (\<lambda>e. gs_debit e - gs_credit e) es = map (\<lambda>l. gl_debit l - gl_credit l) ls \<and> length es = length ls"
    if "map sub_key es = map line_key ls" for es ls
    using that by (induction es arbitrary: ls) (auto simp: sub_key_def line_key_def)
  from net [OF keys] show ?thesis by (simp add: GL_CONTROL_BALANCE_def SUBLEDGER_BALANCE_def gl Let_def)
qed

section \<open>History only grows\<close>

lemma account_kept_self [intro]: "a \<in> set as \<Longrightarrow> \<exists>b \<in> set as. account_kept s a b"
  by (auto intro!: bexI [of _ a])

lemma step_history:
  assumes "ledger_step s s'" and "ledger_ok s"
  shows "(\<exists>js. lg_journals s' = lg_journals s @ js) \<and> (\<exists>ls. lg_lines s' = lg_lines s @ ls) \<and>
    prefix (map entry_facts (lg_subledger s)) (map entry_facts (lg_subledger s')) \<and>
    (\<forall>a \<in> set (lg_accounts s). ACCOUNT_JOURNAL_LINE_COUNT (ga_id a) s \<noteq> 0 \<longrightarrow> (\<exists>b \<in> set (lg_accounts s'). account_kept s a b))"
proof -
  have chart: ?thesis if "same_books s s' \<and> accounts_change s s'"
    using that used_account_kept [of s s'] by (auto simp: same_books_def)
  have posted: ?thesis if "posting s s' date j jls ls es" for date j jls ls es
    using posting_fields [OF that] by auto
  have d: "distinct (map ga_id (lg_accounts s))" using assms(2) by (simp add: ledger_ok_def ledger_inv_def accounts_inv_def)
  from assms(1) show ?thesis
  proof cases
    case (post input r)
    from post(1) show ?thesis by (rule postJournal_posting) (rule posted)
  next
    case (reverse jid input r)
    from reverse obtain c where "postJournal c s = Inr (r, s')" by (rule reverseJournal_effect)
    then show ?thesis by (rule postJournal_posting) (rule posted)
  next
    case (update_account aid input a)
    with updateAccount_books [OF _ d] chart show ?thesis by blast
  next
    case (reassign b p generalBook)
    then show ?thesis using reassign_facts by (auto simp: account_kept_def)
  next
    case (masters bs fys ccs books)
    then show ?thesis by auto
  qed (rule chart, use createPeriod_books setPeriodStatus_books createAccountGroup_books updateAccountGroup_books
      deleteAccountGroup_books createAccount_books deleteAccount_books accounts_change_same in metis)+
qed

lemma steps_ok: "ledger_steps s s' \<Longrightarrow> ledger_ok s \<Longrightarrow> ledger_ok s'"
  by (induction rule: ledger_steps.induct) (auto intro: step_ok)

lemma line_count_grows: "lg_lines s' = lg_lines s @ ls \<Longrightarrow> ACCOUNT_JOURNAL_LINE_COUNT x s \<le> ACCOUNT_JOURNAL_LINE_COUNT x s'"
  by (simp add: ACCOUNT_JOURNAL_LINE_COUNT_def)

lemma steps_history:
  assumes "ledger_steps s s'" and "ledger_ok s"
  shows "(\<exists>js. lg_journals s' = lg_journals s @ js) \<and> (\<exists>ls. lg_lines s' = lg_lines s @ ls) \<and>
    prefix (map entry_facts (lg_subledger s)) (map entry_facts (lg_subledger s')) \<and>
    (\<forall>a \<in> set (lg_accounts s). ACCOUNT_JOURNAL_LINE_COUNT (ga_id a) s \<noteq> 0 \<longrightarrow> (\<exists>b \<in> set (lg_accounts s'). account_kept s a b))"
  using assms
proof (induction rule: ledger_steps.induct)
  case (none s)
  then show ?case by auto
next
  case (more s s1 s2)
  from more have ok1: "ledger_ok s1" by (blast intro: steps_ok)
  note h1 = more.IH [OF more.prems] and h2 = step_history [OF more.hyps(2) ok1]
  have "\<exists>c \<in> set (lg_accounts s2). account_kept s a c"
    if a: "a \<in> set (lg_accounts s)" "ACCOUNT_JOURNAL_LINE_COUNT (ga_id a) s \<noteq> 0" for a
  proof -
    from h1 a obtain b where b: "b \<in> set (lg_accounts s1)" "account_kept s a b" by blast
    from h1 obtain ls1 where "lg_lines s1 = lg_lines s @ ls1" by blast
    from line_count_grows [OF this, of "ga_id a"] a(2) b(2) have "ACCOUNT_JOURNAL_LINE_COUNT (ga_id b) s1 \<noteq> 0"
      by (simp add: account_kept_def)
    with h2 b(1) obtain c where "c \<in> set (lg_accounts s2)" "account_kept s1 b c" by blast
    with b a(2) \<open>ACCOUNT_JOURNAL_LINE_COUNT (ga_id b) s1 \<noteq> 0\<close> show ?thesis
      by (intro bexI [of _ c]) (auto simp: account_kept_def)
  qed
  moreover have "\<exists>js. lg_journals s2 = lg_journals s @ js" "\<exists>ls. lg_lines s2 = lg_lines s @ ls" using h1 h2 by auto
  moreover have "prefix (map entry_facts (lg_subledger s)) (map entry_facts (lg_subledger s2))" using h1 h2 by (blast intro: prefix_order.trans)
  ultimately show ?case by blast
qed

section \<open>A reversal mirrors its original\<close>

definition mirrored :: "gl_line \<Rightarrow> gl_line \<Rightarrow> bool" where
  "mirrored l k \<longleftrightarrow> gl_accountId k = gl_accountId l \<and> gl_branchId k = gl_branchId l \<and>
     gl_debit k = gl_credit l \<and> gl_credit k = gl_debit l"

lemma amount_cents: "is_cents x \<Longrightarrow> amount (JNum (Fin x)) f = Inr y \<Longrightarrow> y = x"
  by (auto simp: amount_def throw_def split: if_splits)

lemma contra_journal_lines:
  assumes "journal_lines accounts centers b n (map (contra_line no es) ls) = Inr jls"
    and "\<forall>l \<in> set ls. one_sided l \<and> text_val (JStr (gl_accountId l)) 50 = gl_accountId l"
  shows "list_all2 (\<lambda>l jl. ga_id (jl_account jl) = gl_accountId l \<and> jl_debit jl = gl_credit l \<and> jl_credit jl = gl_debit l) ls jls"
  using assms
proof (induction ls arbitrary: n jls)
  case (Cons l ls)
  then obtain jl js where jl: "journal_line accounts centers b n (contra_line no es l) = Inr jl"
    and js: "journal_lines accounts centers b (Suc n) (map (contra_line no es) ls) = Inr js" and jls: "jls = jl # js" by auto
  have "ga_id (jl_account jl) = gl_accountId l" using journal_line_ok [OF jl] Cons.prems(2) by simp
  moreover have "jl_debit jl = gl_credit l \<and> jl_credit jl = gl_debit l"
    using jl Cons.prems(2) by (auto simp: journal_line_def Let_def one_sided_def dest: amount_cents split: option.splits if_splits)
  ultimately show ?case using Cons.IH [OF js] Cons.prems(2) by (simp add: jls)
qed simp

lemma mirrored_net:
  assumes "list_all2 mirrored ls ks"
  shows "sum_list (map line_net (filter (\<lambda>l. P (gl_accountId l) (gl_branchId l)) ls)) +
    sum_list (map line_net (filter (\<lambda>l. P (gl_accountId l) (gl_branchId l)) ks)) = 0"
  using assms by (induction rule: list_all2_induct) (auto simp: mirrored_def line_net_def)

lemma reversal_mirrors:
  assumes ok: "ledger_ok s" and run: "reverseJournal journalId input s = Inr (r, s')"
  shows "list_all2 mirrored (JOURNAL_LINES (text_val journalId 50) s) (JOURNAL_LINES (pj_id r) s') \<and>
    JOURNAL_LINES (text_val journalId 50) s' = JOURNAL_LINES (text_val journalId 50) s \<and>
    (\<exists>j \<in> set (lg_journals s'). gj_id j = pj_id r \<and> gj_reversalOfId j = Some (text_val journalId 50))"
proof -
  let ?jid = "text_val journalId 50"
  from run obtain original date reason where o: "JOURNAL_LOCK_BY_ID ?jid s = Some original" and ne: "?jid \<noteq> []"
    and post: "postJournal (contra_journal original (JOURNAL_LINES ?jid s) (JOURNAL_SUBLEDGER ?jid s) date reason
       (jget input ''actor'')) s = Inr (r, s')"
    by (rule reverseJournal_effect)
  note o' = LOCK_BY_ID [OF o]
  have inv: "ledger_inv s" and clean: "clean_inv s" using ok by (simp_all add: ledger_ok_def)
  have id: "text_null (JStr (gj_id original)) 50 = Some (gj_id original)"
    using inv o' ne text_val_length [of journalId 50] by (intro journal_id_text) auto
  from post obtain d j jls ls es accounts centers where p: "posting s s' d j jls ls es" and r: "pj_id r = gj_id j"
    and b: "gj_branchId j = text_val (JStr (gj_branchId original)) 50" and rv: "gj_reversalOfId j = Some (gj_id original)"
    and jls: "journal_lines accounts centers (gj_branchId j) 1 (map (contra_line (gj_journalNo original) (JOURNAL_SUBLEDGER ?jid s)) (JOURNAL_LINES ?jid s)) = Inr jls"
    by (rule postJournal_posting) (simp add: id)
  have b: "gj_branchId j = gj_branchId original" using b clean o' by (simp add: clean_inv_def)
  have orig: "\<forall>l \<in> set (JOURNAL_LINES ?jid s). one_sided l \<and> text_val (JStr (gl_accountId l)) 50 = gl_accountId l"
    using inv clean by (auto simp: JOURNAL_LINES_def ledger_inv_def lines_inv_def clean_inv_def)
  note fields = posting_fields [OF p] and new = posting_new_lines [OF p inv]
  have w: "list_all2 (written (gj_id j) (gj_branchId j)) ls jls" using p by (simp add: posting_def)
  have branch: "\<forall>l \<in> set (JOURNAL_LINES ?jid s). gl_branchId l = gj_branchId original"
    using clean o' by (auto simp: JOURNAL_LINES_def clean_inv_def)
  have "list_all2 mirrored (JOURNAL_LINES ?jid s) ls"
    using contra_journal_lines [OF jls orig] w branch
    by (auto simp: list_all2_conv_all_nth mirrored_def written_def b)
  moreover have "?jid \<noteq> gj_id j" using posting_fresh(1) [OF p inv] o' by (metis imageI)
  ultimately show ?thesis using new(1) new(2) [of ?jid] rv o' by (simp add: r fields)
qed

section \<open>The walk up the group tree\<close>

lemma group_parent_rel: "groups_inv s \<Longrightarrow> group_parent s x = Some y \<longleftrightarrow> (x, y) \<in> parent_rel s"
proof -
  assume inv: "groups_inv s"
  then have d: "distinct (map gg_id (lg_groups s))" and ne: "g \<in> set (lg_groups s) \<Longrightarrow> gg_parentId g \<noteq> Some []" for g
    by (auto simp: groups_inv_def)
  have find: "ACCOUNT_GROUP_BY_ID (gg_id g) s = Some g" if "g \<in> set (lg_groups s)" for g
  proof -
    have "ACCOUNT_GROUP_BY_ID (gg_id g) s \<noteq> None" using that by (auto simp: ACCOUNT_GROUP_BY_ID_def find_None_iff)
    then obtain h where h: "ACCOUNT_GROUP_BY_ID (gg_id g) s = Some h" by blast
    with GROUP_BY_ID_Some [OF h] d that have "h = g" unfolding distinct_map by (metis inj_onD)
    with h show ?thesis by simp
  qed
  show ?thesis
  proof
    assume "group_parent s x = Some y"
    then show "(x, y) \<in> parent_rel s"
      by (auto simp: group_parent_def opt_or_null_def or_null_def parent_rel_def dest: GROUP_BY_ID_Some split: option.splits if_splits)
  next
    assume "(x, y) \<in> parent_rel s"
    then obtain g where "g \<in> set (lg_groups s)" "gg_id g = x" "gg_parentId g = Some y" by (auto simp: parent_rel_def)
    with find ne show "group_parent s x = Some y" by (auto simp: group_parent_def opt_or_null_def or_null_def)
  qed
qed

lemma move_walk_spec:
  assumes inv: "groups_inv s" and seen: "\<forall>x \<in> set seen. case cur of None \<Rightarrow> True | Some c \<Rightarrow> (x, c) \<in> (parent_rel s)\<^sup>+"
  shows "move_walk s gid cur seen =
    (case cur of None \<Rightarrow> Inr ()
     | Some c \<Rightarrow> if (c, gid) \<in> (parent_rel s)\<^sup>* then throw 400 ''A group cannot be moved under itself or one of its descendants.''
                 else Inr ())"
  using assms
proof (induction s gid cur seen rule: move_walk.induct)
  case (2 s gid c seen)
  let ?R = "parent_rel s"
  have ac: "acyclic ?R" using 2 by (simp add: groups_inv_def)
  have unseen: "c \<notin> set seen" using 2 ac by (auto simp: acyclic_def)
  show ?case
  proof (cases "c = gid")
    case False
    have next_seen: "\<forall>x \<in> set (c # seen). case group_parent s c of None \<Rightarrow> True | Some n \<Rightarrow> (x, n) \<in> ?R\<^sup>+"
      using 2(3) group_parent_rel [OF 2(2)] by (fastforce split: option.splits intro: trancl_into_trancl)
    have step: "(c, gid) \<in> ?R\<^sup>* \<longleftrightarrow> (case group_parent s c of None \<Rightarrow> False | Some n \<Rightarrow> (n, gid) \<in> ?R\<^sup>*)"
    proof (cases "group_parent s c")
      case None
      then show ?thesis using False group_parent_rel [OF 2(2), of c] by (auto elim: converse_rtranclE)
    next
      case (Some n)
      then have edge: "(c, y) \<in> ?R \<longleftrightarrow> y = n" for y using group_parent_rel [OF 2(2), of c y] by auto
      have "(c, gid) \<in> ?R\<^sup>* \<longleftrightarrow> (n, gid) \<in> ?R\<^sup>*"
        using False edge by (metis converse_rtranclE converse_rtrancl_into_rtrancl)
      with Some show ?thesis by simp
    qed
    from 2(1) [OF False unseen 2(2) next_seen] show ?thesis
      using False unseen by (simp add: step split: option.splits)
  qed simp
qed simp

section \<open>What a posting appends\<close>

lemma journal_appended:
  assumes "postJournal input s = Inr (r, s')" and "distinct (map ga_id (lg_accounts s))"
  shows "\<exists>j ls es. lg_journals s' = lg_journals s @ [j] \<and> lg_lines s' = lg_lines s @ ls \<and> lg_subledger s' = lg_subledger s @ es \<and>
    gj_id j = pj_id r \<and> gj_status j = ''POSTED'' \<and> isAdDate (JStr (gj_journalDateAD j)) \<and> gj_branchId j \<in> set (lg_branches s) \<and>
    (\<exists>p \<in> set (lg_periods s'). gp_id p = gj_periodId j \<and> gp_status p = ''OPEN'' \<and>
       (\<exists>fy \<in> set (lg_fiscalYears s). gp_fiscalYearId p = fy_id fy \<and>
          str_le (fy_startDateAD fy) (gj_journalDateAD j) \<and> str_le (gj_journalDateAD j) (fy_endDateAD fy))) \<and>
    2 \<le> length ls \<and> (\<forall>l \<in> set ls. gl_journalId l = pj_id r \<and> one_sided l \<and>
       (\<exists>a \<in> set (lg_accounts s). ga_id a = gl_accountId l \<and> ga_isActive a)) \<and>
    sum_list (map gl_debit ls) = sum_list (map gl_credit ls) \<and> 0 < sum_list (map gl_debit ls) \<and>
    map sub_key es = map line_key (filter (\<lambda>l. is_control s (gl_accountId l)) ls)"
proof -
  from assms(1) obtain date j jls ls es where p: "posting s s' date j jls ls es" and r: "pj_id r = gj_id j"
    by (rule postJournal_posting)
  note f = posting_fields [OF p]
  have w: "list_all2 (written (gj_id j) (gj_branchId j)) ls jls" and jl: "\<forall>jl \<in> set jls. line_ok (lg_accounts s) jl"
    and es: "list_all2 (mirrors date) es (control_pairs ls jls)" and d: "gj_journalDateAD j = date"
    and len: "2 \<le> length jls" and sums: "sum_list (map jl_debit jls) = sum_list (map jl_credit jls)" "0 < sum_list (map jl_debit jls)"
    using p by (simp_all add: posting_def)
  note ws = written_sums [OF w]
  have "one_sided l \<and> gl_journalId l = pj_id r \<and> (\<exists>a \<in> set (lg_accounts s). ga_id a = gl_accountId l \<and> ga_isActive a)"
    if "l \<in> set ls" for l
  proof -
    from ws that obtain jl where "jl \<in> set jls" "written (gj_id j) (gj_branchId j) l jl" by blast
    with jl show ?thesis by (auto simp: r written_def line_ok_def one_sided_def intro!: bexI [of _ "jl_account jl"])
  qed
  moreover have "map sub_key es = map line_key (filter (\<lambda>l. is_control s (gl_accountId l)) ls)"
    unfolding control_pairs_key [OF es] control_lines [OF w jl assms(2)] is_control_def ..
  moreover have "length ls = length jls" using w by (rule list_all2_lengthD)
  moreover have "\<exists>p \<in> set (lg_periods s'). gp_id p = gj_periodId j \<and> gp_status p = ''OPEN'' \<and>
       (\<exists>fy \<in> set (lg_fiscalYears s). gp_fiscalYearId p = fy_id fy \<and>
          str_le (fy_startDateAD fy) (gj_journalDateAD j) \<and> str_le (gj_journalDateAD j) (fy_endDateAD fy))"
    using p unfolding posting_def by blast
  moreover have "gj_status j = ''POSTED''" "isAdDate (JStr (gj_journalDateAD j))" "gj_branchId j \<in> set (lg_branches s)"
    using p d by (simp_all add: posting_def)
  ultimately show ?thesis
    using f(2,3,4) len sums ws by (intro exI [of _ j] exI [of _ ls] exI [of _ es]) (simp add: r)
qed

section \<open>The claims\<close>

text \<open>C5. In every state the ledger can reach, every journal reads back with equal totals on both sides
and at least two lines, every line is a positive paisa amount on exactly one side, and over any set of
journals -- so for any period, branch or date range -- debits equal credits.\<close>

theorem books_balance:
  assumes "ledger_reach s"
  shows "(\<forall>j \<in> set (lg_journals s). \<exists>v. readJournal (gj_id j) s = Some v \<and> jv_totalDebit v = jv_totalCredit v \<and>
      2 \<le> length (jv_lines v)) \<and>
    (\<forall>l \<in> set (lg_lines s). one_sided l) \<and>
    (\<forall>P. sum_list (map gl_debit (filter (\<lambda>l. P (gl_journalId l)) (lg_lines s))) =
         sum_list (map gl_credit (filter (\<lambda>l. P (gl_journalId l)) (lg_lines s))))"
proof -
  have ok: "ledger_ok s" using assms by (rule reach_ok)
  then have inv: "journals_inv s" "lines_inv s" by (simp_all add: ledger_ok_def ledger_inv_def)
  have "\<exists>v. readJournal (gj_id j) s = Some v \<and> jv_totalDebit v = jv_totalCredit v \<and> 2 \<le> length (jv_lines v)"
    if j: "j \<in> set (lg_journals s)" for j
  proof -
    from j have "JOURNAL_LOCK_BY_ID (gj_id j) s \<noteq> None" by (auto simp: JOURNAL_LOCK_BY_ID_def find_None_iff)
    then obtain k where "JOURNAL_LOCK_BY_ID (gj_id j) s = Some k" by blast
    moreover have "balanced s (gj_id j)" using inv(1) j by (auto simp: journals_inv_def)
    ultimately show ?thesis by (simp add: readJournal_def balanced_def)
  qed
  moreover have "\<forall>P. sum_list (map gl_debit (filter (\<lambda>l. P (gl_journalId l)) (lg_lines s))) =
         sum_list (map gl_credit (filter (\<lambda>l. P (gl_journalId l)) (lg_lines s)))"
    using trial_balance_zero [OF ok] unfolding line_net_def sum_diff by simp
  ultimately show ?thesis using inv(2) by (auto simp: lines_inv_def)
qed

theorem books_balance_witness:
  "\<forall>P. sum_list (map gl_debit (filter (\<lambda>l. P (gl_journalId l)) (lg_lines demo_reversed))) =
       sum_list (map gl_credit (filter (\<lambda>l. P (gl_journalId l)) (lg_lines demo_reversed)))"
  using books_balance [OF demo_reach(2)] by blast

text \<open>C8. In every reachable state every control account reconciles: for every branch its general-ledger
balance equals its subledger's, with one entry per posted line.\<close>

theorem control_reconciles:
  assumes "ledger_reach s" and "a \<in> set (lg_accounts s)" and "ga_isControl a"
  shows "\<exists>rc. reconcileControlAccount (ga_id a) branch s = Inr rc \<and> rc_status rc = ''RECONCILED'' \<and>
    rc_difference rc = 0 \<and> rc_glBalance rc = rc_subledgerBalance rc \<and> rc_lineCount rc = rc_entryCount rc"
proof -
  have ok: "ledger_ok s" using assms(1) by (rule reach_ok)
  have "ACCOUNT_BY_ID (ga_id a) s \<noteq> None" using assms(2) by (auto simp: ACCOUNT_BY_ID_def find_None_iff)
  then obtain b where b: "ACCOUNT_BY_ID (ga_id a) s = Some b" by blast
  moreover have "b = a"
    using ACCOUNT_BY_ID_unique(1) [OF b _ assms(2)] ok by (auto simp: ledger_ok_def ledger_inv_def accounts_inv_def)
  ultimately show ?thesis
    using control_sums [OF ok assms(2,3), of "opt_or_null branch"] assms(3)
    by (simp add: reconcileControlAccount_def Let_def split: prod.split)
qed

theorem control_reconciles_witness:
  "\<exists>rc. reconcileControlAccount ''ar'' (Some ''b1'') demo_posted = Inr rc \<and> rc_status rc = ''RECONCILED'' \<and>
    rc_difference rc = 0 \<and> rc_glBalance rc = rc_subledgerBalance rc \<and> rc_lineCount rc = rc_entryCount rc"
  using control_reconciles [OF demo_reach(1), of "demo_account ''ar'' ''1200'' True ''CUSTOMER''" "Some ''b1''"]
  by (simp add: demo_defs)

text \<open>C1. A committed posting appends one POSTED journal to the books, on a real date inside the fiscal
year of an OPEN period and on an existing branch; it has at least two lines, each on an active account
and on one side only, debits equal to credits and positive; every line on a control account, and no
other, has its subledger entry for the same amount.\<close>

theorem posting_sound:
  assumes "postJournal input s = Inr (r, s')" and "distinct (map ga_id (lg_accounts s))"
  shows "\<exists>j ls es. lg_journals s' = lg_journals s @ [j] \<and> lg_lines s' = lg_lines s @ ls \<and> lg_subledger s' = lg_subledger s @ es \<and>
    gj_id j = pj_id r \<and> gj_status j = ''POSTED'' \<and> isAdDate (JStr (gj_journalDateAD j)) \<and> gj_branchId j \<in> set (lg_branches s) \<and>
    (\<exists>p \<in> set (lg_periods s'). gp_id p = gj_periodId j \<and> gp_status p = ''OPEN'' \<and>
       (\<exists>fy \<in> set (lg_fiscalYears s). gp_fiscalYearId p = fy_id fy \<and>
          str_le (fy_startDateAD fy) (gj_journalDateAD j) \<and> str_le (gj_journalDateAD j) (fy_endDateAD fy))) \<and>
    2 \<le> length ls \<and> (\<forall>l \<in> set ls. gl_journalId l = pj_id r \<and> one_sided l \<and>
       (\<exists>a \<in> set (lg_accounts s). ga_id a = gl_accountId l \<and> ga_isActive a)) \<and>
    sum_list (map gl_debit ls) = sum_list (map gl_credit ls) \<and> 0 < sum_list (map gl_debit ls) \<and>
    map sub_key es = map line_key (filter (\<lambda>l. is_control s (gl_accountId l)) ls)"
  using assms by (rule journal_appended)

theorem posting_sound_witness:
  "\<exists>j ls es. lg_journals demo_posted = lg_journals demo_ledger @ [j] \<and> lg_lines demo_posted = lg_lines demo_ledger @ ls \<and>
    lg_subledger demo_posted = lg_subledger demo_ledger @ es \<and> gj_status j = ''POSTED'' \<and> 2 \<le> length ls \<and>
    sum_list (map gl_debit ls) = sum_list (map gl_credit ls) \<and> 0 < sum_list (map gl_debit ls)"
proof -
  have "distinct (map ga_id (lg_accounts demo_ledger))" by (simp add: demo_defs)
  from posting_sound [OF demo_post this] show ?thesis by blast
qed

text \<open>C18. Reversing a manual voucher posts, line by line, its mirror image -- same account and branch,
debit and credit exchanged -- so over any accounts and branches the two net to zero, and the original's
own lines stay as they were.\<close>

theorem reversal_cancels:
  assumes "ledger_reach s" and "reverseJournal journalId input s = Inr (r, s')"
  shows "list_all2 mirrored (JOURNAL_LINES (text_val journalId 50) s) (JOURNAL_LINES (pj_id r) s') \<and>
    JOURNAL_LINES (text_val journalId 50) s' = JOURNAL_LINES (text_val journalId 50) s \<and>
    sum_list (map line_net (filter (\<lambda>l. P (gl_accountId l) (gl_branchId l)) (JOURNAL_LINES (text_val journalId 50) s'))) +
    sum_list (map line_net (filter (\<lambda>l. P (gl_accountId l) (gl_branchId l)) (JOURNAL_LINES (pj_id r) s'))) = 0"
  using reversal_mirrors [OF reach_ok [OF assms(1)] assms(2)] mirrored_net by auto

theorem reversal_cancels_witness:
  "list_all2 mirrored (JOURNAL_LINES ''glj-1'' demo_posted) (JOURNAL_LINES ''glj-5'' demo_reversed)"
  using reversal_cancels [OF demo_reach(1) demo_reverse, of "\<lambda>a b. True"] by (simp add: text_eval)

lemma reverse_refused:
  assumes "text_val k 50 \<noteq> []" and "JOURNAL_LOCK_BY_ID (text_val k 50) s = Some j"
    and "opt_or_null (gj_reversalOfId j) \<noteq> None \<or> reversals_of (text_val k 50) s \<noteq> []"
  shows "\<exists>msg. reverseJournal k input s = Inl (ApiError 409 msg)"
proof -
  have "JOURNAL_REVERSAL_EXISTS (text_val k 50) s \<noteq> None" if "opt_or_null (gj_reversalOfId j) = None"
    using that assms(3) no_reversal by blast
  with assms(1,2) show ?thesis by (auto simp: reverseJournal_def tx_run Let_def)
qed

lemma LOCK_BY_ID_mem: "ledger_ok s \<Longrightarrow> j \<in> set (lg_journals s) \<Longrightarrow> JOURNAL_LOCK_BY_ID (gj_id j) s = Some j"
proof -
  assume ok: "ledger_ok s" and j: "j \<in> set (lg_journals s)"
  then have "JOURNAL_LOCK_BY_ID (gj_id j) s \<noteq> None" by (auto simp: JOURNAL_LOCK_BY_ID_def find_None_iff)
  then obtain k where k: "JOURNAL_LOCK_BY_ID (gj_id j) s = Some k" by blast
  have "distinct (map gj_id (lg_journals s))" using ok journal_ids by (simp add: ledger_ok_def)
  with LOCK_BY_ID [OF k] j have "k = j" unfolding distinct_map by (metis inj_onD)
  with k show ?thesis by simp
qed





text \<open>A date whose period is not open takes no posting: whatever the journal, it is refused.\<close>

theorem closed_period_refuses:
  assumes "requireDate (jget input ''journalDateAD'') = Inr date" and "FISCAL_YEAR_BOUNDS date s = Some fy"
    and "PERIOD_BY_KEY (fy_id fy) (text_val (JStr (take 7 date)) 7) s = Some p" and "gp_status p \<noteq> ''OPEN''"
  shows "\<exists>e. postJournal input s = Inl e"
proof (cases "postJournal input s")
  case (Inr rs)
  obtain r s' where "rs = (r, s')" by (cases rs)
  with Inr have "postJournal input s = Inr (r, s')" by simp
  then obtain date' q s1 where "requireDate (jget input ''journalDateAD'') = Inr date'" "ensureOpenPeriod date' s = Inr (q, s1)"
    by (rule postJournal_stages)
  with assms have run: "ensureOpenPeriod date s = Inr (q, s1)" by simp
  with assms(2) obtain key a b where pb: "periodBounds (JStr (take 7 date)) = Inr (key, a, b)"
    by (auto simp: ensureOpenPeriod_def fiscalYearForDate_def periodKeyForDate_def)
  with periodBounds_key [OF pb] run assms(2,3,4) show ?thesis
    by (simp add: ensureOpenPeriod_def fiscalYearForDate_def periodKeyForDate_def)
qed simp

theorem closed_period_refuses_witness:
  "\<exists>e. postJournal demo_journal (demo_posted\<lparr>lg_periods := [demo_period\<lparr>gp_status := ''CLOSED''\<rparr>]\<rparr>) = Inl e"
proof (rule closed_period_refuses [where date = "''2024-08-01''" and fy = demo_fy and p = "demo_period\<lparr>gp_status := ''CLOSED''\<rparr>"])
  show "requireDate (jget demo_journal ''journalDateAD'') = Inr ''2024-08-01''" by (simp add: demo_journal_def demo_date)
qed (simp_all add: FISCAL_YEAR_BOUNDS_def PERIOD_BY_KEY_def demo_defs demo_fy_bounds text_eval)

text \<open>C40. In every reachable state the account groups form a forest in which every sub-group has its
parent's accounting type, statement group and normal balance; and the walk that guards a move ends, never
meets a cycle, and refuses exactly the moves under the group itself or a descendant.\<close>

theorem group_forest:
  assumes "ledger_reach s"
  shows "acyclic (parent_rel s) \<and>
    (\<forall>g \<in> set (lg_groups s). \<forall>p. gg_parentId g = Some p \<longrightarrow> (\<exists>h \<in> set (lg_groups s). gg_id h = p \<and> same_nature g h)) \<and>
    assertGroupMoveDoesNotCycle groupId parentId s =
      (if parentId \<noteq> [] \<and> (parentId, groupId) \<in> (parent_rel s)\<^sup>*
       then Inl (ApiError 400 ''A group cannot be moved under itself or one of its descendants.'') else Inr ((), s))"
proof -
  have inv: "groups_inv s" using reach_ok [OF assms] by (simp add: ledger_ok_def)
  then show ?thesis
    using move_walk_spec [OF inv, of "[]" "or_null parentId" groupId]
    by (auto simp: groups_inv_def assertGroupMoveDoesNotCycle_def tlift_def throw_def or_null_def)
qed

theorem group_forest_witness: "acyclic (parent_rel demo_posted)"
  using group_forest [OF demo_reach(1)] by blast

end
