(* ===== verification/LedgerPlaced.thy ===== *)
theory LedgerPlaced
  imports LedgerClaims
begin

text \<open>
  Two further facts of every reachable state, which the statements need: the chart stays placed -- each account in a group that
  exists, each group under a statement group of its type -- and a subledger entry carries the date of its journal.
\<close>

section \<open>The chart stays placed\<close>

lemma GROUP_BY_ID_ids: "ACCOUNT_GROUP_BY_ID x s = Some g \<Longrightarrow> x \<in> gg_id ` set (lg_groups s)"
  using GROUP_BY_ID_Some by fastforce

lemma placed_same: "lg_accounts s' = lg_accounts s \<Longrightarrow> lg_groups s' = lg_groups s \<Longrightarrow> chart_placed s \<Longrightarrow> chart_placed s'"
  by (simp add: chart_placed_def)

lemma group_nature_placed:
  assumes "group_nature parent i = Inr (ty, sg, nb)" and "\<forall>h. parent = Some h \<longrightarrow>
    gg_accountType h \<in> set ACCOUNT_TYPES \<and> gg_statementGroup h \<in> set (STATEMENT_GROUPS_BY_TYPE (gg_accountType h))"
  shows "ty \<in> set ACCOUNT_TYPES \<and> sg \<in> set (STATEMENT_GROUPS_BY_TYPE ty)"
  using assms by (auto simp: group_nature_def Let_def split: option.splits)

lemma createAccountGroup_nature:
  assumes "createAccountGroup i s = Inr (r, s')"
  obtains parent g nb where "\<forall>h. parent = Some h \<longrightarrow> h \<in> set (lg_groups s)"
    "group_nature parent i = Inr (gg_accountType g, gg_statementGroup g, nb)"
    "lg_groups s' = lg_groups s @ [g]" "lg_accounts s' = lg_accounts s"
proof -
  from assms show ?thesis
    unfolding createAccountGroup_def ACCOUNT_GROUP_INSERT_def find_parent_def Let_def
    by (clarsimp split: option.splits; intro that) (auto dest: GROUP_BY_ID_Some)
qed

lemma createAccountGroup_placed:
  assumes run: "createAccountGroup i s = Inr (r, s')" and inv: "chart_placed s"
  shows "chart_placed s'"
proof -
  from run obtain parent g nb where p: "\<forall>h. parent = Some h \<longrightarrow> h \<in> set (lg_groups s)"
    and nat: "group_nature parent i = Inr (gg_accountType g, gg_statementGroup g, nb)"
    and s': "lg_groups s' = lg_groups s @ [g]" "lg_accounts s' = lg_accounts s" by (rule createAccountGroup_nature)
  have "gg_accountType g \<in> set ACCOUNT_TYPES \<and> gg_statementGroup g \<in> set (STATEMENT_GROUPS_BY_TYPE (gg_accountType g))"
    using group_nature_placed [OF nat] p inv by (auto simp: chart_placed_def)
  with inv s' show ?thesis by (auto simp: chart_placed_def)
qed

lemma map_groups_placed:
  assumes "chart_placed s" and "lg_groups s' = map f (lg_groups s)" and "lg_accounts s' = lg_accounts s"
    and "\<forall>g \<in> set (lg_groups s). gg_id (f g) = gg_id g \<and> (\<exists>h \<in> set (lg_groups s).
      gg_accountType (f g) = gg_accountType h \<and> gg_statementGroup (f g) = gg_statementGroup h)"
  shows "chart_placed s'"
proof -
  have "gg_id ` set (lg_groups s') = gg_id ` set (lg_groups s)" using assms(2,4) by (force simp: image_iff)
  moreover have "gg_accountType g \<in> set ACCOUNT_TYPES \<and> gg_statementGroup g \<in> set (STATEMENT_GROUPS_BY_TYPE (gg_accountType g))"
    if "g \<in> set (lg_groups s')" for g
  proof -
    from that assms(2) obtain g0 where "g0 \<in> set (lg_groups s)" "g = f g0" by auto
    with assms(4) obtain h where "h \<in> set (lg_groups s)" "gg_accountType g = gg_accountType h" "gg_statementGroup g = gg_statementGroup h" by metis
    with assms(1) show ?thesis by (auto simp: chart_placed_def)
  qed
  ultimately show ?thesis using assms(1,3) by (simp add: chart_placed_def)
qed

lemma relabel_placed: "chart_placed s \<Longrightarrow> chart_placed (ACCOUNT_GROUP_UPDATE x nm so s)"
  by (rule map_groups_placed [where s = s and f = "\<lambda>g. if gg_id g = x
       then g\<lparr>gg_name := (case nm of None \<Rightarrow> gg_name g | Some n \<Rightarrow> n),
              gg_sortOrder := (case so of None \<Rightarrow> gg_sortOrder g | Some n \<Rightarrow> n)\<rparr> else g"])
    (auto simp: ACCOUNT_GROUP_UPDATE_def)

lemma move_group_placed:
  assumes run: "move_group e p s = Inr (r, s')" and inv: "chart_placed s" and e: "e \<in> set (lg_groups s)"
  shows "chart_placed s'"
proof -
  from run obtain h where h: "h \<in> set (lg_groups s)"
    and s': "s' = ACCOUNT_GROUP_SET_PARENT (gg_id e) p (gg_accountType h) (gg_statementGroup h) (gg_normalBalance h) s"
    using e by (fastforce simp: move_group_def find_parent_def Let_def split: option.splits dest!: assertGroupMove_state dest: GROUP_BY_ID_Some)
  show ?thesis unfolding s'
    by (rule map_groups_placed [OF inv, where f = "\<lambda>g. if gg_id g = gg_id e then g\<lparr>gg_parentId := p, gg_accountType := gg_accountType h,
        gg_statementGroup := gg_statementGroup h, gg_normalBalance := gg_normalBalance h\<rparr> else g"])
      (use h in \<open>auto simp: ACCOUNT_GROUP_SET_PARENT_def\<close>)
qed

lemma updateAccountGroup_placed:
  assumes run: "updateAccountGroup x i s = Inr (r, s')" and inv: "chart_placed s"
  shows "chart_placed s'"
proof -
  from run obtain e s1 nm so where e: "ACCOUNT_GROUP_BY_ID x s = Some e"
    and mv: "s1 = s \<or> (\<exists>r p. move_group e p s = Inr (r, s1))"
    and s': "s' = ACCOUNT_GROUP_UPDATE x nm so s1"
    by (auto simp: updateAccountGroup_def Let_def split: option.splits if_splits) blast+
  from e have "e \<in> set (lg_groups s)" by (simp add: GROUP_BY_ID_Some)
  with mv inv move_group_placed have "chart_placed s1" by blast
  then show ?thesis unfolding s' by (rule relabel_placed)
qed

lemma deleteAccountGroup_placed:
  assumes run: "deleteAccountGroup x s = Inr (r, s')" and inv: "chart_placed s"
  shows "chart_placed s'"
proof -
  from run have "ACCOUNT_GROUP_ACCOUNT_COUNT x s = 0" and s': "s' = ACCOUNT_GROUP_DELETE x s"
    by (auto simp: deleteAccountGroup_def split: option.splits)
  then have "\<forall>a \<in> set (lg_accounts s). ga_groupId a \<noteq> x" by (auto simp: ACCOUNT_GROUP_ACCOUNT_COUNT_def filter_empty_conv)
  with inv show ?thesis unfolding chart_placed_def s' by (auto simp: ACCOUNT_GROUP_DELETE_def image_iff) metis
qed

lemma createAccount_placed:
  assumes "createAccount i s = Inr (r, s')" and "chart_placed s"
  shows "chart_placed s'"
  using assms by (auto simp: createAccount_def ACCOUNT_INSERT_def Let_def chart_placed_def dest!: GROUP_BY_ID_ids)

lemma updated_group_ids:
  "updated_group a i s = Inr (k, t) \<Longrightarrow> t = s \<and> (\<forall>g. k = Some g \<longrightarrow> g \<in> gg_id ` set (lg_groups s))"
  by (auto simp: updated_group_def Let_def split: if_splits dest!: GROUP_BY_ID_ids)

lemma updateAccount_placed:
  assumes up: "updateAccount aid i s = Inr (r, s')" and inv: "chart_placed s"
  shows "chart_placed s'"
proof -
  from up obtain gid nm descr role active kind bank profile where
    gid: "\<forall>g. gid = Some g \<longrightarrow> g \<in> gg_id ` set (lg_groups s)"
    and s': "s' = ACCOUNT_UPDATE aid nm descr role active gid kind bank profile s"
    by (auto simp: updateAccount_def Let_def dest!: updated_role_state updated_group_ids split: option.splits)
  then show ?thesis using inv by (auto simp: chart_placed_def ACCOUNT_UPDATE_def updated_account_def split: option.splits)
qed

lemma deleteAccount_placed: "deleteAccount aid s = Inr (r, s') \<Longrightarrow> chart_placed s \<Longrightarrow> chart_placed s'"
  by (auto simp: deleteAccount_def ACCOUNT_DELETE_def chart_placed_def split: option.splits)

section \<open>Subledger entries carry the date of their journal\<close>

definition entries_dated :: "ledger \<Rightarrow> bool" where
  "entries_dated s \<longleftrightarrow> (\<forall>e \<in> set (lg_subledger s). \<exists>j \<in> set (lg_journals s). gj_id j = gs_journalId e \<and> gj_journalDateAD j = gs_entryDateAD e)"

lemma dated_same: "same_books s s' \<Longrightarrow> entries_dated s \<Longrightarrow> entries_dated s'"
  by (simp add: entries_dated_def same_books_def)

lemma posting_dated:
  assumes p: "posting s s' d j jls ls es" and inv: "entries_dated s"
  shows "entries_dated s'"
proof -
  note f = posting_fields [OF p]
  have w: "list_all2 (written (gj_id j) (gj_branchId j)) ls jls" and m: "list_all2 (mirrors d) es (control_pairs ls jls)"
    and jd: "gj_journalDateAD j = d" using p by (simp_all add: posting_def)
  have "gj_id j = gs_journalId e \<and> gj_journalDateAD j = gs_entryDateAD e" if "e \<in> set es" for e
  proof -
    from m that obtain l jl where "(l, jl) \<in> set (control_pairs ls jls)" "mirrors d e (l, jl)"
      by (metis in_set_conv_nth list_all2_conv_all_nth surj_pair)
    moreover from this(1) w have "gl_journalId l = gj_id j" by (auto simp: list_all2_iff written_def)
    ultimately show ?thesis by (simp add: mirrors_def jd)
  qed
  with inv show ?thesis by (auto simp: entries_dated_def f)
qed

section \<open>In every reachable state\<close>

definition books_placed :: "ledger \<Rightarrow> bool" where
  "books_placed s \<longleftrightarrow> chart_placed s \<and> entries_dated s"

lemma posting_placed:
  assumes "posting s s' d j jls ls es" and "books_placed s"
  shows "books_placed s'"
  using assms(2) posting_dated [OF assms(1)] by (simp add: books_placed_def chart_placed_def posting_fields [OF assms(1)])

lemma chart_step_placed: "same_books s s' \<Longrightarrow> chart_placed s' \<Longrightarrow> books_placed s \<Longrightarrow> books_placed s'"
  by (simp add: books_placed_def dated_same)

lemma step_placed:
  assumes "ledger_step s s'" and "ledger_ok s" and b: "books_placed s"
  shows "books_placed s'"
proof -
  have d: "distinct (map ga_id (lg_accounts s))" using assms(2) by (simp add: ledger_ok_def ledger_inv_def accounts_inv_def)
  have c: "chart_placed s" using b by (simp add: books_placed_def)
  note chart = chart_step_placed [OF _ _ b]
  from assms(1) show ?thesis
  proof cases
    case (post input r)
    from post(1) show ?thesis by (rule postJournal_posting) (rule posting_placed [OF _ b])
  next
    case (reverse jid input r)
    from reverse obtain c where "postJournal c s = Inr (r, s')" by (rule reverseJournal_effect)
    then show ?thesis by (rule postJournal_posting) (rule posting_placed [OF _ b])
  next
    case (create_period input p)
    then show ?thesis using createPeriod_books placed_same [OF _ _ c] chart by metis
  next
    case (set_period pid st actor p)
    then show ?thesis using setPeriodStatus_books placed_same [OF _ _ c] chart by metis
  next
    case (create_group input g)
    then show ?thesis using createAccountGroup_books createAccountGroup_placed [OF _ c] chart by metis
  next
    case (update_group gid input g)
    then show ?thesis using updateAccountGroup_books updateAccountGroup_placed [OF _ c] chart by metis
  next
    case (delete_group gid g)
    then show ?thesis using deleteAccountGroup_books deleteAccountGroup_placed [OF _ c] chart by metis
  next
    case (create_account input a)
    then show ?thesis using createAccount_books createAccount_placed [OF _ c] chart by metis
  next
    case (update_account aid input a)
    then show ?thesis using updateAccount_books [OF _ d] updateAccount_placed [OF _ c] chart by metis
  next
    case (delete_account aid a)
    then show ?thesis using deleteAccount_books deleteAccount_placed [OF _ c] chart by metis
  next
    case (reassign b' p generalBook)
    then show ?thesis using b by (auto simp: books_placed_def chart_placed_def entries_dated_def) (auto simp: SUBLEDGER_REASSIGN_PARTY_def)
  next
    case (masters bs fys ccs books)
    then show ?thesis using b by (simp add: books_placed_def chart_placed_def entries_dated_def)
  qed
qed

lemma reach_placed: "ledger_reach s \<Longrightarrow> books_placed s"
proof (induction rule: ledger_reach.induct)
  case (start s)
  then show ?case by (simp add: ledger_init_def books_placed_def entries_dated_def)
next
  case (step s s')
  then show ?case by (blast intro: step_placed reach_ok)
qed

section \<open>The tables stay well formed\<close>

lemma subledger_refs:
  assumes "ledger_ok s" and "e \<in> set (lg_subledger s)"
  shows "\<exists>l \<in> set (lg_lines s). gl_id l = gs_lineId e \<and> gl_journalId l = gs_journalId e \<and> gl_accountId l = gs_accountId e \<and>
    gl_branchId l = gs_branchId e \<and> gl_debit l = gs_debit e \<and> gl_credit l = gs_credit e"
proof -
  have "sub_key e \<in> set (map sub_key (lg_subledger s))" using assms(2) by simp
  also have "\<dots> = set (map line_key (filter (\<lambda>l. is_control s (gl_accountId l)) (lg_lines s)))"
    using assms(1) by (simp only: ledger_ok_def ledger_inv_def mirror_inv_def)
  finally show ?thesis by (auto simp: sub_key_def line_key_def)
qed

lemma row_ids:
  assumes "ledger_ok s"
  shows "distinct (map gl_id (lg_lines s))" and "distinct (map gs_id (lg_subledger s))"
proof -
  from assms obtain ns ms where n: "map gl_id (lg_lines s) = map (uid ''gll-'') ns" "distinct ns"
    and m: "map gs_id (lg_subledger s) = map (uid ''gls-'') ms" "distinct ms"
    unfolding ledger_ok_def ledger_inv_def lines_inv_def refs_inv_def by blast
  show "distinct (map gl_id (lg_lines s))" "distinct (map gs_id (lg_subledger s))"
    using n(2) m(2) unfolding n(1) m(1) by (simp_all add: distinct_map inj_on_def)
qed

text \<open>C34. In every reachable state the ledger's tables are well formed. No two groups, accounts, journals, lines or subledger entries
share an id. Every reference resolves: an account's group, a group's parent, a period's fiscal year, a journal's branch, fiscal year,
period and the journal it reverses, a line's journal, account, branch and cost centre, a subledger entry's line, journal, account,
branch and book. Every group has one of the five account types and a statement group of that type; every line holds whole paisa on
exactly one side; every subledger entry carries its line's amounts and its journal's date.\<close>

theorem tables_well_formed:
  assumes "ledger_reach s"
  shows "distinct (map gg_id (lg_groups s)) \<and> distinct (map ga_id (lg_accounts s)) \<and> distinct (map gj_id (lg_journals s)) \<and>
    distinct (map gl_id (lg_lines s)) \<and> distinct (map gs_id (lg_subledger s)) \<and>
    (\<forall>a \<in> set (lg_accounts s). ga_groupId a \<in> gg_id ` set (lg_groups s)) \<and>
    (\<forall>g \<in> set (lg_groups s). gg_accountType g \<in> set ACCOUNT_TYPES \<and> gg_statementGroup g \<in> set (STATEMENT_GROUPS_BY_TYPE (gg_accountType g)) \<and>
      (\<forall>p. gg_parentId g = Some p \<longrightarrow> p \<in> gg_id ` set (lg_groups s))) \<and>
    (\<forall>p \<in> set (lg_periods s). gp_fiscalYearId p \<in> fy_id ` set (lg_fiscalYears s)) \<and>
    (\<forall>j \<in> set (lg_journals s). gj_branchId j \<in> set (lg_branches s) \<and> gj_fiscalYearId j \<in> fy_id ` set (lg_fiscalYears s) \<and>
      gj_periodId j \<in> gp_id ` set (lg_periods s) \<and> (\<forall>x. gj_reversalOfId j = Some x \<longrightarrow> x \<in> gj_id ` set (lg_journals s))) \<and>
    (\<forall>l \<in> set (lg_lines s). (\<exists>j \<in> set (lg_journals s). gj_id j = gl_journalId l \<and> gj_branchId j = gl_branchId l) \<and>
      gl_accountId l \<in> ga_id ` set (lg_accounts s) \<and> gl_branchId l \<in> set (lg_branches s) \<and>
      (\<forall>c. gl_costCenterId l = Some c \<longrightarrow> c \<in> cc_id ` set (lg_costCenters s)) \<and>
      is_cents (gl_debit l) \<and> is_cents (gl_credit l) \<and> 0 \<le> gl_debit l \<and> 0 \<le> gl_credit l \<and> (0 < gl_debit l) \<noteq> (0 < gl_credit l)) \<and>
    (\<forall>e \<in> set (lg_subledger s). gs_subledgerId e \<in> sb_id ` set (lg_books s) \<and>
      (\<exists>l \<in> set (lg_lines s). gl_id l = gs_lineId e \<and> gl_journalId l = gs_journalId e \<and> gl_accountId l = gs_accountId e \<and>
        gl_branchId l = gs_branchId e \<and> gl_debit l = gs_debit e \<and> gl_credit l = gs_credit e) \<and>
      (\<exists>j \<in> set (lg_journals s). gj_id j = gs_journalId e \<and> gj_journalDateAD j = gs_entryDateAD e))"
proof -
  have ok: "ledger_ok s" and placed: "books_placed s" using reach_ok [OF assms] reach_placed [OF assms] .
  have "\<exists>j \<in> set (lg_journals s). gj_id j = gl_journalId l \<and> gj_branchId j = gl_branchId l" if "l \<in> set (lg_lines s)" for l
    using ok that unfolding ledger_ok_def ledger_inv_def lines_inv_def clean_inv_def by (metis (no_types, lifting) imageE)
  moreover from this have "gl_branchId l \<in> set (lg_branches s)" if "l \<in> set (lg_lines s)" for l
    using ok that unfolding ledger_ok_def refs_inv_def by metis
  moreover have "p \<in> gg_id ` set (lg_groups s)" if "g \<in> set (lg_groups s)" "gg_parentId g = Some p" for g p
    using ok that unfolding ledger_ok_def groups_inv_def by blast
  moreover have "gp_fiscalYearId p \<in> fy_id ` set (lg_fiscalYears s)" if "p \<in> set (lg_periods s)" for p
    using ok that by (auto simp: ledger_ok_def refs_inv_def)
  ultimately show ?thesis
    using ok placed journal_ids [of s] row_ids [OF ok] subledger_refs [OF ok]
    by (simp add: ledger_ok_def ledger_inv_def groups_inv_def accounts_inv_def lines_inv_def one_sided_def books_placed_def chart_placed_def
        entries_dated_def refs_inv_def reversal_inv_def)
qed

theorem tables_well_formed_witness: "ledger_reach demo_posted \<and> lg_lines demo_posted \<noteq> [] \<and> distinct (map gj_id (lg_journals demo_posted)) \<and>
    list_all (\<lambda>a. ga_groupId a \<in> gg_id ` set (lg_groups demo_posted)) (lg_accounts demo_posted) \<and>
    list_all (\<lambda>e. gs_subledgerId e \<in> sb_id ` set (lg_books demo_posted)) (lg_subledger demo_posted)"
proof -
  have "ledger_reach demo_posted" by (rule ledger_reach.step [OF ledger_reach.start [OF demo_init] demo_posted_step])
  moreover have "lg_lines demo_posted \<noteq> []" by (simp add: demo_posted_def)
  ultimately show ?thesis using tables_well_formed [of demo_posted] by (auto simp: list_all_iff)
qed

end
