(* ===== verification/StatementTree.thy ===== *)
theory StatementTree
  imports LedgerPlaced
begin

text \<open>
  The group trees of the financial statements (\<open>accountingStatements.service.ts\<close>): the groups of the chart linked to their
  parents, built from the roots down with a payload per node, and the fact both statements rest on -- summed over the roots, a
  payload that adds its own share to its children's is the sum of the shares of all groups.
\<close>

section \<open>Trees of groups\<close>

definition children_of :: "gl_group list \<Rightarrow> gl_group \<Rightarrow> gl_group list" where
  "children_of gs g = filter (\<lambda>c. opt_or_null (gg_parentId c) = Some (gg_id g)) gs"

definition root_groups :: "gl_group list \<Rightarrow> gl_group list" where
  "root_groups gs = filter (\<lambda>g. case opt_or_null (gg_parentId g) of None \<Rightarrow> True
     | Some p \<Rightarrow> \<not> list_ex (\<lambda>h. gg_id h = p) gs) gs"

text \<open>\<open>finalize\<close> from a node down; \<open>mk\<close> makes the node of its group and the nodes kept below it, or drops it. A branch of a
forest is no longer than the list of groups, so that many levels reach every leaf.\<close>

primrec group_tree :: "nat \<Rightarrow> (gl_group \<Rightarrow> 'n list \<Rightarrow> 'n option) \<Rightarrow> gl_group list \<Rightarrow> gl_group \<Rightarrow> 'n option" where
  "group_tree 0 mk gs g = None"
| "group_tree (Suc n) mk gs g = mk g (List.map_filter (\<lambda>c. group_tree n mk gs c) (children_of gs g))"

definition group_roots :: "(gl_group \<Rightarrow> 'n list \<Rightarrow> 'n option) \<Rightarrow> gl_group list \<Rightarrow> 'n list" where
  "group_roots mk gs = List.map_filter (group_tree (length gs) mk gs) (root_groups gs)"

section \<open>Depth\<close>

definition edges :: "gl_group list \<Rightarrow> (string \<times> string) set" where
  "edges gs = {(gg_id c, gg_id h) | c h. c \<in> set gs \<and> h \<in> set gs \<and> opt_or_null (gg_parentId c) = Some (gg_id h)}"

definition forest :: "gl_group list \<Rightarrow> bool" where
  "forest gs \<longleftrightarrow> distinct (map gg_id gs) \<and> acyclic (edges gs)"

definition depth :: "gl_group list \<Rightarrow> gl_group \<Rightarrow> nat" where
  "depth gs g = card {x. (gg_id g, x) \<in> (edges gs)\<^sup>+}"

lemma edges_ids: "(x, y) \<in> (edges gs)\<^sup>+ \<Longrightarrow> x \<in> gg_id ` set gs \<and> y \<in> gg_id ` set gs"
  by (induction rule: trancl.induct) (auto simp: edges_def)

lemma finite_above: "finite {x. (i, x) \<in> (edges gs)\<^sup>+}"
  by (rule finite_subset [of _ "gg_id ` set gs"]) (auto dest: edges_ids)

lemma edge_parent: "(i, x) \<in> edges gs \<Longrightarrow> forest gs \<Longrightarrow> c \<in> set gs \<Longrightarrow> gg_id c = i \<Longrightarrow> opt_or_null (gg_parentId c) = Some x"
  by (auto simp: edges_def forest_def distinct_map dest: inj_onD)

lemma depth_root:
  assumes "forest gs" and "g \<in> set gs"
  shows "g \<in> set (root_groups gs) \<longleftrightarrow> depth gs g = 0"
proof -
  have "(gg_id g, x) \<in> edges gs \<longleftrightarrow> opt_or_null (gg_parentId g) = Some x \<and> (\<exists>h \<in> set gs. gg_id h = x)" for x
    using edge_parent [OF _ assms(1,2) refl, of x] assms(2) by (auto simp: edges_def)
  then have "g \<in> set (root_groups gs) \<longleftrightarrow> (\<forall>x. (gg_id g, x) \<notin> edges gs)"
    using assms(2) by (auto simp: root_groups_def list_ex_iff split: option.splits)
  also have "\<dots> \<longleftrightarrow> {x. (gg_id g, x) \<in> (edges gs)\<^sup>+} = {}"
  proof -
    have "(\<exists>x. (gg_id g, x) \<in> (edges gs)\<^sup>+) \<longleftrightarrow> (\<exists>x. (gg_id g, x) \<in> edges gs)" by (metis r_into_trancl tranclD)
    then show ?thesis by blast
  qed
  finally show ?thesis using finite_above by (simp add: depth_def)
qed

lemma depth_child:
  assumes f: "forest gs" and c: "c \<in> set gs" "h \<in> set gs" "opt_or_null (gg_parentId c) = Some (gg_id h)"
  shows "depth gs c = Suc (depth gs h)"
proof -
  have e: "(gg_id c, gg_id h) \<in> edges gs" using c by (auto simp: edges_def)
  have "x = gg_id h" if "(gg_id c, x) \<in> edges gs" for x using edge_parent [OF that f c(1) refl] c(3) by simp
  then have "(gg_id c, x) \<in> (edges gs)\<^sup>+ \<longleftrightarrow> x = gg_id h \<or> (gg_id h, x) \<in> (edges gs)\<^sup>+" for x
    using e tranclD [of "gg_id c" x "edges gs"] rtranclD [of "gg_id h" x "edges gs"] trancl_into_trancl2 [OF e, of x] by blast
  then have "{x. (gg_id c, x) \<in> (edges gs)\<^sup>+} = insert (gg_id h) {x. (gg_id h, x) \<in> (edges gs)\<^sup>+}" by blast
  moreover have "gg_id h \<notin> {x. (gg_id h, x) \<in> (edges gs)\<^sup>+}" using f by (simp add: forest_def acyclic_def)
  ultimately show ?thesis using finite_above by (simp add: depth_def)
qed

lemma depth_bound:
  assumes "forest gs" and "g \<in> set gs"
  shows "depth gs g < length gs"
proof -
  have "{x. (gg_id g, x) \<in> (edges gs)\<^sup>+} \<subseteq> gg_id ` set gs - {gg_id g}"
    using assms by (auto simp: forest_def acyclic_def dest: edges_ids)
  then have "depth gs g \<le> card (gg_id ` set gs - {gg_id g})" unfolding depth_def by (intro card_mono) auto
  also have "\<dots> < card (gg_id ` set gs)" using assms by (intro card_Diff1_less) auto
  also have "\<dots> \<le> length gs" using card_image_le [of "set gs" gg_id] card_length [of gs] by simp
  finally show ?thesis .
qed

section \<open>Totals\<close>

definition tree_value :: "('n \<Rightarrow> rat) \<Rightarrow> 'n option \<Rightarrow> rat" where
  "tree_value val x = (case x of None \<Rightarrow> 0 | Some n \<Rightarrow> val n)"

lemma sum_map_filter: "sum_list (map val (List.map_filter f xs)) = (\<Sum>x \<leftarrow> xs. tree_value val (f x))"
  by (induction xs) (auto simp: List.map_filter_def tree_value_def split: option.splits)

lemma level_sum:
  fixes f :: "gl_group \<Rightarrow> rat"
  assumes "forest gs"
  shows "(\<Sum>g \<leftarrow> filter (\<lambda>g. depth gs g = k) gs. sum_list (map f (children_of gs g))) =
    sum_list (map f (filter (\<lambda>g. depth gs g = Suc k) gs))"
proof -
  have d: "distinct gs" using assms by (auto simp: forest_def distinct_map)
  have s: "sum_list (map h xs) = sum h (set xs)" if "distinct xs" for xs and h :: "gl_group \<Rightarrow> rat"
    using that by (rule sum_list_distinct_conv_sum_set)
  have "(\<Sum>g \<leftarrow> filter (\<lambda>g. depth gs g = k) gs. sum_list (map f (children_of gs g))) =
    (\<Sum>g \<in> {g \<in> set gs. depth gs g = k}. \<Sum>c \<in> set (children_of gs g). f c)"
    using d by (simp add: s children_of_def)
  also have "\<dots> = (\<Sum>c \<in> (\<Union>g \<in> {g \<in> set gs. depth gs g = k}. set (children_of gs g)). f c)"
    using assms by (intro sum.UNION_disjoint [symmetric]) (auto simp: children_of_def forest_def distinct_map dest: inj_onD)
  also have "(\<Union>g \<in> {g \<in> set gs. depth gs g = k}. set (children_of gs g)) = {c \<in> set gs. depth gs c = Suc k}"
  proof (intro equalityI subsetI)
    fix c assume "c \<in> {c \<in> set gs. depth gs c = Suc k}"
    then have c: "c \<in> set gs" "depth gs c = Suc k" by auto
    with depth_root [OF assms, of c] have "c \<notin> set (root_groups gs)" by simp
    with c obtain h where h: "h \<in> set gs" "opt_or_null (gg_parentId c) = Some (gg_id h)"
      by (auto simp: root_groups_def list_ex_iff split: option.splits)
    with depth_child [OF assms c(1) h] c show "c \<in> (\<Union>g \<in> {g \<in> set gs. depth gs g = k}. set (children_of gs g))"
      by (auto simp: children_of_def)
  qed (auto simp: children_of_def depth_child [OF assms])
  also have "(\<Sum>c \<in> {c \<in> set gs. depth gs c = Suc k}. f c) = sum_list (map f (filter (\<lambda>g. depth gs g = Suc k) gs))"
    using d by (simp add: s)
  finally show ?thesis .
qed

lemma tree_sum:
  fixes val :: "'n \<Rightarrow> rat"
  assumes f: "forest gs"
    and mk: "\<And>g ns. g \<in> set gs \<Longrightarrow> \<forall>n \<in> set ns. good n \<Longrightarrow>
      (case mk g ns of None \<Rightarrow> own g + sum_list (map val ns) = 0 | Some n \<Rightarrow> good n \<and> val n = own g + sum_list (map val ns))"
  shows "sum_list (map val (group_roots mk gs)) = sum_list (map own gs)" and "\<forall>n \<in> set (group_roots mk gs). good n"
proof -
  have g: "\<forall>x. group_tree n mk gs g = Some x \<longrightarrow> good x" if "g \<in> set gs" for n g using that
  proof (induction n arbitrary: g)
    case (Suc n)
    have "\<forall>x \<in> set (List.map_filter (\<lambda>c. group_tree n mk gs c) (children_of gs g)). good x"
      using Suc.IH by (auto simp: List.map_filter_def children_of_def)
    with mk [OF Suc.prems this] show ?case by (auto split: option.splits)
  qed simp
  then show "\<forall>n \<in> set (group_roots mk gs). good n" by (auto simp: group_roots_def List.map_filter_def root_groups_def)
  have step: "tree_value val (group_tree (Suc n) mk gs g) = own g + (\<Sum>c \<leftarrow> children_of gs g. tree_value val (group_tree n mk gs c))"
    if "g \<in> set gs" for n g
  proof -
    have "\<forall>x \<in> set (List.map_filter (\<lambda>c. group_tree n mk gs c) (children_of gs g)). good x"
      using g by (auto simp: List.map_filter_def children_of_def)
    from mk [OF that this] show ?thesis by (auto simp: tree_value_def sum_map_filter split: option.splits)
  qed
  have lev: "(\<Sum>g \<leftarrow> filter (\<lambda>g. depth gs g = k) gs. tree_value val (group_tree n mk gs g)) =
    sum_list (map own (filter (\<lambda>g. k \<le> depth gs g \<and> depth gs g < k + n) gs))" for n k
  proof (induction n arbitrary: k)
    case 0
    have "(\<Sum>g \<leftarrow> xs. tree_value val (group_tree 0 mk gs g)) = 0" for xs by (induction xs) (simp_all add: tree_value_def)
    then show ?case by simp
  next
    case (Suc n)
    have "(\<Sum>g \<leftarrow> filter (\<lambda>g. depth gs g = k) gs. tree_value val (group_tree (Suc n) mk gs g)) =
      (\<Sum>g \<leftarrow> filter (\<lambda>g. depth gs g = k) gs. own g + (\<Sum>c \<leftarrow> children_of gs g. tree_value val (group_tree n mk gs c)))"
      by (intro arg_cong [of _ _ sum_list] map_cong refl step) auto
    also have "\<dots> = sum_list (map own (filter (\<lambda>g. depth gs g = k) gs)) +
      sum_list (map own (filter (\<lambda>g. Suc k \<le> depth gs g \<and> depth gs g < Suc k + n) gs))"
      by (simp only: sum_list_addf level_sum [OF f] Suc)
    also have "\<dots> = sum_list (map own (filter (\<lambda>g. k \<le> depth gs g \<and> depth gs g < k + Suc n) gs))"
    proof -
      have "sum_list (map own (filter (\<lambda>g. depth gs g = k) xs)) + sum_list (map own (filter (\<lambda>g. Suc k \<le> depth gs g \<and> depth gs g < Suc k + n) xs)) =
        sum_list (map own (filter (\<lambda>g. k \<le> depth gs g \<and> depth gs g < k + Suc n) xs))" for xs
        by (induction xs) auto
      then show ?thesis .
    qed
    finally show ?case .
  qed
  have "root_groups gs = filter (\<lambda>g. depth gs g = 0) gs"
    using depth_root [OF f] unfolding root_groups_def by (intro filter_cong) auto
  then have "sum_list (map val (group_roots mk gs)) = sum_list (map own (filter (\<lambda>g. 0 \<le> depth gs g \<and> depth gs g < 0 + length gs) gs))"
    using lev [where n = "length gs" and k = 0] by (simp add: group_roots_def sum_map_filter)
  also have "filter (\<lambda>g. 0 \<le> depth gs g \<and> depth gs g < 0 + length gs) gs = gs" using depth_bound [OF f] by (simp add: filter_id_conv)
  finally show "sum_list (map val (group_roots mk gs)) = sum_list (map own gs)" .
qed

end
