(* ===== verification/JsArith.thy ===== *)
theory JsArith
  imports Money
begin

text \<open>
  Arithmetic and comparison of JavaScript numbers as instances of the library's syntactic classes:
  \<open>NaN\<close> and the infinities follow the language, a finite number is its exact rational. On finite
  numbers the operations are those of the rationals, by the simplification rules at the end.
\<close>

instantiation jnum :: "{zero, plus, minus, uminus, times, abs, ord}"
begin

definition zero_jnum :: jnum where "zero_jnum = Fin 0"

definition uminus_jnum :: "jnum \<Rightarrow> jnum" where "uminus_jnum = jneg"

fun plus_jnum :: "jnum \<Rightarrow> jnum \<Rightarrow> jnum" where
  "plus_jnum NaN y = NaN"
| "plus_jnum x NaN = NaN"
| "plus_jnum (Fin a) (Fin b) = Fin (a + b)"
| "plus_jnum PosInf NegInf = NaN"
| "plus_jnum NegInf PosInf = NaN"
| "plus_jnum PosInf y = PosInf"
| "plus_jnum NegInf y = NegInf"
| "plus_jnum (Fin a) y = y"

definition minus_jnum :: "jnum \<Rightarrow> jnum \<Rightarrow> jnum" where "minus_jnum x y = x + - y"

fun jsign :: "jnum \<Rightarrow> rat" where
  "jsign (Fin r) = sgn r"
| "jsign PosInf = 1"
| "jsign NegInf = -1"
| "jsign NaN = 0"

fun times_jnum :: "jnum \<Rightarrow> jnum \<Rightarrow> jnum" where
  "times_jnum (Fin a) (Fin b) = Fin (a * b)"
| "times_jnum x y =
     (if x = NaN \<or> y = NaN then NaN
      else let s = jsign x * jsign y in if s > 0 then PosInf else if s < 0 then NegInf else NaN)"

fun abs_jnum :: "jnum \<Rightarrow> jnum" where
  "abs_jnum (Fin r) = Fin \<bar>r\<bar>"
| "abs_jnum NegInf = PosInf"
| "abs_jnum n = n"

text \<open>A comparison with \<open>NaN\<close> is false.\<close>

fun less_jnum :: "jnum \<Rightarrow> jnum \<Rightarrow> bool" where
  "less_jnum (Fin a) (Fin b) = (a < b)"
| "less_jnum x y = ((x = NegInf \<and> y \<noteq> NegInf \<and> y \<noteq> NaN) \<or> (y = PosInf \<and> x \<noteq> PosInf \<and> x \<noteq> NaN))"

definition less_eq_jnum :: "jnum \<Rightarrow> jnum \<Rightarrow> bool" where
  "less_eq_jnum x y \<longleftrightarrow> x \<noteq> NaN \<and> (x < y \<or> x = y)"

instance ..

end

text \<open>\<open>x || 0\<close> of a number, and \<open>Math.max\<close>, \<open>Math.min\<close>.\<close>

definition num0 :: "jsval \<Rightarrow> jnum" where
  "num0 v = (case to_number v of NaN \<Rightarrow> 0 | n \<Rightarrow> n)"

definition jmax :: "jnum \<Rightarrow> jnum \<Rightarrow> jnum" where
  "jmax x y = (if x = NaN \<or> y = NaN then NaN else if x < y then y else x)"

definition jmin :: "jnum \<Rightarrow> jnum \<Rightarrow> jnum" where
  "jmin x y = (if x = NaN \<or> y = NaN then NaN else if y < x then y else x)"

text \<open>The \<open>money\<close> helper the posting services share.\<close>

definition money :: "jsval \<Rightarrow> jnum" where
  "money v = roundMoney (num0 v)"

lemma jnum_simps [simp]:
  "Fin a - Fin b = Fin (a - b)" "- Fin a = Fin (- a)" "(0::jnum) = Fin 0"
  "Fin a \<le> Fin b \<longleftrightarrow> a \<le> b"
  by (auto simp: minus_jnum_def uminus_jnum_def zero_jnum_def less_eq_jnum_def)

lemma jmax_Fin [simp]: "jmax (Fin a) (Fin b) = Fin (max a b)"
  by (simp add: jmax_def max_def)

lemma jmin_Fin [simp]: "jmin (Fin a) (Fin b) = Fin (min a b)"
  by (simp add: jmin_def min_def)

text \<open>An amount is money when it is a nonnegative number of paisa.\<close>

lemma money_cents: "money v = Fin a \<Longrightarrow> is_cents a"
  by (cases "num0 v") (auto simp: money_def)

lemma roundMoney_Fin: "roundMoney x = Fin a \<Longrightarrow> \<exists>b. x = Fin b \<and> a = round_money b"
  by (cases x) auto

lemma money_num [simp]: "money (JNum (Fin a)) = Fin (round_money a)"
  by (simp add: money_def num0_def)

lemma money_undef [simp]: "money JUndef = Fin 0" "money JNull = Fin 0"
  by (simp_all add: money_def num0_def)

end
