(* ===== verification/DocumentPosting.thy ===== *)
theory DocumentPosting
  imports LedgerClaims JsArith
begin

text \<open>
  What the posting services of the operational documents share
  (\<open>invoicePosting\<close>, \<open>returnPosting\<close>, \<open>paymentPosting\<close>, \<open>stockPosting\<close>, \<open>transferPosting\<close>,
  \<open>payrollPosting\<close>, \<open>cpePosting\<close> and \<open>accountingClosing\<close> under \<open>server/src/services\<close>): the
  lookup of the posting defaults, the construction of journal lines and of the input of
  \<open>postJournal\<close>. A document and its request data are \<open>jsval\<close> objects read by property; a
  template string prints with \<open>to_str\<close> (an em dash is written \<open>--\<close>).

  The locale \<open>document_posting\<close> is the contract between these services and the ledger: whatever
  they write, they write through \<open>postJournal\<close>. Everything proved of the ledger machine then
  holds after any document.
\<close>

section \<open>Posting defaults\<close>

definition ACCOUNTS_BY_POSTING_ROLES :: "string list \<Rightarrow> ledger \<Rightarrow> gl_account list" where
  "ACCOUNTS_BY_POSTING_ROLES roles s =
     filter (\<lambda>a. ga_isActive a \<and> (case ga_postingRole a of None \<Rightarrow> False | Some r \<Rightarrow> r \<in> set roles)) (lg_accounts s)"

text \<open>\<open>byRole[row.postingRole] = row\<close>: a later row overwrites an earlier one.\<close>

definition by_role :: "gl_account list \<Rightarrow> string \<Rightarrow> gl_account option" where
  "by_role rows role = List.find (\<lambda>a. role \<noteq> [] \<and> ga_postingRole a = Some role) (rev rows)"

definition load_roles :: "string \<Rightarrow> string \<Rightarrow> string list \<Rightarrow> (ledger, string \<Rightarrow> gl_account option) tx" where
  "load_roles subject again roles =
     tbind (tquery (ACCOUNTS_BY_POSTING_ROLES roles)) (\<lambda>rows.
     let missing = filter (\<lambda>r. by_role rows r = None) roles in
     tbind (tguard (missing = []) 400 (''Accounting is not configured for '' @ subject @ '': no active account has the '' @
       join '', '' missing @ '' posting default. '' @ again)) (\<lambda>_.
     treturn (by_role rows)))"

text \<open>\<open>needAccount\<close>.\<close>

definition need_account :: "(string \<Rightarrow> gl_account option) \<Rightarrow> string \<Rightarrow> string \<Rightarrow> string \<Rightarrow> gl_account res" where
  "need_account accounts role subject again =
     (case accounts role of Some a \<Rightarrow> Inr a
      | None \<Rightarrow> throw 400 (''Accounting is not configured for '' @ subject @ '': no active account has the '' @ role @
          '' posting default. '' @ again))"

section \<open>Journal lines and journals\<close>

text \<open>\<open>typeof v === 'string' && v.trim() ? v.trim() : null\<close>\<close>

definition trimmed_or_null :: "jsval \<Rightarrow> jsval" where
  "trimmed_or_null v = (case v of JStr x \<Rightarrow> if trim x = [] then JNull else JStr (trim x) | _ \<Rightarrow> JNull)"

definition ordinary_line :: "gl_account \<Rightarrow> jnum \<Rightarrow> jnum \<Rightarrow> string \<Rightarrow> jsval" where
  "ordinary_line account debit credit memo =
     JObj [(''accountId'', JStr (ga_id account)), (''debit'', JNum debit), (''credit'', JNum credit), (''memo'', JStr memo)]"

definition party_line ::
  "gl_account \<Rightarrow> jnum \<Rightarrow> jnum \<Rightarrow> string \<Rightarrow> string \<Rightarrow> jsval \<Rightarrow> jsval \<Rightarrow> jsval" where
  "party_line account debit credit memo subledgerType partyId partyName =
     JObj [(''accountId'', JStr (ga_id account)), (''debit'', JNum debit), (''credit'', JNum credit), (''memo'', JStr memo),
       (''subledgerType'', JStr subledgerType), (''partyId'', partyId), (''partyName'', partyName)]"

definition control_line :: "gl_account \<Rightarrow> jnum \<Rightarrow> jnum \<Rightarrow> jsval \<Rightarrow> jsval \<Rightarrow> string \<Rightarrow> jsval" where
  "control_line account debit credit partyId partyName memo =
     party_line account debit credit memo (ga_subledgerType account) (trimmed_or_null partyId) (trimmed_or_null partyName)"

definition document_journal :: "jsval \<Rightarrow> jsval \<Rightarrow> string \<Rightarrow> string \<Rightarrow> jsval \<Rightarrow> jsval \<Rightarrow> jsval list \<Rightarrow> jsval" where
  "document_journal date branch memo sourceType sourceId actor lines =
     JObj [(''journalDateAD'', date), (''branchId'', branch), (''memo'', JStr memo), (''sourceType'', JStr sourceType),
       (''sourceId'', sourceId), (''actor'', js_or actor JNull), (''lines'', JArr lines)]"

text \<open>A document that posts no journal returns null.\<close>

definition post_some :: "jsval \<Rightarrow> (ledger, posted_journal option) tx" where
  "post_some input = tbind (postJournal input) (\<lambda>j. treturn (Some j))"

definition no_journal :: "(ledger, posted_journal option) tx" where
  "no_journal = treturn None"

lemma line_fields [simp]:
  "jget (ordinary_line a d c m) ''accountId'' = JStr (ga_id a)" "jget (ordinary_line a d c m) ''debit'' = JNum d"
  "jget (ordinary_line a d c m) ''credit'' = JNum c" "jget (ordinary_line a d c m) ''costCenterId'' = JUndef"
  "jget (ordinary_line a d c m) ''subledgerType'' = JUndef"
  "jget (party_line a d c m ty i n) ''accountId'' = JStr (ga_id a)" "jget (party_line a d c m ty i n) ''debit'' = JNum d"
  "jget (party_line a d c m ty i n) ''credit'' = JNum c" "jget (party_line a d c m ty i n) ''costCenterId'' = JUndef"
  "jget (party_line a d c m ty i n) ''subledgerType'' = JStr ty" "jget (party_line a d c m ty i n) ''partyId'' = i"
  "jget (party_line a d c m ty i n) ''partyName'' = n"
  by (simp_all add: ordinary_line_def party_line_def)

lemma document_fields [simp]:
  "jget (document_journal d b m st si ac ls) ''journalDateAD'' = d" "jget (document_journal d b m st si ac ls) ''branchId'' = b"
  "jget (document_journal d b m st si ac ls) ''lines'' = JArr ls" "jget (document_journal d b m st si ac ls) ''reversalOfId'' = JUndef"
  "jget (document_journal d b m st si ac ls) ''sourceType'' = JStr st" "jget (document_journal d b m st si ac ls) ''sourceId'' = si"
  "jget (document_journal d b m st si ac ls) ''currency'' = JUndef" "jget (document_journal d b m st si ac ls) ''exchangeRate'' = JUndef"
  "jget (document_journal d b m st si ac ls) ''referenceDateAD'' = JUndef" "jget (document_journal d b m st si ac ls) ''chequeDateAD'' = JUndef"
  by (simp_all add: document_journal_def)

lemma document_not_reversal [simp]: "reverses_document (document_journal d b m st si ac ls) s"
  by (simp add: reverses_document_def text_null_def text_val_def)

section \<open>The contract with the ledger\<close>

text \<open>A posting service writes to the ledger only through the ledger's own operations.\<close>

locale document_posting =
  fixes act :: "jsval \<Rightarrow> (ledger, 'a) tx"
  assumes through_ledger: "ledger_ok s \<Longrightarrow> act input s = Inr (r, s') \<Longrightarrow> ledger_steps s s'"
begin

lemma keeps_reachable: "ledger_reach s \<Longrightarrow> act input s = Inr (r, s') \<Longrightarrow> ledger_reach s'"
proof -
  assume "ledger_reach s" and "act input s = Inr (r, s')"
  from through_ledger [OF reach_ok [OF this(1)] this(2)] this(1) show ?thesis
    by (induction rule: ledger_steps.induct) (auto intro: ledger_reach.step)
qed

lemma keeps_ok: "ledger_ok s \<Longrightarrow> act input s = Inr (r, s') \<Longrightarrow> ledger_ok s'"
  using through_ledger steps_ok by blast

lemma keeps_history:
  assumes "ledger_ok s" and "act input s = Inr (r, s')"
  shows "prefix (lg_journals s) (lg_journals s') \<and> prefix (lg_lines s) (lg_lines s') \<and>
    prefix (map entry_facts (lg_subledger s)) (map entry_facts (lg_subledger s'))"
  using steps_history [OF through_ledger [OF assms] assms(1)] by (auto intro: prefixI)

end

text \<open>
  The operation of one document: it returns null and leaves the ledger alone, or posts one journal
  through \<open>postJournal\<close>; a journal it posts as a reversal does not reverse a manual voucher.
\<close>

definition one_journal :: "ledger \<Rightarrow> posted_journal option \<Rightarrow> ledger \<Rightarrow> bool" where
  "one_journal s r s' \<longleftrightarrow> r = None \<and> s' = s \<or>
     (\<exists>input j. r = Some j \<and> postJournal input s = Inr (j, s') \<and> reverses_document input s)"

locale journal_document =
  fixes act :: "jsval \<Rightarrow> (ledger, posted_journal option) tx"
  assumes posts_one: "ledger_ok s \<Longrightarrow> act input s = Inr (r, s') \<Longrightarrow> one_journal s r s'"

lemma steps_one: "ledger_step s s' \<Longrightarrow> ledger_steps s s'"
  by (rule ledger_steps.more [OF ledger_steps.none])

lemma post_steps: "postJournal input s = Inr (r, s') \<Longrightarrow> reverses_document input s \<Longrightarrow> ledger_steps s s'"
  by (blast intro: steps_one ledger_step.post)

lemma one_journal_steps: "one_journal s r s' \<Longrightarrow> ledger_steps s s'"
  by (auto simp: one_journal_def intro: post_steps)

sublocale journal_document \<subseteq> document_posting act
  by unfold_locales (blast dest: posts_one one_journal_steps)

lemma one_journal_None [simp]: "one_journal s None s"
  by (simp add: one_journal_def)

lemma post_some_one:
  "post_some input s = Inr (r, s') \<Longrightarrow> reverses_document input s \<Longrightarrow> one_journal s r s'"
  by (auto simp: post_some_def one_journal_def)

lemma post_some_eq [simp]: "post_some input s = Inr (r, s') \<longleftrightarrow> (\<exists>j. postJournal input s = Inr (j, s') \<and> r = Some j)"
  by (auto simp: post_some_def)

lemma no_journal_eq [simp]: "no_journal s = Inr (r, s') \<longleftrightarrow> r = None \<and> s' = s"
  by (auto simp: no_journal_def)

lemma load_roles_eq:
  "load_roles subject again roles s = Inr (m, s') \<longleftrightarrow>
     s' = s \<and> m = by_role (ACCOUNTS_BY_POSTING_ROLES roles s) \<and> (\<forall>r \<in> set roles. m r \<noteq> None)"
  by (auto simp: load_roles_def Let_def filter_empty_conv)

lemma by_role_Some:
  "by_role (ACCOUNTS_BY_POSTING_ROLES roles s) r = Some a \<Longrightarrow> a \<in> set (lg_accounts s) \<and> ga_isActive a \<and> ga_postingRole a = Some r"
  by (auto simp: by_role_def ACCOUNTS_BY_POSTING_ROLES_def dest: find_SomeD)

section \<open>What a posting writes\<close>

text \<open>Account ids fit their VARCHAR(50) column.\<close>

definition ids_fit :: "ledger \<Rightarrow> bool" where
  "ids_fit s \<longleftrightarrow> (\<forall>a \<in> set (lg_accounts s). length (ga_id a) \<le> 50)"

definition entry :: "gl_line \<Rightarrow> string \<times> rat \<times> rat" where
  "entry l = (gl_accountId l, gl_debit l, gl_credit l)"

definition entries :: "posted_journal \<Rightarrow> ledger \<Rightarrow> (string \<times> rat \<times> rat) list" where
  "entries r s = map entry (JOURNAL_LINES (pj_id r) s)"

text \<open>The entry a raw line asks for.\<close>

definition asks :: "jsval \<Rightarrow> string \<times> rat \<times> rat \<Rightarrow> bool" where
  "asks raw e \<longleftrightarrow> (case e of (a, d, c) \<Rightarrow> text_val (jget raw ''accountId'') 50 = a \<and>
     roundMoney (to_number (jget raw ''debit'')) = Fin d \<and> roundMoney (to_number (jget raw ''credit'')) = Fin c)"

lemma journal_lines_ask:
  assumes "journal_lines accounts centers b n raws = Inr jls"
  shows "list_all2 (\<lambda>raw jl. asks raw (ga_id (jl_account jl), jl_debit jl, jl_credit jl)) raws jls"
  using assms
proof (induction raws arbitrary: n jls)
  case (Cons raw raws)
  then obtain jl js where jl: "journal_line accounts centers b n raw = Inr jl"
    and js: "journal_lines accounts centers b (Suc n) raws = Inr js" and "jls = jl # js" by auto
  moreover have "amount v f = Inr x \<Longrightarrow> roundMoney (to_number v) = Fin x" for v f x
    by (auto simp: amount_def split: jnum.splits if_splits)
  with jl have "asks raw (ga_id (jl_account jl), jl_debit jl, jl_credit jl)"
    by (auto simp: journal_line_def asks_def Let_def split: option.splits if_splits dest!: find_SomeD)
  ultimately show ?case using Cons.IH by simp
qed simp

lemma post_entries:
  assumes "postJournal input s = Inr (r, s')" and "ledger_ok s"
  shows "list_all2 asks (arr_or_empty (jget input ''lines'')) (entries r s')"
proof -
  from assms(1) obtain date j jls ls es accounts centers where p: "posting s s' date j jls ls es" and r: "pj_id r = gj_id j"
    and jl: "journal_lines accounts centers (gj_branchId j) 1 (arr_or_empty (jget input ''lines'')) = Inr jls"
    by (rule postJournal_posting)
  have "list_all2 (written (gj_id j) (gj_branchId j)) ls jls" using p by (simp add: posting_def)
  then have "list_all2 (\<lambda>jl e. e = (ga_id (jl_account jl), jl_debit jl, jl_credit jl)) jls (map entry ls)"
    by (auto simp: list_all2_conv_all_nth written_def entry_def)
  moreover have "JOURNAL_LINES (pj_id r) s' = ls"
    using posting_new_lines(1) [OF p] assms(2) by (simp add: r ledger_ok_def)
  ultimately show ?thesis
    using journal_lines_ask [OF jl] by (auto simp: entries_def list_all2_conv_all_nth)
qed

lemma clean_id: "ledger_ok s \<Longrightarrow> ids_fit s \<Longrightarrow> a \<in> set (lg_accounts s) \<Longrightarrow> text_val (JStr (ga_id a)) 50 = ga_id a"
  by (intro text_val_clean) (auto simp: ledger_ok_def clean_inv_def ids_fit_def)

lemma asks_ordinary: "asks (ordinary_line a x y m) e \<longleftrightarrow>
   (\<exists>d c. e = (text_val (JStr (ga_id a)) 50, d, c) \<and> roundMoney x = Fin d \<and> roundMoney y = Fin c)"
  by (auto simp: asks_def split: prod.splits)

lemma asks_party: "asks (party_line a x y m ty i n) e \<longleftrightarrow>
   (\<exists>d c. e = (text_val (JStr (ga_id a)) 50, d, c) \<and> roundMoney x = Fin d \<and> roundMoney y = Fin c)"
  by (auto simp: asks_def split: prod.splits)

lemmas asks_line = asks_ordinary asks_party

section \<open>When a posting succeeds\<close>

lemma insert_lines_complete:
  assumes "\<forall>l \<in> set ls. ga_isControl (jl_account l) \<longrightarrow> pick_book (books (ga_id (jl_account l))) (jl_partyId l) \<noteq> None"
  shows "\<exists>s'. tfor (insert_line books jid b date) ls s = Inr ((), s')"
  using assms
proof (induction ls arbitrary: s)
  case (Cons l ls)
  have "\<exists>s1. insert_line books jid b date l s = Inr ((), s1)"
  proof (cases "ga_isControl (jl_account l)")
    case True
    with Cons.prems obtain book where "pick_book (books (ga_id (jl_account l))) (jl_partyId l) = Some book" by auto
    with True show ?thesis by (simp add: insert_line_def Let_def tbind_def randomUUID_def texec_def)
  next
    case False
    then show ?thesis by (simp add: insert_line_def Let_def tbind_def randomUUID_def texec_def treturn_def)
  qed
  then obtain s1 where "insert_line books jid b date l s = Inr ((), s1)" by blast
  moreover obtain s2 where "tfor (insert_line books jid b date) ls s1 = Inr ((), s2)" using Cons by auto
  ultimately show ?case by (auto simp: tbind_def)
qed (simp add: treturn_def)

lemma post_completes:
  assumes "requireDate (jget input ''journalDateAD'') = Inr date"
    and "text_val (jget input ''branchId'') 50 = b" "b \<noteq> []" "BRANCH_EXISTS b s"
    and "arr_or_empty (jget input ''lines'') = raws" "2 \<le> length raws" "length raws \<le> 1000" "text_ids raws ''accountId'' \<noteq> []"
    and "journal_lines (ACCOUNTS_BY_IDS (text_ids raws ''accountId'') s) (COST_CENTERS_BY_IDS (text_ids raws ''costCenterId'') s) b 1 raws = Inr jls"
    and "check_totals jls = Inr ()" "check_books s [] jls = Inr ()"
    and "ensureOpenPeriod date s = Inr (p, s1)"
    and "journal_header input date b p (uid ''glj-'' (lg_uuid s1)) (Suc (lg_seq s1)) = Inr h"
    and "gj_reversalOfId h = None" "gj_sourceType h \<noteq> ''OPENING_BALANCE''" "length (uid ''glj-'' (lg_uuid s1)) \<le> 50"
    and "\<forall>l \<in> set jls. ga_isControl (jl_account l) \<longrightarrow> pick_book (SUBLEDGER_BOOKS_BY_ACCOUNT (ga_id (jl_account l)) s) (jl_partyId l) \<noteq> None"
  shows "\<exists>r s'. postJournal input s = Inr (r, s') \<and> pj_id r = gj_id h"
proof -
  have id: "gj_id h = uid ''glj-'' (lg_uuid s1)" using journal_header_ok [OF assms(13)] by simp
  obtain s' where "tfor (insert_line (\<lambda>aid. SUBLEDGER_BOOKS_BY_ACCOUNT aid s) (gj_id h) b date) jls
      (s1\<lparr>lg_seq := Suc (lg_seq s1), lg_uuid := Suc (lg_uuid s1), lg_journals := lg_journals s1 @ [h]\<rparr>) = Inr ((), s')"
    using insert_lines_complete [OF assms(17)] by blast
  with assms show ?thesis
    by (simp add: postJournal_def Let_def tx_run NEXT_JOURNAL_SEQUENCE_def randomUUID_def JOURNAL_INSERT_def id uid_def)
qed

text \<open>A raw line the ledger takes: an active account, one side, whole paisa, and for a control account its party and a book.\<close>

definition accepted :: "ledger \<Rightarrow> jsval \<Rightarrow> gl_account \<times> rat \<times> rat \<Rightarrow> bool" where
  "accepted s raw x \<longleftrightarrow> (case x of (a, d, c) \<Rightarrow>
     a \<in> set (lg_accounts s) \<and> ga_isActive a \<and> jget raw ''accountId'' = JStr (ga_id a) \<and> ga_id a \<noteq> [] \<and>
     jget raw ''debit'' = JNum (Fin d) \<and> jget raw ''credit'' = JNum (Fin c) \<and> jget raw ''costCenterId'' = JUndef \<and>
     is_cents d \<and> is_cents c \<and> 0 \<le> d \<and> 0 \<le> c \<and> d \<le> 9999999999999 / 100 \<and> c \<le> 9999999999999 / 100 \<and> (0 < d) \<noteq> (0 < c) \<and>
     (if ga_isControl a
      then to_upper (text_val (jget raw ''subledgerType'') 30) = ga_subledgerType a \<and>
        (text_null (jget raw ''partyId'') 100 \<noteq> None \<or> text_null (jget raw ''partyName'') 200 \<noteq> None) \<and>
        pick_book (SUBLEDGER_BOOKS_BY_ACCOUNT (ga_id a) s) (text_null (jget raw ''partyId'') 100) \<noteq> None
      else to_upper (text_val (jget raw ''subledgerType'') 30) \<in> {[], ''NONE''}))"

lemma find_unique: "distinct (map ga_id as) \<Longrightarrow> a \<in> set as \<Longrightarrow> List.find (\<lambda>x. ga_id x = ga_id a) as = Some a"
  by (induction as) (auto simp: image_iff)

lemma amount_Fin: "is_cents d \<Longrightarrow> 0 \<le> d \<Longrightarrow> d \<le> 9999999999999 / 100 \<Longrightarrow> amount (JNum (Fin d)) f = Inr d"
  by (simp add: amount_def)

lemma accepted_line:
  assumes "accepted s raw (a, d, c)" and "text_val (JStr (ga_id a)) 50 = ga_id a"
    and "a \<in> set as" and "distinct (map ga_id as)"
  shows "\<exists>jl. journal_line as centers b n raw = Inr jl \<and> jl_account jl = a \<and> jl_debit jl = d \<and> jl_credit jl = c \<and>
    (ga_isControl a \<longrightarrow> jl_partyId jl = text_null (jget raw ''partyId'') 100)"
  using assms find_unique [OF assms(4,3)]
  by (auto simp: accepted_def journal_line_def amount_Fin Let_def check_cost_center_def check_party_def text_null_def text_val_def
      split: if_splits)

lemma accepted_lines:
  assumes "list_all2 (accepted s) raws xs" and "\<forall>x \<in> set xs. text_val (JStr (ga_id (fst x))) 50 = ga_id (fst x) \<and> fst x \<in> set as"
    and "distinct (map ga_id as)"
  shows "\<exists>jls. journal_lines as centers b n raws = Inr jls \<and> map (\<lambda>jl. (jl_account jl, jl_debit jl, jl_credit jl)) jls = xs \<and>
    list_all2 (\<lambda>raw jl. ga_isControl (jl_account jl) \<longrightarrow> jl_partyId jl = text_null (jget raw ''partyId'') 100) raws jls"
  using assms(1,2)
proof (induction arbitrary: n rule: list_all2_induct)
  case (Cons raw raws x xs)
  obtain a d c where x: "x = (a, d, c)" by (cases x) auto
  with Cons accepted_line [OF _ _ _ assms(3), of s raw a d c centers b n] obtain jl where
    "journal_line as centers b n raw = Inr jl" "jl_account jl = a" "jl_debit jl = d" "jl_credit jl = c"
    "ga_isControl a \<longrightarrow> jl_partyId jl = text_null (jget raw ''partyId'') 100" by auto
  moreover from Cons obtain jls where "journal_lines as centers b (Suc n) raws = Inr jls"
    "map (\<lambda>jl. (jl_account jl, jl_debit jl, jl_credit jl)) jls = xs"
    "list_all2 (\<lambda>raw jl. ga_isControl (jl_account jl) \<longrightarrow> jl_partyId jl = text_null (jget raw ''partyId'') 100) raws jls" by fastforce
  ultimately show ?case by (intro exI [of _ "jl # jls"]) (simp add: x)
qed simp

lemma check_books_ok:
  "\<forall>l \<in> set ls. ga_isControl (jl_account l) \<longrightarrow> SUBLEDGER_BOOKS_BY_ACCOUNT (ga_id (jl_account l)) s \<noteq> [] \<Longrightarrow>
   check_books s seen ls = Inr ()"
  by (induction ls arbitrary: seen) (auto simp: Let_def)

lemma pick_book_none: "pick_book [] p = None"
  by (simp add: pick_book_def split: option.split)

definition postable :: "string \<Rightarrow> string \<Rightarrow> ledger \<Rightarrow> bool" where
  "postable date b s \<longleftrightarrow> requireDate (JStr date) = Inr date \<and> text_val (JStr b) 50 = b \<and> b \<noteq> [] \<and> BRANCH_EXISTS b s \<and>
     (case ensureOpenPeriod date s of Inl _ \<Rightarrow> False | Inr (p, s1) \<Rightarrow> length (uid ''glj-'' (lg_uuid s1)) \<le> 50)"

lemma accepted_sums:
  assumes "list_all2 (accepted s) raws xs" and "xs \<noteq> []"
    and "sum_list (map (\<lambda>(a, d, c). d) xs) = sum_list (map (\<lambda>(a, d, c). c) xs)"
  shows "0 < sum_list (map (\<lambda>(a, d, c). d) xs)"
    and "is_cents (sum_list (map (\<lambda>(a, d, c). d) xs))"
proof -
  have each: "\<forall>(a, d, c) \<in> set xs. 0 \<le> d \<and> 0 \<le> c \<and> 0 < d + c \<and> is_cents d"
    using assms(1) by (induction rule: list_all2_induct) (auto simp: accepted_def)
  then show "is_cents (sum_list (map (\<lambda>(a, d, c). d) xs))" by (intro is_cents_sum_list) auto
  have "0 < sum_list (map (\<lambda>(a, d, c). d) xs) + sum_list (map (\<lambda>(a, d, c). c) xs)"
    using assms(2) each
  proof (induction xs)
    case (Cons x xs)
    then show ?case by (cases "xs = []") fastforce+
  qed simp
  with assms(3) show "0 < sum_list (map (\<lambda>(a, d, c). d) xs)" by simp
qed

lemma document_header:
  "\<exists>h. journal_header (document_journal dt br memo st sid actor raws) date b p jid n = Inr h"
  by (simp add: journal_header_def Let_def currency_input_def text_or_def text_val_def demo_rate optionalDate_def is_upper_def)

lemma accepted_jlines:
  assumes lines: "list_all2 (accepted s) raws xs" and ok: "ledger_ok s" "ids_fit s" and len: "2 \<le> length xs" "length xs \<le> 1000"
    and sums: "sum_list (map (\<lambda>(a, d, c). d) xs) = sum_list (map (\<lambda>(a, d, c). c) xs)"
  shows "\<exists>jls. journal_lines (ACCOUNTS_BY_IDS (text_ids raws ''accountId'') s) centers b 1 raws = Inr jls \<and> check_totals jls = Inr () \<and>
    check_books s [] jls = Inr () \<and> length jls = length xs \<and> length raws = length xs \<and> text_ids raws ''accountId'' \<noteq> [] \<and>
    (\<forall>l \<in> set jls. ga_isControl (jl_account l) \<longrightarrow> pick_book (SUBLEDGER_BOOKS_BY_ACCOUNT (ga_id (jl_account l)) s) (jl_partyId l) \<noteq> None)"
proof -
  let ?ids = "text_ids raws ''accountId''"
  let ?as = "ACCOUNTS_BY_IDS ?ids s"
  have acc: "fst x \<in> set (lg_accounts s) \<and> text_val (JStr (ga_id (fst x))) 50 = ga_id (fst x) \<and> fst x \<in> set ?as \<and> ga_id (fst x) \<in> set ?ids"
    if x: "x \<in> set xs" for x
  proof -
    from lines x obtain raw where raw: "raw \<in> set raws" "accepted s raw x" by (metis list_all2_iff in_set_impl_in_set_zip2 length_map set_zip_leftD case_prodD)
    obtain a d c where xa: "x = (a, d, c)" by (cases x) auto
    with raw(2) have a: "a \<in> set (lg_accounts s)" "jget raw ''accountId'' = JStr (ga_id a)" "ga_id a \<noteq> []" by (auto simp: accepted_def)
    note id = clean_id [OF ok a(1)]
    have "ga_id a \<in> set ?ids" using raw(1) a id unfolding text_ids_def by (auto intro!: image_eqI [of _ _ raw])
    with xa a id show ?thesis by (simp add: ACCOUNTS_BY_IDS_def)
  qed
  have d: "distinct (map ga_id ?as)" using ok(1)
    by (auto simp: ledger_ok_def ledger_inv_def accounts_inv_def ACCOUNTS_BY_IDS_def intro: distinct_map_filter)
  from accepted_lines [OF lines _ d, of centers b 1] acc obtain jls where
    jls: "journal_lines ?as centers b 1 raws = Inr jls" "map (\<lambda>jl. (jl_account jl, jl_debit jl, jl_credit jl)) jls = xs"
    "list_all2 (\<lambda>raw jl. ga_isControl (jl_account jl) \<longrightarrow> jl_partyId jl = text_null (jget raw ''partyId'') 100) raws jls" by auto
  have books: "pick_book (SUBLEDGER_BOOKS_BY_ACCOUNT (ga_id (jl_account l)) s) (jl_partyId l) \<noteq> None"
    if l: "l \<in> set jls" "ga_isControl (jl_account l)" for l
  proof -
    from l(1) obtain i where i: "i < length jls" "l = jls ! i" by (metis in_set_conv_nth)
    then have "xs ! i = (jl_account l, jl_debit l, jl_credit l)" using jls(2) by auto
    with lines i jls(2,3) l(2) show ?thesis by (auto simp: list_all2_conv_all_nth accepted_def)
  qed
  have "map jl_debit jls = map (\<lambda>(a, d, c). d) xs" "map jl_credit jls = map (\<lambda>(a, d, c). c) xs"
    using jls(2) by auto
  with accepted_sums [OF lines _ sums] len sums have totals: "check_totals jls = Inr ()"
    by (fastforce simp: check_totals_def Let_def)
  have chk: "check_books s [] jls = Inr ()" using books pick_book_none by (intro check_books_ok) metis
  have ids: "?ids \<noteq> []" using acc [of "hd xs"] len(1) by (cases xs) auto
  have "length raws = length xs" "length jls = length xs" using lines jls(2) by (auto dest: list_all2_lengthD)
  with jls(1) totals chk ids books show ?thesis by blast
qed

lemma document_completes:
  assumes lines: "list_all2 (accepted s) raws xs" and len: "2 \<le> length xs" "length xs \<le> 1000"
    and sums: "sum_list (map (\<lambda>(a, d, c). d) xs) = sum_list (map (\<lambda>(a, d, c). c) xs)"
    and ready: "postable date b s" and ok: "ledger_ok s" "ids_fit s"
    and st: "text_or (JStr st) 30 ''MANUAL'' \<noteq> ''OPENING_BALANCE''"
  shows "\<exists>r s'. postJournal (document_journal (JStr date) (JStr b) memo st sid actor raws) s = Inr (r, s')"
proof -
  let ?in = "document_journal (JStr date) (JStr b) memo st sid actor raws"
  from accepted_jlines [OF lines ok len sums] obtain jls where
    jls: "journal_lines (ACCOUNTS_BY_IDS (text_ids raws ''accountId'') s) (COST_CENTERS_BY_IDS (text_ids raws ''costCenterId'') s) b 1 raws = Inr jls"
      "check_totals jls = Inr ()" "check_books s [] jls = Inr ()" "length raws = length xs" "text_ids raws ''accountId'' \<noteq> []"
    and books: "\<forall>l \<in> set jls. ga_isControl (jl_account l) \<longrightarrow> pick_book (SUBLEDGER_BOOKS_BY_ACCOUNT (ga_id (jl_account l)) s) (jl_partyId l) \<noteq> None"
    by blast
  from ready obtain p s1 where per: "ensureOpenPeriod date s = Inr (p, s1)" and id: "length (uid ''glj-'' (lg_uuid s1)) \<le> 50"
    by (auto simp: postable_def split: sum.splits)
  obtain h where h: "journal_header ?in date b p (uid ''glj-'' (lg_uuid s1)) (Suc (lg_seq s1)) = Inr h"
    using document_header by blast
  show ?thesis
    using post_completes [of ?in date b s raws jls p s1 h, OF _ _ _ _ _ _ _ jls(5,1,2,3) per h] ready len jls(4) journal_header_ok [OF h] books id st
    by (auto simp: postable_def text_null_def text_val_def)
qed

end
