(* ===== verification/InvoicePosting.thy ===== *)
theory InvoicePosting
  imports DocumentPosting
begin

text \<open>
  \<open>server/src/services/invoicePosting.service.ts\<close>: the journals of sales and purchase invoices,
  and the contra journal of a cancelled document, which every other posting service reuses.
\<close>

section \<open>Invoices\<close>

definition SALES_ROLES :: "string list" where
  "SALES_ROLES = [''AR_CONTROL'', ''SALES'', ''TAX_OUTPUT'', ''COGS'', ''INVENTORY'']"

definition PURCHASE_ROLES :: "string list" where
  "PURCHASE_ROLES = [''AP_CONTROL'', ''INVENTORY'', ''TAX_INPUT'']"

definition loadPostingDefaults :: "string list \<Rightarrow> (ledger, string \<Rightarrow> gl_account option) tx" where
  "loadPostingDefaults = load_roles ''invoices'' ''Set it in Accounting -> Posting defaults, then post the invoice again.''"

text \<open>The cost of goods: \<open>sum + money(quantity) * money(unitCost)\<close> over the entries.\<close>

definition cogs_sum :: "jsval list \<Rightarrow> jnum" where
  "cogs_sum = foldl (\<lambda>sum e. sum + money (jget e ''quantity'') * money (jget e ''unitCost'')) 0"

definition half_paisa :: jnum where
  "half_paisa = Fin (5 / 1000)"

definition sales_lines ::
  "(string \<Rightarrow> gl_account) \<Rightarrow> jsval \<Rightarrow> string \<Rightarrow> jnum \<Rightarrow> jnum \<Rightarrow> jnum \<Rightarrow> jnum \<Rightarrow> jsval list" where
  "sales_lines acc bill memo grand revenue vat cogsTotal =
     (if 0 < grand then [control_line (acc ''AR_CONTROL'') grand 0 (jget bill ''customerId'') (jget bill ''customerName'') memo] else []) @
     (if 0 < revenue then [ordinary_line (acc ''SALES'') 0 revenue memo] else []) @
     (if 0 < vat then [ordinary_line (acc ''TAX_OUTPUT'') 0 vat memo] else []) @
     (if 0 < cogsTotal
      then [ordinary_line (acc ''COGS'') cogsTotal 0 (memo @ '' -- weighted-average cost''),
            ordinary_line (acc ''INVENTORY'') 0 cogsTotal (memo @ '' -- weighted-average cost'')] else [])"

definition postSalesInvoiceLedger :: "jsval \<Rightarrow> (ledger, posted_journal option) tx" where
  "postSalesInvoiceLedger input =
     (let bill = jget input ''invoice''; grand = money (jget bill ''grandTotal''); vat = money (jget bill ''vatAmount'');
          revenue = roundMoney (grand - vat); cogsTotal = roundMoney (cogs_sum (arr_or_empty (jget input ''cogs'')))
      in if abs grand < half_paisa \<and> abs cogsTotal < half_paisa then no_journal
         else tbind (loadPostingDefaults SALES_ROLES) (\<lambda>defaults.
         let memo = ''Sales invoice '' @ to_str (jget bill ''invoiceNumber'');
             ls = sales_lines (\<lambda>r. the (defaults r)) bill memo grand revenue vat cogsTotal
         in if length ls < 2 then no_journal
            else post_some (document_journal (jget bill ''invoiceDateAD'') (jget bill ''branchId'') memo ''SALES_INVOICE''
                   (jget bill ''id'') (jget input ''actor'') ls)))"

definition purchase_lines ::
  "(string \<Rightarrow> gl_account) \<Rightarrow> jsval \<Rightarrow> string \<Rightarrow> jnum \<Rightarrow> jnum \<Rightarrow> jnum \<Rightarrow> jsval list" where
  "purchase_lines acc bill memo grand net vat =
     (if 0 < net then [ordinary_line (acc ''INVENTORY'') net 0 memo] else []) @
     (if 0 < vat then [ordinary_line (acc ''TAX_INPUT'') vat 0 memo] else []) @
     (if 0 < grand then [control_line (acc ''AP_CONTROL'') 0 grand (jget bill ''supplierId'') (jget bill ''supplierName'') memo] else [])"

definition postPurchaseInvoiceLedger :: "jsval \<Rightarrow> (ledger, posted_journal option) tx" where
  "postPurchaseInvoiceLedger input =
     (let bill = jget input ''invoice''; grand = money (jget bill ''grandTotal''); vat = money (jget bill ''vatAmount'');
          net = roundMoney (grand - vat)
      in if abs grand < half_paisa then no_journal
         else tbind (loadPostingDefaults PURCHASE_ROLES) (\<lambda>defaults.
         let memo = ''Purchase invoice '' @ to_str (jget bill ''invoiceNumber'');
             ls = purchase_lines (\<lambda>r. the (defaults r)) bill memo grand net vat
         in if length ls < 2 then no_journal
            else post_some (document_journal (jget bill ''invoiceDateAD'') (jget bill ''branchId'') memo ''PURCHASE_INVOICE''
                   (jget bill ''id'') (jget input ''actor'') ls)))"

section \<open>The contra journal of a document\<close>

text \<open>The newest journal of a source document; journals are kept in the order they were posted.\<close>

definition JOURNAL_FIND_BY_SOURCE :: "string \<Rightarrow> jsval \<Rightarrow> ledger \<Rightarrow> gl_journal option" where
  "JOURNAL_FIND_BY_SOURCE sourceType sourceId s =
     List.find (\<lambda>j. gj_sourceType j = sourceType \<and> gj_sourceId j \<noteq> None \<and> gj_sourceId j = str_val sourceId) (rev (lg_journals s))"

text \<open>A line is read joined with its account.\<close>

definition reversal_line :: "string \<Rightarrow> gl_subentry list \<Rightarrow> gl_line \<Rightarrow> gl_account \<Rightarrow> jsval" where
  "reversal_line journalNo es l a =
     (let debit = money (JNum (Fin (gl_credit l))); credit = money (JNum (Fin (gl_debit l))); memo = ''Reversal of '' @ journalNo
      in if ga_isControl a
         then (let party = entry_of_line es (gl_id l) in
               party_line a debit credit memo (ga_subledgerType a)
                 (case party of None \<Rightarrow> JNull | Some e \<Rightarrow> opt_json (gs_partyId e))
                 (case party of None \<Rightarrow> JNull | Some e \<Rightarrow> opt_json (gs_partyName e)))
         else ordinary_line a debit credit memo)"

definition reversal_lines :: "journal_view \<Rightarrow> ledger \<Rightarrow> jsval list" where
  "reversal_lines v s =
     List.map_filter (\<lambda>l. map_option (reversal_line (gj_journalNo (jv_header v)) (jv_subledger v) l) (ACCOUNT_BY_ID (gl_accountId l) s))
       (jv_lines v)"

definition reversal_journal :: "jsval \<Rightarrow> journal_view \<Rightarrow> string \<Rightarrow> jsval list \<Rightarrow> jsval" where
  "reversal_journal input v rsource ls =
     (let original = jv_header v in
      JObj [(''journalDateAD'', jget input ''dateAD''), (''branchId'', JStr (gj_branchId original)),
        (''memo'', JStr (''Reversal of '' @ gj_journalNo original @ '' -- '' @ to_str (jget input ''sourceId'') @
          (if truthy (jget input ''reason'') then '' ('' @ to_str (jget input ''reason'') @ '')'' else []))),
        (''sourceType'', JStr rsource), (''sourceId'', jget input ''sourceId''), (''reversalOfId'', JStr (gj_id original)),
        (''actor'', js_or (jget input ''actor'') JNull), (''lines'', JArr ls)])"

definition reverseSourceJournal :: "string \<Rightarrow> string \<Rightarrow> jsval \<Rightarrow> (ledger, posted_journal option) tx" where
  "reverseSourceJournal sourceType reversalSourceType input =
     tbind (tquery (JOURNAL_FIND_BY_SOURCE sourceType (jget input ''sourceId''))) (\<lambda>row.
     case row of None \<Rightarrow> no_journal
     | Some found \<Rightarrow>
         if gj_status found \<noteq> ''POSTED'' then no_journal
         else tbind (tquery (readJournal (gj_id found))) (\<lambda>original.
         case original of None \<Rightarrow> no_journal
         | Some v \<Rightarrow> tbind (tquery (reversal_lines v)) (\<lambda>ls.
             if length ls < 2 then no_journal
             else post_some (reversal_journal input v
               (if reversalSourceType = [] then sourceType @ ''_REVERSAL'' else reversalSourceType) ls))))"

datatype invoice_kind = SALES_INVOICE | PURCHASE_INVOICE

fun invoice_kind_str :: "invoice_kind \<Rightarrow> string" where
  "invoice_kind_str SALES_INVOICE = ''SALES_INVOICE''"
| "invoice_kind_str PURCHASE_INVOICE = ''PURCHASE_INVOICE''"

definition reverseInvoiceJournal :: "invoice_kind \<Rightarrow> jsval \<Rightarrow> (ledger, posted_journal option) tx" where
  "reverseInvoiceJournal kind = reverseSourceJournal (invoice_kind_str kind) []"

section \<open>The contract\<close>

interpretation sales_invoice: journal_document postSalesInvoiceLedger
  by unfold_locales
    (auto simp: postSalesInvoiceLedger_def Let_def loadPostingDefaults_def load_roles_eq simp del: post_some_eq
      intro: post_some_one split: if_splits)

interpretation purchase_invoice: journal_document postPurchaseInvoiceLedger
  by unfold_locales
    (auto simp: postPurchaseInvoiceLedger_def Let_def loadPostingDefaults_def load_roles_eq simp del: post_some_eq
      intro: post_some_one split: if_splits)

text \<open>A contra journal mirrors the newest journal of its document, line by line.\<close>

lemma post_entries_mirror:
  assumes ok: "ledger_ok s" and ls: "\<forall>l \<in> set ls. l \<in> set (lg_lines s)"
    and asked: "list_all2 asks (List.map_filter (\<lambda>l. map_option (reversal_line no es l) (ACCOUNT_BY_ID (gl_accountId l) s)) ls) xs"
  shows "list_all2 (\<lambda>l e. e = (gl_accountId l, gl_credit l, gl_debit l)) ls xs"
  using ls asked
proof (induction ls arbitrary: xs)
  case (Cons l ls)
  have "gl_accountId l \<in> ga_id ` set (lg_accounts s)" and cents: "is_cents (gl_debit l)" "is_cents (gl_credit l)"
    and id: "text_val (JStr (gl_accountId l)) 50 = gl_accountId l"
    using ok Cons.prems(1) by (auto simp: ledger_ok_def ledger_inv_def lines_inv_def clean_inv_def one_sided_def)
  then have "ACCOUNT_BY_ID (gl_accountId l) s \<noteq> None" by (auto simp: ACCOUNT_BY_ID_def find_None_iff)
  then obtain a where a: "ACCOUNT_BY_ID (gl_accountId l) s = Some a" by blast
  then have aid: "ga_id a = gl_accountId l" by (auto simp: ACCOUNT_BY_ID_def dest: find_SomeD)
  from a Cons.prems obtain x xs' where xs: "xs = x # xs'" and x: "asks (reversal_line no es l a) x"
    and rest: "list_all2 asks (List.map_filter (\<lambda>l. map_option (reversal_line no es l) (ACCOUNT_BY_ID (gl_accountId l) s)) ls) xs'"
    by (auto simp: list_all2_Cons1)
  from x aid cents id have "x = (gl_accountId l, gl_credit l, gl_debit l)"
    by (auto simp: reversal_line_def Let_def asks_line split: if_splits)
  with Cons.IH [OF _ rest] Cons.prems(1) show ?case by (simp add: xs)
qed simp

lemma find_source: "JOURNAL_FIND_BY_SOURCE st sid s = Some j \<Longrightarrow> j \<in> set (lg_journals s) \<and> gj_sourceType j = st \<and> gj_sourceId j = str_val sid"
  unfolding JOURNAL_FIND_BY_SOURCE_def by (drule find_SomeD) simp

lemma reverseSourceJournal_run:
  assumes "reverseSourceJournal st rst input s = Inr (r, s')"
  obtains "r = None" "s' = s"
  | found v p where "JOURNAL_FIND_BY_SOURCE st (jget input ''sourceId'') s = Some found" "readJournal (gj_id found) s = Some v"
    "postJournal (reversal_journal input v (if rst = [] then st @ ''_REVERSAL'' else rst) (reversal_lines v s)) s = Inr (p, s')" "r = Some p"
  using assms unfolding reverseSourceJournal_def by (clarsimp split: option.splits if_splits simp del: not_less)

lemma readJournal_view: "readJournal x s = Some v \<Longrightarrow> JOURNAL_LOCK_BY_ID x s = Some (jv_header v) \<and> jv_lines v = JOURNAL_LINES x s"
  by (auto simp: readJournal_def split: option.splits)

lemma reversal_fields [simp]:
  "jget (reversal_journal input v st ls) ''reversalOfId'' = JStr (gj_id (jv_header v))"
  "jget (reversal_journal input v st ls) ''branchId'' = JStr (gj_branchId (jv_header v))"
  "jget (reversal_journal input v st ls) ''lines'' = JArr ls"
  by (simp_all add: reversal_journal_def Let_def)

lemma journal_unique: "ledger_ok s \<Longrightarrow> j \<in> set (lg_journals s) \<Longrightarrow> k \<in> set (lg_journals s) \<Longrightarrow> gj_id j = gj_id k \<Longrightarrow> j = k"
  using journal_ids [of s] by (auto simp: ledger_ok_def distinct_map dest: inj_onD)

lemma journal_text:
  assumes "ledger_ok s" and "j \<in> set (lg_journals s)"
  shows "text_null (JStr (gj_id j)) 50 = Some (gj_id j)"
proof -
  from assms obtain ms where "map gj_id (lg_journals s) = map (uid ''glj-'') ms"
    by (auto simp: ledger_ok_def ledger_inv_def journals_inv_def)
  then have "gj_id j \<in> uid ''glj-'' ` set ms" using assms(2) by (metis imageI list.set_map)
  then have "gj_id j \<noteq> []" by (auto simp: uid_def)
  then show ?thesis using assms by (intro journal_id_text) (auto simp: ledger_ok_def clean_inv_def)
qed

lemma reversal_of_document:
  assumes "ledger_ok s" and "JOURNAL_FIND_BY_SOURCE st sid s = Some found" and "readJournal (gj_id found) s = Some v"
    and "to_upper st \<notin> set REVERSIBLE_MANUAL_SOURCES"
  shows "jv_header v = found" and "reverses_document (reversal_journal input v rst ls) s"
proof -
  note f = find_source [OF assms(2)] and v = readJournal_view [OF assms(3)]
  from v have "jv_header v \<in> set (lg_journals s)" "gj_id (jv_header v) = gj_id found" using LOCK_BY_ID by blast+
  with f journal_unique [OF assms(1)] show h: "jv_header v = found" by blast
  have "\<not> manual_source j" if "j \<in> set (lg_journals s)" "gj_id j = gj_id found" for j
    using that f journal_unique [OF assms(1), of j found] assms(4) by (auto simp: manual_source_def)
  then show "reverses_document (reversal_journal input v rst ls) s"
    using journal_text [OF assms(1)] f by (simp add: reverses_document_def h)
qed

lemma reverseSourceJournal_one:
  assumes "ledger_ok s" and "reverseSourceJournal st rst input s = Inr (r, s')" and "to_upper st \<notin> set REVERSIBLE_MANUAL_SOURCES"
  shows "one_journal s r s'"
  using assms(2)
proof (cases rule: reverseSourceJournal_run)
  case (2 found v p)
  with reversal_of_document(2) [OF assms(1) 2(1,2) assms(3)] show ?thesis by (auto simp: one_journal_def)
qed simp

lemma reverseSourceJournal_mirrors:
  assumes ok: "ledger_ok s" and run: "reverseSourceJournal st rst input s = Inr (Some p, s')"
    and st: "to_upper st \<notin> set REVERSIBLE_MANUAL_SOURCES"
  shows "\<exists>found. JOURNAL_FIND_BY_SOURCE st (jget input ''sourceId'') s = Some found \<and>
    list_all2 mirrored (JOURNAL_LINES (gj_id found) s) (JOURNAL_LINES (pj_id p) s') \<and>
    (\<exists>j \<in> set (lg_journals s'). gj_id j = pj_id p \<and> gj_reversalOfId j = Some (gj_id found))"
  using run
proof (cases rule: reverseSourceJournal_run)
  case (2 found v q)
  note h = reversal_of_document [OF ok 2(1,2) st] and f = find_source [OF 2(1)] and w = readJournal_view [OF 2(2)]
  from 2(4) have q: "q = p" by simp
  let ?in = "reversal_journal input v (if rst = [] then st @ ''_REVERSAL'' else rst) (reversal_lines v s)"
  have post: "postJournal ?in s = Inr (p, s')" using 2(3) q by simp
  have lines: "list_all2 (\<lambda>l e. e = (gl_accountId l, gl_credit l, gl_debit l)) (JOURNAL_LINES (gj_id found) s) (entries p s')"
    using post_entries [OF post ok] w unfolding reversal_fields reversal_lines_def arr_or_empty.simps
    by (intro post_entries_mirror [OF ok]) (auto simp: JOURNAL_LINES_def)
  from post obtain date j jls ls es where ps: "posting s s' date j jls ls es" and pj: "pj_id p = gj_id j"
    and b: "gj_branchId j = text_val (jget ?in ''branchId'') 50" and rv: "gj_reversalOfId j = text_null (jget ?in ''reversalOfId'') 50"
    by (rule postJournal_posting)
  have new: "JOURNAL_LINES (pj_id p) s' = ls" using posting_new_lines(1) [OF ps] ok by (simp add: pj ledger_ok_def)
  have "\<forall>l \<in> set ls. gl_branchId l = gj_branchId j"
    using ps written_sums by (fastforce simp: posting_def)
  moreover have "gj_branchId j = gj_branchId found" using ok f by (simp add: b h ledger_ok_def clean_inv_def)
  moreover have "\<forall>l \<in> set (JOURNAL_LINES (gj_id found) s). gl_branchId l = gj_branchId found"
    using ok f by (auto simp: JOURNAL_LINES_def ledger_ok_def clean_inv_def)
  ultimately have "list_all2 mirrored (JOURNAL_LINES (gj_id found) s) ls"
    using lines by (auto simp: entries_def new list_all2_conv_all_nth mirrored_def entry_def)
  moreover have "gj_reversalOfId j = Some (gj_id found)" using journal_text [OF ok] f by (simp add: rv h)
  ultimately show ?thesis
    using 2(1) by (intro exI [of _ found]) (simp add: new [unfolded pj] pj posting_fields [OF ps])
qed simp

interpretation reverse_invoice: journal_document "reverseInvoiceJournal kind"
proof
  fix input s r s' assume "ledger_ok s" and "reverseInvoiceJournal kind input s = Inr (r, s')"
  then show "one_journal s r s'" unfolding reverseInvoiceJournal_def
    by (rule reverseSourceJournal_one) (cases kind; simp add: REVERSIBLE_MANUAL_SOURCES_def to_upper_def upper_char_def is_lower_def)
qed

end
