(* ===== verification/ReturnPosting.thy ===== *)
theory ReturnPosting
  imports InvoicePosting
begin

text \<open>
  \<open>server/src/services/returnPosting.service.ts\<close>: the journals of sales and purchase returns and
  the issue costs a sales return restores. \<open>transaction_logs\<close> is the list of movement rows.
\<close>

section \<open>Issue costs\<close>

record tx_row =
  tx_productId :: string
  tx_branchId :: string
  tx_changeType :: string
  tx_quantityChanged :: rat
  tx_unitCost :: rat
  tx_referenceDocId :: "string option"

text \<open>One row per product (a \<open>GROUP BY\<close>, whose order is immaterial: the rows are looked up by product); \<open>match\<close> is the statement's filter.\<close>

definition issue_costs :: "(tx_row \<Rightarrow> bool) \<Rightarrow> tx_row list \<Rightarrow> (string \<times> rat \<times> rat) list" where
  "issue_costs match rows =
     (let ms = filter match rows in
      map (\<lambda>p. let ps = filter (\<lambda>r. tx_productId r = p) ms in
        (p, sum_list (map (\<lambda>r. - tx_quantityChanged r) ps), sum_list (map (\<lambda>r. - tx_quantityChanged r * tx_unitCost r) ps)))
       (remdups (map tx_productId ms)))"

definition SR_ISSUE_COSTS :: "string \<Rightarrow> string list \<Rightarrow> tx_row list \<Rightarrow> (string \<times> rat \<times> rat) list" where
  "SR_ISSUE_COSTS invoiceNumber ids =
     issue_costs (\<lambda>r. tx_referenceDocId r = Some invoiceNumber \<and> tx_changeType r = ''SALES_INVOICE'' \<and> tx_productId r \<in> set ids)"

definition loadSalesIssueCosts :: "string \<Rightarrow> string list \<Rightarrow> tx_row list \<Rightarrow> (string \<times> rat) list" where
  "loadSalesIssueCosts invoiceNumber productIds rows =
     (let ids = remdups (filter (\<lambda>p. p \<noteq> []) productIds)
      in if invoiceNumber = [] \<or> ids = [] then []
         else map (\<lambda>(p, quantity, val). (p, round_money (val / quantity)))
                (filter (\<lambda>(p, quantity, val). 0 < quantity) (SR_ISSUE_COSTS invoiceNumber ids rows)))"

section \<open>Returns\<close>

definition SALES_RETURN_ROLES :: "string list" where
  "SALES_RETURN_ROLES = [''AR_CONTROL'', ''SALES'', ''TAX_OUTPUT'', ''COGS'', ''INVENTORY'']"

definition PURCHASE_RETURN_ROLES :: "string list" where
  "PURCHASE_RETURN_ROLES = [''AP_CONTROL'', ''INVENTORY'', ''TAX_INPUT'']"

definition loadDefaults :: "string list \<Rightarrow> string \<Rightarrow> (ledger, string \<Rightarrow> gl_account option) tx" where
  "loadDefaults roles document =
     load_roles document ''Set it in Accounting -> Posting defaults, then post the return again.'' roles"

definition sales_return_lines ::
  "(string \<Rightarrow> gl_account) \<Rightarrow> jsval \<Rightarrow> string \<Rightarrow> jnum \<Rightarrow> jnum \<Rightarrow> jnum \<Rightarrow> jnum \<Rightarrow> jsval list" where
  "sales_return_lines acc ret memo grand revenue vat cogsTotal =
     (if 0 < grand then [control_line (acc ''AR_CONTROL'') 0 grand (jget ret ''customerId'') (jget ret ''customerName'')
        (memo @ '' -- customer credit'')] else []) @
     (if 0 < revenue then [ordinary_line (acc ''SALES'') revenue 0 (memo @ '' -- revenue reversed'')] else []) @
     (if 0 < vat then [ordinary_line (acc ''TAX_OUTPUT'') vat 0 (memo @ '' -- output VAT reversed'')] else []) @
     (if 0 < cogsTotal
      then [ordinary_line (acc ''INVENTORY'') cogsTotal 0 (memo @ '' -- inventory restored at issue cost''),
            ordinary_line (acc ''COGS'') 0 cogsTotal (memo @ '' -- COGS reversed at issue cost'')] else [])"

definition postSalesReturnJournal :: "jsval \<Rightarrow> (ledger, posted_journal option) tx" where
  "postSalesReturnJournal input =
     (let ret = jget input ''ret''; grand = money (jget ret ''grandTotal''); vat = money (jget ret ''vatAmount'');
          revenue = roundMoney (grand - vat); cogsTotal = roundMoney (cogs_sum (arr_or_empty (jget input ''cogs'')))
      in if abs grand < half_paisa \<and> abs cogsTotal < half_paisa then no_journal
         else tbind (loadDefaults SALES_RETURN_ROLES ''sales returns'') (\<lambda>defaults.
         let memo = ''Sales return '' @ to_str (jget ret ''returnNumber'');
             ls = sales_return_lines (\<lambda>r. the (defaults r)) ret memo grand revenue vat cogsTotal
         in if length ls < 2 then no_journal
            else post_some (document_journal (jget ret ''returnDateAD'') (jget ret ''branchId'') memo ''SALES_RETURN''
                   (jget ret ''id'') (jget input ''actor'') ls)))"

definition purchase_return_lines ::
  "(string \<Rightarrow> gl_account) \<Rightarrow> jsval \<Rightarrow> string \<Rightarrow> jnum \<Rightarrow> jnum \<Rightarrow> jnum \<Rightarrow> jsval list" where
  "purchase_return_lines acc ret memo grand net vat =
     [control_line (acc ''AP_CONTROL'') grand 0 (jget ret ''supplierId'') (jget ret ''supplierName'') (memo @ '' -- supplier debit'')] @
     (if 0 < net then [ordinary_line (acc ''INVENTORY'') 0 net (memo @ '' -- inventory returned'')] else []) @
     (if 0 < vat then [ordinary_line (acc ''TAX_INPUT'') 0 vat (memo @ '' -- input VAT reversed'')] else [])"

definition postPurchaseReturnJournal :: "jsval \<Rightarrow> (ledger, posted_journal option) tx" where
  "postPurchaseReturnJournal input =
     (let ret = jget input ''ret''; grand = money (jget ret ''grandTotal''); vat = money (jget ret ''vatAmount'');
          net = roundMoney (grand - vat)
      in if abs grand < half_paisa then no_journal
         else tbind (loadDefaults PURCHASE_RETURN_ROLES ''purchase returns'') (\<lambda>defaults.
         let memo = ''Purchase return '' @ to_str (jget ret ''returnNumber'');
             ls = purchase_return_lines (\<lambda>r. the (defaults r)) ret memo grand net vat
         in if length ls < 2 then no_journal
            else post_some (document_journal (jget ret ''returnDateAD'') (jget ret ''branchId'') memo ''PURCHASE_RETURN''
                   (jget ret ''id'') (jget input ''actor'') ls)))"

datatype return_kind = SALES_RETURN | PURCHASE_RETURN

fun return_kind_str :: "return_kind \<Rightarrow> string" where
  "return_kind_str SALES_RETURN = ''SALES_RETURN''"
| "return_kind_str PURCHASE_RETURN = ''PURCHASE_RETURN''"

text \<open>The fields a wrapper hands to \<open>reverseSourceJournal\<close>.\<close>

definition reversal_request :: "jsval \<Rightarrow> jsval \<Rightarrow> jsval \<Rightarrow> jsval \<Rightarrow> jsval" where
  "reversal_request sourceId dateAD reason actor =
     JObj [(''sourceId'', sourceId), (''dateAD'', dateAD), (''reason'', reason), (''actor'', js_or actor JNull)]"

definition reverseReturnJournal :: "return_kind \<Rightarrow> jsval \<Rightarrow> (ledger, posted_journal option) tx" where
  "reverseReturnJournal kind input =
     reverseSourceJournal (return_kind_str kind) (return_kind_str kind @ ''_REVERSAL'')
       (reversal_request (jget input ''returnId'') (jget input ''dateAD'') (jget input ''reason'') (jget input ''actor''))"

section \<open>The contract\<close>

lemmas source_eval = REVERSIBLE_MANUAL_SOURCES_def to_upper_def upper_char_def is_lower_def

interpretation sales_return: journal_document postSalesReturnJournal
  by unfold_locales
    (auto simp: postSalesReturnJournal_def Let_def loadDefaults_def load_roles_eq simp del: post_some_eq
      intro: post_some_one split: if_splits)

interpretation purchase_return: journal_document postPurchaseReturnJournal
  by unfold_locales
    (auto simp: postPurchaseReturnJournal_def Let_def loadDefaults_def load_roles_eq simp del: post_some_eq
      intro: post_some_one split: if_splits)

interpretation reverse_return: journal_document "reverseReturnJournal kind"
proof
  fix input s r s' assume "ledger_ok s" and "reverseReturnJournal kind input s = Inr (r, s')"
  then show "one_journal s r s'" unfolding reverseReturnJournal_def
    by (rule reverseSourceJournal_one) (cases kind; simp add: source_eval)
qed

end
