(* ===== verification/StockPosting.thy ===== *)
theory StockPosting
  imports ReturnPosting
begin

text \<open>
  \<open>server/src/services/stockPosting.service.ts\<close>: the journal of stock that moves without a
  purchase, valued at the stock row's weighted average, and its reversals. The state is the
  ledger beside the rows of \<open>inventory_stock\<close> the service reads and updates.
\<close>

section \<open>State\<close>

record stock_row =
  st_productId :: string
  st_branchId :: string
  st_averageCost :: rat

record stock_books =
  sk_ledger :: ledger
  sk_stock :: "stock_row list"

definition on_ledger :: "(ledger, 'a) tx \<Rightarrow> (stock_books, 'a) tx" where
  "on_ledger m = (\<lambda>s. case m (sk_ledger s) of Inl e \<Rightarrow> Inl e | Inr (x, l) \<Rightarrow> Inr (x, s\<lparr>sk_ledger := l\<rparr>))"

definition STOCK_AVERAGE_COSTS :: "string \<Rightarrow> string list \<Rightarrow> stock_books \<Rightarrow> stock_row list" where
  "STOCK_AVERAGE_COSTS branchId ids s = filter (\<lambda>r. st_branchId r = branchId \<and> st_productId r \<in> set ids) (sk_stock s)"

text \<open>The column is a NUMERIC(14,4): the value is rounded to four places, and ten integer digits overflow.\<close>

definition STOCK_SET_AVERAGE_COST_IF_ZERO :: "rat \<Rightarrow> string \<Rightarrow> string \<Rightarrow> (stock_books, unit) tx" where
  "STOCK_SET_AVERAGE_COST_IF_ZERO cost productId branchId = (\<lambda>s.
     let hit = (\<lambda>r. st_productId r = productId \<and> st_branchId r = branchId \<and> st_averageCost r = 0);
         c = of_int (round_half_up (cost * 10000)) / 10000
     in if list_ex hit (sk_stock s) \<and> 10000000000 \<le> c then Inl (ApiError 500 ''numeric field overflow'')
        else Inr ((), s\<lparr>sk_stock := map (\<lambda>r. if hit r then r\<lparr>st_averageCost := c\<rparr> else r) (sk_stock s)\<rparr>))"

definition loadStockAverageCosts :: "string \<Rightarrow> string list \<Rightarrow> stock_books \<Rightarrow> (string \<times> rat) list" where
  "loadStockAverageCosts branchId productIds s =
     (let ids = remdups (filter (\<lambda>p. p \<noteq> []) productIds)
      in if ids = [] then [] else map (\<lambda>r. (st_productId r, st_averageCost r)) (STOCK_AVERAGE_COSTS branchId ids s))"

section \<open>Valued movements\<close>

definition STOCK_ROLES :: "string list" where
  "STOCK_ROLES = [''INVENTORY'', ''STOCK_EXPENSE'']"

definition loadStockDefaults :: "(ledger, string \<Rightarrow> gl_account option) tx" where
  "loadStockDefaults = load_roles ''stock movements''
     ''Set it in Accounting -> Posting defaults, then post the stock document again.'' STOCK_ROLES"

record valued_movement =
  vm_productId :: string
  vm_quantity :: rat
  vm_unitCost :: jnum
  vm_value :: jnum

definition value_movement :: "jsval \<Rightarrow> valued_movement option" where
  "value_movement m =
     (case jget m ''quantity'' of JNum (Fin q) \<Rightarrow>
        if q = 0 then None
        else (let unitCost = jmax 0 (num0 (jget m ''unitCost'')); val = roundMoney (Fin q * unitCost)
              in if half_paisa \<le> abs val
                 then Some \<lparr>vm_productId = to_str (jget m ''productId''), vm_quantity = q, vm_unitCost = unitCost, vm_value = val\<rparr>
                 else None)
      | _ \<Rightarrow> None)"

definition valued_movements :: "jsval list \<Rightarrow> valued_movement list" where
  "valued_movements = List.map_filter value_movement"

definition net_value :: "valued_movement list \<Rightarrow> jnum" where
  "net_value ms = roundMoney (foldl (\<lambda>sum m. sum + vm_value m) 0 ms)"

definition stock_lines :: "(string \<Rightarrow> gl_account) \<Rightarrow> string \<Rightarrow> jnum \<Rightarrow> jsval list" where
  "stock_lines acc memo net =
     (if 0 < net
      then [ordinary_line (acc ''INVENTORY'') net 0 (memo @ '' -- inventory increase''),
            ordinary_line (acc ''STOCK_EXPENSE'') 0 net (memo @ '' -- stock expense reversed'')]
      else [ordinary_line (acc ''STOCK_EXPENSE'') (- net) 0 (memo @ '' -- stock expense''),
            ordinary_line (acc ''INVENTORY'') 0 (- net) (memo @ '' -- inventory decrease'')])"

text \<open>\<open>positiveByProduct\<close>: the first positive, costed movement of a product.\<close>

fun positive_costs :: "valued_movement list \<Rightarrow> (string \<times> rat) list \<Rightarrow> (string \<times> rat) list" where
  "positive_costs [] acc = acc"
| "positive_costs (m # ms) acc =
     positive_costs ms
       (case vm_unitCost m of Fin c \<Rightarrow>
          if 0 < vm_quantity m \<and> 0 < c \<and> map_of acc (vm_productId m) = None then acc @ [(vm_productId m, c)] else acc
        | _ \<Rightarrow> acc)"

definition postStockValueJournal :: "jsval \<Rightarrow> (stock_books, posted_journal option) tx" where
  "postStockValueJournal input =
     (let valued = valued_movements (arr_or_empty (jget input ''movements'')); net = net_value valued
      in if valued = [] \<or> abs net < half_paisa then treturn None
         else tbind (on_ledger loadStockDefaults) (\<lambda>defaults.
         let memo = to_str (js_or (jget input ''memo'') (JStr ''Stock movement''));
             ls = stock_lines (\<lambda>r. the (defaults r)) memo net
         in tbind (on_ledger (postJournal (document_journal (jget input ''journalDateAD'') (jget input ''branchId'') memo
                (to_str (jget input ''sourceType'')) (jget input ''sourceId'') (jget input ''actor'') ls))) (\<lambda>journal.
            tbind (tfor (\<lambda>(p, c). STOCK_SET_AVERAGE_COST_IF_ZERO c p (str_or (jget input ''branchId''))) (positive_costs valued [])) (\<lambda>_.
            treturn (Some journal)))))"

section \<open>Reversals\<close>

definition reverseStockOperationJournal :: "jsval \<Rightarrow> (ledger, posted_journal option) tx" where
  "reverseStockOperationJournal input =
     reverseSourceJournal ''STOCK_OPERATION'' ''STOCK_OPERATION_REVERSAL''
       (reversal_request (jget input ''operationId'') (jget input ''dateAD'') (jget input ''reason'') (jget input ''actor''))"

datatype stock_adjustment = STOCK_AUDIT | STOCK_ADJUSTMENT

fun stock_adjustment_str :: "stock_adjustment \<Rightarrow> string" where
  "stock_adjustment_str STOCK_AUDIT = ''STOCK_AUDIT''"
| "stock_adjustment_str STOCK_ADJUSTMENT = ''STOCK_ADJUSTMENT''"

definition reverseStockAdjustmentJournal :: "stock_adjustment \<Rightarrow> jsval \<Rightarrow> (ledger, posted_journal option) tx" where
  "reverseStockAdjustmentJournal kind input =
     reverseSourceJournal (stock_adjustment_str kind) (stock_adjustment_str kind @ ''_REVERSAL'')
       (reversal_request (jget input ''sourceId'') (jget input ''dateAD'') (jget input ''reason'') (jget input ''actor''))"

section \<open>The contract\<close>

lemma on_ledger_eq [simp]:
  "on_ledger m s = Inr (x, s') \<longleftrightarrow> (\<exists>l. m (sk_ledger s) = Inr (x, l) \<and> s' = s\<lparr>sk_ledger := l\<rparr>)"
  by (auto simp: on_ledger_def split: sum.splits)

lemma set_average_ledger:
  "STOCK_SET_AVERAGE_COST_IF_ZERO c p b s = Inr (u, s') \<Longrightarrow> sk_ledger s' = sk_ledger s"
  by (auto simp: STOCK_SET_AVERAGE_COST_IF_ZERO_def Let_def split: if_splits)

lemma set_averages_ledger:
  "tfor (\<lambda>(p, c). STOCK_SET_AVERAGE_COST_IF_ZERO c p b) xs s = Inr (u, s') \<Longrightarrow> sk_ledger s' = sk_ledger s"
  by (erule tfor_invariant [where I = "\<lambda>t. sk_ledger t = sk_ledger s"]) (auto dest: set_average_ledger)

lemma postStockValueJournal_run:
  assumes "postStockValueJournal input s = Inr (r, s')"
  obtains "r = None" "s' = s"
  | j defaults memo where "r = Some j" "loadStockDefaults (sk_ledger s) = Inr (defaults, sk_ledger s)"
    "\<not> abs (net_value (valued_movements (arr_or_empty (jget input ''movements'')))) < half_paisa"
    "postJournal (document_journal (jget input ''journalDateAD'') (jget input ''branchId'') memo (to_str (jget input ''sourceType''))
       (jget input ''sourceId'') (jget input ''actor'')
       (stock_lines (\<lambda>r. the (defaults r)) memo (net_value (valued_movements (arr_or_empty (jget input ''movements''))))))
     (sk_ledger s) = Inr (j, sk_ledger s')"
  using assms unfolding postStockValueJournal_def Let_def
  by (fastforce simp: loadStockDefaults_def load_roles_eq dest!: set_averages_ledger split: if_splits)

definition ledger_part :: "stock_row list \<Rightarrow> (stock_books, 'a) tx \<Rightarrow> (ledger, 'a) tx" where
  "ledger_part st m = (\<lambda>l. case m \<lparr>sk_ledger = l, sk_stock = st\<rparr> of Inl e \<Rightarrow> Inl e | Inr (x, s) \<Rightarrow> Inr (x, sk_ledger s))"

interpretation stock_value: journal_document "\<lambda>input. ledger_part st (postStockValueJournal input)"
proof
  fix input s r s' assume "ledger_part st (postStockValueJournal input) s = Inr (r, s')"
  then obtain t where run: "postStockValueJournal input \<lparr>sk_ledger = s, sk_stock = st\<rparr> = Inr (r, t)" and t: "s' = sk_ledger t"
    by (auto simp: ledger_part_def split: sum.splits)
  from run show "one_journal s r s'"
    by (cases rule: postStockValueJournal_run) (auto simp: t one_journal_def intro: document_not_reversal)
qed

interpretation reverse_stock_operation: journal_document reverseStockOperationJournal
proof
  fix input s r s' assume "ledger_ok s" and "reverseStockOperationJournal input s = Inr (r, s')"
  then show "one_journal s r s'" unfolding reverseStockOperationJournal_def
    by (rule reverseSourceJournal_one) (simp add: source_eval)
qed

interpretation reverse_stock_adjustment: journal_document "reverseStockAdjustmentJournal kind"
proof
  fix input s r s' assume "ledger_ok s" and "reverseStockAdjustmentJournal kind input s = Inr (r, s')"
  then show "one_journal s r s'" unfolding reverseStockAdjustmentJournal_def
    by (rule reverseSourceJournal_one) (cases kind; simp add: source_eval)
qed

end
