(* ===== verification/TransferPosting.thy ===== *)
theory TransferPosting
  imports StockPosting
begin

text \<open>
  \<open>server/src/services/transferPosting.service.ts\<close>: the two legs of an inter-branch transfer. The
  dispatch releases inventory against a receivable from head office, the receipt takes the same
  value on against a payable; both are valued at the cost the dispatch stamped on the line.
\<close>

section \<open>Accounts\<close>

definition account_type :: "ledger \<Rightarrow> gl_account \<Rightarrow> string" where
  "account_type s a = (case ACCOUNT_GROUP_BY_ID (ga_groupId a) s of None \<Rightarrow> [] | Some g \<Rightarrow> gg_accountType g)"

text \<open>Rows with their group's account type; codes and roles are unique, so their order is immaterial.\<close>

definition INTER_BRANCH_ACCOUNTS :: "ledger \<Rightarrow> (gl_account \<times> string) list" where
  "INTER_BRANCH_ACCOUNTS s =
     map (\<lambda>a. (a, account_type s a)) (filter (\<lambda>a. ga_isActive a \<and> ga_subledgerType a = ''INTER_BRANCH'') (lg_accounts s))"

definition pickSide ::
  "(gl_account \<times> string) list \<Rightarrow> string \<Rightarrow> string \<Rightarrow> string \<Rightarrow> string \<Rightarrow> gl_account res" where
  "pickSide rows role code accountType label =
     (case List.find (\<lambda>(a, t). ga_postingRole a = Some role) rows of
        Some (a, _) \<Rightarrow> Inr a
      | None \<Rightarrow>
          (case List.find (\<lambda>(a, t). ga_code a = code \<and> t = accountType) rows of
             Some (a, _) \<Rightarrow> Inr a
           | None \<Rightarrow>
               (let ofType = filter (\<lambda>(a, t). t = accountType) rows
                in case ofType of
                     [(a, _)] \<Rightarrow> Inr a
                   | _ \<Rightarrow> throw 400 (''Accounting is not configured for inter-branch transfers: '' @
                       (if ofType = [] then ''no'' else ''more than one'') @ '' active '' @ accountType @
                       '' account carries the INTER_BRANCH subledger. Map the '' @ label @
                       '' posting default, then post the transfer again.''))))"

record transfer_accounts =
  ta_inventory :: gl_account
  ta_dueFrom :: gl_account
  ta_dueTo :: gl_account

definition loadTransferAccounts :: "(ledger, transfer_accounts) tx" where
  "loadTransferAccounts =
     tbind (tquery (ACCOUNTS_BY_POSTING_ROLES [''INVENTORY''])) (\<lambda>rows.
     case List.find (\<lambda>a. ga_postingRole a = Some ''INVENTORY'') rows of
       None \<Rightarrow> tthrow 400 (''Accounting is not configured for inter-branch transfers: no active account has the '' @
         ''INVENTORY posting default. Map it, then post the transfer again.'')
     | Some inventory \<Rightarrow>
         tbind (tquery INTER_BRANCH_ACCOUNTS) (\<lambda>custody.
         tbind (tlift (pickSide custody ''DUE_FROM_HO'' ''1610'' ''ASSET'' ''DUE_FROM_HO (due from head office)'')) (\<lambda>dueFrom.
         tbind (tlift (pickSide custody ''DUE_TO_HO'' ''2310'' ''LIABILITY'' ''DUE_TO_HO (due to head office)'')) (\<lambda>dueTo.
         treturn \<lparr>ta_inventory = inventory, ta_dueFrom = dueFrom, ta_dueTo = dueTo\<rparr>))))"

section \<open>Values\<close>

definition SHIPMENT_ISSUE_COST :: "string \<Rightarrow> string \<Rightarrow> string list \<Rightarrow> tx_row list \<Rightarrow> (string \<times> rat \<times> rat) list" where
  "SHIPMENT_ISSUE_COST shipmentId branchId ids =
     issue_costs (\<lambda>r. tx_referenceDocId r = Some shipmentId \<and> tx_changeType r = ''TRANSFER_OUT'' \<and>
       tx_branchId r = branchId \<and> tx_productId r \<in> set ids)"

definition resolveTransferUnitCost :: "jsval \<Rightarrow> jsval \<Rightarrow> string \<Rightarrow> tx_row list \<Rightarrow> rat res" where
  "resolveTransferUnitCost shipment item sourceBranchId rows =
     (let u = jget item ''unitCost'';
          refused = throw 400 (''Transfer '' @ to_str (js_or (jget shipment ''trackingCode'') (jget shipment ''id'')) @
            '' records no dispatch cost for '' @ to_str (js_or (jget item ''productName'') (jget item ''productId'')) @
            ''. The movement cannot be valued -- nothing was posted.'');
          movement = (if sourceBranchId = [] then refused
            else case SHIPMENT_ISSUE_COST (to_str (jget shipment ''id'')) sourceBranchId [str_or (jget item ''productId'')] rows of
                [] \<Rightarrow> refused
              | (_, quantity, val) # _ \<Rightarrow> if 0 < quantity then Inr (max 0 (val / quantity)) else refused)
      in if u = JUndef \<or> u = JNull then movement
         else case to_number u of Fin stamped \<Rightarrow> Inr (max 0 stamped) | _ \<Rightarrow> movement)"

definition transferJournalValue :: "jsval list \<Rightarrow> jnum" where
  "transferJournalValue ls =
     roundMoney (foldl (\<lambda>sum l. sum + abs (num0 (jget l ''quantity'')) * money (jget l ''unitCost'')) 0 ls)"

section \<open>The legs\<close>

definition postTransferDispatchJournal :: "jsval \<Rightarrow> (ledger, posted_journal option) tx" where
  "postTransferDispatchJournal input =
     (let val = transferJournalValue (arr_or_empty (jget input ''lines''));
          party = js_or (jget input ''destinationBranchName'') (jget input ''destinationBranchId'');
          memo = ''Inter-branch transfer '' @ to_str (jget input ''shipmentId'') @ '' dispatched to '' @ to_str party
      in if val < half_paisa then no_journal
         else tbind loadTransferAccounts (\<lambda>accounts.
           post_some (document_journal (jget input ''dateAD'') (jget input ''sourceBranchId'') memo ''TRANSFER_OUT''
             (jget input ''shipmentId'') (jget input ''actor'')
             [party_line (ta_dueFrom accounts) val 0 (memo @ '' -- due from head office'') ''INTER_BRANCH''
                (jget input ''destinationBranchId'') party,
              ordinary_line (ta_inventory accounts) 0 val (memo @ '' -- inventory released'')])))"

definition postTransferReceiptJournal :: "jsval \<Rightarrow> (ledger, posted_journal option) tx" where
  "postTransferReceiptJournal input =
     (let val = transferJournalValue (arr_or_empty (jget input ''lines''));
          party = js_or (jget input ''sourceBranchName'') (jget input ''sourceBranchId'');
          memo = ''Inter-branch transfer '' @ to_str (jget input ''shipmentId'') @ '' received from '' @ to_str party
      in if val < half_paisa then no_journal
         else tbind loadTransferAccounts (\<lambda>accounts.
           post_some (document_journal (jget input ''dateAD'') (jget input ''destinationBranchId'') memo ''TRANSFER_IN''
             (jget input ''shipmentId'') (jget input ''actor'')
             [ordinary_line (ta_inventory accounts) val 0 (memo @ '' -- inventory received''),
              party_line (ta_dueTo accounts) 0 val (memo @ '' -- due to head office'') ''INTER_BRANCH''
                (jget input ''sourceBranchId'') party])))"

datatype transfer_leg = OUT | IN

fun leg_source :: "transfer_leg \<Rightarrow> string" where
  "leg_source OUT = ''TRANSFER_OUT''"
| "leg_source IN = ''TRANSFER_IN''"

definition reverseTransferJournal :: "transfer_leg \<Rightarrow> jsval \<Rightarrow> (ledger, posted_journal option) tx" where
  "reverseTransferJournal leg input =
     reverseSourceJournal (leg_source leg) (leg_source leg @ ''_REVERSAL'')
       (reversal_request (jget input ''shipmentId'') (jget input ''dateAD'') (jget input ''reason'') (jget input ''actor''))"

section \<open>The contract\<close>

lemma loadTransferAccounts_frame: "loadTransferAccounts s = Inr (x, s') \<Longrightarrow> s' = s"
  by (auto simp: loadTransferAccounts_def split: option.splits)

interpretation transfer_dispatch: journal_document postTransferDispatchJournal
  by unfold_locales
    (auto simp: postTransferDispatchJournal_def Let_def simp del: post_some_eq
      intro: post_some_one dest: loadTransferAccounts_frame split: if_splits)

interpretation transfer_receipt: journal_document postTransferReceiptJournal
  by unfold_locales
    (auto simp: postTransferReceiptJournal_def Let_def simp del: post_some_eq
      intro: post_some_one dest: loadTransferAccounts_frame split: if_splits)

interpretation reverse_transfer: journal_document "reverseTransferJournal leg"
proof
  fix input s r s' assume "ledger_ok s" and "reverseTransferJournal leg input s = Inr (r, s')"
  then show "one_journal s r s'" unfolding reverseTransferJournal_def
    by (rule reverseSourceJournal_one) (cases leg; simp add: source_eval)
qed

end
