(* ===== verification/AssetPosting.thy ===== *)
theory AssetPosting
  imports StockPosting
begin

text \<open>
  \<open>server/src/services/cpePosting.service.ts\<close>: the value side of a fixed asset's life. Deployed
  equipment moves between inventory and the asset account; a fixed asset is capitalised,
  depreciated and disposed of at the values the ledger itself carries for it.
\<close>

section \<open>Statements\<close>

text \<open>Lines joined with their POSTED journal.\<close>

definition source_lines :: "(gl_journal \<Rightarrow> bool) \<Rightarrow> ledger \<Rightarrow> gl_line list" where
  "source_lines match s =
     filter (\<lambda>l. list_ex (\<lambda>j. gj_id j = gl_journalId l \<and> gj_status j = ''POSTED'' \<and> match j) (lg_journals s)) (lg_lines s)"

definition JOURNAL_SOURCE_ACCOUNT_NET :: "string \<Rightarrow> string list \<Rightarrow> ledger \<Rightarrow> rat" where
  "JOURNAL_SOURCE_ACCOUNT_NET sourceId accounts s =
     sum_list (map (\<lambda>l. gl_debit l - gl_credit l)
       (filter (\<lambda>l. gl_accountId l \<in> set accounts) (source_lines (\<lambda>j. gj_sourceId j = Some sourceId) s)))"

definition ASSET_DEPRECIATION_POSTED :: "string \<Rightarrow> string \<Rightarrow> ledger \<Rightarrow> rat" where
  "ASSET_DEPRECIATION_POSTED key accountId s =
     sum_list (map (\<lambda>l. gl_credit l - gl_debit l)
       (filter (\<lambda>l. gl_accountId l = accountId)
         (source_lines (\<lambda>j. gj_sourceType j = ''FIXED_ASSET_DEPRECIATION'' \<and>
            (case gj_sourceId j of None \<Rightarrow> False | Some x \<Rightarrow> take (length key) x = key)) s)))"

section \<open>Deployed equipment\<close>

record cpe_accounts =
  ca_cpeAsset :: gl_account
  ca_inventory :: gl_account

definition loadCpeAccounts :: "(ledger, cpe_accounts) tx" where
  "loadCpeAccounts =
     tbind (tquery (ACCOUNTS_BY_POSTING_ROLES [''CPE_ASSET'', ''INVENTORY''])) (\<lambda>rows.
     let find_role = (\<lambda>r. List.find (\<lambda>a. ga_postingRole a = Some r) rows);
         missing = filter (\<lambda>r. find_role r = None) [''CPE_ASSET'', ''INVENTORY'']
     in tbind (tguard (missing = []) 400 (''Accounting is not configured for CPE movements: no active account has the '' @
          join '', '' missing @ '' posting default. Map it in Accounting -> Posting defaults, then post the device again.'')) (\<lambda>_.
        treturn \<lparr>ca_cpeAsset = the (find_role ''CPE_ASSET''), ca_inventory = the (find_role ''INVENTORY'')\<rparr>))"

definition valueOf :: "jsval \<Rightarrow> jnum" where
  "valueOf input = roundMoney (abs (num0 (jget input ''quantity'')) * jmax 0 (num0 (jget input ''unitCost'')))"

definition cpe_journal :: "jsval \<Rightarrow> jsval list \<Rightarrow> jsval" where
  "cpe_journal input =
     document_journal (jget input ''dateAD'') (jget input ''branchId'') (to_str (jget input ''memo''))
       (to_str (jget input ''sourceType'')) (jget input ''sourceId'') (jget input ''actor'')"

definition postCpeIssueJournal :: "jsval \<Rightarrow> (ledger, posted_journal option) tx" where
  "postCpeIssueJournal input =
     (let val = valueOf input; memo = to_str (jget input ''memo'')
      in if val < half_paisa then no_journal
         else tbind loadCpeAccounts (\<lambda>accounts.
           post_some (cpe_journal input
             [ordinary_line (ca_cpeAsset accounts) val 0 (memo @ '' -- CPE asset issued''),
              ordinary_line (ca_inventory accounts) 0 val (memo @ '' -- inventory released'')])))"

definition postCpeReleaseJournal :: "jsval \<Rightarrow> (ledger, posted_journal option) tx" where
  "postCpeReleaseJournal input =
     (let val = valueOf input; memo = to_str (jget input ''memo'')
      in if val < half_paisa then no_journal
         else tbind loadCpeAccounts (\<lambda>accounts.
           post_some (cpe_journal input
             [ordinary_line (ca_inventory accounts) val 0 (memo @ '' -- inventory returned''),
              ordinary_line (ca_cpeAsset accounts) 0 val (memo @ '' -- CPE asset released'')])))"

section \<open>Accounts of a fixed asset\<close>

definition asset_again :: string where
  "asset_again = ''Map it in Accounting -> Posting defaults, then post again.''"

definition loadAssetAccounts :: "string list \<Rightarrow> string list \<Rightarrow> (ledger, string \<Rightarrow> gl_account option) tx" where
  "loadAssetAccounts required optional =
     tbind (tquery (ACCOUNTS_BY_POSTING_ROLES (remdups (required @ optional)))) (\<lambda>rows.
     let missing = filter (\<lambda>r. by_role rows r = None) required in
     tbind (tguard (missing = []) 400 (''Accounting is not configured for fixed assets: no active account has the '' @
       join '', '' missing @ '' posting default. '' @ asset_again)) (\<lambda>_.
     treturn (by_role rows)))"

definition asset_settlementRole :: "jsval \<Rightarrow> bool \<Rightarrow> string" where
  "asset_settlementRole paymentMethod hasSupplier =
     (let normalized = to_upper (trim (str_or paymentMethod))
      in if normalized = ''CREDIT'' then ''AP_CONTROL''
         else if normalized \<in> set [''BANK'', ''BANK_TRANSFER'', ''CHEQUE'', ''ONLINE'', ''CARD''] then ''BANK''
         else if normalized = ''CASH'' then ''CASH''
         else if hasSupplier then ''AP_CONTROL'' else ''CASH'')"

definition supplier_line :: "gl_account \<Rightarrow> jnum \<Rightarrow> jsval \<Rightarrow> string \<Rightarrow> jsval" where
  "supplier_line account cost input memo =
     party_line account 0 cost memo (if ga_subledgerType account = [] then ''SUPPLIER'' else ga_subledgerType account)
       (js_or (jget input ''supplierId'') JNull) (js_or (jget input ''supplierName'') (JStr ''Fixed asset supplier''))"

section \<open>Acquisition and depreciation\<close>

definition acquisition_lines :: "jsval \<Rightarrow> jnum \<Rightarrow> (ledger, string \<times> jsval list) tx" where
  "acquisition_lines input cost =
     (let memo0 = ''Fixed asset '' @ to_str (jget input ''tagNumber'') @ '' capitalised'';
          invoiceRef = to_str (js_or (js_or (jget input ''purchaseInvoiceNumber'') (jget input ''purchaseInvoiceId'')) (JStr []));
          billed = truthy (jget input ''purchaseInvoiceId'')
      in if billed \<and> truthy (jget input ''invoicePosted'')
         then tbind (loadAssetAccounts [''FIXED_ASSET'', ''INVENTORY''] []) (\<lambda>accounts.
           let memo = memo0 @ '' -- cost reclassified from inventory for purchase invoice '' @ invoiceRef in
           treturn (memo, [ordinary_line (the (accounts ''FIXED_ASSET'')) cost 0 memo,
             ordinary_line (the (accounts ''INVENTORY'')) 0 cost (memo @ '' -- inventory released'')]))
         else if billed
         then tbind (loadAssetAccounts [''FIXED_ASSET'', ''AP_CONTROL''] []) (\<lambda>accounts.
           let memo = memo0 @ '' -- payable recognised for purchase invoice '' @ invoiceRef in
           treturn (memo, [ordinary_line (the (accounts ''FIXED_ASSET'')) cost 0 memo,
             supplier_line (the (accounts ''AP_CONTROL'')) cost input memo]))
         else
           (let hasSupplier = truthy (js_or (jget input ''supplierName'') (jget input ''supplierId''));
                role = asset_settlementRole (jget input ''paymentMethod'') hasSupplier
            in tbind (loadAssetAccounts [''FIXED_ASSET'', role] []) (\<lambda>accounts.
               let memo = memo0 @ (if role = ''AP_CONTROL'' then '' -- bought on supplier credit'' else '' -- settled directly'') in
               treturn (memo, [ordinary_line (the (accounts ''FIXED_ASSET'')) cost 0 memo,
                 if role = ''AP_CONTROL'' then supplier_line (the (accounts ''AP_CONTROL'')) cost input memo
                 else ordinary_line (the (accounts role)) 0 cost memo]))))"

definition postFixedAssetAcquisitionJournal :: "jsval \<Rightarrow> (ledger, posted_journal option) tx" where
  "postFixedAssetAcquisitionJournal input =
     (let cost = roundMoney (jmax 0 (num0 (jget input ''cost'')))
      in if cost < half_paisa then no_journal
         else tbind (tquery (JOURNAL_FIND_BY_SOURCE ''FIXED_ASSET_ACQUISITION'' (jget input ''assetId''))) (\<lambda>existing.
         if existing \<noteq> None then no_journal
         else tbind (acquisition_lines input cost) (\<lambda>(memo, ls).
           post_some (document_journal (jget input ''dateAD'') (jget input ''branchId'') memo ''FIXED_ASSET_ACQUISITION''
             (jget input ''assetId'') (jget input ''actor'') ls))))"

definition postFixedAssetDepreciationJournal :: "jsval \<Rightarrow> (ledger, posted_journal option) tx" where
  "postFixedAssetDepreciationJournal input =
     (let amt = roundMoney (jmax 0 (num0 (jget input ''amount'')));
          memo = ''Depreciation of fixed asset '' @ to_str (jget input ''tagNumber'') @ '' for '' @ to_str (jget input ''periodKey'')
      in if amt < half_paisa then no_journal
         else tbind (loadAssetAccounts [''DEPRECIATION_EXPENSE'', ''ACCUMULATED_DEPRECIATION''] []) (\<lambda>accounts.
           post_some (document_journal (jget input ''dateAD'') (jget input ''branchId'') memo ''FIXED_ASSET_DEPRECIATION''
             (JStr (to_str (jget input ''assetId'') @ '':'' @ to_str (jget input ''periodKey''))) (jget input ''actor'')
             [ordinary_line (the (accounts ''DEPRECIATION_EXPENSE'')) amt 0 memo,
              ordinary_line (the (accounts ''ACCUMULATED_DEPRECIATION'')) 0 amt memo])))"

section \<open>Disposal\<close>

definition disposal_account :: "(string \<Rightarrow> gl_account option) \<Rightarrow> string \<Rightarrow> gl_account res" where
  "disposal_account accounts role = need_account accounts role ''fixed-asset disposal'' asset_again"

definition optional_line :: "bool \<Rightarrow> gl_account res \<Rightarrow> (gl_account \<Rightarrow> jsval) \<Rightarrow> jsval list res" where
  "optional_line present account mk = (if present then rbind account (\<lambda>a. Inr [mk a]) else Inr [])"

definition disposal_lines ::
  "(string \<Rightarrow> gl_account option) \<Rightarrow> jsval \<Rightarrow> string \<Rightarrow> jnum \<Rightarrow> jnum \<Rightarrow> jnum \<Rightarrow> jnum \<Rightarrow> jsval list res" where
  "disposal_lines accounts input memo fixedCost cpeCost accumulated proceeds =
     (let netBookValue = roundMoney (roundMoney (fixedCost + cpeCost) - accumulated);
          gain = (if netBookValue < proceeds then roundMoney (proceeds - netBookValue) else 0);
          loss = (if proceeds < netBookValue then roundMoney (netBookValue - proceeds) else 0);
          role = asset_settlementRole (jget input ''paymentMethod'') False;
          settlement = (if role = ''AP_CONTROL'' then throw 400 ''Disposal proceeds must be received by cash or bank, not on credit.''
                        else disposal_account accounts role)
      in rbind (optional_line (0 < accumulated) (Inr (the (accounts ''ACCUMULATED_DEPRECIATION'')))
           (\<lambda>a. ordinary_line a accumulated 0 (memo @ '' -- accumulated depreciation cleared''))) (\<lambda>l1.
         rbind (optional_line (0 < proceeds) settlement (\<lambda>a. ordinary_line a proceeds 0 (memo @ '' -- proceeds received''))) (\<lambda>l2.
         rbind (optional_line (0 < loss) (disposal_account accounts ''LOSS_ON_DISPOSAL'')
           (\<lambda>a. ordinary_line a loss 0 (memo @ '' -- loss on disposal''))) (\<lambda>l3.
         rbind (optional_line (0 < fixedCost) (Inr (the (accounts ''FIXED_ASSET'')))
           (\<lambda>a. ordinary_line a 0 fixedCost (memo @ '' -- cost cleared''))) (\<lambda>l4.
         rbind (optional_line (0 < cpeCost) (disposal_account accounts ''CPE_ASSET'')
           (\<lambda>a. ordinary_line a 0 cpeCost (memo @ '' -- deployed CPE cost cleared''))) (\<lambda>l5.
         rbind (optional_line (0 < gain) (disposal_account accounts ''GAIN_ON_DISPOSAL'')
           (\<lambda>a. ordinary_line a 0 gain (memo @ '' -- gain on disposal''))) (\<lambda>l6.
         Inr (l1 @ l2 @ l3 @ l4 @ l5 @ l6))))))))"

text \<open>A net read back from the ledger: \<open>roundMoney(Math.max(0, Number(net) || 0))\<close>.\<close>

definition posted_value :: "rat \<Rightarrow> jnum" where
  "posted_value net = roundMoney (jmax 0 (num0 (JNum (Fin net))))"

definition postFixedAssetDisposalJournal :: "jsval \<Rightarrow> (ledger, posted_journal option) tx" where
  "postFixedAssetDisposalJournal input =
     (let asset = to_str (jget input ''assetId''); tag = to_str (jget input ''tagNumber'');
          memo = ''Disposal of fixed asset '' @ tag; proceeds = roundMoney (jmax 0 (num0 (jget input ''proceeds''))) in
      tbind (tquery (JOURNAL_FIND_BY_SOURCE ''FIXED_ASSET_DISPOSAL'' (jget input ''assetId''))) (\<lambda>existing.
      tbind (tguard (existing = None) 409 (''Fixed asset '' @ tag @ '' is already disposed in the ledger (journal '' @
        (case existing of None \<Rightarrow> [] | Some j \<Rightarrow> gj_journalNo j) @ '').'')) (\<lambda>_.
      tbind (loadAssetAccounts [''FIXED_ASSET'', ''ACCUMULATED_DEPRECIATION'']
        [''CPE_ASSET'', ''CASH'', ''BANK'', ''GAIN_ON_DISPOSAL'', ''LOSS_ON_DISPOSAL'']) (\<lambda>accounts.
      tbind (tquery (JOURNAL_SOURCE_ACCOUNT_NET asset [ga_id (the (accounts ''FIXED_ASSET''))])) (\<lambda>fixedNet.
      tbind (tquery (\<lambda>s. case accounts ''CPE_ASSET'' of None \<Rightarrow> 0 | Some a \<Rightarrow> JOURNAL_SOURCE_ACCOUNT_NET asset [ga_id a] s)) (\<lambda>cpeNet.
      let fixedCost = posted_value fixedNet; cpeCost = posted_value cpeNet; cost = roundMoney (fixedCost + cpeCost) in
      tbind (tguard (\<not> cost < half_paisa) 409 (''Fixed asset '' @ tag @ '' has no posted cost in this branch's ledger, so a '' @
        ''disposal would credit an asset that was never capitalised. Capitalise it first, then dispose.'')) (\<lambda>_.
      tbind (tquery (ASSET_DEPRECIATION_POSTED (asset @ '':'') (ga_id (the (accounts ''ACCUMULATED_DEPRECIATION''))))) (\<lambda>posted.
      tbind (tlift (disposal_lines accounts input memo fixedCost cpeCost (jmin (posted_value posted) cost) proceeds)) (\<lambda>ls.
      post_some (document_journal (jget input ''dateAD'') (jget input ''branchId'') memo ''FIXED_ASSET_DISPOSAL''
        (jget input ''assetId'') (jget input ''actor'') ls))))))))))"

definition readFixedAssetCostValue :: "string \<Rightarrow> (ledger, jnum) tx" where
  "readFixedAssetCostValue assetId =
     tbind (loadAssetAccounts [] [''FIXED_ASSET'', ''CPE_ASSET'']) (\<lambda>accounts.
     let accountIds = List.map_filter (\<lambda>r. map_option ga_id (accounts r)) [''FIXED_ASSET'', ''CPE_ASSET''] in
     if accountIds = [] then treturn 0
     else tbind (tquery (JOURNAL_SOURCE_ACCOUNT_NET assetId accountIds)) (\<lambda>net. treturn (posted_value net)))"

definition readFixedAssetDepreciationPosted :: "string \<Rightarrow> (ledger, jnum) tx" where
  "readFixedAssetDepreciationPosted assetId =
     tbind (loadAssetAccounts [] [''ACCUMULATED_DEPRECIATION'']) (\<lambda>accounts.
     case accounts ''ACCUMULATED_DEPRECIATION'' of None \<Rightarrow> treturn 0
     | Some a \<Rightarrow> tbind (tquery (ASSET_DEPRECIATION_POSTED (assetId @ '':'') (ga_id a))) (\<lambda>net. treturn (posted_value net)))"

section \<open>The contract\<close>

lemma loadAssetAccounts_eq:
  "loadAssetAccounts required optional s = Inr (m, s') \<longleftrightarrow> s' = s \<and>
     m = by_role (ACCOUNTS_BY_POSTING_ROLES (remdups (required @ optional)) s) \<and> (\<forall>r \<in> set required. m r \<noteq> None)"
  by (auto simp: loadAssetAccounts_def Let_def filter_empty_conv simp del: remdups_append)

lemma loadCpeAccounts_frame: "loadCpeAccounts s = Inr (x, s') \<Longrightarrow> s' = s"
  by (auto simp: loadCpeAccounts_def Let_def)

lemma acquisition_lines_frame: "acquisition_lines input cost s = Inr (x, s') \<Longrightarrow> s' = s"
  by (auto simp: acquisition_lines_def Let_def loadAssetAccounts_eq split: if_splits)

interpretation cpe_issue: journal_document postCpeIssueJournal
  by unfold_locales
    (auto simp: postCpeIssueJournal_def cpe_journal_def Let_def simp del: post_some_eq
      intro: post_some_one dest: loadCpeAccounts_frame split: if_splits)

interpretation cpe_release: journal_document postCpeReleaseJournal
  by unfold_locales
    (auto simp: postCpeReleaseJournal_def cpe_journal_def Let_def simp del: post_some_eq
      intro: post_some_one dest: loadCpeAccounts_frame split: if_splits)

interpretation asset_acquisition: journal_document postFixedAssetAcquisitionJournal
  by unfold_locales
    (auto simp: postFixedAssetAcquisitionJournal_def Let_def simp del: post_some_eq
      intro: post_some_one dest: acquisition_lines_frame split: if_splits prod.splits)

interpretation asset_depreciation: journal_document postFixedAssetDepreciationJournal
  by unfold_locales
    (auto simp: postFixedAssetDepreciationJournal_def Let_def loadAssetAccounts_eq simp del: post_some_eq
      intro: post_some_one split: if_splits)

interpretation asset_disposal: journal_document postFixedAssetDisposalJournal
  by unfold_locales
    (auto simp: postFixedAssetDisposalJournal_def Let_def loadAssetAccounts_eq simp del: post_some_eq remdups_append
      intro: post_some_one split: if_splits)

end
