(* ===== verification/YearEnd.thy ===== *)
theory YearEnd
  imports TransferPosting AssetPosting
begin

text \<open>
  \<open>server/src/services/accountingClosing.service.ts\<close>: a branch's opening balances and the year-end
  close, which posts every branch's income and expense residue to retained earnings and marks the
  year closed. Both go through \<open>postJournal\<close>. \<open>today\<close> is the database's \<open>CURRENT_DATE\<close>; the two
  advisory locks serialise concurrent requests and have no effect within one.
\<close>

section \<open>Grouping\<close>

text \<open>The keys of a JavaScript \<open>Map\<close> filled in this order.\<close>

definition first_occurrences :: "'a list \<Rightarrow> 'a list" where
  "first_occurrences xs = rev (remdups (rev xs))"

lemma set_first_occurrences [simp]: "set (first_occurrences xs) = set xs"
  by (simp add: first_occurrences_def)

lemma distinct_first_occurrences [simp]: "distinct (first_occurrences xs)"
  by (simp add: first_occurrences_def)

section \<open>Opening balances\<close>

definition OPENING_BALANCE_EXISTS :: "string \<Rightarrow> ledger \<Rightarrow> bool" where
  "OPENING_BALANCE_EXISTS branchId s =
     list_ex (\<lambda>j. gj_sourceType j = ''OPENING_BALANCE'' \<and> gj_branchId j = branchId) (lg_journals s)"

definition period_le :: "gl_period \<Rightarrow> gl_period \<Rightarrow> bool" where
  "period_le p q \<longleftrightarrow> (if gp_startDateAD p = gp_startDateAD q then str_le (gp_periodKey p) (gp_periodKey q)
     else str_le (gp_startDateAD p) (gp_startDateAD q))"

definition EARLIEST_OPEN_PERIOD :: "ledger \<Rightarrow> gl_period option" where
  "EARLIEST_OPEN_PERIOD s =
     first_row (order_by period_le (filter (\<lambda>p. gp_status p = ''OPEN'' \<and>
       list_ex (\<lambda>fy. fy_id fy = gp_fiscalYearId p \<and> \<not> fy_isClosed fy) (lg_fiscalYears s)) (lg_periods s)))"

definition EARLIEST_OPEN_FISCAL_YEAR :: "ledger \<Rightarrow> fiscal_year option" where
  "EARLIEST_OPEN_FISCAL_YEAR s =
     first_row (order_by (\<lambda>x y. str_le (fy_startDateAD x) (fy_startDateAD y)) (filter (\<lambda>fy. \<not> fy_isClosed fy) (lg_fiscalYears s)))"

definition closing_journal :: "string \<Rightarrow> string \<Rightarrow> string \<Rightarrow> string \<Rightarrow> string \<Rightarrow> jsval list \<Rightarrow> jsval \<Rightarrow> jsval" where
  "closing_journal date branchId sourceType sourceId memo ls actor =
     JObj [(''journalDateAD'', JStr date), (''branchId'', JStr branchId), (''sourceType'', JStr sourceType),
       (''sourceId'', JStr sourceId), (''memo'', JStr memo), (''lines'', JArr ls), (''actor'', js_or actor JNull),
       (''isDemo'', JBool False)]"

record opening_result =
  or_posted :: posted_journal
  or_journalDateAD :: string
  or_periodKey :: string

definition opening_date :: "(ledger, string \<times> string) tx" where
  "opening_date =
     tbind (tquery EARLIEST_OPEN_PERIOD) (\<lambda>period.
     case period of
       Some p \<Rightarrow> treturn (take 10 (gp_startDateAD p), gp_periodKey p)
     | None \<Rightarrow> tbind (tquery EARLIEST_OPEN_FISCAL_YEAR) (\<lambda>year.
         case year of
           None \<Rightarrow> tthrow 409 ''No open accounting period is available for opening balances.''
         | Some fy \<Rightarrow> (let date = take 10 (fy_startDateAD fy) in treturn (date, take 7 date))))"

definition postOpeningBalances :: "jsval \<Rightarrow> (ledger, opening_result) tx" where
  "postOpeningBalances input =
     (let branchId = text_val (jget input ''branchId'') 50; ls = arr_or_empty (jget input ''lines'') in
      tbind (tguard (branchId \<noteq> []) 400 ''A branch is required for opening balances.'') (\<lambda>_.
      tbind (tguard (ls \<noteq> []) 400 ''At least one opening-balance line is required.'') (\<lambda>_.
      tbind (tquery (OPENING_BALANCE_EXISTS branchId)) (\<lambda>existing.
      tbind (tguard (\<not> existing) 409 (''Opening balances have already been posted for branch '' @ branchId @ ''.'')) (\<lambda>_.
      tbind opening_date (\<lambda>(date, periodKey).
      tbind (postJournal (closing_journal date branchId ''OPENING_BALANCE'' branchId
        (''Opening balances for branch '' @ branchId) ls (jget input ''actor''))) (\<lambda>posted.
      treturn \<lparr>or_posted = posted, or_journalDateAD = date, or_periodKey = periodKey\<rparr>)))))))"

section \<open>The year-end close\<close>

record pnl_row =
  pr_branchId :: string
  pr_account :: gl_account
  pr_signedBalance :: rat

definition pnl_account :: "ledger \<Rightarrow> string \<Rightarrow> bool" where
  "pnl_account s aid =
     (case ACCOUNT_BY_ID aid s of None \<Rightarrow> False | Some a \<Rightarrow> account_type s a \<in> set [''INCOME'', ''EXPENSE''])"

definition pnl_lines :: "string \<Rightarrow> ledger \<Rightarrow> gl_line list" where
  "pnl_lines endDate s = filter (\<lambda>l. pnl_account s (gl_accountId l)) (source_lines (\<lambda>j. str_le (gj_journalDateAD j) endDate) s)"

definition pnl_net :: "string \<Rightarrow> ledger \<Rightarrow> string \<Rightarrow> string \<Rightarrow> rat" where
  "pnl_net endDate s b aid =
     sum_list (map (\<lambda>l. gl_debit l - gl_credit l) (filter (\<lambda>l. gl_branchId l = b \<and> gl_accountId l = aid) (pnl_lines endDate s)))"

definition pnl_le :: "pnl_row \<Rightarrow> pnl_row \<Rightarrow> bool" where
  "pnl_le x y \<longleftrightarrow> (if pr_branchId x = pr_branchId y then str_le (ga_code (pr_account x)) (ga_code (pr_account y))
     else str_le (pr_branchId x) (pr_branchId y))"

definition FISCAL_YEAR_PNL_BALANCE_ROWS :: "string \<Rightarrow> ledger \<Rightarrow> pnl_row list" where
  "FISCAL_YEAR_PNL_BALANCE_ROWS endDate s =
     order_by pnl_le
       (List.map_filter (\<lambda>(b, aid).
          case ACCOUNT_BY_ID aid s of None \<Rightarrow> None
          | Some a \<Rightarrow> if pnl_net endDate s b aid = 0 then None
              else Some \<lparr>pr_branchId = b, pr_account = a, pr_signedBalance = pnl_net endDate s b aid\<rparr>)
        (remdups (map (\<lambda>l. (gl_branchId l, gl_accountId l)) (pnl_lines endDate s))))"

definition FISCAL_YEAR_CLOSE_LOCK :: "string \<Rightarrow> ledger \<Rightarrow> fiscal_year option" where
  "FISCAL_YEAR_CLOSE_LOCK fid s = List.find (\<lambda>fy. fy_id fy = fid) (lg_fiscalYears s)"

definition YEAR_END_CLOSE_EXISTS :: "string \<Rightarrow> ledger \<Rightarrow> bool" where
  "YEAR_END_CLOSE_EXISTS fid s =
     list_ex (\<lambda>j. gj_fiscalYearId j = fid \<and> gj_sourceType j = ''YEAR_END_CLOSE'') (lg_journals s)"

definition FY_CLOSE :: "string \<Rightarrow> string \<Rightarrow> (ledger, fiscal_year option) tx" where
  "FY_CLOSE today fid = (\<lambda>s.
     let hit = (\<lambda>fy. fy_id fy = fid \<and> \<not> str_le today (fy_endDateAD fy));
         fys = map (\<lambda>fy. if hit fy then fy\<lparr>fy_isClosed := True\<rparr> else fy) (lg_fiscalYears s)
     in Inr (map_option (\<lambda>fy. fy\<lparr>fy_isClosed := True\<rparr>) (List.find hit (lg_fiscalYears s)), s\<lparr>lg_fiscalYears := fys\<rparr>))"

fun closing_lines :: "string \<Rightarrow> pnl_row list \<Rightarrow> jsval list \<times> rat \<times> rat \<Rightarrow> jsval list \<times> rat \<times> rat" where
  "closing_lines code [] acc = acc"
| "closing_lines code (r # rs) (ls, totalDebit, totalCredit) =
     (let signed = round_money (pr_signedBalance r)
      in if \<bar>signed\<bar> < 5 / 1000 then closing_lines code rs (ls, totalDebit, totalCredit)
         else (let debit = (if signed < 0 then round_money (- signed) else 0); credit = (if 0 < signed then signed else 0);
                   a = pr_account r
               in closing_lines code rs
                 (ls @ [ordinary_line a (Fin debit) (Fin credit) (''Year-end close '' @ code @ '' -- '' @ ga_code a @ '' '' @ ga_name a)],
                  round_money (totalDebit + debit), round_money (totalCredit + credit))))"

definition retained_line :: "string \<Rightarrow> gl_account \<Rightarrow> rat \<Rightarrow> jsval list" where
  "retained_line code retained diff =
     (let memo = ''Year-end close '' @ code @ '' -- retained earnings''
      in if 0 < diff then [ordinary_line retained 0 (Fin diff) memo]
         else if diff < 0 then [ordinary_line retained (Fin (round_money (- diff))) 0 memo] else [])"

definition close_branch :: "fiscal_year \<Rightarrow> string \<Rightarrow> gl_account option \<Rightarrow> jsval \<Rightarrow> string \<times> pnl_row list \<Rightarrow> (ledger, nat) tx" where
  "close_branch fy fid retained actor br =
     (case br of (branchId, balances) \<Rightarrow>
      case List.find (\<lambda>r. \<not> ga_isActive (pr_account r)) balances of
        Some r \<Rightarrow> tthrow 400 (''Account '' @ ga_code (pr_account r) @
          '' is inactive but still carries a P&L balance; reactivate it before closing the year.'')
      | None \<Rightarrow>
      (case List.find (\<lambda>r. ga_isControl (pr_account r)) balances of
        Some r \<Rightarrow> tthrow 400 (''P&L account '' @ ga_code (pr_account r) @
          '' is a control account; reactivate/remap it before closing the year.'')
      | None \<Rightarrow>
        (let (ls, totalDebit, totalCredit) = closing_lines (fy_code fy) balances ([], 0, 0)
         in if ls = [] then treturn 0
            else tbind (postJournal (closing_journal (take 10 (fy_endDateAD fy)) branchId ''YEAR_END_CLOSE'' fid
              (''Year-end close '' @ fy_code fy @ '' for branch '' @ branchId)
              (ls @ retained_line (fy_code fy) (the retained) (round_money (totalDebit - totalCredit))) actor)) (\<lambda>_. treturn 1))))"

fun close_branches ::
  "fiscal_year \<Rightarrow> string \<Rightarrow> gl_account option \<Rightarrow> jsval \<Rightarrow> (string \<times> pnl_row list) list \<Rightarrow> nat \<Rightarrow> (ledger, nat) tx" where
  "close_branches fy fid retained actor [] n = treturn n"
| "close_branches fy fid retained actor (br # brs) n =
     tbind (close_branch fy fid retained actor br) (\<lambda>k. close_branches fy fid retained actor brs (n + k))"

definition retained_account :: "pnl_row list \<Rightarrow> (ledger, gl_account option) tx" where
  "retained_account rows =
     (if rows = [] then treturn None
      else tbind (tquery (ACCOUNTS_BY_POSTING_ROLES [''RETAINED_EARNINGS''])) (\<lambda>as.
      case first_row as of
        None \<Rightarrow> tthrow 400 (''The RETAINED_EARNINGS posting default is not configured. '' @
          ''Assign it to an active equity account before closing the year.'')
      | Some a \<Rightarrow> tbind (tguard (\<not> ga_isControl a) 400 (''Retained earnings account '' @ ga_code a @
          '' is a control account; a year-end close cannot name a subledger party for it.'')) (\<lambda>_. treturn (Some a))))"

definition by_branch :: "pnl_row list \<Rightarrow> (string \<times> pnl_row list) list" where
  "by_branch rows = map (\<lambda>b. (b, filter (\<lambda>r. pr_branchId r = b) rows)) (first_occurrences (map pr_branchId rows))"

record close_result =
  cr_fiscalYear :: fiscal_year
  cr_journalCount :: nat

definition closeFiscalYear :: "string \<Rightarrow> jsval \<Rightarrow> (ledger, close_result) tx" where
  "closeFiscalYear today input =
     (let fid = text_val (jget input ''fiscalYearId'') 50 in
      tbind (tguard (fid \<noteq> []) 400 ''A fiscal year id is required.'') (\<lambda>_.
      tbind (tquery (FISCAL_YEAR_CLOSE_LOCK fid)) (\<lambda>row.
      case row of None \<Rightarrow> tthrow 404 ''Fiscal year not found.''
      | Some fy \<Rightarrow>
        tbind (tguard (\<not> fy_isClosed fy) 409 (''Fiscal year '' @ fy_code fy @ '' is already closed.'')) (\<lambda>_.
        tbind (tquery (YEAR_END_CLOSE_EXISTS fid)) (\<lambda>existingClose.
        tbind (tguard (\<not> existingClose) 409
          (''A year-end close has already been posted for fiscal year '' @ fy_code fy @ ''.'')) (\<lambda>_.
        tbind (tquery (FISCAL_YEAR_PNL_BALANCE_ROWS (take 10 (fy_endDateAD fy)))) (\<lambda>rows.
        tbind (retained_account rows) (\<lambda>retained.
        tbind (close_branches fy fid retained (jget input ''actor'') (by_branch rows) 0) (\<lambda>journalCount.
        tbind (FY_CLOSE today fid) (\<lambda>closed.
        case closed of
          None \<Rightarrow> tthrow 400 (''Fiscal year closing is available only after '' @ take 10 (fy_endDateAD fy) @ ''.'')
        | Some c \<Rightarrow> treturn \<lparr>cr_fiscalYear = c, cr_journalCount = journalCount\<rparr>))))))))))"

section \<open>The contract\<close>

lemma closing_fields [simp]:
  "jget (closing_journal d b st sid m ls ac) ''lines'' = JArr ls" "jget (closing_journal d b st sid m ls ac) ''branchId'' = JStr b"
  "jget (closing_journal d b st sid m ls ac) ''journalDateAD'' = JStr d"
  by (simp_all add: closing_journal_def)

lemma closing_not_reversal [simp]: "reverses_document (closing_journal d b st sid m ls ac) s"
  by (simp add: reverses_document_def closing_journal_def text_null_def text_val_def)

lemma steps_trans: "ledger_steps s s1 \<Longrightarrow> ledger_steps s1 s2 \<Longrightarrow> ledger_steps s s2"
  by (rotate_tac, induction rule: ledger_steps.induct) (auto intro: ledger_steps.more)

lemma close_branch_run:
  assumes "close_branch fy fid retained actor (b, rs) s = Inr (k, s')"
  obtains "fst (closing_lines (fy_code fy) rs ([], 0, 0)) = []" "s' = s"
  | ls d c j where "closing_lines (fy_code fy) rs ([], 0, 0) = (ls, d, c)"
    "postJournal (closing_journal (take 10 (fy_endDateAD fy)) b ''YEAR_END_CLOSE'' fid (''Year-end close '' @ fy_code fy @ '' for branch '' @ b)
       (ls @ retained_line (fy_code fy) (the retained) (round_money (d - c))) actor) s = Inr (j, s')"
  using assms unfolding close_branch_def by (auto simp: Let_def split: option.splits prod.splits if_splits)

lemma close_branch_steps: "close_branch fy fid retained actor br s = Inr (k, s') \<Longrightarrow> ledger_steps s s'"
  by (cases br, simp, erule close_branch_run) (auto intro: post_steps)

lemma close_branches_steps: "close_branches fy fid retained actor brs n s = Inr (k, s') \<Longrightarrow> ledger_steps s s'"
  by (induction brs arbitrary: n s) (auto dest: close_branch_steps intro: steps_trans)

lemma opening_date_frame: "opening_date s = Inr (x, s') \<Longrightarrow> s' = s"
  by (auto simp: opening_date_def Let_def split: option.splits)

lemma retained_account_ok:
  "retained_account rows s = Inr (x, s') \<Longrightarrow> s' = s \<and>
    (rows \<noteq> [] \<longrightarrow> (\<exists>a. x = Some a \<and> a \<in> set (lg_accounts s) \<and> ga_postingRole a = Some ''RETAINED_EARNINGS''))"
  by (auto simp: retained_account_def first_row_def ACCOUNTS_BY_POSTING_ROLES_def filter_eq_Cons_iff split: if_splits option.splits list.splits)

lemma FY_CLOSE_step: "ledger_ok s \<Longrightarrow> FY_CLOSE today fid s = Inr (x, s') \<Longrightarrow> ledger_steps s s'"
proof -
  assume "ledger_ok s" and "FY_CLOSE today fid s = Inr (x, s')"
  then obtain fys where s': "s' = s\<lparr>lg_fiscalYears := fys\<rparr>" and b: "\<forall>b \<in> set (lg_branches s). trim b = b"
    and ids: "map fy_id fys = map fy_id (lg_fiscalYears s)" and refs: "refs_inv s"
    by (auto simp: FY_CLOSE_def Let_def ledger_ok_def clean_inv_def)
  from ids have "fy_id ` set fys = fy_id ` set (lg_fiscalYears s)" by (metis list.set_map)
  with refs have m: "masters_referenced s (lg_branches s) fys (lg_costCenters s) (lg_books s)" by (simp add: refs_inv_def masters_referenced_def)
  have "ledger_step s (s\<lparr>lg_branches := lg_branches s, lg_fiscalYears := fys, lg_costCenters := lg_costCenters s, lg_books := lg_books s\<rparr>)"
    by (rule ledger_step.masters [OF b m])
  then show ?thesis unfolding s' by (intro steps_one) simp
qed

interpretation opening_balances: document_posting postOpeningBalances
  by unfold_locales (auto simp: postOpeningBalances_def Let_def dest!: opening_date_frame intro: post_steps)

lemma closeFiscalYear_run:
  assumes "closeFiscalYear today input s = Inr (r, s')"
  obtains fid fy retained n s1 where "fid = text_val (jget input ''fiscalYearId'') 50" "FISCAL_YEAR_CLOSE_LOCK fid s = Some fy"
    "\<not> fy_isClosed fy" "\<not> YEAR_END_CLOSE_EXISTS fid s"
    "FISCAL_YEAR_PNL_BALANCE_ROWS (take 10 (fy_endDateAD fy)) s \<noteq> [] \<longrightarrow>
       (\<exists>a. retained = Some a \<and> a \<in> set (lg_accounts s) \<and> ga_postingRole a = Some ''RETAINED_EARNINGS'')"
    "close_branches fy fid retained (jget input ''actor'') (by_branch (FISCAL_YEAR_PNL_BALANCE_ROWS (take 10 (fy_endDateAD fy)) s)) 0 s = Inr (n, s1)"
    "FY_CLOSE today fid s1 = Inr (Some (cr_fiscalYear r), s')" "cr_journalCount r = n"
proof -
  from assms show ?thesis unfolding closeFiscalYear_def Let_def
    by (clarsimp split: option.splits) (drule retained_account_ok, rule that, auto)
qed

interpretation year_end: document_posting "closeFiscalYear today"
proof
  fix input s r s' assume ok: "ledger_ok s" and "closeFiscalYear today input s = Inr (r, s')"
  then obtain fy fid retained brs n s1 where "close_branches fy fid retained (jget input ''actor'') brs 0 s = Inr (n, s1)"
    "FY_CLOSE today fid s1 = Inr (Some (cr_fiscalYear r), s')" by (blast elim: closeFiscalYear_run)
  with ok show "ledger_steps s s'" by (meson close_branches_steps FY_CLOSE_step steps_ok steps_trans)
qed

section \<open>What the close does to the balances\<close>

lemma sum_insert_by:
  fixes f :: "'a \<Rightarrow> rat"
  shows "sum_list (map f (filter P (insert_by le x ys))) = (if P x then f x else 0) + sum_list (map f (filter P ys))"
  by (induction ys) auto

lemma sum_order_by:
  fixes f :: "'a \<Rightarrow> rat"
  shows "sum_list (map f (filter P (order_by le xs))) = sum_list (map f (filter P xs))"
  by (induction xs) (simp_all add: order_by_def sum_insert_by)

text \<open>What the close reads.\<close>

lemma posting_source_lines:
  assumes p: "posting s s' date j jls ls es" and inv: "ledger_inv s"
  shows "source_lines match s' = source_lines match s @ (if match j then ls else [])"
proof -
  note f = posting_fields [OF p]
  have w: "list_all2 (written (gj_id j) (gj_branchId j)) ls jls" and st: "gj_status j = ''POSTED''"
    using p by (simp_all add: posting_def)
  note ws = written_sums [OF w]
  have fresh: "gj_id j \<notin> gj_id ` set (lg_journals s)" by (rule posting_fresh(1) [OF p inv])
  have "gj_id j \<noteq> gl_journalId l" if "l \<in> set (lg_lines s)" for l
    using that inv fresh unfolding ledger_inv_def lines_inv_def by metis
  then have old: "filter (\<lambda>l. list_ex (\<lambda>k. gj_id k = gl_journalId l \<and> gj_status k = ''POSTED'' \<and> match k) (lg_journals s')) (lg_lines s) =
      source_lines match s"
    unfolding source_lines_def f by (intro filter_cong) auto
  have new: "list_ex (\<lambda>k. gj_id k = gl_journalId l \<and> gj_status k = ''POSTED'' \<and> match k) (lg_journals s') \<longleftrightarrow> match j"
    if "l \<in> set ls" for l
    using that ws st fresh by (auto simp: f list_ex_iff image_iff)
  then have "filter (\<lambda>l. list_ex (\<lambda>k. gj_id k = gl_journalId l \<and> gj_status k = ''POSTED'' \<and> match k) (lg_journals s')) ls =
      (if match j then ls else [])"
    by (auto simp: filter_empty_conv filter_id_conv)
  with old show ?thesis by (simp add: source_lines_def [of match s'] f(3))
qed

lemma pnl_account_posting: "posting s s' date j jls ls es \<Longrightarrow> pnl_account s' = pnl_account s"
proof -
  assume p: "posting s s' date j jls ls es"
  have "account_type s' = account_type s"
    by (simp add: fun_eq_iff account_type_def ACCOUNT_GROUP_BY_ID_def posting_fields [OF p])
  then show ?thesis by (intro ext) (simp add: pnl_account_def ACCOUNT_BY_ID_def posting_fields [OF p] split: option.split)
qed

lemma pnl_net_posting:
  assumes p: "posting s s' date j jls ls es" and inv: "ledger_inv s" and d: "str_le (gj_journalDateAD j) E" and a: "pnl_account s aid"
  shows "pnl_net E s' b aid = pnl_net E s b aid +
    (if b = gj_branchId j then sum_list (map (\<lambda>(x, d, c). d - c) (filter (\<lambda>e. fst e = aid) (map entry ls))) else 0)"
proof -
  have w: "list_all2 (written (gj_id j) (gj_branchId j)) ls jls" using p by (simp add: posting_def)
  note ws = written_sums [OF w]
  have br: "\<forall>l \<in> set ls. gl_branchId l = gj_branchId j" using ws by blast
  have *: "sum_list (map (\<lambda>l. gl_debit l - gl_credit l) (filter (\<lambda>l. gl_branchId l = b \<and> gl_accountId l = aid) (filter (\<lambda>l. pnl_account s (gl_accountId l)) ks))) =
    (if b = gj_branchId j then sum_list (map (\<lambda>(x, d, c). d - c) (filter (\<lambda>e. fst e = aid) (map entry ks))) else 0)"
    if "\<forall>l \<in> set ks. gl_branchId l = gj_branchId j" for ks
    using that a by (induction ks) (auto simp: entry_def)
  show ?thesis
    unfolding pnl_net_def pnl_lines_def pnl_account_posting [OF p] posting_source_lines [OF p inv]
    using d * [OF br] by simp
qed

definition closing_entry :: "pnl_row \<Rightarrow> string \<times> rat \<times> rat" where
  "closing_entry r = (let x = pr_signedBalance r in (ga_id (pr_account r), if x < 0 then - x else 0, if 0 < x then x else 0))"

definition closing_line :: "string \<Rightarrow> pnl_row \<Rightarrow> jsval" where
  "closing_line code r = (case closing_entry r of (i, d, c) \<Rightarrow>
     ordinary_line (pr_account r) (Fin d) (Fin c) (''Year-end close '' @ code @ '' -- '' @ ga_code (pr_account r) @ '' '' @ ga_name (pr_account r)))"

lemma cents_small: "is_cents x \<Longrightarrow> \<bar>x\<bar> < 5 / 1000 \<Longrightarrow> x = 0"
proof -
  assume "is_cents x" and small: "\<bar>x\<bar> < 5 / 1000"
  then obtain n where n: "x = of_int n / 100" by (auto simp: is_cents_iff)
  with small have "\<bar>(of_int n :: rat)\<bar> < 1" by (simp add: abs_if split: if_splits)
  then have "\<bar>n\<bar> < 1" by linarith
  with n show ?thesis by simp
qed

lemma closing_lines_all:
  assumes "\<forall>r \<in> set rs. is_cents (pr_signedBalance r) \<and> pr_signedBalance r \<noteq> 0"
  shows "fst (closing_lines code rs (ls, d, c)) = ls @ map (closing_line code) rs"
  using assms
proof (induction rs arbitrary: ls d c)
  case (Cons r rs)
  then have c: "is_cents (pr_signedBalance r)" "pr_signedBalance r \<noteq> 0" by simp_all
  with cents_small have big: "\<not> \<bar>pr_signedBalance r\<bar> < 5 / 1000" by blast
  have "is_cents (- pr_signedBalance r)" using c(1) by auto
  moreover from c(2) consider "0 < pr_signedBalance r" | "pr_signedBalance r < 0" by linarith
  ultimately show ?case
    by cases (use Cons c big in \<open>auto simp: Let_def closing_line_def closing_entry_def abs_of_pos abs_of_neg\<close>)
qed simp

lemma dropWhile_full: "length (dropWhile P xs) = length xs \<Longrightarrow> dropWhile P xs = xs"
  using length_dropWhile_le [of P "tl xs"] by (cases xs) auto

lemma length_trim: "length (trim x) \<le> length x"
  unfolding trim_def by (metis length_dropWhile_le length_rev order_trans)

lemma trim_full: "length (trim x) = length x \<Longrightarrow> trim x = x"
proof -
  assume a: "length (trim x) = length x"
  have le: "length (trim x) \<le> length (dropWhile is_space x)" unfolding trim_def by (metis length_dropWhile_le length_rev)
  with a length_dropWhile_le [of is_space x] have x: "dropWhile is_space x = x" by (intro dropWhile_full) simp
  with a have "length (dropWhile is_space (rev x)) = length (rev x)" by (simp add: trim_def)
  then show ?thesis by (simp add: trim_def x dropWhile_full)
qed

lemma requireDate_10: "requireDate (JStr (take 10 x)) = Inr d \<Longrightarrow> d = take 10 x"
proof -
  assume r: "requireDate (JStr (take 10 x)) = Inr d"
  then have d: "d = take 10 (trim (take 10 x))" and "isAdDate (JStr d)"
    using requireDate_ok [OF r] by (auto simp: requireDate_def text_val_def throw_def Let_def split: if_splits)
  then have "length d = 10" by (auto simp: isAdDate_def parse_ad_def Let_def split: if_splits option.splits)
  with d length_trim [of "take 10 x"] have "length (trim (take 10 x)) = length (take 10 x)" by simp
  then have "trim (take 10 x) = take 10 x" by (rule trim_full)
  with d show ?thesis by simp
qed

text \<open>Closing one branch brings its closed accounts to zero and touches no other branch.\<close>

definition rows_of :: "pnl_row list \<Rightarrow> string \<Rightarrow> rat" where
  "rows_of rs aid = sum_list (map pr_signedBalance (filter (\<lambda>r. ga_id (pr_account r) = aid) rs))"

lemma asks_closing:
  assumes "is_cents (pr_signedBalance r)" and "text_val (JStr (ga_id (pr_account r))) 50 = ga_id (pr_account r)"
  shows "asks (closing_line code r) e \<longleftrightarrow> e = closing_entry r"
  using assms is_cents_uminus [OF assms(1)] by (auto simp: closing_line_def asks_line closing_entry_def Let_def)

lemma asks_closings:
  assumes "list_all2 asks (map (closing_line code) rs) es"
    and "\<forall>r \<in> set rs. is_cents (pr_signedBalance r) \<and> text_val (JStr (ga_id (pr_account r))) 50 = ga_id (pr_account r)"
  shows "es = map closing_entry rs"
  using assms by (induction rs arbitrary: es) (auto simp: list_all2_Cons1 asks_closing)

lemma closing_sum: "sum_list (map (\<lambda>(x, d, c). d - c) (filter (\<lambda>e. fst e = aid) (map closing_entry rs))) = - rows_of rs aid"
proof (induction rs)
  case (Cons r rs)
  then show ?case by (cases "pr_signedBalance r" "0 :: rat" rule: linorder_cases) (auto simp: closing_entry_def rows_of_def Let_def)
qed (simp add: rows_of_def)

definition closable :: "ledger \<Rightarrow> pnl_row list \<Rightarrow> bool" where
  "closable s rs \<longleftrightarrow> (\<forall>r \<in> set rs. is_cents (pr_signedBalance r) \<and> pr_signedBalance r \<noteq> 0 \<and>
     pr_account r \<in> set (lg_accounts s))"

lemma close_branch_net:
  assumes ok: "ledger_ok s" "ids_fit s" and run: "close_branch fy fid retained actor (b, rs) s = Inr (k, s')"
    and rs: "closable s rs" and b: "text_val (JStr b) 50 = b"
    and ret: "rs \<noteq> [] \<longrightarrow> (\<exists>a. retained = Some a \<and> a \<in> set (lg_accounts s) \<and> ga_id a \<noteq> aid)" and aid: "pnl_account s aid"
  shows "pnl_net (take 10 (fy_endDateAD fy)) s' b' aid =
    pnl_net (take 10 (fy_endDateAD fy)) s b' aid - (if b' = b then rows_of rs aid else 0)"
    and "lg_accounts s' = lg_accounts s" and "pnl_account s' = pnl_account s"
proof -
  let ?E = "take 10 (fy_endDateAD fy)"
  have all: "fst (closing_lines code rs (ls, d, c)) = ls @ map (closing_line code) rs" for code ls d c
    using rs by (intro closing_lines_all) (auto simp: closable_def)
  from run have "(pnl_net ?E s' b' aid = pnl_net ?E s b' aid - (if b' = b then rows_of rs aid else 0)) \<and>
    lg_accounts s' = lg_accounts s \<and> pnl_account s' = pnl_account s"
  proof (cases rule: close_branch_run)
    case 1
    with all [of "fy_code fy" "[]" 0 0] have "rs = []" by simp
    with 1 show ?thesis by (simp add: rows_of_def)
  next
    case (2 ls d c j)
    from 2(1) all [of "fy_code fy" "[]" 0 0] have ls: "ls = map (closing_line (fy_code fy)) rs" by simp
    note entries = post_entries [OF 2(2) ok(1), unfolded closing_fields arr_or_empty.simps]
    from 2(2) obtain date h jls kls es where p: "posting s s' date h jls kls es" and j: "pj_id j = gj_id h"
      and rd: "requireDate (JStr ?E) = Inr date" and hb: "gj_branchId h = text_val (JStr b) 50"
      by (rule postJournal_posting) simp
    have inv: "ledger_inv s" using ok by (simp add: ledger_ok_def)
    have "gj_journalDateAD h = ?E" using p requireDate_10 [OF rd] by (simp add: posting_def)
    then have date: "str_le (gj_journalDateAD h) ?E" by simp
    have new: "entries j s' = map entry kls" using posting_new_lines(1) [OF p inv] by (simp add: entries_def j)
    have "text_val (JStr (ga_id (pr_account r))) 50 = ga_id (pr_account r)" if "r \<in> set rs" for r
      using that rs clean_id [OF ok] by (auto simp: closable_def)
    with rs have cl: "\<forall>r \<in> set rs. is_cents (pr_signedBalance r) \<and> text_val (JStr (ga_id (pr_account r))) 50 = ga_id (pr_account r)"
      by (auto simp: closable_def)
    obtain es1 es2 where e: "map entry kls = es1 @ es2" "list_all2 asks ls es1"
      "list_all2 asks (retained_line (fy_code fy) (the retained) (round_money (d - c))) es2"
      using entries unfolding new by (auto simp: list_all2_append1)
    have e1: "es1 = map closing_entry rs" using e(2) cl unfolding ls by (rule asks_closings)
    have "filter (\<lambda>x. fst x = aid) es2 = []"
    proof (cases "rs = []")
      case True
      with 2(1) e(3) show ?thesis by (simp add: retained_line_def)
    next
      case False
      with ret obtain a where a: "retained = Some a" "a \<in> set (lg_accounts s)" "ga_id a \<noteq> aid" by blast
      with e(3) clean_id [OF ok a(2)] show ?thesis
        by (auto simp: retained_line_def Let_def asks_line list_all2_Cons1 split: if_splits)
    qed
    then have "sum_list (map (\<lambda>(x, d, c). d - c) (filter (\<lambda>e. fst e = aid) (map entry kls))) = - rows_of rs aid"
      by (simp add: e(1) e1 closing_sum)
    with pnl_net_posting [OF p inv date aid, of b'] posting_fields(1) [OF p] pnl_account_posting [OF p]
    show ?thesis by (simp add: hb b)
  qed
  then show "pnl_net ?E s' b' aid = pnl_net ?E s b' aid - (if b' = b then rows_of rs aid else 0)"
    and "lg_accounts s' = lg_accounts s" and "pnl_account s' = pnl_account s" by auto
qed

lemma ids_fit_frame: "lg_accounts s' = lg_accounts s \<Longrightarrow> ids_fit s' = ids_fit s"
  by (simp add: ids_fit_def)

lemma closable_frame: "lg_accounts s' = lg_accounts s \<Longrightarrow> closable s' rs = closable s rs"
  by (simp add: closable_def)

lemma close_branches_net:
  assumes "ledger_ok s" "ids_fit s" and "close_branches fy fid retained actor brs n s = Inr (k, s')"
    and "\<forall>(b, rs) \<in> set brs. closable s rs \<and> text_val (JStr b) 50 = b" and "distinct (map fst brs)"
    and "brs \<noteq> [] \<longrightarrow> (\<exists>a. retained = Some a \<and> a \<in> set (lg_accounts s) \<and> ga_id a \<noteq> aid)" and "pnl_account s aid"
  shows "pnl_net (take 10 (fy_endDateAD fy)) s' b' aid =
    pnl_net (take 10 (fy_endDateAD fy)) s b' aid - (case map_of brs b' of None \<Rightarrow> 0 | Some rs \<Rightarrow> rows_of rs aid)"
    and "lg_accounts s' = lg_accounts s" and "pnl_account s' = pnl_account s"
proof -
  let ?E = "take 10 (fy_endDateAD fy)"
  have "pnl_net ?E s' b' aid = pnl_net ?E s b' aid - (case map_of brs b' of None \<Rightarrow> 0 | Some rs \<Rightarrow> rows_of rs aid) \<and>
    lg_accounts s' = lg_accounts s \<and> pnl_account s' = pnl_account s"
    using assms
  proof (induction brs arbitrary: n s)
    case (Cons br brs)
    obtain b rs where br: "br = (b, rs)" by (cases br) auto
    with Cons.prems obtain i s1 where one: "close_branch fy fid retained actor (b, rs) s = Inr (i, s1)"
      and rest: "close_branches fy fid retained actor brs (n + i) s1 = Inr (k, s')" by auto
    have rs: "closable s rs" "text_val (JStr b) 50 = b"
      and ret: "rs \<noteq> [] \<longrightarrow> (\<exists>a. retained = Some a \<and> a \<in> set (lg_accounts s) \<and> ga_id a \<noteq> aid)"
      using Cons.prems by (auto simp: br)
    note eff = close_branch_net [OF Cons.prems(1,2) one rs ret Cons.prems(7)]
    have ok1: "ledger_ok s1" using close_branch_steps [OF one] Cons.prems(1) steps_ok by blast
    have "pnl_net ?E s' b' aid = pnl_net ?E s1 b' aid - (case map_of brs b' of None \<Rightarrow> 0 | Some rs \<Rightarrow> rows_of rs aid) \<and>
      lg_accounts s' = lg_accounts s1 \<and> pnl_account s' = pnl_account s1"
      by (rule Cons.IH [OF ok1 _ rest]) (use Cons.prems in \<open>auto simp: eff(2,3) ids_fit_def closable_frame [OF eff(2)]\<close>)
    moreover have "map_of brs b = None" using Cons.prems(5) by (auto simp: br map_of_eq_None_iff)
    ultimately show ?case using eff(1) [of b'] eff(2,3) by (auto simp: br)
  qed auto
  then show "pnl_net ?E s' b' aid = pnl_net ?E s b' aid - (case map_of brs b' of None \<Rightarrow> 0 | Some rs \<Rightarrow> rows_of rs aid)"
    and "lg_accounts s' = lg_accounts s" and "pnl_account s' = pnl_account s" by auto
qed

lemma by_branch_map: "map_of (by_branch rows) b =
  (if b \<in> pr_branchId ` set rows then Some (filter (\<lambda>r. pr_branchId r = b) rows) else None)"
proof -
  have "map_of (map (\<lambda>b. (b, filter (\<lambda>r. pr_branchId r = b) rows)) bs) b =
      (if b \<in> set bs then Some (filter (\<lambda>r. pr_branchId r = b) rows) else None)" for bs
    by (induction bs) auto
  then show ?thesis by (simp add: by_branch_def)
qed

text \<open>The query: per branch and account, its rows carry the net balance.\<close>

lemma account_unique: "ledger_ok s \<Longrightarrow> ACCOUNT_BY_ID aid s = Some a \<Longrightarrow> a \<in> set (lg_accounts s) \<and> ga_id a = aid"
  by (auto simp: ACCOUNT_BY_ID_def dest: find_SomeD)

definition pnl_row_of :: "string \<Rightarrow> ledger \<Rightarrow> string \<times> string \<Rightarrow> pnl_row option" where
  "pnl_row_of E s = (\<lambda>(b, aid).
     case ACCOUNT_BY_ID aid s of None \<Rightarrow> None
     | Some a \<Rightarrow> if pnl_net E s b aid = 0 then None
         else Some \<lparr>pr_branchId = b, pr_account = a, pr_signedBalance = pnl_net E s b aid\<rparr>)"

definition pnl_keys :: "string \<Rightarrow> ledger \<Rightarrow> (string \<times> string) list" where
  "pnl_keys E s = remdups (map (\<lambda>l. (gl_branchId l, gl_accountId l)) (pnl_lines E s))"

lemma pnl_rows_eq: "FISCAL_YEAR_PNL_BALANCE_ROWS E s = order_by pnl_le (List.map_filter (pnl_row_of E s) (pnl_keys E s))"
  by (simp only: FISCAL_YEAR_PNL_BALANCE_ROWS_def pnl_row_of_def pnl_keys_def)

lemma pnl_row_cases:
  assumes "pnl_account s aid" and "pnl_row_of E s (b', i) = r"
  shows "case r of None \<Rightarrow> (b', i) = (b, aid) \<longrightarrow> pnl_net E s b aid = 0
    | Some x \<Rightarrow> pr_branchId x = b' \<and> ga_id (pr_account x) = i \<and> pr_signedBalance x = pnl_net E s b' i"
  using assms by (auto simp: pnl_row_of_def pnl_account_def ACCOUNT_BY_ID_def dest: find_SomeD split: option.splits if_splits)

lemma pnl_rows_net:
  assumes "pnl_account s aid"
  shows "rows_of (filter (\<lambda>r. pr_branchId r = b) (FISCAL_YEAR_PNL_BALANCE_ROWS E s)) aid = pnl_net E s b aid"
proof -
  have sum: "sum_list (map pr_signedBalance (filter (\<lambda>r. pr_branchId r = b \<and> ga_id (pr_account r) = aid) (List.map_filter (pnl_row_of E s) ks))) =
    (if (b, aid) \<in> set ks then pnl_net E s b aid else 0)" if "distinct ks" for ks
    using that
  proof (induction ks)
    case (Cons k ks)
    obtain b' i where k: "k = (b', i)" by (cases k) auto
    from pnl_row_cases [OF assms refl, where E = E and b' = b' and i = i and b = b] Cons show ?case
      unfolding k by (cases "pnl_row_of E s (b', i)") auto
  qed simp
  have "pnl_net E s b aid = 0" if "(b, aid) \<notin> set (pnl_keys E s)"
  proof -
    from that have "filter (\<lambda>l. gl_branchId l = b \<and> gl_accountId l = aid) (pnl_lines E s) = []"
      by (auto simp: filter_empty_conv image_iff pnl_keys_def)
    then show ?thesis by (simp only: pnl_net_def) simp
  qed
  then show ?thesis using sum [of "pnl_keys E s"]
    by (simp add: rows_of_def pnl_rows_eq sum_order_by conj_commute pnl_keys_def)
qed

lemma pnl_row_ok:
  assumes ok: "ledger_ok s" and r: "r \<in> set (FISCAL_YEAR_PNL_BALANCE_ROWS E s)"
  shows "is_cents (pr_signedBalance r) \<and> pr_signedBalance r \<noteq> 0 \<and> pr_account r \<in> set (lg_accounts s) \<and>
    text_val (JStr (pr_branchId r)) 50 = pr_branchId r"
proof -
  from r obtain b aid where key: "(b, aid) \<in> set (pnl_keys E s)" and row: "pnl_row_of E s (b, aid) = Some r"
    by (auto simp: pnl_rows_eq List.map_filter_def)
  from row have f: "pr_branchId r = b" "pr_signedBalance r = pnl_net E s b aid" "pr_signedBalance r \<noteq> 0" "pr_account r \<in> set (lg_accounts s)"
    by (auto simp: pnl_row_of_def ACCOUNT_BY_ID_def dest: find_SomeD split: option.splits if_splits)
  have lines: "l \<in> set (lg_lines s)" if "l \<in> set (pnl_lines E s)" for l
    using that by (simp add: pnl_lines_def source_lines_def)
  then have "is_cents (pnl_net E s b aid)" unfolding pnl_net_def
    using ok by (intro is_cents_sum_list) (auto simp: ledger_ok_def ledger_inv_def lines_inv_def one_sided_def)
  moreover from key obtain l where l: "l \<in> set (lg_lines s)" "gl_branchId l = b" by (auto simp: pnl_keys_def dest: lines)
  from ok l(1) obtain j where j: "j \<in> set (lg_journals s)" "gl_journalId l = gj_id j"
    by (auto simp: ledger_ok_def ledger_inv_def lines_inv_def)
  with ok l have "b = gj_branchId j" and "text_val (JStr (gj_branchId j)) 50 = gj_branchId j"
    by (auto simp: ledger_ok_def clean_inv_def)
  ultimately show ?thesis using f by simp
qed

lemma FY_CLOSE_frame: "FY_CLOSE today fid s = Inr (x, s') \<Longrightarrow> \<exists>fys. s' = s\<lparr>lg_fiscalYears := fys\<rparr> \<and>
    (\<forall>fy. x = Some fy \<longrightarrow> fy_isClosed fy \<and> fy_id fy = fid)"
  by (auto simp: FY_CLOSE_def Let_def dest: find_SomeD)

lemma pnl_net_fiscal: "pnl_net E (s\<lparr>lg_fiscalYears := fys\<rparr>) = pnl_net E s" "pnl_account (s\<lparr>lg_fiscalYears := fys\<rparr>) = pnl_account s"
  "pnl_lines E (s\<lparr>lg_fiscalYears := fys\<rparr>) = pnl_lines E s"
proof -
  have t: "account_type (s\<lparr>lg_fiscalYears := fys\<rparr>) = account_type s" by (intro ext) (simp add: account_type_def ACCOUNT_GROUP_BY_ID_def)
  show a: "pnl_account (s\<lparr>lg_fiscalYears := fys\<rparr>) = pnl_account s"
    by (intro ext) (simp add: pnl_account_def ACCOUNT_BY_ID_def t split: option.split)
  show "pnl_lines E (s\<lparr>lg_fiscalYears := fys\<rparr>) = pnl_lines E s" by (simp add: pnl_lines_def a source_lines_def)
  then show "pnl_net E (s\<lparr>lg_fiscalYears := fys\<rparr>) = pnl_net E s" by (intro ext) (simp add: pnl_net_def)
qed

lemma no_pnl_rows: "(\<And>b aid. pnl_account s aid \<Longrightarrow> pnl_net E s b aid = 0) \<Longrightarrow> FISCAL_YEAR_PNL_BALANCE_ROWS E s = []"
proof -
  assume z: "\<And>b aid. pnl_account s aid \<Longrightarrow> pnl_net E s b aid = 0"
  have "pnl_row_of E s k = None" if "k \<in> set (pnl_keys E s)" for k
    using that z by (auto simp: pnl_keys_def pnl_lines_def pnl_row_of_def split: option.split)
  then have "List.map_filter (pnl_row_of E s) (pnl_keys E s) = []" by (auto simp: List.map_filter_def filter_empty_conv)
  then show ?thesis by (simp add: pnl_rows_eq order_by_def)
qed

lemma closable_by_branch:
  assumes "ledger_ok s" and "(b, rs) \<in> set (by_branch (FISCAL_YEAR_PNL_BALANCE_ROWS E s))"
  shows "closable s rs \<and> text_val (JStr b) 50 = b"
  using assms pnl_row_ok [OF assms(1), of _ E] by (auto simp: by_branch_def closable_def)

lemma by_branch_distinct: "distinct (map fst (by_branch rows))"
  by (simp add: by_branch_def comp_def)

lemma close_branches_zero:
  assumes ok: "ledger_ok s" "ids_fit s" and E: "E = take 10 (fy_endDateAD fy)"
    and run: "close_branches fy fid retained actor (by_branch (FISCAL_YEAR_PNL_BALANCE_ROWS E s)) 0 s = Inr (n, s')"
    and ret: "FISCAL_YEAR_PNL_BALANCE_ROWS E s \<noteq> [] \<longrightarrow>
       (\<exists>a. retained = Some a \<and> a \<in> set (lg_accounts s) \<and> \<not> pnl_account s (ga_id a))"
    and a': "pnl_account s' aid"
  shows "pnl_net E s' b aid = 0"
proof -
  let ?rows = "FISCAL_YEAR_PNL_BALANCE_ROWS E s"
  have pn: "pnl_account s' = pnl_account s"
  proof (cases "by_branch ?rows = []")
    case True
    with run show ?thesis by simp
  next
    case False
    then have "?rows \<noteq> []" by (auto simp: by_branch_def first_occurrences_def)
    with ret obtain a where a: "retained = Some a" "a \<in> set (lg_accounts s)" "\<not> pnl_account s (ga_id a)" by blast
    from \<open>?rows \<noteq> []\<close> obtain r where "r \<in> set ?rows" by (cases ?rows) auto
    then obtain i where "pnl_account s i"
      by (auto simp: pnl_rows_eq List.map_filter_def pnl_keys_def pnl_lines_def)
    moreover from this a have "ga_id a \<noteq> i" by auto
    ultimately show ?thesis
      using close_branches_net(3) [OF ok run, of i] closable_by_branch [OF ok(1)] by_branch_distinct a(1,2) by blast
  qed
  with a' have aid: "pnl_account s aid" by simp
  have r2: "by_branch ?rows \<noteq> [] \<longrightarrow> (\<exists>a. retained = Some a \<and> a \<in> set (lg_accounts s) \<and> ga_id a \<noteq> aid)"
    using ret aid by (cases "?rows = []") (auto simp: by_branch_def first_occurrences_def)
  have "pnl_net E s' b aid = pnl_net E s b aid - (case map_of (by_branch ?rows) b of None \<Rightarrow> 0 | Some rs \<Rightarrow> rows_of rs aid)"
    using close_branches_net(1) [OF ok run _ by_branch_distinct r2 aid, of b] closable_by_branch [OF ok(1)] by (auto simp: E)
  moreover have "rows_of (filter (\<lambda>r. pr_branchId r = b) ?rows) aid = 0" if "b \<notin> pr_branchId ` set ?rows"
  proof -
    have "filter (\<lambda>r. pr_branchId r = b) ?rows = []" using that by (auto simp: filter_empty_conv)
    then show ?thesis by (simp only: rows_of_def) simp
  qed
  ultimately show ?thesis
    using pnl_rows_net [OF aid, of b E] by (auto simp: by_branch_map split: if_splits)
qed

end
