(* ===== verification/Statements.thy ===== *)
theory Statements
  imports StatementTree YearEnd
begin

text \<open>
  \<open>server/src/services/accountingStatements.service.ts\<close>: the window of a statement, the account balances behind it, trial
  balance, profit and loss, balance sheet and cash flow. NUMERIC columns are exact rationals, as in the ledger; \<open>cmp\<close> is
  \<open>String.localeCompare\<close>, whose order is the host's; \<open>today\<close> is the clock's UTC date. A balance row carries its account and the
  account's group, the two rows the query joins.
\<close>

section \<open>The window\<close>

datatype statement_mode = TRIAL_BALANCE | PROFIT_AND_LOSS | BALANCE_SHEET | CASH_FLOW

record statement_scope =
  sc_branchId :: "string option"
  sc_empty :: bool

record statement_window =
  sw_from :: "string option"
  sw_to :: string
  sw_branchId :: "string option"
  sw_empty :: bool

definition trimmed_field :: "jsval \<Rightarrow> string \<Rightarrow> string" where
  "trimmed_field q k = (case jget q k of JStr s \<Rightarrow> trim s | _ \<Rightarrow> [])"

definition statement_date :: "string \<Rightarrow> string \<Rightarrow> string res" where
  "statement_date raw field =
     (if isAccountingDate (JStr raw) then Inr raw else throw 400 (field @ '' must be a real date in YYYY-MM-DD form.''))"

definition resolveStatementWindow ::
  "string \<Rightarrow> jsval \<Rightarrow> statement_mode \<Rightarrow> statement_scope \<Rightarrow> (ledger, statement_window) tx" where
  "resolveStatementWindow today q mode scope =
     (let asOf = trimmed_field q ''asOf''; rawTo = trimmed_field q ''to'' in
      tbind (tguard (\<not> (asOf \<noteq> [] \<and> rawTo \<noteq> [] \<and> asOf \<noteq> rawTo)) 400 ''Use either asOf or to, not both.'') (\<lambda>_.
      tbind (tlift (statement_date (if asOf \<noteq> [] then asOf else if rawTo \<noteq> [] then rawTo else today) ''Statement date'')) (\<lambda>to.
      let rawFrom = trimmed_field q ''from'';
          window = (\<lambda>from. \<lparr>sw_from = from, sw_to = to, sw_branchId = sc_branchId scope, sw_empty = sc_empty scope\<rparr>) in
      if mode = BALANCE_SHEET
      then tbind (tguard (rawFrom = []) 400 ''A balance sheet is as of a date; use asOf or to, not from.'') (\<lambda>_. treturn (window None))
      else if rawFrom \<noteq> []
      then tbind (tlift (statement_date rawFrom ''Statement start date'')) (\<lambda>from.
           tbind (tguard (\<not> str_lt to from) 400 ''The statement start date must not be after the end date.'') (\<lambda>_.
           treturn (window (Some from))))
      else tbind (tquery (FISCAL_YEAR_BOUNDS to)) (\<lambda>fy.
           case fy of None \<Rightarrow> tthrow 400 (''No fiscal year contains '' @ to @
             ''. Create the fiscal year first, or pass an explicit from date.'')
           | Some f \<Rightarrow> treturn (window (Some (take 10 (fy_startDateAD f))))))))"

definition statementBranchLabel :: "statement_window \<Rightarrow> string option" where
  "statementBranchLabel w =
     (case opt_or_null (sw_branchId w) of Some b \<Rightarrow> Some b | None \<Rightarrow> if sw_empty w then None else Some ''ALL'')"

section \<open>Balances\<close>

record balance_row =
  br_account :: gl_account
  br_group :: gl_group
  br_openingBalance :: rat
  br_periodDebit :: rat
  br_periodCredit :: rat

definition before_window :: "string option \<Rightarrow> string \<Rightarrow> string \<Rightarrow> bool" where
  "before_window from to d \<longleftrightarrow> str_le d to \<and> (case from of None \<Rightarrow> False | Some f \<Rightarrow> str_lt d f)"

definition in_window :: "string option \<Rightarrow> string \<Rightarrow> string \<Rightarrow> bool" where
  "in_window from to d \<longleftrightarrow> str_le d to \<and> (case from of None \<Rightarrow> True | Some f \<Rightarrow> str_le f d)"

text \<open>The POSTED lines of a branch whose journal date satisfies a test.\<close>

definition dated_lines :: "(string \<Rightarrow> bool) \<Rightarrow> string option \<Rightarrow> ledger \<Rightarrow> gl_line list" where
  "dated_lines P branch s = filter (\<lambda>l. branch_matches branch (gl_branchId l)) (source_lines (\<lambda>j. P (gj_journalDateAD j)) s)"

definition account_sum :: "(gl_line \<Rightarrow> rat) \<Rightarrow> string \<Rightarrow> gl_line list \<Rightarrow> rat" where
  "account_sum f aid ls = sum_list (map f (filter (\<lambda>l. gl_accountId l = aid) ls))"

definition balance_le :: "balance_row \<Rightarrow> balance_row \<Rightarrow> bool" where
  "balance_le x y \<longleftrightarrow> (if gg_sortOrder (br_group x) = gg_sortOrder (br_group y)
     then str_le (ga_code (br_account x)) (ga_code (br_account y)) else gg_sortOrder (br_group x) < gg_sortOrder (br_group y))"

definition ACCOUNT_BALANCE_ROWS :: "string option \<Rightarrow> string \<Rightarrow> string option \<Rightarrow> ledger \<Rightarrow> balance_row list" where
  "ACCOUNT_BALANCE_ROWS from to branch s =
     (let earlier = dated_lines (before_window from to) branch s; inside = dated_lines (in_window from to) branch s in
      order_by balance_le (List.map_filter (\<lambda>a. map_option (\<lambda>g.
        \<lparr>br_account = a, br_group = g, br_openingBalance = account_sum (\<lambda>l. gl_debit l - gl_credit l) (ga_id a) earlier,
         br_periodDebit = account_sum gl_debit (ga_id a) inside, br_periodCredit = account_sum gl_credit (ga_id a) inside\<rparr>)
        (ACCOUNT_GROUP_BY_ID (ga_groupId a) s)) (lg_accounts s)))"

definition group_list_le :: "ledger \<Rightarrow> gl_group \<Rightarrow> gl_group \<Rightarrow> bool" where
  "group_list_le s x y =
     (let parent = (\<lambda>g. case gg_parentId g of None \<Rightarrow> g | Some p \<Rightarrow> (case ACCOUNT_GROUP_BY_ID p s of None \<Rightarrow> g | Some h \<Rightarrow> h));
          level = (\<lambda>g. if gg_parentId g = None then 0 else 1 :: nat); px = parent x; py = parent y in
      if gg_sortOrder px \<noteq> gg_sortOrder py then gg_sortOrder px < gg_sortOrder py
      else if gg_code px \<noteq> gg_code py then str_le (gg_code px) (gg_code py)
      else if level x \<noteq> level y then level x < level y
      else if gg_sortOrder x \<noteq> gg_sortOrder y then gg_sortOrder x < gg_sortOrder y
      else str_le (gg_code x) (gg_code y))"

definition ACCOUNT_GROUP_LIST :: "ledger \<Rightarrow> gl_group list" where
  "ACCOUNT_GROUP_LIST s = order_by (group_list_le s) (lg_groups s)"

definition loadAccountBalances :: "statement_window \<Rightarrow> ledger \<Rightarrow> balance_row list" where
  "loadAccountBalances w s =
     (if sw_empty w then []
      else map (\<lambda>r. r\<lparr>br_openingBalance := round_money (br_openingBalance r), br_periodDebit := round_money (br_periodDebit r),
             br_periodCredit := round_money (br_periodCredit r)\<rparr>)
        (ACCOUNT_BALANCE_ROWS (sw_from w) (sw_to w) (sw_branchId w) s))"

definition loadGroupRows :: "statement_window \<Rightarrow> ledger \<Rightarrow> gl_group list" where
  "loadGroupRows w s = (if sw_empty w then [] else ACCOUNT_GROUP_LIST s)"

definition closingSigned :: "balance_row \<Rightarrow> rat" where
  "closingSigned r = round_money (br_openingBalance r + br_periodDebit r - br_periodCredit r)"

definition periodSigned :: "balance_row \<Rightarrow> rat" where
  "periodSigned r = round_money (br_periodDebit r - br_periodCredit r)"

definition presented :: "string \<Rightarrow> rat \<Rightarrow> rat" where
  "presented accountType signed = round_money (if accountType = ''ASSET'' \<or> accountType = ''EXPENSE'' then signed else - signed)"

section \<open>Sections\<close>

record account_amount =
  am_accountId :: string
  am_code :: string
  am_name :: string
  am_groupCode :: string
  am_groupName :: string
  am_amount :: rat

datatype group_block = Group_Block (bk_groupId: string) (bk_parentGroupId: "string option") (bk_groupCode: string) (bk_groupName: string)
  (bk_sortOrder: int) (bk_amount: rat) (bk_accounts: "account_amount list") (bk_children: "group_block list")

definition block_le :: "(string \<Rightarrow> string \<Rightarrow> int) \<Rightarrow> group_block \<Rightarrow> group_block \<Rightarrow> bool" where
  "block_le cmp x y \<longleftrightarrow> (if bk_sortOrder x \<noteq> bk_sortOrder y then bk_sortOrder x < bk_sortOrder y
     else cmp (bk_groupCode x) (bk_groupCode y) \<le> 0)"

definition block_accounts :: "(string \<Rightarrow> string \<Rightarrow> int) \<Rightarrow> balance_row list \<Rightarrow> (balance_row \<Rightarrow> rat) \<Rightarrow> gl_group \<Rightarrow> account_amount list" where
  "block_accounts cmp rows amountOf g =
     order_by (\<lambda>x y. cmp (am_code x) (am_code y) \<le> 0)
       (map (\<lambda>r. \<lparr>am_accountId = ga_id (br_account r), am_code = ga_code (br_account r), am_name = ga_name (br_account r),
          am_groupCode = gg_code (br_group r), am_groupName = gg_name (br_group r), am_amount = amountOf r\<rparr>)
        (filter (\<lambda>r. gg_id (br_group r) = gg_id g) rows))"

definition finalize_block ::
  "(string \<Rightarrow> string \<Rightarrow> int) \<Rightarrow> balance_row list \<Rightarrow> (balance_row \<Rightarrow> rat) \<Rightarrow> gl_group \<Rightarrow> group_block list \<Rightarrow> group_block option" where
  "finalize_block cmp rows amountOf g kept =
     (let children = order_by (block_le cmp) kept; accounts = block_accounts cmp rows amountOf g;
          amount = round_money (sum_list (map am_amount accounts) + sum_list (map bk_amount children))
      in if accounts = [] \<and> children = [] then None
         else Some (Group_Block (gg_id g) (opt_or_null (gg_parentId g)) (gg_code g) (gg_name g) (gg_sortOrder g) amount accounts children))"

definition buildStatementGroupTree ::
  "(string \<Rightarrow> string \<Rightarrow> int) \<Rightarrow> gl_group list \<Rightarrow> balance_row list \<Rightarrow> string \<Rightarrow> (balance_row \<Rightarrow> rat) \<Rightarrow> group_block list" where
  "buildStatementGroupTree cmp groupRows rows statementGroup amountOf =
     order_by (block_le cmp) (group_roots (finalize_block cmp rows amountOf)
       (filter (\<lambda>g. gg_statementGroup g = statementGroup) groupRows))"

definition GROUP_LABELS :: "string \<Rightarrow> string" where
  "GROUP_LABELS sg =
     (if sg = ''CURRENT_ASSET'' then ''Current assets'' else if sg = ''NON_CURRENT_ASSET'' then ''Non-current assets''
      else if sg = ''CURRENT_LIABILITY'' then ''Current liabilities'' else if sg = ''NON_CURRENT_LIABILITY'' then ''Non-current liabilities''
      else if sg = ''EQUITY'' then ''Equity'' else if sg = ''REVENUE'' then ''Revenue'' else if sg = ''COST_OF_SALES'' then ''Cost of sales''
      else if sg = ''OPERATING_EXPENSE'' then ''Operating expenses'' else if sg = ''OTHER_INCOME'' then ''Other income'' else ''Other expenses'')"

record statement_section =
  ss_statementGroup :: string
  ss_label :: string
  ss_amount :: rat
  ss_groups :: "group_block list"

definition sectionize ::
  "(string \<Rightarrow> string \<Rightarrow> int) \<Rightarrow> gl_group list \<Rightarrow> balance_row list \<Rightarrow> string list \<Rightarrow> (balance_row \<Rightarrow> rat) \<Rightarrow> statement_section list" where
  "sectionize cmp groupRows rows order amountOf =
     List.map_filter (\<lambda>sg.
       let inSection = filter (\<lambda>r. gg_statementGroup (br_group r) = sg) rows;
           groups = buildStatementGroupTree cmp groupRows inSection sg amountOf
       in if inSection = [] \<or> groups = [] then None
          else Some \<lparr>ss_statementGroup = sg, ss_label = GROUP_LABELS sg, ss_amount = round_money (sum_list (map bk_amount groups)),
                  ss_groups = groups\<rparr>) order"

section \<open>Control agreement\<close>

record control_agreement =
  ca_accountId :: string
  ca_code :: string
  ca_name :: string
  ca_subledgerType :: string
  ca_glBalance :: rat
  ca_subledgerBalance :: rat
  ca_difference :: rat
  ca_status :: string

definition CONTROL_AGREEMENT_ROWS :: "string \<Rightarrow> string option \<Rightarrow> ledger \<Rightarrow> (gl_account \<times> rat \<times> rat) list" where
  "CONTROL_AGREEMENT_ROWS to branch s =
     map (\<lambda>a. (a, account_sum (\<lambda>l. gl_debit l - gl_credit l) (ga_id a) (dated_lines (\<lambda>d. str_le d to) branch s),
        sum_list (map (\<lambda>e. gs_debit e - gs_credit e) (filter (\<lambda>e. gs_accountId e = ga_id a \<and> str_le (gs_entryDateAD e) to \<and>
          branch_matches branch (gs_branchId e)) (lg_subledger s)))))
       (order_by (\<lambda>x y. str_le (ga_code x) (ga_code y)) (filter ga_isControl (lg_accounts s)))"

definition loadControls :: "statement_window \<Rightarrow> ledger \<Rightarrow> control_agreement list" where
  "loadControls w s =
     (if sw_empty w then []
      else map (\<lambda>(a, gl, sl). let glBalance = round_money gl; subledgerBalance = round_money sl; difference = round_money (glBalance - subledgerBalance)
        in \<lparr>ca_accountId = ga_id a, ca_code = ga_code a, ca_name = ga_name a, ca_subledgerType = ga_subledgerType a,
            ca_glBalance = glBalance, ca_subledgerBalance = subledgerBalance, ca_difference = difference,
            ca_status = (if \<bar>difference\<bar> < 5 / 1000 then ''RECONCILED'' else ''DIFFERENCE'')\<rparr>)
        (CONTROL_AGREEMENT_ROWS (sw_to w) (sw_branchId w) s))"

section \<open>Trial balance\<close>

record tb_columns =
  tc_openingDebit :: rat
  tc_openingCredit :: rat
  tc_periodDebit :: rat
  tc_periodCredit :: rat
  tc_closingDebit :: rat
  tc_closingCredit :: rat

record tb_account =
  ta_row :: balance_row
  ta_closingBalance :: rat
  ta_columns :: tb_columns

definition tb_account_of :: "balance_row \<Rightarrow> tb_account" where
  "tb_account_of r =
     (let closing = closingSigned r; opening = br_openingBalance r in
      \<lparr>ta_row = r, ta_closingBalance = closing, ta_columns =
        \<lparr>tc_openingDebit = round_money (max opening 0), tc_openingCredit = round_money (max (- opening) 0),
         tc_periodDebit = br_periodDebit r, tc_periodCredit = br_periodCredit r,
         tc_closingDebit = round_money (max closing 0), tc_closingCredit = round_money (max (- closing) 0)\<rparr>\<rparr>)"

definition sum_columns :: "tb_columns list \<Rightarrow> tb_columns" where
  "sum_columns cs =
     (let total = (\<lambda>pick. round_money (sum_list (map pick cs))) in
      \<lparr>tc_openingDebit = total tc_openingDebit, tc_openingCredit = total tc_openingCredit,
       tc_periodDebit = total tc_periodDebit, tc_periodCredit = total tc_periodCredit,
       tc_closingDebit = total tc_closingDebit, tc_closingCredit = total tc_closingCredit\<rparr>)"

definition add_columns :: "tb_columns \<Rightarrow> tb_columns \<Rightarrow> tb_columns" where
  "add_columns x y =
     \<lparr>tc_openingDebit = round_money (tc_openingDebit x + tc_openingDebit y), tc_openingCredit = round_money (tc_openingCredit x + tc_openingCredit y),
      tc_periodDebit = round_money (tc_periodDebit x + tc_periodDebit y), tc_periodCredit = round_money (tc_periodCredit x + tc_periodCredit y),
      tc_closingDebit = round_money (tc_closingDebit x + tc_closingDebit y), tc_closingCredit = round_money (tc_closingCredit x + tc_closingCredit y)\<rparr>"

datatype tb_group = TB_Group (tg_groupId: string) (tg_code: string) (tg_name: string) (tg_parentGroupId: "string option") (tg_sortOrder: int)
  (tg_columns: tb_columns) (tg_accounts: "tb_account list") (tg_children: "tb_group list")

definition tb_group_le :: "(string \<Rightarrow> string \<Rightarrow> int) \<Rightarrow> tb_group \<Rightarrow> tb_group \<Rightarrow> bool" where
  "tb_group_le cmp x y \<longleftrightarrow> (if tg_sortOrder x \<noteq> tg_sortOrder y then tg_sortOrder x < tg_sortOrder y else cmp (tg_code x) (tg_code y) \<le> 0)"

definition finalize_group :: "(string \<Rightarrow> string \<Rightarrow> int) \<Rightarrow> tb_account list \<Rightarrow> gl_group \<Rightarrow> tb_group list \<Rightarrow> tb_group option" where
  "finalize_group cmp accounts g kept =
     (let children = order_by (tb_group_le cmp) kept;
          own = order_by (\<lambda>x y. cmp (ga_code (br_account (ta_row x))) (ga_code (br_account (ta_row y))) \<le> 0)
            (filter (\<lambda>a. gg_id (br_group (ta_row a)) = gg_id g) accounts);
          columns = foldl (\<lambda>c child. add_columns c (tg_columns child)) (sum_columns (map ta_columns own)) children
      in if own = [] \<and> children = [] then None
         else Some (TB_Group (gg_id g) (gg_code g) (gg_name g) (opt_or_null (gg_parentId g)) (gg_sortOrder g) columns own children))"

definition buildTrialBalanceGroups :: "(string \<Rightarrow> string \<Rightarrow> int) \<Rightarrow> gl_group list \<Rightarrow> tb_account list \<Rightarrow> tb_group list" where
  "buildTrialBalanceGroups cmp groupRows accounts =
     order_by (tb_group_le cmp) (group_roots (finalize_group cmp accounts) groupRows)"

record trial_balance =
  tb_branchId :: "string option"
  tb_from :: "string option"
  tb_to :: string
  tb_groups :: "tb_group list"
  tb_sections :: "statement_section list"
  tb_accounts :: "tb_account list"
  tb_totals :: tb_columns
  tb_balanced :: bool
  tb_controls :: "control_agreement list"
  tb_controlsReconciled :: bool

definition buildTrialBalance :: "(string \<Rightarrow> string \<Rightarrow> int) \<Rightarrow> statement_window \<Rightarrow> ledger \<Rightarrow> trial_balance" where
  "buildTrialBalance cmp w s =
     (let rows = filter (\<lambda>r. br_openingBalance r \<noteq> 0 \<or> br_periodDebit r \<noteq> 0 \<or> br_periodCredit r \<noteq> 0) (loadAccountBalances w s);
          accounts = map tb_account_of rows;
          totals = sum_columns (map ta_columns accounts);
          controls = loadControls w s; groupRows = loadGroupRows w s
      in \<lparr>tb_branchId = statementBranchLabel w, tb_from = sw_from w, tb_to = sw_to w,
          tb_groups = buildTrialBalanceGroups cmp groupRows accounts,
          tb_sections = sectionize cmp groupRows rows STATEMENT_GROUPS (\<lambda>r. presented (gg_accountType (br_group r)) (closingSigned r)),
          tb_accounts = accounts, tb_totals = totals,
          tb_balanced = (\<bar>tc_openingDebit totals - tc_openingCredit totals\<bar> < 5 / 1000 \<and>
            \<bar>tc_periodDebit totals - tc_periodCredit totals\<bar> < 5 / 1000 \<and> \<bar>tc_closingDebit totals - tc_closingCredit totals\<bar> < 5 / 1000),
          tb_controls = controls, tb_controlsReconciled = list_all (\<lambda>c. ca_status c = ''RECONCILED'') controls\<rparr>)"

section \<open>Profit and loss\<close>

definition PROFIT_AND_LOSS_ORDER :: "string list" where
  "PROFIT_AND_LOSS_ORDER = [''REVENUE'', ''OTHER_INCOME'', ''COST_OF_SALES'', ''OPERATING_EXPENSE'', ''OTHER_EXPENSE'']"

record profit_and_loss =
  pl_branchId :: "string option"
  pl_from :: "string option"
  pl_to :: string
  pl_sections :: "statement_section list"
  pl_revenue :: rat
  pl_otherIncome :: rat
  pl_totalIncome :: rat
  pl_costOfSales :: rat
  pl_operatingExpense :: rat
  pl_otherExpense :: rat
  pl_totalExpenses :: rat
  pl_grossProfit :: rat
  pl_netProfit :: rat

definition section_amount :: "statement_section list \<Rightarrow> string \<Rightarrow> rat" where
  "section_amount sections sg = (case List.find (\<lambda>x. ss_statementGroup x = sg) sections of None \<Rightarrow> 0 | Some x \<Rightarrow> ss_amount x)"

definition buildProfitAndLoss :: "(string \<Rightarrow> string \<Rightarrow> int) \<Rightarrow> statement_window \<Rightarrow> ledger \<Rightarrow> profit_and_loss" where
  "buildProfitAndLoss cmp w s =
     (let rows = filter (\<lambda>r. (gg_accountType (br_group r) = ''INCOME'' \<or> gg_accountType (br_group r) = ''EXPENSE'') \<and>
            (br_periodDebit r \<noteq> 0 \<or> br_periodCredit r \<noteq> 0)) (loadAccountBalances w s);
          sections = sectionize cmp (loadGroupRows w s) rows PROFIT_AND_LOSS_ORDER (\<lambda>r. presented (gg_accountType (br_group r)) (periodSigned r));
          revenue = section_amount sections ''REVENUE''; otherIncome = section_amount sections ''OTHER_INCOME'';
          costOfSales = section_amount sections ''COST_OF_SALES''; operatingExpense = section_amount sections ''OPERATING_EXPENSE'';
          otherExpense = section_amount sections ''OTHER_EXPENSE'';
          totalIncome = round_money (revenue + otherIncome); totalExpenses = round_money (costOfSales + operatingExpense + otherExpense)
      in \<lparr>pl_branchId = statementBranchLabel w, pl_from = sw_from w, pl_to = sw_to w, pl_sections = sections,
          pl_revenue = revenue, pl_otherIncome = otherIncome, pl_totalIncome = totalIncome, pl_costOfSales = costOfSales,
          pl_operatingExpense = operatingExpense, pl_otherExpense = otherExpense, pl_totalExpenses = totalExpenses,
          pl_grossProfit = round_money (revenue - costOfSales), pl_netProfit = round_money (totalIncome - totalExpenses)\<rparr>)"

section \<open>Balance sheet\<close>

record balance_sheet =
  bs_branchId :: "string option"
  bs_asOf :: string
  bs_assets :: "statement_section list"
  bs_liabilities :: "statement_section list"
  bs_equity :: "statement_section list"
  bs_postedEquity :: rat
  bs_currentEarnings :: rat
  bs_totalAssets :: rat
  bs_cashAndBank :: rat
  bs_totalLiabilities :: rat
  bs_totalEquity :: rat
  bs_totalLiabilitiesAndEquity :: rat
  bs_difference :: rat
  bs_balanced :: bool
  bs_dueFromHeadOffice :: rat
  bs_dueToHeadOffice :: rat

definition buildBalanceSheet :: "(string \<Rightarrow> string \<Rightarrow> int) \<Rightarrow> statement_window \<Rightarrow> ledger \<Rightarrow> balance_sheet" where
  "buildBalanceSheet cmp w s =
     (let rows = filter (\<lambda>r. closingSigned r \<noteq> 0) (loadAccountBalances w s);
          amountOf = (\<lambda>r. presented (gg_accountType (br_group r)) (closingSigned r)); groupRows = loadGroupRows w s;
          typed = (\<lambda>t. filter (\<lambda>r. gg_accountType (br_group r) = t) rows);
          total = (\<lambda>rs. round_money (sum_list (map amountOf rs)));
          sections = (\<lambda>t. sectionize cmp groupRows (typed t) STATEMENT_GROUPS amountOf);
          sectionTotal = (\<lambda>xs. round_money (sum_list (map ss_amount xs)));
          incomeTotal = total (typed ''INCOME''); expenseTotal = total (typed ''EXPENSE'');
          currentEarnings = round_money (incomeTotal - expenseTotal);
          totalAssets = sectionTotal (sections ''ASSET''); totalLiabilities = sectionTotal (sections ''LIABILITY'');
          postedEquity = sectionTotal (sections ''EQUITY''); totalEquity = round_money (postedEquity + currentEarnings);
          totalLiabilitiesAndEquity = round_money (totalLiabilities + totalEquity);
          difference = round_money (totalAssets - totalLiabilitiesAndEquity);
          interBranch = filter (\<lambda>r. ga_subledgerType (br_account r) = ''INTER_BRANCH'') rows
      in \<lparr>bs_branchId = statementBranchLabel w, bs_asOf = sw_to w, bs_assets = sections ''ASSET'', bs_liabilities = sections ''LIABILITY'',
          bs_equity = sections ''EQUITY'', bs_postedEquity = postedEquity, bs_currentEarnings = currentEarnings, bs_totalAssets = totalAssets,
          bs_cashAndBank = total (filter (\<lambda>r. ga_accountKind (br_account r) \<in> set [''CASH'', ''BANK'']) rows),
          bs_totalLiabilities = totalLiabilities, bs_totalEquity = totalEquity, bs_totalLiabilitiesAndEquity = totalLiabilitiesAndEquity,
          bs_difference = difference, bs_balanced = (\<bar>difference\<bar> < 5 / 1000),
          bs_dueFromHeadOffice = total (filter (\<lambda>r. gg_accountType (br_group r) = ''ASSET'') interBranch),
          bs_dueToHeadOffice = total (filter (\<lambda>r. gg_accountType (br_group r) = ''LIABILITY'') interBranch)\<rparr>)"

end
