(* ===== verification/CashFlow.thy ===== *)
theory CashFlow
  imports Statements
begin

text \<open>
  The two cash statements: the cash and bank book (\<open>accountingCashBook.service.ts\<close>) and the direct cash-flow statement of
  \<open>accountingStatements.service.ts\<close>. A joined row carries the line with its journal, account and group. The dash of an
  unclassified line is written in ASCII.
\<close>

section \<open>Rows\<close>

record flow_row =
  fr_journal :: gl_journal
  fr_line :: gl_line
  fr_account :: gl_account
  fr_group :: gl_group

definition joined_row :: "ledger \<Rightarrow> gl_line \<Rightarrow> flow_row option" where
  "joined_row s l =
     (case List.find (\<lambda>j. gj_id j = gl_journalId l) (lg_journals s) of None \<Rightarrow> None
      | Some j \<Rightarrow> case ACCOUNT_BY_ID (gl_accountId l) s of None \<Rightarrow> None
      | Some a \<Rightarrow> case ACCOUNT_GROUP_BY_ID (ga_groupId a) s of None \<Rightarrow> None
      | Some g \<Rightarrow> Some \<lparr>fr_journal = j, fr_line = l, fr_account = a, fr_group = g\<rparr>)"

definition cash_kind :: "gl_account \<Rightarrow> bool" where
  "cash_kind a \<longleftrightarrow> ga_accountKind a \<in> set [''CASH'', ''BANK'']"

record cash_row =
  kr_account :: gl_account
  kr_opening :: rat
  kr_receipts :: rat
  kr_payments :: rat

definition CASH_BANK_ACCOUNT_ROWS :: "string option \<Rightarrow> string \<Rightarrow> string option \<Rightarrow> ledger \<Rightarrow> cash_row list" where
  "CASH_BANK_ACCOUNT_ROWS from to branch s =
     (let earlier = dated_lines (before_window from to) branch s; inside = dated_lines (in_window from to) branch s in
      order_by (\<lambda>x y. if ga_accountKind (kr_account x) = ga_accountKind (kr_account y)
          then str_le (ga_code (kr_account x)) (ga_code (kr_account y)) else str_le (ga_accountKind (kr_account x)) (ga_accountKind (kr_account y)))
        (map (\<lambda>a. \<lparr>kr_account = a, kr_opening = account_sum (\<lambda>l. gl_debit l - gl_credit l) (ga_id a) earlier,
            kr_receipts = account_sum gl_debit (ga_id a) inside, kr_payments = account_sum gl_credit (ga_id a) inside\<rparr>)
          (filter cash_kind (lg_accounts s))))"

definition row_order :: "flow_row \<Rightarrow> flow_row \<Rightarrow> bool" where
  "row_order x y \<longleftrightarrow>
     (if gj_journalDateAD (fr_journal x) \<noteq> gj_journalDateAD (fr_journal y) then str_le (gj_journalDateAD (fr_journal x)) (gj_journalDateAD (fr_journal y))
      else if gj_journalNo (fr_journal x) \<noteq> gj_journalNo (fr_journal y) then str_le (gj_journalNo (fr_journal x)) (gj_journalNo (fr_journal y))
      else gl_lineNo (fr_line x) \<le> gl_lineNo (fr_line y))"

definition CASH_BANK_ENTRY_ROWS :: "string option \<Rightarrow> string \<Rightarrow> string option \<Rightarrow> ledger \<Rightarrow> flow_row list" where
  "CASH_BANK_ENTRY_ROWS from to branch s =
     order_by (\<lambda>x y. if ga_code (fr_account x) \<noteq> ga_code (fr_account y) then str_le (ga_code (fr_account x)) (ga_code (fr_account y)) else row_order x y)
       (filter (\<lambda>r. cash_kind (fr_account r)) (List.map_filter (joined_row s) (dated_lines (in_window from to) branch s)))"

definition CASH_FLOW_JOURNAL_ROWS :: "string option \<Rightarrow> string \<Rightarrow> string option \<Rightarrow> ledger \<Rightarrow> flow_row list" where
  "CASH_FLOW_JOURNAL_ROWS from to branch s =
     (case from of None \<Rightarrow> []
      | Some f \<Rightarrow>
        let rows = List.map_filter (joined_row s) (dated_lines (in_window (Some f) to) branch s);
            cash = map (\<lambda>r. gj_id (fr_journal r)) (filter (\<lambda>r. cash_kind (fr_account r)) rows)
        in order_by row_order (filter (\<lambda>r. gj_id (fr_journal r) \<in> set cash) rows))"

section \<open>The cash and bank book\<close>

record cash_entry =
  ce_row :: flow_row
  ce_type :: string
  ce_balance :: rat

fun running_entries :: "rat \<Rightarrow> flow_row list \<Rightarrow> cash_entry list" where
  "running_entries running [] = []"
| "running_entries running (r # rs) =
     (let debit = round_money (gl_debit (fr_line r)); credit = round_money (gl_credit (fr_line r));
          next = round_money (running + debit - credit)
      in \<lparr>ce_row = r, ce_type = (if 0 < debit then ''RECEIPT'' else ''PAYMENT''), ce_balance = next\<rparr> # running_entries next rs)"

record cash_account =
  ck_account :: gl_account
  ck_opening :: rat
  ck_receipts :: rat
  ck_payments :: rat
  ck_closing :: rat
  ck_entries :: "cash_entry list"

record cash_book =
  cb_branchId :: "string option"
  cb_from :: "string option"
  cb_to :: string
  cb_accounts :: "cash_account list"
  cb_opening :: rat
  cb_receipts :: rat
  cb_payments :: rat
  cb_closing :: rat

definition cash_account_of :: "flow_row list \<Rightarrow> cash_row \<Rightarrow> cash_account" where
  "cash_account_of entryRows r =
     (let opening = round_money (kr_opening r); receipts = round_money (kr_receipts r); payments = round_money (kr_payments r) in
      \<lparr>ck_account = kr_account r, ck_opening = opening, ck_receipts = receipts, ck_payments = payments,
       ck_closing = round_money (opening + receipts - payments),
       ck_entries = running_entries opening (filter (\<lambda>e. ga_id (fr_account e) = ga_id (kr_account r)) entryRows)\<rparr>)"

definition buildCashBook :: "statement_window \<Rightarrow> ledger \<Rightarrow> cash_book" where
  "buildCashBook w s =
     (if sw_empty w
      then \<lparr>cb_branchId = statementBranchLabel w, cb_from = sw_from w, cb_to = sw_to w, cb_accounts = [],
            cb_opening = 0, cb_receipts = 0, cb_payments = 0, cb_closing = 0\<rparr>
      else let accounts = map (cash_account_of (CASH_BANK_ENTRY_ROWS (sw_from w) (sw_to w) (sw_branchId w) s))
                 (CASH_BANK_ACCOUNT_ROWS (sw_from w) (sw_to w) (sw_branchId w) s);
               total = (\<lambda>pick. round_money (sum_list (map pick accounts)));
               opening = total ck_opening; receipts = total ck_receipts; payments = total ck_payments
           in \<lparr>cb_branchId = statementBranchLabel w, cb_from = sw_from w, cb_to = sw_to w, cb_accounts = accounts,
               cb_opening = opening, cb_receipts = receipts, cb_payments = payments, cb_closing = round_money (opening + receipts - payments)\<rparr>)"

section \<open>The cash-flow statement\<close>

datatype flow_section = OPERATING | INVESTING | FINANCING

definition CASH_FLOW_SECTION_KEYS :: "flow_section list" where
  "CASH_FLOW_SECTION_KEYS = [OPERATING, INVESTING, FINANCING]"

fun CASH_FLOW_SECTION_LABELS :: "flow_section \<Rightarrow> string" where
  "CASH_FLOW_SECTION_LABELS OPERATING = ''Operating activities''"
| "CASH_FLOW_SECTION_LABELS INVESTING = ''Investing activities''"
| "CASH_FLOW_SECTION_LABELS FINANCING = ''Financing activities''"

definition cashFlowSectionOf :: "flow_row \<Rightarrow> flow_section" where
  "cashFlowSectionOf r =
     (if gg_statementGroup (fr_group r) = ''NON_CURRENT_ASSET'' then INVESTING
      else if gg_accountType (fr_group r) = ''EQUITY'' \<or> gg_statementGroup (fr_group r) = ''NON_CURRENT_LIABILITY'' then FINANCING
      else OPERATING)"

record flow_line =
  fl_accountId :: string
  fl_accountCode :: string
  fl_accountName :: string
  fl_groupCode :: string
  fl_groupName :: string
  fl_amount :: rat
  fl_journalCount :: nat

record flow_block =
  fb_key :: flow_section
  fb_label :: string
  fb_amount :: rat
  fb_lines :: "flow_line list"

record cash_flow =
  cf_branchId :: "string option"
  cf_from :: "string option"
  cf_to :: string
  cf_openingCash :: rat
  cf_closingCash :: rat
  cf_cashBookClosing :: rat
  cf_netCashFlow :: rat
  cf_classifiedCashFlow :: rat
  cf_difference :: rat
  cf_reconciled :: bool
  cf_sections :: "flow_block list"

definition emptyCashFlow :: "statement_window \<Rightarrow> cash_flow" where
  "emptyCashFlow w =
     \<lparr>cf_branchId = statementBranchLabel w, cf_from = sw_from w, cf_to = sw_to w, cf_openingCash = 0, cf_closingCash = 0,
      cf_cashBookClosing = 0, cf_netCashFlow = 0, cf_classifiedCashFlow = 0, cf_difference = 0, cf_reconciled = True,
      cf_sections = map (\<lambda>k. \<lparr>fb_key = k, fb_label = CASH_FLOW_SECTION_LABELS k, fb_amount = 0, fb_lines = []\<rparr>) CASH_FLOW_SECTION_KEYS\<rparr>"

definition cash_totals :: "cash_row list \<Rightarrow> rat \<times> rat" where
  "cash_totals rows = foldl (\<lambda>(openingCash, closing) r.
     let opening = round_money (kr_opening r) in
     (round_money (openingCash + opening), round_money (closing + opening + round_money (kr_receipts r) - round_money (kr_payments r)))) (0, 0) rows"

definition cash_net :: "flow_row list \<Rightarrow> rat" where
  "cash_net rows = foldl (\<lambda>net r. round_money (net + round_money (gl_debit (fr_line r)) - round_money (gl_credit (fr_line r)))) 0
     (filter (\<lambda>r. cash_kind (fr_account r)) rows)"

definition weight :: "flow_row \<Rightarrow> rat" where
  "weight r = \<bar>round_money (gl_debit (fr_line r)) - round_money (gl_credit (fr_line r))\<bar>"

definition primary_row :: "(string \<Rightarrow> string \<Rightarrow> int) \<Rightarrow> flow_row list \<Rightarrow> flow_row option" where
  "primary_row cmp rows =
     first_row (order_by (\<lambda>x y. if weight x \<noteq> weight y then weight y < weight x else cmp (ga_code (fr_account x)) (ga_code (fr_account y)) \<le> 0)
       (filter (\<lambda>r. 0 < weight r) (filter (\<lambda>r. \<not> cash_kind (fr_account r)) rows)))"

definition new_flow_line :: "flow_row option \<Rightarrow> rat \<Rightarrow> flow_line" where
  "new_flow_line primary net =
     (case primary of
        None \<Rightarrow> \<lparr>fl_accountId = ''UNCLASSIFIED'', fl_accountCode = ''--'', fl_accountName = ''Unclassified cash movement'', fl_groupCode = ''--'',
          fl_groupName = ''Unclassified'', fl_amount = round_money net, fl_journalCount = 1\<rparr>
      | Some r \<Rightarrow> \<lparr>fl_accountId = ga_id (fr_account r), fl_accountCode = ga_code (fr_account r), fl_accountName = ga_name (fr_account r),
          fl_groupCode = gg_code (fr_group r), fl_groupName = gg_name (fr_group r), fl_amount = round_money net, fl_journalCount = 1\<rparr>)"

fun add_flow :: "flow_line \<Rightarrow> rat \<Rightarrow> flow_line list \<Rightarrow> flow_line list" where
  "add_flow new net [] = [new]"
| "add_flow new net (l # ls) =
     (if fl_accountId l = fl_accountId new
      then l\<lparr>fl_amount := round_money (fl_amount l + net), fl_journalCount := Suc (fl_journalCount l)\<rparr> # ls
      else l # add_flow new net ls)"

fun flow_lines :: "(string \<Rightarrow> string \<Rightarrow> int) \<Rightarrow> flow_row list list \<Rightarrow> flow_line list \<times> rat \<Rightarrow> flow_line list \<times> rat" where
  "flow_lines cmp [] acc = acc"
| "flow_lines cmp (bucket # buckets) (lines, net) =
     (let cashNet = cash_net bucket in
      if \<bar>cashNet\<bar> < 5 / 1000 then flow_lines cmp buckets (lines, net)
      else flow_lines cmp buckets (add_flow (new_flow_line (primary_row cmp bucket) cashNet) cashNet lines, round_money (net + cashNet)))"

definition by_journal :: "flow_row list \<Rightarrow> flow_row list list" where
  "by_journal rows = map (\<lambda>i. filter (\<lambda>r. gj_id (fr_journal r) = i) rows) (first_occurrences (map (\<lambda>r. gj_id (fr_journal r)) rows))"

definition line_section :: "flow_row list \<Rightarrow> flow_line \<Rightarrow> flow_section" where
  "line_section rows l =
     (if fl_accountId l = ''UNCLASSIFIED'' then OPERATING
      else case List.find (\<lambda>r. ga_id (fr_account r) = fl_accountId l) rows of Some r \<Rightarrow> cashFlowSectionOf r | None \<Rightarrow> OPERATING)"

definition flow_section_of :: "(string \<Rightarrow> string \<Rightarrow> int) \<Rightarrow> flow_row list \<Rightarrow> flow_line list \<Rightarrow> flow_section \<Rightarrow> flow_block" where
  "flow_section_of cmp rows lines k =
     (let ls = order_by (\<lambda>x y. cmp (fl_accountCode x) (fl_accountCode y) \<le> 0) (filter (\<lambda>l. line_section rows l = k) lines)
      in \<lparr>fb_key = k, fb_label = CASH_FLOW_SECTION_LABELS k, fb_amount = round_money (sum_list (map fl_amount ls)), fb_lines = ls\<rparr>)"

definition buildCashFlow :: "(string \<Rightarrow> string \<Rightarrow> int) \<Rightarrow> statement_window \<Rightarrow> ledger \<Rightarrow> cash_flow" where
  "buildCashFlow cmp w s =
     (if sw_empty w then emptyCashFlow w
      else let accountRows = CASH_BANK_ACCOUNT_ROWS (sw_from w) (sw_to w) (sw_branchId w) s;
               journalRows = CASH_FLOW_JOURNAL_ROWS (sw_from w) (sw_to w) (sw_branchId w) s;
               (openingCash, cashBookClosing) = cash_totals accountRows;
               (lines, netCashFlow) = flow_lines cmp (by_journal journalRows) ([], 0);
               sections = map (flow_section_of cmp journalRows lines) CASH_FLOW_SECTION_KEYS;
               classifiedCashFlow = round_money (sum_list (map fb_amount sections));
               closingCash = round_money (openingCash + netCashFlow);
               difference = round_money (classifiedCashFlow - netCashFlow);
               closingDifference = round_money (closingCash - cashBookClosing)
           in \<lparr>cf_branchId = statementBranchLabel w, cf_from = sw_from w, cf_to = sw_to w, cf_openingCash = openingCash,
               cf_closingCash = closingCash, cf_cashBookClosing = cashBookClosing, cf_netCashFlow = netCashFlow,
               cf_classifiedCashFlow = classifiedCashFlow, cf_difference = difference,
               cf_reconciled = (\<bar>difference\<bar> < 5 / 1000 \<and> \<bar>closingDifference\<bar> < 5 / 1000), cf_sections = sections\<rparr>)"

end
