(* ===== verification/StatementFacts.thy ===== *)
theory StatementFacts
  imports Statements
begin

text \<open>
  What the statements read off a reachable ledger: the balance rows are the accounts with their groups, the sums behind them are
  whole paisa, and over all accounts they are the sums over the lines -- which balance. The trees and sections of a statement
  neither lose nor repeat a row.
\<close>

section \<open>Sums over ordered and filtered lists\<close>

lemma sum_ordered [simp]:
  fixes f :: "'a \<Rightarrow> rat"
  shows "sum_list (map f (order_by le xs)) = sum_list (map f xs)"
  using sum_order_by [of f "\<lambda>_. True" le xs] by simp

lemma order_by_Nil [simp]: "order_by le xs = [] \<longleftrightarrow> xs = []"
  using set_order_by [of le xs] by (metis set_empty)

lemma sum_filter_zero:
  fixes f :: "'a \<Rightarrow> rat"
  assumes "\<And>x. x \<in> set xs \<Longrightarrow> \<not> P x \<Longrightarrow> f x = 0"
  shows "sum_list (map f (filter P xs)) = sum_list (map f xs)"
  using assms by (induction xs) auto

lemma map_filter_all: "(\<And>x. x \<in> set xs \<Longrightarrow> f x = Some (g x)) \<Longrightarrow> List.map_filter f xs = map g xs"
  by (induction xs) (simp_all add: List.map_filter_def)

lemma sum_neg:
  fixes f :: "'a \<Rightarrow> rat"
  shows "sum_list (map (\<lambda>x. - f x) xs) = - sum_list (map f xs)"
  by (induction xs) auto

lemma sum_add:
  fixes f g :: "'a \<Rightarrow> rat"
  shows "sum_list (map (\<lambda>x. f x + g x) xs) = sum_list (map f xs) + sum_list (map g xs)"
  by (induction xs) auto

lemma cents_sum: "(\<And>x. x \<in> set xs \<Longrightarrow> is_cents (f x)) \<Longrightarrow> is_cents (sum_list (map f xs))"
  by (rule is_cents_sum_list) auto

lemmas cents_ops = is_cents_add is_cents_diff is_cents_uminus is_cents_sum_list

lemma cents_max: "is_cents a \<Longrightarrow> is_cents b \<Longrightarrow> is_cents (max a b)"
  by (simp add: max_def)

text \<open>A sum split by a key that takes each of its values once in \<open>ks\<close>.\<close>

lemma sum_by_keys:
  fixes f :: "'a \<Rightarrow> rat"
  assumes "distinct (map k ks)" and "\<And>x. x \<in> set xs \<Longrightarrow> g x \<in> k ` set ks"
  shows "(\<Sum>i \<leftarrow> ks. sum_list (map f (filter (\<lambda>x. g x = k i) xs))) = sum_list (map f xs)"
proof -
  have "filter (\<lambda>x. g x \<in> set (map k ks)) xs = xs" using assms(2) by (simp add: filter_id_conv)
  with sum_by_key [OF assms(1), of f g xs] show ?thesis by (simp add: o_def)
qed

section \<open>The dated lines of a branch\<close>

lemma dated_lines_journal:
  assumes "ledger_ok s"
  shows "dated_lines P br s = filter (\<lambda>l. list_ex (\<lambda>j. gj_id j = gl_journalId l \<and> gj_status j = ''POSTED'' \<and> P (gj_journalDateAD j) \<and>
    branch_matches br (gj_branchId j)) (lg_journals s)) (lg_lines s)"
  using assms unfolding dated_lines_def source_lines_def filter_filter
  by (intro filter_cong) (auto simp: list_ex_iff ledger_ok_def clean_inv_def)

lemma dated_lines_balance: "ledger_ok s \<Longrightarrow> sum_list (map line_net (dated_lines P br s)) = 0"
  unfolding dated_lines_journal
  by (rule trial_balance_zero [where P = "\<lambda>i. list_ex (\<lambda>j. gj_id j = i \<and> gj_status j = ''POSTED'' \<and> P (gj_journalDateAD j) \<and>
    branch_matches br (gj_branchId j)) (lg_journals s)" for s])

lemma dated_lines_ok:
  assumes "ledger_ok s" and "l \<in> set (dated_lines P br s)"
  shows "is_cents (gl_debit l)" "is_cents (gl_credit l)" "gl_accountId l \<in> ga_id ` set (lg_accounts s)"
  using assms by (auto simp: dated_lines_def source_lines_def ledger_ok_def ledger_inv_def lines_inv_def one_sided_def)

lemma account_sum_cents:
  assumes "ledger_ok s"
  shows "is_cents (account_sum gl_debit a (dated_lines P br s))" "is_cents (account_sum gl_credit a (dated_lines P br s))"
    "is_cents (account_sum (\<lambda>l. gl_debit l - gl_credit l) a (dated_lines P br s))"
  using dated_lines_ok [OF assms] unfolding account_sum_def by (auto intro!: cents_sum is_cents_diff)

lemma accounts_cover:
  assumes "ledger_ok s"
  shows "(\<Sum>a \<leftarrow> lg_accounts s. account_sum f (ga_id a) (dated_lines P br s)) = sum_list (map f (dated_lines P br s))"
  using assms dated_lines_ok(3) [OF assms] unfolding account_sum_def
  by (intro sum_by_keys) (auto simp: ledger_ok_def ledger_inv_def accounts_inv_def)

section \<open>Balance rows\<close>

definition row_of :: "statement_window \<Rightarrow> ledger \<Rightarrow> gl_account \<Rightarrow> balance_row" where
  "row_of w s a = \<lparr>br_account = a, br_group = the (ACCOUNT_GROUP_BY_ID (ga_groupId a) s),
     br_openingBalance = account_sum (\<lambda>l. gl_debit l - gl_credit l) (ga_id a) (dated_lines (before_window (sw_from w) (sw_to w)) (sw_branchId w) s),
     br_periodDebit = account_sum gl_debit (ga_id a) (dated_lines (in_window (sw_from w) (sw_to w)) (sw_branchId w) s),
     br_periodCredit = account_sum gl_credit (ga_id a) (dated_lines (in_window (sw_from w) (sw_to w)) (sw_branchId w) s)\<rparr>"

lemma group_found:
  assumes "chart_placed s" and "a \<in> set (lg_accounts s)"
  obtains g where "ACCOUNT_GROUP_BY_ID (ga_groupId a) s = Some g" "g \<in> set (lg_groups s)" "gg_id g = ga_groupId a"
proof (cases "ACCOUNT_GROUP_BY_ID (ga_groupId a) s")
  case None
  with assms(1) have "ga_groupId a \<notin> gg_id ` set (lg_groups s)" by (auto simp: ACCOUNT_GROUP_BY_ID_def find_None_iff)
  with assms show ?thesis by (simp add: chart_placed_def)
next
  case (Some g)
  with GROUP_BY_ID_Some [OF Some] show ?thesis by (blast intro: that)
qed

lemma loaded_rows:
  assumes "ledger_ok s" and "chart_placed s"
  shows "loadAccountBalances w s = (if sw_empty w then [] else order_by balance_le (map (row_of w s) (lg_accounts s)))"
proof -
  let ?row = "\<lambda>a. map_option (\<lambda>g. \<lparr>br_account = a, br_group = g,
      br_openingBalance = account_sum (\<lambda>l. gl_debit l - gl_credit l) (ga_id a) (dated_lines (before_window (sw_from w) (sw_to w)) (sw_branchId w) s),
      br_periodDebit = account_sum gl_debit (ga_id a) (dated_lines (in_window (sw_from w) (sw_to w)) (sw_branchId w) s),
      br_periodCredit = account_sum gl_credit (ga_id a) (dated_lines (in_window (sw_from w) (sw_to w)) (sw_branchId w) s)\<rparr>)
      (ACCOUNT_GROUP_BY_ID (ga_groupId a) s)"
  have "?row a = Some (row_of w s a)" if "a \<in> set (lg_accounts s)" for a
  proof -
    from assms(2) that obtain g where "ACCOUNT_GROUP_BY_ID (ga_groupId a) s = Some g" by (rule group_found)
    then show ?thesis by (simp add: row_of_def)
  qed
  then have "List.map_filter ?row (lg_accounts s) = map (row_of w s) (lg_accounts s)" by (rule map_filter_all)
  then have rows: "ACCOUNT_BALANCE_ROWS (sw_from w) (sw_to w) (sw_branchId w) s = order_by balance_le (map (row_of w s) (lg_accounts s))"
    by (simp add: ACCOUNT_BALANCE_ROWS_def Let_def)
  have "r\<lparr>br_openingBalance := round_money (br_openingBalance r), br_periodDebit := round_money (br_periodDebit r),
      br_periodCredit := round_money (br_periodCredit r)\<rparr> = r" if "r \<in> set (order_by balance_le (map (row_of w s) (lg_accounts s)))" for r
    using that account_sum_cents [OF assms(1)] by (auto simp: row_of_def)
  then have "map (\<lambda>r. r\<lparr>br_openingBalance := round_money (br_openingBalance r), br_periodDebit := round_money (br_periodDebit r),
      br_periodCredit := round_money (br_periodCredit r)\<rparr>) (order_by balance_le (map (row_of w s) (lg_accounts s))) =
    order_by balance_le (map (row_of w s) (lg_accounts s))" by (rule map_idI)
  then show ?thesis by (simp add: loadAccountBalances_def rows)
qed

definition row_ok :: "ledger \<Rightarrow> balance_row \<Rightarrow> bool" where
  "row_ok s r \<longleftrightarrow> br_account r \<in> set (lg_accounts s) \<and> br_group r \<in> set (lg_groups s) \<and>
     is_cents (br_openingBalance r) \<and> is_cents (br_periodDebit r) \<and> is_cents (br_periodCredit r)"

lemma loaded_ok:
  assumes "ledger_ok s" and "chart_placed s" and "r \<in> set (loadAccountBalances w s)"
  shows "row_ok s r"
proof -
  from assms(3) obtain a where a: "a \<in> set (lg_accounts s)" "r = row_of w s a"
    by (auto simp: loaded_rows [OF assms(1,2)] split: if_splits)
  from assms(2) a(1) obtain g where "ACCOUNT_GROUP_BY_ID (ga_groupId a) s = Some g" "g \<in> set (lg_groups s)" by (rule group_found)
  then show ?thesis using a account_sum_cents [OF assms(1)] by (simp add: row_ok_def row_of_def)
qed

lemma row_signed:
  assumes "row_ok s r"
  shows "closingSigned r = br_openingBalance r + br_periodDebit r - br_periodCredit r" "periodSigned r = br_periodDebit r - br_periodCredit r"
    "is_cents (closingSigned r)" "is_cents (periodSigned r)"
  using assms by (auto simp: row_ok_def closingSigned_def periodSigned_def cents_ops)

text \<open>A presented amount is the signed balance, with the sign of the account's side.\<close>

definition side :: "string \<Rightarrow> rat" where
  "side t = (if t = ''ASSET'' \<or> t = ''EXPENSE'' then 1 else - 1)"

lemma presented_cents: "is_cents x \<Longrightarrow> presented t x = side t * x" "is_cents (presented t x)"
  by (auto simp: presented_def side_def cents_ops)

lemma rows_total:
  assumes "ledger_ok s" and "chart_placed s"
  shows "sum_list (map br_openingBalance (loadAccountBalances w s)) = 0"
    "sum_list (map (\<lambda>r. br_periodDebit r - br_periodCredit r) (loadAccountBalances w s)) = 0"
proof -
  have net: "(\<Sum>a \<leftarrow> lg_accounts s. account_sum (\<lambda>l. gl_debit l - gl_credit l) (ga_id a) (dated_lines P br s)) = 0" for P br
    using accounts_cover [OF assms(1)] dated_lines_balance [OF assms(1)] by (simp add: line_net_def [abs_def])
  then show "sum_list (map br_openingBalance (loadAccountBalances w s)) = 0"
    by (simp add: loaded_rows [OF assms] row_of_def o_def)
  have "account_sum gl_debit a ls - account_sum gl_credit a ls = account_sum (\<lambda>l. gl_debit l - gl_credit l) a ls" for a ls
    by (simp add: account_sum_def sum_diff)
  with net show "sum_list (map (\<lambda>r. br_periodDebit r - br_periodCredit r) (loadAccountBalances w s)) = 0"
    by (simp add: loaded_rows [OF assms] row_of_def o_def)
qed

section \<open>Sections\<close>

lemma groups_forest:
  assumes "ledger_ok s" and "set gs \<subseteq> set (lg_groups s)" and "distinct gs"
  shows "forest gs"
proof -
  have inj: "inj_on gg_id (set (lg_groups s))" and ac: "acyclic (parent_rel s)"
    using assms(1) by (auto simp: ledger_ok_def groups_inv_def distinct_map)
  have "distinct (map gg_id gs)" using assms(2,3) inj by (auto simp: distinct_map intro: inj_on_subset)
  moreover have "edges gs \<subseteq> parent_rel s" using assms(2)
    by (auto simp: edges_def parent_rel_def opt_or_null_def or_null_def split: option.splits if_splits)
  then have "acyclic (edges gs)" using ac by (rule acyclic_subset [rotated])
  ultimately show ?thesis by (simp add: forest_def)
qed

lemma group_list:
  assumes "ledger_ok s"
  shows "set (ACCOUNT_GROUP_LIST s) = set (lg_groups s)" "distinct (ACCOUNT_GROUP_LIST s)"
  using assms by (auto simp: ACCOUNT_GROUP_LIST_def ledger_ok_def groups_inv_def distinct_map intro: distinct_order_by)

lemma block_tree_sum:
  assumes f: "forest gs" and c: "\<And>r. r \<in> set rows \<Longrightarrow> is_cents (amountOf r) \<and> br_group r \<in> set gs"
  shows "sum_list (map bk_amount (group_roots (finalize_block cmp rows amountOf) gs)) = sum_list (map amountOf rows)"
    and "\<forall>b \<in> set (group_roots (finalize_block cmp rows amountOf) gs). is_cents (bk_amount b)"
proof -
  let ?own = "\<lambda>g. sum_list (map amountOf (filter (\<lambda>r. gg_id (br_group r) = gg_id g) rows))"
  have own: "sum_list (map am_amount (block_accounts cmp rows amountOf g)) = ?own g" for g
    by (simp add: block_accounts_def o_def)
  have nil: "block_accounts cmp rows amountOf g = [] \<longleftrightarrow> filter (\<lambda>r. gg_id (br_group r) = gg_id g) rows = []" for g
    by (simp add: block_accounts_def)
  have cents: "is_cents (?own g)" for g using c by (auto intro!: cents_sum)
  have step: "case finalize_block cmp rows amountOf g ns of None \<Rightarrow> ?own g + sum_list (map bk_amount ns) = 0
      | Some n \<Rightarrow> is_cents (bk_amount n) \<and> bk_amount n = ?own g + sum_list (map bk_amount ns)"
    if "\<forall>n \<in> set ns. is_cents (bk_amount n)" for g ns
  proof -
    have "is_cents (?own g + sum_list (map bk_amount ns))" using that cents [of g] by (auto intro!: is_cents_add cents_sum)
    then show ?thesis by (auto simp: finalize_block_def Let_def own nil)
  qed
  note sums = tree_sum [OF f step]
  have "sum_list (map ?own gs) = sum_list (map amountOf rows)"
    using f c by (intro sum_by_keys) (auto simp: forest_def)
  with sums(1) show "sum_list (map bk_amount (group_roots (finalize_block cmp rows amountOf) gs)) = sum_list (map amountOf rows)" by simp
  show "\<forall>b \<in> set (group_roots (finalize_block cmp rows amountOf) gs). is_cents (bk_amount b)" by (rule sums(2))
qed

lemma sections_sum:
  assumes ok: "ledger_ok s" and rows: "\<And>r. r \<in> set rows \<Longrightarrow> row_ok s r \<and> is_cents (amountOf r) \<and> gg_statementGroup (br_group r) \<in> set order"
    and d: "distinct order"
  shows "sum_list (map ss_amount (sectionize cmp (ACCOUNT_GROUP_LIST s) rows order amountOf)) = sum_list (map amountOf rows)"
    and "\<forall>x \<in> set (sectionize cmp (ACCOUNT_GROUP_LIST s) rows order amountOf). is_cents (ss_amount x)"
    and "sg \<in> set order \<Longrightarrow> section_amount (sectionize cmp (ACCOUNT_GROUP_LIST s) rows order amountOf) sg =
      sum_list (map amountOf (filter (\<lambda>r. gg_statementGroup (br_group r) = sg) rows))"
proof -
  let ?in = "\<lambda>sg. filter (\<lambda>r. gg_statementGroup (br_group r) = sg) rows"
  let ?tree = "\<lambda>sg. buildStatementGroupTree cmp (ACCOUNT_GROUP_LIST s) (?in sg) sg amountOf"
  let ?sec = "\<lambda>sg. if ?in sg = [] \<or> ?tree sg = [] then None
    else Some \<lparr>ss_statementGroup = sg, ss_label = GROUP_LABELS sg, ss_amount = round_money (sum_list (map bk_amount (?tree sg))), ss_groups = ?tree sg\<rparr>"
  have tree: "sum_list (map bk_amount (?tree sg)) = sum_list (map amountOf (?in sg))" for sg
  proof -
    have "forest (filter (\<lambda>g. gg_statementGroup g = sg) (ACCOUNT_GROUP_LIST s))"
      by (rule groups_forest [OF ok]) (auto simp: group_list [OF ok])
    from block_tree_sum(1) [OF this, of "?in sg" amountOf cmp] rows show ?thesis
      by (simp add: buildStatementGroupTree_def row_ok_def group_list [OF ok])
  qed
  have cents: "is_cents (sum_list (map amountOf (?in sg)))" for sg using rows by (auto intro!: cents_sum)
  have amt: "tree_value ss_amount (?sec sg) = sum_list (map amountOf (?in sg))" for sg
  proof (cases "?in sg = [] \<or> ?tree sg = []")
    case True
    with tree [of sg] show ?thesis by (auto simp: tree_value_def)
  next
    case False
    with tree [of sg] cents [of sg] show ?thesis by (simp add: tree_value_def)
  qed
  have eq: "sectionize cmp (ACCOUNT_GROUP_LIST s) rows order amountOf = List.map_filter ?sec order" by (simp add: sectionize_def Let_def)
  show "sum_list (map ss_amount (sectionize cmp (ACCOUNT_GROUP_LIST s) rows order amountOf)) = sum_list (map amountOf rows)"
    unfolding eq sum_map_filter amt using sum_by_keys [of id order rows "\<lambda>r. gg_statementGroup (br_group r)" amountOf] d rows by simp
  show "\<forall>x \<in> set (sectionize cmp (ACCOUNT_GROUP_LIST s) rows order amountOf). is_cents (ss_amount x)"
    unfolding eq by (auto simp: List.map_filter_def split: if_splits)
  have find: "section_amount (List.map_filter ?sec xs) sg = (if sg \<in> set xs then tree_value ss_amount (?sec sg) else 0)" for xs sg
    by (induction xs) (auto simp: section_amount_def List.map_filter_def tree_value_def)
  show "section_amount (sectionize cmp (ACCOUNT_GROUP_LIST s) rows order amountOf) sg =
      sum_list (map amountOf (?in sg))" if "sg \<in> set order"
    unfolding eq find using that by (simp only: if_True amt)
qed

section \<open>A control account and its subledger\<close>

definition account_entries :: "string \<Rightarrow> string \<Rightarrow> string option \<Rightarrow> ledger \<Rightarrow> gl_subentry list" where
  "account_entries aid to branch s = filter (\<lambda>e. gs_accountId e = aid \<and> str_le (gs_entryDateAD e) to \<and> branch_matches branch (gs_branchId e)) (lg_subledger s)"

lemma subledger_mirror:
  assumes "ledger_ok s"
  shows "map sub_key (lg_subledger s) = map line_key (filter (\<lambda>l. is_control s (gl_accountId l)) (lg_lines s))"
  using assms by (simp add: ledger_ok_def ledger_inv_def mirror_inv_def)

text \<open>Up to any date and for any branch, the entries of a control account sum to its posted lines.\<close>

lemma controls_through:
  assumes ok: "ledger_ok s" and d: "entries_dated s" and a: "a \<in> set (lg_accounts s)" "ga_isControl a"
  shows "sum_list (map (\<lambda>e. gs_debit e - gs_credit e) (account_entries (ga_id a) to br s)) =
    account_sum (\<lambda>l. gl_debit l - gl_credit l) (ga_id a) (dated_lines (\<lambda>d. str_le d to) br s)"
proof -
  let ?L = "\<lambda>a l. gl_accountId l = ga_id a \<and> list_ex (\<lambda>j. gj_id j = gl_journalId l \<and> gj_status j = ''POSTED'' \<and> str_le (gj_journalDateAD j) to) (lg_journals s) \<and>
    branch_matches br (gl_branchId l)"
  let ?Q = "\<lambda>a e. gs_accountId e = ga_id a \<and> list_ex (\<lambda>j. gj_id j = gs_journalId e \<and> gj_status j = ''POSTED'' \<and> str_le (gj_journalDateAD j) to) (lg_journals s) \<and>
    branch_matches br (gs_branchId e)"
  have net: "sum_list (map (\<lambda>e. gs_debit e - gs_credit e) (filter (?Q a) es)) = sum_list (map (\<lambda>l. gl_debit l - gl_credit l) (filter (?L a) ls))"
    if "map sub_key es = map line_key ls" for es ls
    using that by (induction es arbitrary: ls) (auto simp: sub_key_def line_key_def)
  have uniq: "j = k" if "j \<in> set (lg_journals s)" "k \<in> set (lg_journals s)" "gj_id j = gj_id k" for j k
    using ok journal_ids that by (auto simp: ledger_ok_def distinct_map dest: inj_onD)
  have post: "gj_status j = ''POSTED''" if "j \<in> set (lg_journals s)" for j
    using ok that by (simp add: ledger_ok_def ledger_inv_def journals_inv_def)
  have "str_le (gs_entryDateAD e) to \<longleftrightarrow> list_ex (\<lambda>j. gj_id j = gs_journalId e \<and> gj_status j = ''POSTED'' \<and> str_le (gj_journalDateAD j) to) (lg_journals s)"
    if "e \<in> set (lg_subledger s)" for e
    using d that uniq post unfolding entries_dated_def list_ex_iff by metis
  then have "account_entries (ga_id a) to br s = filter (?Q a) (lg_subledger s)" unfolding account_entries_def by (intro filter_cong) auto
  moreover have "filter (\<lambda>l. gl_accountId l = ga_id a) (dated_lines (\<lambda>d. str_le d to) br s) = filter (?L a) (filter (\<lambda>l. is_control s (gl_accountId l)) (lg_lines s))"
    using a by (auto simp: dated_lines_def source_lines_def is_control_iff intro!: filter_cong)
  ultimately show ?thesis unfolding account_sum_def by (simp add: net [OF subledger_mirror [OF ok]])
qed

text \<open>An account that is not a control account has no entries.\<close>

lemma no_entries:
  assumes "ledger_ok s" and "a \<in> set (lg_accounts s)" and "\<not> ga_isControl a"
  shows "account_entries (ga_id a) to br s = []"
proof -
  have "is_control s (gs_accountId e)" if "e \<in> set (lg_subledger s)" for e
  proof -
    have "sub_key e \<in> line_key ` {l. is_control s (gl_accountId l)}"
      using arg_cong [OF subledger_mirror [OF assms(1)], of set] that by auto
    then show ?thesis by (auto simp: sub_key_def line_key_def)
  qed
  moreover have "\<not> is_control s (ga_id a)" using assms control_account [of "lg_accounts s" a] by (auto simp: is_control_def ledger_ok_def ledger_inv_def accounts_inv_def)
  ultimately show ?thesis unfolding account_entries_def filter_empty_conv by metis
qed

text \<open>An entry holds whole paisa on one side, as its line does.\<close>

lemma entry_amounts:
  assumes "ledger_ok s" and "e \<in> set (lg_subledger s)"
  shows "is_cents (gs_debit e) \<and> is_cents (gs_credit e) \<and> 0 \<le> gs_debit e \<and> 0 \<le> gs_credit e \<and> (0 < gs_debit e) \<noteq> (0 < gs_credit e)"
proof -
  have "sub_key e \<in> line_key ` set (lg_lines s)" using arg_cong [OF subledger_mirror [OF assms(1)], of set] assms(2) by auto
  then obtain l where "l \<in> set (lg_lines s)" "gs_debit e = gl_debit l" "gs_credit e = gl_credit l" by (auto simp: sub_key_def line_key_def)
  moreover from this(1) have "one_sided l" using assms(1) by (simp add: ledger_ok_def ledger_inv_def lines_inv_def)
  ultimately show ?thesis by (simp add: one_sided_def)
qed

end
