(* ===== verification/PaymentPosting.thy ===== *)
theory PaymentPosting
  imports StockPosting
begin

text \<open>
  \<open>server/src/services/paymentPosting.service.ts\<close> and \<open>payrollPosting.service.ts\<close>: customer
  receipts, vendor payments, payroll runs and salary payments. \<open>today\<close> stands for the clock a
  payment reversal is dated by.
\<close>

section \<open>Settlement accounts\<close>

text \<open>\<open>cashOrBankRole\<close> (and payroll's \<open>settlementRole\<close>): only CASH settles through the till.\<close>

definition cashOrBankRole :: "jsval \<Rightarrow> string" where
  "cashOrBankRole paymentMethod =
     (if to_upper (trim (to_str (js_or paymentMethod (JStr ''CASH'')))) = ''CASH'' then ''CASH'' else ''BANK'')"

definition loadPaymentDefaults :: "string list \<Rightarrow> string \<Rightarrow> (ledger, string \<Rightarrow> gl_account option) tx" where
  "loadPaymentDefaults roles label =
     load_roles label ''Set it in Accounting -> Posting defaults, then record the payment again.'' roles"

definition text_opt :: "jsval \<Rightarrow> string option" where
  "text_opt v = (case v of JStr x \<Rightarrow> or_null (trim x) | _ \<Rightarrow> None)"

definition loadSettlementAccount :: "string \<Rightarrow> string \<Rightarrow> string \<Rightarrow> (ledger, gl_account) tx" where
  "loadSettlementAccount accountId expectedKind label =
     tbind (tquery (ACCOUNT_BY_ID accountId)) (\<lambda>row.
     case row of
       None \<Rightarrow> tthrow 400 (''The selected settlement ledger for '' @ label @ '' no longer exists. Choose another account.'')
     | Some account \<Rightarrow>
         tbind (tguard (ga_isActive account) 400
           (''The selected settlement ledger '' @ ga_code account @ '' is inactive. Choose another account.'')) (\<lambda>_.
         tbind (tguard (ga_accountKind account = expectedKind) 400
           (''The selected settlement ledger '' @ ga_code account @ '' is '' @
             (if ga_accountKind account = [] then ''not a cash/bank ledger'' else ga_accountKind account) @
             '', but this '' @ label @ '' must settle through a '' @ expectedKind @ '' ledger.'')) (\<lambda>_.
         treturn account)))"

definition paymentMemo :: "string \<Rightarrow> jsval \<Rightarrow> string" where
  "paymentMemo label doc =
     join '' - '' ([label @ '' '' @ to_str (jget doc ''paymentNumber''),
        to_upper (to_str (js_or (jget doc ''paymentMethod'') (JStr ''CASH'')))] @
       (if truthy (jget doc ''chequeNumber'') then [''cheque '' @ to_str (jget doc ''chequeNumber'')] else []) @
       (if truthy (jget doc ''bankName'') then [to_str (jget doc ''bankName'')] else []))"

section \<open>Receipts and payments\<close>

text \<open>The accounts of a payment: the control account and the till or bank it settles through.\<close>

definition payment_accounts :: "string \<Rightarrow> string \<Rightarrow> string \<Rightarrow> jsval \<Rightarrow> (ledger, gl_account \<times> gl_account) tx" where
  "payment_accounts control plural_label label doc =
     (let role = cashOrBankRole (jget doc ''paymentMethod''); settlement = text_opt (jget doc ''settlementAccountId'')
      in tbind (loadPaymentDefaults (case settlement of Some _ \<Rightarrow> [control] | None \<Rightarrow> [control, role]) plural_label) (\<lambda>defaults.
         tbind (case settlement of Some aid \<Rightarrow> loadSettlementAccount aid role label | None \<Rightarrow> treturn (the (defaults role))) (\<lambda>till.
         treturn (the (defaults control), till))))"

definition postCustomerReceiptLedger :: "jsval \<Rightarrow> (ledger, posted_journal option) tx" where
  "postCustomerReceiptLedger input =
     (let doc = jget input ''receipt''; amt = money (jget doc ''amount''); partyName = text_opt (jget doc ''customerName'')
      in if amt \<le> 0 then no_journal
         else tbind (tguard (text_opt (jget doc ''customerId'') \<noteq> None \<or> partyName \<noteq> None) 400
           ''A customer is required to post a receipt.'') (\<lambda>_.
         tbind (payment_accounts ''AR_CONTROL'' ''customer receipts'' ''customer receipt'' doc) (\<lambda>(control, till).
         let memo = paymentMemo ''Customer receipt'' doc in
         post_some (document_journal (jget doc ''paymentDateAD'') (jget doc ''branchId'') memo ''CUSTOMER_PAYMENT''
           (jget doc ''id'') (jget input ''actor'')
           [ordinary_line till amt 0 memo,
            control_line control 0 amt (jget doc ''customerId'') (opt_json partyName) memo]))))"

definition postVendorPaymentLedger :: "jsval \<Rightarrow> (ledger, posted_journal option) tx" where
  "postVendorPaymentLedger input =
     (let doc = jget input ''payment''; amt = money (jget doc ''amount''); partyName = text_opt (jget doc ''supplierName'')
      in if amt \<le> 0 then no_journal
         else tbind (tguard (text_opt (jget doc ''supplierId'') \<noteq> None \<or> partyName \<noteq> None) 400
           ''A supplier is required to post a vendor payment.'') (\<lambda>_.
         tbind (payment_accounts ''AP_CONTROL'' ''supplier payments'' ''supplier payment'' doc) (\<lambda>(control, till).
         let memo = paymentMemo ''Vendor payment'' doc in
         post_some (document_journal (jget doc ''paymentDateAD'') (jget doc ''branchId'') memo ''VENDOR_PAYMENT''
           (jget doc ''id'') (jget input ''actor'')
           [control_line control amt 0 (jget doc ''supplierId'') (opt_json partyName) memo,
            ordinary_line till 0 amt memo]))))"

definition reverseCustomerReceiptJournal :: "string \<Rightarrow> jsval \<Rightarrow> (ledger, posted_journal option) tx" where
  "reverseCustomerReceiptJournal today input =
     reverseSourceJournal ''CUSTOMER_PAYMENT'' ''CUSTOMER_PAYMENT_REVERSAL''
       (reversal_request (jget input ''paymentId'') (JStr today) (jget input ''reason'') (jget input ''actor''))"

definition reverseVendorPaymentJournal :: "string \<Rightarrow> jsval \<Rightarrow> (ledger, posted_journal option) tx" where
  "reverseVendorPaymentJournal today input =
     reverseSourceJournal ''VENDOR_PAYMENT'' ''VENDOR_PAYMENT_REVERSAL''
       (reversal_request (jget input ''paymentId'') (JStr today) (jget input ''reason'') (jget input ''actor''))"

section \<open>The contract\<close>

lemma payment_accounts_ok:
  assumes "payment_accounts control lbl1 lbl2 doc s = Inr ((c, t), s')" and "control \<noteq> []"
  shows "s' = s" and "c \<in> set (lg_accounts s) \<and> ga_isActive c \<and> ga_postingRole c = Some control"
    and "t \<in> set (lg_accounts s) \<and> ga_isActive t"
    and "case text_opt (jget doc ''settlementAccountId'') of
           None \<Rightarrow> ga_postingRole t = Some (cashOrBankRole (jget doc ''paymentMethod''))
         | Some aid \<Rightarrow> ga_id t = aid \<and> ga_accountKind t = cashOrBankRole (jget doc ''paymentMethod'')"
  using assms
  by (auto simp: payment_accounts_def Let_def loadPaymentDefaults_def load_roles_eq loadSettlementAccount_def ACCOUNT_BY_ID_def
      dest: by_role_Some find_SomeD split: option.splits)

interpretation customer_receipt: journal_document postCustomerReceiptLedger
  by unfold_locales
    (auto simp: postCustomerReceiptLedger_def Let_def simp del: post_some_eq
      intro: post_some_one dest: payment_accounts_ok(1) split: if_splits prod.splits)

interpretation vendor_payment: journal_document postVendorPaymentLedger
  by unfold_locales
    (auto simp: postVendorPaymentLedger_def Let_def simp del: post_some_eq
      intro: post_some_one dest: payment_accounts_ok(1) split: if_splits prod.splits)

interpretation reverse_receipt: journal_document "reverseCustomerReceiptJournal today"
proof
  fix input s r s' assume "ledger_ok s" and "reverseCustomerReceiptJournal today input s = Inr (r, s')"
  then show "one_journal s r s'" unfolding reverseCustomerReceiptJournal_def
    by (rule reverseSourceJournal_one) (simp add: source_eval)
qed

interpretation reverse_vendor_payment: journal_document "reverseVendorPaymentJournal today"
proof
  fix input s r s' assume "ledger_ok s" and "reverseVendorPaymentJournal today input s = Inr (r, s')"
  then show "one_journal s r s'" unfolding reverseVendorPaymentJournal_def
    by (rule reverseSourceJournal_one) (simp add: source_eval)
qed

end
