(* ===== verification/PayrollPosting.thy ===== *)
theory PayrollPosting
  imports PaymentPosting
begin

text \<open>
  \<open>server/src/services/payrollPosting.service.ts\<close>: a payroll run is one journal that debits the
  gross wages and credits every deduction and the net pay; paying it debits the net pay. The loops
  over the employees keep the running totals the code keeps, rounded at every step.
\<close>

section \<open>The run\<close>

definition loadPayrollAccounts :: "string list \<Rightarrow> (ledger, string \<Rightarrow> gl_account option) tx" where
  "loadPayrollAccounts roles = tbind (tquery (ACCOUNTS_BY_POSTING_ROLES roles)) (\<lambda>rows. treturn (by_role rows))"

definition payroll_account :: "(string \<Rightarrow> gl_account option) \<Rightarrow> string \<Rightarrow> string \<Rightarrow> gl_account res" where
  "payroll_account accounts role subject =
     need_account accounts role subject ''Map it in Accounting -> Posting defaults, then post the payroll run again.''"

definition employeeLine :: "gl_account \<Rightarrow> jsval \<Rightarrow> jnum \<Rightarrow> string \<Rightarrow> jsval" where
  "employeeLine account line amt memo =
     party_line account 0 amt memo ''EMPLOYEE'' (jget line ''employeeId'') (jget line ''employeeName'')"

definition deductions :: "jsval \<Rightarrow> (jnum \<times> string \<times> string) list" where
  "deductions line =
     [(money (jget line ''tds''), ''TDS_PAYABLE'', ''TDS withheld''),
      (money (jget line ''ssf''), ''SSF_PAYABLE'', ''SSF withheld''),
      (money (jget line ''advance''), ''EMPLOYEE_ADVANCE'', ''advance recovered''),
      (money (jget line ''loan''), ''EMPLOYEE_LOAN'', ''loan recovered''),
      (money (jget line ''net''), ''SALARY_PAYABLE'', ''net salary payable'')]"

fun credit_deductions ::
  "(string \<Rightarrow> gl_account option) \<Rightarrow> string \<Rightarrow> jsval \<Rightarrow> (jnum \<times> string \<times> string) list \<Rightarrow> jsval list \<times> jnum \<Rightarrow> (jsval list \<times> jnum) res" where
  "credit_deductions accounts memo line [] acc = Inr acc"
| "credit_deductions accounts memo line ((amt, role, label) # ds) (ls, credits) =
     (if amt \<le> 0 then credit_deductions accounts memo line ds (ls, credits)
      else rbind (payroll_account accounts role (''payroll runs ('' @ label @ '')'')) (\<lambda>account.
        credit_deductions accounts memo line ds
          (ls @ [employeeLine account line amt (memo @ '' -- '' @ to_str (jget line ''employeeCode'') @ '' '' @ label)],
           roundMoney (credits + amt))))"

fun run_lines ::
  "(string \<Rightarrow> gl_account option) \<Rightarrow> string \<Rightarrow> jsval list \<Rightarrow> jsval list \<times> jnum \<times> jnum \<Rightarrow> (jsval list \<times> jnum \<times> jnum) res" where
  "run_lines accounts memo [] acc = Inr acc"
| "run_lines accounts memo (line # rest) (ls, gross, credits) =
     (let g = money (jget line ''gross'')
      in if g \<le> 0 then run_lines accounts memo rest (ls, gross, credits)
         else if half_paisa \<le> abs (roundMoney (g - money (jget line ''tds'') - money (jget line ''ssf'') - money (jget line ''advance'')
             - money (jget line ''loan'') - money (jget line ''net'')))
         then throw 400 (''Payroll line for '' @ to_str (jget line ''employeeCode'') @
           '' does not add up: net must equal gross less TDS, SSF, advances and loans.'')
         else rbind (credit_deductions accounts memo line (deductions line) (ls, credits)) (\<lambda>(ls', credits').
           run_lines accounts memo rest (ls', roundMoney (gross + g), credits')))"

definition fixed2_num :: "jnum \<Rightarrow> string" where
  "fixed2_num n = (case n of Fin r \<Rightarrow> fixed2 r | _ \<Rightarrow> num_str n)"

definition RUN_ROLES :: "string list" where
  "RUN_ROLES = [''SALARY_EXPENSE'', ''SALARY_PAYABLE'', ''TDS_PAYABLE'', ''SSF_PAYABLE'', ''EMPLOYEE_ADVANCE'', ''EMPLOYEE_LOAN'']"

definition postPayrollRunJournal :: "jsval \<Rightarrow> (ledger, posted_journal option) tx" where
  "postPayrollRunJournal input =
     tbind (loadPayrollAccounts RUN_ROLES) (\<lambda>accounts.
     tbind (tlift (payroll_account accounts ''SALARY_EXPENSE'' ''payroll runs'')) (\<lambda>salaryExpense.
     tbind (tlift (payroll_account accounts ''SALARY_PAYABLE'' ''payroll runs'')) (\<lambda>_.
     let memo = ''Payroll run '' @ to_str (jget input ''runNo'') @ '' for '' @ to_str (jget input ''periodKey'') in
     tbind (tlift (run_lines accounts memo (arr_or_empty (jget input ''lines'')) ([], 0, 0))) (\<lambda>(ls, totalGross, totalCredits).
     tbind (tguard (\<not> totalGross \<le> 0) 400 ''A payroll run needs at least one employee with a positive gross wage.'') (\<lambda>_.
     tbind (tguard (\<not> half_paisa \<le> abs (totalGross - totalCredits)) 400
       (''Payroll journal is not balanced: gross '' @ fixed2_num totalGross @ '' /= deductions and net '' @ fixed2_num totalCredits @ ''.'')) (\<lambda>_.
     post_some (document_journal (jget input ''dateAD'') (jget input ''branchId'') memo ''PAYROLL_RUN''
       (jget input ''runId'') (jget input ''actor'')
       (ordinary_line salaryExpense totalGross 0 (memo @ '' -- gross wages'') # ls))))))))"

section \<open>The payment\<close>

fun payment_lines :: "gl_account \<Rightarrow> string \<Rightarrow> jsval list \<Rightarrow> jsval list \<times> jnum \<Rightarrow> jsval list \<times> jnum" where
  "payment_lines account memo [] acc = acc"
| "payment_lines account memo (line # rest) (ls, totalNet) =
     (let net = money (jget line ''net'')
      in if net \<le> 0 then payment_lines account memo rest (ls, totalNet)
         else payment_lines account memo rest
           (ls @ [party_line account net 0 (memo @ '' -- '' @ to_str (jget line ''employeeCode'') @ '' net salary'') ''EMPLOYEE''
                    (jget line ''employeeId'') (jget line ''employeeName'')],
            roundMoney (totalNet + net)))"

definition postPayrollPaymentJournal :: "jsval \<Rightarrow> (ledger, posted_journal option) tx" where
  "postPayrollPaymentJournal input =
     (let role = cashOrBankRole (jget input ''paymentMethod'') in
      tbind (loadPayrollAccounts [''SALARY_PAYABLE'', role]) (\<lambda>accounts.
      tbind (tlift (payroll_account accounts ''SALARY_PAYABLE'' ''payroll payments'')) (\<lambda>salaryPayable.
      tbind (tlift (payroll_account accounts role ''payroll payments'')) (\<lambda>settlement.
      let memo = ''Salary payment for '' @ to_str (jget input ''runNo'') @ '' ('' @ to_str (jget input ''periodKey'') @ '')'';
          (ls, totalNet) = payment_lines salaryPayable memo (arr_or_empty (jget input ''lines'')) ([], 0)
      in if totalNet \<le> 0 then no_journal
         else post_some (document_journal (jget input ''dateAD'') (jget input ''branchId'') memo ''PAYROLL_PAYMENT''
           (jget input ''runId'') (jget input ''actor'') (ls @ [ordinary_line settlement 0 totalNet memo]))))))"

section \<open>The contract\<close>

lemma loadPayrollAccounts_eq [simp]:
  "loadPayrollAccounts roles s = Inr (m, s') \<longleftrightarrow> m = by_role (ACCOUNTS_BY_POSTING_ROLES roles s) \<and> s' = s"
  by (auto simp: loadPayrollAccounts_def)

interpretation payroll_run: journal_document postPayrollRunJournal
  by unfold_locales
    (auto simp: postPayrollRunJournal_def Let_def simp del: post_some_eq intro: post_some_one split: if_splits prod.splits)

interpretation payroll_payment: journal_document postPayrollPaymentJournal
  by unfold_locales
    (auto simp: postPayrollPaymentJournal_def Let_def case_prod_beta simp del: post_some_eq intro: post_some_one split: if_splits)

end
