(* ===== verification/DocumentMachine.thy ===== *)
theory DocumentMachine
  imports PayrollPosting YearEnd
begin

text \<open>
  Every operation of the posting services as one type of documents, and what running any of them
  does to the books: nothing, or exactly one journal through the ledger's own posting.
\<close>

datatype document =
    SalesInvoice jsval | PurchaseInvoice jsval | ReverseInvoice invoice_kind jsval
  | SalesReturn jsval | PurchaseReturn jsval | ReverseReturn return_kind jsval
  | StockValue jsval | ReverseStockOperation jsval | ReverseStockAdjustment stock_adjustment jsval
  | TransferDispatch jsval | TransferReceipt jsval | ReverseTransfer transfer_leg jsval
  | CustomerReceipt jsval | VendorPayment jsval | ReverseReceipt jsval | ReverseVendorPayment jsval
  | PayrollRun jsval | PayrollPayment jsval
  | CpeIssue jsval | CpeRelease jsval | AssetAcquisition jsval | AssetDepreciation jsval | AssetDisposal jsval

fun run_document :: "string \<Rightarrow> document \<Rightarrow> (stock_books, posted_journal option) tx" where
  "run_document today (SalesInvoice x) = on_ledger (postSalesInvoiceLedger x)"
| "run_document today (PurchaseInvoice x) = on_ledger (postPurchaseInvoiceLedger x)"
| "run_document today (ReverseInvoice k x) = on_ledger (reverseInvoiceJournal k x)"
| "run_document today (SalesReturn x) = on_ledger (postSalesReturnJournal x)"
| "run_document today (PurchaseReturn x) = on_ledger (postPurchaseReturnJournal x)"
| "run_document today (ReverseReturn k x) = on_ledger (reverseReturnJournal k x)"
| "run_document today (StockValue x) = postStockValueJournal x"
| "run_document today (ReverseStockOperation x) = on_ledger (reverseStockOperationJournal x)"
| "run_document today (ReverseStockAdjustment k x) = on_ledger (reverseStockAdjustmentJournal k x)"
| "run_document today (TransferDispatch x) = on_ledger (postTransferDispatchJournal x)"
| "run_document today (TransferReceipt x) = on_ledger (postTransferReceiptJournal x)"
| "run_document today (ReverseTransfer k x) = on_ledger (reverseTransferJournal k x)"
| "run_document today (CustomerReceipt x) = on_ledger (postCustomerReceiptLedger x)"
| "run_document today (VendorPayment x) = on_ledger (postVendorPaymentLedger x)"
| "run_document today (ReverseReceipt x) = on_ledger (reverseCustomerReceiptJournal today x)"
| "run_document today (ReverseVendorPayment x) = on_ledger (reverseVendorPaymentJournal today x)"
| "run_document today (PayrollRun x) = on_ledger (postPayrollRunJournal x)"
| "run_document today (PayrollPayment x) = on_ledger (postPayrollPaymentJournal x)"
| "run_document today (CpeIssue x) = on_ledger (postCpeIssueJournal x)"
| "run_document today (CpeRelease x) = on_ledger (postCpeReleaseJournal x)"
| "run_document today (AssetAcquisition x) = on_ledger (postFixedAssetAcquisitionJournal x)"
| "run_document today (AssetDepreciation x) = on_ledger (postFixedAssetDepreciationJournal x)"
| "run_document today (AssetDisposal x) = on_ledger (postFixedAssetDisposalJournal x)"

lemmas document_contracts =
  sales_invoice.posts_one purchase_invoice.posts_one reverse_invoice.posts_one
  sales_return.posts_one purchase_return.posts_one reverse_return.posts_one
  reverse_stock_operation.posts_one reverse_stock_adjustment.posts_one
  transfer_dispatch.posts_one transfer_receipt.posts_one reverse_transfer.posts_one
  customer_receipt.posts_one vendor_payment.posts_one reverse_receipt.posts_one reverse_vendor_payment.posts_one
  payroll_run.posts_one payroll_payment.posts_one cpe_issue.posts_one cpe_release.posts_one
  asset_acquisition.posts_one asset_depreciation.posts_one asset_disposal.posts_one

lemma stock_value_one:
  assumes "ledger_ok (sk_ledger s)" and "postStockValueJournal x s = Inr (r, s')"
  shows "one_journal (sk_ledger s) r (sk_ledger s')"
proof -
  have "\<lparr>sk_ledger = sk_ledger s, sk_stock = sk_stock s\<rparr> = s" by simp
  with assms(2) have "ledger_part (sk_stock s) (postStockValueJournal x) (sk_ledger s) = Inr (r, sk_ledger s')"
    by (simp only: ledger_part_def) simp
  with assms(1) show ?thesis by (rule stock_value.posts_one)
qed

lemma on_ledger_one:
  assumes "on_ledger m s = Inr (r, s')" and "ledger_ok (sk_ledger s)"
    and "\<And>l r l'. ledger_ok l \<Longrightarrow> m l = Inr (r, l') \<Longrightarrow> one_journal l r l'"
  shows "one_journal (sk_ledger s) r (sk_ledger s')"
  using assms by auto

lemma run_document_one:
  assumes "ledger_ok (sk_ledger s)" and "run_document today d s = Inr (r, s')"
  shows "one_journal (sk_ledger s) r (sk_ledger s')"
  using assms(2)
  by (cases d; simp only: run_document.simps)
    ((erule on_ledger_one [OF _ assms(1)] stock_value_one [OF assms(1)], (rule document_contracts; assumption)?)+)

section \<open>Sequences of documents\<close>

inductive documents :: "string \<Rightarrow> stock_books \<Rightarrow> stock_books \<Rightarrow> bool" for today where
  none: "documents today s s"
| more: "documents today s s1 \<Longrightarrow> run_document today d s1 = Inr (r, s2) \<Longrightarrow> documents today s s2"

inductive_cases documents_cases: "documents today s s'"

lemma documents_steps: "documents today s s' \<Longrightarrow> ledger_ok (sk_ledger s) \<Longrightarrow> ledger_steps (sk_ledger s) (sk_ledger s')"
proof (induction rule: documents.induct)
  case (more s s1 d r s2)
  then have st: "ledger_steps (sk_ledger s) (sk_ledger s1)" by simp
  with more.prems have "ledger_ok (sk_ledger s1)" by (blast intro: steps_ok)
  with more.hyps(2) have "ledger_steps (sk_ledger s1) (sk_ledger s2)" by (blast intro: one_journal_steps run_document_one)
  with st show ?case by (rule steps_trans)
qed simp

lemma steps_reach: "ledger_steps s s' \<Longrightarrow> ledger_reach s \<Longrightarrow> ledger_reach s'"
  by (induction rule: ledger_steps.induct) (auto intro: ledger_reach.step)

end
