(* ===== verification/DocumentEntries.thy ===== *)
theory DocumentEntries
  imports DocumentMachine
begin

text \<open>
  What each document writes, as the list of its (account, debit, credit) entries: the lemmas behind
  the properties of \<open>DocumentClaims\<close>. They read the entries off the raw lines with
  \<open>post_entries\<close> and use the balance the ledger enforces to exclude malformed figures.
\<close>

definition role_account :: "ledger \<Rightarrow> string \<Rightarrow> string \<Rightarrow> bool" where
  "role_account s r aid \<longleftrightarrow> (\<exists>a \<in> set (lg_accounts s). ga_isActive a \<and> ga_postingRole a = Some r \<and> ga_id a = aid)"

definition net_on :: "string \<Rightarrow> (string \<times> rat \<times> rat) list \<Rightarrow> rat" where
  "net_on aid es = sum_list (map (\<lambda>(x, d, c). d - c) (filter (\<lambda>e. fst e = aid) es))"

lemma net_on_simps [simp]:
  "net_on aid [] = 0" "net_on aid ((x, d, c) # es) = (if x = aid then d - c else 0) + net_on aid es"
  "net_on aid (es @ fs) = net_on aid es + net_on aid fs"
  by (simp_all add: net_on_def)

lemma entries_balanced:
  assumes "postJournal input s = Inr (r, s')" and "reverses_document input s" and "ledger_ok s"
  shows "sum_list (map (\<lambda>(x, d, c). d) (entries r s')) = sum_list (map (\<lambda>(x, d, c). c) (entries r s'))"
proof -
  have "ledger_ok s'" by (rule post_ok [OF assms])
  moreover from assms(1) obtain date j jls ls es where "posting s s' date j jls ls es" "pj_id r = gj_id j" by (rule postJournal_posting)
  then have "pj_id r \<in> gj_id ` set (lg_journals s')" by (simp add: posting_fields)
  ultimately have "balanced s' (pj_id r)" by (auto simp: ledger_ok_def ledger_inv_def journals_inv_def)
  then show ?thesis by (simp add: balanced_def entries_def entry_def comp_def)
qed

lemma asks_account:
  assumes "ledger_ok s" "ids_fit s" "a \<in> set (lg_accounts s)"
  shows "asks (ordinary_line a x y m) e \<longleftrightarrow> (\<exists>d c. e = (ga_id a, d, c) \<and> roundMoney x = Fin d \<and> roundMoney y = Fin c)"
    and "asks (party_line a x y m ty i n) e \<longleftrightarrow> (\<exists>d c. e = (ga_id a, d, c) \<and> roundMoney x = Fin d \<and> roundMoney y = Fin c)"
    and "asks (control_line a x y i n m) e \<longleftrightarrow> (\<exists>d c. e = (ga_id a, d, c) \<and> roundMoney x = Fin d \<and> roundMoney y = Fin c)"
  using clean_id [OF assms] by (simp_all add: asks_line control_line_def)

text \<open>The account a loaded default resolves to.\<close>

lemma default_account:
  assumes "m = by_role (ACCOUNTS_BY_POSTING_ROLES roles s)" and "m r \<noteq> None"
  shows "the (m r) \<in> set (lg_accounts s)" and "role_account s r (ga_id (the (m r)))"
  using assms by_role_Some [of roles s r] by (auto simp: role_account_def)

lemma money_Fin_round [simp]: "money v = Fin a \<Longrightarrow> round_money a = a"
  using money_cents by (simp add: round_money_cents)

lemma jnum_pos_cases: "0 < (x :: jnum) \<Longrightarrow> (\<exists>a. x = Fin a \<and> 0 < a) \<or> x = PosInf"
  by (cases x) auto

lemma sales_invoice_run:
  assumes "postSalesInvoiceLedger input s = Inr (Some j, s')"
  obtains m memo where "m = by_role (ACCOUNTS_BY_POSTING_ROLES SALES_ROLES s)" "\<forall>r \<in> set SALES_ROLES. m r \<noteq> None"
    "postJournal (document_journal (jget (jget input ''invoice'') ''invoiceDateAD'') (jget (jget input ''invoice'') ''branchId'') memo ''SALES_INVOICE''
       (jget (jget input ''invoice'') ''id'') (jget input ''actor'')
       (sales_lines (\<lambda>r. the (m r)) (jget input ''invoice'') memo (money (jget (jget input ''invoice'') ''grandTotal''))
         (roundMoney (money (jget (jget input ''invoice'') ''grandTotal'') - money (jget (jget input ''invoice'') ''vatAmount'')))
         (money (jget (jget input ''invoice'') ''vatAmount'')) (roundMoney (cogs_sum (arr_or_empty (jget input ''cogs'')))))) s = Inr (j, s')"
  using assms unfolding postSalesInvoiceLedger_def Let_def loadPostingDefaults_def
  by (auto simp: load_roles_eq split: if_splits)

lemma sales_lines_entries:
  assumes ok: "ledger_ok s" "ids_fit s" and m: "\<forall>r \<in> set SALES_ROLES. the (m r) \<in> set (lg_accounts s)"
    and ask: "list_all2 asks (sales_lines (\<lambda>r. the (m r)) bill memo (Fin g) (Fin (g - v)) (Fin v) (Fin c)) es"
    and bal: "sum_list (map (\<lambda>(x, d, c). d) es) = sum_list (map (\<lambda>(x, d, c). c) es)"
    and cents: "is_cents g" "is_cents v" "is_cents c" and pos: "0 < g"
  shows "0 \<le> v \<and> v \<le> g \<and> es = [(ga_id (the (m ''AR_CONTROL'')), g, 0)] @
    (if v < g then [(ga_id (the (m ''SALES'')), 0, g - v)] else []) @ (if 0 < v then [(ga_id (the (m ''TAX_OUTPUT'')), 0, v)] else []) @
    (if 0 < c then [(ga_id (the (m ''COGS'')), c, 0), (ga_id (the (m ''INVENTORY'')), 0, c)] else [])"
proof -
  have acc: "the (m ''AR_CONTROL'') \<in> set (lg_accounts s)" "the (m ''SALES'') \<in> set (lg_accounts s)" "the (m ''TAX_OUTPUT'') \<in> set (lg_accounts s)"
    "the (m ''COGS'') \<in> set (lg_accounts s)" "the (m ''INVENTORY'') \<in> set (lg_accounts s)" using m by (simp_all add: SALES_ROLES_def)
  have "is_cents (g - v)" using cents by auto
  with ask cents pos have es: "es = [(ga_id (the (m ''AR_CONTROL'')), g, 0)] @
    (if v < g then [(ga_id (the (m ''SALES'')), 0, g - v)] else []) @ (if 0 < v then [(ga_id (the (m ''TAX_OUTPUT'')), 0, v)] else []) @
    (if 0 < c then [(ga_id (the (m ''COGS'')), c, 0), (ga_id (the (m ''INVENTORY'')), 0, c)] else [])"
    by (auto simp: sales_lines_def list_all2_append1 list_all2_Cons1 asks_account [OF ok acc(1)] asks_account [OF ok acc(2)]
        asks_account [OF ok acc(3)] asks_account [OF ok acc(4)] asks_account [OF ok acc(5)] split: if_splits)
  with bal have "0 \<le> v \<and> v \<le> g" by (auto split: if_splits)
  with es show ?thesis by simp
qed

lemma money_not_NaN [simp]: "money v \<noteq> NaN"
  by (cases "to_number v") (simp_all add: money_def num0_def)

lemma sales_lines_finite:
  assumes ask: "list_all2 asks (sales_lines (\<lambda>r. the (m r)) bill memo G (roundMoney (G - V)) V C) es"
    and "0 < G" and "V \<noteq> NaN"
  shows "\<exists>g v. G = Fin g \<and> V = Fin v"
proof -
  have not_inf: "\<not> asks (ordinary_line a PosInf y mm) e" "\<not> asks (ordinary_line a y PosInf mm) e" "\<not> asks (control_line a PosInf y i n mm) e" for a y mm i n e
    by (auto simp: asks_line control_line_def)
  show ?thesis
    using assms by (cases G; cases V) (auto simp: sales_lines_def list_all2_append1 list_all2_Cons1 not_inf minus_jnum_def uminus_jnum_def split: if_splits)
qed

text \<open>A return posts the same figures on the other side.\<close>

lemma sales_return_run:
  assumes "postSalesReturnJournal input s = Inr (Some j, s')"
  obtains m memo where "m = by_role (ACCOUNTS_BY_POSTING_ROLES SALES_ROLES s)" "\<forall>r \<in> set SALES_ROLES. m r \<noteq> None"
    "postJournal (document_journal (jget (jget input ''ret'') ''returnDateAD'') (jget (jget input ''ret'') ''branchId'') memo ''SALES_RETURN''
       (jget (jget input ''ret'') ''id'') (jget input ''actor'')
       (sales_return_lines (\<lambda>r. the (m r)) (jget input ''ret'') memo (money (jget (jget input ''ret'') ''grandTotal''))
         (roundMoney (money (jget (jget input ''ret'') ''grandTotal'') - money (jget (jget input ''ret'') ''vatAmount'')))
         (money (jget (jget input ''ret'') ''vatAmount'')) (roundMoney (cogs_sum (arr_or_empty (jget input ''cogs'')))))) s = Inr (j, s')"
  using assms unfolding postSalesReturnJournal_def Let_def loadDefaults_def
  by (auto simp: load_roles_eq SALES_RETURN_ROLES_def SALES_ROLES_def split: if_splits)

lemma sales_return_entries:
  assumes ok: "ledger_ok s" "ids_fit s" and m: "\<forall>r \<in> set SALES_ROLES. the (m r) \<in> set (lg_accounts s)"
    and ask: "list_all2 asks (sales_return_lines (\<lambda>r. the (m r)) ret memo (Fin g) (Fin (g - v)) (Fin v) (Fin c)) es"
    and cents: "is_cents g" "is_cents v" "is_cents c" and pos: "0 < g"
  shows "es = [(ga_id (the (m ''AR_CONTROL'')), 0, g)] @
    (if v < g then [(ga_id (the (m ''SALES'')), g - v, 0)] else []) @ (if 0 < v then [(ga_id (the (m ''TAX_OUTPUT'')), v, 0)] else []) @
    (if 0 < c then [(ga_id (the (m ''INVENTORY'')), c, 0), (ga_id (the (m ''COGS'')), 0, c)] else [])"
proof -
  have acc: "the (m ''AR_CONTROL'') \<in> set (lg_accounts s)" "the (m ''SALES'') \<in> set (lg_accounts s)" "the (m ''TAX_OUTPUT'') \<in> set (lg_accounts s)"
    "the (m ''COGS'') \<in> set (lg_accounts s)" "the (m ''INVENTORY'') \<in> set (lg_accounts s)" using m by (simp_all add: SALES_ROLES_def)
  have "is_cents (g - v)" using cents by auto
  with ask cents pos show ?thesis
    by (auto simp: sales_return_lines_def list_all2_append1 list_all2_Cons1 asks_account [OF ok acc(1)] asks_account [OF ok acc(2)]
        asks_account [OF ok acc(3)] asks_account [OF ok acc(4)] asks_account [OF ok acc(5)] split: if_splits)
qed

lemma sales_invoice_detail:
  assumes ok: "ledger_ok s" "ids_fit s" and run: "postSalesInvoiceLedger input s = Inr (Some j, s')"
    and pos: "0 < money (jget (jget input ''invoice'') ''grandTotal'')" and c: "roundMoney (cogs_sum (arr_or_empty (jget input ''cogs''))) = Fin c"
  obtains m g v where "m = by_role (ACCOUNTS_BY_POSTING_ROLES SALES_ROLES s)" "\<forall>r \<in> set SALES_ROLES. m r \<noteq> None"
    "money (jget (jget input ''invoice'') ''grandTotal'') = Fin g" "money (jget (jget input ''invoice'') ''vatAmount'') = Fin v"
    "0 < g" "0 \<le> v" "v \<le> g"
    "entries j s' = [(ga_id (the (m ''AR_CONTROL'')), g, 0)] @
      (if v < g then [(ga_id (the (m ''SALES'')), 0, g - v)] else []) @ (if 0 < v then [(ga_id (the (m ''TAX_OUTPUT'')), 0, v)] else []) @
      (if 0 < c then [(ga_id (the (m ''COGS'')), c, 0), (ga_id (the (m ''INVENTORY'')), 0, c)] else [])"
proof -
  let ?bill = "jget input ''invoice''"
  from run obtain m memo where m: "m = by_role (ACCOUNTS_BY_POSTING_ROLES SALES_ROLES s)" "\<forall>r \<in> set SALES_ROLES. m r \<noteq> None"
    and post: "postJournal (document_journal (jget ?bill ''invoiceDateAD'') (jget ?bill ''branchId'') memo ''SALES_INVOICE''
       (jget ?bill ''id'') (jget input ''actor'')
       (sales_lines (\<lambda>r. the (m r)) ?bill memo (money (jget ?bill ''grandTotal''))
         (roundMoney (money (jget ?bill ''grandTotal'') - money (jget ?bill ''vatAmount'')))
         (money (jget ?bill ''vatAmount'')) (Fin c))) s = Inr (j, s')"
    by (rule sales_invoice_run) (simp add: c)
  note ask = post_entries [OF post ok(1), unfolded document_fields arr_or_empty.simps]
  from sales_lines_finite [OF ask pos] obtain g v where gv: "money (jget ?bill ''grandTotal'') = Fin g" "money (jget ?bill ''vatAmount'') = Fin v" by auto
  have cents: "is_cents g" "is_cents v" "is_cents c" using gv c money_cents roundMoney_Fin [OF c] by auto
  have gp: "0 < g" using pos gv by simp
  have mem: "\<forall>r \<in> set SALES_ROLES. the (m r) \<in> set (lg_accounts s)" using default_account(1) [OF m(1)] m(2) by blast
  have rev: "round_money (g - v) = g - v" using cents by (intro round_money_cents is_cents_diff)
  show ?thesis
    using that [OF m gv gp] sales_lines_entries [OF ok mem ask [unfolded gv jnum_simps roundMoney.simps rev]
        entries_balanced [OF post document_not_reversal ok(1)] cents gp] by simp
qed

lemma sales_return_detail:
  assumes ok: "ledger_ok s" "ids_fit s" and run: "postSalesReturnJournal input s = Inr (Some j, s')"
    and g: "money (jget (jget input ''ret'') ''grandTotal'') = Fin g" "0 < g" and v: "money (jget (jget input ''ret'') ''vatAmount'') = Fin v"
    and c: "roundMoney (cogs_sum (arr_or_empty (jget input ''cogs''))) = Fin c"
  obtains m where "m = by_role (ACCOUNTS_BY_POSTING_ROLES SALES_ROLES s)"
    "entries j s' = [(ga_id (the (m ''AR_CONTROL'')), 0, g)] @
    (if v < g then [(ga_id (the (m ''SALES'')), g - v, 0)] else []) @ (if 0 < v then [(ga_id (the (m ''TAX_OUTPUT'')), v, 0)] else []) @
    (if 0 < c then [(ga_id (the (m ''INVENTORY'')), c, 0), (ga_id (the (m ''COGS'')), 0, c)] else [])"
proof -
  let ?bill = "jget input ''ret''"
  from run obtain m memo where m: "m = by_role (ACCOUNTS_BY_POSTING_ROLES SALES_ROLES s)" "\<forall>r \<in> set SALES_ROLES. m r \<noteq> None"
    and post: "postJournal (document_journal (jget ?bill ''returnDateAD'') (jget ?bill ''branchId'') memo ''SALES_RETURN''
       (jget ?bill ''id'') (jget input ''actor'')
       (sales_return_lines (\<lambda>r. the (m r)) ?bill memo (Fin g) (Fin (round_money (g - v))) (Fin v) (Fin c))) s = Inr (j, s')"
    by (rule sales_return_run) (simp add: c g v)
  note ask = post_entries [OF post ok(1), unfolded document_fields arr_or_empty.simps]
  have cents: "is_cents g" "is_cents v" "is_cents c" using g v c money_cents roundMoney_Fin [OF c] by auto
  have mem: "\<forall>r \<in> set SALES_ROLES. the (m r) \<in> set (lg_accounts s)" using default_account(1) [OF m(1)] m(2) by blast
  have rev: "round_money (g - v) = g - v" using cents by (intro round_money_cents is_cents_diff)
  show ?thesis using that [OF m(1)] sales_return_entries [OF ok mem ask [unfolded rev] cents g(2)] by simp
qed

end
