(* ===== verification/PayrollEntries.thy ===== *)
theory PayrollEntries
  imports DocumentEntries
begin

text \<open>What a payroll run and its payment write: per employee the credited deductions, and totals that agree.\<close>



definition pay :: "jsval \<Rightarrow> string \<Rightarrow> rat" where
  "pay line f = (case money (jget line f) of Fin r \<Rightarrow> r | _ \<Rightarrow> 0)"

definition finite_pay :: "jsval \<Rightarrow> bool" where
  "finite_pay line \<longleftrightarrow> (\<forall>f \<in> set [''gross'', ''tds'', ''ssf'', ''advance'', ''loan'', ''net'']. money (jget line f) = Fin (pay line f))"

definition pay_credits :: "jsval \<Rightarrow> (rat \<times> string) list" where
  "pay_credits line = filter (\<lambda>(x, r). 0 < x)
     [(pay line ''tds'', ''TDS_PAYABLE''), (pay line ''ssf'', ''SSF_PAYABLE''), (pay line ''advance'', ''EMPLOYEE_ADVANCE''),
      (pay line ''loan'', ''EMPLOYEE_LOAN''), (pay line ''net'', ''SALARY_PAYABLE'')]"

lemma pay_cents: "is_cents (pay line f)"
  by (auto simp: pay_def dest: money_cents split: jnum.split)

lemma credit_deductions_ok:
  assumes "credit_deductions accounts memo line ds (ls, Fin c) = Inr (ls', C)" and "is_cents c"
    and "\<forall>d \<in> set ds. \<exists>x. fst d = Fin x \<and> is_cents x"
  shows "\<exists>xs. map (\<lambda>(x, r). (Fin x, r)) xs = map (\<lambda>d. (fst d, fst (snd d))) (filter (\<lambda>d. 0 < fst d) ds) \<and>
    C = Fin (c + sum_list (map fst xs)) \<and> is_cents (c + sum_list (map fst xs)) \<and>
    (\<exists>ks. ls' = ls @ ks \<and> list_all2 (\<lambda>k (x, r). \<exists>m. accounts r \<noteq> None \<and> k = employeeLine (the (accounts r)) line (Fin x) m) ks xs)"
  using assms
proof (induction ds arbitrary: ls c)
  case Nil
  then show ?case by (intro exI [of _ "[]"]) simp
next
  case (Cons d ds)
  obtain amt role label where d: "d = (amt, role, label)" by (cases d) auto
  with Cons.prems obtain x where x: "amt = Fin x" "is_cents x" by auto
  show ?case
  proof (cases "x \<le> 0")
    case True
    with Cons d x show ?thesis by (simp add: not_less)
  next
    case False
    with Cons.prems(1) d x obtain a where a: "payroll_account accounts role (''payroll runs ('' @ label @ '')'') = Inr a"
      and rest: "credit_deductions accounts memo line ds
        (ls @ [employeeLine a line (Fin x) (memo @ '' -- '' @ to_str (jget line ''employeeCode'') @ '' '' @ label)], Fin (c + x)) = Inr (ls', C)"
      using Cons.prems(2) by (auto simp: round_money_cents [OF is_cents_add])
    have acc: "accounts role = Some a" using a by (auto simp: payroll_account_def need_account_def split: option.splits)
    have cx: "is_cents (c + x)" using Cons.prems(2) x(2) by auto
    have pre: "\<forall>d \<in> set ds. \<exists>x. fst d = Fin x \<and> is_cents x" using Cons.prems(3) by simp
    from Cons.IH [OF rest cx pre] obtain xs ks where
      "map (\<lambda>(x, r). (Fin x, r)) xs = map (\<lambda>d. (fst d, fst (snd d))) (filter (\<lambda>d. 0 < fst d) ds)"
      "C = Fin (c + x + sum_list (map fst xs))" "is_cents (c + x + sum_list (map fst xs))"
      "ls' = (ls @ [employeeLine a line (Fin x) (memo @ '' -- '' @ to_str (jget line ''employeeCode'') @ '' '' @ label)]) @ ks"
      "list_all2 (\<lambda>k (x, r). \<exists>m. accounts r \<noteq> None \<and> k = employeeLine (the (accounts r)) line (Fin x) m) ks xs"
      by blast
    with False show ?thesis
      by (intro exI [of _ "(x, role) # xs"]) (auto simp: d x acc add.assoc)
  qed
qed


lemma pay_deductions:
  assumes "finite_pay line" and "map (\<lambda>(x, r). (Fin x, r)) xs = map (\<lambda>d. (fst d, fst (snd d))) (filter (\<lambda>d. 0 < fst d) (deductions line))"
  shows "xs = pay_credits line"
proof -
  have "map (\<lambda>(x, r). (Fin x, r)) xs = map (\<lambda>(x, r). (Fin x, r)) (pay_credits line)"
    using assms by (simp add: deductions_def pay_credits_def finite_pay_def)
  moreover have "inj (\<lambda>(x :: rat, r :: string). (Fin x, r))" by (auto simp: inj_def)
  ultimately show ?thesis by (metis map_injective)
qed

lemma deductions_cents: "finite_pay line \<Longrightarrow> \<forall>d \<in> set (deductions line). \<exists>x. fst d = Fin x \<and> is_cents x"
  by (auto simp: deductions_def finite_pay_def pay_cents)

definition earners :: "jsval list \<Rightarrow> jsval list" where
  "earners = filter (\<lambda>l. 0 < pay l ''gross'')"

definition adds_up :: "jsval \<Rightarrow> bool" where
  "adds_up l \<longleftrightarrow> pay l ''gross'' = pay l ''tds'' + pay l ''ssf'' + pay l ''advance'' + pay l ''loan'' + pay l ''net''"

lemma run_lines_ok:
  assumes "run_lines accounts memo lines (ls, Fin g, Fin c) = Inr (ls', G, C)" and "\<forall>l \<in> set lines. finite_pay l" "is_cents g" "is_cents c"
  shows "G = Fin (g + sum_list (map (\<lambda>l. pay l ''gross'') (earners lines))) \<and>
    C = Fin (c + sum_list (map fst (concat (map pay_credits (earners lines))))) \<and> is_cents (c + sum_list (map fst (concat (map pay_credits (earners lines))))) \<and>
    (\<forall>l \<in> set (earners lines). adds_up l) \<and>
    (\<exists>ks. ls' = ls @ ks \<and> list_all2 (\<lambda>k (x, r). \<exists>line m. accounts r \<noteq> None \<and> k = employeeLine (the (accounts r)) line (Fin x) m)
       ks (concat (map pay_credits (earners lines))))"
  using assms
proof (induction lines arbitrary: ls g c)
  case Nil
  then show ?case by (simp add: earners_def)
next
  case (Cons line lines)
  have fin: "finite_pay line" and gross: "money (jget line ''gross'') = Fin (pay line ''gross'')" using Cons.prems(2) by (simp_all add: finite_pay_def)
  show ?case
  proof (cases "pay line ''gross'' \<le> 0")
    case True
    with Cons gross show ?thesis by (simp add: earners_def Let_def)
  next
    case False
    let ?rest = "pay line ''gross'' - pay line ''tds'' - pay line ''ssf'' - pay line ''advance'' - pay line ''loan'' - pay line ''net''"
    from False Cons.prems(1) fin gross obtain ls1 C1 where
      cd: "credit_deductions accounts memo line (deductions line) (ls, Fin c) = Inr (ls1, C1)"
      and rest: "run_lines accounts memo lines (ls1, Fin (round_money (g + pay line ''gross'')), C1) = Inr (ls', G, C)"
      and small: "\<not> half_paisa \<le> Fin \<bar>round_money ?rest\<bar>"
      by (auto simp: Let_def finite_pay_def split: if_splits)
    have cents: "is_cents ?rest" "is_cents (g + pay line ''gross'')" using Cons.prems(3) by (intro is_cents_diff is_cents_add pay_cents; simp)+
    with small have "?rest = 0" by (intro cents_small) (simp_all add: half_paisa_def)
    then have adds: "adds_up line" by (simp add: adds_up_def)
    from credit_deductions_ok [OF cd Cons.prems(4) deductions_cents [OF fin]] pay_deductions [OF fin] obtain ks where
      C1: "C1 = Fin (c + sum_list (map fst (pay_credits line)))" "is_cents (c + sum_list (map fst (pay_credits line)))"
      and ks: "ls1 = ls @ ks" "list_all2 (\<lambda>k (x, r). \<exists>m. accounts r \<noteq> None \<and> k = employeeLine (the (accounts r)) line (Fin x) m) ks (pay_credits line)"
      by blast
    have all: "\<forall>l \<in> set lines. finite_pay l" using Cons.prems(2) by simp
    have mine: "list_all2 (\<lambda>k (x, r). \<exists>line m. accounts r \<noteq> None \<and> k = employeeLine (the (accounts r)) line (Fin x) m) ks (pay_credits line)"
      by (rule list_all2_mono [OF ks(2)]) auto
    note IH = Cons.IH [OF rest [unfolded C1(1) round_money_cents [OF cents(2)]] all cents(2) C1(2)]
    from IH obtain ks' where ks': "ls' = ls1 @ ks'"
      "list_all2 (\<lambda>k (x, r). \<exists>line m. accounts r \<noteq> None \<and> k = employeeLine (the (accounts r)) line (Fin x) m) ks' (concat (map pay_credits (earners lines)))"
      by blast
    have e: "earners (line # lines) = line # earners lines" using False by (simp add: earners_def)
    have "ls' = ls @ (ks @ ks')" using ks(1) ks'(1) by simp
    moreover have "list_all2 (\<lambda>k (x, r). \<exists>line m. accounts r \<noteq> None \<and> k = employeeLine (the (accounts r)) line (Fin x) m) (ks @ ks')
       (concat (map pay_credits (line # earners lines)))"
      using mine ks'(2) by (simp add: list_all2_appendI)
    ultimately show ?thesis using IH adds unfolding e by (simp add: add.assoc)
  qed
qed

lemma asks_employee:
  assumes ok: "ledger_ok s" "ids_fit s" and m: "m = by_role (ACCOUNTS_BY_POSTING_ROLES roles s)"
    and ks: "list_all2 (\<lambda>k (x, r). \<exists>line mm. m r \<noteq> None \<and> k = employeeLine (the (m r)) line (Fin x) mm) ks xs"
    and cents: "\<forall>(x, r) \<in> set xs. is_cents x" and ask: "list_all2 asks ks es"
  shows "es = map (\<lambda>(x, r). (ga_id (the (m r)), 0, x)) xs"
  using ks cents ask
proof (induction arbitrary: es rule: list_all2_induct)
  case (Cons k ks x xs)
  obtain a r where x: "x = (a, r)" by (cases x) auto
  with Cons obtain line mm where k: "m r \<noteq> None" "k = employeeLine (the (m r)) line (Fin a) mm" "is_cents a" by auto
  from Cons.prems obtain e es' where es: "es = e # es'" "asks k e" "list_all2 asks ks es'" by (auto simp: list_all2_Cons1)
  from es(2) k asks_account(2) [OF ok default_account(1) [OF m k(1)]] have "e = (ga_id (the (m r)), 0, a)"
    by (auto simp: employeeLine_def)
  with Cons es x show ?case by auto
qed simp

lemma pay_credits_cents: "\<forall>(x, r) \<in> set (concat (map pay_credits ls)). is_cents x"
  by (auto simp: pay_credits_def pay_cents split: if_splits)

lemma payroll_account_Some: "payroll_account accounts role sub = Inr a \<Longrightarrow> accounts role = Some a"
  by (auto simp: payroll_account_def need_account_def split: option.splits)

lemma payroll_run_entries:
  assumes ok: "ledger_ok s" "ids_fit s" and run: "postPayrollRunJournal input s = Inr (Some j, s')"
    and fin: "\<forall>l \<in> set (arr_or_empty (jget input ''lines'')). finite_pay l"
    and m: "m = by_role (ACCOUNTS_BY_POSTING_ROLES RUN_ROLES s)" and es: "es = earners (arr_or_empty (jget input ''lines''))"
  shows "(\<forall>l \<in> set es. adds_up l) \<and> entries j s' = (ga_id (the (m ''SALARY_EXPENSE'')), sum_list (map (\<lambda>l. pay l ''gross'') es), 0) #
      map (\<lambda>(x, r). (ga_id (the (m r)), 0, x)) (concat (map pay_credits es)) \<and>
    sum_list (map (\<lambda>l. pay l ''gross'') es) = sum_list (map fst (concat (map pay_credits es))) \<and>
    (\<forall>x \<in> set (concat (map pay_credits es)). m (snd x) \<noteq> None) \<and> m ''SALARY_EXPENSE'' \<noteq> None \<and> m ''SALARY_PAYABLE'' \<noteq> None"
proof -
  from run obtain sx sp ls G C memo where sx: "payroll_account m ''SALARY_EXPENSE'' ''payroll runs'' = Inr sx"
    and sp: "payroll_account m ''SALARY_PAYABLE'' ''payroll runs'' = Inr sp"
    and rl: "run_lines m memo (arr_or_empty (jget input ''lines'')) ([], 0, 0) = Inr (ls, G, C)"
    and diff: "\<not> half_paisa \<le> abs (G - C)"
    and post: "postJournal (document_journal (jget input ''dateAD'') (jget input ''branchId'') memo ''PAYROLL_RUN'' (jget input ''runId'') (jget input ''actor'')
       (ordinary_line sx G 0 (memo @ '' -- gross wages'') # ls)) s = Inr (j, s')"
    unfolding postPayrollRunJournal_def Let_def m by (auto split: if_splits prod.splits)
  let ?cs = "concat (map pay_credits es)" and ?g = "sum_list (map (\<lambda>l. pay l ''gross'') es)"
  from run_lines_ok [OF rl [unfolded jnum_simps] fin is_cents_0 is_cents_0] have G: "G = Fin ?g" and C: "C = Fin (sum_list (map fst ?cs))"
    and adds: "\<forall>l \<in> set es. adds_up l" and cc: "is_cents (sum_list (map fst ?cs))"
    and ks: "list_all2 (\<lambda>k (x, r). \<exists>line mm. m r \<noteq> None \<and> k = employeeLine (the (m r)) line (Fin x) mm) ls ?cs"
    by (auto simp: es)
  have gc: "is_cents ?g" by (intro is_cents_sum_list) (auto simp: pay_cents)
  have "?g - sum_list (map fst ?cs) = 0"
    using diff gc cc by (intro cents_small is_cents_diff) (simp_all add: G C half_paisa_def)
  then have eq: "?g = sum_list (map fst ?cs)" by simp
  have sxm: "m ''SALARY_EXPENSE'' = Some sx" using sx by (rule payroll_account_Some)
  from post_entries [OF post ok(1), unfolded document_fields arr_or_empty.simps] obtain e es' where e: "entries j s' = e # es'"
    "asks (ordinary_line sx G 0 (memo @ '' -- gross wages'')) e" "list_all2 asks ls es'" by (auto simp: list_all2_Cons1)
  have "e = (ga_id sx, ?g, 0)"
    using e(2) asks_account(1) [OF ok default_account(1) [OF m, of "''SALARY_EXPENSE''"]] sxm gc by (auto simp: G)
  moreover have "es' = map (\<lambda>(x, r). (ga_id (the (m r)), 0, x)) ?cs"
    by (rule asks_employee [OF ok m ks pay_credits_cents e(3)])
  moreover from ks have "\<forall>x \<in> set ?cs. m (snd x) \<noteq> None"
    by (induction rule: list_all2_induct) auto
  ultimately show ?thesis using adds eq e(1) sxm payroll_account_Some [OF sp] by (simp only: option.sel) simp
qed

definition payees :: "jsval list \<Rightarrow> jsval list" where
  "payees = filter (\<lambda>l. 0 < pay l ''net'')"

lemma payment_lines_ok:
  assumes "payment_lines a memo lines (ls, Fin t) = (ls', T)" and "\<forall>l \<in> set lines. finite_pay l" and "is_cents t"
  shows "T = Fin (t + sum_list (map (\<lambda>l. pay l ''net'') (payees lines))) \<and>
    (\<exists>ks. ls' = ls @ ks \<and> list_all2 (\<lambda>k l. \<exists>mm i n. k = party_line a (Fin (pay l ''net'')) 0 mm ''EMPLOYEE'' i n) ks (payees lines))"
  using assms
proof (induction lines arbitrary: ls t)
  case (Cons line lines)
  have net: "money (jget line ''net'') = Fin (pay line ''net'')" using Cons.prems(2) by (simp add: finite_pay_def)
  show ?case
  proof (cases "pay line ''net'' \<le> 0")
    case True
    with Cons net show ?thesis by (simp add: payees_def Let_def)
  next
    case False
    have c: "is_cents (t + pay line ''net'')" using Cons.prems(3) pay_cents by (rule is_cents_add)
    from False net Cons.prems(1) obtain k where k: "\<exists>mm i n. k = party_line a (Fin (pay line ''net'')) 0 mm ''EMPLOYEE'' i n"
      and rest: "payment_lines a memo lines (ls @ [k], Fin (t + pay line ''net'')) = (ls', T)"
      by (auto simp: Let_def round_money_cents [OF c])
    have all: "\<forall>l \<in> set lines. finite_pay l" using Cons.prems(2) by simp
    from Cons.IH [OF rest all c] k False show ?thesis by (auto simp: payees_def add.assoc)
  qed
qed (simp add: payees_def)

lemma payroll_payment_entries:
  assumes ok: "ledger_ok s" "ids_fit s" and run: "postPayrollPaymentJournal input s = Inr (Some j, s')"
    and fin: "\<forall>l \<in> set (arr_or_empty (jget input ''lines'')). finite_pay l"
    and role: "role = cashOrBankRole (jget input ''paymentMethod'')"
    and m: "m = by_role (ACCOUNTS_BY_POSTING_ROLES [''SALARY_PAYABLE'', role] s)" and ps: "ps = payees (arr_or_empty (jget input ''lines''))"
  shows "entries j s' = map (\<lambda>l. (ga_id (the (m ''SALARY_PAYABLE'')), pay l ''net'', 0)) ps @
    [(ga_id (the (m role)), 0, sum_list (map (\<lambda>l. pay l ''net'') ps))] \<and> m ''SALARY_PAYABLE'' \<noteq> None \<and> m role \<noteq> None"
proof -
  let ?t = "sum_list (map (\<lambda>l. pay l ''net'') ps)"
  let ?memo = "''Salary payment for '' @ to_str (jget input ''runNo'') @ '' ('' @ to_str (jget input ''periodKey'') @ '')''"
  from run obtain sp till where sp: "payroll_account m ''SALARY_PAYABLE'' ''payroll payments'' = Inr sp"
    and till: "payroll_account m role ''payroll payments'' = Inr till"
    and post0: "postJournal (document_journal (jget input ''dateAD'') (jget input ''branchId'') ?memo ''PAYROLL_PAYMENT'' (jget input ''runId'') (jget input ''actor'')
       (fst (payment_lines sp ?memo (arr_or_empty (jget input ''lines'')) ([], 0)) @
         [ordinary_line till 0 (snd (payment_lines sp ?memo (arr_or_empty (jget input ''lines'')) ([], 0))) ?memo])) s = Inr (j, s')"
    unfolding postPayrollPaymentJournal_def Let_def m role by (auto simp: case_prod_beta split: if_splits)
  obtain ls T where pl: "payment_lines sp ?memo (arr_or_empty (jget input ''lines'')) ([], 0) = (ls, T)" by (cases "payment_lines sp ?memo (arr_or_empty (jget input ''lines'')) ([], 0)")
  note post = post0 [unfolded pl fst_conv snd_conv]
  note acc = payroll_account_Some [OF sp] payroll_account_Some [OF till]
  from payment_lines_ok [OF pl [unfolded jnum_simps] fin is_cents_0] have T: "T = Fin ?t"
    and ks: "list_all2 (\<lambda>k l. \<exists>mm i n. k = party_line sp (Fin (pay l ''net'')) 0 mm ''EMPLOYEE'' i n) ls ps" by (auto simp: ps)
  have tc: "is_cents ?t" by (intro is_cents_sum_list) (auto simp: pay_cents)
  from post_entries [OF post ok(1), unfolded document_fields arr_or_empty.simps] obtain es e where e: "entries j s' = es @ [e]"
    "list_all2 asks ls es" "asks (ordinary_line till 0 T ?memo) e" by (auto simp: list_all2_append1 list_all2_Cons1)
  have mem: "sp \<in> set (lg_accounts s)" "till \<in> set (lg_accounts s)"
    using default_account(1) [OF m, of "''SALARY_PAYABLE''"] default_account(1) [OF m, of role] acc by simp_all
  have "e = (ga_id till, 0, ?t)" using e(3) asks_account(1) [OF ok mem(2)] tc by (auto simp: T)
  moreover have "es = map (\<lambda>l. (ga_id sp, pay l ''net'', 0)) ps"
    using ks e(2)
  proof (induction arbitrary: es rule: list_all2_induct)
    case (Cons k ks l ls)
    then show ?case using asks_account(2) [OF ok mem(1)] by (auto simp: list_all2_Cons1 pay_cents)
  qed simp
  ultimately show ?thesis using e(1) acc by simp
qed

lemma roles_apart:
  assumes "ledger_ok s" and "m = by_role (ACCOUNTS_BY_POSTING_ROLES roles s)" and "m r \<noteq> None"
    and "m' = by_role (ACCOUNTS_BY_POSTING_ROLES roles' s)" and "m' r' \<noteq> None"
  shows "ga_id (the (m r)) = ga_id (the (m' r')) \<longleftrightarrow> the (m r) = the (m' r')"
    and "r \<noteq> r' \<Longrightarrow> ga_id (the (m r)) \<noteq> ga_id (the (m' r'))"
proof -
  have d: "distinct (map ga_id (lg_accounts s))" using assms(1) by (simp add: ledger_ok_def ledger_inv_def accounts_inv_def)
  have a: "the (m r) \<in> set (lg_accounts s)" "ga_postingRole (the (m r)) = Some r"
    "the (m' r') \<in> set (lg_accounts s)" "ga_postingRole (the (m' r')) = Some r'"
    using assms by_role_Some [of roles s r] by_role_Some [of roles' s r'] by auto
  with d show eq: "ga_id (the (m r)) = ga_id (the (m' r')) \<longleftrightarrow> the (m r) = the (m' r')" unfolding distinct_map by (metis inj_onD)
  show "ga_id (the (m r)) \<noteq> ga_id (the (m' r'))" if "r \<noteq> r'" using that eq a by force
qed

lemma payable_credits:
  assumes "\<forall>x \<in> set cs. ga_id (the (m (snd x))) = p \<longleftrightarrow> snd x = ''SALARY_PAYABLE''"
  shows "net_on p (map (\<lambda>(x, r). (ga_id (the (m r)), 0, x)) cs) = - sum_list (map fst (filter (\<lambda>x. snd x = ''SALARY_PAYABLE'') cs))"
  using assms by (induction cs) auto

lemma payable_of_earners:
  assumes "\<forall>l \<in> set lines. 0 < pay l ''net'' \<longrightarrow> 0 < pay l ''gross''"
  shows "sum_list (map fst (filter (\<lambda>x. snd x = ''SALARY_PAYABLE'') (concat (map pay_credits (earners lines))))) =
    sum_list (map (\<lambda>l. pay l ''net'') (payees lines))"
proof -
  have one: "sum_list (map fst (filter (\<lambda>x. snd x = ''SALARY_PAYABLE'') (pay_credits l))) = (if 0 < pay l ''net'' then pay l ''net'' else 0)" for l
    by (simp add: pay_credits_def)
  show ?thesis using assms by (induction lines) (auto simp: earners_def payees_def one)
qed

lemma net_on_payees: "net_on p (map (\<lambda>l. (p, f l, 0)) ls) = sum_list (map f ls)"
  by (induction ls) auto

end
