(* ===== verification/TransferEntries.thy ===== *)
theory TransferEntries
  imports PayrollEntries
begin

text \<open>What the two legs of an inter-branch transfer write, each in its own branch's books.\<close>

section \<open>Transfers\<close>

lemma picked_side:
  assumes "pickSide (INTER_BRANCH_ACCOUNTS s) r c ty l = Inr a"
  shows "a \<in> set (lg_accounts s)" and "ga_subledgerType a = ''INTER_BRANCH''"
proof -
  from assms have "\<exists>x. (a, x) \<in> set (INTER_BRANCH_ACCOUNTS s)"
    unfolding pickSide_def throw_def Let_def
    by (auto split: option.splits list.splits prod.splits if_splits dest: find_SomeD dest!: filter_eq_ConsD)
  then show "a \<in> set (lg_accounts s)" and "ga_subledgerType a = ''INTER_BRANCH''" by (auto simp: INTER_BRANCH_ACCOUNTS_def)
qed

lemma transfer_accounts_ok:
  assumes "loadTransferAccounts s = Inr (t, s')"
  shows "s' = s" and "ta_inventory t \<in> set (lg_accounts s)" and "ga_postingRole (ta_inventory t) = Some ''INVENTORY''"
    and "ta_dueFrom t \<in> set (lg_accounts s)" and "ta_dueTo t \<in> set (lg_accounts s)"
    and "ga_subledgerType (ta_dueFrom t) = ''INTER_BRANCH''" and "ga_subledgerType (ta_dueTo t) = ''INTER_BRANCH''"
  using assms unfolding loadTransferAccounts_def
  by (auto simp: ACCOUNTS_BY_POSTING_ROLES_def picked_side dest!: find_SomeD split: option.splits)

lemma dispatch_entries:
  assumes ok: "ledger_ok s" "ids_fit s" and run: "postTransferDispatchJournal input s = Inr (Some j, s')"
  obtains t v where "loadTransferAccounts s = Inr (t, s)" "transferJournalValue (arr_or_empty (jget input ''lines'')) = Fin v" "5 / 1000 \<le> v"
    "entries j s' = [(ga_id (ta_dueFrom t), v, 0), (ga_id (ta_inventory t), 0, v)]"
proof -
  let ?v = "transferJournalValue (arr_or_empty (jget input ''lines''))"
  from run obtain t memo m1 m2 party st where t: "loadTransferAccounts s = Inr (t, st)" and big: "\<not> ?v < half_paisa"
    and post: "postJournal (document_journal (jget input ''dateAD'') (jget input ''sourceBranchId'') memo ''TRANSFER_OUT''
      (jget input ''shipmentId'') (jget input ''actor'')
      [party_line (ta_dueFrom t) ?v 0 m1 ''INTER_BRANCH'' (jget input ''destinationBranchId'') party,
       ordinary_line (ta_inventory t) 0 ?v m2]) st = Inr (j, s')"
    unfolding postTransferDispatchJournal_def Let_def by (auto split: if_splits)
  note acc = transfer_accounts_ok [OF t]
  from post_entries [OF post [unfolded acc(1)] ok(1)] obtain v where v: "roundMoney ?v = Fin v"
    and e: "entries j s' = [(ga_id (ta_dueFrom t), v, 0), (ga_id (ta_inventory t), 0, v)]"
    by (auto simp: list_all2_Cons1 asks_account [OF ok acc(4)] asks_account [OF ok acc(2)])
  from v have "?v = Fin v" by (cases "foldl (\<lambda>sum l. sum + abs (num0 (jget l ''quantity'')) * money (jget l ''unitCost'')) 0 (arr_or_empty (jget input ''lines''))")
    (auto simp: transferJournalValue_def)
  with t acc(1) big e show ?thesis by (intro that [of t v]) (auto simp: half_paisa_def)
qed

lemma receipt_entries:
  assumes ok: "ledger_ok s" "ids_fit s" and run: "postTransferReceiptJournal input s = Inr (Some j, s')"
  obtains t v where "loadTransferAccounts s = Inr (t, s)" "transferJournalValue (arr_or_empty (jget input ''lines'')) = Fin v" "5 / 1000 \<le> v"
    "entries j s' = [(ga_id (ta_inventory t), v, 0), (ga_id (ta_dueTo t), 0, v)]"
proof -
  let ?v = "transferJournalValue (arr_or_empty (jget input ''lines''))"
  from run obtain t memo m1 m2 party st where t: "loadTransferAccounts s = Inr (t, st)" and big: "\<not> ?v < half_paisa"
    and post: "postJournal (document_journal (jget input ''dateAD'') (jget input ''destinationBranchId'') memo ''TRANSFER_IN''
      (jget input ''shipmentId'') (jget input ''actor'')
      [ordinary_line (ta_inventory t) ?v 0 m1,
       party_line (ta_dueTo t) 0 ?v m2 ''INTER_BRANCH'' (jget input ''sourceBranchId'') party]) st = Inr (j, s')"
    unfolding postTransferReceiptJournal_def Let_def by (auto split: if_splits)
  note acc = transfer_accounts_ok [OF t]
  from post_entries [OF post [unfolded acc(1)] ok(1)] obtain v where v: "roundMoney ?v = Fin v"
    and e: "entries j s' = [(ga_id (ta_inventory t), v, 0), (ga_id (ta_dueTo t), 0, v)]"
    by (auto simp: list_all2_Cons1 asks_account [OF ok acc(5)] asks_account [OF ok acc(2)])
  from v have "?v = Fin v" by (cases "foldl (\<lambda>sum l. sum + abs (num0 (jget l ''quantity'')) * money (jget l ''unitCost'')) 0 (arr_or_empty (jget input ''lines''))")
    (auto simp: transferJournalValue_def)
  with t acc(1) big e show ?thesis by (intro that [of t v]) (auto simp: half_paisa_def)
qed

lemma transfer_accounts_frame:
  assumes "lg_accounts t = lg_accounts s" and "lg_groups t = lg_groups s" and "loadTransferAccounts s = Inr (x, s)"
    and "loadTransferAccounts t = Inr (y, t)"
  shows "y = x"
proof -
  have "account_type t = account_type s" using assms(2) by (intro ext) (simp add: account_type_def ACCOUNT_GROUP_BY_ID_def)
  then have "INTER_BRANCH_ACCOUNTS t = INTER_BRANCH_ACCOUNTS s" "ACCOUNTS_BY_POSTING_ROLES roles t = ACCOUNTS_BY_POSTING_ROLES roles s" for roles
    using assms(1) by (simp_all add: INTER_BRANCH_ACCOUNTS_def ACCOUNTS_BY_POSTING_ROLES_def)
  with assms(3,4) show ?thesis by (auto simp: loadTransferAccounts_def split: option.splits)
qed

end
