(* ===== verification/ShopDemo.thy ===== *)
theory ShopDemo
  imports TransferEntries
begin

text \<open>
  A small shop -- one account per posting role, one open year with two periods, one branch -- in
  whose books any acceptable balanced journal is posted. The documents of the demonstrations are
  run from it, one after the other; they are the concrete inputs of the claims on documents.
\<close>


definition shop_account :: "string \<Rightarrow> string \<Rightarrow> string \<Rightarrow> string \<Rightarrow> gl_account" where
  "shop_account c g r ty = \<lparr>ga_id = c, ga_code = c, ga_name = r, ga_groupId = g, ga_description = None, ga_isControl = (ty \<noteq> ''NONE''),
     ga_subledgerType = ty, ga_postingRole = Some r,
     ga_accountKind = (if r = ''CASH'' then ''CASH'' else ''OTHER''), ga_bank = no_bank, ga_masterProfile = [], ga_isActive = True\<rparr>"

definition shop_group :: "string \<Rightarrow> string \<Rightarrow> gl_group" where
  "shop_group i ty = \<lparr>gg_id = i, gg_parentId = None, gg_code = i, gg_name = ty, gg_accountType = ty,
     gg_statementGroup = hd (STATEMENT_GROUPS_BY_TYPE ty),
     gg_normalBalance = (if ty \<in> {''ASSET'', ''EXPENSE''} then ''DEBIT'' else ''CREDIT''), gg_sortOrder = 0\<rparr>"

definition shop_accounts :: "gl_account list" where
  "shop_accounts =
     [shop_account ''1000'' ''A'' ''CASH'' ''NONE'', shop_account ''1200'' ''A'' ''AR_CONTROL'' ''CUSTOMER'',
      shop_account ''1300'' ''A'' ''INVENTORY'' ''NONE'', shop_account ''1500'' ''A'' ''FIXED_ASSET'' ''NONE'',
      shop_account ''1590'' ''A'' ''ACCUMULATED_DEPRECIATION'' ''NONE'', shop_account ''1610'' ''A'' ''DUE_FROM_HO'' ''INTER_BRANCH'',
      shop_account ''2100'' ''L'' ''TAX_OUTPUT'' ''NONE'', shop_account ''2200'' ''L'' ''SALARY_PAYABLE'' ''EMPLOYEE'',
      shop_account ''2310'' ''L'' ''DUE_TO_HO'' ''INTER_BRANCH'', shop_account ''2210'' ''L'' ''TDS_PAYABLE'' ''EMPLOYEE'', shop_account ''3000'' ''E'' ''RETAINED_EARNINGS'' ''NONE'',
      shop_account ''4000'' ''I'' ''SALES'' ''NONE'', shop_account ''4900'' ''I'' ''GAIN_ON_DISPOSAL'' ''NONE'',
      shop_account ''5000'' ''X'' ''COGS'' ''NONE'', shop_account ''5100'' ''X'' ''SALARY_EXPENSE'' ''NONE'',
      shop_account ''5200'' ''X'' ''STOCK_EXPENSE'' ''NONE'']"

definition shop_book :: "string \<Rightarrow> string \<Rightarrow> gl_book" where
  "shop_book i a = \<lparr>sb_id = i, sb_accountId = a, sb_partyId = None, sb_isActive = True\<rparr>"

definition shop_period :: gl_period where
  "shop_period = new_period ''glp-1'' demo_fy ''2025-07'' ''2025-07-01'' ''2025-07-15''"

definition shop :: ledger where
  "shop = \<lparr>lg_groups = [shop_group ''A'' ''ASSET'', shop_group ''L'' ''LIABILITY'', shop_group ''E'' ''EQUITY'',
       shop_group ''I'' ''INCOME'', shop_group ''X'' ''EXPENSE''],
     lg_accounts = shop_accounts, lg_fiscalYears = [demo_fy], lg_periods = [demo_period, shop_period], lg_branches = [''b1'', ''b2''], lg_costCenters = [],
     lg_books = [shop_book ''k1'' ''1200'', shop_book ''k2'' ''1610'', shop_book ''k3'' ''2200'', shop_book ''k4'' ''2310'', shop_book ''k5'' ''2210''],
     lg_journals = [], lg_lines = [], lg_subledger = [], lg_seq = 0, lg_uuid = 1\<rparr>"

definition shop_invoice :: jsval where
  "shop_invoice = JObj [(''invoice'', JObj [(''id'', JStr ''si1''), (''invoiceNumber'', JStr ''INV1''), (''invoiceDateAD'', JStr ''2024-08-01''),
     (''branchId'', JStr ''b1''), (''customerId'', JStr ''c1''), (''customerName'', JStr ''Ram''),
     (''grandTotal'', JNum (Fin 113)), (''vatAmount'', JNum (Fin 13))]),
     (''cogs'', JArr [JObj [(''quantity'', JNum (Fin 2)), (''unitCost'', JNum (Fin 30))]])]"


section \<open>What a posting leaves in place\<close>

definition same_masters :: "ledger \<Rightarrow> ledger \<Rightarrow> bool" where
  "same_masters s s' \<longleftrightarrow> lg_groups s' = lg_groups s \<and> lg_accounts s' = lg_accounts s \<and> lg_fiscalYears s' = lg_fiscalYears s \<and>
     lg_periods s' = lg_periods s \<and> lg_branches s' = lg_branches s \<and> lg_costCenters s' = lg_costCenters s \<and> lg_books s' = lg_books s"

lemma insert_line_frame: "insert_line books jid b date l s = Inr (u, s') \<Longrightarrow>
  same_masters s s' \<and> lg_journals s' = lg_journals s \<and> lg_uuid s' \<le> lg_uuid s + 2"
  by (auto simp: insert_line_def Let_def tbind_def randomUUID_def texec_def treturn_def same_masters_def JOURNAL_LINE_INSERT_def SUBLEDGER_INSERT_def
      tthrow_def throw_def split: if_splits option.splits)

lemma insert_lines_frame: "tfor (insert_line books jid b date) ls s = Inr (u, s') \<Longrightarrow>
  same_masters s s' \<and> lg_journals s' = lg_journals s \<and> lg_uuid s' \<le> lg_uuid s + 2 * length ls"
proof (induction ls arbitrary: s)
  case (Cons l ls)
  then obtain s1 where l: "insert_line books jid b date l s = Inr ((), s1)" and ls: "tfor (insert_line books jid b date) ls s1 = Inr (u, s')"
    by (auto simp: tbind_def split: sum.splits)
  from insert_line_frame [OF l] Cons.IH [OF ls] show ?case by (auto simp: same_masters_def)
qed (simp add: treturn_def same_masters_def)


text \<open>Accepted lines that balance are posted, on an open period that exists.\<close>

lemma journal_completes:
  assumes lines: "list_all2 (accepted s) raws xs" and len: "2 \<le> length xs" "length xs \<le> 1000"
    and sums: "sum_list (map (\<lambda>(a, d, c). d) xs) = sum_list (map (\<lambda>(a, d, c). c) xs)"
    and "requireDate (jget input ''journalDateAD'') = Inr date" and "text_val (jget input ''branchId'') 50 = b" "b \<noteq> []" "BRANCH_EXISTS b s"
    and "arr_or_empty (jget input ''lines'') = raws" and per: "ensureOpenPeriod date s = Inr (p, s)"
    and id: "length (uid ''glj-'' (lg_uuid s)) \<le> 50" and ok: "ledger_ok s" "ids_fit s"
    and h: "journal_header input date b p (uid ''glj-'' (lg_uuid s)) (Suc (lg_seq s)) = Inr h"
    and rv: "case gj_reversalOfId h of None \<Rightarrow> True | Some x \<Rightarrow> x \<in> gj_id ` set (lg_journals s)" and st: "gj_sourceType h = ''OPENING_BALANCE'' \<longrightarrow> \<not> OPENING_BALANCE_EXISTS b s"
  shows "\<exists>r s'. postJournal input s = Inr (r, s') \<and> pj_id r = gj_id h \<and> same_masters s s' \<and> lg_journals s' = lg_journals s @ [h] \<and>
    lg_uuid s' \<le> lg_uuid s + 1 + 2 * length xs"
proof -
  let ?ids = "text_ids raws ''accountId''" and ?cs = "COST_CENTERS_BY_IDS (text_ids raws ''costCenterId'') s"
  let ?as = "ACCOUNTS_BY_IDS ?ids s"
  from accepted_jlines [OF lines ok len sums] obtain jls where
    jls: "journal_lines ?as ?cs b 1 raws = Inr jls" "check_totals jls = Inr ()" "check_books s [] jls = Inr ()" "length jls = length xs"
      "length raws = length xs" "?ids \<noteq> []"
    and books: "\<forall>l \<in> set jls. ga_isControl (jl_account l) \<longrightarrow> pick_book (SUBLEDGER_BOOKS_BY_ACCOUNT (ga_id (jl_account l)) s) (jl_partyId l) \<noteq> None"
    by blast
  have idh: "gj_id h = uid ''glj-'' (lg_uuid s)" using journal_header_ok [OF h] by simp
  let ?s1 = "s\<lparr>lg_seq := Suc (lg_seq s), lg_uuid := Suc (lg_uuid s), lg_journals := lg_journals s @ [h]\<rparr>"
  obtain s' where s': "tfor (insert_line (\<lambda>aid. SUBLEDGER_BOOKS_BY_ACCOUNT aid s) (gj_id h) b date) jls ?s1 = Inr ((), s')"
    using insert_lines_complete [OF books] by blast
  have "JOURNAL_INSERT h (s\<lparr>lg_seq := Suc (lg_seq s), lg_uuid := Suc (lg_uuid s)\<rparr>) = Inr ((), ?s1)"
    using rv st id idh journal_header_ok [OF h] by (auto simp: JOURNAL_INSERT_def OPENING_BALANCE_EXISTS_def list_ex_iff split: option.splits)
  with assms jls s' have "\<exists>r. postJournal input s = Inr (r, s') \<and> pj_id r = gj_id h"
    by (simp add: postJournal_def Let_def tx_run NEXT_JOURNAL_SEQUENCE_def randomUUID_def idh uid_def)
  with insert_lines_frame [OF s'] jls(4) show ?thesis by (auto simp: same_masters_def)
qed


section \<open>The shop's books as they grow\<close>

definition stocked :: "nat \<Rightarrow> ledger \<Rightarrow> bool" where
  "stocked n s \<longleftrightarrow> ledger_reach s \<and> same_masters shop s \<and> lg_uuid s \<le> n"


lemma shop_masters:
  "lg_groups shop = [shop_group ''A'' ''ASSET'', shop_group ''L'' ''LIABILITY'', shop_group ''E'' ''EQUITY'',
       shop_group ''I'' ''INCOME'', shop_group ''X'' ''EXPENSE'']"
  "lg_accounts shop = shop_accounts" "lg_fiscalYears shop = [demo_fy]" "lg_periods shop = [demo_period, shop_period]" "lg_branches shop = [''b1'', ''b2'']"
  "lg_costCenters shop = []" "lg_books shop = [shop_book ''k1'' ''1200'', shop_book ''k2'' ''1610'', shop_book ''k3'' ''2200'', shop_book ''k4'' ''2310'', shop_book ''k5'' ''2210'']"
  "lg_journals shop = []" "lg_lines shop = []" "lg_uuid shop = 1"
  by (simp_all add: shop_def)

lemma shop_init: "ledger_init shop"
proof -
  have "parent_rel shop = {}" by (auto simp: parent_rel_def shop_masters shop_group_def)
  then have "groups_inv shop" by (simp add: groups_inv_def shop_masters acyclic_def) (simp add: shop_group_def uid_def)
  moreover have "accounts_inv shop" by (simp add: accounts_inv_def shop_masters shop_accounts_def) (simp add: shop_account_def uid_def)
  ultimately show ?thesis
    by (simp add: ledger_init_def shop_masters shop_accounts_def chart_placed_def)
      (simp add: shop_def shop_account_def shop_group_def text_eval demo_fy_def demo_period_def shop_period_def new_period_def ACCOUNT_TYPES_def STATEMENT_GROUPS_BY_TYPE_def)
qed

lemma stocked_shop: "stocked 1 shop"
  using ledger_reach.start [OF shop_init] by (simp add: stocked_def same_masters_def shop_masters)

lemma stocked_ok: "stocked n s \<Longrightarrow> ledger_ok s \<and> ids_fit s"
  using reach_ok by (auto simp: stocked_def same_masters_def ids_fit_def shop_masters shop_accounts_def shop_account_def)

lemma accepted_masters: "same_masters t s \<Longrightarrow> accepted s = accepted t"
proof -
  assume m: "same_masters t s"
  then have "SUBLEDGER_BOOKS_BY_ACCOUNT aid s = SUBLEDGER_BOOKS_BY_ACCOUNT aid t" for aid
    by (simp add: SUBLEDGER_BOOKS_BY_ACCOUNT_def same_masters_def)
  with m show ?thesis by (intro ext, unfold accepted_def same_masters_def) (simp split: prod.split)
qed

lemma july_bounds: "periodBounds (JStr ''2025-07'') = Inr (''2025-07'', ''2025-07-01'', ''2025-07-31'')"
proof -
  have "parse_period_key ''2025-07'' = Some (2025, 7)" by code_simp
  moreover have "iso_day (date_utc 2025 6 1) = ''2025-07-01''" "iso_day (date_utc 2025 7 0) = ''2025-07-31''" by (code_simp, code_simp)
  ultimately show ?thesis by (simp add: periodBounds_def text_eval)
qed

lemma july_dates: "str_le ''2024-07-16'' ''2025-07-15''" "str_le ''2025-07-15'' ''2025-07-15''" "requireDate (JStr ''2025-07-15'') = Inr ''2025-07-15''"
  by code_simp+

lemma stocked_open:
  assumes "stocked n s"
  shows "ensureOpenPeriod ''2024-08-01'' s = Inr (demo_period, s)" and "ensureOpenPeriod ''2025-07-15'' s = Inr (shop_period, s)"
  using assms
  by (simp_all add: stocked_def same_masters_def tx_run ensureOpenPeriod_def fiscalYearForDate_def FISCAL_YEAR_BOUNDS_def shop_masters
      demo_fy_def demo_period_def shop_period_def new_period_def demo_fy_bounds july_dates demo_bounds july_bounds periodKeyForDate_def PERIOD_BY_KEY_def)

lemma header_plain:
  assumes "jget input ''currency'' = JUndef" "jget input ''exchangeRate'' = JUndef" "jget input ''referenceDateAD'' = JUndef" "jget input ''chequeDateAD'' = JUndef"
  shows "\<exists>h. journal_header input date b p jid n = Inr h \<and> gj_id h = jid \<and> gj_sourceType h = text_or (jget input ''sourceType'') 30 ''MANUAL'' \<and>
    gj_sourceId h = text_null (jget input ''sourceId'') 100 \<and> gj_reversalOfId h = text_null (jget input ''reversalOfId'') 50"
  using assms by (simp add: journal_header_def Let_def currency_input_def text_or_def text_val_def demo_rate optionalDate_def is_upper_def)

lemma nat_digits_length: "n < 10 ^ Suc k \<Longrightarrow> length (nat_digits n) \<le> Suc k"
proof (induction k arbitrary: n)
  case (Suc k)
  from Suc.prems have "n div 10 < 10 ^ Suc k" by simp
  from Suc.IH [OF this] show ?case by (subst nat_digits.simps) simp
qed (simp add: nat_digits.simps)

lemma uid_short: "n < 100000 \<Longrightarrow> length (uid ''glj-'' n) \<le> 50"
  using nat_digits_length [of n 4] by (simp add: uid_def nat_str_def)

text \<open>Any acceptable balanced input is posted in the shop, and the shop goes on.\<close>

lemma stocked_post:
  assumes st: "stocked n s" and n: "n < 100000" and lines: "list_all2 (accepted shop) raws xs" and len: "2 \<le> length xs" "length xs \<le> 1000"
    and sums: "sum_list (map (\<lambda>(a, d, c). d) xs) = sum_list (map (\<lambda>(a, d, c). c) xs)"
    and date: "jget input ''journalDateAD'' = JStr ''2024-08-01'' \<or> jget input ''journalDateAD'' = JStr ''2025-07-15''"
    and branch: "jget input ''branchId'' = JStr b" "b = ''b1'' \<or> b = ''b2''" and raws: "jget input ''lines'' = JArr raws"
    and plain: "jget input ''currency'' = JUndef" "jget input ''exchangeRate'' = JUndef" "jget input ''referenceDateAD'' = JUndef" "jget input ''chequeDateAD'' = JUndef"
    and rv: "case text_null (jget input ''reversalOfId'') 50 of None \<Rightarrow> True | Some x \<Rightarrow> x \<in> gj_id ` set (lg_journals s)"
    and rd: "reverses_document input s" and src: "text_or (jget input ''sourceType'') 30 ''MANUAL'' = ''OPENING_BALANCE'' \<longrightarrow> \<not> OPENING_BALANCE_EXISTS b s"
  shows "\<exists>r s' h. postJournal input s = Inr (r, s') \<and> stocked (n + 1 + 2 * length xs) s' \<and> pj_id r = gj_id h \<and> lg_journals s' = lg_journals s @ [h] \<and>
    gj_sourceType h = text_or (jget input ''sourceType'') 30 ''MANUAL'' \<and> gj_sourceId h = text_null (jget input ''sourceId'') 100 \<and>
    gj_branchId h = b \<and> gj_status h = ''POSTED''"
proof -
  from stocked_ok [OF st] have ok: "ledger_ok s" "ids_fit s" by simp_all
  from st have m: "same_masters shop s" and uu: "lg_uuid s \<le> n" and reach: "ledger_reach s" by (simp_all add: stocked_def)
  from date stocked_open [OF st] july_dates(3) demo_date obtain d p where
    d: "requireDate (jget input ''journalDateAD'') = Inr d" "ensureOpenPeriod d s = Inr (p, s)" by metis
  from header_plain [OF plain] obtain h where h: "journal_header input d b p (uid ''glj-'' (lg_uuid s)) (Suc (lg_seq s)) = Inr h"
    "gj_sourceType h = text_or (jget input ''sourceType'') 30 ''MANUAL''" "gj_sourceId h = text_null (jget input ''sourceId'') 100"
    "gj_reversalOfId h = text_null (jget input ''reversalOfId'') 50" by blast
  have b: "text_val (jget input ''branchId'') 50 = b" "b \<noteq> []" "BRANCH_EXISTS b s"
    using m branch(2) by (auto simp: branch(1) text_eval BRANCH_EXISTS_def same_masters_def shop_masters)
  have acc: "list_all2 (accepted s) raws xs" using lines accepted_masters [OF m] by simp
  have raw: "arr_or_empty (jget input ''lines'') = raws" by (simp add: raws)
  have id: "length (uid ''glj-'' (lg_uuid s)) \<le> 50" using uu n by (intro uid_short) simp
  have "case gj_reversalOfId h of None \<Rightarrow> True | Some x \<Rightarrow> x \<in> gj_id ` set (lg_journals s)" "gj_sourceType h = ''OPENING_BALANCE'' \<longrightarrow> \<not> OPENING_BALANCE_EXISTS b s"
    using rv src h by simp_all
  from journal_completes [OF acc len sums d(1) b(1,2,3) raw d(2) id ok h(1) this] obtain r s' where
    r: "postJournal input s = Inr (r, s')" "pj_id r = gj_id h" "same_masters s s'" "lg_journals s' = lg_journals s @ [h]" "lg_uuid s' \<le> lg_uuid s + 1 + 2 * length xs" by auto
  have "ledger_reach s'" using reach ledger_step.post [OF r(1) rd] by (rule ledger_reach.step)
  then have "stocked (n + 1 + 2 * length xs) s'" using r(3,5) m uu by (simp add: stocked_def same_masters_def)
  with r h journal_header_ok [OF h(1)] show ?thesis by blast
qed

section \<open>Its accounts\<close>

lemma shop_roles:
  assumes "stocked n s" and "r \<in> set roles"
  shows "by_role (ACCOUNTS_BY_POSTING_ROLES roles s) r = by_role shop_accounts r"
proof -
  have "lg_accounts s = shop_accounts" using assms(1) by (simp add: stocked_def same_masters_def shop_masters)
  moreover have "List.find P (filter Q xs) = List.find P xs" if "\<And>x. x \<in> set xs \<Longrightarrow> P x \<Longrightarrow> Q x" for P Q and xs :: "gl_account list"
    using that by (induction xs) auto
  moreover have "ga_isActive a" if "a \<in> set shop_accounts" for a
    using that by (auto simp: shop_accounts_def shop_account_def)
  ultimately show ?thesis using assms(2) unfolding by_role_def ACCOUNTS_BY_POSTING_ROLES_def rev_filter by force
qed

lemma shop_by_role:
  "by_role shop_accounts ''SSF_PAYABLE'' = None" "by_role shop_accounts ''EMPLOYEE_ADVANCE'' = None" "by_role shop_accounts ''EMPLOYEE_LOAN'' = None"
  "by_role shop_accounts ''CPE_ASSET'' = None" "by_role shop_accounts ''BANK'' = None" "by_role shop_accounts ''LOSS_ON_DISPOSAL'' = None"
  "by_role shop_accounts ''CASH'' = Some (shop_account ''1000'' ''A'' ''CASH'' ''NONE'')"
  "by_role shop_accounts ''AR_CONTROL'' = Some (shop_account ''1200'' ''A'' ''AR_CONTROL'' ''CUSTOMER'')"
  "by_role shop_accounts ''INVENTORY'' = Some (shop_account ''1300'' ''A'' ''INVENTORY'' ''NONE'')"
  "by_role shop_accounts ''FIXED_ASSET'' = Some (shop_account ''1500'' ''A'' ''FIXED_ASSET'' ''NONE'')"
  "by_role shop_accounts ''ACCUMULATED_DEPRECIATION'' = Some (shop_account ''1590'' ''A'' ''ACCUMULATED_DEPRECIATION'' ''NONE'')"
  "by_role shop_accounts ''TAX_OUTPUT'' = Some (shop_account ''2100'' ''L'' ''TAX_OUTPUT'' ''NONE'')"
  "by_role shop_accounts ''SALARY_PAYABLE'' = Some (shop_account ''2200'' ''L'' ''SALARY_PAYABLE'' ''EMPLOYEE'')"
  "by_role shop_accounts ''TDS_PAYABLE'' = Some (shop_account ''2210'' ''L'' ''TDS_PAYABLE'' ''EMPLOYEE'')"
  "by_role shop_accounts ''RETAINED_EARNINGS'' = Some (shop_account ''3000'' ''E'' ''RETAINED_EARNINGS'' ''NONE'')"
  "by_role shop_accounts ''SALES'' = Some (shop_account ''4000'' ''I'' ''SALES'' ''NONE'')"
  "by_role shop_accounts ''GAIN_ON_DISPOSAL'' = Some (shop_account ''4900'' ''I'' ''GAIN_ON_DISPOSAL'' ''NONE'')"
  "by_role shop_accounts ''COGS'' = Some (shop_account ''5000'' ''X'' ''COGS'' ''NONE'')"
  "by_role shop_accounts ''STOCK_EXPENSE'' = Some (shop_account ''5200'' ''X'' ''STOCK_EXPENSE'' ''NONE'')"
  "by_role shop_accounts ''SALARY_EXPENSE'' = Some (shop_account ''5100'' ''X'' ''SALARY_EXPENSE'' ''NONE'')"
  by (simp_all add: by_role_def shop_accounts_def shop_account_def)

lemma shop_load:
  assumes "stocked n s" and "\<forall>r \<in> set roles. by_role shop_accounts r \<noteq> None"
  shows "load_roles a b roles s = Inr (by_role (ACCOUNTS_BY_POSTING_ROLES roles s), s)"
  using assms shop_roles [OF assms(1), of _ roles] by (auto simp: load_roles_eq)

lemma accepted_plain:
  assumes "shop_account c g r ''NONE'' \<in> set shop_accounts" and "0 < x" "is_cents x" "x \<le> 9999999999999 / 100"
  shows "accepted shop (ordinary_line (shop_account c g r ''NONE'') (Fin x) (Fin 0) m) (shop_account c g r ''NONE'', x, 0)"
    "accepted shop (ordinary_line (shop_account c g r ''NONE'') (Fin 0) (Fin x) m) (shop_account c g r ''NONE'', 0, x)"
proof -
  have "c \<noteq> []" using assms(1) by (auto simp: shop_accounts_def shop_account_def)
  with assms show "accepted shop (ordinary_line (shop_account c g r ''NONE'') (Fin x) (Fin 0) m) (shop_account c g r ''NONE'', x, 0)"
    "accepted shop (ordinary_line (shop_account c g r ''NONE'') (Fin 0) (Fin x) m) (shop_account c g r ''NONE'', 0, x)"
    by (simp_all add: accepted_def shop_masters text_val_def to_upper_def) (simp_all add: shop_account_def)
qed

lemma accepted_control:
  assumes "shop_account c g r ty \<in> set shop_accounts" and "ty \<noteq> ''NONE''" and "0 < x" "is_cents x" "x \<le> 9999999999999 / 100"
    and "i = JStr pid" "text_null i 100 \<noteq> None"
  shows "accepted shop (party_line (shop_account c g r ty) (Fin x) (Fin 0) m ty i nm) (shop_account c g r ty, x, 0)"
    "accepted shop (party_line (shop_account c g r ty) (Fin 0) (Fin x) m ty i nm) (shop_account c g r ty, 0, x)"
proof -
  from assms(1,2) have "c \<noteq> []" "ty \<in> set [''CUSTOMER'', ''EMPLOYEE'', ''INTER_BRANCH'']" "c \<in> set [''1200'', ''1610'', ''2200'', ''2310'', ''2210'']"
    by (auto simp: shop_accounts_def shop_account_def)
  moreover from this have "\<exists>k. SUBLEDGER_BOOKS_BY_ACCOUNT c shop = [k] \<and> sb_partyId k = None"
    by (auto simp: SUBLEDGER_BOOKS_BY_ACCOUNT_def shop_masters shop_book_def)
  then have "pick_book (SUBLEDGER_BOOKS_BY_ACCOUNT c shop) p \<noteq> None" for p by (auto simp: pick_book_def split: option.split)
  moreover have "to_upper (text_val (JStr ty) 30) = ty" if "ty \<in> set [''CUSTOMER'', ''EMPLOYEE'', ''INTER_BRANCH'']"
    using that by (auto simp: text_eval)
  ultimately show "accepted shop (party_line (shop_account c g r ty) (Fin x) (Fin 0) m ty i nm) (shop_account c g r ty, x, 0)"
    "accepted shop (party_line (shop_account c g r ty) (Fin 0) (Fin x) m ty i nm) (shop_account c g r ty, 0, x)"
    using assms by (simp_all add: accepted_def shop_masters) (simp_all add: shop_account_def)
qed

lemma shop_account_fields [simp]:
  "ga_subledgerType (shop_account c g r ty) = ty" "ga_id (shop_account c g r ty) = c" "ga_isControl (shop_account c g r ty) \<longleftrightarrow> ty \<noteq> ''NONE''"
  by (simp_all add: shop_account_def)

lemma shop_has: 
  "shop_account ''1000'' ''A'' ''CASH'' ''NONE'' \<in> set shop_accounts" "shop_account ''1200'' ''A'' ''AR_CONTROL'' ''CUSTOMER'' \<in> set shop_accounts"
  "shop_account ''1300'' ''A'' ''INVENTORY'' ''NONE'' \<in> set shop_accounts" "shop_account ''1500'' ''A'' ''FIXED_ASSET'' ''NONE'' \<in> set shop_accounts"
  "shop_account ''1590'' ''A'' ''ACCUMULATED_DEPRECIATION'' ''NONE'' \<in> set shop_accounts" "shop_account ''1610'' ''A'' ''DUE_FROM_HO'' ''INTER_BRANCH'' \<in> set shop_accounts"
  "shop_account ''2100'' ''L'' ''TAX_OUTPUT'' ''NONE'' \<in> set shop_accounts" "shop_account ''2200'' ''L'' ''SALARY_PAYABLE'' ''EMPLOYEE'' \<in> set shop_accounts"
  "shop_account ''2310'' ''L'' ''DUE_TO_HO'' ''INTER_BRANCH'' \<in> set shop_accounts" "shop_account ''3000'' ''E'' ''RETAINED_EARNINGS'' ''NONE'' \<in> set shop_accounts"
  "shop_account ''4000'' ''I'' ''SALES'' ''NONE'' \<in> set shop_accounts" "shop_account ''2210'' ''L'' ''TDS_PAYABLE'' ''EMPLOYEE'' \<in> set shop_accounts" "shop_account ''4900'' ''I'' ''GAIN_ON_DISPOSAL'' ''NONE'' \<in> set shop_accounts"
  "shop_account ''5200'' ''X'' ''STOCK_EXPENSE'' ''NONE'' \<in> set shop_accounts" "shop_account ''5000'' ''X'' ''COGS'' ''NONE'' \<in> set shop_accounts" "shop_account ''5100'' ''X'' ''SALARY_EXPENSE'' ''NONE'' \<in> set shop_accounts"
  by (simp_all add: shop_accounts_def)

lemma shop_document:
  assumes "stocked n s" and "n < 100000" and "list_all2 (accepted shop) raws xs" and "2 \<le> length xs" "length xs \<le> 1000"
    and "sum_list (map (\<lambda>(a, d, c). d) xs) = sum_list (map (\<lambda>(a, d, c). c) xs)" and "b = ''b1'' \<or> b = ''b2''" and "text_or (JStr st) 30 ''MANUAL'' = st" "st \<noteq> ''OPENING_BALANCE''"
  shows "\<exists>r s' h. postJournal (document_journal (JStr ''2024-08-01'') (JStr b) memo st sid actor raws) s = Inr (r, s') \<and>
    stocked (n + 1 + 2 * length xs) s' \<and> pj_id r = gj_id h \<and> lg_journals s' = lg_journals s @ [h] \<and>
    gj_sourceType h = st \<and> gj_sourceId h = text_null sid 100 \<and> gj_branchId h = b \<and> gj_status h = ''POSTED''"
proof -
  let ?in = "document_journal (JStr ''2024-08-01'') (JStr b) memo st sid actor raws"
  have "\<exists>r s' h. postJournal ?in s = Inr (r, s') \<and> stocked (n + 1 + 2 * length xs) s' \<and> pj_id r = gj_id h \<and> lg_journals s' = lg_journals s @ [h] \<and>
    gj_sourceType h = text_or (jget ?in ''sourceType'') 30 ''MANUAL'' \<and> gj_sourceId h = text_null (jget ?in ''sourceId'') 100 \<and>
    gj_branchId h = b \<and> gj_status h = ''POSTED''"
    using assms(7-9) by (intro stocked_post [OF assms(1-6)]) (simp_all add: text_null_def text_val_def)
  then show ?thesis using assms(8) by simp
qed

end
