(* ===== verification/ShopRuns.thy ===== *)
theory ShopRuns
  imports ShopDemo
begin

text \<open>The shop's documents: a sale, a stock write-off and its reversal, each run on any state of its books.\<close>


section \<open>A sale\<close>

lemma shop_money: "round_money 113 = 113" "round_money 13 = 13" "round_money 100 = 100" "round_money 60 = 60" "round_money 2 = 2" "round_money 30 = 30"
  by code_simp+

lemma shop_cents: "is_cents 113" "is_cents 13" "is_cents 100" "is_cents 60"
  by (simp_all add: is_cents_def)

lemma shop_sale:
  assumes st: "stocked n s" and n: "n < 1000"
  shows "\<exists>r s'. postSalesInvoiceLedger shop_invoice s = Inr (Some r, s') \<and> stocked (11 + n) s'"
proof -
  let ?m = "by_role (ACCOUNTS_BY_POSTING_ROLES SALES_ROLES s)" and ?bill = "jget shop_invoice ''invoice''"
  let ?raws = "sales_lines (\<lambda>r. the (?m r)) ?bill ''Sales invoice INV1'' (Fin 113) (Fin 100) (Fin 13) (Fin 60)"
  have roles: "?m r = by_role shop_accounts r" if "r \<in> set SALES_ROLES" for r using shop_roles [OF st that] .
  have raws: "list_all2 (accepted shop) ?raws
    [(shop_account ''1200'' ''A'' ''AR_CONTROL'' ''CUSTOMER'', 113, 0), (shop_account ''4000'' ''I'' ''SALES'' ''NONE'', 0, 100),
     (shop_account ''2100'' ''L'' ''TAX_OUTPUT'' ''NONE'', 0, 13), (shop_account ''5000'' ''X'' ''COGS'' ''NONE'', 60, 0),
     (shop_account ''1300'' ''A'' ''INVENTORY'' ''NONE'', 0, 60)]"
    using roles
    by (simp add: SALES_ROLES_def sales_lines_def shop_by_role control_line_def accepted_plain accepted_control shop_cents shop_has
      shop_invoice_def trimmed_or_null_def text_eval)
  have "postSalesInvoiceLedger shop_invoice s = post_some (document_journal (JStr ''2024-08-01'') (JStr ''b1'') ''Sales invoice INV1''
      ''SALES_INVOICE'' (JStr ''si1'') JUndef ?raws) s"
    by (simp add: postSalesInvoiceLedger_def Let_def shop_invoice_def cogs_sum_def shop_money half_paisa_def loadPostingDefaults_def tx_run
      shop_load [OF st] shop_by_role SALES_ROLES_def sales_lines_def)
  moreover have "text_or (JStr ''SALES_INVOICE'') 30 ''MANUAL'' = ''SALES_INVOICE''" by (simp add: text_eval)
  from shop_document [OF st _ raws _ _ _ _ this, of "''b1''" "''Sales invoice INV1''" "JStr ''si1''" JUndef] n obtain r s' where
    "postJournal (document_journal (JStr ''2024-08-01'') (JStr ''b1'') ''Sales invoice INV1'' ''SALES_INVOICE'' (JStr ''si1'') JUndef ?raws) s = Inr (r, s')"
    "stocked (11 + n) s'" by auto
  ultimately show ?thesis by simp
qed


section \<open>A stock write-off and its reversal\<close>

definition shop_write_off :: jsval where
  "shop_write_off = JObj [(''movements'', JArr [JObj [(''productId'', JStr ''p1''), (''quantity'', JNum (Fin (- 2))), (''unitCost'', JNum (Fin 30))]]),
     (''journalDateAD'', JStr ''2024-08-01''), (''branchId'', JStr ''b1''), (''sourceType'', JStr ''STOCK_OPERATION''), (''sourceId'', JStr ''op1'')]"

definition shop_restore :: jsval where
  "shop_restore = JObj [(''operationId'', JStr ''op1''), (''dateAD'', JStr ''2024-08-01'')]"

definition shop_movement :: valued_movement where
  "shop_movement = \<lparr>vm_productId = ''p1'', vm_quantity = - 2, vm_unitCost = Fin 30, vm_value = Fin (- 60)\<rparr>"

lemma shop_moves: "valued_movements (arr_or_empty (jget shop_write_off ''movements'')) = [shop_movement]" "net_value [shop_movement] = Fin (- 60)"
  "positive_costs [shop_movement] [] = []" "js_or JUndef (JStr ''Stock movement'') = JStr ''Stock movement''"
  by code_simp+

lemma shop_writes_off:
  assumes st: "stocked n (sk_ledger s)" and n: "n < 1000"
  shows "\<exists>r s' h. postStockValueJournal shop_write_off s = Inr (Some r, s') \<and> stocked (5 + n) (sk_ledger s') \<and> pj_id r = gj_id h \<and>
    lg_journals (sk_ledger s') = lg_journals (sk_ledger s) @ [h] \<and> gj_sourceType h = ''STOCK_OPERATION'' \<and> gj_sourceId h = Some ''op1'' \<and>
    gj_branchId h = ''b1'' \<and> gj_status h = ''POSTED'' \<and> entries r (sk_ledger s') = [(''5200'', 60, 0), (''1300'', 0, 60)]"
proof -
  let ?m = "by_role (ACCOUNTS_BY_POSTING_ROLES STOCK_ROLES (sk_ledger s))"
  let ?raws = "stock_lines (\<lambda>r. the (?m r)) ''Stock movement'' (Fin (- 60))"
  have roles: "?m r = by_role shop_accounts r" if "r \<in> set STOCK_ROLES" for r using shop_roles [OF st that] .
  have raws: "list_all2 (accepted shop) ?raws
    [(shop_account ''5200'' ''X'' ''STOCK_EXPENSE'' ''NONE'', 60, 0), (shop_account ''1300'' ''A'' ''INVENTORY'' ''NONE'', 0, 60)]"
    using roles by (simp add: STOCK_ROLES_def stock_lines_def shop_by_role accepted_plain shop_cents shop_has)
  have "text_or (JStr ''STOCK_OPERATION'') 30 ''MANUAL'' = ''STOCK_OPERATION''" by (simp add: text_eval)
  from shop_document [OF st _ raws _ _ _ _ this, of "''b1''" "''Stock movement''" "JStr ''op1''" JUndef] n obtain r l h where
    p: "postJournal (document_journal (JStr ''2024-08-01'') (JStr ''b1'') ''Stock movement'' ''STOCK_OPERATION'' (JStr ''op1'') JUndef ?raws) (sk_ledger s) = Inr (r, l)"
    and l: "stocked (5 + n) l" "pj_id r = gj_id h" "lg_journals l = lg_journals (sk_ledger s) @ [h]" "gj_sourceType h = ''STOCK_OPERATION''"
      "gj_sourceId h = text_null (JStr ''op1'') 100" "gj_branchId h = ''b1''" "gj_status h = ''POSTED''" by auto
  have "postStockValueJournal shop_write_off s = Inr (Some r, s\<lparr>sk_ledger := l\<rparr>)"
    using p unfolding postStockValueJournal_def Let_def shop_moves
    by (simp add: shop_write_off_def half_paisa_def shop_moves tx_run loadStockDefaults_def shop_load [OF st] shop_by_role STOCK_ROLES_def on_ledger_def)
  moreover from stocked_ok [OF st] have ok: "ledger_ok (sk_ledger s)" "ids_fit (sk_ledger s)" by simp_all
  have "entries r l = [(''5200'', 60, 0), (''1300'', 0, 60)]"
    using post_entries [OF p ok(1)] roles by (simp add: STOCK_ROLES_def stock_lines_def shop_by_role list_all2_Cons1 asks_line text_eval shop_money)
  moreover have "text_null (JStr ''op1'') 100 = Some ''op1''" by (simp add: text_eval)
  ultimately show ?thesis using l by auto
qed

text \<open>The journal of a document on ordinary accounts can be reversed.\<close>

lemma money_cents_Fin: "is_cents x \<Longrightarrow> money (JNum (Fin x)) = Fin x"
  by (simp add: money_def num0_def round_money_cents)

lemma reversal_accepted:
  assumes l: "one_sided l" and a: "ACCOUNT_BY_ID (gl_accountId l) shop = Some a" "shop_account (gl_accountId l) g r ''NONE'' \<in> set shop_accounts"
    and b: "gl_debit l \<le> 9999999999999 / 100" "gl_credit l \<le> 9999999999999 / 100"
  shows "accepted shop (reversal_line no es l a) (shop_account (gl_accountId l) g r ''NONE'', gl_credit l, gl_debit l)"
proof -
  have d: "distinct (map ga_id shop_accounts)" by (simp add: shop_accounts_def)
  have "a \<in> set shop_accounts \<and> ga_id a = gl_accountId l" using a(1) by (auto simp: ACCOUNT_BY_ID_def shop_masters dest: find_SomeD)
  with d a(2) have "a = shop_account (gl_accountId l) g r ''NONE''" unfolding distinct_map by (metis inj_onD shop_account_fields(2))
  with l a(2) b show ?thesis
    by (auto simp: reversal_line_def Let_def one_sided_def money_cents_Fin accepted_plain)
qed

lemma shop_reversal:
  assumes st: "stocked n s" "n < 100000" and f: "JOURNAL_FIND_BY_SOURCE st sid s = Some h" "gj_status h = ''POSTED''" "gj_branchId h = b" "b = ''b1'' \<or> b = ''b2''"
    and src: "to_upper st \<notin> set REVERSIBLE_MANUAL_SOURCES" "text_or (JStr (if rst = [] then st @ ''_REVERSAL'' else rst)) 30 ''MANUAL'' \<noteq> ''OPENING_BALANCE''"
    and es: "map entry (JOURNAL_LINES (gj_id h) s) = es" "2 \<le> length es" "length es \<le> 1000"
      "sum_list (map (\<lambda>(a, d, c). d) es) = sum_list (map (\<lambda>(a, d, c). c) es)"
      "\<forall>(a, d, c) \<in> set es. (\<exists>g r. shop_account a g r ''NONE'' \<in> set shop_accounts) \<and> d \<le> 9999999999999 / 100 \<and> c \<le> 9999999999999 / 100"
    and inp: "jget input ''sourceId'' = sid" "jget input ''dateAD'' = JStr ''2024-08-01''"
  shows "\<exists>p s'. reverseSourceJournal st rst input s = Inr (Some p, s')"
proof -
  have ok: "ledger_ok s" using stocked_ok [OF st(1)] by simp
  have m: "lg_accounts s = shop_accounts" using st(1) by (simp add: stocked_def same_masters_def shop_masters)
  then have acc: "ACCOUNT_BY_ID aid s = ACCOUNT_BY_ID aid shop" for aid by (simp add: ACCOUNT_BY_ID_def shop_masters)
  note h = find_source [OF f(1)]
  then obtain v where v: "readJournal (gj_id h) s = Some v"
    using LOCK_BY_ID_mem [OF ok, of h] by (auto simp: readJournal_def)
  note hd = reversal_of_document [OF ok f(1) v src(1)] and jl = readJournal_view [OF v]
  let ?ls = "JOURNAL_LINES (gj_id h) s" and ?raws = "reversal_lines v s"
  have each: "\<forall>l \<in> set ?ls. one_sided l \<and> (\<exists>g r. shop_account (gl_accountId l) g r ''NONE'' \<in> set shop_accounts) \<and>
      gl_debit l \<le> 9999999999999 / 100 \<and> gl_credit l \<le> 9999999999999 / 100"
  proof
    fix l assume l: "l \<in> set ?ls"
    then have "entry l \<in> set es" unfolding es(1) [symmetric] by simp
    moreover have "one_sided l" using ok l by (auto simp: JOURNAL_LINES_def ledger_ok_def ledger_inv_def lines_inv_def)
    ultimately show "one_sided l \<and> (\<exists>g r. shop_account (gl_accountId l) g r ''NONE'' \<in> set shop_accounts) \<and>
      gl_debit l \<le> 9999999999999 / 100 \<and> gl_credit l \<le> 9999999999999 / 100" using es(5) by (auto simp: entry_def)
  qed
  have "\<exists>xs. list_all2 (accepted shop) (List.map_filter (\<lambda>l. map_option (reversal_line no sb l) (ACCOUNT_BY_ID (gl_accountId l) s)) ls) xs \<and>
      map snd xs = map (\<lambda>l. (gl_credit l, gl_debit l)) ls"
    if "\<forall>l \<in> set ls. one_sided l \<and> (\<exists>g r. shop_account (gl_accountId l) g r ''NONE'' \<in> set shop_accounts) \<and>
      gl_debit l \<le> 9999999999999 / 100 \<and> gl_credit l \<le> 9999999999999 / 100" for ls no sb
    using that
  proof (induction ls)
    case (Cons l ls)
    then obtain g r where gr: "shop_account (gl_accountId l) g r ''NONE'' \<in> set shop_accounts" by auto
    then have "\<exists>x \<in> set shop_accounts. ga_id x = gl_accountId l" by (metis shop_account_fields(2))
    then have "ACCOUNT_BY_ID (gl_accountId l) shop \<noteq> None" by (auto simp: ACCOUNT_BY_ID_def find_None_iff shop_masters)
    then obtain a where a: "ACCOUNT_BY_ID (gl_accountId l) shop = Some a" by blast
    from Cons obtain xs where "list_all2 (accepted shop) (List.map_filter (\<lambda>l. map_option (reversal_line no sb l) (ACCOUNT_BY_ID (gl_accountId l) s)) ls) xs"
      "map snd xs = map (\<lambda>l. (gl_credit l, gl_debit l)) ls" by auto
    with reversal_accepted [OF _ a gr, of no sb] a Cons.prems show ?case
      by (intro exI [of _ "(shop_account (gl_accountId l) g r ''NONE'', gl_credit l, gl_debit l) # xs"]) (simp add: acc)
  qed simp
  from this [OF each] jl obtain xs where xs: "list_all2 (accepted shop) ?raws xs"
    "map snd xs = map (\<lambda>l. (gl_credit l, gl_debit l)) ?ls" by (auto simp: reversal_lines_def)
  have tuples: "(\<lambda>(a :: 'x, d :: rat, c :: rat). d) = (\<lambda>x. fst (snd x))" "(\<lambda>(a :: 'x, d :: rat, c :: rat). c) = (\<lambda>x. snd (snd x))" by auto
  from arg_cong [OF xs(2), of "map fst"] arg_cong [OF xs(2), of "map snd"]
  have sides: "map (\<lambda>(a, d, c). d) xs = map (\<lambda>(a, d, c). c) es" "map (\<lambda>(a, d, c). c) xs = map (\<lambda>(a, d, c). d) es"
    by (simp_all add: es(1) [symmetric] tuples entry_def comp_def)
  have len: "length xs = length es" using arg_cong [OF sides(1), of length] by simp
  let ?in = "reversal_journal input v (if rst = [] then st @ ''_REVERSAL'' else rst) ?raws"
  have fields: "jget ?in ''journalDateAD'' = JStr ''2024-08-01''" "jget ?in ''currency'' = JUndef" "jget ?in ''exchangeRate'' = JUndef"
    "jget ?in ''referenceDateAD'' = JUndef" "jget ?in ''chequeDateAD'' = JUndef" "jget ?in ''sourceType'' = JStr (if rst = [] then st @ ''_REVERSAL'' else rst)"
    by (simp_all add: reversal_journal_def Let_def inp)
  have "\<exists>r s' h'. postJournal ?in s = Inr (r, s') \<and> stocked (n + 1 + 2 * length xs) s' \<and> pj_id r = gj_id h' \<and> lg_journals s' = lg_journals s @ [h'] \<and>
    gj_sourceType h' = text_or (jget ?in ''sourceType'') 30 ''MANUAL'' \<and> gj_sourceId h' = text_null (jget ?in ''sourceId'') 100 \<and>
    gj_branchId h' = b \<and> gj_status h' = ''POSTED''"
    using len es(2-4) hd(2) src(2) journal_text [OF ok] h f(3,4)
    by (intro stocked_post [OF st xs(1)]) (simp_all add: sides hd(1) fields)
  then obtain r s' where "postJournal ?in s = Inr (r, s')" by blast
  moreover have "\<not> length ?raws < 2" using xs(1) len es(2) by (auto dest: list_all2_lengthD)
  ultimately show ?thesis using f(1,2) v unfolding reverseSourceJournal_def inp(1) by (auto simp: tx_run)
qed
end
