(* ===== verification/DocumentClaims.thy ===== *)
theory DocumentClaims
  imports ShopRuns
begin

text \<open>
  What holds of every operational document posted to the ledger, of the journal of a sales invoice,
  and of cancelling a document.
\<close>


section \<open>Every document\<close>

text \<open>C2. Whatever sequence of the 23 operations the posting services offer has run on a reachable ledger, the next
one either returns null and leaves the ledger as it was, or appends exactly one journal to it: POSTED, with at least two
lines, every line on an active account and on one side only, debits equal to credits. Nothing posted before it changes.\<close>

theorem documents_post_once:
  assumes "ledger_reach (sk_ledger s0)" and "documents today s0 s" and "run_document today d s = Inr (r, s')"
  shows "ledger_reach (sk_ledger s') \<and>
    (case r of None \<Rightarrow> sk_ledger s' = sk_ledger s
     | Some p \<Rightarrow> \<exists>j ls es. lg_journals (sk_ledger s') = lg_journals (sk_ledger s) @ [j] \<and>
         lg_lines (sk_ledger s') = lg_lines (sk_ledger s) @ ls \<and> lg_subledger (sk_ledger s') = lg_subledger (sk_ledger s) @ es \<and>
         gj_id j = pj_id p \<and> gj_status j = ''POSTED'' \<and> 2 \<le> length ls \<and>
         (\<forall>l \<in> set ls. gl_journalId l = pj_id p \<and> one_sided l \<and>
            (\<exists>a \<in> set (lg_accounts (sk_ledger s)). ga_id a = gl_accountId l \<and> ga_isActive a)) \<and>
         sum_list (map gl_debit ls) = sum_list (map gl_credit ls) \<and> 0 < sum_list (map gl_debit ls))"
proof -
  have reach: "ledger_reach (sk_ledger s)"
    using documents_steps [OF assms(2) reach_ok [OF assms(1)]] assms(1) by (rule steps_reach)
  note ok = reach_ok [OF reach]
  have one: "one_journal (sk_ledger s) r (sk_ledger s')" by (rule run_document_one [OF ok assms(3)])
  have r': "ledger_reach (sk_ledger s')" using one_journal_steps [OF one] reach by (rule steps_reach)
  show ?thesis
  proof (cases r)
    case None
    with one r' show ?thesis by (simp add: one_journal_def)
  next
    case (Some p)
    with one obtain input where "postJournal input (sk_ledger s) = Inr (p, sk_ledger s')" by (auto simp: one_journal_def)
    moreover have "distinct (map ga_id (lg_accounts (sk_ledger s)))" using ok by (simp add: ledger_ok_def ledger_inv_def accounts_inv_def)
    ultimately obtain j ls es where "lg_journals (sk_ledger s') = lg_journals (sk_ledger s) @ [j]" "lg_lines (sk_ledger s') = lg_lines (sk_ledger s) @ ls"
      "lg_subledger (sk_ledger s') = lg_subledger (sk_ledger s) @ es" "gj_id j = pj_id p" "gj_status j = ''POSTED''" "2 \<le> length ls"
      "\<forall>l \<in> set ls. gl_journalId l = pj_id p \<and> one_sided l \<and> (\<exists>a \<in> set (lg_accounts (sk_ledger s)). ga_id a = gl_accountId l \<and> ga_isActive a)"
      "sum_list (map gl_debit ls) = sum_list (map gl_credit ls)" "0 < sum_list (map gl_debit ls)"
      using journal_appended [of input "sk_ledger s" p "sk_ledger s'"] by blast
    with r' Some show ?thesis by simp
  qed
qed

definition shop_books :: stock_books where
  "shop_books = \<lparr>sk_ledger = shop, sk_stock = []\<rparr>"

theorem documents_post_once_witness:
  "\<exists>r s' j. run_document ''2024-08-01'' (SalesInvoice shop_invoice) shop_books = Inr (r, s') \<and> lg_journals (sk_ledger s') = [j] \<and> gj_status j = ''POSTED''"
proof -
  from shop_sale [OF stocked_shop] obtain r l where "postSalesInvoiceLedger shop_invoice shop = Inr (Some r, l)" by auto
  then have run: "run_document ''2024-08-01'' (SalesInvoice shop_invoice) shop_books = Inr (Some r, \<lparr>sk_ledger = l, sk_stock = []\<rparr>)"
    by (simp add: shop_books_def)
  have reach: "ledger_reach (sk_ledger shop_books)" by (simp add: shop_books_def ledger_reach.start [OF shop_init])
  from documents_post_once [OF reach documents.none run] run show ?thesis by (auto simp: shop_books_def shop_masters)
qed

text \<open>C6. A sales invoice that bills a positive amount and posts a journal writes exactly these entries, to the paisa: the
receivable is debited with the grand total; sales are credited with the total less VAT and output tax with the VAT, each only
when it is positive; cost of goods is debited and inventory credited with the rounded sum of quantity times unit cost. The
accounts are the active ones mapped to those roles, and the VAT the invoice claims lies between zero and the total.\<close>

theorem sales_invoice_exact:
  assumes "ledger_reach s" and "ids_fit s" and "postSalesInvoiceLedger input s = Inr (Some j, s')"
    and "0 < money (jget (jget input ''invoice'') ''grandTotal'')" and "roundMoney (cogs_sum (arr_or_empty (jget input ''cogs''))) = Fin c"
  shows "\<exists>g v ar sales tax cogs inventory.
    money (jget (jget input ''invoice'') ''grandTotal'') = Fin g \<and> money (jget (jget input ''invoice'') ''vatAmount'') = Fin v \<and> 0 \<le> v \<and> v \<le> g \<and>
    role_account s ''AR_CONTROL'' ar \<and> role_account s ''SALES'' sales \<and> role_account s ''TAX_OUTPUT'' tax \<and>
    role_account s ''COGS'' cogs \<and> role_account s ''INVENTORY'' inventory \<and>
    entries j s' = [(ar, g, 0)] @ (if v < g then [(sales, 0, g - v)] else []) @ (if 0 < v then [(tax, 0, v)] else []) @
      (if 0 < c then [(cogs, c, 0), (inventory, 0, c)] else [])"
proof -
  from sales_invoice_detail [OF reach_ok [OF assms(1)] assms(2-5)] obtain m g v where
    m: "m = by_role (ACCOUNTS_BY_POSTING_ROLES SALES_ROLES s)" "\<forall>r \<in> set SALES_ROLES. m r \<noteq> None"
    and d: "money (jget (jget input ''invoice'') ''grandTotal'') = Fin g" "money (jget (jget input ''invoice'') ''vatAmount'') = Fin v"
      "0 \<le> v" "v \<le> g" "entries j s' = [(ga_id (the (m ''AR_CONTROL'')), g, 0)] @
      (if v < g then [(ga_id (the (m ''SALES'')), 0, g - v)] else []) @ (if 0 < v then [(ga_id (the (m ''TAX_OUTPUT'')), 0, v)] else []) @
      (if 0 < c then [(ga_id (the (m ''COGS'')), c, 0), (ga_id (the (m ''INVENTORY'')), 0, c)] else [])" by metis
  have "role_account s r (ga_id (the (m r)))" if "r \<in> set SALES_ROLES" for r using default_account(2) [OF m(1)] m(2) that by blast
  then have "role_account s ''AR_CONTROL'' (ga_id (the (m ''AR_CONTROL'')))" "role_account s ''SALES'' (ga_id (the (m ''SALES'')))"
    "role_account s ''TAX_OUTPUT'' (ga_id (the (m ''TAX_OUTPUT'')))" "role_account s ''COGS'' (ga_id (the (m ''COGS'')))"
    "role_account s ''INVENTORY'' (ga_id (the (m ''INVENTORY'')))" by (simp_all add: SALES_ROLES_def)
  with d show ?thesis by blast
qed

lemma shop_role:
  assumes "role_account shop r a" and "by_role shop_accounts r = Some x"
  shows "a = ga_id x"
proof -
  have "distinct (map ga_postingRole shop_accounts)" by (simp add: shop_accounts_def shop_account_def)
  moreover have "x \<in> set shop_accounts" "ga_postingRole x = Some r" using assms(2) by (auto simp: by_role_def dest: find_SomeD)
  moreover obtain y where "y \<in> set shop_accounts" "ga_postingRole y = Some r" "a = ga_id y" using assms(1) by (auto simp: role_account_def shop_masters)
  ultimately show ?thesis by (metis distinct_map inj_onD)
qed

theorem sales_invoice_exact_witness:
  "\<exists>r s'. postSalesInvoiceLedger shop_invoice shop = Inr (Some r, s') \<and>
    entries r s' = [(''1200'', 113, 0), (''4000'', 0, 100), (''2100'', 0, 13), (''5000'', 60, 0), (''1300'', 0, 60)]"
proof -
  from shop_sale [OF stocked_shop] obtain r s' where run: "postSalesInvoiceLedger shop_invoice shop = Inr (Some r, s')" by auto
  have in_eq: "money (jget (jget shop_invoice ''invoice'') ''grandTotal'') = Fin 113" "money (jget (jget shop_invoice ''invoice'') ''vatAmount'') = Fin 13"
    "roundMoney (cogs_sum (arr_or_empty (jget shop_invoice ''cogs''))) = Fin 60" by code_simp+
  have "ids_fit shop" using stocked_ok [OF stocked_shop] by simp
  from sales_invoice_exact [OF ledger_reach.start [OF shop_init] this run _ in_eq(3)] obtain ar sales tax cogs inventory where
    roles: "role_account shop ''AR_CONTROL'' ar" "role_account shop ''SALES'' sales" "role_account shop ''TAX_OUTPUT'' tax"
      "role_account shop ''COGS'' cogs" "role_account shop ''INVENTORY'' inventory"
    and e: "entries r s' = [(ar, 113, 0), (sales, 0, 100), (tax, 0, 13), (cogs, 60, 0), (inventory, 0, 60)]"
    by (auto simp: in_eq)
  from roles [THEN shop_role] have "ar = ''1200''" "sales = ''4000''" "tax = ''2100''" "cogs = ''5000''" "inventory = ''1300''" by (simp_all add: shop_by_role)
  with run e show ?thesis by simp
qed

section \<open>Cancelling a document\<close>

lemma posted_lines_kept:
  assumes "postJournal input s = Inr (p, s')" and "ledger_ok s" and "j \<in> set (lg_journals s)"
  shows "JOURNAL_LINES (gj_id j) s' = JOURNAL_LINES (gj_id j) s"
proof -
  from assms(1) obtain date k jls ls es where ps: "posting s s' date k jls ls es" by (rule postJournal_posting)
  have inv: "ledger_inv s" using assms(2) by (simp add: ledger_ok_def)
  from posting_fresh(1) [OF ps inv] assms(3) have "gj_id j \<noteq> gj_id k" by (metis imageI)
  with posting_new_lines(2) [OF ps inv, of "gj_id j"] show ?thesis by simp
qed


text \<open>The document an operation cancels: its source type and id.\<close>

fun cancelled_source :: "document \<Rightarrow> (string \<times> jsval) option" where
  "cancelled_source (ReverseInvoice k x) = Some (invoice_kind_str k, jget x ''sourceId'')"
| "cancelled_source (ReverseReturn k x) = Some (return_kind_str k, jget x ''returnId'')"
| "cancelled_source (ReverseStockOperation x) = Some (''STOCK_OPERATION'', jget x ''operationId'')"
| "cancelled_source (ReverseStockAdjustment k x) = Some (stock_adjustment_str k, jget x ''sourceId'')"
| "cancelled_source (ReverseTransfer k x) = Some (leg_source k, jget x ''shipmentId'')"
| "cancelled_source (ReverseReceipt x) = Some (''CUSTOMER_PAYMENT'', jget x ''paymentId'')"
| "cancelled_source (ReverseVendorPayment x) = Some (''VENDOR_PAYMENT'', jget x ''paymentId'')"
| "cancelled_source _ = None"

lemma cancelled_run:
  assumes "cancelled_source d = Some (st, sid)" and "run_document today d s = Inr (r, s')"
  obtains rst input where "reverseSourceJournal st rst input (sk_ledger s) = Inr (r, sk_ledger s')" "jget input ''sourceId'' = sid"
    "to_upper st \<notin> set REVERSIBLE_MANUAL_SOURCES"
proof -
  have st: "to_upper st \<notin> set REVERSIBLE_MANUAL_SOURCES"
    using assms(1) by (cases d; simp) (auto simp: source_eval elim!: invoice_kind_str.elims return_kind_str.elims stock_adjustment_str.elims leg_source.elims)
  have "\<exists>rst input. reverseSourceJournal st rst input (sk_ledger s) = Inr (r, sk_ledger s') \<and> jget input ''sourceId'' = sid"
    using assms by (cases d; simp)
      (auto simp: reverseInvoiceJournal_def reverseReturnJournal_def reverseStockOperationJournal_def reverseStockAdjustmentJournal_def
        reverseTransferJournal_def reverseCustomerReceiptJournal_def reverseVendorPaymentJournal_def reversal_request_def intro!: exI)
  with st that show ?thesis by blast
qed

text \<open>C9. Cancelling any document -- invoice, return, stock operation, adjustment, transfer leg, receipt or payment -- that
posts a journal at all posts the mirror image of the newest journal of that very document: line by line the same account and
branch with debit and credit exchanged, linked to it by its id. The document's own lines stay, and over any accounts and
branches the two journals net to zero.\<close>

theorem document_reversal_cancels:
  assumes "ledger_reach (sk_ledger s)" and "cancelled_source d = Some (st, sid)" and "run_document today d s = Inr (Some p, s')"
  shows "\<exists>found. JOURNAL_FIND_BY_SOURCE st sid (sk_ledger s) = Some found \<and>
    list_all2 mirrored (JOURNAL_LINES (gj_id found) (sk_ledger s)) (JOURNAL_LINES (pj_id p) (sk_ledger s')) \<and>
    (\<exists>j \<in> set (lg_journals (sk_ledger s')). gj_id j = pj_id p \<and> gj_reversalOfId j = Some (gj_id found)) \<and>
    JOURNAL_LINES (gj_id found) (sk_ledger s') = JOURNAL_LINES (gj_id found) (sk_ledger s) \<and>
    sum_list (map line_net (filter (\<lambda>l. P (gl_accountId l) (gl_branchId l)) (JOURNAL_LINES (gj_id found) (sk_ledger s')))) +
    sum_list (map line_net (filter (\<lambda>l. P (gl_accountId l) (gl_branchId l)) (JOURNAL_LINES (pj_id p) (sk_ledger s')))) = 0"
proof -
  have ok: "ledger_ok (sk_ledger s)" using assms(1) by (rule reach_ok)
  from cancelled_run [OF assms(2,3)] obtain rst input where
    run: "reverseSourceJournal st rst input (sk_ledger s) = Inr (Some p, sk_ledger s')" "jget input ''sourceId'' = sid"
    and src: "to_upper st \<notin> set REVERSIBLE_MANUAL_SOURCES" .
  from reverseSourceJournal_mirrors [OF ok run(1) src] run(2) obtain found where
    f: "JOURNAL_FIND_BY_SOURCE st sid (sk_ledger s) = Some found"
      "list_all2 mirrored (JOURNAL_LINES (gj_id found) (sk_ledger s)) (JOURNAL_LINES (pj_id p) (sk_ledger s'))"
      "\<exists>j \<in> set (lg_journals (sk_ledger s')). gj_id j = pj_id p \<and> gj_reversalOfId j = Some (gj_id found)" by auto
  have "JOURNAL_LINES (gj_id found) (sk_ledger s') = JOURNAL_LINES (gj_id found) (sk_ledger s)"
    using run_document_one [OF ok assms(3)] find_source [OF f(1)] by (auto simp: one_journal_def intro: posted_lines_kept [OF _ ok])
  with f mirrored_net [OF f(2), of P] show ?thesis by auto
qed

theorem document_reversal_cancels_witness:
  "\<exists>r s p s'. postStockValueJournal shop_write_off shop_books = Inr (Some r, s) \<and>
    run_document ''2024-08-01'' (ReverseStockOperation shop_restore) s = Inr (Some p, s') \<and>
    list_all2 mirrored (JOURNAL_LINES (pj_id r) (sk_ledger s)) (JOURNAL_LINES (pj_id p) (sk_ledger s'))"
proof -
  have "stocked 1 (sk_ledger shop_books)" using stocked_shop by (simp add: shop_books_def)
  from shop_writes_off [OF this] obtain r s h where w: "postStockValueJournal shop_write_off shop_books = Inr (Some r, s)" "stocked 6 (sk_ledger s)"
    "pj_id r = gj_id h" "lg_journals (sk_ledger s) = [h]" "gj_sourceType h = ''STOCK_OPERATION''" "gj_sourceId h = Some ''op1''"
    "gj_branchId h = ''b1''" "gj_status h = ''POSTED''" "entries r (sk_ledger s) = [(''5200'', 60, 0), (''1300'', 0, 60)]"
    by (auto simp: shop_books_def shop_masters)
  have f: "JOURNAL_FIND_BY_SOURCE ''STOCK_OPERATION'' (JStr ''op1'') (sk_ledger s) = Some h"
    by (simp add: JOURNAL_FIND_BY_SOURCE_def w)
  have plain: "\<exists>g r. shop_account ''5200'' g r ''NONE'' \<in> set shop_accounts" "\<exists>g r. shop_account ''1300'' g r ''NONE'' \<in> set shop_accounts"
    by (blast intro: shop_has)+
  have "\<exists>p l. reverseStockOperationJournal shop_restore (sk_ledger s) = Inr (Some p, l)"
    unfolding reverseStockOperationJournal_def
    using w by (intro shop_reversal [OF w(2) _ f w(8,7)]) (auto simp: source_eval text_eval entries_def reversal_request_def shop_restore_def plain)
  then obtain p l where run: "run_document ''2024-08-01'' (ReverseStockOperation shop_restore) s = Inr (Some p, s\<lparr>sk_ledger := l\<rparr>)" by auto
  have "cancelled_source (ReverseStockOperation shop_restore) = Some (''STOCK_OPERATION'', JStr ''op1'')" by (simp add: shop_restore_def)
  from document_reversal_cancels [OF _ this run] w(2,3) f
  have "list_all2 mirrored (JOURNAL_LINES (pj_id r) (sk_ledger s)) (JOURNAL_LINES (pj_id p) (sk_ledger (s\<lparr>sk_ledger := l\<rparr>)))"
    by (simp add: stocked_def)
  with w(1) run show ?thesis by blast
qed

section \<open>Sales invoices are posted\<close>

text \<open>What the ledger needs to take a sales invoice: one account per role, the receivable a control account of some party
kind with a book, the others ordinary.\<close>

definition sales_ready :: "jsval \<Rightarrow> ledger \<Rightarrow> bool" where
  "sales_ready bill s \<longleftrightarrow> (let m = by_role (ACCOUNTS_BY_POSTING_ROLES SALES_ROLES s) in
     (\<forall>r \<in> set SALES_ROLES. case m r of None \<Rightarrow> False
        | Some a \<Rightarrow> ga_id a \<noteq> [] \<and> (r \<noteq> ''AR_CONTROL'' \<longrightarrow> \<not> ga_isControl a)) \<and>
     (let a = the (m ''AR_CONTROL''); party = text_null (trimmed_or_null (jget bill ''customerId'')) 100 in
      ga_isControl a \<and> to_upper (text_val (JStr (ga_subledgerType a)) 30) = ga_subledgerType a \<and> party \<noteq> None \<and>
      pick_book (SUBLEDGER_BOOKS_BY_ACCOUNT (ga_id a) s) party \<noteq> None))"

text \<open>C21. A sales invoice is never silently dropped: when the five posting defaults are mapped, the customer has an id and the
receivable a book for it, the date lies in a fiscal year whose period is open or still to be created, and the figures are
whole paisa in range with VAT between zero and a positive total, posting it succeeds and returns a journal.\<close>

theorem sales_invoice_posts:
  assumes "ledger_reach s" and "ids_fit s" and "bill = jget input ''invoice''" and "sales_ready bill s"
    and "jget bill ''invoiceDateAD'' = JStr date" and "jget bill ''branchId'' = JStr b" and "postable date b s"
    and "money (jget bill ''grandTotal'') = Fin g" and "money (jget bill ''vatAmount'') = Fin v"
    and "roundMoney (cogs_sum (arr_or_empty (jget input ''cogs''))) = Fin c"
    and "0 < g" "0 \<le> v" "v \<le> g" "g \<le> 9999999999999 / 100" "c \<le> 9999999999999 / 100"
  shows "\<exists>j s'. postSalesInvoiceLedger input s = Inr (Some j, s')"
proof -
  define m where "m = by_role (ACCOUNTS_BY_POSTING_ROLES SALES_ROLES s)"
  define memo where "memo = ''Sales invoice '' @ to_str (jget bill ''invoiceNumber'')"
  define acc where "acc = (\<lambda>r. the (m r))"
  let ?raws = "sales_lines acc bill memo (Fin g) (Fin (g - v)) (Fin v) (Fin c)"
  let ?xs = "[(acc ''AR_CONTROL'', g, 0)] @ (if v < g then [(acc ''SALES'', 0, g - v)] else []) @ (if 0 < v then [(acc ''TAX_OUTPUT'', 0, v)] else []) @
    (if 0 < c then [(acc ''COGS'', c, 0), (acc ''INVENTORY'', 0, c)] else [])"
  have cents: "is_cents g" "is_cents v" "is_cents c" using assms(8-10) money_cents roundMoney_Fin [OF assms(10)] by auto
  have rev: "round_money (g - v) = g - v" "is_cents (g - v)" using cents by (auto intro: round_money_cents is_cents_diff)
  have found: "\<forall>r \<in> set SALES_ROLES. m r \<noteq> None" using assms(4) by (auto simp: sales_ready_def Let_def m_def split: option.splits)
  have ac: "acc r \<in> set (lg_accounts s)" "ga_isActive (acc r)" "ga_id (acc r) \<noteq> []" "r \<noteq> ''AR_CONTROL'' \<Longrightarrow> \<not> ga_isControl (acc r)"
    if "r \<in> set SALES_ROLES" for r
    using found that assms(4) by_role_Some [of SALES_ROLES s r]
    by (fastforce simp: sales_ready_def Let_def acc_def m_def split: option.splits)+
  have roles: "''AR_CONTROL'' \<in> set SALES_ROLES" "''SALES'' \<in> set SALES_ROLES" "''TAX_OUTPUT'' \<in> set SALES_ROLES" "''COGS'' \<in> set SALES_ROLES"
    "''INVENTORY'' \<in> set SALES_ROLES" by (simp_all add: SALES_ROLES_def)
  have ctl: "accepted s (control_line (acc ''AR_CONTROL'') (Fin g) (Fin 0) (jget bill ''customerId'') (jget bill ''customerName'') memo) (acc ''AR_CONTROL'', g, 0)"
    using ac [OF roles(1)] assms(4,11,14) cents by (simp add: accepted_def control_line_def sales_ready_def Let_def acc_def m_def)
  have plain: "accepted s (ordinary_line (acc r) (Fin x) (Fin 0) mm) (acc r, x, 0)" "accepted s (ordinary_line (acc r) (Fin 0) (Fin x) mm) (acc r, 0, x)"
    if "r \<in> set SALES_ROLES" "r \<noteq> ''AR_CONTROL''" "0 < x" "is_cents x" "x \<le> 9999999999999 / 100" for r x mm
    using ac [OF that(1)] that(2-5) by (simp_all add: accepted_def text_val_def to_upper_def)
  have lines: "list_all2 (accepted s) ?raws ?xs"
    using ctl assms(11-15) rev(2) cents by (simp add: sales_lines_def plain roles)
  have "\<exists>r s'. postJournal (document_journal (JStr date) (JStr b) memo ''SALES_INVOICE'' (jget bill ''id'') (jget input ''actor'') ?raws) s = Inr (r, s')"
    using assms(7,11-13) reach_ok [OF assms(1)] assms(2)
    by (intro document_completes [OF lines]) (auto simp: text_eval)
  moreover have "2 \<le> length ?raws" using list_all2_lengthD [OF lines] assms(11-13) by auto
  moreover have "\<not> (abs (Fin g) < half_paisa \<and> abs (Fin c) < half_paisa)" using assms(11) cents(1) cents_small [of g] by (auto simp: half_paisa_def)
  moreover have "loadPostingDefaults SALES_ROLES s = Inr (m, s)" using found by (simp add: loadPostingDefaults_def load_roles_eq m_def)
  ultimately show ?thesis
    unfolding postSalesInvoiceLedger_def Let_def assms(3) [symmetric] assms(8-10) jnum_simps roundMoney.simps rev
      memo_def [symmetric] by (auto simp: tx_run acc_def assms(5,6) simp del: not_less)
qed

theorem sales_invoice_posts_witness:
  "\<exists>j s'. postSalesInvoiceLedger shop_invoice shop = Inr (Some j, s')"
proof (rule sales_invoice_posts [OF ledger_reach.start [OF shop_init] _ refl])
  have roles: "by_role (ACCOUNTS_BY_POSTING_ROLES SALES_ROLES shop) r = by_role shop_accounts r" if "r \<in> set SALES_ROLES" for r
    using shop_roles [OF stocked_shop that] .
  have "pick_book (SUBLEDGER_BOOKS_BY_ACCOUNT ''1200'' shop) (Some ''c1'') \<noteq> None"
    by (simp add: SUBLEDGER_BOOKS_BY_ACCOUNT_def shop_masters shop_book_def pick_book_def)
  then show "sales_ready (jget shop_invoice ''invoice'') shop"
    using roles by (simp add: sales_ready_def Let_def SALES_ROLES_def shop_by_role shop_invoice_def trimmed_or_null_def text_eval)
  show "ids_fit shop" using stocked_ok [OF stocked_shop] by simp
  show "postable ''2024-08-01'' ''b1'' shop"
    using stocked_open(1) [OF stocked_shop] uid_short [of 1] by (simp add: postable_def demo_date text_eval BRANCH_EXISTS_def shop_masters)
  show "jget (jget shop_invoice ''invoice'') ''invoiceDateAD'' = JStr ''2024-08-01''" "jget (jget shop_invoice ''invoice'') ''branchId'' = JStr ''b1''"
    by (simp_all add: shop_invoice_def)
  show "money (jget (jget shop_invoice ''invoice'') ''grandTotal'') = Fin 113" "money (jget (jget shop_invoice ''invoice'') ''vatAmount'') = Fin 13"
    "roundMoney (cogs_sum (arr_or_empty (jget shop_invoice ''cogs''))) = Fin 60" by code_simp+
qed simp_all

end
