(* ===== verification/SettlementClaims.thy ===== *)
theory SettlementClaims
  imports DocumentClaims
begin

text \<open>
  Pairs of documents that settle each other, with any documents in between: an invoice and its
  return, a payroll run and its payment.
\<close>


section \<open>Documents leave the chart alone\<close>

lemma one_journal_accounts: "one_journal s r s' \<Longrightarrow> lg_accounts s' = lg_accounts s \<and> lg_groups s' = lg_groups s"
proof -
  assume "one_journal s r s'"
  then consider "s' = s" | input j where "postJournal input s = Inr (j, s')" by (auto simp: one_journal_def)
  then show ?thesis
  proof cases
    case 2
    then obtain d j jls ls es where "posting s s' d j jls ls es" by (rule postJournal_posting)
    then show ?thesis by (simp add: posting_fields)
  qed simp
qed

lemma documents_accounts:
  "documents today s s' \<Longrightarrow> ledger_ok (sk_ledger s) \<Longrightarrow>
   lg_accounts (sk_ledger s') = lg_accounts (sk_ledger s) \<and> lg_groups (sk_ledger s') = lg_groups (sk_ledger s)"
proof (induction rule: documents.induct)
  case (more s s1 d r s2)
  then have "ledger_ok (sk_ledger s1)" using documents_steps steps_ok by blast
  then have "one_journal (sk_ledger s1) r (sk_ledger s2)" using more.hyps(2) by (rule run_document_one)
  with more one_journal_accounts show ?case by metis
qed simp

lemma roles_frame: "lg_accounts t = lg_accounts s \<Longrightarrow> ACCOUNTS_BY_POSTING_ROLES roles t = ACCOUNTS_BY_POSTING_ROLES roles s"
  by (simp add: ACCOUNTS_BY_POSTING_ROLES_def)

section \<open>A full return cancels its invoice\<close>


definition shop_return :: jsval where
  "shop_return = JObj [(''ret'', JObj [(''id'', JStr ''sr1''), (''returnNumber'', JStr ''SR1''), (''returnDateAD'', JStr ''2024-08-01''),
     (''branchId'', JStr ''b1''), (''customerId'', JStr ''c1''), (''customerName'', JStr ''Ram''),
     (''grandTotal'', JNum (Fin 113)), (''vatAmount'', JNum (Fin 13))]),
     (''cogs'', JArr [JObj [(''quantity'', JNum (Fin 2)), (''unitCost'', JNum (Fin 30))]])]"


lemma shop_returns:
  assumes st: "stocked n s" and n: "n < 1000"
  shows "\<exists>r s'. postSalesReturnJournal shop_return s = Inr (Some r, s') \<and> stocked (11 + n) s'"
proof -
  let ?m = "by_role (ACCOUNTS_BY_POSTING_ROLES SALES_RETURN_ROLES s)" and ?ret = "jget shop_return ''ret''"
  let ?raws = "sales_return_lines (\<lambda>r. the (?m r)) ?ret ''Sales return SR1'' (Fin 113) (Fin 100) (Fin 13) (Fin 60)"
  have roles: "?m r = by_role shop_accounts r" if "r \<in> set SALES_RETURN_ROLES" for r using shop_roles [OF st that] .
  have raws: "list_all2 (accepted shop) ?raws
    [(shop_account ''1200'' ''A'' ''AR_CONTROL'' ''CUSTOMER'', 0, 113), (shop_account ''4000'' ''I'' ''SALES'' ''NONE'', 100, 0),
     (shop_account ''2100'' ''L'' ''TAX_OUTPUT'' ''NONE'', 13, 0), (shop_account ''1300'' ''A'' ''INVENTORY'' ''NONE'', 60, 0),
     (shop_account ''5000'' ''X'' ''COGS'' ''NONE'', 0, 60)]"
    using roles
    by (simp add: SALES_RETURN_ROLES_def sales_return_lines_def shop_by_role control_line_def accepted_plain accepted_control shop_cents shop_has
      shop_return_def trimmed_or_null_def text_eval)
  have "postSalesReturnJournal shop_return s = post_some (document_journal (JStr ''2024-08-01'') (JStr ''b1'') ''Sales return SR1''
      ''SALES_RETURN'' (JStr ''sr1'') JUndef ?raws) s"
    by (simp add: postSalesReturnJournal_def Let_def shop_return_def cogs_sum_def shop_money half_paisa_def loadDefaults_def tx_run
      shop_load [OF st] shop_by_role SALES_RETURN_ROLES_def sales_return_lines_def)
  moreover have "text_or (JStr ''SALES_RETURN'') 30 ''MANUAL'' = ''SALES_RETURN''" by (simp add: text_eval)
  from shop_document [OF st _ raws _ _ _ _ this, of "''b1''" "''Sales return SR1''" "JStr ''sr1''" JUndef] n obtain r s' where
    "postJournal (document_journal (JStr ''2024-08-01'') (JStr ''b1'') ''Sales return SR1'' ''SALES_RETURN'' (JStr ''sr1'') JUndef ?raws) s = Inr (r, s')"
    "stocked (11 + n) s'" by auto
  ultimately show ?thesis by simp
qed


section \<open>Payroll\<close>

lemma by_role_eq:
  assumes "r \<in> set roles"
  shows "by_role (ACCOUNTS_BY_POSTING_ROLES roles s) r = List.find (\<lambda>a. r \<noteq> [] \<and> ga_isActive a \<and> ga_postingRole a = Some r) (rev (lg_accounts s))"
proof -
  have "List.find (\<lambda>a. r \<noteq> [] \<and> ga_postingRole a = Some r)
      (filter (\<lambda>a. ga_isActive a \<and> (case ga_postingRole a of None \<Rightarrow> False | Some x \<Rightarrow> x \<in> set roles)) xs) =
    List.find (\<lambda>a. r \<noteq> [] \<and> ga_isActive a \<and> ga_postingRole a = Some r) xs" for xs
  proof (induction xs)
    case (Cons a xs)
    then show ?case using assms by (cases "ga_postingRole a") auto
  qed simp
  then show ?thesis by (simp only: by_role_def ACCOUNTS_BY_POSTING_ROLES_def rev_filter)
qed

lemma cash_or_bank: "cashOrBankRole v = ''CASH'' \<or> cashOrBankRole v = ''BANK''"
  by (simp add: cashOrBankRole_def)

text \<open>C25. A posted payroll run debits the gross wages of the employees with a positive gross to the salary expense and credits
their tax, social security, advance, loan and net pay to the accounts of those roles; each such line adds up, gross equal to the
deductions plus net. Paying the run later, whatever documents came in between, debits each net pay and credits the sum to cash or
bank, so that what the run owes the employees and what the payment clears net to zero on the salary payable.\<close>

theorem payroll_clears:
  assumes "ledger_reach (sk_ledger s0)" and "ids_fit (sk_ledger s0)"
    and "run_document today (PayrollRun input) s0 = Inr (Some j, s1)" and "documents today s1 s2"
    and "run_document today (PayrollPayment payment) s2 = Inr (Some k, s3)"
    and "lines = arr_or_empty (jget input ''lines'')" and "arr_or_empty (jget payment ''lines'') = lines"
    and "\<forall>l \<in> set lines. finite_pay l" and "\<forall>l \<in> set lines. 0 < pay l ''net'' \<longrightarrow> 0 < pay l ''gross''"
  shows "(\<forall>l \<in> set lines. 0 < pay l ''gross'' \<longrightarrow> adds_up l) \<and>
    (\<exists>wages payable settle. role_account (sk_ledger s0) ''SALARY_EXPENSE'' wages \<and> role_account (sk_ledger s0) ''SALARY_PAYABLE'' payable \<and>
      role_account (sk_ledger s0) (cashOrBankRole (jget payment ''paymentMethod'')) settle \<and>
      (wages, sum_list (map (\<lambda>l. pay l ''gross'') (earners lines)), 0) \<in> set (entries j (sk_ledger s1)) \<and>
      net_on payable (entries j (sk_ledger s1)) = - sum_list (map (\<lambda>l. pay l ''net'') (payees lines)) \<and>
      (settle, 0, sum_list (map (\<lambda>l. pay l ''net'') (payees lines))) \<in> set (entries k (sk_ledger s3)) \<and>
      net_on payable (entries j (sk_ledger s1)) + net_on payable (entries k (sk_ledger s3)) = 0)"
proof -
  have ok0: "ledger_ok (sk_ledger s0)" using assms(1) by (rule reach_ok)
  have d1: "documents today s0 s1" by (rule documents.more [OF documents.none assms(3)])
  have ok1: "ledger_ok (sk_ledger s1)" using documents_steps [OF d1 ok0] ok0 by (rule steps_ok)
  have ok2: "ledger_ok (sk_ledger s2)" using documents_steps [OF assms(4) ok1] ok1 by (rule steps_ok)
  have acc: "lg_accounts (sk_ledger s2) = lg_accounts (sk_ledger s0)" using documents_accounts [OF assms(4) ok1] documents_accounts [OF d1 ok0] by simp
  have fit2: "ids_fit (sk_ledger s2)" using assms(2) acc by (simp add: ids_fit_def)
  from assms(3,5) have run: "postPayrollRunJournal input (sk_ledger s0) = Inr (Some j, sk_ledger s1)"
    "postPayrollPaymentJournal payment (sk_ledger s2) = Inr (Some k, sk_ledger s3)" by auto
  define role where "role = cashOrBankRole (jget payment ''paymentMethod'')"
  define m where "m = by_role (ACCOUNTS_BY_POSTING_ROLES RUN_ROLES (sk_ledger s0))"
  define q where "q = by_role (ACCOUNTS_BY_POSTING_ROLES [''SALARY_PAYABLE'', role] (sk_ledger s0))"
  define wages where "wages = ga_id (the (m ''SALARY_EXPENSE''))"
  define payable where "payable = ga_id (the (m ''SALARY_PAYABLE''))"
  let ?cs = "concat (map pay_credits (earners lines))" and ?net = "sum_list (map (\<lambda>l. pay l ''net'') (payees lines))"
  note r1 = payroll_run_entries [OF ok0 assms(2) run(1) assms(8) [unfolded assms(6)] m_def refl, folded assms(6) wages_def]
  have fin2: "\<forall>l \<in> set (arr_or_empty (jget payment ''lines'')). finite_pay l" using assms(7,8) by simp
  have q2: "q = by_role (ACCOUNTS_BY_POSTING_ROLES [''SALARY_PAYABLE'', role] (sk_ledger s2))" using roles_frame [OF acc] by (simp add: q_def)
  note r2 = payroll_payment_entries [OF ok2 fit2 run(2) fin2 role_def q2 refl, unfolded assms(7)]
  have same: "q ''SALARY_PAYABLE'' = m ''SALARY_PAYABLE''" by (simp add: q_def m_def by_role_eq RUN_ROLES_def)
  have some: "m ''SALARY_EXPENSE'' \<noteq> None" "m ''SALARY_PAYABLE'' \<noteq> None" "q role \<noteq> None" "\<forall>x \<in> set ?cs. m (snd x) \<noteq> None" using r1 r2 by simp_all
  have apart: "wages \<noteq> payable" unfolding wages_def payable_def by (rule roles_apart(2) [OF ok0 m_def some(1) m_def some(2)]) simp
  have apart2: "ga_id (the (q role)) \<noteq> payable" unfolding payable_def
    by (rule roles_apart(2) [OF ok0 q_def some(3) m_def some(2)])
      (use cash_or_bank [of "jget payment ''paymentMethod''"] in \<open>simp only: role_def, auto\<close>)
  have cs: "\<forall>x \<in> set ?cs. ga_id (the (m (snd x))) = payable \<longleftrightarrow> snd x = ''SALARY_PAYABLE''"
    using roles_apart(2) [OF ok0 m_def _ m_def some(2)] some(4) unfolding payable_def by metis
  have n1: "net_on payable (entries j (sk_ledger s1)) = - ?net"
    using r1 apart payable_credits [OF cs] payable_of_earners [OF assms(9)] by simp
  have n2: "net_on payable (entries k (sk_ledger s3)) = ?net"
    using r2 apart2 by (simp add: same payable_def [symmetric] net_on_payees)
  have roles: "role_account (sk_ledger s0) ''SALARY_EXPENSE'' wages" "role_account (sk_ledger s0) ''SALARY_PAYABLE'' payable"
    "role_account (sk_ledger s0) role (ga_id (the (q role)))"
    unfolding wages_def payable_def using default_account(2) [OF m_def some(1)] default_account(2) [OF m_def some(2)] default_account(2) [OF q_def some(3)] by auto
  have "\<forall>l \<in> set lines. 0 < pay l ''gross'' \<longrightarrow> adds_up l" using r1 by (auto simp: earners_def)
  moreover have "(wages, sum_list (map (\<lambda>l. pay l ''gross'') (earners lines)), 0) \<in> set (entries j (sk_ledger s1))" using r1 by simp
  moreover have "(ga_id (the (q role)), 0, ?net) \<in> set (entries k (sk_ledger s3))" using r2 by simp
  ultimately show ?thesis using n1 n2 roles unfolding role_def by (intro conjI exI [of _ wages] exI [of _ payable] exI [of _ "ga_id (the (q role))"]) (simp_all add: role_def)
qed

definition shop_payroll :: jsval where
  "shop_payroll = JObj [(''dateAD'', JStr ''2024-08-01''), (''branchId'', JStr ''b1''), (''runId'', JStr ''run1''), (''runNo'', JStr ''P1''),
     (''periodKey'', JStr ''2081-04''), (''paymentMethod'', JStr ''CASH''),
     (''lines'', JArr [JObj [(''employeeId'', JStr ''e1''), (''employeeCode'', JStr ''E1''), (''employeeName'', JStr ''Sita''),
        (''gross'', JNum (Fin 113)), (''tds'', JNum (Fin 13)), (''ssf'', JNum (Fin 0)), (''advance'', JNum (Fin 0)), (''loan'', JNum (Fin 0)),
        (''net'', JNum (Fin 100))]])]"

lemma shop_zero: "round_money 0 = 0" by code_simp

lemma shop_runs_payroll:
  assumes st: "stocked n s" and n: "n < 1000"
  shows "\<exists>r s'. postPayrollRunJournal shop_payroll s = Inr (Some r, s') \<and> stocked (7 + n) s'"
proof -
  let ?m = "by_role (ACCOUNTS_BY_POSTING_ROLES RUN_ROLES s)"
  let ?memo = "''Payroll run P1 for 2081-04''"
  have roles: "?m r = by_role shop_accounts r" if "r \<in> set RUN_ROLES" for r using shop_roles [OF st that] .
  let ?line = "JObj [(''employeeId'', JStr ''e1''), (''employeeCode'', JStr ''E1''), (''employeeName'', JStr ''Sita''),
        (''gross'', JNum (Fin 113)), (''tds'', JNum (Fin 13)), (''ssf'', JNum (Fin 0)), (''advance'', JNum (Fin 0)), (''loan'', JNum (Fin 0)),
        (''net'', JNum (Fin 100))]"
  let ?raws = "[ordinary_line (shop_account ''5100'' ''X'' ''SALARY_EXPENSE'' ''NONE'') (Fin 113) (Fin 0) (?memo @ '' -- gross wages''),
    employeeLine (shop_account ''2210'' ''L'' ''TDS_PAYABLE'' ''EMPLOYEE'') ?line (Fin 13) (?memo @ '' -- E1 TDS withheld''),
    employeeLine (shop_account ''2200'' ''L'' ''SALARY_PAYABLE'' ''EMPLOYEE'') ?line (Fin 100) (?memo @ '' -- E1 net salary payable'')]"
  have raws: "list_all2 (accepted shop) ?raws [(shop_account ''5100'' ''X'' ''SALARY_EXPENSE'' ''NONE'', 113, 0),
    (shop_account ''2210'' ''L'' ''TDS_PAYABLE'' ''EMPLOYEE'', 0, 13), (shop_account ''2200'' ''L'' ''SALARY_PAYABLE'' ''EMPLOYEE'', 0, 100)]"
    by (simp add: employeeLine_def accepted_plain accepted_control shop_cents shop_has text_eval)
  have "postPayrollRunJournal shop_payroll s = post_some (document_journal (JStr ''2024-08-01'') (JStr ''b1'') ?memo
      ''PAYROLL_RUN'' (JStr ''run1'') JUndef ?raws) s"
    using roles by (simp add: postPayrollRunJournal_def Let_def shop_payroll_def shop_money shop_zero half_paisa_def loadPayrollAccounts_def tx_run RUN_ROLES_def
      shop_by_role payroll_account_def need_account_def deductions_def)
  moreover have "text_or (JStr ''PAYROLL_RUN'') 30 ''MANUAL'' = ''PAYROLL_RUN''" by (simp add: text_eval)
  from shop_document [OF st _ raws _ _ _ _ this, of "''b1''" ?memo "JStr ''run1''" JUndef] n obtain r s' where
    "postJournal (document_journal (JStr ''2024-08-01'') (JStr ''b1'') ?memo ''PAYROLL_RUN'' (JStr ''run1'') JUndef ?raws) s = Inr (r, s')"
    "stocked (7 + n) s'" by auto
  ultimately show ?thesis by simp
qed

lemma shop_pays_payroll:
  assumes st: "stocked n s" and n: "n < 1000"
  shows "\<exists>r s'. postPayrollPaymentJournal shop_payroll s = Inr (Some r, s') \<and> stocked (5 + n) s'"
proof -
  let ?memo = "''Salary payment for P1 (2081-04)''"
  have roles: "by_role (ACCOUNTS_BY_POSTING_ROLES [''SALARY_PAYABLE'', ''CASH''] s) r = by_role shop_accounts r" if "r \<in> set [''SALARY_PAYABLE'', ''CASH'']" for r
    using shop_roles [OF st that] .
  let ?raws = "[party_line (shop_account ''2200'' ''L'' ''SALARY_PAYABLE'' ''EMPLOYEE'') (Fin 100) (Fin 0) (?memo @ '' -- E1 net salary'') ''EMPLOYEE''
      (JStr ''e1'') (JStr ''Sita''), ordinary_line (shop_account ''1000'' ''A'' ''CASH'' ''NONE'') (Fin 0) (Fin 100) ?memo]"
  have raws: "list_all2 (accepted shop) ?raws [(shop_account ''2200'' ''L'' ''SALARY_PAYABLE'' ''EMPLOYEE'', 100, 0), (shop_account ''1000'' ''A'' ''CASH'' ''NONE'', 0, 100)]"
    by (simp add: accepted_plain accepted_control shop_cents shop_has text_eval)
  have "cashOrBankRole (jget shop_payroll ''paymentMethod'') = ''CASH''" by code_simp
  then have "postPayrollPaymentJournal shop_payroll s = post_some (document_journal (JStr ''2024-08-01'') (JStr ''b1'') ?memo
      ''PAYROLL_PAYMENT'' (JStr ''run1'') JUndef ?raws) s"
    using roles by (simp add: postPayrollPaymentJournal_def Let_def shop_payroll_def shop_money half_paisa_def loadPayrollAccounts_def tx_run
      shop_by_role payroll_account_def need_account_def)
  moreover have "text_or (JStr ''PAYROLL_PAYMENT'') 30 ''MANUAL'' = ''PAYROLL_PAYMENT''" by (simp add: text_eval)
  from shop_document [OF st _ raws _ _ _ _ this, of "''b1''" ?memo "JStr ''run1''" JUndef] n obtain r s' where
    "postJournal (document_journal (JStr ''2024-08-01'') (JStr ''b1'') ?memo ''PAYROLL_PAYMENT'' (JStr ''run1'') JUndef ?raws) s = Inr (r, s')"
    "stocked (5 + n) s'" by auto
  ultimately show ?thesis by simp
qed

theorem payroll_clears_witness:
  "\<exists>j s1 k s3 p. postPayrollRunJournal shop_payroll shop = Inr (Some j, s1) \<and> postPayrollPaymentJournal shop_payroll s1 = Inr (Some k, s3) \<and>
    net_on p (entries j s1) = - 100 \<and> net_on p (entries j s1) + net_on p (entries k s3) = 0"
proof -
  from shop_runs_payroll [OF stocked_shop] obtain j s1 where run: "postPayrollRunJournal shop_payroll shop = Inr (Some j, s1)" "stocked 8 s1" by auto
  from shop_pays_payroll [OF run(2)] obtain k s3 where paid: "postPayrollPaymentJournal shop_payroll s1 = Inr (Some k, s3)" by auto
  have start: "ledger_reach (sk_ledger shop_books)" "ids_fit (sk_ledger shop_books)"
    using stocked_ok [OF stocked_shop] by (simp_all add: shop_books_def ledger_reach.start [OF shop_init])
  have runs: "run_document ''2024-08-01'' (PayrollRun shop_payroll) shop_books = Inr (Some j, \<lparr>sk_ledger = s1, sk_stock = []\<rparr>)"
    "run_document ''2024-08-01'' (PayrollPayment shop_payroll) \<lparr>sk_ledger = s1, sk_stock = []\<rparr> = Inr (Some k, \<lparr>sk_ledger = s3, sk_stock = []\<rparr>)"
    using run(1) paid by (simp_all add: shop_books_def)
  have fin: "\<forall>l \<in> set (arr_or_empty (jget shop_payroll ''lines'')). finite_pay l"
    "\<forall>l \<in> set (arr_or_empty (jget shop_payroll ''lines'')). 0 < pay l ''net'' \<longrightarrow> 0 < pay l ''gross''"
    and net: "sum_list (map (\<lambda>l. pay l ''net'') (payees (arr_or_empty (jget shop_payroll ''lines'')))) = 100"
    by (simp_all add: shop_payroll_def finite_pay_def pay_def payees_def shop_money shop_zero)
  from payroll_clears [OF start runs(1) documents.none runs(2) refl refl fin] net obtain p where
    "net_on p (entries j s1) = - 100" "net_on p (entries j s1) + net_on p (entries k s3) = 0" by auto
  with run(1) paid show ?thesis by blast
qed

end
