(* ===== verification/TransferClaims.thy ===== *)
theory TransferClaims
  imports SettlementClaims
begin

text \<open>The two legs of an inter-branch transfer, each in its own branch's books, carry one value.\<close>


lemma posted_branch:
  assumes "postJournal input s = Inr (r, s')" and "ledger_ok s"
  shows "\<forall>l \<in> set (JOURNAL_LINES (pj_id r) s'). gl_branchId l = text_val (jget input ''branchId'') 50"
proof -
  from assms(1) obtain date j jls ls es where p: "posting s s' date j jls ls es" and r: "pj_id r = gj_id j"
    and b: "gj_branchId j = text_val (jget input ''branchId'') 50" by (rule postJournal_posting)
  have "JOURNAL_LINES (pj_id r) s' = ls" using posting_new_lines(1) [OF p] assms(2) by (simp add: r ledger_ok_def)
  moreover have "\<forall>l \<in> set ls. gl_branchId l = gj_branchId j" using p written_sums by (fastforce simp: posting_def)
  ultimately show ?thesis by (simp add: b)
qed

lemma dispatch_branch:
  assumes ok: "ledger_ok s" and run: "postTransferDispatchJournal input s = Inr (Some j, s')"
  shows "\<forall>l \<in> set (JOURNAL_LINES (pj_id j) s'). gl_branchId l = text_val (jget input ''sourceBranchId'') 50"
proof -
  from run obtain raws memo t st where t: "loadTransferAccounts s = Inr (t, st)" and
    post: "postJournal (document_journal (jget input ''dateAD'') (jget input ''sourceBranchId'') memo ''TRANSFER_OUT''
      (jget input ''shipmentId'') (jget input ''actor'') raws) st = Inr (j, s')"
    unfolding postTransferDispatchJournal_def Let_def by (auto split: if_splits)
  from posted_branch [OF post] ok transfer_accounts_ok(1) [OF t] show ?thesis by simp
qed

lemma receipt_branch:
  assumes ok: "ledger_ok s" and run: "postTransferReceiptJournal input s = Inr (Some j, s')"
  shows "\<forall>l \<in> set (JOURNAL_LINES (pj_id j) s'). gl_branchId l = text_val (jget input ''destinationBranchId'') 50"
proof -
  from run obtain raws memo t st where t: "loadTransferAccounts s = Inr (t, st)" and
    post: "postJournal (document_journal (jget input ''dateAD'') (jget input ''destinationBranchId'') memo ''TRANSFER_IN''
      (jget input ''shipmentId'') (jget input ''actor'') raws) st = Inr (j, s')"
    unfolding postTransferReceiptJournal_def Let_def by (auto split: if_splits)
  from posted_branch [OF post] ok transfer_accounts_ok(1) [OF t] show ?thesis by simp
qed


definition shop_shipment :: jsval where
  "shop_shipment = JObj [(''dateAD'', JStr ''2024-08-01''), (''shipmentId'', JStr ''sh1''), (''sourceBranchId'', JStr ''b1''),
     (''destinationBranchId'', JStr ''b2''), (''lines'', JArr [JObj [(''quantity'', JNum (Fin 2)), (''unitCost'', JNum (Fin 30))]])]"

lemma shop_custody:
  assumes "stocked n s"
  shows "loadTransferAccounts s = Inr (\<lparr>ta_inventory = shop_account ''1300'' ''A'' ''INVENTORY'' ''NONE'',
    ta_dueFrom = shop_account ''1610'' ''A'' ''DUE_FROM_HO'' ''INTER_BRANCH'', ta_dueTo = shop_account ''2310'' ''L'' ''DUE_TO_HO'' ''INTER_BRANCH''\<rparr>, s)"
proof -
  have m: "lg_accounts s = shop_accounts" using assms by (simp add: stocked_def same_masters_def shop_masters)
  have f [simp]: "ga_isActive (shop_account c g r ty)" "ga_postingRole (shop_account c g r ty) = Some r" for c g r ty by (simp_all add: shop_account_def)
  have acc: "filter (\<lambda>a. ga_isActive a \<and> ga_subledgerType a = ''INTER_BRANCH'') shop_accounts =
      [shop_account ''1610'' ''A'' ''DUE_FROM_HO'' ''INTER_BRANCH'', shop_account ''2310'' ''L'' ''DUE_TO_HO'' ''INTER_BRANCH'']"
    "filter (\<lambda>a. ga_isActive a \<and> (case ga_postingRole a of None \<Rightarrow> False | Some r \<Rightarrow> r \<in> set [''INVENTORY''])) shop_accounts =
      [shop_account ''1300'' ''A'' ''INVENTORY'' ''NONE'']"
    by (simp_all add: shop_accounts_def)
  from acc(1) have "INTER_BRANCH_ACCOUNTS s = map (\<lambda>a. (a, account_type s a))
      [shop_account ''1610'' ''A'' ''DUE_FROM_HO'' ''INTER_BRANCH'', shop_account ''2310'' ''L'' ''DUE_TO_HO'' ''INTER_BRANCH'']"
    unfolding INTER_BRANCH_ACCOUNTS_def m by simp
  moreover from acc(2) have "ACCOUNTS_BY_POSTING_ROLES [''INVENTORY''] s = [shop_account ''1300'' ''A'' ''INVENTORY'' ''NONE'']"
    unfolding ACCOUNTS_BY_POSTING_ROLES_def m .
  ultimately show ?thesis by (simp add: loadTransferAccounts_def tx_run pickSide_def)
qed

lemma shop_dispatches:
  assumes st: "stocked n s" and n: "n < 1000"
  shows "\<exists>r s'. postTransferDispatchJournal shop_shipment s = Inr (Some r, s') \<and> stocked (5 + n) s'"
proof -
  let ?memo = "''Inter-branch transfer sh1 dispatched to b2''"
  let ?raws = "[party_line (shop_account ''1610'' ''A'' ''DUE_FROM_HO'' ''INTER_BRANCH'') (Fin 60) (Fin 0) (?memo @ '' -- due from head office'')
      ''INTER_BRANCH'' (JStr ''b2'') (JStr ''b2''),
    ordinary_line (shop_account ''1300'' ''A'' ''INVENTORY'' ''NONE'') (Fin 0) (Fin 60) (?memo @ '' -- inventory released'')]"
  have raws: "list_all2 (accepted shop) ?raws [(shop_account ''1610'' ''A'' ''DUE_FROM_HO'' ''INTER_BRANCH'', 60, 0), (shop_account ''1300'' ''A'' ''INVENTORY'' ''NONE'', 0, 60)]"
    by (simp add: accepted_plain accepted_control shop_cents shop_has text_eval)
  have v: "transferJournalValue [JObj [(''quantity'', JNum (Fin 2)), (''unitCost'', JNum (Fin 30))]] = Fin 60" by code_simp
  have j: "js_or JUndef (JStr ''b2'') = JStr ''b2''" by code_simp
  have "postTransferDispatchJournal shop_shipment s = post_some (document_journal (JStr ''2024-08-01'') (JStr ''b1'') ?memo
      ''TRANSFER_OUT'' (JStr ''sh1'') JUndef ?raws) s"
    by (simp add: postTransferDispatchJournal_def Let_def shop_shipment_def v j half_paisa_def shop_custody [OF st] tx_run)
  moreover have "text_or (JStr ''TRANSFER_OUT'') 30 ''MANUAL'' = ''TRANSFER_OUT''" by (simp add: text_eval)
  from shop_document [OF st _ raws _ _ _ _ this, of "''b1''" ?memo "JStr ''sh1''" JUndef] n obtain r s' where
    "postJournal (document_journal (JStr ''2024-08-01'') (JStr ''b1'') ?memo ''TRANSFER_OUT'' (JStr ''sh1'') JUndef ?raws) s = Inr (r, s')"
    "stocked (5 + n) s'" by auto
  ultimately show ?thesis by simp
qed

lemma shop_receives:
  assumes st: "stocked n s" and n: "n < 1000"
  shows "\<exists>r s'. postTransferReceiptJournal shop_shipment s = Inr (Some r, s') \<and> stocked (5 + n) s'"
proof -
  let ?memo = "''Inter-branch transfer sh1 received from b1''"
  let ?raws = "[ordinary_line (shop_account ''1300'' ''A'' ''INVENTORY'' ''NONE'') (Fin 60) (Fin 0) (?memo @ '' -- inventory received''),
    party_line (shop_account ''2310'' ''L'' ''DUE_TO_HO'' ''INTER_BRANCH'') (Fin 0) (Fin 60) (?memo @ '' -- due to head office'')
      ''INTER_BRANCH'' (JStr ''b1'') (JStr ''b1'')]"
  have raws: "list_all2 (accepted shop) ?raws [(shop_account ''1300'' ''A'' ''INVENTORY'' ''NONE'', 60, 0), (shop_account ''2310'' ''L'' ''DUE_TO_HO'' ''INTER_BRANCH'', 0, 60)]"
    by (simp add: accepted_plain accepted_control shop_cents shop_has text_eval)
  have v: "transferJournalValue [JObj [(''quantity'', JNum (Fin 2)), (''unitCost'', JNum (Fin 30))]] = Fin 60" by code_simp
  have j: "js_or JUndef (JStr ''b1'') = JStr ''b1''" by code_simp
  have "postTransferReceiptJournal shop_shipment s = post_some (document_journal (JStr ''2024-08-01'') (JStr ''b2'') ?memo
      ''TRANSFER_IN'' (JStr ''sh1'') JUndef ?raws) s"
    by (simp add: postTransferReceiptJournal_def Let_def shop_shipment_def v j half_paisa_def shop_custody [OF st] tx_run)
  moreover have "text_or (JStr ''TRANSFER_IN'') 30 ''MANUAL'' = ''TRANSFER_IN''" by (simp add: text_eval)
  from shop_document [OF st _ raws _ _ _ _ this, of "''b2''" ?memo "JStr ''sh1''" JUndef] n obtain r s' where
    "postJournal (document_journal (JStr ''2024-08-01'') (JStr ''b2'') ?memo ''TRANSFER_IN'' (JStr ''sh1'') JUndef ?raws) s = Inr (r, s')"
    "stocked (5 + n) s'" by auto
  ultimately show ?thesis by simp
qed

end
