(* ===== verification/AssetClaims.thy ===== *)
theory AssetClaims
  imports TransferClaims
begin

text \<open>The disposal of a fixed asset: which entries it writes and what the ledger carries for the asset afterwards.\<close>


section \<open>The entries of a disposal\<close>

definition entry_if :: "bool \<Rightarrow> string \<times> rat \<times> rat \<Rightarrow> (string \<times> rat \<times> rat) list" where
  "entry_if b e = (if b then [e] else [])"

lemma net_on_entry_if [simp]: "net_on a (entry_if b (x, d, c)) = (if b \<and> x = a then d - c else 0)"
  by (simp add: entry_if_def)

text \<open>An optional line of a disposal and the entry it asks for.\<close>

lemma optional_debit:
  assumes ok: "ledger_ok s" "ids_fit s" and l: "optional_line (0 < Fin x) acc (\<lambda>a. ordinary_line a (Fin x) 0 mm) = Inr ls"
    and ask: "list_all2 asks ls es" and acc: "\<And>a. acc = Inr a \<Longrightarrow> a \<in> set (lg_accounts s)" and x: "is_cents x"
  shows "es = entry_if (0 < x) (case acc of Inr a \<Rightarrow> ga_id a | Inl e \<Rightarrow> [], x, 0) \<and> (0 < x \<longrightarrow> (\<exists>a. acc = Inr a))"
proof (cases "0 < x")
  case True
  with l obtain a where a: "acc = Inr a" "ls = [ordinary_line a (Fin x) 0 mm]" by (auto simp: optional_line_def)
  with True ask asks_account(1) [OF ok acc [OF a(1)]] x show ?thesis by (auto simp: list_all2_Cons1 entry_if_def)
qed (use l ask in \<open>auto simp: optional_line_def entry_if_def\<close>)

lemma optional_credit:
  assumes ok: "ledger_ok s" "ids_fit s" and l: "optional_line (0 < Fin x) acc (\<lambda>a. ordinary_line a 0 (Fin x) mm) = Inr ls"
    and ask: "list_all2 asks ls es" and acc: "\<And>a. acc = Inr a \<Longrightarrow> a \<in> set (lg_accounts s)" and x: "is_cents x"
  shows "es = entry_if (0 < x) (case acc of Inr a \<Rightarrow> ga_id a | Inl e \<Rightarrow> [], 0, x) \<and> (0 < x \<longrightarrow> (\<exists>a. acc = Inr a))"
proof (cases "0 < x")
  case True
  with l obtain a where a: "acc = Inr a" "ls = [ordinary_line a 0 (Fin x) mm]" by (auto simp: optional_line_def)
  with True ask asks_account(1) [OF ok acc [OF a(1)]] x show ?thesis by (auto simp: list_all2_Cons1 entry_if_def)
qed (use l ask in \<open>auto simp: optional_line_def entry_if_def\<close>)

definition account_of :: "(string \<Rightarrow> gl_account option) \<Rightarrow> string \<Rightarrow> string" where
  "account_of m r = (case m r of None \<Rightarrow> [] | Some a \<Rightarrow> ga_id a)"

lemma disposal_account_id:
  "disposal_account m r = Inr a \<Longrightarrow> m r = Some a"
  by (auto simp: disposal_account_def need_account_def throw_def split: option.splits)

lemma disposal_lines_run:
  assumes "disposal_lines m input memo fixedCost cpeCost accumulated proceeds = Inr ls"
    and "nb = roundMoney (roundMoney (fixedCost + cpeCost) - accumulated)"
    and "gain = (if nb < proceeds then roundMoney (proceeds - nb) else 0)" and "loss = (if proceeds < nb then roundMoney (nb - proceeds) else 0)"
    and "role = asset_settlementRole (jget input ''paymentMethod'') False"
  obtains l1 l2 l3 l4 l5 l6 m1 m2 m3 m4 m5 m6 where "ls = l1 @ l2 @ l3 @ l4 @ l5 @ l6"
    "optional_line (0 < accumulated) (Inr (the (m ''ACCUMULATED_DEPRECIATION''))) (\<lambda>a. ordinary_line a accumulated 0 m1) = Inr l1"
    "optional_line (0 < proceeds) (if role = ''AP_CONTROL'' then throw 400 ''Disposal proceeds must be received by cash or bank, not on credit.''
       else disposal_account m role) (\<lambda>a. ordinary_line a proceeds 0 m2) = Inr l2"
    "optional_line (0 < loss) (disposal_account m ''LOSS_ON_DISPOSAL'') (\<lambda>a. ordinary_line a loss 0 m3) = Inr l3"
    "optional_line (0 < fixedCost) (Inr (the (m ''FIXED_ASSET''))) (\<lambda>a. ordinary_line a 0 fixedCost m4) = Inr l4"
    "optional_line (0 < cpeCost) (disposal_account m ''CPE_ASSET'') (\<lambda>a. ordinary_line a 0 cpeCost m5) = Inr l5"
    "optional_line (0 < gain) (disposal_account m ''GAIN_ON_DISPOSAL'') (\<lambda>a. ordinary_line a 0 gain m6) = Inr l6"
  using assms(1) unfolding disposal_lines_def Let_def assms(2) [symmetric] assms(5) [symmetric] unfolding assms(3,4) [symmetric]
  by (auto simp only: rbind_eq_Inr sum.inject)

lemma disposal_entries:
  assumes ok: "ledger_ok s" "ids_fit s" and m: "m = by_role (ACCOUNTS_BY_POSTING_ROLES roles s)"
    and req: "m ''FIXED_ASSET'' \<noteq> None" "m ''ACCUMULATED_DEPRECIATION'' \<noteq> None"
    and l: "disposal_lines m input memo (Fin F) (Fin C) (Fin A) (Fin P) = Inr ls" and ask: "list_all2 asks ls es"
    and cents: "is_cents F" "is_cents C" "is_cents A" "is_cents P"
    and role: "role = asset_settlementRole (jget input ''paymentMethod'') False"
  shows "es = entry_if (0 < A) (account_of m ''ACCUMULATED_DEPRECIATION'', A, 0) @ entry_if (0 < P) (account_of m role, P, 0) @
      entry_if (P < F + C - A) (account_of m ''LOSS_ON_DISPOSAL'', F + C - A - P, 0) @ entry_if (0 < F) (account_of m ''FIXED_ASSET'', 0, F) @
      entry_if (0 < C) (account_of m ''CPE_ASSET'', 0, C) @ entry_if (F + C - A < P) (account_of m ''GAIN_ON_DISPOSAL'', 0, P - (F + C - A)) \<and>
    (0 < P \<longrightarrow> m role \<noteq> None) \<and> (P < F + C - A \<longrightarrow> m ''LOSS_ON_DISPOSAL'' \<noteq> None) \<and> (0 < C \<longrightarrow> m ''CPE_ASSET'' \<noteq> None) \<and>
    (F + C - A < P \<longrightarrow> m ''GAIN_ON_DISPOSAL'' \<noteq> None)"
proof -
  define gain where "gain = (if F + C - A < P then P - (F + C - A) else 0)"
  define loss where "loss = (if P < F + C - A then F + C - A - P else 0)"
  have nb: "Fin (F + C - A) = roundMoney (roundMoney (Fin F + Fin C) - Fin A)"
    using cents by (simp add: round_money_cents is_cents_add is_cents_diff)
  have nc: "is_cents (F + C - A)" "is_cents (P - (F + C - A))" "is_cents (F + C - A - P)" using cents by (simp_all add: is_cents_add is_cents_diff)
  then have gc: "is_cents gain" "is_cents loss" by (simp_all add: gain_def loss_def)
  have gl: "Fin gain = (if Fin (F + C - A) < Fin P then roundMoney (Fin P - Fin (F + C - A)) else 0)"
    "Fin loss = (if Fin P < Fin (F + C - A) then roundMoney (Fin (F + C - A) - Fin P) else 0)"
    using nc by (simp_all add: gain_def loss_def round_money_cents)
  let ?till = "if role = ''AP_CONTROL'' then throw 400 ''Disposal proceeds must be received by cash or bank, not on credit.'' else disposal_account m role"
  from disposal_lines_run [OF l nb gl role] obtain l1 l2 l3 l4 l5 l6 m1 m2 m3 m4 m5 m6 where ls: "ls = l1 @ l2 @ l3 @ l4 @ l5 @ l6"
    and o: "optional_line (0 < Fin A) (Inr (the (m ''ACCUMULATED_DEPRECIATION''))) (\<lambda>a. ordinary_line a (Fin A) 0 m1) = Inr l1"
      "optional_line (0 < Fin P) ?till (\<lambda>a. ordinary_line a (Fin P) 0 m2) = Inr l2"
      "optional_line (0 < Fin loss) (disposal_account m ''LOSS_ON_DISPOSAL'') (\<lambda>a. ordinary_line a (Fin loss) 0 m3) = Inr l3"
      "optional_line (0 < Fin F) (Inr (the (m ''FIXED_ASSET''))) (\<lambda>a. ordinary_line a 0 (Fin F) m4) = Inr l4"
      "optional_line (0 < Fin C) (disposal_account m ''CPE_ASSET'') (\<lambda>a. ordinary_line a 0 (Fin C) m5) = Inr l5"
      "optional_line (0 < Fin gain) (disposal_account m ''GAIN_ON_DISPOSAL'') (\<lambda>a. ordinary_line a 0 (Fin gain) m6) = Inr l6" .
  have mem: "m r = Some a \<Longrightarrow> a \<in> set (lg_accounts s)" for r a using default_account(1) [OF m, of r] by simp
  have mem2: "disposal_account m r = Inr a \<Longrightarrow> a \<in> set (lg_accounts s)" for r a using disposal_account_id mem by blast
  have till: "?till = Inr a \<Longrightarrow> a \<in> set (lg_accounts s)" for a by (auto simp: throw_def split: if_splits intro: mem2)
  from ask obtain e1 e2 e3 e4 e5 e6 where es: "es = e1 @ e2 @ e3 @ e4 @ e5 @ e6" and a: "list_all2 asks l1 e1" "list_all2 asks l2 e2" "list_all2 asks l3 e3"
    "list_all2 asks l4 e4" "list_all2 asks l5 e5" "list_all2 asks l6 e6" by (auto simp: ls list_all2_append1)
  have fixed: "Inr (the (m r)) = (Inr a :: gl_account res) \<Longrightarrow> a \<in> set (lg_accounts s)" if "m r \<noteq> None" for r a using that mem by auto
  have id: "(case disposal_account m r of Inr a \<Rightarrow> ga_id a | Inl e \<Rightarrow> []) = account_of m r" for r
    by (cases "m r") (simp_all add: disposal_account_def need_account_def account_of_def throw_def)
  have some: "(\<exists>a. disposal_account m r = Inr a) \<Longrightarrow> m r \<noteq> None" for r using disposal_account_id by fastforce
  have req_id: "ga_id (the (m r)) = account_of m r" if "m r \<noteq> None" for r using that by (auto simp: account_of_def)
  have "e1 = entry_if (0 < A) (account_of m ''ACCUMULATED_DEPRECIATION'', A, 0)" "e4 = entry_if (0 < F) (account_of m ''FIXED_ASSET'', 0, F)"
    using optional_debit [OF ok o(1) a(1) fixed [OF req(2)] cents(3)] optional_credit [OF ok o(4) a(4) fixed [OF req(1)] cents(1)]
    by (simp_all add: req_id [OF req(1)] req_id [OF req(2)])
  moreover have "e2 = entry_if (0 < P) (account_of m role, P, 0) \<and> (0 < P \<longrightarrow> m role \<noteq> None)"
  proof (cases "role = ''AP_CONTROL''")
    case True
    then show ?thesis using optional_debit [OF ok o(2) a(2) till cents(4)] by (auto simp: entry_if_def throw_def)
  next
    case False
    then show ?thesis using optional_debit [OF ok o(2) a(2) till cents(4)] some [of role] by (simp add: id)
  qed
  moreover have "e3 = entry_if (0 < loss) (account_of m ''LOSS_ON_DISPOSAL'', loss, 0) \<and> (0 < loss \<longrightarrow> m ''LOSS_ON_DISPOSAL'' \<noteq> None)"
    "e5 = entry_if (0 < C) (account_of m ''CPE_ASSET'', 0, C) \<and> (0 < C \<longrightarrow> m ''CPE_ASSET'' \<noteq> None)"
    "e6 = entry_if (0 < gain) (account_of m ''GAIN_ON_DISPOSAL'', 0, gain) \<and> (0 < gain \<longrightarrow> m ''GAIN_ON_DISPOSAL'' \<noteq> None)"
    using optional_debit [OF ok o(3) a(3) mem2 [of "''LOSS_ON_DISPOSAL''"] gc(2)] optional_credit [OF ok o(5) a(5) mem2 [of "''CPE_ASSET''"] cents(2)]
      optional_credit [OF ok o(6) a(6) mem2 [of "''GAIN_ON_DISPOSAL''"] gc(1)] some
    unfolding id by blast+
  moreover have "entry_if (0 < loss) (account_of m ''LOSS_ON_DISPOSAL'', loss, 0) = entry_if (P < F + C - A) (account_of m ''LOSS_ON_DISPOSAL'', F + C - A - P, 0)"
    "entry_if (0 < gain) (account_of m ''GAIN_ON_DISPOSAL'', 0, gain) = entry_if (F + C - A < P) (account_of m ''GAIN_ON_DISPOSAL'', 0, P - (F + C - A))"
    "0 < loss \<longleftrightarrow> P < F + C - A" "0 < gain \<longleftrightarrow> F + C - A < P"
    by (auto simp: gain_def loss_def entry_if_def)
  ultimately show ?thesis unfolding es by simp
qed

section \<open>The value an asset carries\<close>

lemma posted_value_Fin: "is_cents n \<Longrightarrow> posted_value n = Fin (max 0 n)"
proof -
  assume "is_cents n"
  then have "is_cents (max 0 n)" by (simp add: max_def)
  then show ?thesis by (simp add: posted_value_def num0_def round_money_cents)
qed

lemma source_net_cents:
  assumes "ledger_ok s"
  shows "is_cents (JOURNAL_SOURCE_ACCOUNT_NET asset as s)" and "is_cents (ASSET_DEPRECIATION_POSTED key a s)"
proof -
  have "is_cents (gl_debit l) \<and> is_cents (gl_credit l)" if "l \<in> set (source_lines P s)" for P l
    using that assms by (auto simp: source_lines_def ledger_ok_def ledger_inv_def lines_inv_def one_sided_def)
  then show "is_cents (JOURNAL_SOURCE_ACCOUNT_NET asset as s)" "is_cents (ASSET_DEPRECIATION_POSTED key a s)"
    unfolding JOURNAL_SOURCE_ACCOUNT_NET_def ASSET_DEPRECIATION_POSTED_def by (fastforce intro!: is_cents_sum_list is_cents_diff)+
qed

lemma source_net_posting:
  assumes post: "postJournal input s = Inr (r, s')" and ok: "ledger_ok s" and src: "text_null (jget input ''sourceId'') 100 = Some asset"
  shows "JOURNAL_SOURCE_ACCOUNT_NET asset [a] s' = JOURNAL_SOURCE_ACCOUNT_NET asset [a] s + net_on a (entries r s')"
proof -
  from post obtain date j jls ls es where p: "posting s s' date j jls ls es" and r: "pj_id r = gj_id j"
    and sid: "gj_sourceId j = text_null (jget input ''sourceId'') 100" by (rule postJournal_posting)
  have inv: "ledger_inv s" using ok by (simp add: ledger_ok_def)
  have new: "JOURNAL_LINES (pj_id r) s' = ls" using posting_new_lines(1) [OF p inv] by (simp add: r)
  have "sum_list (map (\<lambda>l. gl_debit l - gl_credit l) (filter (\<lambda>l. gl_accountId l = a) ks)) = net_on a (map entry ks)" for ks
    by (induction ks) (auto simp: entry_def)
  then show ?thesis using sid src
    by (simp add: JOURNAL_SOURCE_ACCOUNT_NET_def posting_source_lines [OF p inv] entries_def new)
qed

lemma disposal_run:
  assumes "postFixedAssetDisposalJournal input s = Inr (r, s')"
  obtains j m fixed cpe ls memo where "r = Some j" "JOURNAL_FIND_BY_SOURCE ''FIXED_ASSET_DISPOSAL'' (jget input ''assetId'') s = None"
    "m = by_role (ACCOUNTS_BY_POSTING_ROLES (remdups ([''FIXED_ASSET'', ''ACCUMULATED_DEPRECIATION''] @
        [''CPE_ASSET'', ''CASH'', ''BANK'', ''GAIN_ON_DISPOSAL'', ''LOSS_ON_DISPOSAL''])) s)"
    "m ''FIXED_ASSET'' \<noteq> None" "m ''ACCUMULATED_DEPRECIATION'' \<noteq> None"
    "fixed = posted_value (JOURNAL_SOURCE_ACCOUNT_NET (to_str (jget input ''assetId'')) [ga_id (the (m ''FIXED_ASSET''))] s)"
    "cpe = posted_value (case m ''CPE_ASSET'' of None \<Rightarrow> 0 | Some a \<Rightarrow> JOURNAL_SOURCE_ACCOUNT_NET (to_str (jget input ''assetId'')) [ga_id a] s)"
    "\<not> roundMoney (fixed + cpe) < half_paisa"
    "disposal_lines m input memo fixed cpe (jmin (posted_value (ASSET_DEPRECIATION_POSTED (to_str (jget input ''assetId'') @ '':'')
        (ga_id (the (m ''ACCUMULATED_DEPRECIATION''))) s)) (roundMoney (fixed + cpe))) (roundMoney (jmax 0 (num0 (jget input ''proceeds'')))) = Inr ls"
    "postJournal (document_journal (jget input ''dateAD'') (jget input ''branchId'') memo ''FIXED_ASSET_DISPOSAL'' (jget input ''assetId'')
        (jget input ''actor'') ls) s = Inr (j, s')"
  using assms unfolding postFixedAssetDisposalJournal_def Let_def loadAssetAccounts_eq
  by (auto simp: loadAssetAccounts_eq simp del: remdups_append not_less)

lemma disposal_refused:
  assumes post: "postJournal input s = Inr (r, s')" and ok: "ledger_ok s" and src: "text_null (jget input ''sourceId'') 100 = Some asset"
    and st: "text_or (jget input ''sourceType'') 30 ''MANUAL'' = ''FIXED_ASSET_DISPOSAL''" and nr: "reverses_document input s"
    and t: "ledger_steps s' t" and again: "jget again ''assetId'' = JStr asset"
  shows "\<exists>msg. postFixedAssetDisposalJournal again t = Inl (ApiError 409 msg)"
proof -
  from post obtain date j jls ls es where p: "posting s s' date j jls ls es" and jt: "gj_sourceType j = text_or (jget input ''sourceType'') 30 ''MANUAL''"
    and sid: "gj_sourceId j = text_null (jget input ''sourceId'') 100" by (rule postJournal_posting)
  have "ledger_ok s'" by (rule post_ok [OF post nr ok])
  from steps_history [OF t this] obtain js where "lg_journals t = lg_journals s' @ js" by blast
  then have "j \<in> set (lg_journals t)" by (simp add: posting_fields [OF p])
  then have "JOURNAL_FIND_BY_SOURCE ''FIXED_ASSET_DISPOSAL'' (JStr asset) t \<noteq> None"
    using jt sid src st by (auto simp: JOURNAL_FIND_BY_SOURCE_def find_None_iff)
  then show ?thesis by (auto simp: postFixedAssetDisposalJournal_def Let_def tx_run again)
qed


definition shop_capitalise :: jsval where
  "shop_capitalise = JObj [(''dateAD'', JStr ''2024-08-01''), (''branchId'', JStr ''b1''), (''assetId'', JStr ''fa1''), (''tagNumber'', JStr ''FA1''),
     (''cost'', JNum (Fin 100)), (''paymentMethod'', JStr ''CASH'')]"

definition shop_dispose :: jsval where
  "shop_dispose = JObj [(''dateAD'', JStr ''2024-08-01''), (''branchId'', JStr ''b1''), (''assetId'', JStr ''fa1''), (''tagNumber'', JStr ''FA1''),
     (''proceeds'', JNum (Fin 113)), (''paymentMethod'', JStr ''CASH'')]"

lemma shop_asset_load:
  assumes "stocked n s" and "\<forall>r \<in> set required. by_role shop_accounts r \<noteq> None"
  shows "loadAssetAccounts required optional s = Inr (by_role (ACCOUNTS_BY_POSTING_ROLES (remdups (required @ optional)) s), s)"
  using assms shop_roles [OF assms(1), of _ "remdups (required @ optional)"] by (auto simp: loadAssetAccounts_eq)

lemma shop_settles: "asset_settlementRole (JStr ''CASH'') False = ''CASH''"
  by code_simp

lemma shop_capitalises:
  "\<exists>r s' h. postFixedAssetAcquisitionJournal shop_capitalise shop = Inr (Some r, s') \<and> stocked 6 s' \<and> lg_journals s' = [h] \<and>
    gj_sourceType h = ''FIXED_ASSET_ACQUISITION'' \<and> JOURNAL_SOURCE_ACCOUNT_NET ''fa1'' [''1500''] s' = 100"
proof -
  let ?memo = "''Fixed asset FA1 capitalised -- settled directly''"
  let ?m = "by_role (ACCOUNTS_BY_POSTING_ROLES [''FIXED_ASSET'', ''CASH''] shop)"
  have roles: "?m r = by_role shop_accounts r" if "r \<in> set [''FIXED_ASSET'', ''CASH'']" for r using shop_roles [OF stocked_shop that] .
  let ?raws = "[ordinary_line (shop_account ''1500'' ''A'' ''FIXED_ASSET'' ''NONE'') (Fin 100) (Fin 0) ?memo,
    ordinary_line (shop_account ''1000'' ''A'' ''CASH'' ''NONE'') (Fin 0) (Fin 100) ?memo]"
  let ?in = "document_journal (JStr ''2024-08-01'') (JStr ''b1'') ?memo ''FIXED_ASSET_ACQUISITION'' (JStr ''fa1'') JUndef ?raws"
  have raws: "list_all2 (accepted shop) ?raws [(shop_account ''1500'' ''A'' ''FIXED_ASSET'' ''NONE'', 100, 0), (shop_account ''1000'' ''A'' ''CASH'' ''NONE'', 0, 100)]"
    by (simp add: accepted_plain shop_cents shop_has)
  have none: "JOURNAL_FIND_BY_SOURCE ''FIXED_ASSET_ACQUISITION'' (JStr ''fa1'') shop = None" by (simp add: JOURNAL_FIND_BY_SOURCE_def shop_masters)
  have f: "truthy (jget shop_capitalise ''purchaseInvoiceId'') = False" "truthy (js_or (jget shop_capitalise ''supplierName'') (jget shop_capitalise ''supplierId'')) = False"
    by code_simp+
  have lines: "acquisition_lines shop_capitalise (Fin 100) shop = Inr ((?memo, ?raws), shop)"
    using roles f shop_settles shop_asset_load [OF stocked_shop, of "[''FIXED_ASSET'', ''CASH'']" "[]"]
    by (simp add: acquisition_lines_def Let_def tx_run shop_by_role) (simp add: shop_capitalise_def shop_by_role)
  have run: "postFixedAssetAcquisitionJournal shop_capitalise shop = post_some ?in shop"
    using lines none by (simp add: postFixedAssetAcquisitionJournal_def Let_def tx_run) (simp add: shop_capitalise_def shop_money half_paisa_def num0_def tx_run)
  have "text_or (JStr ''FIXED_ASSET_ACQUISITION'') 30 ''MANUAL'' = ''FIXED_ASSET_ACQUISITION''" by (simp add: text_eval)
  from shop_document [OF stocked_shop _ raws _ _ _ _ this, of "''b1''" ?memo "JStr ''fa1''" JUndef] obtain r s' h where
    p: "postJournal ?in shop = Inr (r, s')" and s': "stocked 6 s'" "lg_journals s' = [h]" "gj_sourceType h = ''FIXED_ASSET_ACQUISITION''"
    by (auto simp: shop_masters)
  have ok: "ledger_ok shop" "ids_fit shop" using stocked_ok [OF stocked_shop] by simp_all
  have "entries r s' = [(''1500'', 100, 0), (''1000'', 0, 100)]"
    using post_entries [OF p ok(1)] by (simp add: list_all2_Cons1 asks_line text_eval shop_money)
  moreover have "JOURNAL_SOURCE_ACCOUNT_NET ''fa1'' [''1500''] shop = 0" by (simp add: JOURNAL_SOURCE_ACCOUNT_NET_def source_lines_def shop_masters)
  ultimately have "JOURNAL_SOURCE_ACCOUNT_NET ''fa1'' [''1500''] s' = 100"
    using source_net_posting [OF p ok(1), of "''fa1''" "''1500''"] by (simp add: text_eval)
  with run p s' show ?thesis by auto
qed

lemma shop_disposes:
  assumes st: "stocked n s" and n: "n < 1000" and h: "lg_journals s = [h]" "gj_sourceType h = ''FIXED_ASSET_ACQUISITION''"
    and net: "JOURNAL_SOURCE_ACCOUNT_NET ''fa1'' [''1500''] s = 100"
  shows "\<exists>r s'. postFixedAssetDisposalJournal shop_dispose s = Inr (Some r, s')"
proof -
  let ?rs = "[''FIXED_ASSET'', ''ACCUMULATED_DEPRECIATION'', ''CPE_ASSET'', ''CASH'', ''BANK'', ''GAIN_ON_DISPOSAL'', ''LOSS_ON_DISPOSAL'']"
  let ?m = "by_role (ACCOUNTS_BY_POSTING_ROLES ?rs s)" and ?memo = "''Disposal of fixed asset FA1''"
  have roles: "?m r = by_role shop_accounts r" if "r \<in> set ?rs" for r using shop_roles [OF st that] .
  have load: "loadAssetAccounts [''FIXED_ASSET'', ''ACCUMULATED_DEPRECIATION''] [''CPE_ASSET'', ''CASH'', ''BANK'', ''GAIN_ON_DISPOSAL'', ''LOSS_ON_DISPOSAL''] s = Inr (?m, s)"
    using shop_asset_load [OF st, of "[''FIXED_ASSET'', ''ACCUMULATED_DEPRECIATION'']" "[''CPE_ASSET'', ''CASH'', ''BANK'', ''GAIN_ON_DISPOSAL'', ''LOSS_ON_DISPOSAL'']"]
    by (simp add: shop_by_role)
  let ?raws = "[ordinary_line (shop_account ''1000'' ''A'' ''CASH'' ''NONE'') (Fin 113) (Fin 0) (?memo @ '' -- proceeds received''),
    ordinary_line (shop_account ''1500'' ''A'' ''FIXED_ASSET'' ''NONE'') (Fin 0) (Fin 100) (?memo @ '' -- cost cleared''),
    ordinary_line (shop_account ''4900'' ''I'' ''GAIN_ON_DISPOSAL'' ''NONE'') (Fin 0) (Fin 13) (?memo @ '' -- gain on disposal'')]"
  have raws: "list_all2 (accepted shop) ?raws [(shop_account ''1000'' ''A'' ''CASH'' ''NONE'', 113, 0), (shop_account ''1500'' ''A'' ''FIXED_ASSET'' ''NONE'', 0, 100),
    (shop_account ''4900'' ''I'' ''GAIN_ON_DISPOSAL'' ''NONE'', 0, 13)]"
    by (simp add: accepted_plain shop_cents shop_has)
  have none: "JOURNAL_FIND_BY_SOURCE ''FIXED_ASSET_DISPOSAL'' (JStr ''fa1'') s = None" by (simp add: JOURNAL_FIND_BY_SOURCE_def h)
  have dep: "ASSET_DEPRECIATION_POSTED k a s = 0" for k a
    by (simp add: ASSET_DEPRECIATION_POSTED_def source_lines_def h)
  have posted: "posted_value 100 = Fin 100" "posted_value 0 = Fin 0" by code_simp+
  have lines: "disposal_lines ?m shop_dispose ?memo (Fin 100) (Fin 0) (Fin 0) (Fin 113) = Inr ?raws"
    using roles shop_settles
    by (simp add: disposal_lines_def Let_def shop_money shop_zero optional_line_def disposal_account_def need_account_def shop_by_role)
      (simp add: shop_dispose_def shop_by_role)
  have pm: "jget shop_dispose ''assetId'' = JStr ''fa1''" "jget shop_dispose ''tagNumber'' = JStr ''FA1''" "jget shop_dispose ''proceeds'' = JNum (Fin 113)"
    "jget shop_dispose ''dateAD'' = JStr ''2024-08-01''" "jget shop_dispose ''branchId'' = JStr ''b1''" "jget shop_dispose ''actor'' = JUndef"
    by (simp_all add: shop_dispose_def)
  have P: "roundMoney (jmax 0 (num0 (JNum (Fin 113)))) = Fin 113" by code_simp
  have run: "postFixedAssetDisposalJournal shop_dispose s = post_some (document_journal (JStr ''2024-08-01'') (JStr ''b1'') ?memo
      ''FIXED_ASSET_DISPOSAL'' (JStr ''fa1'') JUndef ?raws) s"
    using lines roles unfolding postFixedAssetDisposalJournal_def Let_def pm P
    by (simp add: tx_run none load shop_by_role net dep posted shop_money half_paisa_def)
  have "text_or (JStr ''FIXED_ASSET_DISPOSAL'') 30 ''MANUAL'' = ''FIXED_ASSET_DISPOSAL''" by (simp add: text_eval)
  from shop_document [OF st _ raws _ _ _ _ this, of "''b1''" ?memo "JStr ''fa1''" JUndef] n run show ?thesis by auto
qed

end
