(* ===== verification/ClosingClaims.thy ===== *)
theory ClosingClaims
  imports AssetClaims
begin

text \<open>
  The year's two boundary operations (\<open>accountingClosing.service.ts\<close>): opening balances are posted once per branch, and the
  year-end close leaves no income or expense balance behind. The witnesses open the shop's books and close its year after a sale.
\<close>

section \<open>Opening balances\<close>

lemma opening_source: "postOpeningBalances input s = Inr (r, s') \<Longrightarrow>
  text_val (JStr (text_val (jget input ''branchId'') 50)) 50 = text_val (jget input ''branchId'') 50 \<Longrightarrow>
  OPENING_BALANCE_EXISTS (text_val (jget input ''branchId'') 50) s'"
proof -
  assume "postOpeningBalances input s = Inr (r, s')" and clean: "text_val (JStr (text_val (jget input ''branchId'') 50)) 50 = text_val (jget input ''branchId'') 50"
  from this(1) obtain date memo where post: "postJournal (closing_journal date (text_val (jget input ''branchId'') 50) ''OPENING_BALANCE''
      (text_val (jget input ''branchId'') 50) memo (arr_or_empty (jget input ''lines'')) (jget input ''actor'')) s = Inr (or_posted r, s')"
    by (auto simp: postOpeningBalances_def Let_def dest!: opening_date_frame)
  then obtain d j jls ls es where p: "posting s s' d j jls ls es"
    and b: "gj_branchId j = text_val (JStr (text_val (jget input ''branchId'') 50)) 50"
    and st: "gj_sourceType j = text_or (JStr ''OPENING_BALANCE'') 30 ''MANUAL''"
    by (rule postJournal_posting) (simp add: closing_journal_def)
  have "text_or (JStr ''OPENING_BALANCE'') 30 ''MANUAL'' = ''OPENING_BALANCE''" by (simp add: text_eval)
  moreover have "j \<in> set (lg_journals s')" by (simp add: posting_fields [OF p])
  ultimately show ?thesis using b st clean by (auto simp: OPENING_BALANCE_EXISTS_def list_ex_iff)
qed

lemma opening_kept: "lg_journals s' = lg_journals s @ js \<Longrightarrow> OPENING_BALANCE_EXISTS b s \<Longrightarrow> OPENING_BALANCE_EXISTS b s'"
  by (simp add: OPENING_BALANCE_EXISTS_def)

lemma opening_unique:
  assumes "postJournal input s = Inr (r, s')" and "text_or (jget input ''sourceType'') 30 ''MANUAL'' = ''OPENING_BALANCE''"
  shows "\<not> OPENING_BALANCE_EXISTS (text_val (jget input ''branchId'') 50) s"
proof -
  from assms(1) obtain date p s1 j n s2 s3 where per: "ensureOpenPeriod date s = Inr (p, s1)"
    and h: "journal_header input date (text_val (jget input ''branchId'') 50) p n (Suc (lg_seq s1)) = Inr j"
    and ins: "JOURNAL_INSERT j s2 = Inr ((), s3)" and js: "lg_journals s2 = lg_journals s1"
    unfolding postJournal_def Let_def by (clarsimp simp del: One_nat_def simp: NEXT_JOURNAL_SEQUENCE_def randomUUID_def)
  from ensureOpenPeriod_ok [OF per] obtain ps v where "s1 = s\<lparr>lg_periods := lg_periods s @ ps, lg_uuid := v\<rparr>" by (auto simp: period_effect_def)
  then have "lg_journals s1 = lg_journals s" by simp
  with ins js journal_header_ok [OF h] assms(2) show ?thesis
    by (auto simp: JOURNAL_INSERT_def OPENING_BALANCE_EXISTS_def split: if_splits)
qed

lemma opening_branch: "ledger_ok s \<Longrightarrow> text_val v 50 \<in> set (lg_branches s) \<Longrightarrow> text_val (JStr (text_val v 50)) 50 = text_val v 50"
  using text_val_length [of v 50] by (intro text_val_clean) (auto simp: ledger_ok_def clean_inv_def)

text \<open>C32. Opening balances are posted at most once per branch. After a committed posting, whatever happens to the ledger in between,
every further attempt for that branch, with any lines, is refused with 409, and no journal that is labelled an opening balance of
that branch can be posted by going around the service.\<close>

theorem opening_once:
  assumes "ledger_reach s" and "postOpeningBalances input s = Inr (r, s1)" and "ledger_steps s1 s2"
    and "b = text_val (jget input ''branchId'') 50" and "b \<in> set (lg_branches s)"
  shows "(\<forall>again. text_val (jget again ''branchId'') 50 = b \<longrightarrow> arr_or_empty (jget again ''lines'') \<noteq> [] \<longrightarrow>
      (\<exists>msg. postOpeningBalances again s2 = Inl (ApiError 409 msg))) \<and>
    (\<forall>journal. text_or (jget journal ''sourceType'') 30 ''MANUAL'' = ''OPENING_BALANCE'' \<longrightarrow> text_val (jget journal ''branchId'') 50 = b \<longrightarrow>
      (\<exists>e. postJournal journal s2 = Inl e))"
proof -
  have ok: "ledger_ok s" using assms(1) by (rule reach_ok)
  have ok1: "ledger_ok s1" by (rule opening_balances.keeps_ok [OF ok assms(2)])
  have clean: "text_val (JStr b) 50 = b" using opening_branch [OF ok] assms(4,5) by simp
  have "OPENING_BALANCE_EXISTS b s1" using opening_source [OF assms(2)] clean assms(4) by simp
  with steps_history [OF assms(3) ok1] have ex: "OPENING_BALANCE_EXISTS b s2" by (blast intro: opening_kept)
  have "b \<noteq> []" using assms(2,4) by (auto simp: postOpeningBalances_def Let_def)
  then have "\<exists>msg. postOpeningBalances again s2 = Inl (ApiError 409 msg)"
    if "text_val (jget again ''branchId'') 50 = b" "arr_or_empty (jget again ''lines'') \<noteq> []" for again
    using that ex by (simp add: postOpeningBalances_def Let_def tx_run)
  moreover have "\<exists>e. postJournal journal s2 = Inl e"
    if j: "text_or (jget journal ''sourceType'') 30 ''MANUAL'' = ''OPENING_BALANCE''" "text_val (jget journal ''branchId'') 50 = b" for journal
  proof (cases "postJournal journal s2")
    case (Inr x)
    obtain p s3 where "x = (p, s3)" by (cases x) auto
    with Inr opening_unique [OF _ j(1), of s2 p s3] j(2) ex show ?thesis by simp
  qed simp
  ultimately show ?thesis by blast
qed

definition shop_opening :: jsval where
  "shop_opening = JObj [(''branchId'', JStr ''b1''), (''lines'', JArr
     [ordinary_line (shop_account ''1000'' ''A'' ''CASH'' ''NONE'') (Fin 100) (Fin 0) ''opening'',
      ordinary_line (shop_account ''3000'' ''E'' ''RETAINED_EARNINGS'' ''NONE'') (Fin 0) (Fin 100) ''opening''])]"

lemma shop_earliest: "EARLIEST_OPEN_PERIOD shop = Some demo_period"
proof -
  have "period_le demo_period shop_period" by code_simp
  then show ?thesis
    by (simp add: EARLIEST_OPEN_PERIOD_def shop_masters demo_fy_def demo_period_def shop_period_def new_period_def order_by_def first_row_def)
qed

lemma shop_opens: "\<exists>r s'. postOpeningBalances shop_opening shop = Inr (r, s') \<and> stocked 6 s'"
proof -
  let ?raws = "[ordinary_line (shop_account ''1000'' ''A'' ''CASH'' ''NONE'') (Fin 100) (Fin 0) ''opening'',
      ordinary_line (shop_account ''3000'' ''E'' ''RETAINED_EARNINGS'' ''NONE'') (Fin 0) (Fin 100) ''opening'']"
  let ?in = "closing_journal ''2024-08-01'' ''b1'' ''OPENING_BALANCE'' ''b1'' ''Opening balances for branch b1'' ?raws JUndef"
  have raws: "list_all2 (accepted shop) ?raws [(shop_account ''1000'' ''A'' ''CASH'' ''NONE'', 100, 0), (shop_account ''3000'' ''E'' ''RETAINED_EARNINGS'' ''NONE'', 0, 100)]"
    by (simp add: accepted_plain shop_cents shop_has)
  have none: "\<not> OPENING_BALANCE_EXISTS b shop" for b by (simp add: OPENING_BALANCE_EXISTS_def shop_masters)
  have "\<exists>r s' h. postJournal ?in shop = Inr (r, s') \<and> stocked (1 + 1 + 2 * 2) s' \<and> pj_id r = gj_id h \<and> lg_journals s' = lg_journals shop @ [h] \<and>
    gj_sourceType h = text_or (jget ?in ''sourceType'') 30 ''MANUAL'' \<and> gj_sourceId h = text_null (jget ?in ''sourceId'') 100 \<and>
    gj_branchId h = ''b1'' \<and> gj_status h = ''POSTED''"
    using stocked_post [OF stocked_shop _ raws, of ?in "''b1''"] none by (simp add: closing_journal_def text_null_def text_val_def reverses_document_def)
  then obtain r s' where p: "postJournal ?in shop = Inr (r, s')" "stocked 6 s'" by auto
  have d: "opening_date shop = Inr ((''2024-08-01'', ''2024-08''), shop)"
    by (simp add: opening_date_def tx_run shop_earliest) (simp add: demo_period_def new_period_def)
  have i: "text_val (jget shop_opening ''branchId'') 50 = ''b1''" "jget shop_opening ''lines'' = JArr ?raws" "jget shop_opening ''actor'' = JUndef"
    by (simp_all add: shop_opening_def text_eval)
  show ?thesis using p unfolding postOpeningBalances_def Let_def i by (simp add: tx_run d none)
qed

theorem opening_once_witness:
  "\<exists>r s1 msg. postOpeningBalances shop_opening shop = Inr (r, s1) \<and> postOpeningBalances shop_opening s1 = Inl (ApiError 409 msg)"
proof -
  from shop_opens obtain r s1 where run: "postOpeningBalances shop_opening shop = Inr (r, s1)" by blast
  have "text_val (jget shop_opening ''branchId'') 50 = ''b1''" "arr_or_empty (jget shop_opening ''lines'') \<noteq> []"
    by (simp_all add: shop_opening_def text_eval)
  with opening_once [OF ledger_reach.start [OF shop_init] run ledger_steps.none refl] run show ?thesis by (auto simp: shop_masters)
qed

section \<open>The year-end close\<close>

text \<open>The balance of any account in a branch on a day: its lines in posted journals dated no later.\<close>

definition posted_net :: "string \<Rightarrow> ledger \<Rightarrow> string \<Rightarrow> string \<Rightarrow> rat" where
  "posted_net day s b aid = sum_list (map (\<lambda>l. gl_debit l - gl_credit l) (filter (\<lambda>l. gl_accountId l = aid \<and> gl_branchId l = b \<and>
     list_ex (\<lambda>j. gj_id j = gl_journalId l \<and> gj_status j = ''POSTED'' \<and> str_le (gj_journalDateAD j) day) (lg_journals s)) (lg_lines s)))"

lemma pnl_net_lines:
  assumes "pnl_account s aid"
  shows "pnl_net day s b aid = posted_net day s b aid"
  using assms unfolding pnl_net_def posted_net_def pnl_lines_def source_lines_def filter_filter
  by (intro arg_cong [where f = "\<lambda>ls. sum_list (map _ ls)"] filter_cong) auto


lemma close_branch_masters: "close_branch fy fid retained actor br s = Inr (k, s') \<Longrightarrow> lg_accounts s' = lg_accounts s \<and> lg_groups s' = lg_groups s"
  by (cases br, simp, erule close_branch_run) (auto elim!: postJournal_posting simp: posting_fields)

lemma close_branches_masters:
  "close_branches fy fid retained actor brs n s = Inr (k, s') \<Longrightarrow> lg_accounts s' = lg_accounts s \<and> lg_groups s' = lg_groups s"
  by (induction brs arbitrary: n s) (auto dest!: close_branch_masters)

lemma closeFiscalYear_masters: "closeFiscalYear today input s = Inr (r, s') \<Longrightarrow> lg_accounts s' = lg_accounts s \<and> lg_groups s' = lg_groups s"
  by (erule closeFiscalYear_run) (auto dest!: close_branches_masters FY_CLOSE_frame)

text \<open>Closing the year after the shop's sale.\<close>

definition shop_row :: "string \<Rightarrow> string \<Rightarrow> string \<Rightarrow> rat \<Rightarrow> pnl_row" where
  "shop_row c g r x = \<lparr>pr_branchId = ''b1'', pr_account = shop_account c g r ''NONE'', pr_signedBalance = x\<rparr>"

definition shop_close :: jsval where
  "shop_close = JObj [(''fiscalYearId'', JStr ''fy'')]"

lemma shop_find: "same_masters shop s \<Longrightarrow> shop_account c g r ty \<in> set shop_accounts \<Longrightarrow> ACCOUNT_BY_ID c s = Some (shop_account c g r ty)"
proof -
  assume "same_masters shop s" and a: "shop_account c g r ty \<in> set shop_accounts"
  then have "lg_accounts s = shop_accounts" by (simp add: same_masters_def shop_masters)
  moreover have "distinct (map ga_id shop_accounts)" by (simp add: shop_accounts_def)
  ultimately show ?thesis using find_unique [of shop_accounts "shop_account c g r ty"] a by (simp add: ACCOUNT_BY_ID_def)
qed

lemma shop_type:
  assumes "same_masters shop s"
  shows "account_type s (shop_account c ''A'' r ty) = ''ASSET''" "account_type s (shop_account c ''L'' r ty) = ''LIABILITY''"
    "account_type s (shop_account c ''E'' r ty) = ''EQUITY''" "account_type s (shop_account c ''I'' r ty) = ''INCOME''"
    "account_type s (shop_account c ''X'' r ty) = ''EXPENSE''"
  using assms by (simp_all add: account_type_def ACCOUNT_GROUP_BY_ID_def same_masters_def shop_masters shop_group_def shop_account_def)

lemma shop_sale_entries:
  assumes run: "postSalesInvoiceLedger shop_invoice shop = Inr (Some r, s)"
  shows "entries r s = [(''1200'', 113, 0), (''4000'', 0, 100), (''2100'', 0, 13), (''5000'', 60, 0), (''1300'', 0, 60)]"
proof -
  have i: "money (jget (jget shop_invoice ''invoice'') ''grandTotal'') = Fin 113" "money (jget (jget shop_invoice ''invoice'') ''vatAmount'') = Fin 13"
    "roundMoney (cogs_sum (arr_or_empty (jget shop_invoice ''cogs''))) = Fin 60" by code_simp+
  have "0 < money (jget (jget shop_invoice ''invoice'') ''grandTotal'')" by (simp add: i)
  from sales_invoice_detail [OF _ _ run this i(3)] stocked_ok [OF stocked_shop] obtain m where
    m: "m = by_role (ACCOUNTS_BY_POSTING_ROLES SALES_ROLES shop)"
    and e: "entries r s = [(ga_id (the (m ''AR_CONTROL'')), 113, 0), (ga_id (the (m ''SALES'')), 0, 100), (ga_id (the (m ''TAX_OUTPUT'')), 0, 13),
      (ga_id (the (m ''COGS'')), 60, 0), (ga_id (the (m ''INVENTORY'')), 0, 60)]" by (auto simp: i)
  have "m r = by_role shop_accounts r" if "r \<in> set SALES_ROLES" for r using shop_roles [OF stocked_shop that] by (simp add: m)
  then show ?thesis by (simp add: e SALES_ROLES_def shop_by_role)
qed

lemma shop_sold_rows:
  assumes run: "postSalesInvoiceLedger shop_invoice shop = Inr (Some r, s)" and st: "stocked 12 s"
  shows "FISCAL_YEAR_PNL_BALANCE_ROWS ''2025-07-15'' s = [shop_row ''4000'' ''I'' ''SALES'' (- 100), shop_row ''5000'' ''X'' ''COGS'' 60]"
proof -
  from run obtain memo m where post: "postJournal (document_journal (jget (jget shop_invoice ''invoice'') ''invoiceDateAD'') (jget (jget shop_invoice ''invoice'') ''branchId'') memo ''SALES_INVOICE''
       (jget (jget shop_invoice ''invoice'') ''id'') (jget shop_invoice ''actor'')
       (sales_lines (\<lambda>r. the (m r)) (jget shop_invoice ''invoice'') memo (money (jget (jget shop_invoice ''invoice'') ''grandTotal''))
         (roundMoney (money (jget (jget shop_invoice ''invoice'') ''grandTotal'') - money (jget (jget shop_invoice ''invoice'') ''vatAmount'')))
         (money (jget (jget shop_invoice ''invoice'') ''vatAmount'')) (roundMoney (cogs_sum (arr_or_empty (jget shop_invoice ''cogs'')))))) shop = Inr (r, s)"
    by (rule sales_invoice_run)
  have ok: "ledger_ok shop" "ids_fit shop" using stocked_ok [OF stocked_shop] by simp_all
  from post obtain date j jls ls es where p: "posting shop s date j jls ls es" and r: "pj_id r = gj_id j" and d: "requireDate (JStr ''2024-08-01'') = Inr date"
    and b: "gj_branchId j = text_val (JStr ''b1'') 50"
    by (rule postJournal_posting) (simp add: shop_invoice_def)
  have lines: "lg_lines s = ls" "lg_journals s = [j]" using posting_fields [OF p] by (simp_all add: shop_masters)
  have jd: "gj_journalDateAD j = ''2024-08-01''" "gj_status j = ''POSTED''" using p d demo_date by (auto simp: posting_def)
  have w: "list_all2 (written (gj_id j) (gj_branchId j)) ls jls" using p by (simp add: posting_def)
  have lb: "\<forall>l \<in> set ls. gl_branchId l = ''b1'' \<and> gl_journalId l = gj_id j" using written_sums [OF w] b by (auto simp: text_eval)
  have "JOURNAL_LINES (pj_id r) s = ls" using posting_new_lines(1) [OF p] ok by (simp add: r ledger_ok_def)
  then have e: "map entry ls = [(''1200'', 113, 0), (''4000'', 0, 100), (''2100'', 0, 13), (''5000'', 60, 0), (''1300'', 0, 60)]"
    using shop_sale_entries [OF run] by (simp add: entries_def)
  then obtain l1 l2 l3 l4 l5 where ls: "ls = [l1, l2, l3, l4, l5]" and l: "entry l1 = (''1200'', 113, 0)" "entry l2 = (''4000'', 0, 100)"
    "entry l3 = (''2100'', 0, 13)" "entry l4 = (''5000'', 60, 0)" "entry l5 = (''1300'', 0, 60)"
    by (auto simp: map_eq_Cons_conv)
  have m: "same_masters shop s" using st by (simp add: stocked_def)
  have acc: "pnl_account s ''1200'' = False" "pnl_account s ''4000'' = True" "pnl_account s ''2100'' = False" "pnl_account s ''5000'' = True"
    "pnl_account s ''1300'' = False"
    by (simp_all add: pnl_account_def shop_find [OF m shop_has(2)] shop_find [OF m shop_has(3)] shop_find [OF m shop_has(7)]
        shop_find [OF m shop_has(11)] shop_find [OF m shop_has(15)] shop_type [OF m])
  have "str_le ''2024-08-01'' ''2025-07-15''" by code_simp
  then have pl: "pnl_lines ''2025-07-15'' s = [l2, l4]"
    using lb l acc by (simp add: pnl_lines_def source_lines_def lines ls jd entry_def)
  have br: "gl_branchId l2 = ''b1''" "gl_branchId l4 = ''b1''" using lb ls by auto
  have keys: "pnl_keys ''2025-07-15'' s = [(''b1'', ''4000''), (''b1'', ''5000'')]"
    using l br by (simp add: pnl_keys_def pl entry_def)
  have rows: "pnl_row_of ''2025-07-15'' s (''b1'', ''4000'') = Some (shop_row ''4000'' ''I'' ''SALES'' (- 100))"
    "pnl_row_of ''2025-07-15'' s (''b1'', ''5000'') = Some (shop_row ''5000'' ''X'' ''COGS'' 60)"
    using l br by (simp_all add: pnl_row_of_def shop_find [OF m shop_has(11)] shop_find [OF m shop_has(15)] pnl_net_def pl entry_def shop_row_def)
  have "pnl_le (shop_row ''4000'' ''I'' ''SALES'' (- 100)) (shop_row ''5000'' ''X'' ''COGS'' 60)"
  proof -
    have "str_le ''4000'' ''5000''" by code_simp
    then show ?thesis by (simp add: pnl_le_def shop_row_def) (simp add: shop_account_def)
  qed
  with rows show ?thesis unfolding pnl_rows_eq keys by (simp add: order_by_def List.map_filter_def)
qed

lemma shop_closes:
  assumes st: "stocked 12 s" and rows: "FISCAL_YEAR_PNL_BALANCE_ROWS ''2025-07-15'' s = [shop_row ''4000'' ''I'' ''SALES'' (- 100), shop_row ''5000'' ''X'' ''COGS'' 60]"
    and no: "\<not> YEAR_END_CLOSE_EXISTS ''fy'' s"
  shows "\<exists>r s'. closeFiscalYear ''2025-07-16'' shop_close s = Inr (r, s')"
proof -
  let ?rows = "[shop_row ''4000'' ''I'' ''SALES'' (- 100), shop_row ''5000'' ''X'' ''COGS'' 60]"
  let ?re = "shop_account ''3000'' ''E'' ''RETAINED_EARNINGS'' ''NONE''"
  have m: "same_masters shop s" using st by (simp add: stocked_def)
  have fy: "FISCAL_YEAR_CLOSE_LOCK ''fy'' s = Some demo_fy" using m by (simp add: FISCAL_YEAR_CLOSE_LOCK_def same_masters_def shop_masters demo_fy_def)
  have re: "retained_account ?rows s = Inr (Some ?re, s)"
  proof -
    have f: "ga_isActive (shop_account c g r ty)" "ga_postingRole (shop_account c g r ty) = Some r" for c g r ty by (simp_all add: shop_account_def)
    have "filter (\<lambda>a. ga_isActive a \<and> (case ga_postingRole a of None \<Rightarrow> False | Some r \<Rightarrow> r \<in> set [''RETAINED_EARNINGS''])) shop_accounts = [?re]"
      by (simp add: shop_accounts_def f)
    moreover have "lg_accounts s = shop_accounts" using m by (simp add: same_masters_def shop_masters)
    ultimately have "ACCOUNTS_BY_POSTING_ROLES [''RETAINED_EARNINGS''] s = [?re]" by (simp only: ACCOUNTS_BY_POSTING_ROLES_def)
    then show ?thesis by (simp add: retained_account_def tx_run first_row_def)
  qed
  have br: "by_branch ?rows = [(''b1'', ?rows)]" by (simp add: by_branch_def first_occurrences_def shop_row_def)
  let ?memo = "\<lambda>a. ''Year-end close 2081-82 -- '' @ ga_code a @ '' '' @ ga_name a"
  let ?sales = "shop_account ''4000'' ''I'' ''SALES'' ''NONE''" and ?cogs = "shop_account ''5000'' ''X'' ''COGS'' ''NONE''"
  let ?raws = "[ordinary_line ?sales (Fin 100) (Fin 0) (?memo ?sales), ordinary_line ?cogs (Fin 0) (Fin 60) (?memo ?cogs),
    ordinary_line ?re (Fin 0) (Fin 40) ''Year-end close 2081-82 -- retained earnings'']"
  have n40: "round_money 40 = 40" "is_cents 40" "round_money (- 100) = - 100" by (code_simp, simp add: is_cents_def, code_simp)
  have raws: "list_all2 (accepted shop) ?raws [(?sales, 100, 0), (?cogs, 0, 60), (?re, 0, 40)]"
    by (simp add: accepted_plain shop_cents shop_has n40)
  let ?in = "closing_journal ''2025-07-15'' ''b1'' ''YEAR_END_CLOSE'' ''fy'' ''Year-end close 2081-82 for branch b1'' ?raws JUndef"
  have "\<exists>r s' h. postJournal ?in s = Inr (r, s') \<and> stocked (12 + 1 + 2 * 3) s' \<and> pj_id r = gj_id h \<and> lg_journals s' = lg_journals s @ [h] \<and>
    gj_sourceType h = text_or (jget ?in ''sourceType'') 30 ''MANUAL'' \<and> gj_sourceId h = text_null (jget ?in ''sourceId'') 100 \<and>
    gj_branchId h = ''b1'' \<and> gj_status h = ''POSTED''"
    using stocked_post [OF st _ raws, of ?in "''b1''"] by (simp add: closing_journal_def text_eval reverses_document_def)
  then obtain r s1 where p: "postJournal ?in s = Inr (r, s1)" and s1: "stocked 19 s1" by auto
  have cl: "closing_lines ''2081-82'' ?rows ([], 0, 0) = ([ordinary_line ?sales (Fin 100) (Fin 0) (?memo ?sales), ordinary_line ?cogs (Fin 0) (Fin 60) (?memo ?cogs)], 100, 60)"
    by (simp add: shop_row_def Let_def n40 shop_money shop_zero)
  have cb: "close_branch demo_fy ''fy'' (Some ?re) JUndef (''b1'', ?rows) s = Inr (1, s1)"
  proof -
    have f: "List.find (\<lambda>r. \<not> ga_isActive (pr_account r)) ?rows = None" "List.find (\<lambda>r. ga_isControl (pr_account r)) ?rows = None"
      by (simp_all add: shop_row_def) (simp_all add: shop_account_def)
    have d: "fy_code demo_fy = ''2081-82''" "take 10 (fy_endDateAD demo_fy) = ''2025-07-15''" by (simp_all add: demo_fy_def)
    show ?thesis using p unfolding close_branch_def prod.case f option.case d cl by (simp add: retained_line_def n40 tx_run)
  qed
  have "\<not> str_le ''2025-07-16'' ''2025-07-15''" by code_simp
  then have "\<exists>c s'. FY_CLOSE ''2025-07-16'' ''fy'' s1 = Inr (Some c, s')"
    using s1 by (simp add: FY_CLOSE_def stocked_def same_masters_def shop_masters demo_fy_def)
  then obtain c s' where fc: "FY_CLOSE ''2025-07-16'' ''fy'' s1 = Inr (Some c, s')" by blast
  have d: "take 10 (fy_endDateAD demo_fy) = ''2025-07-15''" "\<not> fy_isClosed demo_fy" by (simp_all add: demo_fy_def)
  have i: "text_val (jget shop_close ''fiscalYearId'') 50 = ''fy''" "jget shop_close ''actor'' = JUndef" by (simp_all add: shop_close_def text_eval)
  show ?thesis
    unfolding closeFiscalYear_def Let_def i
    by (simp add: tx_run fy d no rows re br cb fc)
qed


end
