(* ===== verification/StatementClaims.thy ===== *)
theory StatementClaims
  imports StatementFacts ClosingClaims
begin

text \<open>
  The three statements drawn from the books of any reachable state: the trial balance and the balance sheet balance, the group
  subtotals add up to the totals, the controls agree with their subledgers, and profit and loss is what the balance sheet's
  current earnings gain over the period.
\<close>

section \<open>Trial balance\<close>

lemma account_columns:
  assumes "row_ok s r"
  shows "tc_openingDebit (ta_columns (tb_account_of r)) - tc_openingCredit (ta_columns (tb_account_of r)) = br_openingBalance r"
    "tc_periodDebit (ta_columns (tb_account_of r)) - tc_periodCredit (ta_columns (tb_account_of r)) = br_periodDebit r - br_periodCredit r"
    "tc_closingDebit (ta_columns (tb_account_of r)) - tc_closingCredit (ta_columns (tb_account_of r)) =
      br_openingBalance r + (br_periodDebit r - br_periodCredit r)"
  using assms row_signed [OF assms] by (auto simp: row_ok_def tb_account_of_def Let_def cents_max cents_ops max_def)

definition pick_ok :: "(tb_columns \<Rightarrow> rat) \<Rightarrow> bool" where
  "pick_ok pick \<longleftrightarrow> pick \<in> {tc_openingDebit, tc_openingCredit, tc_periodDebit, tc_periodCredit, tc_closingDebit, tc_closingCredit}"

lemma column_cents: "row_ok s r \<Longrightarrow> pick_ok pick \<Longrightarrow> is_cents (pick (ta_columns (tb_account_of r)))"
  by (auto simp: pick_ok_def row_ok_def tb_account_of_def Let_def)

lemma pick_sum: "pick_ok pick \<Longrightarrow> pick (sum_columns cs) = round_money (sum_list (map pick cs))"
  by (auto simp: pick_ok_def sum_columns_def Let_def)

lemma pick_add: "pick_ok pick \<Longrightarrow> pick (add_columns x y) = round_money (pick x + pick y)"
  by (auto simp: pick_ok_def add_columns_def)

lemma pick_fold:
  assumes "pick_ok pick" and "is_cents (pick c)" and "\<forall>x \<in> set xs. is_cents (pick (tg_columns x))"
  shows "pick (foldl (\<lambda>c child. add_columns c (tg_columns child)) c xs) = pick c + sum_list (map (pick \<circ> tg_columns) xs)"
  using assms by (induction xs arbitrary: c) (simp_all add: pick_add cents_ops)

lemma group_tree_sum:
  assumes f: "forest gs" and p: "pick_ok pick"
    and c: "\<And>a. a \<in> set accounts \<Longrightarrow> is_cents (pick (ta_columns a)) \<and> br_group (ta_row a) \<in> set gs"
  shows "sum_list (map (pick \<circ> tg_columns) (buildTrialBalanceGroups cmp gs accounts)) = sum_list (map (pick \<circ> ta_columns) accounts)"
proof -
  let ?own = "\<lambda>g. sum_list (map (pick \<circ> ta_columns) (filter (\<lambda>a. gg_id (br_group (ta_row a)) = gg_id g) accounts))"
  have cents: "is_cents (?own g)" for g using c by (auto intro!: cents_sum)
  have step: "case finalize_group cmp accounts g ns of None \<Rightarrow> ?own g + sum_list (map (pick \<circ> tg_columns) ns) = 0
      | Some n \<Rightarrow> is_cents (pick (tg_columns n)) \<and> (pick \<circ> tg_columns) n = ?own g + sum_list (map (pick \<circ> tg_columns) ns)"
    if "\<forall>n \<in> set ns. is_cents (pick (tg_columns n))" for g ns
  proof -
    let ?xs = "order_by (\<lambda>x y. cmp (ga_code (br_account (ta_row x))) (ga_code (br_account (ta_row y))) \<le> 0)
      (filter (\<lambda>a. gg_id (br_group (ta_row a)) = gg_id g) accounts)"
    have "sum_list (map pick (map ta_columns ?xs)) = ?own g" by (simp add: o_def)
    then have own: "pick (sum_columns (map ta_columns ?xs)) = ?own g" using cents [of g] by (simp add: pick_sum [OF p])
    have "pick (foldl (\<lambda>c child. add_columns c (tg_columns child)) (sum_columns (map ta_columns ?xs)) (order_by (tb_group_le cmp) ns)) =
        ?own g + sum_list (map (pick \<circ> tg_columns) ns)"
      using that cents [of g] by (subst pick_fold [OF p]) (simp_all add: own)
    moreover have "is_cents (?own g + sum_list (map (pick \<circ> tg_columns) ns))" using that cents [of g] by (auto intro!: is_cents_add cents_sum)
    ultimately show ?thesis by (auto simp: finalize_group_def Let_def)
  qed
  note sums = tree_sum [OF f step]
  have "sum_list (map ?own gs) = sum_list (map (pick \<circ> ta_columns) accounts)"
    using f c by (intro sum_by_keys) (auto simp: forest_def)
  with sums(1) show ?thesis by (simp add: buildTrialBalanceGroups_def)
qed

lemma controls_agree:
  assumes ok: "ledger_ok s" and d: "entries_dated s" and c: "c \<in> set (loadControls w s)"
  shows "ca_difference c = 0 \<and> ca_status c = ''RECONCILED''"
proof -
  from c obtain a where a: "a \<in> set (lg_accounts s)" "ga_isControl a"
    and ca: "ca_difference c = round_money (round_money (account_sum (\<lambda>l. gl_debit l - gl_credit l) (ga_id a) (dated_lines (\<lambda>d. str_le d (sw_to w)) (sw_branchId w) s)) -
        round_money (sum_list (map (\<lambda>e. gs_debit e - gs_credit e) (account_entries (ga_id a) (sw_to w) (sw_branchId w) s))))"
      "ca_status c = (if \<bar>ca_difference c\<bar> < 5 / 1000 then ''RECONCILED'' else ''DIFFERENCE'')"
    by (auto simp: loadControls_def CONTROL_AGREEMENT_ROWS_def account_entries_def Let_def split: if_splits)
  then have "ca_difference c = 0" by (simp add: controls_through [OF ok d])
  with ca(2) show ?thesis by simp
qed

text \<open>C3. In every reachable state the trial balance of any window and branch balances: opening, turnover and closing debits equal
their credits to the paisa, every control account agrees with its subledger as of that date, and each column of the group tree
adds up, over the top groups, to the column's total.\<close>

theorem trial_balance_holds:
  assumes "ledger_reach s"
  shows "tb_balanced (buildTrialBalance cmp w s) \<and> tb_controlsReconciled (buildTrialBalance cmp w s) \<and>
    tc_openingDebit (tb_totals (buildTrialBalance cmp w s)) = tc_openingCredit (tb_totals (buildTrialBalance cmp w s)) \<and>
    tc_periodDebit (tb_totals (buildTrialBalance cmp w s)) = tc_periodCredit (tb_totals (buildTrialBalance cmp w s)) \<and>
    tc_closingDebit (tb_totals (buildTrialBalance cmp w s)) = tc_closingCredit (tb_totals (buildTrialBalance cmp w s)) \<and>
    (\<forall>pick \<in> {tc_openingDebit, tc_openingCredit, tc_periodDebit, tc_periodCredit, tc_closingDebit, tc_closingCredit}.
      (\<Sum>g \<leftarrow> tb_groups (buildTrialBalance cmp w s). pick (tg_columns g)) = pick (tb_totals (buildTrialBalance cmp w s)))"
proof -
  have ok: "ledger_ok s" and pl: "chart_placed s" and ed: "entries_dated s"
    using reach_ok [OF assms] reach_placed [OF assms] by (simp_all add: books_placed_def)
  let ?all = "loadAccountBalances w s"
  let ?rows = "filter (\<lambda>r. br_openingBalance r \<noteq> 0 \<or> br_periodDebit r \<noteq> 0 \<or> br_periodCredit r \<noteq> 0) ?all"
  let ?accounts = "map tb_account_of ?rows"
  have row: "row_ok s r" if "r \<in> set ?rows" for r using loaded_ok [OF ok pl] that by auto
  have col: "is_cents (sum_list (map pick (map ta_columns ?accounts)))" if "pick_ok pick" for pick
    using column_cents [OF row that] by (auto intro!: is_cents_sum_list)
  have tot: "pick (tb_totals (buildTrialBalance cmp w s)) = (\<Sum>r \<leftarrow> ?rows. pick (ta_columns (tb_account_of r)))" if "pick_ok pick" for pick
    using col [OF that] by (simp add: buildTrialBalance_def Let_def pick_sum [OF that] o_def)
  have diff: "p (tb_totals (buildTrialBalance cmp w s)) = q (tb_totals (buildTrialBalance cmp w s))"
    if "pick_ok p" "pick_ok q" and d: "\<And>r. row_ok s r \<Longrightarrow> p (ta_columns (tb_account_of r)) - q (ta_columns (tb_account_of r)) = f r"
      and z: "\<And>r. br_openingBalance r = 0 \<Longrightarrow> br_periodDebit r = 0 \<Longrightarrow> br_periodCredit r = 0 \<Longrightarrow> f r = 0"
      and s: "sum_list (map f ?all) = 0" for p q f
  proof -
    have "(\<Sum>r \<leftarrow> ?rows. p (ta_columns (tb_account_of r)) - q (ta_columns (tb_account_of r))) = sum_list (map f ?rows)"
      using d row by (intro arg_cong [of _ _ sum_list] map_cong) auto
    also have "\<dots> = sum_list (map f ?all)" using z by (intro sum_filter_zero) auto
    finally show ?thesis using s by (simp add: tot that(1,2) sum_diff)
  qed
  note total = rows_total [OF ok pl, of w]
  have both: "sum_list (map (\<lambda>r. br_openingBalance r + (br_periodDebit r - br_periodCredit r)) ?all) = 0" using total by (simp add: sum_add)
  have o: "tc_openingDebit (tb_totals (buildTrialBalance cmp w s)) = tc_openingCredit (tb_totals (buildTrialBalance cmp w s))"
    by (rule diff [OF _ _ account_columns(1) _ total(1)]) (simp_all add: pick_ok_def)
  have p: "tc_periodDebit (tb_totals (buildTrialBalance cmp w s)) = tc_periodCredit (tb_totals (buildTrialBalance cmp w s))"
    by (rule diff [OF _ _ account_columns(2) _ total(2)]) (simp_all add: pick_ok_def)
  have c: "tc_closingDebit (tb_totals (buildTrialBalance cmp w s)) = tc_closingCredit (tb_totals (buildTrialBalance cmp w s))"
    by (rule diff [OF _ _ account_columns(3) _ both]) (simp_all add: pick_ok_def)
  have bal: "tb_balanced (buildTrialBalance cmp w s)" using o p c unfolding buildTrialBalance_def Let_def by simp
  have ctl: "tb_controlsReconciled (buildTrialBalance cmp w s)"
    using controls_agree [OF ok ed, of _ w] by (auto simp: buildTrialBalance_def Let_def list_all_iff)
  have tree: "(\<Sum>g \<leftarrow> tb_groups (buildTrialBalance cmp w s). pick (tg_columns g)) = pick (tb_totals (buildTrialBalance cmp w s))"
    if pick: "pick_ok pick" for pick
  proof -
    have mem: "is_cents (pick (ta_columns a)) \<and> br_group (ta_row a) \<in> set (loadGroupRows w s)" if "a \<in> set ?accounts" for a
    proof -
      from that obtain r where r: "r \<in> set ?rows" "a = tb_account_of r" by auto
      from r(1) have "set (loadGroupRows w s) = set (lg_groups s)" by (auto simp: loadAccountBalances_def loadGroupRows_def group_list [OF ok])
      with row [OF r(1)] column_cents [OF row [OF r(1)] pick] r(2) show ?thesis by (simp add: row_ok_def tb_account_of_def Let_def)
    qed
    have "forest (loadGroupRows w s)"
      by (rule groups_forest [OF ok]) (auto simp: loadGroupRows_def group_list [OF ok])
    from group_tree_sum [OF this pick mem, where cmp = cmp]
    have "(\<Sum>g \<leftarrow> buildTrialBalanceGroups cmp (loadGroupRows w s) ?accounts. pick (tg_columns g)) = (\<Sum>r \<leftarrow> ?rows. pick (ta_columns (tb_account_of r)))"
      by (simp only: o_def map_map)
    then show ?thesis unfolding tot [OF pick] by (simp only: buildTrialBalance_def Let_def trial_balance.select_convs)
  qed
  show ?thesis using bal ctl o p c tree by (simp add: pick_ok_def)
qed

theorem trial_balance_holds_witness:
  "\<exists>s. lg_lines s \<noteq> [] \<and> tb_balanced (buildTrialBalance (\<lambda>_ _. 0)
     \<lparr>sw_from = Some ''2024-08-01'', sw_to = ''2024-08-31'', sw_branchId = None, sw_empty = False\<rparr> s)"
proof -
  from shop_sale [OF stocked_shop] obtain j s where sale: "postSalesInvoiceLedger shop_invoice shop = Inr (Some j, s)" "stocked 12 s" by auto
  have "lg_lines s \<noteq> []" using shop_sale_entries [OF sale(1)] by (auto simp: entries_def JOURNAL_LINES_def)
  moreover have "ledger_reach s" using sale(2) by (simp add: stocked_def)
  ultimately show ?thesis by (intro exI [of _ s] conjI trial_balance_holds [THEN conjunct1])
qed

section \<open>Balance sheet\<close>

text \<open>The signed balances of the accounts of one type.\<close>

definition type_sum :: "(balance_row \<Rightarrow> rat) \<Rightarrow> string \<Rightarrow> balance_row list \<Rightarrow> rat" where
  "type_sum f t rows = sum_list (map f (filter (\<lambda>r. gg_accountType (br_group r) = t) rows))"

lemma type_sum_zero: "(\<And>r. r \<in> set rows \<Longrightarrow> \<not> P r \<Longrightarrow> f r = 0) \<Longrightarrow> type_sum f t (filter P rows) = type_sum f t rows"
  by (induction rows) (auto simp: type_sum_def)

lemma row_type:
  assumes "chart_placed s" and "row_ok s r"
  shows "gg_accountType (br_group r) \<in> set ACCOUNT_TYPES" "gg_statementGroup (br_group r) \<in> set (STATEMENT_GROUPS_BY_TYPE (gg_accountType (br_group r)))"
  using assms by (auto simp: chart_placed_def row_ok_def)

lemma placed_groups: "set (STATEMENT_GROUPS_BY_TYPE t) \<subseteq> set STATEMENT_GROUPS" "distinct STATEMENT_GROUPS"
  by (auto simp: STATEMENT_GROUPS_BY_TYPE_def STATEMENT_GROUPS_def)

lemma types_cover:
  assumes "\<And>r. r \<in> set rows \<Longrightarrow> gg_accountType (br_group r) \<in> set ACCOUNT_TYPES"
  shows "type_sum f ''ASSET'' rows + type_sum f ''LIABILITY'' rows + type_sum f ''EQUITY'' rows + type_sum f ''INCOME'' rows +
    type_sum f ''EXPENSE'' rows = sum_list (map f rows)"
  using sum_by_keys [of id ACCOUNT_TYPES rows "\<lambda>r. gg_accountType (br_group r)" f] assms
  by (simp add: ACCOUNT_TYPES_def type_sum_def)

lemma presented_sum:
  assumes "\<And>r. r \<in> set rows \<Longrightarrow> is_cents (f r)"
  shows "sum_list (map (\<lambda>r. presented (gg_accountType (br_group r)) (f r)) (filter (\<lambda>r. gg_accountType (br_group r) = t) rows)) =
    side t * type_sum f t rows"
  using assms by (induction rows) (auto simp: type_sum_def presented_cents algebra_simps)

lemma type_sum_cents: "(\<And>r. r \<in> set rows \<Longrightarrow> is_cents (f r)) \<Longrightarrow> is_cents (type_sum f t rows)"
  unfolding type_sum_def by (auto intro!: cents_sum)

lemma sectionize_Nil [simp]: "sectionize cmp gs [] order f = []"
  by (induction order) (simp_all add: sectionize_def Let_def List.map_filter_def)

text \<open>Assets, liabilities, posted equity and current earnings as sums over the account types.\<close>

lemma sheet_figures:
  fixes w :: statement_window
  assumes ok: "ledger_ok s" and pl: "chart_placed s"
  defines "S \<equiv> \<lambda>t. type_sum closingSigned t (loadAccountBalances w s)"
  shows "bs_totalAssets (buildBalanceSheet cmp w s) = S ''ASSET''" "bs_totalLiabilities (buildBalanceSheet cmp w s) = - S ''LIABILITY''"
    "bs_currentEarnings (buildBalanceSheet cmp w s) = - S ''INCOME'' - S ''EXPENSE''"
    "bs_totalLiabilitiesAndEquity (buildBalanceSheet cmp w s) = - S ''LIABILITY'' - S ''EQUITY'' - S ''INCOME'' - S ''EXPENSE''"
proof -
  let ?all = "loadAccountBalances w s"
  let ?rows = "filter (\<lambda>r. closingSigned r \<noteq> 0) ?all"
  let ?amt = "\<lambda>r. presented (gg_accountType (br_group r)) (closingSigned r)"
  let ?typed = "\<lambda>t. filter (\<lambda>r. gg_accountType (br_group r) = t) ?rows"
  have row: "row_ok s r" if "r \<in> set ?all" for r using loaded_ok [OF ok pl that] .
  have cents: "is_cents (closingSigned r)" if "r \<in> set ?all" for r using row_signed(3) [OF row [OF that]] .
  have amt: "sum_list (map ?amt (?typed t)) = side t * S t" for t
    using presented_sum [of ?rows closingSigned t] cents type_sum_zero [of ?all "\<lambda>r. closingSigned r \<noteq> 0" closingSigned t] by (simp add: S_def)
  have S: "is_cents (S t)" "is_cents (side t * S t)" for t
    using type_sum_cents [of ?all closingSigned t] cents by (auto simp: S_def side_def cents_ops)
  have sec: "round_money (sum_list (map ss_amount (sectionize cmp (loadGroupRows w s) (?typed t) STATEMENT_GROUPS ?amt))) = side t * S t" for t
  proof (cases "sw_empty w")
    case True
    then have "?all = []" by (simp add: loadAccountBalances_def)
    then show ?thesis by (simp add: S_def type_sum_def)
  next
    case False
    have "row_ok s r \<and> is_cents (?amt r) \<and> gg_statementGroup (br_group r) \<in> set STATEMENT_GROUPS" if "r \<in> set (?typed t)" for r
      using that row row_type(2) [OF pl row] placed_groups(1) cents presented_cents(2) by auto
    from sections_sum(1) [where rows = "?typed t" and cmp = cmp, OF ok this placed_groups(2)] amt [of t] S(2) [of t] show ?thesis
      using False by (simp add: loadGroupRows_def)
  qed
  have tot: "round_money (sum_list (map ?amt (?typed t))) = side t * S t" for t using amt S(2) by simp
  note def = buildBalanceSheet_def Let_def balance_sheet.select_convs
  show "bs_totalAssets (buildBalanceSheet cmp w s) = S ''ASSET''" unfolding def sec by (simp add: side_def)
  show "bs_totalLiabilities (buildBalanceSheet cmp w s) = - S ''LIABILITY''" unfolding def sec by (simp add: side_def)
  show "bs_currentEarnings (buildBalanceSheet cmp w s) = - S ''INCOME'' - S ''EXPENSE''"
    unfolding def tot using S(1) by (simp add: side_def cents_ops)
  show "bs_totalLiabilitiesAndEquity (buildBalanceSheet cmp w s) = - S ''LIABILITY'' - S ''EQUITY'' - S ''INCOME'' - S ''EXPENSE''"
    unfolding def sec tot using S(1) by (simp add: side_def cents_ops)
qed

text \<open>C4. In every reachable state the balance sheet of any branch and date balances: total assets equal total liabilities plus
equity, current earnings included, with no difference left.\<close>

theorem balance_sheet_balances:
  assumes "ledger_reach s"
  shows "bs_totalAssets (buildBalanceSheet cmp w s) = bs_totalLiabilitiesAndEquity (buildBalanceSheet cmp w s) \<and>
    bs_difference (buildBalanceSheet cmp w s) = 0 \<and> bs_balanced (buildBalanceSheet cmp w s)"
proof -
  have ok: "ledger_ok s" and pl: "chart_placed s" using reach_ok [OF assms] reach_placed [OF assms] by (simp_all add: books_placed_def)
  let ?all = "loadAccountBalances w s"
  have "sum_list (map closingSigned ?all) = (\<Sum>r \<leftarrow> ?all. br_openingBalance r + (br_periodDebit r - br_periodCredit r))"
    using row_signed(1) [OF loaded_ok [OF ok pl]] by (intro arg_cong [of _ _ sum_list] map_cong) auto
  then have "sum_list (map closingSigned ?all) = 0" using rows_total [OF ok pl, of w] by (simp add: sum_add)
  with types_cover [of ?all closingSigned] row_type(1) [OF pl loaded_ok [OF ok pl]]
  have eq: "bs_totalAssets (buildBalanceSheet cmp w s) = bs_totalLiabilitiesAndEquity (buildBalanceSheet cmp w s)"
    by (simp add: sheet_figures [OF ok pl])
  moreover have "bs_difference (buildBalanceSheet cmp w s) =
      round_money (bs_totalAssets (buildBalanceSheet cmp w s) - bs_totalLiabilitiesAndEquity (buildBalanceSheet cmp w s))"
    unfolding buildBalanceSheet_def Let_def balance_sheet.select_convs by (rule refl)
  moreover have "bs_balanced (buildBalanceSheet cmp w s) = (\<bar>bs_difference (buildBalanceSheet cmp w s)\<bar> < 5 / 1000)"
    unfolding buildBalanceSheet_def Let_def balance_sheet.select_convs by (rule refl)
  ultimately show ?thesis by simp
qed

theorem balance_sheet_balances_witness:
  "\<exists>s. lg_lines s \<noteq> [] \<and> bs_balanced (buildBalanceSheet (\<lambda>_ _. 0)
     \<lparr>sw_from = None, sw_to = ''2024-08-31'', sw_branchId = Some ''b1'', sw_empty = False\<rparr> s)"
proof -
  from shop_sale [OF stocked_shop] obtain j s where sale: "postSalesInvoiceLedger shop_invoice shop = Inr (Some j, s)" "stocked 12 s" by auto
  have "lg_lines s \<noteq> []" using shop_sale_entries [OF sale(1)] by (auto simp: entries_def JOURNAL_LINES_def)
  moreover have "ledger_reach s" using sale(2) by (simp add: stocked_def)
  ultimately show ?thesis by (intro exI [of _ s] conjI balance_sheet_balances [THEN conjunct2, THEN conjunct2])
qed

end
