(* ===== verification/ProfitClaims.thy ===== *)
theory ProfitClaims
  imports StatementClaims
begin

text \<open>
  Profit and loss as sums over the account types, the lines of a window split at a date, and how the statement of a period and the
  balance sheets at its two ends tie up.
\<close>

section \<open>Profit and loss\<close>

lemma line_day:
  assumes ok: "ledger_ok s" and l: "l \<in> set (lg_lines s)"
  obtains d where "\<And>P. list_ex (\<lambda>j. gj_id j = gl_journalId l \<and> gj_status j = ''POSTED'' \<and> P (gj_journalDateAD j)) (lg_journals s) \<longleftrightarrow> P d"
    and "\<exists>j \<in> set (lg_journals s). gj_journalDateAD j = d"
proof -
  from ok l obtain j where j: "j \<in> set (lg_journals s)" "gj_id j = gl_journalId l" "gj_status j = ''POSTED''"
    by (auto simp: ledger_ok_def ledger_inv_def lines_inv_def journals_inv_def)
  have "distinct (map gj_id (lg_journals s))" using ok journal_ids by (simp add: ledger_ok_def)
  then have "k = j" if "k \<in> set (lg_journals s)" "gj_id k = gl_journalId l" for k
    using that j unfolding distinct_map by (metis inj_onD)
  then have "list_ex (\<lambda>k. gj_id k = gl_journalId l \<and> gj_status k = ''POSTED'' \<and> P (gj_journalDateAD k)) (lg_journals s) \<longleftrightarrow> P (gj_journalDateAD j)" for P
    using j unfolding list_ex_iff by metis
  with j(1) show ?thesis by (blast intro: that)
qed

lemma dated_split:
  assumes ok: "ledger_ok s" and split: "\<forall>j \<in> set (lg_journals s). P (gj_journalDateAD j) \<longleftrightarrow> Q (gj_journalDateAD j) \<or> R (gj_journalDateAD j)"
    and disj: "\<forall>j \<in> set (lg_journals s). \<not> (Q (gj_journalDateAD j) \<and> R (gj_journalDateAD j))"
  shows "account_sum f a (dated_lines P br s) = account_sum f a (dated_lines Q br s) + account_sum f a (dated_lines R br s)"
proof -
  let ?ex = "\<lambda>P l. list_ex (\<lambda>j. gj_id j = gl_journalId l \<and> gj_status j = ''POSTED'' \<and> P (gj_journalDateAD j)) (lg_journals s)"
  have "(?ex P l \<longleftrightarrow> ?ex Q l \<or> ?ex R l) \<and> \<not> (?ex Q l \<and> ?ex R l)" if l: "l \<in> set (lg_lines s)" for l
  proof -
    obtain d where d: "\<And>P. ?ex P l \<longleftrightarrow> P d" "\<exists>j \<in> set (lg_journals s). gj_journalDateAD j = d" by (rule line_day [OF ok l]) blast
    with split disj show ?thesis by auto
  qed
  then have "sum_list (map f (filter (\<lambda>l. gl_accountId l = a \<and> ?ex P l \<and> branch_matches br (gl_branchId l)) ls)) =
    sum_list (map f (filter (\<lambda>l. gl_accountId l = a \<and> ?ex Q l \<and> branch_matches br (gl_branchId l)) ls)) +
    sum_list (map f (filter (\<lambda>l. gl_accountId l = a \<and> ?ex R l \<and> branch_matches br (gl_branchId l)) ls))" if "set ls \<subseteq> set (lg_lines s)" for ls
    using that by (induction ls) auto
  from this [OF order_refl] show ?thesis
    by (simp add: account_sum_def dated_lines_def source_lines_def conj_ac)
qed

lemma section_pair:
  fixes f :: "balance_row \<Rightarrow> rat"
  assumes "\<And>r. r \<in> set rows \<Longrightarrow> gg_statementGroup (br_group r) \<in> set (STATEMENT_GROUPS_BY_TYPE (gg_accountType (br_group r))) \<and>
    gg_accountType (br_group r) \<in> {''INCOME'', ''EXPENSE''}"
  shows "sum_list (map f (filter (\<lambda>r. gg_statementGroup (br_group r) = ''REVENUE'') rows)) +
    sum_list (map f (filter (\<lambda>r. gg_statementGroup (br_group r) = ''OTHER_INCOME'') rows)) =
    sum_list (map f (filter (\<lambda>r. gg_accountType (br_group r) = ''INCOME'') rows))" (is "?inc rows")
    and "sum_list (map f (filter (\<lambda>r. gg_statementGroup (br_group r) = ''COST_OF_SALES'') rows)) +
    sum_list (map f (filter (\<lambda>r. gg_statementGroup (br_group r) = ''OPERATING_EXPENSE'') rows)) +
    sum_list (map f (filter (\<lambda>r. gg_statementGroup (br_group r) = ''OTHER_EXPENSE'') rows)) =
    sum_list (map f (filter (\<lambda>r. gg_accountType (br_group r) = ''EXPENSE'') rows))" (is "?exp rows")
proof -
  have "?inc rows \<and> ?exp rows" using assms
  proof (induction rows)
    case (Cons r rows)
    then have "?inc rows \<and> ?exp rows" by simp
    moreover have "gg_accountType (br_group r) = ''INCOME'' \<and> gg_statementGroup (br_group r) \<in> {''REVENUE'', ''OTHER_INCOME''} \<or>
      gg_accountType (br_group r) = ''EXPENSE'' \<and> gg_statementGroup (br_group r) \<in> {''COST_OF_SALES'', ''OPERATING_EXPENSE'', ''OTHER_EXPENSE''}"
      using Cons.prems [of r] by (auto simp: STATEMENT_GROUPS_BY_TYPE_def)
    ultimately show ?case by auto
  qed simp
  then show "?inc rows" "?exp rows" by simp_all
qed

lemma type_sum_typed:
  "(\<And>r. r \<in> set rows \<Longrightarrow> gg_accountType (br_group r) = t \<Longrightarrow> \<not> P r \<Longrightarrow> f r = 0) \<Longrightarrow> type_sum f t (filter P rows) = type_sum f t rows"
  by (induction rows) (auto simp: type_sum_def)

lemma profit_figure:
  assumes ok: "ledger_ok s" and pl: "chart_placed s"
  shows "pl_netProfit (buildProfitAndLoss cmp w s) =
    - type_sum periodSigned ''INCOME'' (loadAccountBalances w s) - type_sum periodSigned ''EXPENSE'' (loadAccountBalances w s)"
proof -
  let ?all = "loadAccountBalances w s"
  let ?type = "\<lambda>r. gg_accountType (br_group r)"
  let ?rows = "filter (\<lambda>r. (?type r = ''INCOME'' \<or> ?type r = ''EXPENSE'') \<and> (br_periodDebit r \<noteq> 0 \<or> br_periodCredit r \<noteq> 0)) ?all"
  let ?amt = "\<lambda>r. presented (?type r) (periodSigned r)"
  let ?secs = "sectionize cmp (loadGroupRows w s) ?rows PROFIT_AND_LOSS_ORDER ?amt"
  have row: "row_ok s r" if "r \<in> set ?all" for r using loaded_ok [OF ok pl that] .
  have cents: "is_cents (periodSigned r)" if "r \<in> set ?all" for r using row_signed(4) [OF row [OF that]] .
  have typed: "gg_statementGroup (br_group r) \<in> set (STATEMENT_GROUPS_BY_TYPE (?type r)) \<and> ?type r \<in> {''INCOME'', ''EXPENSE''}" if "r \<in> set ?rows" for r
    using that row_type(2) [OF pl row] by auto
  have sec: "section_amount ?secs sg = sum_list (map ?amt (filter (\<lambda>r. gg_statementGroup (br_group r) = sg) ?rows))"
    if sg: "sg \<in> set PROFIT_AND_LOSS_ORDER" for sg
  proof (cases "sw_empty w")
    case True
    then have "?all = []" by (simp add: loadAccountBalances_def)
    then show ?thesis by (simp add: section_amount_def)
  next
    case False
    have "row_ok s r \<and> is_cents (?amt r) \<and> gg_statementGroup (br_group r) \<in> set PROFIT_AND_LOSS_ORDER" if "r \<in> set ?rows" for r
      using typed [OF that] that row cents presented_cents(2) by (auto simp: STATEMENT_GROUPS_BY_TYPE_def PROFIT_AND_LOSS_ORDER_def)
    from sections_sum(3) [where rows = ?rows and cmp = cmp, OF ok this _ sg] False show ?thesis
      by (simp add: loadGroupRows_def PROFIT_AND_LOSS_ORDER_def)
  qed
  have amt: "sum_list (map ?amt (filter (\<lambda>r. ?type r = t) ?rows)) = side t * type_sum periodSigned t ?all" if "t = ''INCOME'' \<or> t = ''EXPENSE''" for t
  proof -
    have "type_sum periodSigned t ?rows = type_sum periodSigned t ?all"
      using that by (intro type_sum_typed) (auto simp: periodSigned_def)
    with presented_sum [of ?rows periodSigned t] cents show ?thesis by simp
  qed
  have c: "is_cents (type_sum periodSigned t ?all)" for t using type_sum_cents [of ?all periodSigned t] cents by simp
  have mem: "''REVENUE'' \<in> set PROFIT_AND_LOSS_ORDER" "''OTHER_INCOME'' \<in> set PROFIT_AND_LOSS_ORDER" "''COST_OF_SALES'' \<in> set PROFIT_AND_LOSS_ORDER"
    "''OPERATING_EXPENSE'' \<in> set PROFIT_AND_LOSS_ORDER" "''OTHER_EXPENSE'' \<in> set PROFIT_AND_LOSS_ORDER"
    by (simp_all add: PROFIT_AND_LOSS_ORDER_def)
  have "section_amount ?secs ''REVENUE'' + section_amount ?secs ''OTHER_INCOME'' = side ''INCOME'' * type_sum periodSigned ''INCOME'' ?all"
    unfolding sec [OF mem(1)] sec [OF mem(2)] by (rule trans [OF section_pair(1) [where rows = ?rows and f = ?amt, OF typed] amt]) simp_all
  then have inc: "round_money (section_amount ?secs ''REVENUE'' + section_amount ?secs ''OTHER_INCOME'') = - type_sum periodSigned ''INCOME'' ?all"
    using c by (simp only:) (simp add: side_def cents_ops)
  have "section_amount ?secs ''COST_OF_SALES'' + section_amount ?secs ''OPERATING_EXPENSE'' + section_amount ?secs ''OTHER_EXPENSE'' =
      side ''EXPENSE'' * type_sum periodSigned ''EXPENSE'' ?all"
    unfolding sec [OF mem(3)] sec [OF mem(4)] sec [OF mem(5)]
    by (rule trans [OF section_pair(2) [where rows = ?rows and f = ?amt, OF typed] amt]) simp_all
  then have exp: "round_money (section_amount ?secs ''COST_OF_SALES'' + section_amount ?secs ''OPERATING_EXPENSE'' + section_amount ?secs ''OTHER_EXPENSE'') =
      type_sum periodSigned ''EXPENSE'' ?all"
    using c by (simp only:) (simp add: side_def)
  show ?thesis unfolding buildProfitAndLoss_def Let_def profit_and_loss.select_convs inc exp using c by (simp add: cents_ops)
qed

lemma loaded_type_sum:
  assumes "ledger_ok s" and "chart_placed s" and "\<not> sw_empty w"
  shows "type_sum f t (loadAccountBalances w s) =
    sum_list (map (\<lambda>a. f (row_of w s a)) (filter (\<lambda>a. gg_accountType (the (ACCOUNT_GROUP_BY_ID (ga_groupId a) s)) = t) (lg_accounts s)))"
proof -
  have "type_sum f t (map (row_of w s) as) =
    sum_list (map (\<lambda>a. f (row_of w s a)) (filter (\<lambda>a. gg_accountType (the (ACCOUNT_GROUP_BY_ID (ga_groupId a) s)) = t) as))" for as
    by (induction as) (auto simp: type_sum_def row_of_def)
  then show ?thesis using assms(3) by (simp add: loaded_rows [OF assms(1,2)]) (simp add: type_sum_def sum_order_by)
qed

text \<open>C17. Profit and loss ties to the balance sheet: over any branch, the current earnings at the end of a period are those on the day
before it plus the period's net profit -- where no journal is dated between the two.\<close>

theorem profit_and_loss_ties:
  assumes "ledger_reach s" and "\<forall>j \<in> set (lg_journals s). str_le (gj_journalDateAD j) eve \<longleftrightarrow> str_lt (gj_journalDateAD j) from"
    and "str_le from to"
  shows "bs_currentEarnings (buildBalanceSheet cmp \<lparr>sw_from = None, sw_to = to, sw_branchId = br, sw_empty = False\<rparr> s) =
    bs_currentEarnings (buildBalanceSheet cmp \<lparr>sw_from = None, sw_to = eve, sw_branchId = br, sw_empty = False\<rparr> s) +
    pl_netProfit (buildProfitAndLoss cmp \<lparr>sw_from = Some from, sw_to = to, sw_branchId = br, sw_empty = False\<rparr> s)"
proof -
  have ok: "ledger_ok s" and pl: "chart_placed s" using reach_ok [OF assms(1)] reach_placed [OF assms(1)] by (simp_all add: books_placed_def)
  let ?at = "\<lambda>d. \<lparr>sw_from = None, sw_to = d, sw_branchId = br, sw_empty = False\<rparr>" and ?over = "\<lparr>sw_from = Some from, sw_to = to, sw_branchId = br, sw_empty = False\<rparr>"
  have day: "in_window None to d \<longleftrightarrow> in_window None eve d \<or> in_window (Some from) to d" "\<not> (in_window None eve d \<and> in_window (Some from) to d)"
    if "j \<in> set (lg_journals s)" "gj_journalDateAD j = d" for j d
    using assms(2,3) that str_le_trans [of d "from" to] str_le_total by (auto simp: in_window_def str_lt_def)
  have split: "account_sum f a (dated_lines (in_window None to) br s) =
    account_sum f a (dated_lines (in_window None eve) br s) + account_sum f a (dated_lines (in_window (Some from) to) br s)" for f a
    using day by (intro dated_split [OF ok]) auto
  have none: "dated_lines (before_window None d) br s = []" for d by (auto simp: dated_lines_def source_lines_def before_window_def filter_empty_conv list_ex_iff)
  have nil: "account_sum f a [] = 0" for f a by (simp add: account_sum_def)
  have "closingSigned (row_of (?at to) s a) = closingSigned (row_of (?at eve) s a) + periodSigned (row_of ?over s a)" for a
    using account_sum_cents [OF ok] by (simp add: closingSigned_def periodSigned_def row_of_def none nil split cents_ops)
  then have "type_sum closingSigned t (loadAccountBalances (?at to) s) =
    type_sum closingSigned t (loadAccountBalances (?at eve) s) + type_sum periodSigned t (loadAccountBalances ?over s)" for t
    by (simp add: loaded_type_sum [OF ok pl] sum_add)
  then show ?thesis by (simp add: sheet_figures [OF ok pl] profit_figure [OF ok pl])
qed

text \<open>The shop's August sale lies between the balance sheets of the end of July and of August.\<close>

theorem profit_and_loss_ties_witness:
  "\<exists>s. lg_lines s \<noteq> [] \<and>
    bs_currentEarnings (buildBalanceSheet (\<lambda>_ _. 0) \<lparr>sw_from = None, sw_to = ''2024-08-31'', sw_branchId = None, sw_empty = False\<rparr> s) =
    bs_currentEarnings (buildBalanceSheet (\<lambda>_ _. 0) \<lparr>sw_from = None, sw_to = ''2024-07-31'', sw_branchId = None, sw_empty = False\<rparr> s) +
    pl_netProfit (buildProfitAndLoss (\<lambda>_ _. 0) \<lparr>sw_from = Some ''2024-08-01'', sw_to = ''2024-08-31'', sw_branchId = None, sw_empty = False\<rparr> s)"
proof -
  from shop_sale [OF stocked_shop] obtain j s where sale: "postSalesInvoiceLedger shop_invoice shop = Inr (Some j, s)" "stocked 12 s" by auto
  have "lg_lines s \<noteq> []" using shop_sale_entries [OF sale(1)] by (auto simp: entries_def JOURNAL_LINES_def)
  moreover have "ledger_reach s" using sale(2) by (simp add: stocked_def)
  moreover have "\<forall>k \<in> set (lg_journals s). gj_journalDateAD k = ''2024-08-01''"
  proof -
    from sale(1) obtain memo ls where post: "postJournal (document_journal (jget (jget shop_invoice ''invoice'') ''invoiceDateAD'')
        (jget (jget shop_invoice ''invoice'') ''branchId'') memo ''SALES_INVOICE'' (jget (jget shop_invoice ''invoice'') ''id'') (jget shop_invoice ''actor'') ls)
        shop = Inr (j, s)" by (rule sales_invoice_run)
    have i: "jget (jget shop_invoice ''invoice'') ''invoiceDateAD'' = JStr ''2024-08-01''" by (simp add: shop_invoice_def)
    from post [unfolded i] obtain date k jls ls' es where p: "posting shop s date k jls ls' es" and d: "requireDate (JStr ''2024-08-01'') = Inr date"
      by (rule postJournal_posting) simp
    have "lg_journals s = [k]" using posting_fields [OF p] by (simp add: shop_masters)
    moreover have "gj_journalDateAD k = ''2024-08-01''" using p d demo_date by (auto simp: posting_def)
    ultimately show ?thesis by simp
  qed
  moreover have "\<not> str_le ''2024-08-01'' ''2024-07-31''" "\<not> str_lt ''2024-08-01'' ''2024-08-01''" "str_le ''2024-08-01'' ''2024-08-31''" by code_simp+
  ultimately show ?thesis by (intro exI [of _ s] conjI profit_and_loss_ties) auto
qed

end
