(* ===== verification/CashClaims.thy ===== *)
theory CashClaims
  imports CashFlow ProfitClaims
begin

text \<open>
  The cash statements tie up: the running balances of the cash book end in its closing balances, its total is the balance sheet's
  cash figure up to the accounts of the credit side, and the cash-flow statement classifies exactly the movement of the book.
\<close>

section \<open>Joined rows\<close>

definition join_of :: "ledger \<Rightarrow> gl_line \<Rightarrow> flow_row" where
  "join_of s l = the (joined_row s l)"

lemma joined:
  assumes ok: "ledger_ok s" and pl: "chart_placed s" and l: "l \<in> set (lg_lines s)"
  shows "joined_row s l = Some (join_of s l)" "fr_line (join_of s l) = l" "fr_account (join_of s l) \<in> set (lg_accounts s)"
    "ga_id (fr_account (join_of s l)) = gl_accountId l" "gj_id (fr_journal (join_of s l)) = gl_journalId l"
proof -
  from ok l obtain a j where a: "a \<in> set (lg_accounts s)" "ga_id a = gl_accountId l" and j: "j \<in> set (lg_journals s)" "gj_id j = gl_journalId l"
    by (auto simp: ledger_ok_def ledger_inv_def lines_inv_def)
  have fa: "ACCOUNT_BY_ID (gl_accountId l) s = Some a"
    using find_unique [OF _ a(1)] a(2) ok by (simp add: ACCOUNT_BY_ID_def ledger_ok_def ledger_inv_def accounts_inv_def)
  obtain k where fj: "List.find (\<lambda>j. gj_id j = gl_journalId l) (lg_journals s) = Some k" "gj_id k = gl_journalId l"
    using j by (cases "List.find (\<lambda>j. gj_id j = gl_journalId l) (lg_journals s)") (auto simp: find_None_iff dest: find_SomeD)
  obtain g where fg: "ACCOUNT_GROUP_BY_ID (ga_groupId a) s = Some g" using pl a(1) by (rule group_found)
  have "joined_row s l = Some \<lparr>fr_journal = k, fr_line = l, fr_account = a, fr_group = g\<rparr>" by (simp add: joined_row_def fa fj fg)
  then show "joined_row s l = Some (join_of s l)" "fr_line (join_of s l) = l" "fr_account (join_of s l) \<in> set (lg_accounts s)"
    "ga_id (fr_account (join_of s l)) = gl_accountId l" "gj_id (fr_journal (join_of s l)) = gl_journalId l"
    using a fj by (simp_all add: join_of_def)
qed

lemma dated_subset: "set (dated_lines P br s) \<subseteq> set (lg_lines s)"
  by (auto simp: dated_lines_def source_lines_def)

lemma joined_lines:
  assumes "ledger_ok s" and "chart_placed s"
  shows "List.map_filter (joined_row s) (dated_lines P br s) = map (join_of s) (dated_lines P br s)"
  using joined(1) [OF assms] dated_subset by (intro map_filter_all) blast

definition cash_accounts :: "ledger \<Rightarrow> gl_account list" where
  "cash_accounts s = filter cash_kind (lg_accounts s)"

lemma cash_rows_of_account:
  assumes ok: "ledger_ok s" and pl: "chart_placed s" and a: "a \<in> set (cash_accounts s)" and sub: "set ls \<subseteq> set (lg_lines s)"
  shows "sum_list (map (\<lambda>r. f (fr_line r)) (filter (\<lambda>r. ga_id (fr_account r) = ga_id a) (filter (\<lambda>r. cash_kind (fr_account r)) (map (join_of s) ls)))) =
    account_sum f (ga_id a) ls"
proof -
  have d: "distinct (map ga_id (lg_accounts s))" using ok by (simp add: ledger_ok_def ledger_inv_def accounts_inv_def)
  have "ga_id (fr_account (join_of s l)) = ga_id a \<and> cash_kind (fr_account (join_of s l)) \<longleftrightarrow> gl_accountId l = ga_id a" if "l \<in> set ls" for l
  proof -
    note j = joined [OF ok pl, of l]
    have l: "l \<in> set (lg_lines s)" using that sub by auto
    have "fr_account (join_of s l) = a" if "gl_accountId l = ga_id a"
      using that j(3,4) [OF l] a d unfolding distinct_map cash_accounts_def by (auto dest: inj_onD)
    with j(4) [OF l] a show ?thesis by (auto simp: cash_accounts_def)
  qed
  then have "filter (\<lambda>l. ga_id (fr_account (join_of s l)) = ga_id a \<and> cash_kind (fr_account (join_of s l))) ls = filter (\<lambda>l. gl_accountId l = ga_id a) ls"
    by (intro filter_cong) auto
  moreover have "(\<Sum>l \<leftarrow> filter (\<lambda>l. gl_accountId l = ga_id a) ls. f (fr_line (join_of s l))) = sum_list (map f (filter (\<lambda>l. gl_accountId l = ga_id a) ls))"
    using joined(2) [OF ok pl] sub by (intro arg_cong [of _ _ sum_list] map_cong) auto
  ultimately show ?thesis by (simp add: account_sum_def filter_map o_def conj_commute)
qed

lemma cash_rows_total:
  assumes ok: "ledger_ok s" and pl: "chart_placed s" and sub: "set ls \<subseteq> set (lg_lines s)"
  shows "sum_list (map (\<lambda>r. f (fr_line r)) (filter (\<lambda>r. cash_kind (fr_account r)) (map (join_of s) ls))) =
    (\<Sum>a \<leftarrow> cash_accounts s. account_sum f (ga_id a) ls)"
proof -
  have "distinct (map ga_id (cash_accounts s))"
    using ok by (simp add: cash_accounts_def ledger_ok_def ledger_inv_def accounts_inv_def distinct_map_filter)
  then have "(\<Sum>a \<leftarrow> cash_accounts s. sum_list (map (\<lambda>r. f (fr_line r)) (filter (\<lambda>r. ga_id (fr_account r) = ga_id a)
      (filter (\<lambda>r. cash_kind (fr_account r)) (map (join_of s) ls))))) =
    sum_list (map (\<lambda>r. f (fr_line r)) (filter (\<lambda>r. cash_kind (fr_account r)) (map (join_of s) ls)))"
    using joined(3) [OF ok pl] sub by (intro sum_by_keys) (auto simp: cash_accounts_def)
  then show ?thesis using cash_rows_of_account [OF ok pl _ sub] by (simp cong: map_cong)
qed

section \<open>The cash book\<close>

definition line_cents :: "flow_row \<Rightarrow> bool" where
  "line_cents r \<longleftrightarrow> is_cents (gl_debit (fr_line r)) \<and> is_cents (gl_credit (fr_line r))"

abbreviation flow_net :: "flow_row \<Rightarrow> rat" where
  "flow_net r \<equiv> line_net (fr_line r)"

lemma running_last:
  assumes "\<forall>r \<in> set rs. line_cents r" and "is_cents x"
  shows "rs \<noteq> [] \<Longrightarrow> ce_balance (last (running_entries x rs)) = x + sum_list (map flow_net rs)"
  using assms
proof (induction rs arbitrary: x)
  case (Cons r rs)
  have "is_cents (x + flow_net r)" using Cons.prems by (auto simp: line_cents_def line_net_def intro!: is_cents_add is_cents_diff)
  moreover have "round_money (x + round_money (gl_debit (fr_line r)) - round_money (gl_credit (fr_line r))) = x + flow_net r"
    using Cons.prems calculation by (simp add: line_cents_def line_net_def add_diff_eq)
  moreover have "running_entries (x + flow_net r) rs \<noteq> [] \<longleftrightarrow> rs \<noteq> []" by (cases rs) (simp_all add: Let_def)
  ultimately show ?case using Cons by (cases "rs = []") (simp_all add: Let_def)
qed simp

lemma running_Nil [simp]: "running_entries x rs = [] \<longleftrightarrow> rs = []"
  by (cases rs) (simp_all add: Let_def)

text \<open>The row of a cash account, and what the book shows of it.\<close>

definition cash_row_of :: "statement_window \<Rightarrow> ledger \<Rightarrow> gl_account \<Rightarrow> cash_row" where
  "cash_row_of w s a = \<lparr>kr_account = a,
     kr_opening = account_sum (\<lambda>l. gl_debit l - gl_credit l) (ga_id a) (dated_lines (before_window (sw_from w) (sw_to w)) (sw_branchId w) s),
     kr_receipts = account_sum gl_debit (ga_id a) (dated_lines (in_window (sw_from w) (sw_to w)) (sw_branchId w) s),
     kr_payments = account_sum gl_credit (ga_id a) (dated_lines (in_window (sw_from w) (sw_to w)) (sw_branchId w) s)\<rparr>"

lemma cash_rows:
  obtains le where "CASH_BANK_ACCOUNT_ROWS (sw_from w) (sw_to w) (sw_branchId w) s = order_by le (map (cash_row_of w s) (cash_accounts s))"
  by (simp add: CASH_BANK_ACCOUNT_ROWS_def Let_def cash_accounts_def cash_row_of_def [abs_def])

lemma cash_row_cents:
  assumes "ledger_ok s"
  shows "is_cents (kr_opening (cash_row_of w s a))" "is_cents (kr_receipts (cash_row_of w s a))" "is_cents (kr_payments (cash_row_of w s a))"
  using account_sum_cents [OF assms] by (simp_all add: cash_row_of_def)

definition row_closing :: "cash_row \<Rightarrow> rat" where
  "row_closing r = kr_opening r + kr_receipts r - kr_payments r"

lemma row_closing_through:
  assumes ok: "ledger_ok s"
  shows "row_closing (cash_row_of w s a) = closingSigned (row_of (w\<lparr>sw_from := None\<rparr>) s a)"
proof -
  let ?P = "before_window (sw_from w) (sw_to w)" and ?Q = "in_window (sw_from w) (sw_to w)" and ?br = "sw_branchId w"
  have "account_sum f i (dated_lines (in_window None (sw_to w)) ?br s) = account_sum f i (dated_lines ?P ?br s) + account_sum f i (dated_lines ?Q ?br s)" for f i
    by (rule dated_split [OF ok]) (auto simp: before_window_def in_window_def str_lt_def split: option.splits)
  moreover have "dated_lines (before_window None d) ?br s = []" for d
    by (auto simp: dated_lines_def source_lines_def before_window_def filter_empty_conv list_ex_iff)
  moreover have "account_sum f i [] = 0" for f i by (simp add: account_sum_def)
  moreover have "account_sum (\<lambda>l. gl_debit l - gl_credit l) i ls = account_sum gl_debit i ls - account_sum gl_credit i ls" for i ls
    by (simp add: account_sum_def sum_diff)
  ultimately show ?thesis using account_sum_cents [OF ok]
    by (simp add: row_closing_def cash_row_of_def closingSigned_def row_of_def cents_ops)
qed

lemma row_type_of: "chart_placed s \<Longrightarrow> a \<in> set (lg_accounts s) \<Longrightarrow> gg_accountType (br_group (row_of w s a)) = account_type s a"
  by (auto simp: row_of_def account_type_def elim: group_found)

lemma sheet_cash:
  assumes ok: "ledger_ok s" and pl: "chart_placed s" and e: "\<not> sw_empty w"
  shows "bs_cashAndBank (buildBalanceSheet cmp w s) = (\<Sum>a \<leftarrow> cash_accounts s. side (account_type s a) * closingSigned (row_of w s a))"
proof -
  let ?all = "loadAccountBalances w s"
  let ?amt = "\<lambda>r. presented (gg_accountType (br_group r)) (closingSigned r)"
  have cents: "is_cents (closingSigned r)" if "r \<in> set ?all" for r using row_signed(3) [OF loaded_ok [OF ok pl that]] .
  have "sum_list (map ?amt (filter (\<lambda>r. cash_kind (br_account r)) (filter (\<lambda>r. closingSigned r \<noteq> 0) ?all))) =
    sum_list (map ?amt (filter (\<lambda>r. closingSigned r \<noteq> 0) (filter (\<lambda>r. cash_kind (br_account r)) ?all)))"
    by (simp add: conj_commute)
  also have "\<dots> = sum_list (map ?amt (filter (\<lambda>r. cash_kind (br_account r)) ?all))"
    by (rule sum_filter_zero) (simp add: presented_def)
  also have "\<dots> = (\<Sum>a \<leftarrow> cash_accounts s. ?amt (row_of w s a))"
    using e by (simp add: loaded_rows [OF ok pl] sum_order_by filter_map o_def cash_accounts_def) (simp add: row_of_def)
  also have "\<dots> = (\<Sum>a \<leftarrow> cash_accounts s. side (account_type s a) * closingSigned (row_of w s a))"
  proof (intro arg_cong [of _ _ sum_list] map_cong refl)
    fix a assume "a \<in> set (cash_accounts s)"
    then have a: "a \<in> set (lg_accounts s)" by (simp add: cash_accounts_def)
    then have "row_of w s a \<in> set ?all" using e by (simp add: loaded_rows [OF ok pl])
    with cents a show "?amt (row_of w s a) = side (account_type s a) * closingSigned (row_of w s a)"
      by (simp add: presented_cents row_type_of [OF pl])
  qed
  finally have eq: "sum_list (map ?amt (filter (\<lambda>r. cash_kind (br_account r)) (filter (\<lambda>r. closingSigned r \<noteq> 0) ?all))) =
    (\<Sum>a \<leftarrow> cash_accounts s. side (account_type s a) * closingSigned (row_of w s a))" .
  have "is_cents (sum_list (map ?amt (filter (\<lambda>r. cash_kind (br_account r)) (filter (\<lambda>r. closingSigned r \<noteq> 0) ?all))))"
    using cents presented_cents(2) by (intro cents_sum) auto
  then show ?thesis unfolding eq [symmetric] buildBalanceSheet_def Let_def balance_sheet.select_convs by (simp add: cash_kind_def)
qed

lemma shown_account:
  assumes "ledger_ok s"
  shows "ck_account (cash_account_of es (cash_row_of w s a)) = a" "ck_opening (cash_account_of es (cash_row_of w s a)) = kr_opening (cash_row_of w s a)"
    "ck_receipts (cash_account_of es (cash_row_of w s a)) = kr_receipts (cash_row_of w s a)"
    "ck_payments (cash_account_of es (cash_row_of w s a)) = kr_payments (cash_row_of w s a)"
    "ck_closing (cash_account_of es (cash_row_of w s a)) = row_closing (cash_row_of w s a)"
  using cash_row_cents [OF assms] by (simp_all add: cash_account_of_def Let_def row_closing_def cents_ops) (simp add: cash_row_of_def)

lemma book_closing:
  assumes ok: "ledger_ok s" and e: "\<not> sw_empty w"
  shows "cb_closing (buildCashBook w s) = (\<Sum>a \<leftarrow> cash_accounts s. row_closing (cash_row_of w s a))"
proof -
  obtain le where rows: "CASH_BANK_ACCOUNT_ROWS (sw_from w) (sw_to w) (sw_branchId w) s = order_by le (map (cash_row_of w s) (cash_accounts s))"
    by (rule cash_rows)
  have c3: "is_cents (\<Sum>a \<leftarrow> cash_accounts s. f (cash_row_of w s a))" if "f \<in> {kr_opening, kr_receipts, kr_payments}" for f
    using that cash_row_cents [OF ok] by (auto intro!: cents_sum)
  have "cb_closing (buildCashBook w s) = (\<Sum>a \<leftarrow> cash_accounts s. kr_opening (cash_row_of w s a)) +
      (\<Sum>a \<leftarrow> cash_accounts s. kr_receipts (cash_row_of w s a)) - (\<Sum>a \<leftarrow> cash_accounts s. kr_payments (cash_row_of w s a))"
    using e c3 by (simp add: buildCashBook_def Let_def rows o_def shown_account [OF ok] cents_ops)
  then show ?thesis by (simp add: row_closing_def sum_add sum_diff)
qed

lemma sum_by_side:
  fixes f :: "gl_account \<Rightarrow> rat"
  shows "(\<Sum>a \<leftarrow> as. f a) = (\<Sum>a \<leftarrow> as. side (account_type s a) * f a) +
    2 * (\<Sum>a \<leftarrow> filter (\<lambda>a. account_type s a \<notin> {''ASSET'', ''EXPENSE''}) as. f a)"
  by (induction as) (auto simp: side_def)

text \<open>C33. The cash book ties up: the running balance of an account's last entry is its closing balance, and the book's closing total
is the balance sheet's cash and bank figure of the same branch and date plus twice the closing balance of those cash and bank
accounts that sit in a group of the credit side -- an overdraft under liabilities, which the balance sheet adds as if it were cash.\<close>

theorem cash_book_ties:
  assumes "ledger_reach s"
  shows "cb_closing (buildCashBook w s) = bs_cashAndBank (buildBalanceSheet cmp (w\<lparr>sw_from := None\<rparr>) s) +
      2 * (\<Sum>k \<leftarrow> filter (\<lambda>k. account_type s (ck_account k) \<notin> {''ASSET'', ''EXPENSE''}) (cb_accounts (buildCashBook w s)). ck_closing k) \<and>
    (\<forall>k \<in> set (cb_accounts (buildCashBook w s)).
      ck_closing k = (if ck_entries k = [] then ck_opening k else ce_balance (last (ck_entries k))))"
proof (cases "sw_empty w")
  case True
  then show ?thesis by (simp add: buildCashBook_def buildBalanceSheet_def loadAccountBalances_def Let_def)
next
  case False
  have ok: "ledger_ok s" and pl: "chart_placed s" using reach_ok [OF assms] reach_placed [OF assms] by (simp_all add: books_placed_def)
  let ?w = "w\<lparr>sw_from := None\<rparr>" and ?es = "CASH_BANK_ENTRY_ROWS (sw_from w) (sw_to w) (sw_branchId w) s"
  let ?in = "dated_lines (in_window (sw_from w) (sw_to w)) (sw_branchId w) s"
  obtain le where rows: "CASH_BANK_ACCOUNT_ROWS (sw_from w) (sw_to w) (sw_branchId w) s = order_by le (map (cash_row_of w s) (cash_accounts s))"
    by (rule cash_rows)
  note cents = cash_row_cents [OF ok]
  note ck = shown_account [OF ok, of ?es w]
  have accounts: "cb_accounts (buildCashBook w s) = map (cash_account_of ?es) (order_by le (map (cash_row_of w s) (cash_accounts s)))"
    using False by (simp add: buildCashBook_def Let_def rows)
  note book = book_closing [OF ok False]
  have credit: "(\<Sum>k \<leftarrow> filter (\<lambda>k. account_type s (ck_account k) \<notin> {''ASSET'', ''EXPENSE''}) (cb_accounts (buildCashBook w s)). ck_closing k) =
    (\<Sum>a \<leftarrow> filter (\<lambda>a. account_type s a \<notin> {''ASSET'', ''EXPENSE''}) (cash_accounts s). row_closing (cash_row_of w s a))"
    unfolding accounts by (simp add: filter_map o_def sum_order_by ck)
  have shown: "\<not> sw_empty ?w" using False by simp
  have total: "cb_closing (buildCashBook w s) = bs_cashAndBank (buildBalanceSheet cmp ?w s) +
      2 * (\<Sum>k \<leftarrow> filter (\<lambda>k. account_type s (ck_account k) \<notin> {''ASSET'', ''EXPENSE''}) (cb_accounts (buildCashBook w s)). ck_closing k)"
    unfolding book credit row_closing_through [OF ok] sheet_cash [OF ok pl shown] by (rule sum_by_side)
  have "ck_closing k = (if ck_entries k = [] then ck_opening k else ce_balance (last (ck_entries k)))"
    if "k \<in> set (cb_accounts (buildCashBook w s))" for k
  proof -
    from that obtain a where a: "a \<in> set (cash_accounts s)" and k: "k = cash_account_of ?es (cash_row_of w s a)" by (auto simp: accounts)
    obtain le' where es: "?es = order_by le' (filter (\<lambda>r. cash_kind (fr_account r)) (map (join_of s) ?in))"
      by (simp add: CASH_BANK_ENTRY_ROWS_def joined_lines [OF ok pl])
    let ?mine = "filter (\<lambda>e. ga_id (fr_account e) = ga_id a) ?es"
    have e: "ck_entries k = running_entries (kr_opening (cash_row_of w s a)) ?mine" using cents by (simp add: k cash_account_of_def Let_def cash_row_of_def)
    have lc: "\<forall>r \<in> set ?mine. line_cents r"
      using dated_lines_ok(1,2) [OF ok] joined(2) [OF ok pl] dated_subset by (fastforce simp: es line_cents_def)
    have "sum_list (map flow_net ?mine) = account_sum line_net (ga_id a) ?in"
      using cash_rows_of_account [OF ok pl a dated_subset, of line_net] by (simp add: es sum_order_by)
    moreover have "account_sum line_net i ls = account_sum gl_debit i ls - account_sum gl_credit i ls" for i ls
      by (simp add: account_sum_def line_net_def [abs_def] sum_diff)
    ultimately have "ck_closing k = ck_opening k + sum_list (map flow_net ?mine)"
      by (simp add: k ck row_closing_def) (simp add: cash_row_of_def)
    with running_last [OF lc cents(1), of w a] show ?thesis by (auto simp: e) (simp add: k ck)
  qed
  with total show ?thesis by blast
qed

theorem cash_book_ties_witness:
  "\<exists>s. lg_lines s \<noteq> [] \<and> list_all (\<lambda>k. ck_closing k = (if ck_entries k = [] then ck_opening k else ce_balance (last (ck_entries k))))
     (cb_accounts (buildCashBook \<lparr>sw_from = Some ''2024-08-01'', sw_to = ''2024-08-31'', sw_branchId = None, sw_empty = False\<rparr> s))"
proof -
  from shop_capitalises obtain s0 h r where s0: "stocked 6 s0" "lg_journals s0 = [h]" by auto
  have "ledger_reach s0" using s0(1) by (simp add: stocked_def)
  moreover from this have "lg_lines s0 \<noteq> []"
    using s0(2) reach_ok by (fastforce simp: ledger_ok_def ledger_inv_def journals_inv_def balanced_def JOURNAL_LINES_def)
  ultimately show ?thesis unfolding list_all_iff by (intro exI [of _ s0] conjI cash_book_ties [THEN conjunct2])
qed

section \<open>The cash-flow statement\<close>

lemma cash_net_sum:
  assumes "\<forall>r \<in> set rows. line_cents r"
  shows "cash_net rows = sum_list (map flow_net (filter (\<lambda>r. cash_kind (fr_account r)) rows))" "is_cents (cash_net rows)"
proof -
  have "foldl (\<lambda>net r. round_money (net + round_money (gl_debit (fr_line r)) - round_money (gl_credit (fr_line r)))) x rs = x + sum_list (map flow_net rs)"
    if "is_cents x" "\<forall>r \<in> set rs. line_cents r" for x rs
    using that
  proof (induction rs arbitrary: x)
    case (Cons r rs)
    have "is_cents (x + flow_net r)" using Cons.prems by (auto simp: line_cents_def line_net_def intro!: is_cents_add is_cents_diff)
    moreover have "round_money (x + round_money (gl_debit (fr_line r)) - round_money (gl_credit (fr_line r))) = x + flow_net r"
      using Cons.prems calculation by (simp add: line_cents_def line_net_def add_diff_eq)
    ultimately show ?case using Cons by simp
  qed simp
  from this [of 0 "filter (\<lambda>r. cash_kind (fr_account r)) rows"] assms
  show eq: "cash_net rows = sum_list (map flow_net (filter (\<lambda>r. cash_kind (fr_account r)) rows))" by (simp add: cash_net_def)
  show "is_cents (cash_net rows)" unfolding eq using assms by (intro cents_sum) (auto simp: line_cents_def line_net_def intro: is_cents_diff)
qed

lemma add_flow_sum:
  assumes "is_cents net" and "\<forall>l \<in> set ls. is_cents (fl_amount l)" and "fl_amount new = net"
  shows "sum_list (map fl_amount (add_flow new net ls)) = sum_list (map fl_amount ls) + net" "\<forall>l \<in> set (add_flow new net ls). is_cents (fl_amount l)"
  using assms(2) by (induction ls) (auto simp: assms(1,3) cents_ops)

lemma flow_lines_sum:
  assumes "\<forall>b \<in> set bs. \<forall>r \<in> set b. line_cents r" and "\<forall>l \<in> set ls. is_cents (fl_amount l)" and "is_cents n"
    and "flow_lines cmp bs (ls, n) = (ls', n')"
  shows "sum_list (map fl_amount ls') = sum_list (map fl_amount ls) + sum_list (map cash_net bs) \<and> n' = n + sum_list (map cash_net bs) \<and>
    (\<forall>l \<in> set ls'. is_cents (fl_amount l))"
  using assms
proof (induction bs arbitrary: ls n)
  case (Cons b bs)
  have c: "is_cents (cash_net b)" using Cons.prems(1) by (intro cash_net_sum(2)) auto
  show ?case
  proof (cases "\<bar>cash_net b\<bar> < 5 / 1000")
    case True
    then have "cash_net b = 0" using cents_eq [OF c is_cents_0] by simp
    with Cons True show ?thesis by simp
  next
    case False
    have "fl_amount (new_flow_line (primary_row cmp b) (cash_net b)) = cash_net b" using c by (auto simp: new_flow_line_def split: option.splits)
    note add = add_flow_sum [OF c Cons.prems(2) this]
    have "round_money (n + cash_net b) = n + cash_net b" using c Cons.prems(3) by (simp add: cents_ops)
    then show ?thesis
      using Cons.IH [OF _ add(2), of "n + cash_net b"] Cons.prems c False add(1) by (auto simp: Let_def cents_ops)
  qed
qed simp

lemma cash_totals_sum:
  assumes "\<forall>r \<in> set rows. is_cents (kr_opening r) \<and> is_cents (kr_receipts r) \<and> is_cents (kr_payments r)"
  shows "cash_totals rows = (sum_list (map kr_opening rows), sum_list (map row_closing rows))"
proof -
  have "foldl (\<lambda>(openingCash, closing) r. let opening = round_money (kr_opening r) in
      (round_money (openingCash + opening), round_money (closing + opening + round_money (kr_receipts r) - round_money (kr_payments r)))) (x, y) rows =
    (x + sum_list (map kr_opening rows), y + sum_list (map row_closing rows))" if "is_cents x" "is_cents y" for x y
    using that assms by (induction rows arbitrary: x y) (simp_all add: Let_def cents_ops row_closing_def)
  from this [of 0 0] show ?thesis by (simp add: cash_totals_def)
qed

lemma window_of_cash_flow:
  "resolveStatementWindow today q CASH_FLOW scope s = Inr (w, s') \<Longrightarrow> s' = s \<and> (\<exists>f. sw_from w = Some f)"
  by (auto simp: resolveStatementWindow_def Let_def split: if_splits option.splits)

lemma flow_rows:
  assumes ok: "ledger_ok s" and pl: "chart_placed s" and f: "sw_from w = Some f"
  shows "\<forall>r \<in> set (CASH_FLOW_JOURNAL_ROWS (sw_from w) (sw_to w) (sw_branchId w) s). line_cents r"
    "sum_list (map flow_net (filter (\<lambda>r. cash_kind (fr_account r)) (CASH_FLOW_JOURNAL_ROWS (sw_from w) (sw_to w) (sw_branchId w) s))) =
     (\<Sum>a \<leftarrow> cash_accounts s. row_closing (cash_row_of w s a) - kr_opening (cash_row_of w s a))"
proof -
  let ?in = "dated_lines (in_window (sw_from w) (sw_to w)) (sw_branchId w) s"
  let ?rows = "map (join_of s) ?in"
  let ?cash = "map (\<lambda>r. gj_id (fr_journal r)) (filter (\<lambda>r. cash_kind (fr_account r)) ?rows)"
  obtain le where rows: "CASH_FLOW_JOURNAL_ROWS (sw_from w) (sw_to w) (sw_branchId w) s = order_by le (filter (\<lambda>r. gj_id (fr_journal r) \<in> set ?cash) ?rows)"
    by (simp add: CASH_FLOW_JOURNAL_ROWS_def f joined_lines [OF ok pl] Let_def)
  have "line_cents r" if "r \<in> set ?rows" for r
    using that dated_lines_ok(1,2) [OF ok] joined(2) [OF ok pl] dated_subset by (fastforce simp: line_cents_def)
  then show "\<forall>r \<in> set (CASH_FLOW_JOURNAL_ROWS (sw_from w) (sw_to w) (sw_branchId w) s). line_cents r" by (auto simp: rows)
  have "filter (\<lambda>r. cash_kind (fr_account r)) (filter (\<lambda>r. gj_id (fr_journal r) \<in> set ?cash) ?rows) = filter (\<lambda>r. cash_kind (fr_account r)) ?rows"
    unfolding filter_filter by (intro filter_cong) auto
  then have "sum_list (map flow_net (filter (\<lambda>r. cash_kind (fr_account r)) (CASH_FLOW_JOURNAL_ROWS (sw_from w) (sw_to w) (sw_branchId w) s))) =
    sum_list (map flow_net (filter (\<lambda>r. cash_kind (fr_account r)) ?rows))" unfolding rows sum_order_by by simp
  also have "\<dots> = (\<Sum>a \<leftarrow> cash_accounts s. account_sum line_net (ga_id a) ?in)" by (rule cash_rows_total [OF ok pl dated_subset])
  also have "\<dots> = (\<Sum>a \<leftarrow> cash_accounts s. row_closing (cash_row_of w s a) - kr_opening (cash_row_of w s a))"
    by (simp add: row_closing_def cash_row_of_def account_sum_def line_net_def [abs_def] sum_diff)
  finally show "sum_list (map flow_net (filter (\<lambda>r. cash_kind (fr_account r)) (CASH_FLOW_JOURNAL_ROWS (sw_from w) (sw_to w) (sw_branchId w) s))) =
     (\<Sum>a \<leftarrow> cash_accounts s. row_closing (cash_row_of w s a) - kr_opening (cash_row_of w s a))" .
qed

lemma bucket_sum:
  assumes "\<forall>r \<in> set rows. line_cents r"
  shows "sum_list (map cash_net (by_journal rows)) = sum_list (map flow_net (filter (\<lambda>r. cash_kind (fr_account r)) rows))"
proof -
  let ?id = "\<lambda>r. gj_id (fr_journal r)"
  have "sum_list (map cash_net (by_journal rows)) =
    (\<Sum>i \<leftarrow> first_occurrences (map ?id rows). sum_list (map flow_net (filter (\<lambda>r. ?id r = i) (filter (\<lambda>r. cash_kind (fr_account r)) rows))))"
    using assms by (simp add: by_journal_def o_def cash_net_sum(1) conj_commute)
  also have "\<dots> = sum_list (map flow_net (filter (\<lambda>r. cash_kind (fr_account r)) rows))"
    using sum_by_keys [of id "first_occurrences (map ?id rows)" "filter (\<lambda>r. cash_kind (fr_account r)) rows" ?id flow_net] by simp
  finally show ?thesis .
qed

lemma section_blocks:
  assumes "\<forall>l \<in> set lines. is_cents (fl_amount l)"
  shows "sum_list (map fb_amount (map (flow_section_of cmp rows lines) CASH_FLOW_SECTION_KEYS)) = sum_list (map fl_amount lines)"
proof -
  have "is_cents (sum_list (map fl_amount (filter P lines)))" for P using assms by (auto intro!: cents_sum)
  then have "fb_amount (flow_section_of cmp rows lines k) = sum_list (map fl_amount (filter (\<lambda>l. line_section rows l = k) lines))" for k
    by (simp add: flow_section_of_def Let_def)
  moreover have "set CASH_FLOW_SECTION_KEYS = UNIV" "distinct CASH_FLOW_SECTION_KEYS"
    by (auto simp: CASH_FLOW_SECTION_KEYS_def) (metis flow_section.exhaust)
  ultimately show ?thesis
    using sum_by_keys [of id CASH_FLOW_SECTION_KEYS lines "line_section rows" fl_amount] by (simp add: o_def)
qed

text \<open>C14. In every reachable state the cash-flow statement of any accepted request reconciles: the sections classify the whole net
cash flow, and opening cash plus the sections is the closing balance of the cash book for the same window and branch.\<close>

theorem cash_flow_reconciles:
  assumes "ledger_reach s" and "resolveStatementWindow today q CASH_FLOW scope s = Inr (w, s')"
  shows "cf_reconciled (buildCashFlow cmp w s) \<and> cf_classifiedCashFlow (buildCashFlow cmp w s) = cf_netCashFlow (buildCashFlow cmp w s) \<and>
    cf_closingCash (buildCashFlow cmp w s) = cb_closing (buildCashBook w s) \<and>
    cf_closingCash (buildCashFlow cmp w s) = cf_openingCash (buildCashFlow cmp w s) + (\<Sum>x \<leftarrow> cf_sections (buildCashFlow cmp w s). fb_amount x)"
proof (cases "sw_empty w")
  case True
  then show ?thesis by (simp add: buildCashFlow_def buildCashBook_def emptyCashFlow_def CASH_FLOW_SECTION_KEYS_def)
next
  case False
  have ok: "ledger_ok s" and pl: "chart_placed s" using reach_ok [OF assms(1)] reach_placed [OF assms(1)] by (simp_all add: books_placed_def)
  from window_of_cash_flow [OF assms(2)] obtain f where f: "sw_from w = Some f" by blast
  let ?rows = "CASH_FLOW_JOURNAL_ROWS (sw_from w) (sw_to w) (sw_branchId w) s"
  obtain le where acc: "CASH_BANK_ACCOUNT_ROWS (sw_from w) (sw_to w) (sw_branchId w) s = order_by le (map (cash_row_of w s) (cash_accounts s))"
    by (rule cash_rows)
  define open0 where "open0 = (\<Sum>a \<leftarrow> cash_accounts s. kr_opening (cash_row_of w s a))"
  define closing where "closing = (\<Sum>a \<leftarrow> cash_accounts s. row_closing (cash_row_of w s a))"
  have cents: "is_cents open0" "is_cents closing"
    using cash_row_cents [OF ok] unfolding open0_def closing_def by (auto simp: row_closing_def intro!: cents_sum is_cents_add is_cents_diff)
  have totals: "cash_totals (CASH_BANK_ACCOUNT_ROWS (sw_from w) (sw_to w) (sw_branchId w) s) = (open0, closing)"
    using cash_totals_sum [of "order_by le (map (cash_row_of w s) (cash_accounts s))"] cash_row_cents [OF ok]
    by (simp add: acc open0_def closing_def o_def)
  have buckets: "\<forall>b \<in> set (by_journal ?rows). \<forall>r \<in> set b. line_cents r" using flow_rows(1) [OF ok pl f] by (auto simp: by_journal_def)
  obtain lines net where fl: "flow_lines cmp (by_journal ?rows) ([], 0) = (lines, net)" by (cases "flow_lines cmp (by_journal ?rows) ([], 0)")
  have net: "sum_list (map fl_amount lines) = net" "net = closing - open0" "\<forall>l \<in> set lines. is_cents (fl_amount l)"
    using flow_lines_sum [OF buckets _ _ fl] bucket_sum [OF flow_rows(1) [OF ok pl f]] flow_rows(2) [OF ok pl f]
    by (simp_all add: open0_def closing_def sum_diff)
  have "is_cents net" using cents net(2) by (simp add: cents_ops)
  note sections = section_blocks [OF net(3), of cmp ?rows, unfolded net(1)]
  have book: "cb_closing (buildCashBook w s) = closing" using book_closing [OF ok False] by (simp add: closing_def)
  have run: "buildCashFlow cmp w s = \<lparr>cf_branchId = statementBranchLabel w, cf_from = sw_from w, cf_to = sw_to w, cf_openingCash = open0,
      cf_closingCash = closing, cf_cashBookClosing = closing, cf_netCashFlow = net, cf_classifiedCashFlow = net,
      cf_difference = 0, cf_reconciled = True, cf_sections = map (flow_section_of cmp ?rows lines) CASH_FLOW_SECTION_KEYS\<rparr>"
    using False \<open>is_cents net\<close> cents net(2) unfolding buildCashFlow_def Let_def totals fl prod.case sections by simp
  show ?thesis by (simp add: run book net(2) del: map_map) (use sections net(2) in \<open>simp del: map_map\<close>)
qed

definition august :: jsval where
  "august = JObj [(''from'', JStr ''2024-08-01''), (''to'', JStr ''2024-08-31'')]"

lemma august_window:
  "resolveStatementWindow ''2025-01-01'' august CASH_FLOW \<lparr>sc_branchId = None, sc_empty = False\<rparr> s =
    Inr (\<lparr>sw_from = Some ''2024-08-01'', sw_to = ''2024-08-31'', sw_branchId = None, sw_empty = False\<rparr>, s)"
proof -
  have "isAccountingDate (JStr ''2024-08-01'')" "isAccountingDate (JStr ''2024-08-31'')" "\<not> str_lt ''2024-08-31'' ''2024-08-01''" by code_simp+
  moreover have "trimmed_field august ''asOf'' = []" "trimmed_field august ''to'' = ''2024-08-31''" "trimmed_field august ''from'' = ''2024-08-01''" by code_simp+
  ultimately show ?thesis by (simp add: resolveStatementWindow_def Let_def statement_date_def tx_run)
qed

theorem cash_flow_reconciles_witness:
  "\<exists>s w. lg_lines s \<noteq> [] \<and> resolveStatementWindow ''2025-01-01'' august CASH_FLOW \<lparr>sc_branchId = None, sc_empty = False\<rparr> s = Inr (w, s) \<and>
     cf_reconciled (buildCashFlow (\<lambda>_ _. 0) w s)"
proof -
  from shop_capitalises obtain s0 h r where s0: "stocked 6 s0" "lg_journals s0 = [h]" by auto
  have "ledger_reach s0" using s0(1) by (simp add: stocked_def)
  moreover from this have "lg_lines s0 \<noteq> []"
    using s0(2) reach_ok by (fastforce simp: ledger_ok_def ledger_inv_def journals_inv_def balanced_def JOURNAL_LINES_def)
  ultimately show ?thesis
    using cash_flow_reconciles [OF _ august_window, THEN conjunct1] august_window
    by (intro exI [of _ s0] exI [of _ "\<lparr>sw_from = Some ''2024-08-01'', sw_to = ''2024-08-31'', sw_branchId = None, sw_empty = False\<rparr>"]) blast
qed

end
