(* ===== verification/Aging.thy ===== *)
theory Aging
  imports Statements
begin

text \<open>
  \<open>server/src/services/accountingAging.service.ts\<close>: the open receivables and payables of each party, aged by the days past
  their due date, with receipts applied first in, first out. The invoices a journal came from are read from tables of their
  own, which are an argument of the report; \<open>base_cmp\<close> is the case-insensitive \<open>localeCompare\<close>. The dash of a bucket's label is
  written in ASCII.
\<close>

section \<open>Buckets\<close>

datatype aging_bucket = CURRENT | DAYS_1_30 | DAYS_31_60 | DAYS_61_90 | DAYS_90_PLUS

type_synonym aging_buckets = "aging_bucket \<Rightarrow> rat"

definition AGING_BUCKETS :: "(aging_bucket \<times> string \<times> int option \<times> int option) list" where
  "AGING_BUCKETS =
     [(CURRENT, ''Not yet due'', None, Some 0), (DAYS_1_30, ''1-30 days'', Some 1, Some 30), (DAYS_31_60, ''31-60 days'', Some 31, Some 60),
      (DAYS_61_90, ''61-90 days'', Some 61, Some 90), (DAYS_90_PLUS, ''90+ days'', Some 91, None)]"

definition emptyBuckets :: aging_buckets where
  "emptyBuckets = (\<lambda>_. 0)"

text \<open>A day count is \<open>None\<close> where the program computes NaN, with which every comparison fails.\<close>

definition agingBucketFor :: "int option \<Rightarrow> aging_bucket" where
  "agingBucketFor d =
     (case d of None \<Rightarrow> DAYS_90_PLUS
      | Some n \<Rightarrow> if n \<le> 0 then CURRENT else if n \<le> 30 then DAYS_1_30 else if n \<le> 60 then DAYS_31_60
          else if n \<le> 90 then DAYS_61_90 else DAYS_90_PLUS)"

definition daysBetween :: "string \<Rightarrow> string \<Rightarrow> int option" where
  "daysBetween fromAD toAD =
     (case (parse_ad fromAD, parse_ad toAD) of
        (Some (fy, fm, fd), Some (ty, tm, td)) \<Rightarrow>
          Some (date_utc (int ty) (int tm - 1) (int td) - date_utc (int fy) (int fm - 1) (int fd))
      | _ \<Rightarrow> None)"

section \<open>Rows of the control account\<close>

record invoice_ref =
  iv_id :: string
  iv_invoiceNumber :: string
  iv_invoiceDateAD :: string
  iv_dueDateAD :: "string option"

record invoice_tables =
  it_sales :: "invoice_ref list"
  it_purchase :: "invoice_ref list"

record aging_row =
  ar_entry :: gl_subentry
  ar_journal :: gl_journal
  ar_partyName :: string
  ar_documentNo :: "string option"
  ar_documentDateAD :: string
  ar_storedDueDateAD :: "string option"

text \<open>\<open>TRIM\<close> of SQL removes blanks only; in a \<open>LIKE\<close> pattern the underscore stands for any one character.\<close>

definition sql_trim :: "string \<Rightarrow> string" where
  "sql_trim s = rev (dropWhile (\<lambda>c. c = CHR '' '') (rev (dropWhile (\<lambda>c. c = CHR '' '') s)))"

definition like_prefix :: "string \<Rightarrow> string \<Rightarrow> bool" where
  "like_prefix p s \<longleftrightarrow> list_all2 (\<lambda>x y. x = CHR ''_'' \<or> x = y) p (take (length p) s)"

definition source_invoice :: "string \<Rightarrow> gl_journal \<Rightarrow> invoice_ref list \<Rightarrow> invoice_ref option" where
  "source_invoice p j table = (if like_prefix p (gj_sourceType j) then List.find (\<lambda>i. Some (iv_id i) = gj_sourceId j) table else None)"

definition aging_row_of :: "invoice_tables \<Rightarrow> gl_subentry \<Rightarrow> gl_journal \<Rightarrow> aging_row" where
  "aging_row_of tables e j =
     (let si = source_invoice ''SALES_INVOICE'' j (it_sales tables); pi = source_invoice ''PURCHASE_INVOICE'' j (it_purchase tables);
          partyName = (case gs_partyName e of None \<Rightarrow> [] | Some n \<Rightarrow> sql_trim n)
      in \<lparr>ar_entry = e, ar_journal = j,
          ar_partyName = (if partyName \<noteq> [] then partyName else case gs_partyId e of None \<Rightarrow> ''UNASSIGNED'' | Some p \<Rightarrow> p),
          ar_documentNo = (case si of Some i \<Rightarrow> Some (iv_invoiceNumber i) | None \<Rightarrow> map_option iv_invoiceNumber pi),
          ar_documentDateAD = (case si of Some i \<Rightarrow> iv_invoiceDateAD i
            | None \<Rightarrow> (case pi of Some i \<Rightarrow> iv_invoiceDateAD i | None \<Rightarrow> gj_journalDateAD j)),
          ar_storedDueDateAD = (case si of Some i \<Rightarrow> iv_dueDateAD i | None \<Rightarrow> (case pi of Some i \<Rightarrow> iv_dueDateAD i | None \<Rightarrow> None))\<rparr>)"

definition aging_le :: "aging_row \<Rightarrow> aging_row \<Rightarrow> bool" where
  "aging_le x y =
     (let e = ar_entry x; f = ar_entry y in
      if gs_partyId e \<noteq> gs_partyId f then party_le (gs_partyId e) (gs_partyId f)
      else if gs_entryDateAD e \<noteq> gs_entryDateAD f then str_le (gs_entryDateAD e) (gs_entryDateAD f)
      else if gj_journalNo (ar_journal x) \<noteq> gj_journalNo (ar_journal y) then str_le (gj_journalNo (ar_journal x)) (gj_journalNo (ar_journal y))
      else str_le (gs_id e) (gs_id f))"

definition AGING_SUBLEDGER_ROWS :: "invoice_tables \<Rightarrow> string \<Rightarrow> string \<Rightarrow> string option \<Rightarrow> ledger \<Rightarrow> aging_row list" where
  "AGING_SUBLEDGER_ROWS tables aid asOf branch s =
     order_by aging_le (List.map_filter (\<lambda>e.
         map_option (aging_row_of tables e) (List.find (\<lambda>j. gj_id j = gs_journalId e \<and> gj_status j = ''POSTED'') (lg_journals s)))
       (filter (\<lambda>e. gs_accountId e = aid \<and> str_le (gs_entryDateAD e) asOf \<and> branch_matches branch (gs_branchId e)) (lg_subledger s)))"

definition AGING_CONTROL_ACCOUNT :: "string \<Rightarrow> ledger \<Rightarrow> gl_account option" where
  "AGING_CONTROL_ACCOUNT role s =
     List.find (\<lambda>a. ga_postingRole a = Some role \<and> ACCOUNT_GROUP_BY_ID (ga_groupId a) s \<noteq> None) (lg_accounts s)"

definition AGING_CONTROL_GL_BALANCE :: "string \<Rightarrow> string \<Rightarrow> string option \<Rightarrow> ledger \<Rightarrow> rat" where
  "AGING_CONTROL_GL_BALANCE aid asOf branch s =
     account_sum (\<lambda>l. gl_debit l - gl_credit l) aid (dated_lines (\<lambda>d. str_le d asOf) branch s)"

section \<open>Charges and credits\<close>

record open_item =
  oi_row :: aging_row
  oi_documentNo :: "string option"
  oi_documentDateAD :: string
  oi_dueDateAD :: string
  oi_termsDays :: "int option"
  oi_description :: string
  oi_originalAmount :: rat
  oi_applied :: rat

record party_state =
  ps_partyId :: string
  ps_partyName :: string
  ps_charges :: "open_item list"
  ps_credits :: "open_item list"

definition opt_text :: "string option \<Rightarrow> string" where
  "opt_text v = (case v of None \<Rightarrow> [] | Some s \<Rightarrow> trim s)"

definition resolveDueDate :: "aging_row \<Rightarrow> string \<times> string \<times> int option" where
  "resolveDueDate r =
     (let entryDateAD = take 10 (gs_entryDateAD (ar_entry r)); doc = take 10 (ar_documentDateAD r);
          documentDateAD = (if doc \<noteq> [] then doc else entryDateAD);
          storedDueDateAD = (case ar_storedDueDateAD r of None \<Rightarrow> [] | Some d \<Rightarrow> take 10 d);
          fromPurchaseInvoice = (take 16 (to_upper (trim (gj_sourceType (ar_journal r)))) = ''PURCHASE_INVOICE'');
          genuine = (if fromPurchaseInvoice then str_lt documentDateAD storedDueDateAD else str_le documentDateAD storedDueDateAD);
          dueDateAD = (if storedDueDateAD \<noteq> [] \<and> genuine then storedDueDateAD else documentDateAD)
      in (documentDateAD, dueDateAD, map_option (max 0) (daysBetween documentDateAD dueDateAD)))"

definition charge_item :: "aging_row \<Rightarrow> rat \<Rightarrow> open_item" where
  "charge_item r amt =
     (let (documentDateAD, dueDateAD, termsDays) = resolveDueDate r;
          documentNo = or_null (opt_text (ar_documentNo r)); memo = opt_text (gj_memo (ar_journal r))
      in \<lparr>oi_row = r, oi_documentNo = documentNo, oi_documentDateAD = documentDateAD, oi_dueDateAD = dueDateAD, oi_termsDays = termsDays,
          oi_description = (if memo \<noteq> [] then memo else case documentNo of Some n \<Rightarrow> n | None \<Rightarrow> ''Opening / manual item''),
          oi_originalAmount = amt, oi_applied = 0\<rparr>)"

text \<open>A credit has no document number, due date or terms of its own.\<close>

definition credit_item :: "aging_row \<Rightarrow> rat \<Rightarrow> open_item" where
  "credit_item r amt =
     (let memo = opt_text (gj_memo (ar_journal r)) in
      \<lparr>oi_row = r, oi_documentNo = None, oi_documentDateAD = take 10 (gs_entryDateAD (ar_entry r)), oi_dueDateAD = [], oi_termsDays = None,
       oi_description = (if memo \<noteq> [] then memo else ''Unapplied credit''), oi_originalAmount = amt, oi_applied = 0\<rparr>)"

definition post_item :: "string \<Rightarrow> aging_row \<Rightarrow> party_state \<Rightarrow> party_state" where
  "post_item ty r p =
     (let debit = round_money (gs_debit (ar_entry r)); credit = round_money (gs_credit (ar_entry r));
          chargeAmount = (if ty = ''AR'' then debit else credit); creditAmount = (if ty = ''AR'' then credit else debit)
      in if 0 < chargeAmount then p\<lparr>ps_charges := ps_charges p @ [charge_item r chargeAmount]\<rparr>
         else if 0 < creditAmount then p\<lparr>ps_credits := ps_credits p @ [credit_item r creditAmount]\<rparr>
         else p)"

fun update_party :: "string \<Rightarrow> string \<Rightarrow> (party_state \<Rightarrow> party_state) \<Rightarrow> party_state list \<Rightarrow> party_state list" where
  "update_party pid name f [] =
     [f \<lparr>ps_partyId = pid, ps_partyName = (if name \<noteq> [] then name else pid), ps_charges = [], ps_credits = []\<rparr>]"
| "update_party pid name f (p # ps) =
     (if ps_partyId p = pid then f (if name \<noteq> [] then p\<lparr>ps_partyName := name\<rparr> else p) # ps else p # update_party pid name f ps)"

definition add_aging_row :: "string \<Rightarrow> party_state list \<Rightarrow> aging_row \<Rightarrow> party_state list" where
  "add_aging_row ty ps r =
     (let pid = opt_text (gs_partyId (ar_entry r)) in
      update_party (if pid \<noteq> [] then pid else ''UNASSIGNED'') (trim (ar_partyName r)) (post_item ty r) ps)"

section \<open>First in, first out\<close>

text \<open>
  One charge against the credits from the current index on. The amount still open is rounded where the program stores it, so the
  argument is the figure before rounding. The result is the amount applied to the charge, the credits passed and the credits left.
\<close>

function allocate_charge :: "rat \<Rightarrow> rat \<Rightarrow> open_item list \<Rightarrow> rat \<times> open_item list \<times> open_item list" where
  "allocate_charge raw applied [] = (applied, [], [])"
| "allocate_charge raw applied (c # cs) =
     (let open0 = round_money raw; available = round_money (oi_originalAmount c - oi_applied c) in
      if \<not> 4 / 1000 < open0 then (applied, [], c # cs)
      else if available \<le> 4 / 1000
      then (let (a, passed, rest) = allocate_charge open0 applied cs in (a, c # passed, rest))
      else let part = round_money (min open0 available); c' = c\<lparr>oi_applied := round_money (oi_applied c + part)\<rparr>;
               applied' = round_money (applied + part)
           in if available - part \<le> 4 / 1000
              then (let (a, passed, rest) = allocate_charge (open0 - part) applied' cs in (a, c' # passed, rest))
              else allocate_charge (open0 - part) applied' (c' # cs))"
  by pat_completeness auto

text \<open>A credit is kept at the index only when it covers what was open, and then nothing is.\<close>

termination
proof (relation "measures [\<lambda>(raw, applied, cs). length cs, \<lambda>(raw, applied, cs). if 4 / 1000 < round_money raw then 1 else 0]", goal_cases)
  case (4 raw applied c cs open0 available part c' applied')
  have "is_cents open0" "is_cents available" unfolding 4 by simp_all
  then have "is_cents (min open0 available)" by (auto simp: min_def)
  then have "part = min open0 available" unfolding 4 by (simp only: round_money_cents)
  with 4 have "open0 - part = 0" by (auto simp: min_def split: if_splits)
  with 4 show ?case by simp
qed simp_all

fun allocate_all :: "open_item list \<Rightarrow> open_item list \<Rightarrow> open_item list \<times> open_item list" where
  "allocate_all [] credits = ([], credits)"
| "allocate_all (ch # chs) credits =
     (let (applied, passed, rest) = allocate_charge (oi_originalAmount ch - oi_applied ch) (oi_applied ch) credits;
          (chs', rest') = allocate_all chs rest
      in (ch\<lparr>oi_applied := applied\<rparr> # chs', passed @ rest'))"

section \<open>The report\<close>

record aging_item =
  ai_kind :: string
  ai_item :: open_item
  ai_daysPastDue :: "int option"
  ai_bucket :: "aging_bucket option"
  ai_amount :: rat

record aging_party =
  ap_partyId :: string
  ap_partyName :: string
  ap_buckets :: aging_buckets
  ap_grossTotal :: rat
  ap_unappliedCredit :: rat
  ap_total :: rat
  ap_rows :: "aging_item list"

record aging_report =
  ag_type :: string
  ag_asOf :: string
  ag_branchId :: "string option"
  ag_account :: gl_account
  ag_buckets :: aging_buckets
  ag_parties :: "aging_party list"
  ag_grossTotal :: rat
  ag_unappliedCredit :: rat
  ag_total :: rat
  ag_controlBalance :: rat
  ag_difference :: rat
  ag_reconciled :: bool

definition still_open :: "open_item \<Rightarrow> rat" where
  "still_open i = round_money (oi_originalAmount i - oi_applied i)"

definition charge_row :: "string \<Rightarrow> open_item \<Rightarrow> aging_item" where
  "charge_row asOf ch =
     (let daysPastDue = daysBetween (oi_dueDateAD ch) asOf in
      \<lparr>ai_kind = (if oi_documentNo ch \<noteq> None then ''INVOICE'' else ''ADJUSTMENT''), ai_item = ch, ai_daysPastDue = daysPastDue,
       ai_bucket = Some (agingBucketFor daysPastDue), ai_amount = still_open ch\<rparr>)"

definition credit_row :: "open_item \<Rightarrow> aging_item" where
  "credit_row c = \<lparr>ai_kind = ''CREDIT'', ai_item = c, ai_daysPastDue = None, ai_bucket = None, ai_amount = still_open c\<rparr>"

definition running_total :: "rat list \<Rightarrow> rat" where
  "running_total xs = foldl (\<lambda>t x. round_money (t + x)) 0 xs"

definition age_party :: "string \<Rightarrow> party_state \<Rightarrow> aging_party option" where
  "age_party asOf p =
     (let (charges, credits) = allocate_all (ps_charges p) (ps_credits p);
          open_charges = map (charge_row asOf) (filter (\<lambda>ch. \<not> still_open ch \<le> 4 / 1000) charges);
          open_credits = map credit_row (filter (\<lambda>c. \<not> still_open c \<le> 4 / 1000) credits);
          buckets = (\<lambda>b. running_total (map ai_amount (filter (\<lambda>r. ai_bucket r = Some b) open_charges)));
          grossTotal = running_total (map ai_amount open_charges);
          unappliedCredit = running_total (map ai_amount open_credits)
      in if grossTotal = 0 \<and> unappliedCredit = 0 then None
         else Some \<lparr>ap_partyId = ps_partyId p, ap_partyName = ps_partyName p, ap_buckets = buckets, ap_grossTotal = grossTotal,
                ap_unappliedCredit = unappliedCredit, ap_total = round_money (grossTotal - unappliedCredit),
                ap_rows = open_charges @ open_credits\<rparr>)"

definition emptyReport :: "string \<Rightarrow> string \<Rightarrow> string option \<Rightarrow> gl_account \<Rightarrow> aging_report" where
  "emptyReport ty asOf branch account =
     \<lparr>ag_type = ty, ag_asOf = asOf, ag_branchId = branch, ag_account = account, ag_buckets = emptyBuckets, ag_parties = [],
      ag_grossTotal = 0, ag_unappliedCredit = 0, ag_total = 0, ag_controlBalance = 0, ag_difference = 0, ag_reconciled = True\<rparr>"

definition buildAging ::
  "(string \<Rightarrow> string \<Rightarrow> int) \<Rightarrow> invoice_tables \<Rightarrow> string \<Rightarrow> string \<Rightarrow> string option \<Rightarrow> bool \<Rightarrow> ledger \<Rightarrow> aging_report res" where
  "buildAging base_cmp tables ty asOf branch isEmpty s =
     rbind (guard (ty = ''AR'' \<or> ty = ''AP'') 400 ''Aging type must be AR or AP.'') (\<lambda>_.
     let role = (if ty = ''AR'' then ''AR_CONTROL'' else ''AP_CONTROL'') in
     case AGING_CONTROL_ACCOUNT role s of
       None \<Rightarrow> throw 400 (''The '' @ role @ '' posting default is not configured. Assign it to the '' @
         (if ty = ''AR'' then ''receivable'' else ''payable'') @ '' control account before reading aging.'')
     | Some account \<Rightarrow>
         if isEmpty then Inr (emptyReport ty asOf branch account)
         else let states = foldl (add_aging_row ty) [] (AGING_SUBLEDGER_ROWS tables (ga_id account) asOf branch s);
                  parties = List.map_filter (age_party asOf) states;
                  buckets = (\<lambda>b. running_total (map (\<lambda>p. ap_buckets p b) parties));
                  partyRows = order_by (\<lambda>x y. base_cmp (ap_partyName x) (ap_partyName y) \<le> 0) parties;
                  grossTotal = round_money (sum_list (map ap_grossTotal partyRows));
                  unappliedCredit = round_money (sum_list (map ap_unappliedCredit partyRows));
                  total = round_money (grossTotal - unappliedCredit);
                  glSigned = round_money (AGING_CONTROL_GL_BALANCE (ga_id account) asOf branch s);
                  controlBalance = (if ty = ''AR'' then glSigned else round_money (- glSigned));
                  difference = round_money (controlBalance - total)
              in Inr \<lparr>ag_type = ty, ag_asOf = asOf, ag_branchId = branch, ag_account = account, ag_buckets = buckets, ag_parties = partyRows,
                  ag_grossTotal = grossTotal, ag_unappliedCredit = unappliedCredit, ag_total = total, ag_controlBalance = controlBalance,
                  ag_difference = difference, ag_reconciled = (\<bar>difference\<bar> < 5 / 1000)\<rparr>)"

end
