(* ===== verification/AgingClaims.thy ===== *)
theory AgingClaims
  imports Aging CashClaims
begin

text \<open>
  What the aging report promises: credits settle the oldest charges first and nothing else, and in the books of any reachable
  state the open items net to the balance of the control account.
\<close>

section \<open>Allocation\<close>

definition avail :: "open_item \<Rightarrow> rat" where
  "avail c = oi_originalAmount c - oi_applied c"

definition item_ok :: "open_item \<Rightarrow> bool" where
  "item_ok c \<longleftrightarrow> is_cents (oi_originalAmount c) \<and> is_cents (oi_applied c) \<and> 0 \<le> avail c"

lemma item_ok_cents [simp]: "item_ok c \<Longrightarrow> is_cents (avail c)" "item_ok c \<Longrightarrow> 0 \<le> avail c"
  by (auto simp: item_ok_def avail_def intro: is_cents_diff)

lemma small_cents: "is_cents x \<Longrightarrow> 0 \<le> x \<Longrightarrow> x \<le> 4 / 1000 \<longleftrightarrow> x = 0"
  using cents_eq [of x 0] by auto

definition applied_to :: "open_item \<Rightarrow> rat \<Rightarrow> open_item" where
  "applied_to c x = c\<lparr>oi_applied := oi_applied c + x\<rparr>"

lemma applied_to_fields [simp]: "avail (applied_to c x) = avail c - x" "applied_to c 0 = c"
    "applied_to (applied_to c x) y = applied_to c (x + y)" "oi_applied (applied_to c x) = oi_applied c + x"
    "oi_originalAmount (applied_to c x) = oi_originalAmount c"
  by (simp_all add: applied_to_def avail_def)

lemma item_ok_applied: "item_ok c \<Longrightarrow> is_cents x \<Longrightarrow> x \<le> avail c \<Longrightarrow> item_ok (applied_to c x)"
  by (auto simp: item_ok_def)

text \<open>An amount poured over items, the first taking what it still lacks before the next gets anything.\<close>

fun settle :: "rat \<Rightarrow> open_item list \<Rightarrow> open_item list" where
  "settle t [] = []"
| "settle t (c # cs) = applied_to c (min t (avail c)) # settle (t - min t (avail c)) cs"

lemma settle_zero [simp]: "\<forall>c \<in> set cs. item_ok c \<Longrightarrow> settle 0 cs = cs"
  by (induction cs) (auto simp: min_def)

lemma settle_ok: "is_cents t \<Longrightarrow> \<forall>c \<in> set cs. item_ok c \<Longrightarrow> \<forall>c \<in> set (settle t cs). item_ok c"
proof (induction cs arbitrary: t)
  case (Cons c cs)
  then have m: "is_cents (min t (avail c))" by (auto simp: min_def)
  with Cons.prems have "is_cents (t - min t (avail c))" by (intro is_cents_diff) auto
  from Cons.IH [OF this] Cons.prems m show ?case by (auto intro!: item_ok_applied)
qed simp

lemma settle_sum: "0 \<le> t \<Longrightarrow> \<forall>c \<in> set cs. item_ok c \<Longrightarrow>
  sum_list (map avail (settle t cs)) = sum_list (map avail cs) - min t (sum_list (map avail cs))"
proof (induction cs arbitrary: t)
  case (Cons c cs)
  then have "0 \<le> sum_list (map avail cs)" by (auto intro!: sum_list_nonneg)
  with Cons.IH [of "t - min t (avail c)"] Cons.prems show ?case by (auto simp: min_def)
qed simp

lemma settle_skip: "\<forall>c \<in> set passed. avail c = 0 \<Longrightarrow> 0 \<le> t \<Longrightarrow> settle t (passed @ rest) = passed @ settle t rest"
  by (induction passed) (auto simp: min_def)

lemma settle_two: "0 \<le> t \<Longrightarrow> 0 \<le> u \<Longrightarrow> \<forall>c \<in> set cs. item_ok c \<Longrightarrow> settle u (settle t cs) = settle (t + u) cs"
proof (induction cs arbitrary: t u)
  case (Cons c cs)
  have IH: "settle (u - min u (avail c - min t (avail c))) (settle (t - min t (avail c)) cs) =
      settle (t - min t (avail c) + (u - min u (avail c - min t (avail c)))) cs"
    using Cons.prems by (intro Cons.IH) auto
  have "min t (avail c) + min u (avail c - min t (avail c)) = min (t + u) (avail c)" using Cons.prems by (auto simp: min_def)
  with IH show ?case by (simp add: algebra_simps)
qed simp

lemma allocate_nothing [simp]: "allocate_charge 0 applied cs = (applied, [], cs)"
  by (cases cs) (simp_all add: allocate_charge.simps(2))

declare allocate_charge.simps(2) [simp del]

lemma allocate_step:
  assumes raw: "is_cents raw" "0 \<le> raw" and ap: "is_cents applied" and c: "item_ok c"
  shows "allocate_charge raw applied (c # cs) =
    (if raw = 0 then (applied, [], c # cs)
     else if avail c \<le> raw
     then (case allocate_charge (raw - avail c) (applied + avail c) cs of (a, passed, rest) \<Rightarrow> (a, applied_to c (avail c) # passed, rest))
     else (applied + raw, [], applied_to c raw # cs))"
proof (cases "raw = 0")
  case False
  then have o: "4 / 1000 < raw" using small_cents [OF raw] by auto
  have av: "round_money (oi_originalAmount c - oi_applied c) = avail c" "is_cents (avail c)" "0 \<le> avail c"
    using c by (simp_all add: avail_def [symmetric])
  have oa: "is_cents (oi_applied c)" using c by (simp add: item_ok_def)
  show ?thesis
  proof (cases "avail c \<le> raw")
    case True
    then have m: "min raw (avail c) = avail c" by simp
    show ?thesis
    proof (cases "avail c = 0")
      case True
      have "applied_to c 0 = c" by simp
      with o av raw False True show ?thesis by (simp add: allocate_charge.simps(2))
    next
      case nz: False
      then have "\<not> avail c \<le> 4 / 1000" using small_cents [OF av(2,3)] by auto
      moreover have "c\<lparr>oi_applied := oi_applied c + avail c\<rparr> = applied_to c (avail c)" by (simp add: applied_to_def)
      moreover have "round_money (oi_applied c + avail c) = oi_applied c + avail c" "round_money (applied + avail c) = applied + avail c"
        using oa av ap by (simp_all add: cents_ops)
      ultimately show ?thesis using True False o av raw m by (simp add: Let_def allocate_charge.simps(2))
    qed
  next
    case big: False
    then have m: "min raw (avail c) = raw" by simp
    have "\<not> avail c - raw \<le> 4 / 1000" using small_cents [of "avail c - raw"] av raw big by auto
    moreover have "\<not> avail c \<le> 4 / 1000" using big o by linarith
    moreover have "c\<lparr>oi_applied := oi_applied c + raw\<rparr> = applied_to c raw" by (simp add: applied_to_def)
    moreover have "round_money (oi_applied c + raw) = oi_applied c + raw" "round_money (applied + raw) = applied + raw"
      using oa raw ap by (simp_all add: cents_ops)
    ultimately show ?thesis using big False o av raw m by (simp add: Let_def allocate_charge.simps(2))
  qed
qed simp

lemma allocate_charge_spec:
  assumes "is_cents raw" and "0 \<le> raw" and "is_cents applied" and "\<forall>c \<in> set cs. item_ok c"
  shows "\<exists>passed rest. allocate_charge raw applied cs = (applied + min raw (sum_list (map avail cs)), passed, rest) \<and>
    passed @ rest = settle raw cs \<and> (\<forall>c \<in> set passed. avail c = 0)"
  using assms
proof (induction cs arbitrary: raw applied)
  case (Cons c cs)
  have c: "item_ok c" and cs: "\<forall>c \<in> set cs. item_ok c" using Cons.prems by auto
  have nn: "0 \<le> sum_list (map avail cs)" using cs by (auto intro!: sum_list_nonneg)
  note step = allocate_step [OF Cons.prems(1,2,3) c, of cs]
  show ?case
  proof (cases "raw = 0 \<or> \<not> avail c \<le> raw")
    case True
    with step c cs nn Cons.prems(2) show ?thesis by (auto simp: min_def)
  next
    case False
    have "is_cents (raw - avail c)" "is_cents (applied + avail c)" using Cons.prems c by (auto intro: is_cents_diff is_cents_add)
    with Cons.IH [OF this(1) _ this(2) cs] False obtain passed rest where
      "allocate_charge (raw - avail c) (applied + avail c) cs = (applied + avail c + min (raw - avail c) (sum_list (map avail cs)), passed, rest)"
      "passed @ rest = settle (raw - avail c) cs" "\<forall>c \<in> set passed. avail c = 0" by auto
    with step False show ?thesis by (intro exI [of _ "applied_to c (avail c) # passed"] exI [of _ rest]) (auto simp: min_def)
  qed
qed simp

lemma allocate_all_spec:
  assumes "\<forall>c \<in> set chs. item_ok c" and "\<forall>c \<in> set cs. item_ok c"
  shows "allocate_all chs cs = (settle (sum_list (map avail cs)) chs, settle (sum_list (map avail chs)) cs)"
  using assms
proof (induction chs arbitrary: cs)
  case (Cons ch chs)
  let ?r = "avail ch" and ?A = "sum_list (map avail cs)" and ?R = "sum_list (map avail chs)"
  have ch: "item_ok ch" "is_cents (oi_applied ch)" using Cons.prems by (auto simp: item_ok_def)
  have nn: "0 \<le> ?R" using Cons.prems by (auto intro!: sum_list_nonneg)
  from allocate_charge_spec [of ?r "oi_applied ch" cs] ch Cons.prems(2) obtain passed rest where
    run: "allocate_charge ?r (oi_applied ch) cs = (oi_applied ch + min ?r ?A, passed, rest)"
    and parts: "passed @ rest = settle ?r cs" and gone: "\<forall>c \<in> set passed. avail c = 0" by auto
  have "\<forall>c \<in> set (settle ?r cs). item_ok c" using ch Cons.prems(2) by (intro settle_ok) auto
  then have rest: "\<forall>c \<in> set rest. item_ok c" unfolding parts [symmetric] by simp
  have zero: "sum_list (map avail passed) = 0" using gone by (induction passed) auto
  have left: "sum_list (map avail rest) = ?A - min ?r ?A"
    using settle_sum [of ?r cs] ch Cons.prems(2) zero arg_cong [OF parts, of "\<lambda>cs. sum_list (map avail cs)"] by simp
  have "passed @ settle ?R rest = settle ?R (settle ?r cs)" unfolding parts [symmetric] by (simp add: settle_skip gone nn)
  also have "\<dots> = settle (?r + ?R) cs" using ch Cons.prems(2) nn by (intro settle_two) auto
  finally have credits: "passed @ settle ?R rest = settle (?r + ?R) cs" .
  have "ch\<lparr>oi_applied := oi_applied ch + min ?r ?A\<rparr> = applied_to ch (min ?A ?r)" by (simp add: applied_to_def min.commute)
  with run left credits Cons.IH [OF _ rest] Cons.prems(1) show ?case by (simp add: avail_def [symmetric] min.commute)
qed simp

lemma item_fields [simp]: "oi_originalAmount (charge_item r a) = a" "oi_applied (charge_item r a) = 0"
    "oi_originalAmount (credit_item r a) = a" "oi_applied (credit_item r a) = 0"
  by (simp_all add: charge_item_def credit_item_def Let_def split: prod.split)

definition fresh :: "open_item \<Rightarrow> bool" where
  "fresh c \<longleftrightarrow> is_cents (oi_originalAmount c) \<and> 0 \<le> oi_originalAmount c \<and> oi_applied c = 0"

lemma fresh_item [simp]: "fresh c \<Longrightarrow> item_ok c" "fresh c \<Longrightarrow> avail c = oi_originalAmount c"
  by (simp_all add: fresh_def item_ok_def avail_def)

lemma settle_nth:
  assumes "0 \<le> t" and "\<forall>c \<in> set cs. fresh c" and "k < length cs"
  shows "settle t cs ! k = (cs ! k)\<lparr>oi_applied := max 0 (min (oi_originalAmount (cs ! k)) (t - (\<Sum>c \<leftarrow> take k cs. oi_originalAmount c)))\<rparr>"
  using assms
proof (induction cs arbitrary: t k)
  case (Cons c cs)
  have c: "fresh c" "0 \<le> oi_originalAmount c" "oi_applied c = 0" using Cons.prems by (auto simp: fresh_def)
  show ?case
  proof (cases k)
    case 0
    with c Cons.prems show ?thesis by (simp add: applied_to_def min.commute max_def min_def)
  next
    case (Suc j)
    have "\<forall>x \<in> set (take j cs). fresh x" using Cons.prems(2) by (auto dest: in_set_takeD)
    then have "0 \<le> (\<Sum>c \<leftarrow> take j cs. oi_originalAmount c)" by (auto simp: fresh_def intro!: sum_list_nonneg)
    with Cons.IH [of "t - min t (avail c)" j] Cons.prems c Suc show ?thesis by (auto simp: min_def max_def)
  qed
qed simp

lemma length_settle [simp]: "length (settle t cs) = length cs"
  by (induction t cs rule: settle.induct) auto

text \<open>C23. Credits are applied first in, first out: the loop ends, every charge receives what the credits leave after the charges before
it are settled, up to its own amount, every credit is used in the same way, and nothing else of an item changes.\<close>

theorem aging_fifo:
  assumes "\<forall>c \<in> set (charges @ credits). is_cents (oi_originalAmount c) \<and> 0 \<le> oi_originalAmount c \<and> oi_applied c = 0"
    and "allocate_all charges credits = (charges', credits')"
  shows "length charges' = length charges \<and> length credits' = length credits \<and>
    (\<forall>k < length charges. charges' ! k = (charges ! k)\<lparr>oi_applied := max 0 (min (oi_originalAmount (charges ! k))
      ((\<Sum>c \<leftarrow> credits. oi_originalAmount c) - (\<Sum>c \<leftarrow> take k charges. oi_originalAmount c)))\<rparr>) \<and>
    (\<forall>k < length credits. credits' ! k = (credits ! k)\<lparr>oi_applied := max 0 (min (oi_originalAmount (credits ! k))
      ((\<Sum>c \<leftarrow> charges. oi_originalAmount c) - (\<Sum>c \<leftarrow> take k credits. oi_originalAmount c)))\<rparr>)"
proof -
  have f: "\<forall>c \<in> set charges. fresh c" "\<forall>c \<in> set credits. fresh c" using assms(1) by (auto simp: fresh_def)
  then have av: "map avail charges = map oi_originalAmount charges" "map avail credits = map oi_originalAmount credits" by auto
  have "0 \<le> (\<Sum>c \<leftarrow> charges. oi_originalAmount c)" "0 \<le> (\<Sum>c \<leftarrow> credits. oi_originalAmount c)"
    using f by (auto simp: fresh_def intro!: sum_list_nonneg)
  with allocate_all_spec [of charges credits] f assms(2) settle_nth show ?thesis by (auto simp: av)
qed

definition demo_aging_row :: aging_row where
  "demo_aging_row = \<lparr>ar_entry = \<lparr>gs_id = ''e1'', gs_journalId = ''j1'', gs_lineId = ''l1'', gs_accountId = ''1200'', gs_subledgerId = ''k1'',
     gs_subledgerType = ''CUSTOMER'', gs_partyId = Some ''c1'', gs_partyName = Some ''Ram'', gs_branchId = ''b1'', gs_entryDateAD = ''2024-08-01'',
     gs_debit = 0, gs_credit = 0\<rparr>,
   ar_journal = \<lparr>gj_id = ''j1'', gj_journalNo = ''JV-1'', gj_journalDateAD = ''2024-08-01'', gj_fiscalYearId = ''fy'', gj_periodId = ''p1'',
     gj_branchId = ''b1'', gj_sourceType = ''SALES_INVOICE'', gj_sourceId = Some ''si1'', gj_voucherType = ''JOURNAL'', gj_voucherClass = None,
     gj_referenceNo = None, gj_referenceDateAD = None, gj_chequeNo = None, gj_chequeDateAD = None, gj_currency = ''NPR'', gj_exchangeRate = 1,
     gj_memo = None, gj_status = ''POSTED'', gj_reversalOfId = None, gj_postedBy = None, gj_isDemo = False\<rparr>,
   ar_partyName = ''Ram'', ar_documentNo = Some ''INV1'', ar_documentDateAD = ''2024-08-01'', ar_storedDueDateAD = None\<rparr>"

theorem aging_fifo_witness:
  "map oi_applied (fst (allocate_all [charge_item demo_aging_row 100, charge_item demo_aging_row 50, charge_item demo_aging_row 30] [credit_item demo_aging_row 120])) = [100, 20, 0]"
proof -
  let ?chs = "[charge_item demo_aging_row 100, charge_item demo_aging_row 50, charge_item demo_aging_row 30]" and ?cs = "[credit_item demo_aging_row 120]"
  have "is_cents 100" "is_cents 50" "is_cents 30" "is_cents 120" by code_simp+
  moreover obtain charges' credits' where run: "allocate_all ?chs ?cs = (charges', credits')" by (cases "allocate_all ?chs ?cs")
  ultimately have "length charges' = 3" "charges' ! 0 = (charge_item demo_aging_row 100)\<lparr>oi_applied := 100\<rparr>"
    "charges' ! 1 = (charge_item demo_aging_row 50)\<lparr>oi_applied := 20\<rparr>" "charges' ! 2 = (charge_item demo_aging_row 30)\<lparr>oi_applied := 0\<rparr>"
    using aging_fifo [OF _ run] by (auto simp: All_less_Suc numeral_3_eq_3 numeral_2_eq_2)
  then obtain x y z where "charges' = [x, y, z]" "oi_applied x = 100" "oi_applied y = 20" "oi_applied z = 0"
    by (auto simp: numeral_3_eq_3 length_Suc_conv)
  then show ?thesis unfolding run by simp
qed

section \<open>Parties\<close>

definition party_ok :: "party_state \<Rightarrow> bool" where
  "party_ok p \<longleftrightarrow> list_all fresh (ps_charges p) \<and> list_all fresh (ps_credits p)"

abbreviation charged :: "party_state \<Rightarrow> rat" where
  "charged p \<equiv> sum_list (map oi_originalAmount (ps_charges p))"

abbreviation credited :: "party_state \<Rightarrow> rat" where
  "credited p \<equiv> sum_list (map oi_originalAmount (ps_credits p))"

definition entry_owed :: "string \<Rightarrow> gl_subentry \<Rightarrow> rat" where
  "entry_owed ty e = (if ty = ''AR'' then gs_debit e - gs_credit e else gs_credit e - gs_debit e)"

definition entry_ok :: "gl_subentry \<Rightarrow> bool" where
  "entry_ok e \<longleftrightarrow> is_cents (gs_debit e) \<and> is_cents (gs_credit e) \<and> 0 \<le> gs_debit e \<and> 0 \<le> gs_credit e \<and> (0 < gs_debit e) \<noteq> (0 < gs_credit e)"

lemma post_item_net:
  assumes "party_ok p" and "entry_ok (ar_entry r)"
  shows "party_ok (post_item ty r p) \<and> charged (post_item ty r p) - credited (post_item ty r p) = charged p - credited p + entry_owed ty (ar_entry r)"
  using assms by (auto simp: post_item_def Let_def party_ok_def entry_ok_def entry_owed_def fresh_def)

lemma update_party_net:
  assumes "\<And>p. party_ok p \<Longrightarrow> party_ok (f p) \<and> charged (f p) - credited (f p) = charged p - credited p + d" and "list_all party_ok ps"
  shows "list_all party_ok (update_party pid name f ps) \<and>
    (\<Sum>p \<leftarrow> update_party pid name f ps. charged p - credited p) = (\<Sum>p \<leftarrow> ps. charged p - credited p) + d"
  using assms(2)
proof (induction ps)
  case Nil
  show ?case using assms(1) [of "\<lparr>ps_partyId = pid, ps_partyName = (if name \<noteq> [] then name else pid), ps_charges = [], ps_credits = []\<rparr>"]
    by (simp add: party_ok_def)
next
  case (Cons p ps)
  have "party_ok (if name \<noteq> [] then p\<lparr>ps_partyName := name\<rparr> else p)" using Cons.prems by (simp add: party_ok_def)
  from assms(1) [OF this] Cons show ?case by auto
qed

lemma aging_rows_net:
  assumes "\<forall>r \<in> set rows. entry_ok (ar_entry r)" and "list_all party_ok ps"
  shows "list_all party_ok (foldl (add_aging_row ty) ps rows) \<and>
    (\<Sum>p \<leftarrow> foldl (add_aging_row ty) ps rows. charged p - credited p) =
      (\<Sum>p \<leftarrow> ps. charged p - credited p) + (\<Sum>r \<leftarrow> rows. entry_owed ty (ar_entry r))"
  using assms
proof (induction rows arbitrary: ps)
  case (Cons r rows)
  have "list_all party_ok (add_aging_row ty ps r) \<and> (\<Sum>p \<leftarrow> add_aging_row ty ps r. charged p - credited p) =
      (\<Sum>p \<leftarrow> ps. charged p - credited p) + entry_owed ty (ar_entry r)"
    unfolding add_aging_row_def Let_def using Cons.prems by (intro update_party_net post_item_net) auto
  with Cons show ?case by simp
qed simp

lemma running_total_sum:
  assumes "\<And>x. x \<in> set xs \<Longrightarrow> is_cents x"
  shows "running_total xs = sum_list xs" "is_cents (running_total xs)"
proof -
  have "foldl (\<lambda>t x. round_money (t + x)) y xs = y + sum_list xs" if "is_cents y" for y
    using that assms by (induction xs arbitrary: y) (simp_all add: cents_ops)
  then show *: "running_total xs = sum_list xs" by (simp add: running_total_def)
  show "is_cents (running_total xs)" unfolding * using assms by (intro is_cents_sum_list) auto
qed

definition bucket_list :: "aging_bucket list" where
  "bucket_list = [CURRENT, DAYS_1_30, DAYS_31_60, DAYS_61_90, DAYS_90_PLUS]"

lemma bucket_listed [simp]: "b \<in> set bucket_list"
  by (cases b) (simp_all add: bucket_list_def)

lemma open_amounts:
  assumes "\<forall>c \<in> set cs. item_ok c"
  shows "sum_list (map still_open (filter (\<lambda>c. \<not> still_open c \<le> 4 / 1000) cs)) = sum_list (map avail cs)"
    "\<forall>c \<in> set cs. is_cents (still_open c)"
proof -
  have o: "still_open c = avail c" if "c \<in> set cs" for c
    using assms that by (simp add: still_open_def avail_def [symmetric])
  then have "sum_list (map still_open (filter (\<lambda>c. \<not> still_open c \<le> 4 / 1000) cs)) = sum_list (map still_open cs)"
    using assms small_cents by (intro sum_filter_zero) (auto simp: not_le)
  also have "\<dots> = sum_list (map avail cs)" using o by (simp cong: map_cong)
  finally show "sum_list (map still_open (filter (\<lambda>c. \<not> still_open c \<le> 4 / 1000) cs)) = sum_list (map avail cs)" .
  show "\<forall>c \<in> set cs. is_cents (still_open c)" using o assms by auto
qed

lemma age_party_amounts:
  assumes "party_ok p"
  shows "case age_party asOf p of None \<Rightarrow> charged p - credited p = 0
    | Some q \<Rightarrow> ap_grossTotal q = max 0 (charged p - credited p) \<and> ap_unappliedCredit q = max 0 (credited p - charged p) \<and>
        ap_total q = charged p - credited p \<and> (\<Sum>b \<leftarrow> bucket_list. ap_buckets q b) = ap_grossTotal q \<and> (\<forall>b. is_cents (ap_buckets q b))"
proof -
  have ok: "\<forall>c \<in> set (ps_charges p). item_ok c" "\<forall>c \<in> set (ps_credits p). item_ok c"
    and av: "map avail (ps_charges p) = map oi_originalAmount (ps_charges p)" "map avail (ps_credits p) = map oi_originalAmount (ps_credits p)"
    using assms by (auto simp: party_ok_def list_all_iff)
  have pos: "is_cents (charged p)" "is_cents (credited p)" "0 \<le> charged p" "0 \<le> credited p"
    using assms by (auto simp: party_ok_def list_all_iff fresh_def intro!: cents_sum sum_list_nonneg)
  let ?chs = "settle (credited p) (ps_charges p)" and ?cs = "settle (charged p) (ps_credits p)"
  have run: "allocate_all (ps_charges p) (ps_credits p) = (?chs, ?cs)" using allocate_all_spec [OF ok] by (simp add: av)
  have ok': "\<forall>c \<in> set ?chs. item_ok c" "\<forall>c \<in> set ?cs. item_ok c" using settle_ok ok pos by blast+
  let ?oc = "map (charge_row asOf) (filter (\<lambda>ch. \<not> still_open ch \<le> 4 / 1000) ?chs)"
  let ?ok = "map credit_row (filter (\<lambda>c. \<not> still_open c \<le> 4 / 1000) ?cs)"
  have amounts: "map ai_amount ?oc = map still_open (filter (\<lambda>ch. \<not> still_open ch \<le> 4 / 1000) ?chs)"
      "map ai_amount ?ok = map still_open (filter (\<lambda>c. \<not> still_open c \<le> 4 / 1000) ?cs)"
    by (simp_all add: charge_row_def credit_row_def Let_def)
  have cents: "is_cents (ai_amount r)" if "r \<in> set ?oc \<or> r \<in> set ?ok" for r
    using that open_amounts(2) [OF ok'(1)] open_amounts(2) [OF ok'(2)] by (auto simp: charge_row_def credit_row_def Let_def)
  have "sum_list (map ai_amount ?oc) = charged p - min (credited p) (charged p)"
    unfolding amounts open_amounts(1) [OF ok'(1)] using settle_sum [OF pos(4) ok(1)] by (simp add: av)
  moreover have run_gross: "running_total (map ai_amount ?oc) = sum_list (map ai_amount ?oc)" by (rule running_total_sum) (use cents in auto)
  ultimately have gross: "running_total (map ai_amount ?oc) = max 0 (charged p - credited p)" by (simp add: min_def max_def)
  have "sum_list (map ai_amount ?ok) = credited p - min (charged p) (credited p)"
    unfolding amounts open_amounts(1) [OF ok'(2)] using settle_sum [OF pos(3) ok(2)] by (simp add: av)
  moreover have "running_total (map ai_amount ?ok) = sum_list (map ai_amount ?ok)" by (rule running_total_sum) (use cents in auto)
  ultimately have unapplied: "running_total (map ai_amount ?ok) = max 0 (credited p - charged p)" by (simp add: min_def max_def)
  have bucket: "running_total (map ai_amount (filter (\<lambda>r. ai_bucket r = Some b) ?oc)) = sum_list (map ai_amount (filter (\<lambda>r. ai_bucket r = Some b) ?oc))"
      "is_cents (running_total (map ai_amount (filter (\<lambda>r. ai_bucket r = Some b) ?oc)))" for b
    by (rule running_total_sum, use cents in auto)+
  have "ai_bucket r \<in> Some ` set bucket_list" if "r \<in> set ?oc" for r
    using that by (auto simp: charge_row_def Let_def)
  then have "(\<Sum>b \<leftarrow> bucket_list. sum_list (map ai_amount (filter (\<lambda>r. ai_bucket r = Some b) ?oc))) = sum_list (map ai_amount ?oc)"
    by (intro sum_by_keys) (auto simp: bucket_list_def)
  then have buckets: "(\<Sum>b \<leftarrow> bucket_list. running_total (map ai_amount (filter (\<lambda>r. ai_bucket r = Some b) ?oc))) = running_total (map ai_amount ?oc)"
    unfolding bucket(1) run_gross .
  have "round_money (max 0 (charged p - credited p) - max 0 (credited p - charged p)) = charged p - credited p"
    using pos by (simp add: max_def cents_ops)
  then show ?thesis
    using buckets bucket(2) unfolding age_party_def run Let_def prod.case gross unapplied by (simp add: max_def split: if_splits)
qed

section \<open>The report ties to the ledger\<close>

lemma aging_rows:
  assumes ok: "ledger_ok s" and d: "entries_dated s"
  shows "\<forall>r \<in> set (AGING_SUBLEDGER_ROWS tables aid asOf br s). entry_ok (ar_entry r)"
    "(\<Sum>r \<leftarrow> AGING_SUBLEDGER_ROWS tables aid asOf br s. entry_owed ty (ar_entry r)) = sum_list (map (entry_owed ty) (account_entries aid asOf br s))"
proof -
  let ?find = "\<lambda>e. List.find (\<lambda>j. gj_id j = gs_journalId e \<and> gj_status j = ''POSTED'') (lg_journals s)"
  have "\<exists>j. ?find e = Some j" if "e \<in> set (lg_subledger s)" for e
  proof -
    from d that obtain j where "j \<in> set (lg_journals s)" "gj_id j = gs_journalId e" unfolding entries_dated_def by blast
    moreover from this(1) have "gj_status j = ''POSTED''" using ok by (simp add: ledger_ok_def ledger_inv_def journals_inv_def)
    ultimately have "?find e \<noteq> None" by (auto simp: find_None_iff)
    then show ?thesis by auto
  qed
  then have F: "map_option (aging_row_of tables e) (?find e) = Some (aging_row_of tables e (the (?find e)))" if "e \<in> set (account_entries aid asOf br s)" for e
    using that by (fastforce simp: account_entries_def)
  have rows: "AGING_SUBLEDGER_ROWS tables aid asOf br s = order_by aging_le (map (\<lambda>e. aging_row_of tables e (the (?find e))) (account_entries aid asOf br s))"
    unfolding AGING_SUBLEDGER_ROWS_def account_entries_def [symmetric] by (rule arg_cong [of _ _ "order_by aging_le"], rule map_filter_all, rule F)
  have e: "ar_entry (aging_row_of tables e j) = e" for e j by (simp add: aging_row_of_def Let_def)
  show "(\<Sum>r \<leftarrow> AGING_SUBLEDGER_ROWS tables aid asOf br s. entry_owed ty (ar_entry r)) = sum_list (map (entry_owed ty) (account_entries aid asOf br s))"
    by (simp add: rows o_def e)
  show "\<forall>r \<in> set (AGING_SUBLEDGER_ROWS tables aid asOf br s). entry_ok (ar_entry r)"
    using entry_amounts [OF ok] by (auto simp: rows e account_entries_def entry_ok_def)
qed

lemma parties_total:
  assumes "list_all party_ok ps"
  shows "(\<Sum>q \<leftarrow> List.map_filter (age_party asOf) ps. ap_grossTotal q) - (\<Sum>q \<leftarrow> List.map_filter (age_party asOf) ps. ap_unappliedCredit q) =
      (\<Sum>p \<leftarrow> ps. charged p - credited p)"
    "\<forall>q \<in> set (List.map_filter (age_party asOf) ps). is_cents (ap_grossTotal q) \<and> is_cents (ap_unappliedCredit q) \<and>
      ap_total q = ap_grossTotal q - ap_unappliedCredit q \<and> (ap_grossTotal q = 0 \<or> ap_unappliedCredit q = 0) \<and>
      (\<Sum>b \<leftarrow> bucket_list. ap_buckets q b) = ap_grossTotal q \<and> (\<forall>b. is_cents (ap_buckets q b))"
proof -
  have c: "is_cents (charged p)" "is_cents (credited p)" if "p \<in> set ps" for p
    using assms that by (auto simp: list_all_iff party_ok_def fresh_def intro!: cents_sum)
  show "(\<Sum>q \<leftarrow> List.map_filter (age_party asOf) ps. ap_grossTotal q) - (\<Sum>q \<leftarrow> List.map_filter (age_party asOf) ps. ap_unappliedCredit q) =
      (\<Sum>p \<leftarrow> ps. charged p - credited p)"
    using assms
  proof (induction ps)
    case (Cons p ps)
    with age_party_amounts [of p asOf] show ?case by (auto simp: List.map_filter_def max_def split: option.splits)
  qed (simp add: List.map_filter_def)
  show "\<forall>q \<in> set (List.map_filter (age_party asOf) ps). is_cents (ap_grossTotal q) \<and> is_cents (ap_unappliedCredit q) \<and>
      ap_total q = ap_grossTotal q - ap_unappliedCredit q \<and> (ap_grossTotal q = 0 \<or> ap_unappliedCredit q = 0) \<and>
      (\<Sum>b \<leftarrow> bucket_list. ap_buckets q b) = ap_grossTotal q \<and> (\<forall>b. is_cents (ap_buckets q b))"
  proof
    fix q assume "q \<in> set (List.map_filter (age_party asOf) ps)"
    then obtain p where p: "p \<in> set ps" "age_party asOf p = Some q" by (auto simp: List.map_filter_def)
    with age_party_amounts [of p asOf] assms c [OF p(1)]
    show "is_cents (ap_grossTotal q) \<and> is_cents (ap_unappliedCredit q) \<and>
      ap_total q = ap_grossTotal q - ap_unappliedCredit q \<and> (ap_grossTotal q = 0 \<or> ap_unappliedCredit q = 0) \<and>
      (\<Sum>b \<leftarrow> bucket_list. ap_buckets q b) = ap_grossTotal q \<and> (\<forall>b. is_cents (ap_buckets q b))"
      by (auto simp: list_all_iff max_def cents_ops)
  qed
qed

text \<open>The claim's figures, over the parties before they are sorted.\<close>

lemma bucket_columns:
  assumes "\<forall>q \<in> set qs. (\<Sum>b \<leftarrow> bucket_list. ap_buckets q b) = ap_grossTotal q \<and> (\<forall>b. is_cents (ap_buckets q b))"
  shows "(\<Sum>b \<leftarrow> bucket_list. running_total (map (\<lambda>q. ap_buckets q b) qs)) = (\<Sum>q \<leftarrow> qs. ap_grossTotal q)"
proof -
  have "running_total (map (\<lambda>q. ap_buckets q b) qs) = (\<Sum>q \<leftarrow> qs. ap_buckets q b)" for b
    using assms by (intro running_total_sum) auto
  moreover have "(\<Sum>b \<leftarrow> bs. \<Sum>q \<leftarrow> qs. ap_buckets q b) = (\<Sum>q \<leftarrow> qs. \<Sum>b \<leftarrow> bs. ap_buckets q b)" for bs
    by (induction bs) (simp_all add: sum_add)
  ultimately show ?thesis using assms by (simp cong: map_cong)
qed

text \<open>C11. In every reachable state the aging report of a control account ties to the ledger: the buckets add up to the open charges, the
parties' totals to the report's, no party both owes and is in credit, and the total is the account's balance, so the report is
reconciled. On an account that holds the posting role without being a control account the report is empty.\<close>

theorem aging_reconciles:
  assumes "ledger_reach s" and "buildAging base_cmp tables ty asOf br isEmpty s = Inr r"
  shows "(\<Sum>b \<leftarrow> [CURRENT, DAYS_1_30, DAYS_31_60, DAYS_61_90, DAYS_90_PLUS]. ag_buckets r b) = ag_grossTotal r \<and>
    (\<Sum>p \<leftarrow> ag_parties r. ap_total p) = ag_total r \<and> ag_total r = ag_grossTotal r - ag_unappliedCredit r \<and>
    (\<forall>p \<in> set (ag_parties r). ap_grossTotal p = 0 \<or> ap_unappliedCredit p = 0) \<and>
    (if ga_isControl (ag_account r) then ag_total r = ag_controlBalance r \<and> ag_difference r = 0 \<and> ag_reconciled r
     else ag_total r = 0 \<and> ag_difference r = ag_controlBalance r)"
proof -
  have ok: "ledger_ok s" and d: "entries_dated s" using reach_ok [OF assms(1)] reach_placed [OF assms(1)] by (simp_all add: books_placed_def)
  from assms(2) obtain account where ty: "ty = ''AR'' \<or> ty = ''AP''"
    and acc: "AGING_CONTROL_ACCOUNT (if ty = ''AR'' then ''AR_CONTROL'' else ''AP_CONTROL'') s = Some account"
    by (auto simp: buildAging_def Let_def rbind_eq_Inr split: option.splits)
  show ?thesis
  proof (cases isEmpty)
    case True
    with assms(2) ty acc show ?thesis by (auto simp: buildAging_def Let_def emptyReport_def emptyBuckets_def)
  next
    case False
    let ?rows = "AGING_SUBLEDGER_ROWS tables (ga_id account) asOf br s"
    let ?ps = "foldl (add_aging_row ty) [] ?rows"
    let ?qs = "List.map_filter (age_party asOf) ?ps"
    define gross where "gross = (\<Sum>q \<leftarrow> ?qs. ap_grossTotal q)"
    define unapplied where "unapplied = (\<Sum>q \<leftarrow> ?qs. ap_unappliedCredit q)"
    define gl where "gl = AGING_CONTROL_GL_BALANCE (ga_id account) asOf br s"
    note rows = aging_rows [OF ok d, where tables = tables and aid = "ga_id account" and asOf = asOf and br = br]
    from aging_rows_net [OF rows(1), of "[]" ty] rows(2) [where ty = ty]
    have ps: "list_all party_ok ?ps" and net: "(\<Sum>p \<leftarrow> ?ps. charged p - credited p) = sum_list (map (entry_owed ty) (account_entries (ga_id account) asOf br s))"
      by simp_all
    note parties = parties_total [OF ps, of asOf]
    have total: "gross - unapplied = sum_list (map (entry_owed ty) (account_entries (ga_id account) asOf br s))"
      using parties(1) net by (simp add: gross_def unapplied_def)
    have cents: "is_cents gross" "is_cents unapplied" "is_cents gl"
      using parties(2) account_sum_cents [OF ok] by (auto simp: gross_def unapplied_def gl_def AGING_CONTROL_GL_BALANCE_def intro!: cents_sum)
    have sums: "round_money gross = gross" "round_money unapplied = unapplied" "round_money (gross - unapplied) = gross - unapplied" "round_money gl = gl"
      using cents by (simp_all add: cents_ops)
    have buckets: "(\<Sum>b \<leftarrow> bucket_list. running_total (map (\<lambda>q. ap_buckets q b) ?qs)) = gross"
      unfolding gross_def by (rule bucket_columns) (use parties(2) in blast)
    have each: "(\<Sum>q \<leftarrow> ?qs. ap_total q) = gross - unapplied"
      using parties(2) unfolding gross_def unapplied_def by (simp add: sum_diff [symmetric] cong: map_cong)
    have acc_in: "account \<in> set (lg_accounts s)" using acc by (auto simp: AGING_CONTROL_ACCOUNT_def dest: find_SomeD)
    have owed: "sum_list (map (entry_owed ty) es) = (if ty = ''AR'' then 1 else - 1) * sum_list (map (\<lambda>e. gs_debit e - gs_credit e) es)" for es
      by (induction es) (auto simp: entry_owed_def)
    have agree: "gross - unapplied = (if ga_isControl account then if ty = ''AR'' then gl else - gl else 0)"
      using controls_through [OF ok d acc_in, of asOf br] no_entries [OF ok acc_in, of asOf br] by (simp add: total owed gl_def AGING_CONTROL_GL_BALANCE_def)
    have run: "r = \<lparr>ag_type = ty, ag_asOf = asOf, ag_branchId = br, ag_account = account,
        ag_buckets = \<lambda>b. running_total (map (\<lambda>q. ap_buckets q b) ?qs),
        ag_parties = order_by (\<lambda>x y. base_cmp (ap_partyName x) (ap_partyName y) \<le> 0) ?qs, ag_grossTotal = gross, ag_unappliedCredit = unapplied,
        ag_total = gross - unapplied, ag_controlBalance = if ty = ''AR'' then gl else - gl,
        ag_difference = round_money ((if ty = ''AR'' then gl else - gl) - (gross - unapplied)),
        ag_reconciled = (\<bar>round_money ((if ty = ''AR'' then gl else - gl) - (gross - unapplied))\<bar> < 5 / 1000)\<rparr>"
      using assms(2) ty acc False cents by (auto simp: buildAging_def Let_def sums gross_def [symmetric] unapplied_def [symmetric] gl_def [symmetric] is_cents_uminus)
    have g: "round_money (if ty = ''AR'' then gl else - gl) = (if ty = ''AR'' then gl else - gl)" using cents by (simp add: is_cents_uminus)
    show ?thesis using buckets each agree g parties(2) by (simp add: run bucket_list_def)
  qed
qed

theorem aging_reconciles_witness:
  "\<exists>s r. lg_subledger s \<noteq> [] \<and> ga_isControl (ag_account r) \<and>
    buildAging (\<lambda>_ _. 0) \<lparr>it_sales = [], it_purchase = []\<rparr> ''AR'' ''2024-08-31'' None False s = Inr r \<and> ag_reconciled r"
proof -
  from shop_sale [OF stocked_shop] obtain j s where sale: "postSalesInvoiceLedger shop_invoice shop = Inr (Some j, s)" "stocked 12 s" by auto
  have reach: "ledger_reach s" and accs: "lg_accounts s = shop_accounts" "lg_groups s = lg_groups shop"
    using sale(2) by (simp_all add: stocked_def same_masters_def shop_masters)
  have ok: "ledger_ok s" using reach by (rule reach_ok)
  have "(''1200'', 113, 0) \<in> set (entries j s)" by (simp add: shop_sale_entries [OF sale(1)])
  then obtain l where "l \<in> set (lg_lines s)" "gl_accountId l = ''1200''" by (auto simp: entries_def entry_def JOURNAL_LINES_def)
  moreover have "is_control s ''1200''" by (simp add: is_control_def accs shop_accounts_def shop_account_def)
  ultimately have sub: "lg_subledger s \<noteq> []"
    using arg_cong [OF subledger_mirror [OF ok], of set] by (auto simp: image_iff) metis
  let ?a = "shop_account ''1200'' ''A'' ''AR_CONTROL'' ''CUSTOMER''"
  have a: "AGING_CONTROL_ACCOUNT ''AR_CONTROL'' s = Some ?a"
    by (simp add: AGING_CONTROL_ACCOUNT_def accs shop_accounts_def ACCOUNT_GROUP_BY_ID_def shop_masters shop_account_def shop_group_def)
  obtain r where r: "buildAging (\<lambda>_ _. 0) \<lparr>it_sales = [], it_purchase = []\<rparr> ''AR'' ''2024-08-31'' None False s = Inr r" "ag_account r = ?a"
    unfolding buildAging_def Let_def by (simp add: a)
  moreover have "ga_isControl ?a" by (simp add: shop_account_def)
  ultimately show ?thesis using aging_reconciles [OF reach r(1)] sub by (intro exI [of _ s] exI [of _ r]) simp
qed

end
