(* ===== verification/BranchScope.thy ===== *)
theory BranchScope
  imports YearEnd
begin

text \<open>
  Which branches an account may act on: the registry of \<open>server/src/middleware/branchScope.ts\<close> and the middleware
  \<open>enforceBranchAccess\<close> of \<open>server/src/middleware/index.ts\<close> that runs before every API handler. Strings outside ASCII are
  their UTF-8 bytes, so \<open>decodeURIComponent\<close> turns escapes into bytes and throws where they are not UTF-8. The row a path's id
  names is a parameter, \<open>lookup\<close>: it is the answer of the database, or its failure.
\<close>

section \<open>Sessions and requests\<close>

record session_user =
  su_id :: string
  su_email :: string
  su_name :: string
  su_role :: string
  su_branchId :: string
  su_allowedBranchIds :: "string list"

record request =
  rq_method :: string
  rq_path :: string
  rq_query :: jsval
  rq_body :: jsval
  rq_user :: "session_user option"

text \<open>A middleware calls \<open>next()\<close>, answers itself, or rejects: an error inside an asynchronous one is never answered.\<close>

datatype gate = Next | Respond nat string | Rejected

section \<open>The registry\<close>

record branch_resource =
  rs_prefix :: string
  rs_table :: string
  rs_columns :: "string list"
  rs_idLookup :: string

definition resource :: "string \<Rightarrow> string \<Rightarrow> string list \<Rightarrow> string \<Rightarrow> branch_resource" where
  "resource p t cs i = \<lparr>rs_prefix = p, rs_table = t, rs_columns = cs, rs_idLookup = i\<rparr>"

definition BRANCH_SCOPED_RESOURCES :: "branch_resource list" where
  "BRANCH_SCOPED_RESOURCES =
    [resource ''/stock'' ''inventory_stock'' [''branch_id''] ''id = $1'',
     resource ''/assets'' ''fixed_assets'' [''branch_id''] ''id = $1'',
     resource ''/purchase-orders'' ''purchase_orders'' [''branch_id''] ''id = $1'',
     resource ''/purchase-invoices'' ''purchase_invoices'' [''branch_id''] ''id = $1'',
     resource ''/vendor-payments'' ''vendor_payments'' [''branch_id''] ''id = $1'',
     resource ''/shipments'' ''shipments'' [''source_branch_id'', ''destination_branch_id''] ''id = $1 OR tracking_code = $1'',
     resource ''/stock-operations'' ''stock_operations'' [''branch_id'', ''destination_warehouse_id''] ''id = $1'',
     resource ''/customer-devices'' ''customer_device_records'' [''branch_id''] ''id = $1'',
     resource ''/serial-log'' ''serial_log'' [''branch_id''] ''id = $1'',
     resource ''/customers'' ''customer_records'' [''branch_id''] ''id = $1'',
     resource ''/sales-invoices'' ''sales_invoices'' [''branch_id''] ''id = $1'',
     resource ''/sales-returns'' ''sales_returns'' [''branch_id''] ''id = $1'',
     resource ''/purchase-returns'' ''purchase_returns'' [''branch_id''] ''id = $1'',
     resource ''/customer-payments'' ''customer_payments'' [''branch_id''] ''id = $1'',
     resource ''/approval-requests'' ''approval_requests'' [''branch_id''] ''id = $1'',
     resource ''/locations'' ''locations'' [''branch_id''] ''id = $1'',
     resource ''/warranties'' ''warranty_coverages'' [''branch_id''] ''id = $1'',
     resource ''/accounting/journals'' ''gl_journals'' [''branch_id''] ''id = $1'',
     resource ''/sales/areas'' ''areas'' [''branch_id''] ''id = $1'',
     resource ''/accounting/cost-centers'' ''cost_centers'' [''branch_id''] ''id = $1'',
     resource ''/employees'' ''employees'' [''branch_id''] ''id = $1'',
     resource ''/payroll-runs'' ''payroll_runs'' [''branch_id''] ''id = $1'',
     resource ''/accounting/cash-close'' ''daily_cash_closes'' [''branch_id''] ''id = $1'']"

definition BRANCH_SCOPED_READ_PATHS :: "string list" where
  "BRANCH_SCOPED_READ_PATHS =
    [''/stock'', ''/assets'', ''/purchase-orders'', ''/purchase-invoices'', ''/vendor-payments'', ''/shipments'',
     ''/stock-operations'', ''/customer-devices'', ''/customers'', ''/sales-invoices'', ''/sales-returns'',
     ''/purchase-returns'', ''/approval-requests'', ''/locations'', ''/employees'', ''/payroll-runs'']"

definition COLLECTION_SEGMENTS :: "string list" where
  "COLLECTION_SEGMENTS =
    [''page'', ''overview'', ''available'', ''lookup'', ''warranty'', ''vendor'', ''seller'', ''exchange'', ''refusal'',
     ''bulk'', ''bulk-reorder-levels'', ''reconcile-audit'', ''consolidated'']"

definition path_under :: "string \<Rightarrow> string \<Rightarrow> bool" where
  "path_under path p \<longleftrightarrow> path = p \<or> take (length p + 1) path = p @ ''/''"

definition findBranchScopedResource :: "string \<Rightarrow> branch_resource option" where
  "findBranchScopedResource path = List.find (\<lambda>r. path_under path (rs_prefix r)) BRANCH_SCOPED_RESOURCES"

definition is_global :: "session_user \<Rightarrow> bool" where
  "is_global u \<longleftrightarrow> su_role u = ''SUPER_ADMIN'' \<or> su_role u = ''HEAD_OFFICE_ADMIN'' \<or> su_branchId u = ''ALL''"

definition own_branches :: "session_user \<Rightarrow> string list" where
  "own_branches u = first_occurrences (filter (\<lambda>b. b \<noteq> []) (su_branchId u # su_allowedBranchIds u))"

definition allowedBranchScope :: "session_user option \<Rightarrow> string list option" where
  "allowedBranchScope user =
     (case user of None \<Rightarrow> Some [] | Some u \<Rightarrow> if is_global u then None else Some (own_branches u))"

section \<open>Percent-decoding\<close>

definition hex_byte :: "char \<Rightarrow> char \<Rightarrow> nat option" where
  "hex_byte a b =
     (case (radix_digit a, radix_digit b) of
        (Some x, Some y) \<Rightarrow> if x < 16 \<and> y < 16 then Some (16 * x + y) else None
      | _ \<Rightarrow> None)"

text \<open>The bytes that may follow a leading byte of UTF-8, as ranges.\<close>

definition utf8_follow :: "nat \<Rightarrow> (nat \<times> nat) list option" where
  "utf8_follow v =
     (let any = (128, 191) in
      if v < 128 then Some []
      else if 194 \<le> v \<and> v \<le> 223 then Some [any]
      else if v = 224 then Some [(160, 191), any]
      else if v = 237 then Some [(128, 159), any]
      else if 225 \<le> v \<and> v \<le> 239 then Some [any, any]
      else if v = 240 then Some [(144, 191), any, any]
      else if 241 \<le> v \<and> v \<le> 243 then Some [any, any, any]
      else if v = 244 then Some [(128, 143), any, any]
      else None)"

fun decode_from :: "(nat \<times> nat) list \<Rightarrow> string \<Rightarrow> string option" where
  "decode_from follow [] = (if follow = [] then Some [] else None)"
| "decode_from follow (c # cs) =
     (if c \<noteq> CHR ''%'' then (if follow = [] then map_option ((#) c) (decode_from [] cs) else None)
      else case cs of
        a # b # rest \<Rightarrow>
          (case hex_byte a b of None \<Rightarrow> None
           | Some v \<Rightarrow>
             (case (case follow of [] \<Rightarrow> utf8_follow v | (lo, hi) # after \<Rightarrow> if lo \<le> v \<and> v \<le> hi then Some after else None) of
                None \<Rightarrow> None
              | Some after \<Rightarrow> map_option ((#) (char_of v)) (decode_from after rest)))
      | _ \<Rightarrow> None)"

definition decodeURIComponent :: "string \<Rightarrow> string option" where
  "decodeURIComponent s = decode_from [] s"

section \<open>The middleware\<close>

definition first_segment :: "string \<Rightarrow> string \<Rightarrow> string" where
  "first_segment p path = takeWhile (\<lambda>c. c \<noteq> CHR ''/'') (drop (length p + 1) path)"

definition requested_branches :: "request \<Rightarrow> string list" where
  "requested_branches req =
     first_occurrences (filter (\<lambda>b. b \<noteq> [] \<and> b \<noteq> ''ALL'') (List.map_filter str_val
       [jget (rq_query req) ''branchId'', jget (rq_body req) ''branchId'', jget (rq_body req) ''sourceBranchId'',
        jget (rq_body req) ''destinationBranchId'']))"

text \<open>The lookup by id of a guarded record.\<close>

definition record_gate ::
  "(branch_resource \<Rightarrow> string \<Rightarrow> (string \<Rightarrow> string option) option res) \<Rightarrow> string list \<Rightarrow> string \<Rightarrow> gate" where
  "record_gate lookup allowed path =
     (case findBranchScopedResource path of None \<Rightarrow> Next
      | Some r \<Rightarrow>
        (case decodeURIComponent (first_segment (rs_prefix r) path) of None \<Rightarrow> Rejected
         | Some resourceId \<Rightarrow>
           if resourceId = [] \<or> resourceId \<in> set COLLECTION_SEGMENTS then Next
           else case lookup r resourceId of
               Inl e \<Rightarrow> Rejected
             | Inr None \<Rightarrow> Next
             | Inr (Some row) \<Rightarrow>
                 if list_ex (\<lambda>column. case row column of None \<Rightarrow> False | Some b \<Rightarrow> b \<in> set allowed) (rs_columns r) then Next
                 else Respond 403 ''Forbidden: this record belongs to another branch.''))"

definition enforceBranchAccess ::
  "(branch_resource \<Rightarrow> string \<Rightarrow> (string \<Rightarrow> string option) option res) \<Rightarrow> bool \<Rightarrow> request \<Rightarrow> gate" where
  "enforceBranchAccess lookup pgConnected req =
     (case rq_user req of None \<Rightarrow> Next
      | Some user \<Rightarrow>
        if is_global user then Next
        else let queried = jget (rq_query req) ''branchId''; allowed = su_branchId user # su_allowedBranchIds user; requested = requested_branches req in
        if rq_path req = ''/bootstrap'' \<and> \<not> list_ex (\<lambda>b. queried = JStr b \<and> b \<noteq> ''ALL'') (own_branches user)
        then Respond 403 ''Forbidden: bootstrap must be scoped to the authenticated user branch.''
        else if rq_method req = ''GET'' \<and>
          (case List.find (path_under (rq_path req)) BRANCH_SCOPED_READ_PATHS of None \<Rightarrow> False
           | Some p \<Rightarrow> (first_segment p (rq_path req) = [] \<or> first_segment p (rq_path req) \<in> set COLLECTION_SEGMENTS) \<and>
               queried \<noteq> JStr (su_branchId user) \<and> queried \<notin> set (map JStr (su_allowedBranchIds user)))
        then Respond 403 ''Forbidden: branch-scoped reads require an authorized branch filter.''
        else if \<exists>b \<in> set requested. b \<notin> set allowed
        then Respond 403 ''Forbidden: this account is not authorized for the requested branch.''
        else if requested = [] \<and> (queried = JStr ''ALL'' \<or> jget (rq_body req) ''branchId'' = JStr ''ALL'')
        then Respond 403 ''Forbidden: branch users cannot access all branches.''
        else if pgConnected then record_gate lookup allowed (rq_path req) else Next)"

end
