(* ===== verification/CashClose.thy ===== *)
theory CashClose
  imports BranchScope CashFlow
begin

text \<open>
  The daily cash close: \<open>server/src/services/cashClose.service.ts\<close> with its statements in \<open>cashClose.repo.ts\<close> and its requests in
  \<open>cashClose.controller.ts\<close>. The desk's state is the ledger and the table of closes. A branch's code and name, columns the ledger
  does not keep, are the argument \<open>label\<close>; \<open>today\<close> is the server's calendar day and \<open>now\<close> its clock. The advisory lock is held by
  the caller's transaction, and the audit entry is written elsewhere.
\<close>

section \<open>Figures\<close>

record cash_figures =
  cq_branchId :: string
  cq_code :: string
  cq_name :: string
  cq_opening :: rat
  cq_cashIn :: rat
  cq_cashOut :: rat
  cq_expectedClosing :: rat

definition in_scope :: "string list option \<Rightarrow> string \<Rightarrow> bool" where
  "in_scope scope b \<longleftrightarrow> (case scope of None \<Rightarrow> True | Some bs \<Rightarrow> b \<in> set bs)"

definition scoped_line :: "string \<Rightarrow> string list option \<Rightarrow> ledger \<Rightarrow> gl_line \<Rightarrow> (gl_line \<times> string) option" where
  "scoped_line date scope s l =
     (case List.find (\<lambda>j. gj_id j = gl_journalId l) (lg_journals s) of None \<Rightarrow> None
      | Some j \<Rightarrow> case ACCOUNT_BY_ID (gl_accountId l) s of None \<Rightarrow> None
      | Some a \<Rightarrow> if gj_status j = ''POSTED'' \<and> cash_kind a \<and> str_le (gj_journalDateAD j) date \<and> in_scope scope (gl_branchId l)
          then Some (l, gj_journalDateAD j) else None)"

definition CASH_BRANCH_FIGURES :: "(string \<Rightarrow> string \<times> string) \<Rightarrow> string \<Rightarrow> string list option \<Rightarrow> ledger \<Rightarrow> cash_figures list" where
  "CASH_BRANCH_FIGURES label date scope s =
     (let scoped = List.map_filter (scoped_line date scope s) (lg_lines s);
          total = (\<lambda>b on f. sum_list (map (\<lambda>(l, d). f l) (filter (\<lambda>(l, d). gl_branchId l = b \<and> on d) scoped)))
      in map (\<lambda>b. \<lparr>cq_branchId = b, cq_code = fst (label b), cq_name = snd (label b),
            cq_opening = total b (\<lambda>d. str_lt d date) (\<lambda>l. gl_debit l - gl_credit l),
            cq_cashIn = total b (\<lambda>d. d = date) gl_debit, cq_cashOut = total b (\<lambda>d. d = date) gl_credit,
            cq_expectedClosing = total b (\<lambda>d. str_le d date) (\<lambda>l. gl_debit l - gl_credit l)\<rparr>)
          (order_by (\<lambda>b c. str_le (fst (label b)) (fst (label c))) (filter (in_scope scope) (lg_branches s))))"

section \<open>The table of closes\<close>

record cash_close =
  dc_id :: string
  dc_branchId :: string
  dc_businessDateAD :: string
  dc_openingCash :: rat
  dc_cashIn :: rat
  dc_cashOut :: rat
  dc_expectedClosing :: rat
  dc_countedClosing :: rat
  dc_variance :: rat
  dc_status :: string
  dc_closedBy :: "string option"
  dc_closedAt :: "string option"
  dc_reopenedBy :: "string option"
  dc_reopenedAt :: "string option"

record cash_desk =
  cd_ledger :: ledger
  cd_closes :: "cash_close list"
  cd_uuid :: nat

text \<open>The column types and the check of the table, on a row about to be stored.\<close>

definition close_fits :: "cash_close \<Rightarrow> bool" where
  "close_fits c \<longleftrightarrow> length (dc_id c) \<le> 50 \<and>
     list_all (\<lambda>x. \<bar>x\<bar> < 10 ^ 12) [dc_openingCash c, dc_cashIn c, dc_cashOut c, dc_expectedClosing c, dc_countedClosing c, dc_variance c] \<and>
     (case dc_closedBy c of None \<Rightarrow> True | Some b \<Rightarrow> length b \<le> 150) \<and>
     (case dc_reopenedBy c of None \<Rightarrow> True | Some b \<Rightarrow> length b \<le> 150) \<and>
     dc_variance c = dc_countedClosing c - dc_expectedClosing c"

definition DAILY_CASH_CLOSE_BY_ID :: "string \<Rightarrow> cash_desk \<Rightarrow> cash_close option" where
  "DAILY_CASH_CLOSE_BY_ID i d = List.find (\<lambda>c. dc_id c = i) (cd_closes d)"

definition DAILY_CASH_CLOSE_BY_BRANCH_DATE :: "string \<Rightarrow> string \<Rightarrow> cash_desk \<Rightarrow> cash_close option" where
  "DAILY_CASH_CLOSE_BY_BRANCH_DATE b date d = List.find (\<lambda>c. dc_branchId c = b \<and> dc_businessDateAD c = date) (cd_closes d)"

definition DAILY_CASH_CLOSES_FOR_DATE :: "string \<Rightarrow> string list option \<Rightarrow> cash_desk \<Rightarrow> cash_close list" where
  "DAILY_CASH_CLOSES_FOR_DATE date scope d =
     order_by (\<lambda>x y. str_le (dc_branchId x) (dc_branchId y)) (filter (\<lambda>c. dc_businessDateAD c = date \<and> in_scope scope (dc_branchId c)) (cd_closes d))"

definition DAILY_CASH_CLOSE_INSERT :: "cash_close \<Rightarrow> (cash_desk, cash_close) tx" where
  "DAILY_CASH_CLOSE_INSERT c = (\<lambda>d.
     if \<not> close_fits c \<or> dc_branchId c \<notin> set (lg_branches (cd_ledger d))
     then Inl (ApiError 500 ''new row for relation daily_cash_closes violates a constraint'')
     else if list_ex (\<lambda>x. dc_id x = dc_id c \<or> dc_branchId x = dc_branchId c \<and> dc_businessDateAD x = dc_businessDateAD c) (cd_closes d)
     then Inl (ApiError 500 ''duplicate key value violates unique constraint'')
     else Inr (c, d\<lparr>cd_closes := cd_closes d @ [c]\<rparr>))"

definition update_close :: "string \<Rightarrow> (cash_close \<Rightarrow> cash_close) \<Rightarrow> (cash_desk, cash_close option) tx" where
  "update_close i f = (\<lambda>d.
     if list_ex (\<lambda>c. dc_id c = i \<and> \<not> close_fits (f c)) (cd_closes d)
     then Inl (ApiError 500 ''new row for relation daily_cash_closes violates a constraint'')
     else let d' = d\<lparr>cd_closes := map (\<lambda>c. if dc_id c = i then f c else c) (cd_closes d)\<rparr> in Inr (DAILY_CASH_CLOSE_BY_ID i d', d'))"

definition DAILY_CASH_CLOSE_UPDATE_CLOSED ::
  "string \<Rightarrow> rat \<Rightarrow> rat \<Rightarrow> rat \<Rightarrow> rat \<Rightarrow> rat \<Rightarrow> rat \<Rightarrow> string option \<Rightarrow> string \<Rightarrow> (cash_desk, cash_close option) tx" where
  "DAILY_CASH_CLOSE_UPDATE_CLOSED i opening cashIn cashOut expected counted variance closedBy now =
     update_close i (\<lambda>c. c\<lparr>dc_openingCash := opening, dc_cashIn := cashIn, dc_cashOut := cashOut, dc_expectedClosing := expected,
       dc_countedClosing := counted, dc_variance := variance, dc_status := ''CLOSED'', dc_closedBy := closedBy, dc_closedAt := Some now,
       dc_reopenedBy := None, dc_reopenedAt := None\<rparr>)"

definition DAILY_CASH_CLOSE_REOPEN :: "string \<Rightarrow> string option \<Rightarrow> string \<Rightarrow> (cash_desk, cash_close option) tx" where
  "DAILY_CASH_CLOSE_REOPEN i actor now =
     update_close i (\<lambda>c. c\<lparr>dc_status := ''OPEN'', dc_reopenedBy := actor, dc_reopenedAt := Some now\<rparr>)"

section \<open>Closing and reopening a day\<close>

definition mapClose :: "cash_close \<Rightarrow> cash_close" where
  "mapClose c = c\<lparr>dc_businessDateAD := take 10 (dc_businessDateAD c), dc_openingCash := round_money (dc_openingCash c),
     dc_cashIn := round_money (dc_cashIn c), dc_cashOut := round_money (dc_cashOut c), dc_expectedClosing := round_money (dc_expectedClosing c),
     dc_countedClosing := round_money (dc_countedClosing c), dc_variance := round_money (dc_variance c),
     dc_status := (if dc_status c = ''OPEN'' then ''OPEN'' else ''CLOSED''), dc_closedBy := opt_or_null (dc_closedBy c),
     dc_closedAt := opt_or_null (dc_closedAt c), dc_reopenedBy := opt_or_null (dc_reopenedBy c), dc_reopenedAt := opt_or_null (dc_reopenedAt c)\<rparr>"

definition closeCashDay :: "(string \<Rightarrow> string \<times> string) \<Rightarrow> string \<Rightarrow> string \<Rightarrow> string \<Rightarrow> rat \<Rightarrow> string option \<Rightarrow> (cash_desk, cash_close) tx" where
  "closeCashDay label now branchId dateAD countedClosing actor =
     tbind (tquery (\<lambda>d. first_row (CASH_BRANCH_FIGURES label dateAD (Some [branchId]) (cd_ledger d)))) (\<lambda>row.
     case row of None \<Rightarrow> tthrow 404 (''Branch '' @ branchId @ '' does not exist.'')
     | Some figures \<Rightarrow>
     tbind (tquery (DAILY_CASH_CLOSE_BY_BRANCH_DATE branchId dateAD)) (\<lambda>existing.
     tbind (tguard (case existing of None \<Rightarrow> True | Some c \<Rightarrow> dc_status c \<noteq> ''CLOSED'') 409
       (''Cash for '' @ branchId @ '' on '' @ dateAD @ '' is already closed. Reopen the day before counting it again.'')) (\<lambda>_.
     let expectedClosing = round_money (cq_expectedClosing figures); variance = round_money (countedClosing - expectedClosing);
         opening = round_money (cq_opening figures); cashIn = round_money (cq_cashIn figures); cashOut = round_money (cq_cashOut figures) in
     case existing of
       Some c \<Rightarrow> tbind (DAILY_CASH_CLOSE_UPDATE_CLOSED (dc_id c) opening cashIn cashOut expectedClosing countedClosing variance actor now)
         (\<lambda>row. case row of None \<Rightarrow> tthrow 500 ''no row returned'' | Some c' \<Rightarrow> treturn (mapClose c'))
     | None \<Rightarrow> tbind (tquery cd_uuid) (\<lambda>u. tbind (texec (\<lambda>d. d\<lparr>cd_uuid := Suc (cd_uuid d)\<rparr>)) (\<lambda>_.
         tbind (DAILY_CASH_CLOSE_INSERT \<lparr>dc_id = uid ''dcc-'' u, dc_branchId = branchId, dc_businessDateAD = dateAD, dc_openingCash = opening,
           dc_cashIn = cashIn, dc_cashOut = cashOut, dc_expectedClosing = expectedClosing, dc_countedClosing = countedClosing,
           dc_variance = variance, dc_status = ''CLOSED'', dc_closedBy = actor, dc_closedAt = Some now, dc_reopenedBy = None,
           dc_reopenedAt = None\<rparr>) (\<lambda>c. treturn (mapClose c)))))))"

definition reopenCashDay :: "string \<Rightarrow> string \<Rightarrow> string option \<Rightarrow> (cash_desk, cash_close) tx" where
  "reopenCashDay now i actor =
     tbind (tquery (DAILY_CASH_CLOSE_BY_ID i)) (\<lambda>row.
     case row of None \<Rightarrow> tthrow 404 ''Daily cash close not found.''
     | Some existing \<Rightarrow>
     tbind (tguard (dc_status existing \<noteq> ''OPEN'') 409
       (''Cash for '' @ dc_branchId existing @ '' on '' @ take 10 (dc_businessDateAD existing) @ '' is already open.'')) (\<lambda>_.
     tbind (DAILY_CASH_CLOSE_REOPEN i actor now) (\<lambda>row. case row of None \<Rightarrow> tthrow 500 ''no row returned'' | Some c \<Rightarrow> treturn (mapClose c))))"

definition readCashCloseById :: "string \<Rightarrow> (cash_desk, cash_close) tx" where
  "readCashCloseById i =
     tbind (tquery (DAILY_CASH_CLOSE_BY_ID i)) (\<lambda>row. case row of None \<Rightarrow> tthrow 404 ''Daily cash close not found.'' | Some c \<Rightarrow> treturn (mapClose c))"

section \<open>The cash position of a day\<close>

record cash_position_row =
  cr_figures :: cash_figures
  cr_status :: string
  cr_countedClosing :: "rat option"
  cr_variance :: "rat option"
  cr_close :: "cash_close option"
  cr_stale :: bool

record cash_totals_row =
  ct_opening :: rat
  ct_cashIn :: rat
  ct_cashOut :: rat
  ct_expectedClosing :: rat
  ct_countedClosing :: rat
  ct_variance :: rat
  ct_closedBranches :: nat
  ct_openBranches :: nat

record cash_position =
  cp_dateAD :: string
  cp_branchId :: "string option"
  cp_branches :: "cash_position_row list"
  cp_totals :: cash_totals_row

definition loadFigures :: "(string \<Rightarrow> string \<times> string) \<Rightarrow> string \<Rightarrow> string list option \<Rightarrow> cash_desk \<Rightarrow> cash_position_row list" where
  "loadFigures label date scope d =
     map (\<lambda>f. \<lparr>cr_figures = f\<lparr>cq_opening := round_money (cq_opening f), cq_cashIn := round_money (cq_cashIn f),
         cq_cashOut := round_money (cq_cashOut f), cq_expectedClosing := round_money (cq_expectedClosing f)\<rparr>,
        cr_status = ''OPEN'', cr_countedClosing = None, cr_variance = None, cr_close = None, cr_stale = False\<rparr>)
       (CASH_BRANCH_FIGURES label date scope (cd_ledger d))"

text \<open>The map keyed by branch keeps a branch's last row.\<close>

definition merge_close :: "cash_close list \<Rightarrow> cash_position_row \<Rightarrow> cash_position_row" where
  "merge_close closes row =
     (case List.find (\<lambda>c. dc_branchId c = cq_branchId (cr_figures row)) (rev closes) of None \<Rightarrow> row
      | Some c \<Rightarrow> let closed = (dc_status c = ''CLOSED'') in
          row\<lparr>cr_status := dc_status c, cr_countedClosing := (if closed then Some (dc_countedClosing c) else None),
            cr_variance := (if closed then Some (dc_variance c) else None), cr_close := Some c,
            cr_stale := (closed \<and> 5 / 1000 \<le> \<bar>dc_expectedClosing c - cq_expectedClosing (cr_figures row)\<bar>)\<rparr>)"

definition add_position :: "cash_totals_row \<Rightarrow> cash_position_row \<Rightarrow> cash_totals_row" where
  "add_position t r =
     (let f = cr_figures r; closed = (cr_status r = ''CLOSED''); value = (\<lambda>x. if closed then (case x of None \<Rightarrow> 0 | Some v \<Rightarrow> v) else 0) in
      \<lparr>ct_opening = round_money (ct_opening t + cq_opening f), ct_cashIn = round_money (ct_cashIn t + cq_cashIn f),
       ct_cashOut = round_money (ct_cashOut t + cq_cashOut f), ct_expectedClosing = round_money (ct_expectedClosing t + cq_expectedClosing f),
       ct_countedClosing = round_money (ct_countedClosing t + value (cr_countedClosing r)),
       ct_variance = round_money (ct_variance t + value (cr_variance r)),
       ct_closedBranches = ct_closedBranches t + (if closed then 1 else 0), ct_openBranches = ct_openBranches t + (if closed then 0 else 1)\<rparr>)"

definition buildCashPosition ::
  "(string \<Rightarrow> string \<times> string) \<Rightarrow> string \<Rightarrow> string list option \<Rightarrow> string option \<Rightarrow> cash_desk \<Rightarrow> cash_position" where
  "buildCashPosition label date scope branchId d =
     (let closes = map mapClose (DAILY_CASH_CLOSES_FOR_DATE date scope d); merged = map (merge_close closes) (loadFigures label date scope d)
      in \<lparr>cp_dateAD = date, cp_branchId = branchId, cp_branches = merged,
          cp_totals = foldl add_position \<lparr>ct_opening = 0, ct_cashIn = 0, ct_cashOut = 0, ct_expectedClosing = 0, ct_countedClosing = 0,
            ct_variance = 0, ct_closedBranches = 0, ct_openBranches = 0\<rparr> merged\<rparr>)"

section \<open>Requests\<close>

definition requireCashCloseDate :: "jsval \<Rightarrow> string \<Rightarrow> string res" where
  "requireCashCloseDate v field =
     (let date = (case v of JStr s \<Rightarrow> trim s | _ \<Rightarrow> []) in
      if isAccountingDate (JStr date) then Inr date else throw 400 (field @ '' must be a real date in YYYY-MM-DD form.''))"

definition request_date :: "string \<Rightarrow> jsval \<Rightarrow> string res" where
  "request_date today v = (if truthy v then requireCashCloseDate v ''dateAD'' else Inr today)"

definition actorOf :: "session_user option \<Rightarrow> string option" where
  "actorOf user = (case user of None \<Rightarrow> None | Some u \<Rightarrow> if su_email u \<noteq> [] then Some (su_email u) else or_null (su_name u))"

definition resolveBranch :: "session_user option \<Rightarrow> string \<Rightarrow> string res" where
  "resolveBranch user raw =
     (case user of None \<Rightarrow> throw 401 ''Unauthorized: Authentication required''
      | Some u \<Rightarrow>
        (case allowedBranchScope (Some u) of
           Some allowed \<Rightarrow>
             if allowed = [] then throw 403 ''This account is not assigned to any branch.''
             else if raw = ''ALL'' then throw 403 ''Forbidden: branch users cannot access all branches.''
             else if raw \<noteq> [] \<and> raw \<notin> set allowed
             then throw 403 ''Forbidden: this account is not authorized for the requested branch.''
             else let branchId = (if raw \<noteq> [] then raw else if su_branchId u \<noteq> [] then su_branchId u else hd allowed) in
               if branchId \<notin> set allowed then throw 403 ''Forbidden: this account is not authorized for the requested branch.''
               else Inr branchId
         | None \<Rightarrow> if raw = [] \<or> raw = ''ALL'' then throw 400 ''Name the branch whose cash should be read or closed.'' else Inr raw))"

definition countedClosingValue :: "jsval \<Rightarrow> rat res" where
  "countedClosingValue v =
     (if v = JUndef \<or> v = JNull \<or> v = JStr [] then throw 400 ''countedClosing is required: enter the cash counted at close.''
      else case roundMoney (to_number v) of
          Fin counted \<Rightarrow>
            if counted < 0 then throw 400 ''countedClosing must be a non-negative amount.''
            else if 9999999999999 / 100 < counted then throw 400 ''countedClosing exceeds the ledger limit.'' else Inr counted
        | _ \<Rightarrow> throw 400 ''countedClosing must be a non-negative amount.'')"

definition body_text :: "jsval \<Rightarrow> string" where
  "body_text v = (case v of JStr s \<Rightarrow> trim s | _ \<Rightarrow> [])"

definition get_cashClose :: "(string \<Rightarrow> string \<times> string) \<Rightarrow> string \<Rightarrow> request \<Rightarrow> cash_desk \<Rightarrow> (cash_position_row \<times> cash_totals_row) res" where
  "get_cashClose label today req d =
     rbind (request_date today (jget (rq_query req) ''dateAD'')) (\<lambda>dateAD.
     rbind (resolveBranch (rq_user req) (body_text (jget (rq_query req) ''branchId''))) (\<lambda>branchId.
     let position = buildCashPosition label dateAD (Some [branchId]) (Some branchId) d in
     case List.find (\<lambda>row. cq_branchId (cr_figures row) = branchId) (cp_branches position) of
       None \<Rightarrow> throw 404 (''Branch '' @ branchId @ '' does not exist.'')
     | Some branch \<Rightarrow> Inr (branch, cp_totals position)))"

definition resolveConsolidatedScope :: "session_user option \<Rightarrow> string list option res" where
  "resolveConsolidatedScope user =
     (if user = None then throw 401 ''Unauthorized: Authentication required''
      else if allowedBranchScope user = Some [] then throw 403 ''This account is not assigned to any branch.''
      else Inr (allowedBranchScope user))"

definition get_cashCloseConsolidated :: "(string \<Rightarrow> string \<times> string) \<Rightarrow> string \<Rightarrow> request \<Rightarrow> cash_desk \<Rightarrow> cash_position res" where
  "get_cashCloseConsolidated label today req d =
     rbind (request_date today (jget (rq_query req) ''dateAD'')) (\<lambda>dateAD.
     rbind (resolveConsolidatedScope (rq_user req)) (\<lambda>scope.
     Inr ((buildCashPosition label dateAD scope None d)\<lparr>cp_branchId := Some ''ALL''\<rparr>)))"

definition post_cashClose :: "(string \<Rightarrow> string \<times> string) \<Rightarrow> string \<Rightarrow> string \<Rightarrow> request \<Rightarrow> (cash_desk, cash_close) tx" where
  "post_cashClose label today now req =
     tbind (tlift (request_date today (jget (rq_body req) ''dateAD''))) (\<lambda>dateAD.
     tbind (tlift (resolveBranch (rq_user req) (body_text (jget (rq_body req) ''branchId'')))) (\<lambda>branchId.
     tbind (tlift (countedClosingValue (jget (rq_body req) ''countedClosing''))) (\<lambda>counted.
     closeCashDay label now branchId dateAD counted (actorOf (rq_user req)))))"

definition post_reopenCashClose :: "string \<Rightarrow> request \<Rightarrow> string \<Rightarrow> (cash_desk, cash_close) tx" where
  "post_reopenCashClose now req param =
     (let i = trim param in
      tbind (tguard (i \<noteq> []) 400 ''A daily cash close id is required.'') (\<lambda>_.
      tbind (readCashCloseById i) (\<lambda>existing.
      tbind (tguard (case allowedBranchScope (rq_user req) of None \<Rightarrow> True | Some allowed \<Rightarrow> dc_branchId existing \<in> set allowed) 403
        ''Forbidden: this daily cash close belongs to another branch.'') (\<lambda>_.
      reopenCashDay now i (actorOf (rq_user req))))))"

section \<open>The desk as a state machine\<close>

text \<open>A step is a transaction of the ledger or one of the two requests, from whatever account; the clock shows a real date.\<close>

inductive cash_step :: "cash_desk \<Rightarrow> cash_desk \<Rightarrow> bool" where
  ledger: "ledger_step (cd_ledger d) l \<Longrightarrow> cash_step d (d\<lparr>cd_ledger := l\<rparr>)"
| close: "isAccountingDate (JStr today) \<Longrightarrow> post_cashClose label today now req d = Inr (c, d') \<Longrightarrow> cash_step d d'"
| reopen: "post_reopenCashClose now req param d = Inr (c, d') \<Longrightarrow> cash_step d d'"

inductive cash_reach :: "cash_desk \<Rightarrow> bool" where
  start: "ledger_init l \<Longrightarrow> cash_reach \<lparr>cd_ledger = l, cd_closes = [], cd_uuid = u\<rparr>"
| step: "cash_reach d \<Longrightarrow> cash_step d d' \<Longrightarrow> cash_reach d'"

end
