(* ===== verification/CashCloseClaims.thy ===== *)
theory CashCloseClaims
  imports CashClose CashClaims
begin

text \<open>
  What the cash desk keeps: its figures are those of the cash book for the branch and day, a branch has one close per day with a
  variance that is the count less the expectation, and only an account of the branch closes or reopens it.
\<close>

section \<open>The figures are the cash book's\<close>

abbreviation day_window :: "string \<Rightarrow> string \<Rightarrow> statement_window" where
  "day_window date b \<equiv> \<lparr>sw_from = Some date, sw_to = date, sw_branchId = Some b, sw_empty = False\<rparr>"

lemma book_totals:
  assumes ok: "ledger_ok s" and e: "\<not> sw_empty w"
  shows "cb_opening (buildCashBook w s) = (\<Sum>a \<leftarrow> cash_accounts s. kr_opening (cash_row_of w s a))"
    "cb_receipts (buildCashBook w s) = (\<Sum>a \<leftarrow> cash_accounts s. kr_receipts (cash_row_of w s a))"
    "cb_payments (buildCashBook w s) = (\<Sum>a \<leftarrow> cash_accounts s. kr_payments (cash_row_of w s a))"
    "cb_closing (buildCashBook w s) = cb_opening (buildCashBook w s) + cb_receipts (buildCashBook w s) - cb_payments (buildCashBook w s)"
    "is_cents (cb_opening (buildCashBook w s))" "is_cents (cb_receipts (buildCashBook w s))" "is_cents (cb_payments (buildCashBook w s))"
proof -
  obtain le where rows: "CASH_BANK_ACCOUNT_ROWS (sw_from w) (sw_to w) (sw_branchId w) s = order_by le (map (cash_row_of w s) (cash_accounts s))"
    by (rule cash_rows)
  have c3: "is_cents (\<Sum>a \<leftarrow> cash_accounts s. f (cash_row_of w s a))" if "f \<in> {kr_opening, kr_receipts, kr_payments}" for f
    using that cash_row_cents [OF ok] by (auto intro!: cents_sum)
  show *: "cb_opening (buildCashBook w s) = (\<Sum>a \<leftarrow> cash_accounts s. kr_opening (cash_row_of w s a))"
    "cb_receipts (buildCashBook w s) = (\<Sum>a \<leftarrow> cash_accounts s. kr_receipts (cash_row_of w s a))"
    "cb_payments (buildCashBook w s) = (\<Sum>a \<leftarrow> cash_accounts s. kr_payments (cash_row_of w s a))"
    using e c3 by (simp_all add: buildCashBook_def Let_def rows o_def shown_account [OF ok])
  show "cb_closing (buildCashBook w s) = cb_opening (buildCashBook w s) + cb_receipts (buildCashBook w s) - cb_payments (buildCashBook w s)"
    unfolding book_closing [OF ok e] * by (simp add: row_closing_def sum_add sum_diff)
  show "is_cents (cb_opening (buildCashBook w s))" "is_cents (cb_receipts (buildCashBook w s))" "is_cents (cb_payments (buildCashBook w s))"
    unfolding * using c3 by simp_all
qed

lemma map_filter_sum:
  fixes f :: "'a \<Rightarrow> rat"
  assumes "\<And>x y d. g x = Some (y, d) \<Longrightarrow> y = x"
  shows "sum_list (map (\<lambda>(y, d). f y) (filter (\<lambda>(y, d). Q y d) (List.map_filter g xs))) =
    sum_list (map f (filter (\<lambda>x. case g x of None \<Rightarrow> False | Some (y, d) \<Rightarrow> Q x d) xs))"
  using assms by (induction xs) (auto simp: List.map_filter_def split: option.splits)

lemma scoped_total:
  assumes ok: "ledger_ok s" and sc: "in_scope scope b" and P: "\<And>d. P d \<longleftrightarrow> on d \<and> str_le d date"
  shows "sum_list (map (\<lambda>(l, d). f l) (filter (\<lambda>(l, d). gl_branchId l = b \<and> on d) (List.map_filter (scoped_line date scope s) (lg_lines s)))) =
    (\<Sum>a \<leftarrow> cash_accounts s. account_sum f (ga_id a) (dated_lines P (Some b) s))"
proof -
  let ?cash = "\<lambda>l. gl_accountId l \<in> ga_id ` set (cash_accounts s)"
  have d: "distinct (map ga_id (lg_accounts s))" using ok by (simp add: ledger_ok_def ledger_inv_def accounts_inv_def)
  have uniq: "j = k" if "j \<in> set (lg_journals s)" "k \<in> set (lg_journals s)" "gj_id j = gj_id k" for j k
    using ok journal_ids that by (auto simp: ledger_ok_def distinct_map dest: inj_onD)
  have g: "scoped_line date scope s l = Some (l', d) \<Longrightarrow> l' = l" for l l' d by (auto simp: scoped_line_def split: option.splits if_splits)
  have line: "(case scoped_line date scope s l of None \<Rightarrow> False | Some (y, d) \<Rightarrow> gl_branchId l = b \<and> on d) \<longleftrightarrow>
      ?cash l \<and> branch_matches (Some b) (gl_branchId l) \<and>
      list_ex (\<lambda>j. gj_id j = gl_journalId l \<and> gj_status j = ''POSTED'' \<and> P (gj_journalDateAD j)) (lg_journals s)"
    if l: "l \<in> set (lg_lines s)" for l
  proof -
    from ok l obtain a j where a: "a \<in> set (lg_accounts s)" "ga_id a = gl_accountId l" and j: "j \<in> set (lg_journals s)" "gj_id j = gl_journalId l"
      by (auto simp: ledger_ok_def ledger_inv_def lines_inv_def)
    have fa: "ACCOUNT_BY_ID (gl_accountId l) s = Some a" using find_unique [OF d a(1)] a(2) by (simp add: ACCOUNT_BY_ID_def)
    have fj: "List.find (\<lambda>j. gj_id j = gl_journalId l) (lg_journals s) = Some j"
      using j uniq by (cases "List.find (\<lambda>j. gj_id j = gl_journalId l) (lg_journals s)") (auto simp: find_None_iff dest!: find_SomeD)
    have "?cash l \<longleftrightarrow> cash_kind a" using a d unfolding cash_accounts_def distinct_map by (auto dest: inj_onD intro!: image_eqI [of _ _ a])
    moreover have "list_ex (\<lambda>j. gj_id j = gl_journalId l \<and> gj_status j = ''POSTED'' \<and> P (gj_journalDateAD j)) (lg_journals s) \<longleftrightarrow>
        gj_status j = ''POSTED'' \<and> P (gj_journalDateAD j)"
      using j uniq unfolding list_ex_iff by metis
    ultimately show ?thesis using sc by (auto simp: scoped_line_def fa fj P branch_matches_def)
  qed
  have "(\<Sum>a \<leftarrow> cash_accounts s. account_sum f (ga_id a) (dated_lines P (Some b) s)) =
    (\<Sum>a \<leftarrow> cash_accounts s. sum_list (map f (filter (\<lambda>l. gl_accountId l = ga_id a) (filter ?cash (dated_lines P (Some b) s)))))"
    unfolding account_sum_def filter_filter by (intro arg_cong [of _ _ sum_list] map_cong arg_cong [of _ _ "map f"] filter_cong) auto
  also have "\<dots> = sum_list (map f (filter ?cash (dated_lines P (Some b) s)))"
    using d by (intro sum_by_keys) (auto simp: cash_accounts_def distinct_map_filter)
  also have "filter ?cash (dated_lines P (Some b) s) =
      filter (\<lambda>x. case scoped_line date scope s x of None \<Rightarrow> False | Some (y, d) \<Rightarrow> gl_branchId x = b \<and> on d) (lg_lines s)"
    unfolding dated_lines_def source_lines_def filter_filter using line by (intro filter_cong) auto
  finally show ?thesis using map_filter_sum [of "scoped_line date scope s" f "\<lambda>l d. gl_branchId l = b \<and> on d" "lg_lines s"] g by simp
qed

lemma figures_book:
  assumes ok: "ledger_ok s" and f: "f \<in> set (CASH_BRANCH_FIGURES label date scope s)"
  shows "cq_opening f = cb_opening (buildCashBook (day_window date (cq_branchId f)) s)"
    "cq_cashIn f = cb_receipts (buildCashBook (day_window date (cq_branchId f)) s)"
    "cq_cashOut f = cb_payments (buildCashBook (day_window date (cq_branchId f)) s)"
    "cq_expectedClosing f = cb_closing (buildCashBook (day_window date (cq_branchId f)) s)"
proof -
  let ?w = "day_window date (cq_branchId f)"
  let ?total = "\<lambda>on g. sum_list (map (\<lambda>(l, d). g l) (filter (\<lambda>(l, d). gl_branchId l = cq_branchId f \<and> on d)
    (List.map_filter (scoped_line date scope s) (lg_lines s))))"
  from f have sc: "in_scope scope (cq_branchId f)" and fields: "cq_opening f = ?total (\<lambda>d. str_lt d date) (\<lambda>l. gl_debit l - gl_credit l)"
      "cq_cashIn f = ?total (\<lambda>d. d = date) gl_debit" "cq_cashOut f = ?total (\<lambda>d. d = date) gl_credit"
      "cq_expectedClosing f = ?total (\<lambda>d. str_le d date) (\<lambda>l. gl_debit l - gl_credit l)"
    by (auto simp: CASH_BRANCH_FIGURES_def Let_def)
  have ne: "\<not> sw_empty ?w" by simp
  note totals = book_totals [OF ok ne]
  have before: "before_window (Some date) date d \<longleftrightarrow> str_lt d date \<and> str_le d date" for d
    by (auto simp: before_window_def str_lt_le)
  show "cq_opening f = cb_opening (buildCashBook ?w s)" unfolding fields totals
    using scoped_total [OF ok sc before, of "\<lambda>l. gl_debit l - gl_credit l"] by (simp add: cash_row_of_def)
  have on: "in_window (Some date) date d \<longleftrightarrow> d = date \<and> str_le d date" for d
    by (auto simp: in_window_def dest: str_le_antisym)
  show "cq_cashIn f = cb_receipts (buildCashBook ?w s)" unfolding fields totals
    using scoped_total [OF ok sc on, of gl_debit] by (simp add: cash_row_of_def)
  show "cq_cashOut f = cb_payments (buildCashBook ?w s)" unfolding fields totals
    using scoped_total [OF ok sc on, of gl_credit] by (simp add: cash_row_of_def)
  have "cq_expectedClosing f = (\<Sum>a \<leftarrow> cash_accounts s. account_sum (\<lambda>l. gl_debit l - gl_credit l) (ga_id a) (dated_lines (\<lambda>d. str_le d date) (Some (cq_branchId f)) s))"
    unfolding fields by (rule scoped_total [OF ok sc]) simp
  also have "\<dots> = (\<Sum>a \<leftarrow> cash_accounts s. row_closing (cash_row_of ?w s a))"
  proof -
    have "account_sum g i (dated_lines (\<lambda>d. str_le d date) br s) = account_sum g i (dated_lines (before_window (Some date) date) br s) +
        account_sum g i (dated_lines (in_window (Some date) date) br s)" for g i br
      by (rule dated_split [OF ok]) (auto simp: before_window_def in_window_def str_lt_le dest: str_le_antisym)
    moreover have "account_sum (\<lambda>l. gl_debit l - gl_credit l) i ls = account_sum gl_debit i ls - account_sum gl_credit i ls" for i ls
      by (simp add: account_sum_def sum_diff)
    ultimately show ?thesis by (simp add: row_closing_def cash_row_of_def diff_add_eq add_diff_eq diff_diff_eq2 diff_diff_eq add.commute add.left_commute)
  qed
  finally show "cq_expectedClosing f = cb_closing (buildCashBook ?w s)" by (simp add: book_closing [OF ok ne])
qed

section \<open>The desk in every reachable state\<close>

definition close_ok :: "cash_close \<Rightarrow> bool" where
  "close_ok c \<longleftrightarrow> is_cents (dc_openingCash c) \<and> is_cents (dc_cashIn c) \<and> is_cents (dc_cashOut c) \<and> is_cents (dc_expectedClosing c) \<and>
     is_cents (dc_countedClosing c) \<and> 0 \<le> dc_countedClosing c \<and> dc_expectedClosing c = dc_openingCash c + dc_cashIn c - dc_cashOut c \<and>
     dc_variance c = dc_countedClosing c - dc_expectedClosing c \<and> dc_status c \<in> {''CLOSED'', ''OPEN''} \<and> isAccountingDate (JStr (dc_businessDateAD c))"

abbreviation day_of :: "cash_close \<Rightarrow> string \<times> string" where
  "day_of c \<equiv> (dc_branchId c, dc_businessDateAD c)"

definition desk_ok :: "cash_desk \<Rightarrow> bool" where
  "desk_ok d \<longleftrightarrow> (\<forall>c \<in> set (cd_closes d). close_ok c) \<and> distinct (map dc_id (cd_closes d)) \<and> distinct (map day_of (cd_closes d))"

lemma one_day: "desk_ok d \<Longrightarrow> x \<in> set (cd_closes d) \<Longrightarrow> y \<in> set (cd_closes d) \<Longrightarrow> day_of x = day_of y \<Longrightarrow> x = y"
  unfolding desk_ok_def distinct_map by (blast dest: inj_onD)

lemma AD_date_length: "isAccountingDate (JStr s) \<Longrightarrow> take 10 s = s"
  by (auto simp: isAccountingDate_def parse_ad_def Let_def split: option.splits if_splits)

lemma mapClose_ok: "close_ok c \<Longrightarrow> mapClose c = c\<lparr>dc_closedBy := opt_or_null (dc_closedBy c), dc_closedAt := opt_or_null (dc_closedAt c),
    dc_reopenedBy := opt_or_null (dc_reopenedBy c), dc_reopenedAt := opt_or_null (dc_reopenedAt c)\<rparr>"
  using AD_date_length [of "dc_businessDateAD c"]
  by (auto simp: close_ok_def mapClose_def cents_ops)

text \<open>What a close writes: one row for the branch and day, with the ledger's figures.\<close>

definition closes_day :: "string \<Rightarrow> string \<Rightarrow> rat \<Rightarrow> cash_desk \<Rightarrow> cash_desk \<Rightarrow> bool" where
  "closes_day b date counted d d' \<longleftrightarrow> cd_ledger d' = cd_ledger d \<and>
     (\<exists>c w. c \<in> set (cd_closes d') \<and> day_of c = (b, date) \<and> dc_status c = ''CLOSED'' \<and> dc_countedClosing c = counted \<and>
       w = buildCashBook (day_window date b) (cd_ledger d) \<and> dc_openingCash c = cb_opening w \<and> dc_cashIn c = cb_receipts w \<and>
       dc_cashOut c = cb_payments w \<and> dc_expectedClosing c = cb_closing w \<and> dc_variance c = counted - cb_closing w \<and>
       (\<forall>x. x \<noteq> c \<longrightarrow> x \<in> set (cd_closes d') \<longleftrightarrow> x \<in> set (cd_closes d) \<and> day_of x \<noteq> (b, date)))"

lemma update_close_effect:
  assumes "update_close i f d = Inr (r, d')" and "distinct (map dc_id (cd_closes d))" and "c \<in> set (cd_closes d)" and "dc_id c = i" and "dc_id (f c) = i"
  shows "r = Some (f c) \<and> cd_ledger d' = cd_ledger d \<and> cd_closes d' = map (\<lambda>x. if x = c then f c else x) (cd_closes d)"
proof -
  have same: "dc_id x = i \<longleftrightarrow> x = c" if "x \<in> set (cd_closes d)" for x using assms(2-4) that unfolding distinct_map by (auto dest: inj_onD)
  have m: "map (\<lambda>x. if dc_id x = i then f x else x) (cd_closes d) = map (\<lambda>x. if x = c then f c else x) (cd_closes d)"
    using same by (intro map_cong) auto
  have "List.find (\<lambda>x. dc_id x = i) (map (\<lambda>x. if x = c then f c else x) xs) = Some (f c)" if "c \<in> set xs" "set xs \<subseteq> set (cd_closes d)" for xs
    using that same assms(5) by (induction xs) auto
  from this [OF assms(3) subset_refl] have "List.find (\<lambda>x. dc_id x = i) (map (\<lambda>x. if dc_id x = i then f x else x) (cd_closes d)) = Some (f c)" unfolding m .
  with assms(1) show ?thesis unfolding m [symmetric] by (auto simp: update_close_def Let_def DAILY_CASH_CLOSE_BY_ID_def split: if_splits)
qed

lemma first_figures:
  assumes "first_row (CASH_BRANCH_FIGURES label date (Some [b]) s) = Some f"
  shows "f \<in> set (CASH_BRANCH_FIGURES label date (Some [b]) s)" "cq_branchId f = b"
proof -
  show f: "f \<in> set (CASH_BRANCH_FIGURES label date (Some [b]) s)" using assms by (auto simp: first_row_def split: list.splits)
  then show "cq_branchId f = b" by (auto simp: CASH_BRANCH_FIGURES_def Let_def in_scope_def)
qed

text \<open>A stored row that takes the place of the day's former one, if there was one.\<close>

lemma replaced_ok:
  assumes dk: "desk_ok d" and c: "close_ok c'" and day: "day_of c' = day"
    and closes: "cd_closes d' = cd_closes d @ [c'] \<and> dc_id c' \<notin> dc_id ` set (cd_closes d) \<and> day \<notin> day_of ` set (cd_closes d) \<or>
      (\<exists>c. c \<in> set (cd_closes d) \<and> day_of c = day \<and> dc_id c' = dc_id c \<and> cd_closes d' = map (\<lambda>x. if x = c then c' else x) (cd_closes d))"
  shows "desk_ok d' \<and> c' \<in> set (cd_closes d') \<and> (\<forall>x. x \<noteq> c' \<longrightarrow> x \<in> set (cd_closes d') \<longleftrightarrow> x \<in> set (cd_closes d) \<and> day_of x \<noteq> day)"
  using closes
proof
  assume "cd_closes d' = cd_closes d @ [c'] \<and> dc_id c' \<notin> dc_id ` set (cd_closes d) \<and> day \<notin> day_of ` set (cd_closes d)"
  then have n: "cd_closes d' = cd_closes d @ [c']" "dc_id c' \<notin> dc_id ` set (cd_closes d)" "day_of c' \<notin> day_of ` set (cd_closes d)" using day by auto
  have "desk_ok d'" using dk c n by (auto simp: desk_ok_def)
  moreover have "day_of x \<noteq> day" if "x \<in> set (cd_closes d)" for x
  proof
    assume e: "day_of x = day"
    from that have "day_of x \<in> day_of ` set (cd_closes d)" by (rule imageI)
    with n(3) show False by (simp only: e day not_True_eq_False)
  qed
  ultimately show ?thesis using n by auto
next
  assume "\<exists>c. c \<in> set (cd_closes d) \<and> day_of c = day \<and> dc_id c' = dc_id c \<and> cd_closes d' = map (\<lambda>x. if x = c then c' else x) (cd_closes d)"
  then obtain c0 where c0: "c0 \<in> set (cd_closes d)" "day_of c0 = day" "dc_id c' = dc_id c0" "cd_closes d' = map (\<lambda>x. if x = c0 then c' else x) (cd_closes d)"
    by blast
  have keys: "map dc_id (cd_closes d') = map dc_id (cd_closes d)" "map day_of (cd_closes d') = map day_of (cd_closes d)"
    using c0 day by auto
  have one: "x = c0" if "x \<in> set (cd_closes d)" "day_of x = day" for x
    using dk that c0 unfolding desk_ok_def distinct_map by (auto dest: inj_onD)
  have "\<forall>x \<in> set (cd_closes d'). close_ok x" using dk c by (auto simp: c0(4) desk_ok_def)
  then have "desk_ok d'" using dk unfolding desk_ok_def keys by simp
  moreover have "c' \<in> set (cd_closes d')" using c0 by auto
  moreover have "x \<in> set (cd_closes d') \<longleftrightarrow> x \<in> set (cd_closes d) \<and> day_of x \<noteq> day" if "x \<noteq> c'" for x
  proof -
    have "set (cd_closes d') = insert c' (set (cd_closes d) - {c0})" using c0(1) by (auto simp only: c0(4) set_map split: if_splits)
    with that one [of x] c0(2) show ?thesis by blast
  qed
  ultimately show ?thesis by blast
qed

lemma closeCashDay_effect:
  assumes run: "closeCashDay label now b date counted actor d = Inr (r, d')" and ok: "ledger_ok (cd_ledger d)" and dk: "desk_ok d"
    and date: "isAccountingDate (JStr date)" and counted: "is_cents counted" "0 \<le> counted"
  shows "closes_day b date counted d d' \<and> desk_ok d' \<and> (\<forall>c \<in> set (cd_closes d). day_of c = (b, date) \<longrightarrow> dc_status c = ''OPEN'')"
proof -
  define w where "w = buildCashBook (day_window date b) (cd_ledger d)"
  have ne: "\<not> sw_empty (day_window date b)" by simp
  note book = book_totals(4-7) [OF ok ne, folded w_def]
  have closing: "is_cents (cb_closing w)" unfolding book(1) using book(2-4) by (intro is_cents_diff is_cents_add)
  have rnd: "round_money (cb_opening w) = cb_opening w" "round_money (cb_receipts w) = cb_receipts w" "round_money (cb_payments w) = cb_payments w"
    "round_money (cb_closing w) = cb_closing w" using book(2-4) closing by simp_all
  have var: "round_money (counted - cb_closing w) = counted - cb_closing w" using counted closing by (simp add: cents_ops)
  from run obtain f where f: "first_row (CASH_BRANCH_FIGURES label date (Some [b]) (cd_ledger d)) = Some f"
    by (auto simp: closeCashDay_def tquery_def split: option.splits)
  note fig = figures_book [OF ok first_figures(1) [OF f], unfolded first_figures(2) [OF f], folded w_def]
  let ?row = "\<lambda>c. c\<lparr>dc_openingCash := cb_opening w, dc_cashIn := cb_receipts w, dc_cashOut := cb_payments w, dc_expectedClosing := cb_closing w,
      dc_countedClosing := counted, dc_variance := counted - cb_closing w, dc_status := ''CLOSED'', dc_closedBy := actor, dc_closedAt := Some now,
      dc_reopenedBy := None, dc_reopenedAt := None\<rparr>"
  have row_ok: "close_ok (?row c)" if "dc_businessDateAD c = date" for c
    using that date counted book closing var is_cents_round [of "counted - cb_closing w"] by (auto simp: close_ok_def)
  show ?thesis
  proof (cases "DAILY_CASH_CLOSE_BY_BRANCH_DATE b date d")
    case None
    then have free: "(b, date) \<notin> day_of ` set (cd_closes d)" by (auto simp: DAILY_CASH_CLOSE_BY_BRANCH_DATE_def find_None_iff)
    let ?c = "?row \<lparr>dc_id = uid ''dcc-'' (cd_uuid d), dc_branchId = b, dc_businessDateAD = date, dc_openingCash = 0, dc_cashIn = 0, dc_cashOut = 0,
      dc_expectedClosing = 0, dc_countedClosing = 0, dc_variance = 0, dc_status = [], dc_closedBy = None, dc_closedAt = None,
      dc_reopenedBy = None, dc_reopenedAt = None\<rparr>"
    from run f None have "cd_ledger d' = cd_ledger d" "cd_closes d' = cd_closes d @ [?c]" "dc_id ?c \<notin> dc_id ` set (cd_closes d)"
      by (auto simp: closeCashDay_def tquery_def texec_def Let_def fig rnd var DAILY_CASH_CLOSE_INSERT_def list_ex_iff split: if_splits)
    note eff = this
    have rep: "desk_ok d' \<and> ?c \<in> set (cd_closes d') \<and> (\<forall>x. x \<noteq> ?c \<longrightarrow> x \<in> set (cd_closes d') \<longleftrightarrow> x \<in> set (cd_closes d) \<and> day_of x \<noteq> (b, date))"
      by (rule replaced_ok [OF dk row_ok]) (use eff free in simp_all)
    have "closes_day b date counted d d'" unfolding closes_day_def
      by (intro conjI exI [of _ ?c] exI [of _ w] eff(1) w_def rep [THEN conjunct2, THEN conjunct1] rep [THEN conjunct2, THEN conjunct2]) simp_all
    moreover have "dc_status c = ''OPEN''" if "c \<in> set (cd_closes d)" "day_of c = (b, date)" for c
      using imageI [OF that(1), of day_of] free unfolding that(2) by contradiction
    ultimately show ?thesis using rep by blast
  next
    case (Some c0)
    then have c0: "c0 \<in> set (cd_closes d)" "dc_branchId c0 = b" "dc_businessDateAD c0 = date"
      by (auto simp: DAILY_CASH_CLOSE_BY_BRANCH_DATE_def dest: find_SomeD)
    from run f Some obtain q where up: "update_close (dc_id c0) ?row d = Inr (q, d')" and st: "dc_status c0 \<noteq> ''CLOSED''"
      by (auto simp: closeCashDay_def tquery_def Let_def fig rnd var DAILY_CASH_CLOSE_UPDATE_CLOSED_def split: option.splits)
    have "distinct (map dc_id (cd_closes d))" using dk by (simp add: desk_ok_def)
    from update_close_effect [OF up this c0(1)] have eff: "cd_ledger d' = cd_ledger d" "cd_closes d' = map (\<lambda>x. if x = c0 then ?row c0 else x) (cd_closes d)" by auto
    have rep: "desk_ok d' \<and> ?row c0 \<in> set (cd_closes d') \<and> (\<forall>x. x \<noteq> ?row c0 \<longrightarrow> x \<in> set (cd_closes d') \<longleftrightarrow> x \<in> set (cd_closes d) \<and> day_of x \<noteq> (b, date))"
    proof (rule replaced_ok [OF dk row_ok])
      show "dc_businessDateAD c0 = date" "day_of (?row c0) = (b, date)" using c0 by simp_all
      have "dc_id (?row c0) = dc_id c0" by simp
      with eff(2) c0 show "cd_closes d' = cd_closes d @ [?row c0] \<and> dc_id (?row c0) \<notin> dc_id ` set (cd_closes d) \<and> (b, date) \<notin> day_of ` set (cd_closes d) \<or>
        (\<exists>c. c \<in> set (cd_closes d) \<and> day_of c = (b, date) \<and> dc_id (?row c0) = dc_id c \<and> cd_closes d' = map (\<lambda>x. if x = c then ?row c0 else x) (cd_closes d))"
        by (intro disjI2 exI [of _ c0] conjI) (simp_all only:)
    qed
    have "closes_day b date counted d d'" unfolding closes_day_def
      by (intro conjI exI [of _ "?row c0"] exI [of _ w] eff(1) w_def rep [THEN conjunct2, THEN conjunct1] rep [THEN conjunct2, THEN conjunct2])
        (simp_all add: c0)
    moreover have "dc_status c0 = ''OPEN''" using dk c0(1) st by (auto simp: desk_ok_def close_ok_def)
    moreover have "x = c0" if "x \<in> set (cd_closes d)" "day_of x = (b, date)" for x
      using dk that c0 unfolding desk_ok_def distinct_map by (auto dest: inj_onD)
    ultimately show ?thesis using rep by blast
  qed
qed

lemma reopenCashDay_effect:
  assumes run: "reopenCashDay now i actor d = Inr (r, d')" and dk: "desk_ok d"
  shows "desk_ok d' \<and> cd_ledger d' = cd_ledger d \<and> (\<exists>c \<in> set (cd_closes d). dc_id c = i \<and> dc_status c = ''CLOSED'' \<and>
    cd_closes d' = map (\<lambda>x. if x = c then c\<lparr>dc_status := ''OPEN'', dc_reopenedBy := actor, dc_reopenedAt := Some now\<rparr> else x) (cd_closes d))"
proof -
  let ?f = "\<lambda>c. c\<lparr>dc_status := ''OPEN'', dc_reopenedBy := actor, dc_reopenedAt := Some now\<rparr>"
  from run obtain c q where find: "DAILY_CASH_CLOSE_BY_ID i d = Some c" and st: "dc_status c \<noteq> ''OPEN''" and up: "update_close i ?f d = Inr (q, d')"
    by (auto simp: reopenCashDay_def tquery_def DAILY_CASH_CLOSE_REOPEN_def split: option.splits)
  from find have c: "c \<in> set (cd_closes d)" "dc_id c = i" by (auto simp: DAILY_CASH_CLOSE_BY_ID_def dest: find_SomeD)
  have ok: "close_ok c" and d: "distinct (map dc_id (cd_closes d))" using dk c(1) by (auto simp: desk_ok_def)
  from update_close_effect [OF up d c] c(2) have eff: "cd_ledger d' = cd_ledger d" "cd_closes d' = map (\<lambda>x. if x = c then ?f c else x) (cd_closes d)" by auto
  have "close_ok (?f c)" using ok by (auto simp: close_ok_def)
  from replaced_ok [OF dk this, of "day_of c" d'] eff(2) c(1) have "desk_ok d'" by auto
  moreover have "dc_status c = ''CLOSED''" using ok st by (auto simp: close_ok_def)
  ultimately show ?thesis using eff c by auto
qed

lemma counted_value: "countedClosingValue v = Inr x \<Longrightarrow> is_cents x \<and> 0 \<le> x"
  by (auto simp: countedClosingValue_def dest: roundMoney_Fin split: if_splits jnum.splits)

lemma post_cashClose_parts:
  assumes "post_cashClose label today now req d = Inr (r, d')" and "isAccountingDate (JStr today)"
  obtains date b counted where "isAccountingDate (JStr date)" "is_cents counted" "0 \<le> counted" "resolveBranch (rq_user req) (body_text (jget (rq_body req) ''branchId'')) = Inr b"
    "closeCashDay label now b date counted (actorOf (rq_user req)) d = Inr (r, d')"
  using assms counted_value by (auto simp: post_cashClose_def request_date_def requireCashCloseDate_def Let_def split: if_splits) blast+

lemma cash_step_ok: "cash_step d d' \<Longrightarrow> ledger_reach (cd_ledger d) \<Longrightarrow> desk_ok d \<Longrightarrow> ledger_reach (cd_ledger d') \<and> desk_ok d'"
proof (induction rule: cash_step.induct)
  case (ledger d l)
  then show ?case by (auto simp: desk_ok_def intro: ledger_reach.step)
next
  case (close today label now req d c d')
  from close(2,1) obtain date b counted where "isAccountingDate (JStr date)" "is_cents counted" "0 \<le> counted"
    "closeCashDay label now b date counted (actorOf (rq_user req)) d = Inr (c, d')" by (rule post_cashClose_parts)
  from closeCashDay_effect [OF this(4) reach_ok [OF close(3)] close(4) this(1-3)] close(3) show ?case by (simp add: closes_day_def)
next
  case (reopen now req param d c d')
  from reopen(1) obtain existing where "reopenCashDay now (trim param) (actorOf (rq_user req)) d = Inr (c, d')"
    by (auto simp: post_reopenCashClose_def Let_def readCashCloseById_def tquery_def split: option.splits)
  from reopenCashDay_effect [OF this reopen(3)] reopen(2) show ?case by simp
qed

lemma cash_reach_ok: "cash_reach d \<Longrightarrow> ledger_reach (cd_ledger d) \<and> desk_ok d"
  by (induction rule: cash_reach.induct) (auto simp: desk_ok_def intro: ledger_reach.start dest: cash_step_ok)

section \<open>A desk with one close\<close>

definition cashier :: session_user where
  "cashier = \<lparr>su_id = ''u1'', su_email = ''cash@isp'', su_name = ''Sita'', su_role = ''CASHIER'', su_branchId = ''b1'', su_allowedBranchIds = []\<rparr>"

definition count_request :: request where
  "count_request = \<lparr>rq_method = ''POST'', rq_path = ''/accounting/cash-close'', rq_query = JUndef,
     rq_body = JObj [(''countedClosing'', JNum (Fin 50))], rq_user = Some cashier\<rparr>"

definition counted_close :: cash_close where
  "counted_close = \<lparr>dc_id = uid ''dcc-'' 0, dc_branchId = ''b1'', dc_businessDateAD = ''2024-08-01'', dc_openingCash = 0, dc_cashIn = 0, dc_cashOut = 0,
     dc_expectedClosing = 0, dc_countedClosing = 50, dc_variance = 50, dc_status = ''CLOSED'', dc_closedBy = Some ''cash@isp'',
     dc_closedAt = Some ''now'', dc_reopenedBy = None, dc_reopenedAt = None\<rparr>"

abbreviation "plain_label \<equiv> \<lambda>b :: string. (b, b)"

lemma close_scope: "request_date ''2024-08-01'' (jget (rq_body count_request) ''dateAD'') = Inr ''2024-08-01''"
  "resolveBranch (rq_user count_request) (body_text (jget (rq_body count_request) ''branchId'')) = Inr ''b1''"
  "actorOf (rq_user count_request) = Some ''cash@isp''"
  by code_simp+
lemma fifty: "round_money 50 = (50 :: rat)"
  by (rule round_money_cents) (auto simp: is_cents_iff intro!: exI [of _ 5000])

lemma close_count: "countedClosingValue (jget (rq_body count_request) ''countedClosing'') = Inr 50"
  by (simp add: countedClosingValue_def count_request_def fifty)
lemma close_figures: "CASH_BRANCH_FIGURES plain_label ''2024-08-01'' (Some [''b1'']) shop = [\<lparr>cq_branchId = ''b1'', cq_code = ''b1'', cq_name = ''b1'', cq_opening = 0, cq_cashIn = 0, cq_cashOut = 0, cq_expectedClosing = 0\<rparr>]"
  by (simp add: CASH_BRANCH_FIGURES_def shop_def in_scope_def order_by_def)

lemma closed_once: "post_cashClose plain_label ''2024-08-01'' ''now'' count_request \<lparr>cd_ledger = shop, cd_closes = [], cd_uuid = 0\<rparr> =
    Inr (mapClose counted_close, \<lparr>cd_ledger = shop, cd_closes = [counted_close], cd_uuid = 1\<rparr>)"
proof -
  have short: "length (nat_str 0) \<le> 46" by code_simp
  have shop_branches: "lg_branches shop = [''b1'', ''b2'']" by (simp add: shop_def)
  have f: "close_fits counted_close" by (simp add: close_fits_def counted_close_def uid_def short)
  show ?thesis
  unfolding post_cashClose_def close_scope close_count closeCashDay_def
  using f by (simp add: err_simps tlift_def tquery_def texec_def close_figures first_row_def DAILY_CASH_CLOSE_BY_BRANCH_DATE_def Let_def DAILY_CASH_CLOSE_INSERT_def
    counted_close_def shop_branches uid_def fifty)
qed

lemma closed_desk: "cash_reach \<lparr>cd_ledger = shop, cd_closes = [], cd_uuid = 0\<rparr>" "isAccountingDate (JStr ''2024-08-01'')"
  by (rule cash_reach.start [OF shop_init]) code_simp

abbreviation "closed_shop \<equiv> \<lparr>cd_ledger = shop, cd_closes = [counted_close], cd_uuid = 1\<rparr>"

lemma closed_reach: "cash_reach closed_shop"
  by (rule cash_reach.step [OF closed_desk(1) cash_step.close [OF closed_desk(2) closed_once]])

section \<open>The claims\<close>

text \<open>C24. In every reachable state of the cash desk ids are unique, a branch has at most one close per day, and every stored close has an
expected closing that is opening plus cash in less cash out, a variance that is the count less the expectation, and a count that is
not negative.\<close>

theorem cash_close_sound:
  assumes "cash_reach d"
  shows "distinct (map dc_id (cd_closes d)) \<and> distinct (map (\<lambda>c. (dc_branchId c, dc_businessDateAD c)) (cd_closes d)) \<and>
    (\<forall>c \<in> set (cd_closes d). dc_expectedClosing c = dc_openingCash c + dc_cashIn c - dc_cashOut c \<and>
      dc_variance c = dc_countedClosing c - dc_expectedClosing c \<and> 0 \<le> dc_countedClosing c \<and> dc_status c \<in> {''CLOSED'', ''OPEN''})"
  using cash_reach_ok [OF assms] by (simp add: desk_ok_def close_ok_def)

theorem cash_close_sound_witness:
  "cd_closes closed_shop = [counted_close] \<and> distinct (map dc_id (cd_closes closed_shop)) \<and> dc_variance counted_close = dc_countedClosing counted_close - dc_expectedClosing counted_close"
  using cash_close_sound [OF closed_reach] by simp

lemma closeCashDay_returns:
  assumes run: "closeCashDay label now b date counted actor d = Inr (r, d')" and d: "distinct (map dc_id (cd_closes d))"
  shows "\<exists>c \<in> set (cd_closes d'). r = mapClose c \<and> day_of c = (b, date)"
proof (cases "DAILY_CASH_CLOSE_BY_BRANCH_DATE b date d")
  case None
  with run show ?thesis
    by (auto simp: closeCashDay_def tquery_def texec_def Let_def DAILY_CASH_CLOSE_INSERT_def split: if_splits option.splits)
next
  case (Some c0)
  then have c0: "c0 \<in> set (cd_closes d)" "day_of c0 = (b, date)" by (auto simp: DAILY_CASH_CLOSE_BY_BRANCH_DATE_def dest: find_SomeD)
  let ?goal = "\<lambda>f. update_close (dc_id c0) f d = Inr (Some (f c0), d') \<and> r = mapClose (f c0) \<and> day_of (f c0) = (b, date)"
  from run Some obtain f q where up: "update_close (dc_id c0) f d = Inr (Some q, d')" and r: "r = mapClose q"
    and f: "\<And>c. dc_id (f c) = dc_id c \<and> day_of (f c) = day_of c"
    by (fastforce simp: closeCashDay_def tquery_def Let_def DAILY_CASH_CLOSE_UPDATE_CLOSED_def split: option.splits)
  from update_close_effect [OF up d c0(1)] f have "q = f c0" "cd_closes d' = map (\<lambda>x. if x = c0 then f c0 else x) (cd_closes d)" by auto
  with c0 r f [of c0] show ?thesis by (intro bexI [of _ q]) auto
qed

lemma resolved_branch: "resolveBranch user raw = Inr b \<Longrightarrow> (case allowedBranchScope user of None \<Rightarrow> True | Some bs \<Rightarrow> b \<in> set bs)"
  by (auto simp: resolveBranch_def Let_def split: option.splits if_splits)

lemma post_cashClose_effect:
  assumes "cash_reach d" and "isAccountingDate (JStr today)" and "post_cashClose label today now req d = Inr (r, d')"
  obtains c counted where "c \<in> set (cd_closes d')" "r = mapClose c" "close_ok c" "dc_status c = ''CLOSED''"
    "closes_day (dc_branchId c) (dc_businessDateAD c) counted d d'"
    "dc_expectedClosing c = cb_closing (buildCashBook (day_window (dc_businessDateAD c) (dc_branchId c)) (cd_ledger d))"
    "case allowedBranchScope (rq_user req) of None \<Rightarrow> True | Some bs \<Rightarrow> dc_branchId c \<in> set bs"
    "\<forall>x \<in> set (cd_closes d). day_of x = day_of c \<longrightarrow> dc_status x = ''OPEN''"
proof -
  note ok = cash_reach_ok [OF assms(1)]
  from assms(3,2) obtain date b counted where parts: "isAccountingDate (JStr date)" "is_cents counted" "0 \<le> counted"
    "resolveBranch (rq_user req) (body_text (jget (rq_body req) ''branchId'')) = Inr b"
    "closeCashDay label now b date counted (actorOf (rq_user req)) d = Inr (r, d')" by (rule post_cashClose_parts)
  have eff: "closes_day b date counted d d'" "desk_ok d'" "\<forall>x \<in> set (cd_closes d). day_of x = (b, date) \<longrightarrow> dc_status x = ''OPEN''"
    using closeCashDay_effect [OF parts(5) _ _ parts(1-3)] ok reach_ok by blast+
  from closeCashDay_returns [OF parts(5)] ok obtain c where c: "c \<in> set (cd_closes d')" "r = mapClose c" "day_of c = (b, date)" by (auto simp: desk_ok_def)
  from eff(1) obtain c1 where c1: "c1 \<in> set (cd_closes d')" "day_of c1 = (b, date)" "dc_status c1 = ''CLOSED''"
    "dc_expectedClosing c1 = cb_closing (buildCashBook (day_window date b) (cd_ledger d))" by (auto simp: closes_day_def)
  have "inj_on day_of (set (cd_closes d'))" using eff(2) unfolding desk_ok_def distinct_map by blast
  from inj_onD [OF this _ c(1) c1(1)] c(3) c1(2) have "c = c1" by simp
  moreover have "close_ok c" using eff(2) c(1) by (simp add: desk_ok_def)
  ultimately show ?thesis using that [of c counted] c c1 eff(1,3) resolved_branch [OF parts(4)] by auto
qed

text \<open>C19. A successful cash close is of a branch the account may act on and of a day that was not closed; it stores the closing balance
of the cash book of that branch and day and its distance from the count, touches no other close and no ledger table, and until the
day is reopened no request from any account closes it again.\<close>

theorem cash_day_closed:
  assumes "cash_reach d" and "isAccountingDate (JStr today)" and "post_cashClose label today now req d = Inr (r, d')"
  shows "(case allowedBranchScope (rq_user req) of None \<Rightarrow> True | Some bs \<Rightarrow> dc_branchId r \<in> set bs) \<and>
    (\<forall>c \<in> set (cd_closes d). dc_branchId c = dc_branchId r \<and> dc_businessDateAD c = dc_businessDateAD r \<longrightarrow> dc_status c = ''OPEN'') \<and>
    dc_status r = ''CLOSED'' \<and> dc_variance r = dc_countedClosing r - dc_expectedClosing r \<and> dc_expectedClosing r =
      cb_closing (buildCashBook \<lparr>sw_from = Some (dc_businessDateAD r), sw_to = dc_businessDateAD r, sw_branchId = Some (dc_branchId r), sw_empty = False\<rparr> (cd_ledger d)) \<and>
    cd_ledger d' = cd_ledger d \<and>
    (\<forall>x. (dc_branchId x, dc_businessDateAD x) \<noteq> (dc_branchId r, dc_businessDateAD r) \<longrightarrow> x \<in> set (cd_closes d') \<longleftrightarrow> x \<in> set (cd_closes d)) \<and>
    (\<forall>label2 today2 now2 req2 r2 d2. isAccountingDate (JStr today2) \<and> post_cashClose label2 today2 now2 req2 d' = Inr (r2, d2) \<longrightarrow>
      (dc_branchId r2, dc_businessDateAD r2) \<noteq> (dc_branchId r, dc_businessDateAD r))"
proof -
  from assms obtain c counted where c: "c \<in> set (cd_closes d')" "r = mapClose c" "close_ok c" "dc_status c = ''CLOSED''"
    and day: "closes_day (dc_branchId c) (dc_businessDateAD c) counted d d'"
    and exp: "dc_expectedClosing c = cb_closing (buildCashBook (day_window (dc_businessDateAD c) (dc_branchId c)) (cd_ledger d))"
    and scope: "case allowedBranchScope (rq_user req) of None \<Rightarrow> True | Some bs \<Rightarrow> dc_branchId c \<in> set bs"
    and before: "\<forall>x \<in> set (cd_closes d). day_of x = day_of c \<longrightarrow> dc_status x = ''OPEN''" by (rule post_cashClose_effect)
  have r: "day_of r = day_of c" "dc_status r = dc_status c" "dc_expectedClosing r = dc_expectedClosing c" "dc_countedClosing r = dc_countedClosing c"
    "dc_variance r = dc_variance c" using c(2) mapClose_ok [OF c(3)] by simp_all
  have reach: "cash_reach d'" using assms by (blast intro: cash_reach.step cash_step.close)
  have again: "day_of r2 \<noteq> day_of c" if "isAccountingDate (JStr today2)" "post_cashClose label2 today2 now2 req2 d' = Inr (r2, d2)" for label2 today2 now2 req2 r2 d2
  proof
    assume e: "day_of r2 = day_of c"
    from reach that obtain c2 n2 where "r2 = mapClose c2" "close_ok c2" "\<forall>x \<in> set (cd_closes d'). day_of x = day_of c2 \<longrightarrow> dc_status x = ''OPEN''"
      by (rule post_cashClose_effect)
    with e c(1,4) mapClose_ok [of c2] show False by auto
  qed
  have others: "x \<in> set (cd_closes d') \<longleftrightarrow> x \<in> set (cd_closes d)" if x: "day_of x \<noteq> day_of c" for x
  proof -
    from day obtain c1 where c1: "day_of c1 = day_of c" "\<forall>x. x \<noteq> c1 \<longrightarrow> x \<in> set (cd_closes d') \<longleftrightarrow> x \<in> set (cd_closes d) \<and> day_of x \<noteq> day_of c"
      unfolding closes_day_def by blast
    with x have "x \<noteq> c1" by blast
    with c1(2) x show ?thesis by blast
  qed
  have "case allowedBranchScope (rq_user req) of None \<Rightarrow> True | Some bs \<Rightarrow> dc_branchId r \<in> set bs" using scope r(1) by (simp split: option.splits)
  moreover have "cd_ledger d' = cd_ledger d" using day by (simp add: closes_day_def)
  moreover have "dc_expectedClosing r = cb_closing (buildCashBook (day_window (dc_businessDateAD r) (dc_branchId r)) (cd_ledger d))" using exp r(1,3) by simp
  moreover have "dc_variance r = dc_countedClosing r - dc_expectedClosing r" using c(3) r(3-5) by (simp add: close_ok_def)
  moreover have "dc_status r = ''CLOSED''" using r(2) c(4) by simp
  ultimately show ?thesis using before again others r(1) by (intro conjI) auto
qed

theorem cash_day_closed_witness:
  "\<exists>r d'. post_cashClose plain_label ''2024-08-01'' ''now'' count_request \<lparr>cd_ledger = shop, cd_closes = [], cd_uuid = 0\<rparr> = Inr (r, d') \<and>
     dc_status r = ''CLOSED'' \<and> dc_variance r = dc_countedClosing r - dc_expectedClosing r \<and> cd_ledger d' = shop"
  using cash_day_closed [OF closed_desk closed_once] closed_once by auto

section \<open>The position\<close>

lemma position_totals:
  assumes "\<And>r. r \<in> set rows \<Longrightarrow> is_cents (cq_opening (cr_figures r)) \<and> is_cents (cq_cashIn (cr_figures r)) \<and> is_cents (cq_cashOut (cr_figures r)) \<and>
      is_cents (cq_expectedClosing (cr_figures r))"
    and "is_cents (ct_opening t)" "is_cents (ct_cashIn t)" "is_cents (ct_cashOut t)" "is_cents (ct_expectedClosing t)"
  shows "ct_opening (foldl add_position t rows) = ct_opening t + (\<Sum>r \<leftarrow> rows. cq_opening (cr_figures r))"
    "ct_cashIn (foldl add_position t rows) = ct_cashIn t + (\<Sum>r \<leftarrow> rows. cq_cashIn (cr_figures r))"
    "ct_cashOut (foldl add_position t rows) = ct_cashOut t + (\<Sum>r \<leftarrow> rows. cq_cashOut (cr_figures r))"
    "ct_expectedClosing (foldl add_position t rows) = ct_expectedClosing t + (\<Sum>r \<leftarrow> rows. cq_expectedClosing (cr_figures r))"
    "ct_closedBranches (foldl add_position t rows) + ct_openBranches (foldl add_position t rows) = ct_closedBranches t + ct_openBranches t + length rows"
  using assms by (induction rows arbitrary: t) (simp_all add: add_position_def Let_def cents_ops)

lemma figures_cents:
  assumes "ledger_ok s" and "f \<in> set (CASH_BRANCH_FIGURES label date scope s)"
  shows "is_cents (cq_opening f)" "is_cents (cq_cashIn f)" "is_cents (cq_cashOut f)" "is_cents (cq_expectedClosing f)"
    "cq_expectedClosing f = cq_opening f + cq_cashIn f - cq_cashOut f"
proof -
  have ne: "\<not> sw_empty (day_window date (cq_branchId f))" by simp
  note b = book_totals(4-7) [OF assms(1) ne]
  show "is_cents (cq_opening f)" "is_cents (cq_cashIn f)" "is_cents (cq_cashOut f)" "is_cents (cq_expectedClosing f)"
    "cq_expectedClosing f = cq_opening f + cq_cashIn f - cq_cashOut f"
    unfolding figures_book [OF assms] b(1) using b(2-4) by (auto intro: is_cents_add is_cents_diff)
qed

text \<open>A day's close is found by its branch, since there is one.\<close>

lemma merged_row:
  assumes dk: "desk_ok d" and date: "isAccountingDate (JStr date)" and sc: "in_scope scope (cq_branchId (cr_figures row))"
    and row: "cr_status row = ''OPEN''" "\<not> cr_stale row" "is_cents (cq_expectedClosing (cr_figures row))"
  shows "cr_stale (merge_close (map mapClose (DAILY_CASH_CLOSES_FOR_DATE date scope d)) row) \<longleftrightarrow>
    (\<exists>c \<in> set (cd_closes d). day_of c = (cq_branchId (cr_figures row), date) \<and> dc_status c = ''CLOSED'' \<and> dc_expectedClosing c \<noteq> cq_expectedClosing (cr_figures row))"
    "cr_status (merge_close (map mapClose (DAILY_CASH_CLOSES_FOR_DATE date scope d)) row) = ''CLOSED'' \<longleftrightarrow>
    (\<exists>c \<in> set (cd_closes d). day_of c = (cq_branchId (cr_figures row), date) \<and> dc_status c = ''CLOSED'')"
    "cr_figures (merge_close (map mapClose (DAILY_CASH_CLOSES_FOR_DATE date scope d)) row) = cr_figures row"
proof -
  let ?b = "cq_branchId (cr_figures row)" and ?cs = "map mapClose (DAILY_CASH_CLOSES_FOR_DATE date scope d)"
  have ok: "close_ok c" if "c \<in> set (cd_closes d)" for c using dk that by (simp add: desk_ok_def)
  have m: "dc_branchId (mapClose c) = dc_branchId c" "close_ok c \<Longrightarrow> dc_status (mapClose c) = dc_status c"
    "close_ok c \<Longrightarrow> dc_expectedClosing (mapClose c) = dc_expectedClosing c" for c
    using mapClose_ok [of c] by (simp_all add: mapClose_def)
  show "cr_figures (merge_close ?cs row) = cr_figures row" by (simp add: merge_close_def Let_def split: option.splits)
  have rows: "set ?cs = mapClose ` {c \<in> set (cd_closes d). dc_businessDateAD c = date \<and> in_scope scope (dc_branchId c)}"
    by (simp add: DAILY_CASH_CLOSES_FOR_DATE_def)
  show "cr_stale (merge_close ?cs row) \<longleftrightarrow>
      (\<exists>c \<in> set (cd_closes d). day_of c = (?b, date) \<and> dc_status c = ''CLOSED'' \<and> dc_expectedClosing c \<noteq> cq_expectedClosing (cr_figures row)) "
    and "cr_status (merge_close ?cs row) = ''CLOSED'' \<longleftrightarrow> (\<exists>c \<in> set (cd_closes d). day_of c = (?b, date) \<and> dc_status c = ''CLOSED'')"
  proof (atomize (full), cases "List.find (\<lambda>c. dc_branchId c = ?b) (rev ?cs)")
    case None
    then have none: "\<not> (\<exists>c \<in> set (cd_closes d). day_of c = (?b, date))"
      using sc by (auto simp: find_None_iff rows m(1) simp del: set_map) (metis (mono_tags, lifting) imageI m(1) mem_Collect_eq rows)
    with None row show "(cr_stale (merge_close ?cs row) \<longleftrightarrow>
      (\<exists>c \<in> set (cd_closes d). day_of c = (?b, date) \<and> dc_status c = ''CLOSED'' \<and> dc_expectedClosing c \<noteq> cq_expectedClosing (cr_figures row))) \<and>
      (cr_status (merge_close ?cs row) = ''CLOSED'' \<longleftrightarrow> (\<exists>c \<in> set (cd_closes d). day_of c = (?b, date) \<and> dc_status c = ''CLOSED''))"
      by (auto simp: merge_close_def)
  next
    case (Some c')
    then have "c' \<in> set ?cs" "dc_branchId c' = ?b" by (auto dest!: find_SomeD)
    then obtain c where c: "c' = mapClose c" "c \<in> set (cd_closes d)" "day_of c = (?b, date)" unfolding rows by (auto simp: m(1))
    have one: "x = c" if "x \<in> set (cd_closes d)" "day_of x = (?b, date)" for x
      by (rule one_day [OF dk that(1) c(2)]) (simp only: that(2) c(3))
    have "5 / 1000 \<le> \<bar>dc_expectedClosing c - cq_expectedClosing (cr_figures row)\<bar> \<longleftrightarrow> dc_expectedClosing c \<noteq> cq_expectedClosing (cr_figures row)"
    proof -
      have "is_cents (dc_expectedClosing c)" using ok [OF c(2)] unfolding close_ok_def by blast
      from cents_eq [OF this row(3)] have "1 / 100 \<le> \<bar>dc_expectedClosing c - cq_expectedClosing (cr_figures row)\<bar>"
        if "dc_expectedClosing c \<noteq> cq_expectedClosing (cr_figures row)" using that not_le by blast
      then show ?thesis by (cases "dc_expectedClosing c = cq_expectedClosing (cr_figures row)") fastforce+
    qed
    then have stale: "cr_stale (merge_close ?cs row) \<longleftrightarrow> dc_status c = ''CLOSED'' \<and> dc_expectedClosing c \<noteq> cq_expectedClosing (cr_figures row)"
      and status: "cr_status (merge_close ?cs row) = dc_status c"
      using Some m(2,3) [OF ok [OF c(2)]] unfolding merge_close_def c(1) by (simp_all add: Let_def)
    show "(cr_stale (merge_close ?cs row) \<longleftrightarrow>
      (\<exists>c \<in> set (cd_closes d). day_of c = (?b, date) \<and> dc_status c = ''CLOSED'' \<and> dc_expectedClosing c \<noteq> cq_expectedClosing (cr_figures row))) \<and>
      (cr_status (merge_close ?cs row) = ''CLOSED'' \<longleftrightarrow> (\<exists>c \<in> set (cd_closes d). day_of c = (?b, date) \<and> dc_status c = ''CLOSED''))"
      unfolding stale status using c(2,3) one by blast
  qed
qed

lemma loaded:
  assumes ok: "ledger_ok (cd_ledger d)"
  shows "loadFigures label date scope d = map (\<lambda>f. \<lparr>cr_figures = f, cr_status = ''OPEN'', cr_countedClosing = None, cr_variance = None, cr_close = None,
    cr_stale = False\<rparr>) (CASH_BRANCH_FIGURES label date scope (cd_ledger d))"
  using figures_cents(1-4) [OF ok] by (auto simp: loadFigures_def cents_ops)

lemma position_row:
  assumes "cash_reach d" and "isAccountingDate (JStr date)" and "r \<in> set (cp_branches (buildCashPosition label date scope br d))"
  obtains f where "f \<in> set (CASH_BRANCH_FIGURES label date scope (cd_ledger d))" "cr_figures r = f" "in_scope scope (cq_branchId f)"
    "cr_stale r \<longleftrightarrow> (\<exists>c \<in> set (cd_closes d). day_of c = (cq_branchId f, date) \<and> dc_status c = ''CLOSED'' \<and> dc_expectedClosing c \<noteq> cq_expectedClosing f)"
    "cr_status r = ''CLOSED'' \<longleftrightarrow> (\<exists>c \<in> set (cd_closes d). day_of c = (cq_branchId f, date) \<and> dc_status c = ''CLOSED'')"
proof -
  have ok: "ledger_ok (cd_ledger d)" "desk_ok d" using cash_reach_ok [OF assms(1)] reach_ok by blast+
  from assms(3) obtain f where f: "f \<in> set (CASH_BRANCH_FIGURES label date scope (cd_ledger d))"
    and r: "r = merge_close (map mapClose (DAILY_CASH_CLOSES_FOR_DATE date scope d))
      \<lparr>cr_figures = f, cr_status = ''OPEN'', cr_countedClosing = None, cr_variance = None, cr_close = None, cr_stale = False\<rparr>"
    unfolding buildCashPosition_def Let_def loaded [OF ok(1)] by auto
  have sc: "in_scope scope (cq_branchId f)" using f by (auto simp: CASH_BRANCH_FIGURES_def Let_def)
  show ?thesis
    by (rule that [of f]) (use merged_row [OF ok(2) assms(2), of scope "\<lparr>cr_figures = f, cr_status = ''OPEN'', cr_countedClosing = None,
        cr_variance = None, cr_close = None, cr_stale = False\<rparr>"] sc f r figures_cents(4) [OF ok(1) f] in simp_all)
qed



end
