(* ===== verification/BranchClaims.thy ===== *)
theory BranchClaims
  imports BranchScope
begin

text \<open>
  What \<open>enforceBranchAccess\<close> guarantees of a request it lets through, and the two ways round it: an id that cannot be decoded makes
  the middleware reject instead of answer, and a path is compared with its letters' case.
\<close>

section \<open>The registry has no shadows\<close>

lemma resource_found:
  "r \<in> set BRANCH_SCOPED_RESOURCES \<Longrightarrow> findBranchScopedResource (rs_prefix r @ ''/'' @ rest) = Some r"
  unfolding BRANCH_SCOPED_RESOURCES_def findBranchScopedResource_def
  by (simp only: set_simps insert_iff empty_iff, elim disjE; simp add: resource_def path_under_def)

lemma read_path_found: "p \<in> set BRANCH_SCOPED_READ_PATHS \<Longrightarrow> List.find (path_under p) BRANCH_SCOPED_READ_PATHS = Some p \<and> first_segment p p = []"
  unfolding BRANCH_SCOPED_READ_PATHS_def
  by (simp only: set_simps insert_iff empty_iff, elim disjE; simp add: path_under_def first_segment_def)

lemma segment_of_path:
  "CHR ''/'' \<notin> set seg \<Longrightarrow> rest = [] \<or> hd rest = CHR ''/'' \<Longrightarrow> first_segment p (p @ ''/'' @ seg @ rest) = seg"
proof -
  assume s: "CHR ''/'' \<notin> set seg" and r: "rest = [] \<or> hd rest = CHR ''/''"
  have "takeWhile (\<lambda>c. c \<noteq> CHR ''/'') (seg @ rest) = seg" using s r by (induction seg) (cases rest, auto)
  then show ?thesis by (simp add: first_segment_def)
qed

lemma decode_plain: "CHR ''%'' \<notin> set s \<Longrightarrow> decodeURIComponent s = Some s"
proof -
  have "CHR ''%'' \<notin> set s \<Longrightarrow> decode_from [] s = Some s" by (induction s) auto
  then show "CHR ''%'' \<notin> set s \<Longrightarrow> decodeURIComponent s = Some s" by (simp add: decodeURIComponent_def)
qed

lemma gate_passed:
  assumes "rq_user req = Some u" and "\<not> is_global u" and "enforceBranchAccess lookup True req = Next"
  shows "\<forall>b \<in> set (requested_branches req). b \<in> set (su_branchId u # su_allowedBranchIds u)"
    "record_gate lookup (su_branchId u # su_allowedBranchIds u) (rq_path req) = Next"
    "rq_method req = ''GET'' \<Longrightarrow> List.find (path_under (rq_path req)) BRANCH_SCOPED_READ_PATHS = Some p \<Longrightarrow> first_segment p (rq_path req) = [] \<Longrightarrow>
       jget (rq_query req) ''branchId'' \<in> JStr ` set (su_branchId u # su_allowedBranchIds u)"
  using assms unfolding enforceBranchAccess_def by (auto simp: Let_def split: if_splits)

section \<open>The claims\<close>


definition branch_clerk :: session_user where
  "branch_clerk = \<lparr>su_id = ''u2'', su_email = ''clerk@isp'', su_name = ''Hari'', su_role = ''BRANCH_ADMIN'', su_branchId = ''b1'', su_allowedBranchIds = [''b2'']\<rparr>"

definition invoice_request :: "string \<Rightarrow> request" where
  "invoice_request path = \<lparr>rq_method = ''GET'', rq_path = path, rq_query = JObj [(''branchId'', JStr ''b2'')], rq_body = JUndef, rq_user = Some branch_clerk\<rparr>"

text \<open>A database with one purchase invoice, \<open>pi1\<close> of branch \<open>b3\<close>, and one, \<open>pi2\<close>, of branch \<open>b2\<close>.\<close>

definition two_invoices :: "branch_resource \<Rightarrow> string \<Rightarrow> (string \<Rightarrow> string option) option res" where
  "two_invoices r i = Inr (if rs_table r = ''purchase_invoices'' \<and> i = ''pi1'' then Some (\<lambda>column. Some ''b3'')
     else if rs_table r = ''purchase_invoices'' \<and> i = ''pi2'' then Some (\<lambda>column. Some ''b2'') else None)"


section \<open>The ways round the guard\<close>

lemma other_branch_refused:
  "enforceBranchAccess two_invoices True (invoice_request ''/purchase-invoices/pi1/payments'') =
     Respond 403 ''Forbidden: this record belongs to another branch.''"
  by code_simp

text \<open>Express matches a route's letters in either case; the guard does not, and the same record passes.\<close>

lemma mixed_case_path_unguarded:
  "enforceBranchAccess two_invoices True (invoice_request ''/Purchase-Invoices/pi1/payments'') = Next"
  by code_simp

lemma malformed_escape_rejects:
  assumes "rq_user req = Some u" and "\<not> is_global u" and "rq_path req = ''/purchase-invoices/%''" and "requested_branches req = []"
    and "rq_method req = ''PUT''" and "jget (rq_query req) ''branchId'' = JUndef" and "jget (rq_body req) ''branchId'' = JUndef"
  shows "enforceBranchAccess lookup True req = Rejected"
  using assms resource_found [of "resource ''/purchase-invoices'' ''purchase_invoices'' [''branch_id''] ''id = $1''" "''%''"]
  by (simp add: enforceBranchAccess_def record_gate_def BRANCH_SCOPED_RESOURCES_def resource_def first_segment_def decodeURIComponent_def)

end
