(* ===== verification/Access.thy ===== *)
theory Access
  imports BranchScope "HOL-Library.AList"
begin

text \<open>
  Who may do what: the role matrix, the per-user exceptions and the permission sets above it, and the published copies the
  middleware reads. Services \<open>permissionOverrides\<close> and \<open>permissionMatrix\<close>, statements in \<open>models/permissions.repo.ts\<close>, the boot
  seed \<open>boot/permissionSeed.ts\<close>. A JavaScript \<open>Map\<close>, and a table with its primary key, is an association list. \<open>Date.parse\<close>,
  \<open>toISOString\<close> and PostgreSQL's reading of a timestamp are the fields of \<open>time_lib\<close>: the language leaves \<open>Date.parse\<close> open
  outside its own format. Instants are milliseconds.
\<close>

section \<open>The catalogue\<close>

definition APP_ROLES :: "string list" where
  "APP_ROLES = [''SUPER_ADMIN'', ''INVENTORY_MANAGER'', ''BRANCH_MANAGER'', ''FRONT_DESK'', ''ACCOUNTANT'', ''HEAD_OFFICE_ADMIN'',
     ''PROCUREMENT_OFFICER'', ''FIELD_TECHNICIAN'', ''AUDITOR'']"

text \<open>Each operation with its nine answers, in the order of the roles.\<close>

definition default_answers :: "(string \<times> string) list" where
  "default_answers =
    [(''po-create'', ''111101100''), (''po-receive'', ''111101100''), (''branch-procurement-control'', ''100001000''),
     (''inv-create'', ''111011100''), (''inv-pay'', ''110011100''), (''po-delete'', ''100001000''), (''inv-delete'', ''100001000''),
     (''purchase-return-create'', ''111011100''), (''sales-invoice-create'', ''111111000''), (''sales-return-create'', ''111111000''),
     (''shipment-create'', ''111101100''), (''wh-receive-pullouts'', ''111101100''), (''wh-restrict-transfer'', ''110001000''),
     (''shipment-history'', ''111111111''), (''branch-transfer-create'', ''111101100''), (''branch-transfer-receive'', ''111101100''),
     (''branch-transfer-cancel-receive'', ''110001000''), (''shipment-cancel'', ''111101100''),
     (''branch-transfer-request-cancel'', ''110001000''), (''branch-pullout-dispatch'', ''111101110''),
     (''pullout-report-view'', ''111111111''), (''branch-damage-mark'', ''110001000''), (''stock-disposal-writeoff'', ''110001000''),
     (''branch-asset-assign'', ''111011000''), (''stock-out'', ''111101110''), (''consumable-issue-reverse'', ''110001000''),
     (''prod-view'', ''111111111''), (''prod-edit'', ''110001000''), (''uom-manage'', ''110001000''),
     (''edit-device-serials'', ''110001000''), (''category-manage'', ''110001000''), (''product-group-manage'', ''110001000''),
     (''warranty-view'', ''111111111''), (''warranty-edit'', ''110001000''), (''stock-import-export'', ''110001001''),
     (''opening-stock-view'', ''110011001''), (''opening-stock-edit'', ''110001000''), (''assets-view'', ''111011001''),
     (''assets-manage'', ''111011000''), (''fin-statements'', ''100011001''), (''fin-depreciation-post'', ''100011000''),
     (''vat-register'', ''100011001''), (''stock-valuation'', ''111011001''), (''gl-view'', ''100011001''),
     (''gl-post'', ''100011000''), (''gl-reverse'', ''100011000''), (''gl-chart-manage'', ''100011000''),
     (''gl-subledger-manage'', ''100011000''), (''gl-dimension-manage'', ''100011000''), (''gl-bill-terms-manage'', ''100011000''),
     (''gl-payroll-manage'', ''100011000''), (''gl-payroll-post'', ''100011000''), (''gl-cash-close'', ''100011000''),
     (''gl-opening-post'', ''100011000''), (''gl-close'', ''100011000''), (''suppliers-manage'', ''111011100''),
     (''customers-manage'', ''111111110''), (''auth-switch-user'', ''110001000''), (''workflow-approval'', ''110001000''),
     (''workflow-approval-cancel'', ''110001000''), (''admin-users'', ''100001000''), (''admin-branches'', ''100001000''),
     (''admin-audit'', ''110011001''), (''admin-fiscal'', ''100011000'')]"

definition DEFAULT_PERMISSIONS_MATRIX :: "(string \<times> (string \<times> bool) list) list" where
  "DEFAULT_PERMISSIONS_MATRIX = map (\<lambda>(operation, answers). (operation, zip APP_ROLES (map (\<lambda>c. c = CHR ''1'') answers))) default_answers"

definition PERMISSION_OPERATIONS :: "string list" where
  "PERMISSION_OPERATIONS = map fst DEFAULT_PERMISSIONS_MATRIX"

section \<open>Tables\<close>

record time_lib =
  tl_parse :: "string \<Rightarrow> int option"
  tl_iso :: "int \<Rightarrow> string"
  tl_stored :: "string \<Rightarrow> int option"

record account =
  at_id :: string
  at_email :: string
  at_name :: string
  at_role :: string

record override_row =
  vr_effect :: string
  vr_reason :: string
  vr_expires :: "int option"

record permission_set =
  pn_id :: string
  pn_name :: string
  pn_description :: string

type_synonym matrix_rows = "((string \<times> string) \<times> bool) list"

record access_tables =
  tb_users :: "account list"
  tb_matrix :: matrix_rows
  tb_overrides :: "((string \<times> string) \<times> override_row) list"
  tb_sets :: "permission_set list"
  tb_grants :: "(string \<times> string) list"
  tb_members :: "(string \<times> string) list"

record override_record =
  ov_operationId :: string
  ov_effect :: string
  ov_reason :: string
  ov_expiresAt :: "string option"

record override_entry =
  oe_effect :: string
  oe_expiresAt :: "string option"

type_synonym override_map = "(string \<times> (string \<times> override_entry) list) list"
type_synonym grant_map = "(string \<times> string list) list"

text \<open>\<open>Object.entries\<close> of an object or array that came from JSON, and its own properties. An index into a string is no role.\<close>

fun object_entries :: "jsval \<Rightarrow> (string \<times> jsval) list" where
  "object_entries (JObj fs) = map (\<lambda>k. (k, jget (JObj fs) k)) (first_occurrences (map fst fs))"
| "object_entries (JArr xs) = zip (map nat_str [0..<length xs]) xs"
| "object_entries _ = []"

definition own :: "jsval \<Rightarrow> string \<Rightarrow> jsval" where
  "own v k = (case map_of (object_entries v) k of None \<Rightarrow> JUndef | Some x \<Rightarrow> x)"

fun is_object :: "jsval \<Rightarrow> bool" where
  "is_object (JObj _) = True"
| "is_object (JArr _) = True"
| "is_object _ = False"

definition permissionMatrixEntries :: "jsval \<Rightarrow> (string \<times> string \<times> bool) list" where
  "permissionMatrixEntries matrix =
     concat (map (\<lambda>(op, roles). if is_object roles then map (\<lambda>(role, allowed). (op, role, truthy allowed)) (object_entries roles) else [])
       (object_entries matrix))"

definition rowsToPermissionMatrix :: "matrix_rows \<Rightarrow> jsval" where
  "rowsToPermissionMatrix rows =
     JObj (foldl (\<lambda>m ((op, role), allowed).
       AList.update op (JObj (AList.update role (JBool allowed) (case map_of m op of Some (JObj fs) \<Rightarrow> fs | _ \<Rightarrow> []))) m) [] rows)"

definition PERMISSION_MATRIX_UPSERT :: "string \<Rightarrow> string \<Rightarrow> bool \<Rightarrow> (access_tables, unit) tx" where
  "PERMISSION_MATRIX_UPSERT op role allowed = (\<lambda>t.
     if 60 < length op \<or> 40 < length role then Inl (ApiError 500 ''value too long for type character varying'')
     else Inr ((), t\<lparr>tb_matrix := AList.update (op, role) allowed (tb_matrix t)\<rparr>))"

definition PERMISSION_MATRIX_DELETE_ALL :: "(access_tables, unit) tx" where
  "PERMISSION_MATRIX_DELETE_ALL = texec (\<lambda>t. t\<lparr>tb_matrix := []\<rparr>)"

definition USER_PERMISSION_OVERRIDES_DELETE_FOR_USER :: "string \<Rightarrow> (access_tables, unit) tx" where
  "USER_PERMISSION_OVERRIDES_DELETE_FOR_USER u = texec (\<lambda>t. t\<lparr>tb_overrides := filter (\<lambda>((v, op), r). v \<noteq> u) (tb_overrides t)\<rparr>)"

definition USER_PERMISSION_OVERRIDE_UPSERT :: "time_lib \<Rightarrow> string \<Rightarrow> override_record \<Rightarrow> (access_tables, unit) tx" where
  "USER_PERMISSION_OVERRIDE_UPSERT lib u r = (\<lambda>t.
     case (case ov_expiresAt r of None \<Rightarrow> Some None | Some s \<Rightarrow> map_option Some (tl_stored lib s)) of
       None \<Rightarrow> Inl (ApiError 500 ''invalid input syntax for type timestamp with time zone'')
     | Some expires \<Rightarrow>
         if 50 < length u \<or> 60 < length (ov_operationId r) \<or> ov_effect r \<notin> {''grant'', ''deny''} \<or> u \<notin> at_id ` set (tb_users t)
         then Inl (ApiError 500 ''new row violates a constraint'')
         else Inr ((), t\<lparr>tb_overrides := AList.update (u, ov_operationId r)
           \<lparr>vr_effect = ov_effect r, vr_reason = ov_reason r, vr_expires = expires\<rparr> (tb_overrides t)\<rparr>))"

definition permissionOverrideEffect :: "string \<Rightarrow> string" where
  "permissionOverrideEffect v = (if v = ''deny'' then ''deny'' else ''grant'')"

definition toIsoTimestamp :: "time_lib \<Rightarrow> int option \<Rightarrow> string option" where
  "toIsoTimestamp lib = map_option (tl_iso lib)"

definition override_entry_of :: "time_lib \<Rightarrow> override_row \<Rightarrow> override_entry" where
  "override_entry_of lib r = \<lparr>oe_effect = permissionOverrideEffect (vr_effect r), oe_expiresAt = toIsoTimestamp lib (vr_expires r)\<rparr>"

definition rowsToUserPermissionOverrideRecords :: "time_lib \<Rightarrow> ((string \<times> string) \<times> override_row) list \<Rightarrow> override_record list" where
  "rowsToUserPermissionOverrideRecords lib =
     map (\<lambda>((u, op), r). \<lparr>ov_operationId = op, ov_effect = permissionOverrideEffect (vr_effect r), ov_reason = vr_reason r,
       ov_expiresAt = toIsoTimestamp lib (vr_expires r)\<rparr>)"

definition rowsToUserPermissionOverrideMap :: "time_lib \<Rightarrow> ((string \<times> string) \<times> override_row) list \<Rightarrow> override_map" where
  "rowsToUserPermissionOverrideMap lib rows =
     foldl (\<lambda>m ((u, op), r). AList.update u (AList.update op (override_entry_of lib r) (case map_of m u of None \<Rightarrow> [] | Some ops \<Rightarrow> ops)) m) [] rows"

definition USER_PERMISSION_OVERRIDES_FOR_USER :: "string \<Rightarrow> access_tables \<Rightarrow> ((string \<times> string) \<times> override_row) list" where
  "USER_PERMISSION_OVERRIDES_FOR_USER u t =
     order_by (\<lambda>((_, a), _) ((_, b), _). str_le a b) (filter (\<lambda>((v, op), r). v = u) (tb_overrides t))"

text \<open>Users with the operations their sets grant: memberships joined with grants.\<close>

definition PERMISSION_SET_USER_GRANTS :: "access_tables \<Rightarrow> (string \<times> string) list" where
  "PERMISSION_SET_USER_GRANTS t =
     concat (map (\<lambda>(u, i). map (\<lambda>(j, op). (u, op)) (filter (\<lambda>(j, op). j = i) (tb_grants t))) (tb_members t))"

definition rowsToUserPermissionSetGrantMap :: "(string \<times> string) list \<Rightarrow> grant_map" where
  "rowsToUserPermissionSetGrantMap rows =
     foldl (\<lambda>m (u, op). let ops = (case map_of m u of None \<Rightarrow> [] | Some ops \<Rightarrow> ops) in
       AList.update u (if op \<in> set ops then ops else ops @ [op]) m) [] rows"

definition PERMISSION_TARGET_USER :: "string \<Rightarrow> access_tables \<Rightarrow> account option" where
  "PERMISSION_TARGET_USER i t = List.find (\<lambda>a. at_id a = i) (tb_users t)"

text \<open>The row goes and, by the foreign keys of the schema, its exceptions and memberships with it.\<close>

definition USER_DELETE :: "string \<Rightarrow> (access_tables, account list) tx" where
  "USER_DELETE i = (\<lambda>t. Inr (filter (\<lambda>a. at_id a = i) (tb_users t),
     t\<lparr>tb_users := filter (\<lambda>a. at_id a \<noteq> i) (tb_users t), tb_overrides := filter (\<lambda>((v, op), r). v \<noteq> i) (tb_overrides t),
       tb_members := filter (\<lambda>(v, j). v \<noteq> i) (tb_members t)\<rparr>))"

definition PERMISSION_SET_BY_ID :: "string \<Rightarrow> access_tables \<Rightarrow> permission_set option" where
  "PERMISSION_SET_BY_ID i t = List.find (\<lambda>p. pn_id p = i) (tb_sets t)"

text \<open>A unique-key violation is answered 409, as the handlers translate PostgreSQL's code 23505; a missing reference likewise (23503).\<close>

definition name_taken :: "string \<Rightarrow> string \<Rightarrow> access_tables \<Rightarrow> bool" where
  "name_taken i name t \<longleftrightarrow> list_ex (\<lambda>p. pn_id p \<noteq> i \<and> to_lower (pn_name p) = to_lower name) (tb_sets t)"

definition PERMISSION_SET_INSERT :: "string \<Rightarrow> string \<Rightarrow> string \<Rightarrow> (access_tables, unit) tx" where
  "PERMISSION_SET_INSERT i name description = (\<lambda>t.
     if 50 < length i \<or> 120 < length name then Inl (ApiError 500 ''value too long for type character varying'')
     else if i \<in> pn_id ` set (tb_sets t) \<or> name_taken i name t then Inl (ApiError 409 ''duplicate key value violates unique constraint'')
     else Inr ((), t\<lparr>tb_sets := tb_sets t @ [\<lparr>pn_id = i, pn_name = name, pn_description = description\<rparr>]\<rparr>))"

definition PERMISSION_SET_UPDATE :: "string \<Rightarrow> string \<Rightarrow> string \<Rightarrow> (access_tables, unit) tx" where
  "PERMISSION_SET_UPDATE i name description = (\<lambda>t.
     if i \<in> pn_id ` set (tb_sets t) \<and> 120 < length name then Inl (ApiError 500 ''value too long for type character varying'')
     else if i \<in> pn_id ` set (tb_sets t) \<and> name_taken i name t then Inl (ApiError 409 ''duplicate key value violates unique constraint'')
     else Inr ((), t\<lparr>tb_sets := map (\<lambda>p. if pn_id p = i then p\<lparr>pn_name := name, pn_description := description\<rparr> else p) (tb_sets t)\<rparr>))"

definition PERMISSION_SET_DELETE :: "string \<Rightarrow> (access_tables, unit) tx" where
  "PERMISSION_SET_DELETE i = texec (\<lambda>t. t\<lparr>tb_sets := filter (\<lambda>p. pn_id p \<noteq> i) (tb_sets t),
     tb_grants := filter (\<lambda>(j, op). j \<noteq> i) (tb_grants t), tb_members := filter (\<lambda>(u, j). j \<noteq> i) (tb_members t)\<rparr>)"

definition PERMISSION_SET_GRANTS_DELETE :: "string \<Rightarrow> (access_tables, unit) tx" where
  "PERMISSION_SET_GRANTS_DELETE i = texec (\<lambda>t. t\<lparr>tb_grants := filter (\<lambda>(j, op). j \<noteq> i) (tb_grants t)\<rparr>)"

definition PERMISSION_SET_GRANT_INSERT :: "string \<Rightarrow> string \<Rightarrow> (access_tables, unit) tx" where
  "PERMISSION_SET_GRANT_INSERT i op = (\<lambda>t.
     if 60 < length op then Inl (ApiError 500 ''value too long for type character varying'')
     else if i \<notin> pn_id ` set (tb_sets t) \<or> (i, op) \<in> set (tb_grants t) then Inl (ApiError 409 ''violates a key constraint'')
     else Inr ((), t\<lparr>tb_grants := tb_grants t @ [(i, op)]\<rparr>))"

definition PERMISSION_SET_MEMBERS_DELETE_FOR_USER :: "string \<Rightarrow> (access_tables, unit) tx" where
  "PERMISSION_SET_MEMBERS_DELETE_FOR_USER u = texec (\<lambda>t. t\<lparr>tb_members := filter (\<lambda>(v, i). v \<noteq> u) (tb_members t)\<rparr>)"

definition PERMISSION_SET_MEMBER_INSERT :: "string \<Rightarrow> string \<Rightarrow> (access_tables, unit) tx" where
  "PERMISSION_SET_MEMBER_INSERT u i = (\<lambda>t.
     if i \<notin> pn_id ` set (tb_sets t) \<or> u \<notin> at_id ` set (tb_users t) \<or> (u, i) \<in> set (tb_members t)
     then Inl (ApiError 409 ''violates a key constraint'')
     else Inr ((), t\<lparr>tb_members := tb_members t @ [(u, i)]\<rparr>))"

section \<open>Resolution\<close>

text \<open>A subject without a role is \<open>None\<close> or has the empty role.\<close>

definition isOverrideExpired :: "time_lib \<Rightarrow> int \<Rightarrow> string option \<Rightarrow> bool" where
  "isOverrideExpired lib now expiresAt =
     (case expiresAt of None \<Rightarrow> False
      | Some s \<Rightarrow> if s = [] then False else (case tl_parse lib s of None \<Rightarrow> True | Some expiry \<Rightarrow> expiry \<le> now))"

definition known_operation :: "string \<Rightarrow> jsval \<Rightarrow> bool" where
  "known_operation op matrix \<longleftrightarrow> op \<in> set PERMISSION_OPERATIONS \<or> op \<in> fst ` set (object_entries matrix)"

definition user_entry :: "override_map \<Rightarrow> string \<Rightarrow> string \<Rightarrow> override_entry option" where
  "user_entry overrides u op = (case map_of overrides u of None \<Rightarrow> None | Some ops \<Rightarrow> map_of ops op)"

definition user_grants :: "grant_map \<Rightarrow> string \<Rightarrow> string list" where
  "user_grants grants u = (case map_of grants u of None \<Rightarrow> [] | Some ops \<Rightarrow> ops)"

definition roleBaseAllowed :: "string \<Rightarrow> string \<Rightarrow> jsval \<Rightarrow> bool" where
  "roleBaseAllowed role op matrix =
     (if role = [] then False else if role = ''SUPER_ADMIN'' then True else truthy (own (own matrix op) role))"

definition effectivePermission :: "time_lib \<Rightarrow> int \<Rightarrow> (string \<times> string) option \<Rightarrow> string \<Rightarrow> jsval \<Rightarrow> override_map \<Rightarrow> grant_map \<Rightarrow> bool" where
  "effectivePermission lib now subject op matrix overrides setGrants =
     (case subject of None \<Rightarrow> False
      | Some (u, role) \<Rightarrow>
        if role = [] then False else if role = ''SUPER_ADMIN'' then True
        else case (if known_operation op matrix
            then (case user_entry overrides u op of
                Some e \<Rightarrow> if \<not> isOverrideExpired lib now (oe_expiresAt e) then Some (oe_effect e = ''grant'')
                  else if op \<in> set (user_grants setGrants u) then Some True else None
              | None \<Rightarrow> if op \<in> set (user_grants setGrants u) then Some True else None)
            else None) of
          Some answer \<Rightarrow> answer
        | None \<Rightarrow> truthy (own (own matrix op) role))"

definition effectiveOperations :: "time_lib \<Rightarrow> int \<Rightarrow> string \<times> string \<Rightarrow> jsval \<Rightarrow> override_map \<Rightarrow> grant_map \<Rightarrow> string list" where
  "effectiveOperations lib now subject matrix overrides setGrants =
     order_by str_le (filter (\<lambda>op. effectivePermission lib now (Some subject) op matrix overrides setGrants)
       (first_occurrences (map fst (object_entries matrix) @
          (case map_of overrides (fst subject) of None \<Rightarrow> [] | Some ops \<Rightarrow> map fst ops) @ user_grants setGrants (fst subject))))"

record access_summary =
  as_userId :: string
  as_role :: string
  as_effective :: nat
  as_total :: nat
  as_grants :: nat
  as_denies :: nat
  as_setCount :: nat
  as_nextExpiry :: "string option"
  as_operations :: "string list"

definition live_override_entries :: "time_lib \<Rightarrow> int \<Rightarrow> override_map \<Rightarrow> string \<Rightarrow> override_entry list" where
  "live_override_entries lib now overrides u =
     filter (\<lambda>e. \<not> isOverrideExpired lib now (oe_expiresAt e)) (case map_of overrides u of None \<Rightarrow> [] | Some ops \<Rightarrow> map snd ops)"

definition next_expiry :: "time_lib \<Rightarrow> override_entry list \<Rightarrow> string option" where
  "next_expiry lib es =
     foldl (\<lambda>next e. case oe_expiresAt e of None \<Rightarrow> next
       | Some s \<Rightarrow> if s = [] then next else (case tl_parse lib s of None \<Rightarrow> next
          | Some expiry \<Rightarrow> if (case next of None \<Rightarrow> True | Some n \<Rightarrow> (case tl_parse lib n of None \<Rightarrow> False | Some m \<Rightarrow> expiry < m))
              then Some (tl_iso lib expiry) else next)) None es"

definition summarizeUserAccess ::
  "time_lib \<Rightarrow> int \<Rightarrow> account list \<Rightarrow> jsval \<Rightarrow> override_map \<Rightarrow> grant_map \<Rightarrow> (string \<Rightarrow> nat) \<Rightarrow> nat \<Rightarrow> access_summary list" where
  "summarizeUserAccess lib now users matrix overrides setGrants setCount catalogue =
     map (\<lambda>a. let live = live_override_entries lib now overrides (at_id a);
          operations = (if at_role a = ''SUPER_ADMIN''
            then order_by str_le (first_occurrences (map fst (object_entries matrix) @ PERMISSION_OPERATIONS))
            else effectiveOperations lib now (at_id a, at_role a) matrix overrides setGrants) in
        \<lparr>as_userId = at_id a, as_role = at_role a, as_effective = min catalogue (length operations), as_total = catalogue,
          as_grants = length (filter (\<lambda>e. oe_effect e = ''grant'') live), as_denies = length (filter (\<lambda>e. oe_effect e \<noteq> ''grant'') live),
          as_setCount = setCount (at_id a), as_nextExpiry = next_expiry lib live, as_operations = operations\<rparr>) users"

section \<open>The published copies and the writes\<close>

record access =
  ac_tables :: access_tables
  ac_matrix :: jsval
  ac_overrides :: override_map
  ac_setGrants :: grant_map
  ac_version :: nat
  ac_uuid :: nat

definition bumpPermissionsVersion :: "access \<Rightarrow> access" where
  "bumpPermissionsVersion s = s\<lparr>ac_version := ac_version s + 1\<rparr>"

text \<open>\<open>withTransaction\<close>: what the body writes is kept when the body succeeds and the COMMIT does, which is \<open>commit\<close>.\<close>

definition runInTransaction :: "bool \<Rightarrow> (access_tables, 'a) tx \<Rightarrow> access_tables \<Rightarrow> ('a \<times> access_tables) res" where
  "runInTransaction commit body t =
     (case body t of Inl e \<Rightarrow> Inl e | Inr r \<Rightarrow> if commit then Inr r else throw 500 ''COMMIT failed'')"

definition persistPermissionMatrix :: "bool \<Rightarrow> jsval \<Rightarrow> access \<Rightarrow> access res" where
  "persistPermissionMatrix commit matrix s =
     (case runInTransaction commit (tbind PERMISSION_MATRIX_DELETE_ALL (\<lambda>_.
         tfor (\<lambda>(op, role, allowed). PERMISSION_MATRIX_UPSERT op role allowed) (permissionMatrixEntries matrix))) (ac_tables s) of
       Inl e \<Rightarrow> Inl e
     | Inr (_, t) \<Rightarrow> Inr (s\<lparr>ac_tables := t, ac_matrix := matrix\<rparr>))"

definition entries_of_records :: "override_record list \<Rightarrow> (string \<times> override_entry) list" where
  "entries_of_records records =
     foldl (\<lambda>m r. AList.update (ov_operationId r) \<lparr>oe_effect = ov_effect r, oe_expiresAt = ov_expiresAt r\<rparr> m) [] records"

definition replaceUserOverrides :: "override_map \<Rightarrow> string \<Rightarrow> override_record list \<Rightarrow> override_map" where
  "replaceUserOverrides current u records =
     (if records = [] then AList.delete u current else AList.update u (entries_of_records records) current)"

definition persistUserPermissionOverrides :: "time_lib \<Rightarrow> bool \<Rightarrow> string \<Rightarrow> override_record list \<Rightarrow> access \<Rightarrow> access res" where
  "persistUserPermissionOverrides lib commit u records s =
     (case runInTransaction commit (tbind (USER_PERMISSION_OVERRIDES_DELETE_FOR_USER u) (\<lambda>_.
         tfor (USER_PERMISSION_OVERRIDE_UPSERT lib u) records)) (ac_tables s) of
       Inl e \<Rightarrow> Inl e
     | Inr (_, t) \<Rightarrow> Inr (bumpPermissionsVersion (s\<lparr>ac_tables := t, ac_overrides := replaceUserOverrides (ac_overrides s) u records\<rparr>)))"

text \<open>The re-read after a committed write to the sets; \<open>reload\<close> is whether its query is answered.\<close>

definition publishPermissionSetGrants :: "bool \<Rightarrow> access \<Rightarrow> unit res \<times> access" where
  "publishPermissionSetGrants reload s =
     (if reload then (Inr (), bumpPermissionsVersion
        (s\<lparr>ac_setGrants := rowsToUserPermissionSetGrantMap (PERMISSION_SET_USER_GRANTS (ac_tables s))\<rparr>))
      else (throw 500 ''the query failed'', bumpPermissionsVersion (s\<lparr>ac_setGrants := []\<rparr>)))"

section \<open>Boot\<close>

definition FINANCE_PERMISSION_INHERITANCE :: "(string \<times> string) list" where
  "FINANCE_PERMISSION_INHERITANCE =
    [(''gl-chart-manage'', ''gl-manage''), (''gl-subledger-manage'', ''gl-manage''), (''gl-dimension-manage'', ''gl-manage''),
     (''gl-bill-terms-manage'', ''gl-manage''), (''gl-payroll-manage'', ''gl-manage''), (''gl-payroll-post'', ''gl-post''),
     (''gl-cash-close'', ''gl-post''), (''gl-opening-post'', ''gl-post''), (''fin-depreciation-post'', ''fin-statements'')]"

definition buildPermissionSeedEntries :: "(string \<times> (string \<times> bool) list) list \<Rightarrow> matrix_rows \<Rightarrow> matrix_rows" where
  "buildPermissionSeedEntries matrix existing =
     concat (map (\<lambda>(op, roles). map (\<lambda>(role, fallback). ((op, role),
       case (case map_of FINANCE_PERMISSION_INHERITANCE op of None \<Rightarrow> None | Some legacy \<Rightarrow> map_of (rev existing) (legacy, role)) of
         None \<Rightarrow> fallback | Some inherited \<Rightarrow> inherited)) roles) matrix)"

definition seed_rows :: "matrix_rows \<Rightarrow> matrix_rows" where
  "seed_rows existing =
     foldl (\<lambda>rows (k, allowed). if map_of rows k = None then rows @ [(k, allowed)] else rows) existing
       (buildPermissionSeedEntries DEFAULT_PERMISSIONS_MATRIX existing)"

definition boot :: "time_lib \<Rightarrow> access_tables \<Rightarrow> nat \<Rightarrow> access" where
  "boot lib t u =
     (let t' = t\<lparr>tb_matrix := seed_rows (tb_matrix t)\<rparr> in
      \<lparr>ac_tables = t', ac_matrix = rowsToPermissionMatrix (tb_matrix t'),
       ac_overrides = rowsToUserPermissionOverrideMap lib (tb_overrides t'),
       ac_setGrants = rowsToUserPermissionSetGrantMap (PERMISSION_SET_USER_GRANTS t'), ac_version = 1, ac_uuid = u\<rparr>)"

end
