(* ===== verification/AccessRequests.thy ===== *)
theory AccessRequests
  imports Access
begin

text \<open>
  The requests on roles, exceptions and sets (\<open>controllers/permissions.controller.ts\<close>), the middleware that enforces the published
  answer (\<open>requirePermissionAny\<close> and its neighbours in \<open>middleware/index.ts\<close>), and the whole as a state machine. A request answers
  and leaves a state; \<open>commit\<close>, \<open>reload\<close> and \<open>reread\<close> are whether the database commits, answers the re-read of the grants, and answers
  the reads the response needs after the commit; \<open>now\<close> is the clock. Writes run one at a time: the
  interleavings of two of them are not modelled. The audit entries are written elsewhere.
\<close>

section \<open>Payloads\<close>

definition quoted :: "string \<Rightarrow> string" where
  "quoted s = CHR 0x27 # s @ [CHR 0x27]"

definition unknown_keys :: "string list \<Rightarrow> jsval \<Rightarrow> string list" where
  "unknown_keys known v = filter (\<lambda>k. k \<notin> set known) (map fst (object_entries v))"

definition trimmed :: "jsval \<Rightarrow> string" where
  "trimmed v = (case v of JStr s \<Rightarrow> trim s | _ \<Rightarrow> [])"

fun plain_object :: "jsval \<Rightarrow> bool" where
  "plain_object (JObj _) = True"
| "plain_object _ = False"

text \<open>A payload is refused with a message, which the handlers send with status 400.\<close>

fun parse_grants :: "nat \<Rightarrow> string list \<Rightarrow> jsval list \<Rightarrow> string list res" where
  "parse_grants index seen [] = Inr []"
| "parse_grants index seen (raw # rest) =
     (let op = trimmed raw; item = ''grants['' @ nat_str index @ '']'' in
      if op = [] \<or> op \<notin> set PERMISSION_OPERATIONS then throw 400 (item @ '' '' @ quoted (to_str raw) @ '' is not a known operation.'')
      else if op \<in> set seen then throw 400 (item @ '' '' @ quoted op @ '' is repeated.'')
      else rbind (parse_grants (index + 1) (op # seen) rest) (\<lambda>ops. Inr (op # ops)))"

definition parsePermissionSetPayload :: "jsval \<Rightarrow> (string \<times> string \<times> string list) res" where
  "parsePermissionSetPayload body =
     rbind (guard (plain_object body) 400 ''Body must be a JSON object with `name` and `grants`.'') (\<lambda>_.
     rbind (guard (unknown_keys [''name'', ''description'', ''grants''] body = []) 400
       (''Unknown field(s): '' @ join '', '' (unknown_keys [''name'', ''description'', ''grants''] body) @ ''.'')) (\<lambda>_.
     let name = trimmed (jget body ''name''); text = jget body ''description'' in
     rbind (guard (name \<noteq> []) 400 ''`name` is required.'') (\<lambda>_.
     rbind (guard (length name \<le> 120) 400 ''`name` must be at most 120 characters.'') (\<lambda>_.
     rbind (if text = JUndef \<or> text = JNull then Inr []
       else (case text of JStr s \<Rightarrow> if length (trim s) \<le> 500 then Inr (trim s) else throw 400 ''`description` must be at most 500 characters.''
         | _ \<Rightarrow> throw 400 ''`description` must be a string.'')) (\<lambda>description.
     case jget body ''grants'' of
       JArr xs \<Rightarrow> rbind (parse_grants 0 [] xs) (\<lambda>grants. Inr (name, description, grants))
     | _ \<Rightarrow> throw 400 ''`grants` must be an array of operation ids.'')))))"

fun parse_set_ids :: "nat \<Rightarrow> string list \<Rightarrow> jsval list \<Rightarrow> string list res" where
  "parse_set_ids index seen [] = Inr []"
| "parse_set_ids index seen (raw # rest) =
     (let i = trimmed raw; item = ''setIds['' @ nat_str index @ '']'' in
      if i = [] then throw 400 (item @ '' must be a non-empty set id.'')
      else if i \<in> set seen then throw 400 (item @ '' '' @ quoted i @ '' is repeated.'')
      else rbind (parse_set_ids (index + 1) (i # seen) rest) (\<lambda>ids. Inr (i # ids)))"

definition parseUserSetIdsPayload :: "jsval \<Rightarrow> string list res" where
  "parseUserSetIdsPayload body =
     rbind (guard (plain_object body) 400 ''Body must be a JSON object with a `setIds` array.'') (\<lambda>_.
     rbind (guard (unknown_keys [''setIds''] body = []) 400 (''Unknown field(s): '' @ join '', '' (unknown_keys [''setIds''] body) @ ''.'')) (\<lambda>_.
     case jget body ''setIds'' of JArr xs \<Rightarrow> parse_set_ids 0 [] xs | _ \<Rightarrow> throw 400 ''`setIds` must be an array.''))"

definition parse_expiry :: "time_lib \<Rightarrow> int \<Rightarrow> string \<Rightarrow> jsval \<Rightarrow> string option res" where
  "parse_expiry lib now item v =
     (if v = JUndef \<or> v = JNull then Inr None
      else case v of
        JStr s \<Rightarrow> (case tl_parse lib s of None \<Rightarrow> throw 400 (item @ ''.expiresAt is not a valid date.'')
          | Some expiry \<Rightarrow> if expiry \<le> now then throw 400 (item @ ''.expiresAt must be in the future.'') else Inr (Some (tl_iso lib expiry)))
      | _ \<Rightarrow> throw 400 (item @ ''.expiresAt must be an ISO date string or null.''))"

fun parse_overrides :: "time_lib \<Rightarrow> int \<Rightarrow> nat \<Rightarrow> string list \<Rightarrow> jsval list \<Rightarrow> override_record list res" where
  "parse_overrides lib now index seen [] = Inr []"
| "parse_overrides lib now index seen (raw # rest) =
     (let item = ''overrides['' @ nat_str index @ '']''; keys = [''operationId'', ''effect'', ''reason'', ''expiresAt''];
          op = trimmed (jget raw ''operationId''); effect = jget raw ''effect''; reason = trimmed (jget raw ''reason'') in
      if \<not> plain_object raw then throw 400 (item @ '' must be an object.'')
      else if unknown_keys keys raw \<noteq> [] then throw 400 (item @ '' has unknown field(s): '' @ join '', '' (unknown_keys keys raw) @ ''.'')
      else if op = [] \<or> op \<notin> set PERMISSION_OPERATIONS
      then throw 400 (item @ ''.operationId '' @ quoted (to_str (jget raw ''operationId'')) @ '' is not a known operation.'')
      else if op \<in> set seen then throw 400 (item @ ''.operationId '' @ quoted op @ '' is repeated.'')
      else if effect \<noteq> JStr ''grant'' \<and> effect \<noteq> JStr ''deny'' then throw 400 (item @ ''.effect must be '' @ quoted ''grant'' @ '' or '' @ quoted ''deny'' @ ''.'')
      else if reason = [] then throw 400 (item @ ''.reason is required (it is written to the audit trail).'')
      else rbind (parse_expiry lib now item (jget raw ''expiresAt'')) (\<lambda>expiresAt.
        rbind (parse_overrides lib now (index + 1) (op # seen) rest) (\<lambda>records.
        Inr (\<lparr>ov_operationId = op, ov_effect = to_str effect, ov_reason = reason, ov_expiresAt = expiresAt\<rparr> # records))))"

definition parseOverridePayload :: "time_lib \<Rightarrow> int \<Rightarrow> jsval \<Rightarrow> override_record list res" where
  "parseOverridePayload lib now body =
     rbind (guard (plain_object body) 400 ''Body must be a JSON object with an `overrides` array.'') (\<lambda>_.
     rbind (guard (unknown_keys [''overrides''] body = []) 400 (''Unknown field(s): '' @ join '', '' (unknown_keys [''overrides''] body) @ ''.'')) (\<lambda>_.
     case jget body ''overrides'' of JArr xs \<Rightarrow> parse_overrides lib now 0 [] xs | _ \<Rightarrow> throw 400 ''`overrides` must be an array.''))"

section \<open>Writes\<close>

type_synonym 'a answer = "access \<Rightarrow> 'a res \<times> access"

definition refuse :: "api_error \<Rightarrow> 'a answer" where
  "refuse e = (\<lambda>s. (Inl e, s))"

definition put_permissions :: "bool \<Rightarrow> jsval \<Rightarrow> nat answer" where
  "put_permissions commit body = (\<lambda>s.
     if body = JUndef \<or> body = JNull then refuse (ApiError 500 ''Unable to update permissions: Cannot destructure the body.'') s
     else let matrix = jget body ''matrix'' in
     if \<not> is_object matrix then refuse (ApiError 400 ''Invalid permission matrix payload.'') s
     else case persistPermissionMatrix commit matrix s of
         Inl e \<Rightarrow> refuse (ApiError 500 (''Unable to update permissions: '' @ message_of e)) s
       | Inr s' \<Rightarrow> (Inr (length (object_entries matrix)), s'))"

definition put_user_permission_overrides :: "time_lib \<Rightarrow> int \<Rightarrow> bool \<Rightarrow> bool \<Rightarrow> string \<Rightarrow> jsval \<Rightarrow> override_record list answer" where
  "put_user_permission_overrides lib now commit reread u body = (\<lambda>s.
     if u = [] then refuse (ApiError 400 ''A user id is required.'') s
     else case parseOverridePayload lib now body of
       Inl e \<Rightarrow> refuse e s
     | Inr records \<Rightarrow>
       (case PERMISSION_TARGET_USER u (ac_tables s) of
          None \<Rightarrow> refuse (ApiError 404 (''User '' @ quoted u @ '' was not found.'')) s
        | Some target \<Rightarrow>
            if at_role target = ''SUPER_ADMIN''
            then refuse (ApiError 400 ''Super Admin always has every operation; overrides do not apply to this account.'') s
            else case persistUserPermissionOverrides lib commit u records s of
                Inl e \<Rightarrow> refuse (ApiError 500 (''Unable to update user permissions: '' @ message_of e)) s
              | Inr s' \<Rightarrow> (if reread then Inr records else throw 500 ''Unable to update user permissions: the query failed'', s')))"

text \<open>The commit of a write to the sets, then the re-read: a failed one is answered 500 although the tables changed.\<close>

definition write_sets :: "bool \<Rightarrow> bool \<Rightarrow> bool \<Rightarrow> string \<Rightarrow> string \<Rightarrow> (access_tables, unit) tx \<Rightarrow> unit answer" where
  "write_sets commit reload reread conflict failure body = (\<lambda>s.
     case runInTransaction commit body (ac_tables s) of
       Inl e \<Rightarrow> refuse (if status_of e = 409 then ApiError 409 conflict else ApiError 500 (failure @ message_of e)) s
     | Inr (_, t) \<Rightarrow>
         (case publishPermissionSetGrants reload (s\<lparr>ac_tables := t\<rparr>) of
            (Inl e, s') \<Rightarrow> (Inl (ApiError 500 (failure @ message_of e)), s')
          | (Inr _, s') \<Rightarrow> (if reread then Inr () else throw 500 (failure @ ''the query failed''), s')))"

definition create_permission_set :: "bool \<Rightarrow> bool \<Rightarrow> bool \<Rightarrow> jsval \<Rightarrow> unit answer" where
  "create_permission_set commit reload reread body = (\<lambda>s.
     case parsePermissionSetPayload body of
       Inl e \<Rightarrow> refuse e s
     | Inr (name, description, grants) \<Rightarrow>
         let i = uid [] (ac_uuid s) in
         write_sets commit reload reread (''A permission set named '' @ quoted name @ '' already exists.'') ''Unable to create the permission set: ''
           (tbind (PERMISSION_SET_INSERT i name description) (\<lambda>_. tfor (PERMISSION_SET_GRANT_INSERT i) grants)) (s\<lparr>ac_uuid := Suc (ac_uuid s)\<rparr>))"

definition update_permission_set :: "bool \<Rightarrow> bool \<Rightarrow> bool \<Rightarrow> string \<Rightarrow> jsval \<Rightarrow> unit answer" where
  "update_permission_set commit reload reread i body = (\<lambda>s.
     if i = [] then refuse (ApiError 400 ''A permission set id is required.'') s
     else case parsePermissionSetPayload body of
       Inl e \<Rightarrow> refuse e s
     | Inr (name, description, grants) \<Rightarrow>
         if PERMISSION_SET_BY_ID i (ac_tables s) = None then refuse (ApiError 404 (''Permission set '' @ quoted i @ '' was not found.'')) s
         else write_sets commit reload reread (''A permission set named '' @ quoted name @ '' already exists.'') ''Unable to update the permission set: ''
           (tbind (PERMISSION_SET_UPDATE i name description) (\<lambda>_. tbind (PERMISSION_SET_GRANTS_DELETE i) (\<lambda>_.
             tfor (PERMISSION_SET_GRANT_INSERT i) grants))) s)"

definition delete_permission_set :: "bool \<Rightarrow> bool \<Rightarrow> string \<Rightarrow> unit answer" where
  "delete_permission_set commit reload i = (\<lambda>s.
     if i = [] then refuse (ApiError 400 ''A permission set id is required.'') s
     else if PERMISSION_SET_BY_ID i (ac_tables s) = None then refuse (ApiError 404 (''Permission set '' @ quoted i @ '' was not found.'')) s
     else write_sets commit reload True [] ''Unable to delete the permission set: '' (PERMISSION_SET_DELETE i) s)"

definition put_user_permission_sets :: "bool \<Rightarrow> bool \<Rightarrow> bool \<Rightarrow> string \<Rightarrow> jsval \<Rightarrow> unit answer" where
  "put_user_permission_sets commit reload reread u body = (\<lambda>s.
     if u = [] then refuse (ApiError 400 ''A user id is required.'') s
     else case parseUserSetIdsPayload body of
       Inl e \<Rightarrow> refuse e s
     | Inr setIds \<Rightarrow>
       (case PERMISSION_TARGET_USER u (ac_tables s) of
          None \<Rightarrow> refuse (ApiError 404 (''User '' @ quoted u @ '' was not found.'')) s
        | Some target \<Rightarrow>
            let missing = filter (\<lambda>i. i \<notin> pn_id ` set (tb_sets (ac_tables s))) setIds in
            if at_role target = ''SUPER_ADMIN''
            then refuse (ApiError 400 ''Super Admin always has every operation; permission sets do not apply to this account.'') s
            else if missing \<noteq> [] then refuse (ApiError 400 (''Unknown permission set(s): '' @ join '', '' missing @ ''.'')) s
            else write_sets commit reload reread ''A permission set or user changed while saving; reload and try again.''
              ''Unable to update user permission sets: ''
              (tbind (PERMISSION_SET_MEMBERS_DELETE_FOR_USER u) (\<lambda>_. tfor (PERMISSION_SET_MEMBER_INSERT u) setIds)) s))"

section \<open>Reads\<close>

definition live_matrix :: "access \<Rightarrow> jsval" where
  "live_matrix s = rowsToPermissionMatrix (tb_matrix (ac_tables s))"

definition get_permissions :: "bool \<Rightarrow> access \<Rightarrow> jsval" where
  "get_permissions answered s = (if answered then live_matrix s else ac_matrix s)"

definition user_set_grants :: "string \<Rightarrow> access \<Rightarrow> grant_map" where
  "user_set_grants u s = rowsToUserPermissionSetGrantMap (filter (\<lambda>(v, op). v = u) (PERMISSION_SET_USER_GRANTS (ac_tables s)))"

definition live_operations :: "time_lib \<Rightarrow> int \<Rightarrow> string \<times> string \<Rightarrow> access \<Rightarrow> string list" where
  "live_operations lib now subject s =
     effectiveOperations lib now subject (live_matrix s)
       (rowsToUserPermissionOverrideMap lib (USER_PERMISSION_OVERRIDES_FOR_USER (fst subject) (ac_tables s))) (user_set_grants (fst subject) s)"

definition get_my_permissions :: "time_lib \<Rightarrow> int \<Rightarrow> session_user option \<Rightarrow> access \<Rightarrow> (string \<times> string list \<times> nat) res" where
  "get_my_permissions lib now user s =
     (case user of None \<Rightarrow> throw 401 ''Unauthorized: Authentication required.''
      | Some u \<Rightarrow> if su_id u = [] then throw 401 ''Unauthorized: Authentication required.''
          else Inr (su_role u, live_operations lib now (su_id u, su_role u) s, ac_version s))"

definition basePermissionMap :: "string \<Rightarrow> jsval \<Rightarrow> (string \<times> bool) list" where
  "basePermissionMap role matrix = map (\<lambda>op. (op, roleBaseAllowed role op matrix)) PERMISSION_OPERATIONS"

definition overrideResponseRows :: "time_lib \<Rightarrow> int \<Rightarrow> override_record list \<Rightarrow> (override_record \<times> bool) list" where
  "overrideResponseRows lib now = map (\<lambda>r. (r, isOverrideExpired lib now (ov_expiresAt r)))"

definition get_user_permission_overrides ::
  "time_lib \<Rightarrow> int \<Rightarrow> string \<Rightarrow> access \<Rightarrow> (string \<times> (string \<times> bool) list \<times> (override_record \<times> bool) list \<times> string list \<times> string list \<times> nat) res" where
  "get_user_permission_overrides lib now u s =
     (if u = [] then throw 400 ''A user id is required.''
      else case PERMISSION_TARGET_USER u (ac_tables s) of
        None \<Rightarrow> throw 404 (''User '' @ quoted u @ '' was not found.'')
      | Some target \<Rightarrow> Inr (at_role target, basePermissionMap (at_role target) (live_matrix s),
          overrideResponseRows lib now (rowsToUserPermissionOverrideRecords lib (USER_PERMISSION_OVERRIDES_FOR_USER u (ac_tables s))),
          order_by str_le (map snd (filter (\<lambda>(v, i). v = u) (tb_members (ac_tables s)))), live_operations lib now (u, at_role target) s, ac_version s))"

text \<open>The drill-down of a matrix cell: live exceptions that change the role's published answer.\<close>

definition get_operation_permission_overrides ::
  "time_lib \<Rightarrow> int \<Rightarrow> jsval \<Rightarrow> access \<Rightarrow> (bool \<times> (account \<times> override_row) list) res" where
  "get_operation_permission_overrides lib now query s =
     (let op = trimmed (jget query ''operationId''); role = trimmed (jget query ''role''); allowed = roleBaseAllowed role op (ac_matrix s);
          rows = List.map_filter (\<lambda>((u, o'), r). case PERMISSION_TARGET_USER u (ac_tables s) of None \<Rightarrow> None
            | Some a \<Rightarrow> if o' = op \<and> at_role a = role \<and> (case vr_expires r of None \<Rightarrow> True | Some t \<Rightarrow> now < t) then Some (a, r) else None)
            (tb_overrides (ac_tables s)) in
      if op = [] \<or> \<not> known_operation op (ac_matrix s) then throw 400 ''`operationId` must name a known operation.''
      else if role \<notin> set APP_ROLES then throw 400 ''`role` must be a valid role.''
      else Inr (allowed, filter (\<lambda>(a, r). permissionOverrideEffect (vr_effect r) \<noteq> (if allowed then ''grant'' else ''deny''))
        (order_by (\<lambda>(a, _) (b, _). if at_name a = at_name b then str_le (at_email a) (at_email b) else str_le (at_name a) (at_name b)) rows)))"

definition get_user_access_summaries :: "time_lib \<Rightarrow> int \<Rightarrow> access \<Rightarrow> access_summary list" where
  "get_user_access_summaries lib now s =
     (let t = ac_tables s in
      summarizeUserAccess lib now
        (order_by (\<lambda>a b. if to_lower (at_name a) = to_lower (at_name b) then str_le (at_id a) (at_id b) else str_le (to_lower (at_name a)) (to_lower (at_name b)))
          (tb_users t))
        (live_matrix s) (rowsToUserPermissionOverrideMap lib (tb_overrides t)) (rowsToUserPermissionSetGrantMap (PERMISSION_SET_USER_GRANTS t))
        (\<lambda>u. length (filter (\<lambda>(v, i). v = u) (tb_members t))) (length PERMISSION_OPERATIONS))"

section \<open>Enforcement\<close>

definition requireAuth :: "session_user option \<Rightarrow> gate" where
  "requireAuth user = (case user of None \<Rightarrow> Respond 401 ''Unauthorized: Authentication required to access endpoint''
     | Some u \<Rightarrow> if su_email u = [] then Respond 401 ''Unauthorized: Authentication required to access endpoint'' else Next)"

definition requireRole :: "string list \<Rightarrow> session_user option \<Rightarrow> gate" where
  "requireRole allowedRoles user =
     (case user of None \<Rightarrow> Respond 401 ''Unauthorized: Authentication required''
      | Some u \<Rightarrow> if su_email u = [] then Respond 401 ''Unauthorized: Authentication required''
          else if allowedRoles \<noteq> [] \<and> su_role u \<notin> set allowedRoles \<and> su_role u \<noteq> ''SUPER_ADMIN''
          then Respond 403 ''Forbidden: Access restricted.'' else Next)"

record branch_flags =
  bf_id :: string
  bf_allowProcurement :: bool
  bf_allowWarehouseTransfer :: bool

definition relevant_branches :: "jsval \<Rightarrow> branch_flags list \<Rightarrow> branch_flags list" where
  "relevant_branches body branches =
     (let branchId = js_or (js_or (jget body ''branchId'') (jget body ''destinationBranchId'')) (JStr []); source = js_or (jget body ''sourceBranchId'') (JStr []) in
      List.map_filter (\<lambda>v. case v of JStr i \<Rightarrow> List.find (\<lambda>b. bf_id b = i) branches | _ \<Rightarrow> None) (filter truthy (first_occurrences [branchId, source])))"

definition procurementOps :: "string list" where
  "procurementOps = [''po-create'', ''po-receive'', ''inv-create'', ''inv-pay'']"

definition warehouseTransferOps :: "string list" where
  "warehouseTransferOps = [''wh-restrict-transfer'', ''branch-transfer-create'']"

definition branch_flag_gate :: "string list \<Rightarrow> jsval \<Rightarrow> branch_flags list \<Rightarrow> gate" where
  "branch_flag_gate ops body branches =
     (let named = relevant_branches body branches in
      if \<not> list_all bf_allowProcurement named \<and> list_ex (\<lambda>op. op \<in> set procurementOps) ops
      then Respond 403 ''Forbidden: procurement is disabled on branch.''
      else if \<not> list_all bf_allowWarehouseTransfer named \<and> list_ex (\<lambda>op. op \<in> set warehouseTransferOps) ops
      then Respond 403 ''Forbidden: warehouse transfer is restricted on branch.''
      else Next)"

definition requirePermissionAny :: "time_lib \<Rightarrow> int \<Rightarrow> string list \<Rightarrow> branch_flags list \<Rightarrow> session_user option \<Rightarrow> jsval \<Rightarrow> access \<Rightarrow> gate" where
  "requirePermissionAny lib now ops branches user body s =
     (case user of None \<Rightarrow> Respond 401 ''Unauthorized: Authentication required''
      | Some u \<Rightarrow>
        if su_email u = [] then Respond 401 ''Unauthorized: Authentication required''
        else if su_role u = ''SUPER_ADMIN'' then branch_flag_gate ops body branches
        else if \<not> list_ex (\<lambda>op. effectivePermission lib now (Some (su_id u, su_role u)) op (ac_matrix s) (ac_overrides s) (ac_setGrants s)) ops
        then Respond 403 ''Forbidden: role is not permitted for operation.''
        else branch_flag_gate ops body branches)"

definition stock_operation_permission :: "jsval \<Rightarrow> string" where
  "stock_operation_permission body =
     (case js_or (jget body ''type'') (JStr ''DAMAGE'') of
        JStr t \<Rightarrow> (case map_of [(''PULLOUT'', ''branch-pullout-dispatch''), (''STOCK_OUT'', ''stock-out''), (''DAMAGE'', ''branch-damage-mark''),
            (''DISPOSAL'', ''stock-disposal-writeoff''), (''CONSUMABLE_ISSUE'', ''stock-out''), (''MANUAL_ADJUSTMENT'', ''stock-out'')] t of
          Some op \<Rightarrow> op | None \<Rightarrow> ''branch-pullout-dispatch'')
      | _ \<Rightarrow> ''branch-pullout-dispatch'')"

definition requireStockOperationPermission :: "time_lib \<Rightarrow> int \<Rightarrow> branch_flags list \<Rightarrow> session_user option \<Rightarrow> jsval \<Rightarrow> access \<Rightarrow> gate" where
  "requireStockOperationPermission lib now branches user body s =
     requirePermissionAny lib now [stock_operation_permission body] branches user body s"

definition operational_rules :: "(string \<times> string list) list" where
  "operational_rules =
     (let admins = [''SUPER_ADMIN'', ''HEAD_OFFICE_ADMIN''] in
      [(''/admin/'', [''SUPER_ADMIN'']), (''/branches'', admins), (''/users'', admins), (''/company-profile'', admins),
       (''/document-number-configs'', admins), (''/bs-calendar/'', admins), (''/suppliers'', admins @ [''PROCUREMENT_OFFICER'']),
       (''/products'', admins @ [''INVENTORY_MANAGER'']), (''/categories'', admins @ [''INVENTORY_MANAGER'']),
       (''/product-groups'', admins @ [''INVENTORY_MANAGER'']), (''/uom'', admins @ [''INVENTORY_MANAGER'']),
       (''/locations'', admins @ [''INVENTORY_MANAGER'']), (''/stock/'', admins @ [''INVENTORY_MANAGER'', ''AUDITOR'']),
       (''/assets'', admins @ [''INVENTORY_MANAGER'', ''ACCOUNTANT'']), (''/purchase-invoices'', admins @ [''ACCOUNTANT'', ''PROCUREMENT_OFFICER'']),
       (''/vendor-payments'', admins @ [''ACCOUNTANT'', ''PROCUREMENT_OFFICER'']), (''/vendors/'', admins @ [''ACCOUNTANT'', ''PROCUREMENT_OFFICER''])])"

definition starts_with :: "string \<Rightarrow> string \<Rightarrow> bool" where
  "starts_with p s \<longleftrightarrow> take (length p) s = p"

definition enforceOperationalPermissions :: "request \<Rightarrow> gate" where
  "enforceOperationalPermissions req =
     (if rq_method req = ''GET'' \<or> starts_with ''/auth/'' (rq_path req) \<or> starts_with ''/sync/'' (rq_path req) then Next
      else case List.find (\<lambda>(p, roles). rq_path req = butlast p \<or> starts_with p (rq_path req)) operational_rules of
        None \<Rightarrow> Next
      | Some (p, roles) \<Rightarrow>
          if (case rq_user req of None \<Rightarrow> True | Some u \<Rightarrow> su_role u \<notin> set roles)
          then Respond 403 ''Forbidden: role cannot perform this operation.'' else Next)"

text \<open>\<open>yearClosed\<close> is the answer of the query for the year the header names: its flag, no row, or a failure.\<close>

definition enforceFiscalYearWriteAccess :: "(string \<Rightarrow> bool option res) \<Rightarrow> string \<Rightarrow> request \<Rightarrow> gate" where
  "enforceFiscalYearWriteAccess yearClosed fiscalYearId req =
     (if rq_method req \<notin> {''POST'', ''PUT'', ''PATCH'', ''DELETE''} then Next
      else if starts_with ''/auth/'' (rq_path req) \<or> starts_with ''/fiscal-years/'' (rq_path req) \<or> starts_with ''/sync/'' (rq_path req) then Next
      else if fiscalYearId = [] then Next
      else case yearClosed fiscalYearId of
          Inl e \<Rightarrow> Respond 503 (''Unable to verify fiscal-year access: '' @ message_of e)
        | Inr flag \<Rightarrow>
            if flag \<noteq> Some True then Next
            else if (case rq_user req of None \<Rightarrow> False | Some u \<Rightarrow> su_role u = ''SUPER_ADMIN'' \<or> su_role u = ''INVENTORY_MANAGER'') then Next
            else Respond 423 ''This fiscal year is closed. Only Super Admin or Inventory Manager can make an audited adjustment.'')"

section \<open>Accounts and sessions\<close>

text \<open>The accounts as the server caches them. \<open>hmac\<close> is the signature under the token's secret (\<open>middleware/auth.ts\<close>); \<open>ver\<close> is the
fingerprint a token carries.\<close>

record cached_user =
  cu_id :: string
  cu_password :: string
  cu_role :: string
  cu_branchId :: string
  cu_allowedBranchIds :: "string list"
  cu_canSwitchUser :: bool
  cu_status :: string

definition sessionFingerprint :: "(string \<Rightarrow> string) \<Rightarrow> cached_user \<Rightarrow> string" where
  "sessionFingerprint hmac c =
     take 22 (hmac (join ''|'' [cu_password c, cu_role c, cu_branchId c, join '','' (cu_allowedBranchIds c),
       if cu_canSwitchUser c then ''1'' else ''0'', if cu_status c = [] then ''active'' else cu_status c]))"

definition sessionStillValid :: "(string \<Rightarrow> string) \<Rightarrow> session_user \<Rightarrow> string \<Rightarrow> cached_user list \<Rightarrow> bool" where
  "sessionStillValid hmac user ver cache =
     (case List.find (\<lambda>c. cu_id c = su_id user) cache of None \<Rightarrow> True
      | Some c \<Rightarrow> if (if cu_status c = [] then ''active'' else cu_status c) \<noteq> ''active'' then False
          else if ver = [] then True else sessionFingerprint hmac c = ver)"

text \<open>The cached row goes first, then the row and what hangs on it; the published copies of the permissions are not touched.\<close>

definition delete_Id2 :: "bool \<Rightarrow> string \<Rightarrow> cached_user list \<Rightarrow> access \<Rightarrow> unit res \<times> cached_user list \<times> access" where
  "delete_Id2 answered u cache s =
     (let cache' = takeWhile (\<lambda>c. cu_id c \<noteq> u) cache @ drop 1 (dropWhile (\<lambda>c. cu_id c \<noteq> u) cache) in
      if \<not> answered then (throw 500 ''Database error: the query failed'', cache', s)
      else case USER_DELETE u (ac_tables s) of
          Inl e \<Rightarrow> (Inl e, cache', s)
        | Inr (rows, t) \<Rightarrow> (Inr (), cache', s\<lparr>ac_tables := t\<rparr>))"

section \<open>The state machine\<close>

text \<open>A step is a write request, whatever the database answers, or a restart. Its label says what it may do to one account: replace the
exceptions of \<open>u\<close>, remove \<open>u\<close>, or neither. The handlers that create and change accounts write rows of users and drop none.\<close>

datatype access_event = Written | Replaced string | Removed string | Restarted

inductive access_step :: "time_lib \<Rightarrow> access \<Rightarrow> access_event \<Rightarrow> access \<Rightarrow> bool" for lib where
  matrix: "access_step lib s Written (snd (put_permissions commit body s))"
| overrides: "access_step lib s (Replaced u) (snd (put_user_permission_overrides lib now commit reread u body s))"
| create: "access_step lib s Written (snd (create_permission_set commit reload reread body s))"
| update: "access_step lib s Written (snd (update_permission_set commit reload reread i body s))"
| delete: "access_step lib s Written (snd (delete_permission_set commit reload i s))"
| assign: "access_step lib s Written (snd (put_user_permission_sets commit reload reread u body s))"
| accounts: "at_id ` set (tb_users (ac_tables s)) \<subseteq> at_id ` set us \<Longrightarrow>
    access_step lib s Written (s\<lparr>ac_tables := (ac_tables s)\<lparr>tb_users := us\<rparr>\<rparr>)"
| remove: "access_step lib s (Removed u) (snd (snd (delete_Id2 answered u cache s)))"
| restart: "access_step lib s Restarted (boot lib (ac_tables s) (ac_uuid s))"

fun touched :: "access_event \<Rightarrow> string list" where
  "touched (Replaced u) = [u]"
| "touched (Removed u) = [u]"
| "touched Written = []"
| "touched Restarted = []"

text \<open>The accounts removed since the last restart: the copies read at the start know nothing of what went before.\<close>

fun removed_since :: "string set \<Rightarrow> access_event \<Rightarrow> string set" where
  "removed_since D (Removed u) = insert u D"
| "removed_since D Restarted = {}"
| "removed_since D Written = D"
| "removed_since D (Replaced u) = D"

inductive access_steps :: "time_lib \<Rightarrow> access \<Rightarrow> string list \<Rightarrow> access \<Rightarrow> bool" for lib where
  none: "access_steps lib s [] s"
| more: "access_steps lib s us s' \<Longrightarrow> access_step lib s' e s'' \<Longrightarrow> access_steps lib s (us @ touched e) s''"

text \<open>Tables as the requests may leave them: keys are unique, and exceptions and sets name operations of the catalogue.\<close>

definition tables_ok :: "access_tables \<Rightarrow> bool" where
  "tables_ok t \<longleftrightarrow> distinct (map fst (tb_matrix t)) \<and> distinct (map fst (tb_overrides t)) \<and>
     (\<forall>((u, op), r) \<in> set (tb_overrides t). op \<in> set PERMISSION_OPERATIONS \<and> vr_effect r \<in> {''grant'', ''deny''}) \<and>
     (\<forall>(i, op) \<in> set (tb_grants t). op \<in> set PERMISSION_OPERATIONS)"

text \<open>The states the requests reach, each with the accounts removed since the last restart.\<close>

inductive access_reach :: "time_lib \<Rightarrow> string set \<Rightarrow> access \<Rightarrow> bool" for lib where
  start: "tables_ok t \<Longrightarrow> access_reach lib {} (boot lib t u)"
| step: "access_reach lib D s \<Longrightarrow> access_step lib s e s' \<Longrightarrow> access_reach lib (removed_since D e) s'"

end
