(* ===== verification/AccessFacts.thy ===== *)
theory AccessFacts
  imports AccessRequests
begin

text \<open>
  What the published copies of the permissions are: lookups in the maps folded from rows, the effect of each write on the tables, and
  the invariant that ties the copies to the tables in every reachable state.
\<close>

section \<open>Folded maps\<close>

lemma map_of_foldl_update:
  "map_of (foldl (\<lambda>m x. AList.update (k x) (v x) m) m0 xs) = map_of m0 ++ map_of (rev (map (\<lambda>x. (k x, v x)) xs))"
proof (induction xs arbitrary: m0)
  case (Cons x xs)
  show ?case by (rule ext) (simp add: Cons.IH update_conv' map_add_def split: option.splits)
qed simp

lemma map_of_rev: "distinct (map fst xs) \<Longrightarrow> map_of (rev xs) = map_of xs"
  by (rule map_of_eqI) (auto simp: rev_map [symmetric] simp del: map_of_eq_Some_iff intro!: map_of_is_SomeI dest: map_of_SomeD)

lemma map_of_filter_pairs: "map_of (filter (\<lambda>(k, v). P k) xs) k = (if P k then map_of xs k else None)"
  by (induction xs) auto

lemma map_of_iff: "distinct (map fst xs) \<Longrightarrow> map_of xs k = Some v \<longleftrightarrow> (k, v) \<in> set xs"
  by (rule map_of_eq_Some_iff)

section \<open>Objects\<close>

lemma object_keys: "distinct (map fst (object_entries v))"
proof (cases v)
  case (JArr xs)
  have "distinct (map nat_str [0..<length xs])" by (auto simp: distinct_map inj_on_def)
  then show ?thesis using JArr by simp
qed (simp_all add: o_def)

lemma own_obj [simp]: "own (JObj fs) k = jget (JObj fs) k"
proof -
  have "map_of (map (\<lambda>k. (k, jget (JObj fs) k)) ks) k = (if k \<in> set ks then Some (jget (JObj fs) k) else None)" for ks
    by (induction ks) auto
  moreover have "map_of fs k = None" if "k \<notin> fst ` set fs" using that by (simp add: map_of_eq_None_iff)
  ultimately show ?thesis by (simp add: own_def split: option.splits)
qed

lemma own_simple [simp]: "\<not> is_object v \<Longrightarrow> own v k = JUndef" "own JUndef k = JUndef"
  by (cases v; simp add: own_def) (simp add: own_def)

lemma entry_own: "(k, x) \<in> set (object_entries v) \<Longrightarrow> own v k = x"
  by (simp add: own_def map_of_is_SomeI [OF object_keys])

lemma own_truthy: "truthy (own v k) \<Longrightarrow> (k, own v k) \<in> set (object_entries v)"
  by (auto simp: own_def map_of_SomeD split: option.splits)

lemma matrix_entries: "(op, role, True) \<in> set (permissionMatrixEntries m) \<longleftrightarrow> truthy (own (own m op) role)"
proof
  assume "(op, role, True) \<in> set (permissionMatrixEntries m)"
  then obtain roles v where "(op, roles) \<in> set (object_entries m)" "(role, v) \<in> set (object_entries roles)" "truthy v"
    by (auto simp: permissionMatrixEntries_def split: if_splits)
  then show "truthy (own (own m op) role)" using entry_own by force
next
  assume t: "truthy (own (own m op) role)"
  then have o: "is_object (own m op)" by (cases "is_object (own m op)") auto
  then have "truthy (own m op)" by (cases "own m op") auto
  from own_truthy [OF this] own_truthy [OF t] o t show "(op, role, True) \<in> set (permissionMatrixEntries m)"
    unfolding permissionMatrixEntries_def by force
qed

lemma matrix_entry_keys: "(op, role, a) \<in> set (permissionMatrixEntries m) \<Longrightarrow> (op, role, b) \<in> set (permissionMatrixEntries m) \<Longrightarrow> a = b"
  by (auto simp: permissionMatrixEntries_def split: if_splits dest!: entry_own)

section \<open>The maps folded from the tables\<close>

lemma user_entry_update:
  "user_entry (AList.update u (AList.update op e (case map_of m u of None \<Rightarrow> [] | Some ops \<Rightarrow> ops)) m) v q =
     (if v = u \<and> q = op then Some e else user_entry m v q)"
  by (auto simp: user_entry_def update_conv' split: option.splits)

lemma override_map_lookup: "distinct (map fst rows) \<Longrightarrow>
    user_entry (rowsToUserPermissionOverrideMap lib rows) u op = map_option (override_entry_of lib) (map_of rows (u, op))"
proof -
  have "user_entry (foldl (\<lambda>m ((u, op), r). AList.update u (AList.update op (override_entry_of lib r) (case map_of m u of None \<Rightarrow> [] | Some ops \<Rightarrow> ops)) m) m rows) u op =
      (case map_of (rev rows) (u, op) of None \<Rightarrow> user_entry m u op | Some r \<Rightarrow> Some (override_entry_of lib r))" for m
  proof (induction rows arbitrary: m)
    case (Cons x rows)
    obtain u' op' r where x: "x = ((u', op'), r)" by (metis surj_pair)
    show ?case unfolding x foldl_Cons Cons.IH by (auto simp: user_entry_update map_add_def split: option.splits)
  qed simp
  moreover assume "distinct (map fst rows)"
  ultimately show ?thesis
    by (simp add: rowsToUserPermissionOverrideMap_def map_of_rev) (simp add: user_entry_def split: option.splits)
qed

lemma grant_map_lookup: "set (user_grants (rowsToUserPermissionSetGrantMap rows) u) = {op. (u, op) \<in> set rows}"
proof -
  have "set (user_grants (foldl (\<lambda>m (u, op). let ops = (case map_of m u of None \<Rightarrow> [] | Some ops \<Rightarrow> ops) in
       AList.update u (if op \<in> set ops then ops else ops @ [op]) m) m rows) u) = set (user_grants m u) \<union> {op. (u, op) \<in> set rows}" for m
  proof (induction rows arbitrary: m)
    case (Cons x rows)
    show ?case unfolding foldl_Cons Cons.IH by (cases x) (auto simp: user_grants_def update_conv' Let_def split: option.splits)
  qed simp
  then show ?thesis by (simp add: rowsToUserPermissionSetGrantMap_def) (simp add: user_grants_def)
qed

lemma matrix_map: "distinct (map fst rows) \<Longrightarrow> own (own (rowsToPermissionMatrix rows) op) role =
    (case map_of rows (op, role) of None \<Rightarrow> JUndef | Some a \<Rightarrow> JBool a)"
proof -
  let ?f = "\<lambda>m ((op, role), allowed). AList.update op (JObj (AList.update role (JBool allowed) (case map_of m op of Some (JObj fs) \<Rightarrow> fs | _ \<Rightarrow> []))) m"
  have "own (own (JObj (foldl ?f m rows)) op) role = (case map_of (rev rows) (op, role) of None \<Rightarrow> own (own (JObj m) op) role | Some a \<Rightarrow> JBool a)"
    if "\<forall>v \<in> ran (map_of m). plain_object v" for m
    using that
  proof (induction rows arbitrary: m)
    case (Cons x rows)
    obtain o' r' a where x: "x = ((o', r'), a)" by (metis surj_pair)
    have o: "\<exists>fs. v = JObj fs" if "map_of m o' = Some v" for v using Cons.prems that by (cases v) (auto simp: ran_def)
    have "\<forall>v \<in> ran (map_of (?f m x)). plain_object v" using Cons.prems by (auto simp: x update_conv' ran_def split: if_splits)
    from Cons.IH [OF this] o show ?case
      by (auto simp: x update_conv' map_add_def split: option.splits jsval.splits)
  qed simp
  from this [of "[]"] show "distinct (map fst rows) \<Longrightarrow> ?thesis"
    by (simp add: rowsToPermissionMatrix_def map_of_rev del: own_obj) (simp split: option.splits)
qed

section \<open>Writes\<close>

lemma distinct_foldl_update: "distinct (map fst m) \<Longrightarrow> distinct (map fst (foldl (\<lambda>m x. AList.update (k x) (v x) m) m xs))"
  by (induction xs arbitrary: m) (auto simp: distinct_update)

lemma matrix_upserts:
  "tfor (\<lambda>(op, role, allowed). PERMISSION_MATRIX_UPSERT op role allowed) es t = Inr (u, t') \<Longrightarrow>
    t' = t\<lparr>tb_matrix := foldl (\<lambda>m x. AList.update (fst x, fst (snd x)) (snd (snd x)) m) (tb_matrix t) es\<rparr>"
proof (induction es arbitrary: t)
  case (Cons e es)
  from Cons.prems obtain t1 where "PERMISSION_MATRIX_UPSERT (fst e) (fst (snd e)) (snd (snd e)) t = Inr ((), t1)"
    and rest: "tfor (\<lambda>(op, role, allowed). PERMISSION_MATRIX_UPSERT op role allowed) es t1 = Inr (u, t')" by (auto split: prod.splits)
  then have "t1 = t\<lparr>tb_matrix := AList.update (fst e, fst (snd e)) (snd (snd e)) (tb_matrix t)\<rparr>"
    by (auto simp: PERMISSION_MATRIX_UPSERT_def split: if_splits)
  with Cons.IH [OF rest] show ?case by simp
qed simp

lemma persisted_matrix:
  assumes "persistPermissionMatrix commit m s = Inr s'"
  obtains rows where "s' = s\<lparr>ac_tables := (ac_tables s)\<lparr>tb_matrix := rows\<rparr>, ac_matrix := m\<rparr>" "distinct (map fst rows)"
    "\<And>op role. map_of rows (op, role) = Some True \<longleftrightarrow> truthy (own (own m op) role)"
proof -
  let ?es = "permissionMatrixEntries m"
  let ?rows = "foldl (\<lambda>m x. AList.update (fst x, fst (snd x)) (snd (snd x)) m) [] ?es"
  have s': "s' = s\<lparr>ac_tables := (ac_tables s)\<lparr>tb_matrix := ?rows\<rparr>, ac_matrix := m\<rparr>"
    using assms by (auto simp: persistPermissionMatrix_def runInTransaction_def PERMISSION_MATRIX_DELETE_ALL_def split: sum.splits if_splits dest!: matrix_upserts)
  have "map_of ?rows (op, role) = Some True \<longleftrightarrow> (op, role, True) \<in> set ?es" for op role
  proof -
    let ?kv = "rev (map (\<lambda>x. ((fst x, fst (snd x)), snd (snd x))) ?es)"
    have rows: "map_of ?rows = map_of ?kv" by (simp add: map_of_foldl_update)
    have one: "map_of ?kv (op, role) = Some True" if e: "(op, role, True) \<in> set ?es"
    proof (cases "map_of ?kv (op, role)")
      case None
      with e show ?thesis by (force simp: map_of_eq_None_iff)
    next
      case (Some a)
      then have "(op, role, a) \<in> set ?es" by (auto dest!: map_of_SomeD)
      from matrix_entry_keys [OF this e] Some show ?thesis by simp
    qed
    have "(op, role, True) \<in> set ?es" if "map_of ?kv (op, role) = Some True"
      using map_of_SomeD [OF that] by auto
    with one show ?thesis unfolding rows by blast
  qed
  moreover have "distinct (map fst ?rows)" by (rule distinct_foldl_update) simp
  ultimately show ?thesis using that [OF s'] matrix_entries by simp
qed

definition time_lib_ok :: "time_lib \<Rightarrow> bool" where
  "time_lib_ok lib \<longleftrightarrow> (\<forall>n. tl_iso lib n \<noteq> [] \<and> tl_parse lib (tl_iso lib n) = Some n \<and> (\<forall>m. tl_stored lib (tl_iso lib n) = Some m \<longrightarrow> m = n))"

definition record_ok :: "time_lib \<Rightarrow> override_record \<Rightarrow> bool" where
  "record_ok lib r \<longleftrightarrow> ov_operationId r \<in> set PERMISSION_OPERATIONS \<and> ov_effect r \<in> {''grant'', ''deny''} \<and>
     (case ov_expiresAt r of None \<Rightarrow> True | Some s \<Rightarrow> s \<in> range (tl_iso lib))"

lemma parsed_expiry: "parse_expiry lib now item v = Inr e \<Longrightarrow> (case e of None \<Rightarrow> True | Some s \<Rightarrow> s \<in> range (tl_iso lib))"
  by (auto simp: parse_expiry_def split: if_splits jsval.splits option.splits)

lemma parsed_records: "parse_overrides lib now index seen xs = Inr records \<Longrightarrow>
    list_all (record_ok lib) records \<and> distinct (map ov_operationId records) \<and> set seen \<inter> ov_operationId ` set records = {}"
proof (induction xs arbitrary: index seen records)
  case (Cons raw xs)
  from Cons.prems obtain op e rs where r: "parse_expiry lib now (''overrides['' @ nat_str index @ '']'') (jget raw ''expiresAt'') = Inr e"
      "parse_overrides lib now (index + 1) (op # seen) xs = Inr rs" "op \<in> set PERMISSION_OPERATIONS" "op \<notin> set seen"
      "jget raw ''effect'' = JStr ''grant'' \<or> jget raw ''effect'' = JStr ''deny''"
      "records = \<lparr>ov_operationId = op, ov_effect = to_str (jget raw ''effect''), ov_reason = trimmed (jget raw ''reason''), ov_expiresAt = e\<rparr> # rs"
    by (auto simp: Let_def rbind_eq_Inr split: if_splits)
  from parsed_expiry [OF r(1)] Cons.IH [OF r(2)] r(3-6) show ?case by (auto simp: record_ok_def)
qed simp

lemma parsed_payload: "parseOverridePayload lib now body = Inr records \<Longrightarrow> list_all (record_ok lib) records \<and> distinct (map ov_operationId records)"
  by (auto simp: parseOverridePayload_def rbind_eq_Inr split: jsval.splits dest!: parsed_records)

definition override_row_of :: "time_lib \<Rightarrow> override_record \<Rightarrow> override_row" where
  "override_row_of lib r = \<lparr>vr_effect = ov_effect r, vr_reason = ov_reason r, vr_expires = Option.bind (ov_expiresAt r) (tl_stored lib)\<rparr>"

lemma override_upserts:
  "tfor (USER_PERMISSION_OVERRIDE_UPSERT lib u) rs t = Inr (x, t') \<Longrightarrow>
    t' = t\<lparr>tb_overrides := foldl (\<lambda>m r. AList.update (u, ov_operationId r) (override_row_of lib r) m) (tb_overrides t) rs\<rparr> \<and>
    list_all (\<lambda>r. \<forall>s. ov_expiresAt r = Some s \<longrightarrow> tl_stored lib s \<noteq> None) rs"
proof (induction rs arbitrary: t)
  case (Cons r rs)
  from Cons.prems obtain t1 where first: "USER_PERMISSION_OVERRIDE_UPSERT lib u r t = Inr ((), t1)"
    and rest: "tfor (USER_PERMISSION_OVERRIDE_UPSERT lib u) rs t1 = Inr (x, t')" by auto
  from first have "t1 = t\<lparr>tb_overrides := AList.update (u, ov_operationId r) (override_row_of lib r) (tb_overrides t)\<rparr> \<and>
      (\<forall>s. ov_expiresAt r = Some s \<longrightarrow> tl_stored lib s \<noteq> None)"
    unfolding USER_PERMISSION_OVERRIDE_UPSERT_def override_row_of_def by (cases "ov_expiresAt r") (auto split: if_splits option.splits)
  with Cons.IH [OF rest] show ?case by simp
qed simp

lemma row_entry:
  assumes "time_lib_ok lib" and "record_ok lib r" and "\<And>s. ov_expiresAt r = Some s \<Longrightarrow> tl_stored lib s \<noteq> None"
  shows "override_entry_of lib (override_row_of lib r) = \<lparr>oe_effect = ov_effect r, oe_expiresAt = ov_expiresAt r\<rparr>"
  using assms by (cases "ov_expiresAt r") (auto simp: time_lib_ok_def record_ok_def override_entry_of_def override_row_of_def permissionOverrideEffect_def toIsoTimestamp_def)

lemma persisted_overrides:
  assumes run: "persistUserPermissionOverrides lib commit u records s = Inr s'" and ok: "list_all (record_ok lib) records" "time_lib_ok lib"
    and d: "distinct (map fst (tb_overrides (ac_tables s)))"
  obtains rows where "s' = bumpPermissionsVersion (s\<lparr>ac_tables := (ac_tables s)\<lparr>tb_overrides := rows\<rparr>,
      ac_overrides := replaceUserOverrides (ac_overrides s) u records\<rparr>)" "distinct (map fst rows)"
    "\<And>v op. v \<noteq> u \<Longrightarrow> map_of rows (v, op) = map_of (tb_overrides (ac_tables s)) (v, op)"
    "\<And>op. map_option (override_entry_of lib) (map_of rows (u, op)) = map_of (entries_of_records records) op"
    "\<And>op r. map_of rows (u, op) = Some r \<Longrightarrow> op \<in> set PERMISSION_OPERATIONS \<and> vr_effect r \<in> {''grant'', ''deny''}"
proof -
  let ?kept = "filter (\<lambda>((v, op), r). v \<noteq> u) (tb_overrides (ac_tables s))"
  let ?rows = "foldl (\<lambda>m r. AList.update (u, ov_operationId r) (override_row_of lib r) m) ?kept records"
  have s': "s' = bumpPermissionsVersion (s\<lparr>ac_tables := (ac_tables s)\<lparr>tb_overrides := ?rows\<rparr>,
      ac_overrides := replaceUserOverrides (ac_overrides s) u records\<rparr>)"
    and stored: "list_all (\<lambda>r. \<forall>s. ov_expiresAt r = Some s \<longrightarrow> tl_stored lib s \<noteq> None) records"
    using run by (auto simp: persistUserPermissionOverrides_def runInTransaction_def USER_PERMISSION_OVERRIDES_DELETE_FOR_USER_def
        split: sum.splits if_splits dest!: override_upserts)
  have kept: "map_of ?kept (v, op) = (if v = u then None else map_of (tb_overrides (ac_tables s)) (v, op))" for v op
    using map_of_filter_pairs [of "\<lambda>k. fst k \<noteq> u" "tb_overrides (ac_tables s)" "(v, op)"] by (simp add: case_prod_unfold)
  let ?kv = "rev (map (\<lambda>r. ((u, ov_operationId r), override_row_of lib r)) records)" and ?ev = "rev (map (\<lambda>r. (ov_operationId r, \<lparr>oe_effect = ov_effect r, oe_expiresAt = ov_expiresAt r\<rparr>)) records)"
  have rows: "map_of ?rows (v, op) = (case map_of ?kv (v, op) of None \<Rightarrow> if v = u then None else map_of (tb_overrides (ac_tables s)) (v, op) | Some r \<Rightarrow> Some r)" for v op
    by (simp add: map_of_foldl_update map_add_def kept split: option.splits)
  have pairs: "map_option (override_entry_of lib) (map_of (map (\<lambda>r. ((u, ov_operationId r), override_row_of lib r)) rs) (u, op)) =
      map_of (map (\<lambda>r. (ov_operationId r, \<lparr>oe_effect = ov_effect r, oe_expiresAt = ov_expiresAt r\<rparr>)) rs) op"
    if "set rs \<subseteq> set records" for rs op
    using that stored ok row_entry [OF ok(2)] by (induction rs) (auto simp: list_all_iff)
  show ?thesis
  proof (rule that [OF s'])
    show "distinct (map fst ?rows)" using d by (intro distinct_foldl_update) (simp add: distinct_map_filter)
    show "map_of ?rows (v, op) = map_of (tb_overrides (ac_tables s)) (v, op)" if "v \<noteq> u" for v op
    proof -
      have "map_of ?kv (v, op) = None" using that by (auto simp: map_of_eq_None_iff)
      with that show ?thesis unfolding rows by simp
    qed
    show "map_option (override_entry_of lib) (map_of ?rows (u, op)) = map_of (entries_of_records records) op" for op
      using pairs [of "rev records" op] unfolding rows by (auto simp: entries_of_records_def map_of_foldl_update rev_map split: option.splits)
    show "op \<in> set PERMISSION_OPERATIONS \<and> vr_effect r \<in> {''grant'', ''deny''}" if "map_of ?rows (u, op) = Some r" for op r
    proof -
      from that have "map_of ?kv (u, op) = Some r" unfolding rows by (simp split: option.splits)
      then obtain x where "x \<in> set records" "r = override_row_of lib x" "op = ov_operationId x" by (auto dest!: map_of_SomeD)
      moreover from this ok(1) have "record_ok lib x" by (simp add: list_all_iff)
      ultimately show ?thesis by (simp add: record_ok_def override_row_of_def)
    qed
  qed
qed

section \<open>The sets\<close>

text \<open>A write to the sets leaves the matrix and the exceptions alone and stores grants of the catalogue only.\<close>

definition sets_write :: "access_tables \<Rightarrow> access_tables \<Rightarrow> bool" where
  "sets_write t t' \<longleftrightarrow> tb_matrix t' = tb_matrix t \<and> tb_overrides t' = tb_overrides t \<and> tb_users t' = tb_users t \<and>
     (\<forall>g \<in> set (tb_grants t'). g \<in> set (tb_grants t) \<or> snd g \<in> set PERMISSION_OPERATIONS)"

lemma sets_write_refl [simp]: "sets_write t t"
  by (simp add: sets_write_def)

lemma sets_write_trans: "sets_write t t1 \<Longrightarrow> sets_write t1 t2 \<Longrightarrow> sets_write t t2"
  by (auto simp: sets_write_def)

lemma set_statements:
  "PERMISSION_SET_INSERT i name description t = Inr (x, t') \<Longrightarrow> sets_write t t'"
  "PERMISSION_SET_UPDATE i name description t = Inr (x, t') \<Longrightarrow> sets_write t t'"
  "PERMISSION_SET_DELETE i t = Inr (x, t') \<Longrightarrow> sets_write t t'"
  "PERMISSION_SET_GRANTS_DELETE i t = Inr (x, t') \<Longrightarrow> sets_write t t'"
  "op \<in> set PERMISSION_OPERATIONS \<Longrightarrow> PERMISSION_SET_GRANT_INSERT i op t = Inr (x, t') \<Longrightarrow> sets_write t t'"
  "PERMISSION_SET_MEMBERS_DELETE_FOR_USER u t = Inr (x, t') \<Longrightarrow> sets_write t t'"
  "PERMISSION_SET_MEMBER_INSERT u i t = Inr (x, t') \<Longrightarrow> sets_write t t'"
  unfolding PERMISSION_SET_INSERT_def PERMISSION_SET_UPDATE_def PERMISSION_SET_DELETE_def PERMISSION_SET_GRANTS_DELETE_def
    PERMISSION_SET_GRANT_INSERT_def PERMISSION_SET_MEMBERS_DELETE_FOR_USER_def PERMISSION_SET_MEMBER_INSERT_def
  by (auto simp: sets_write_def split: if_splits)

lemma set_loops:
  "set ops \<subseteq> set PERMISSION_OPERATIONS \<Longrightarrow> tfor (PERMISSION_SET_GRANT_INSERT i) ops t = Inr (x, t') \<Longrightarrow> sets_write t t'"
  "tfor (PERMISSION_SET_MEMBER_INSERT u) ids t = Inr (x, t') \<Longrightarrow> sets_write t t'"
  using tfor_invariant [of "PERMISSION_SET_GRANT_INSERT i" ops t x t' "sets_write t"]
    tfor_invariant [of "PERMISSION_SET_MEMBER_INSERT u" ids t x t' "sets_write t"] set_statements(5,7) sets_write_trans
  by (metis (no_types, lifting) sets_write_refl subset_eq)+

lemma parsed_grants: "parse_grants index seen xs = Inr ops \<Longrightarrow> set ops \<subseteq> set PERMISSION_OPERATIONS"
proof (induction xs arbitrary: index seen ops)
  case (Cons raw xs)
  then show ?case by (fastforce simp: Let_def rbind_eq_Inr split: if_splits)
qed simp

lemma parsed_set: "parsePermissionSetPayload body = Inr (name, description, ops) \<Longrightarrow> set ops \<subseteq> set PERMISSION_OPERATIONS"
  by (cases "jget body ''grants''") (auto simp: parsePermissionSetPayload_def rbind_eq_Inr Let_def dest!: parsed_grants)

section \<open>The invariant\<close>

abbreviation joined_grants :: "access_tables \<Rightarrow> string \<Rightarrow> string set" where
  "joined_grants t u \<equiv> {op. (u, op) \<in> set (PERMISSION_SET_USER_GRANTS t)}"

text \<open>The copies against the tables: the matrix agrees everywhere, the exceptions outside \<open>D\<close>, and the sets' grants outside \<open>E\<close>, unless
that copy was dropped.\<close>

definition published :: "time_lib \<Rightarrow> string set \<Rightarrow> string set \<Rightarrow> access \<Rightarrow> bool" where
  "published lib D E s \<longleftrightarrow> tables_ok (ac_tables s) \<and>
     (\<forall>op role. truthy (own (own (ac_matrix s) op) role) \<longleftrightarrow> map_of (tb_matrix (ac_tables s)) (op, role) = Some True) \<and>
     (\<forall>u op. u \<notin> D \<longrightarrow> user_entry (ac_overrides s) u op = map_option (override_entry_of lib) (map_of (tb_overrides (ac_tables s)) (u, op))) \<and>
     ((\<forall>u. u \<notin> E \<longrightarrow> set (user_grants (ac_setGrants s) u) = joined_grants (ac_tables s) u) \<or> (\<forall>u. user_grants (ac_setGrants s) u = []))"

lemma seeded: "distinct (map fst rows) \<Longrightarrow> distinct (map fst (seed_rows rows))"
proof -
  have "distinct (map fst m) \<Longrightarrow> distinct (map fst (foldl (\<lambda>rows (k, allowed). if map_of rows k = None then rows @ [(k, allowed)] else rows) m xs))" for m :: matrix_rows and xs
    by (induction xs arbitrary: m) (auto simp: map_of_eq_None_iff)
  then show "distinct (map fst rows) \<Longrightarrow> ?thesis" by (simp add: seed_rows_def)
qed

lemma boot_published: "tables_ok t \<Longrightarrow> published lib D E (boot lib t u)"
proof -
  assume ok: "tables_ok t"
  then have d: "distinct (map fst (seed_rows (tb_matrix t)))" "distinct (map fst (tb_overrides t))" by (simp_all add: tables_ok_def seeded)
  have join: "PERMISSION_SET_USER_GRANTS (t\<lparr>tb_matrix := rows\<rparr>) = PERMISSION_SET_USER_GRANTS t" for rows
    by (simp add: PERMISSION_SET_USER_GRANTS_def)
  have "tables_ok (t\<lparr>tb_matrix := seed_rows (tb_matrix t)\<rparr>)" using ok d by (simp add: tables_ok_def)
  moreover have "truthy (case x of None \<Rightarrow> JUndef | Some a \<Rightarrow> JBool a) \<longleftrightarrow> x = Some True" for x by (cases x) auto
  ultimately show ?thesis unfolding published_def boot_def Let_def
    by (intro conjI allI) (simp_all add: matrix_map d override_map_lookup grant_map_lookup join)
qed

lemma written_sets:
  assumes run: "write_sets commit reload reread conflict failure body s = (x, s')" and p: "published lib D E s"
    and body: "\<And>y t. body (ac_tables s) = Inr (y, t) \<Longrightarrow> sets_write (ac_tables s) t"
  shows "published lib D E s' \<and> tb_overrides (ac_tables s') = tb_overrides (ac_tables s)"
proof (cases "runInTransaction commit body (ac_tables s)")
  case (Inl e)
  with run p show ?thesis by (auto simp: write_sets_def refuse_def)
next
  case (Inr r)
  obtain y t where r: "r = (y, t)" by (cases r)
  with Inr have "body (ac_tables s) = Inr (y, t)" by (auto simp: runInTransaction_def split: sum.splits if_splits)
  from body [OF this] have t: "sets_write (ac_tables s) t" .
  then have ok: "tables_ok t" using p by (auto simp: published_def tables_ok_def sets_write_def)
  from run Inr r have "s' = snd (publishPermissionSetGrants reload (s\<lparr>ac_tables := t\<rparr>))" by (auto simp: write_sets_def split: prod.splits sum.splits if_splits)
  with p ok t show ?thesis
    by (auto simp: published_def publishPermissionSetGrants_def bumpPermissionsVersion_def sets_write_def grant_map_lookup) (simp_all add: user_grants_def)
qed

end
