(* ===== verification/AccessClaims.thy ===== *)
theory AccessClaims
  imports AccessFacts
begin

text \<open>
  What the permissions promise: the answer enforced is the answer of the committed tables, a deny stays in force until it is
  replaced, and a write that is refused or fails changes neither the tables nor the published copies.
\<close>

section \<open>Every step keeps the copies\<close>

lemma published_mono: "published lib D E s \<Longrightarrow> D \<subseteq> D' \<Longrightarrow> E \<subseteq> E' \<Longrightarrow> published lib D' E' s"
  by (auto simp: published_def subset_iff)

lemma unfold_answer: "(case x of Inl e \<Rightarrow> refuse e s | Inr y \<Rightarrow> f y) = (case x of Inl e \<Rightarrow> (Inl e, s) | Inr y \<Rightarrow> f y)"
  by (simp add: refuse_def split: sum.splits)

lemma put_permissions_published:
  assumes "published lib D E s"
  shows "published lib D E (snd (put_permissions commit body s)) \<and> tb_overrides (ac_tables (snd (put_permissions commit body s))) = tb_overrides (ac_tables s)"
proof (cases "body = JUndef \<or> body = JNull \<or> \<not> is_object (jget body ''matrix'') \<or> isl (persistPermissionMatrix commit (jget body ''matrix'') s)")
  case True
  with assms show ?thesis by (auto simp: put_permissions_def refuse_def Let_def split: sum.splits)
next
  case False
  then obtain s' where run: "persistPermissionMatrix commit (jget body ''matrix'') s = Inr s'"
    by (cases "persistPermissionMatrix commit (jget body ''matrix'') s") auto
  with False have "snd (put_permissions commit body s) = s'" by (auto simp: put_permissions_def Let_def)
  moreover from run obtain rows where "s' = s\<lparr>ac_tables := (ac_tables s)\<lparr>tb_matrix := rows\<rparr>, ac_matrix := jget body ''matrix''\<rparr>" "distinct (map fst rows)"
    "\<And>op role. map_of rows (op, role) = Some True \<longleftrightarrow> truthy (own (own (jget body ''matrix'') op) role)" by (rule persisted_matrix) blast
  ultimately show ?thesis using assms by (auto simp: published_def tables_ok_def PERMISSION_SET_USER_GRANTS_def)
qed

lemma replaced_entry:
  "user_entry (replaceUserOverrides m u records) v op = (if v = u then map_of (entries_of_records records) op else user_entry m v op)"
  by (auto simp: replaceUserOverrides_def user_entry_def update_conv' delete_conv' entries_of_records_def)

lemma put_overrides_cases:
  assumes "put_user_permission_overrides lib now commit reread u body s = (x, s')"
  shows "s' = s \<and> isl x \<or> (\<exists>records. parseOverridePayload lib now body = Inr records \<and>
    persistUserPermissionOverrides lib commit u records s = Inr s' \<and> (isl x \<or> x = Inr records))"
proof (cases "parseOverridePayload lib now body")
  case (Inl e)
  from assms show ?thesis unfolding put_user_permission_overrides_def refuse_def Inl by (auto split: if_splits)
next
  case (Inr records)
  with assms show ?thesis by (auto simp: put_user_permission_overrides_def refuse_def throw_def split: if_splits sum.splits option.splits)
qed

lemma put_overrides_published:
  assumes lib: "time_lib_ok lib" and p: "published lib D E s"
    and run: "put_user_permission_overrides lib now commit reread u body s = (x, s')"
  shows "published lib D E s' \<and> (\<forall>v op. v \<noteq> u \<longrightarrow> map_of (tb_overrides (ac_tables s')) (v, op) = map_of (tb_overrides (ac_tables s)) (v, op)) \<and>
    (\<forall>records. x = Inr records \<longrightarrow> list_all (record_ok lib) records \<and> distinct (map ov_operationId records) \<and>
      published lib (D - {u}) E s' \<and>
      (\<forall>op. map_option (override_entry_of lib) (map_of (tb_overrides (ac_tables s')) (u, op)) = map_of (entries_of_records records) op))"
  using put_overrides_cases [OF run]
proof
  assume "s' = s \<and> isl x"
  with p show ?thesis by auto
next
  assume "\<exists>records. parseOverridePayload lib now body = Inr records \<and> persistUserPermissionOverrides lib commit u records s = Inr s' \<and> (isl x \<or> x = Inr records)"
  then obtain records where parsed: "parseOverridePayload lib now body = Inr records" and store: "persistUserPermissionOverrides lib commit u records s = Inr s'"
    and x: "isl x \<or> x = Inr records" by blast
  note records = parsed_payload [OF parsed]
  have d: "distinct (map fst (tb_overrides (ac_tables s)))" using p by (simp add: published_def tables_ok_def)
  from store conjunct1 [OF records] lib d obtain rows where s': "s' = bumpPermissionsVersion (s\<lparr>ac_tables := (ac_tables s)\<lparr>tb_overrides := rows\<rparr>,
      ac_overrides := replaceUserOverrides (ac_overrides s) u records\<rparr>)" and dr: "distinct (map fst rows)"
    and others: "\<And>v op. v \<noteq> u \<Longrightarrow> map_of rows (v, op) = map_of (tb_overrides (ac_tables s)) (v, op)"
    and own: "\<And>op. map_option (override_entry_of lib) (map_of rows (u, op)) = map_of (entries_of_records records) op"
    and fine: "\<And>op r. map_of rows (u, op) = Some r \<Longrightarrow> op \<in> set PERMISSION_OPERATIONS \<and> vr_effect r \<in> {''grant'', ''deny''}"
    by (rule persisted_overrides) blast+
  have "op \<in> set PERMISSION_OPERATIONS \<and> vr_effect r \<in> {''grant'', ''deny''}" if "((v, op), r) \<in> set rows" for v op r
  proof (cases "v = u")
    case True
    with fine map_of_is_SomeI [OF dr that] show ?thesis by blast
  next
    case False
    from others [OF False] map_of_is_SomeI [OF dr that] have "((v, op), r) \<in> set (tb_overrides (ac_tables s))" by (auto dest!: map_of_SomeD)
    with p show ?thesis by (fastforce simp: published_def tables_ok_def)
  qed
  then have "tables_ok ((ac_tables s)\<lparr>tb_overrides := rows\<rparr>)" using p dr by (auto simp: published_def tables_ok_def)
  moreover have "user_entry (ac_overrides s') v op = map_option (override_entry_of lib) (map_of rows (v, op))" if "v \<notin> D - {u}" for v op
    using p that by (auto simp: s' bumpPermissionsVersion_def replaced_entry own others published_def)
  ultimately have "published lib (D - {u}) E s'" using p by (auto simp: published_def s' bumpPermissionsVersion_def PERMISSION_SET_USER_GRANTS_def)
  moreover from this have "published lib D E s'" by (auto intro: published_mono)
  ultimately show ?thesis using records others own x by (auto simp: s' bumpPermissionsVersion_def)
qed

lemma set_bodies:
  "parsePermissionSetPayload body = Inr (name, description, grants) \<Longrightarrow>
     tbind (PERMISSION_SET_INSERT i name description) (\<lambda>_. tfor (PERMISSION_SET_GRANT_INSERT i) grants) t = Inr (y, t') \<Longrightarrow> sets_write t t'"
  "parsePermissionSetPayload body = Inr (name, description, grants) \<Longrightarrow>
     tbind (PERMISSION_SET_UPDATE i name description) (\<lambda>_. tbind (PERMISSION_SET_GRANTS_DELETE i) (\<lambda>_. tfor (PERMISSION_SET_GRANT_INSERT i) grants)) t =
       Inr (y, t') \<Longrightarrow> sets_write t t'"
  "tbind (PERMISSION_SET_MEMBERS_DELETE_FOR_USER u) (\<lambda>_. tfor (PERMISSION_SET_MEMBER_INSERT u) ids) t = Inr (y, t') \<Longrightarrow> sets_write t t'"
  by (auto dest!: parsed_set set_statements set_loops intro: sets_write_trans)

lemma kept_refusal: "published lib D E s \<Longrightarrow> published lib D E (snd (refuse e s)) \<and> tb_overrides (ac_tables (snd (refuse e s))) = tb_overrides (ac_tables s)"
  by (simp add: refuse_def)

lemma kept_write:
  assumes "published lib D E s" and "\<And>y t. body (ac_tables s) = Inr (y, t) \<Longrightarrow> sets_write (ac_tables s) t"
  shows "published lib D E (snd (write_sets commit reload reread conflict failure body s)) \<and>
    tb_overrides (ac_tables (snd (write_sets commit reload reread conflict failure body s))) = tb_overrides (ac_tables s)"
proof -
  obtain x s' where run: "write_sets commit reload reread conflict failure body s = (x, s')" by fastforce
  from written_sets [OF run assms] run show ?thesis by simp
qed

lemma kept_set_writes:
  assumes "published lib D E s"
  shows "parsePermissionSetPayload payload = Inr (name, description, grants) \<Longrightarrow>
      let s' = snd (write_sets commit reload reread conflict failure (tbind (PERMISSION_SET_INSERT i name description) (\<lambda>_. tfor (PERMISSION_SET_GRANT_INSERT i) grants)) s) in
      published lib D E s' \<and> tb_overrides (ac_tables s') = tb_overrides (ac_tables s)"
    "parsePermissionSetPayload payload = Inr (name, description, grants) \<Longrightarrow>
      let s' = snd (write_sets commit reload reread conflict failure (tbind (PERMISSION_SET_UPDATE i name description) (\<lambda>_.
        tbind (PERMISSION_SET_GRANTS_DELETE i) (\<lambda>_. tfor (PERMISSION_SET_GRANT_INSERT i) grants))) s) in
      published lib D E s' \<and> tb_overrides (ac_tables s') = tb_overrides (ac_tables s)"
    "let s' = snd (write_sets commit reload reread conflict failure (PERMISSION_SET_DELETE i) s) in
      published lib D E s' \<and> tb_overrides (ac_tables s') = tb_overrides (ac_tables s)"
    "let s' = snd (write_sets commit reload reread conflict failure (tbind (PERMISSION_SET_MEMBERS_DELETE_FOR_USER u) (\<lambda>_. tfor (PERMISSION_SET_MEMBER_INSERT u) ids)) s) in
      published lib D E s' \<and> tb_overrides (ac_tables s') = tb_overrides (ac_tables s)"
  unfolding Let_def by (rule kept_write [OF assms], erule (1) set_bodies, rule kept_write [OF assms], erule (1) set_bodies,
    rule kept_write [OF assms], erule set_statements, rule kept_write [OF assms], erule set_bodies)

lemma set_requests_published:
  assumes p: "published lib D E s"
  shows "published lib D E (snd (create_permission_set commit reload reread body s)) \<and> tb_overrides (ac_tables (snd (create_permission_set commit reload reread body s))) = tb_overrides (ac_tables s)"
    "published lib D E (snd (update_permission_set commit reload reread i body s)) \<and> tb_overrides (ac_tables (snd (update_permission_set commit reload reread i body s))) = tb_overrides (ac_tables s)"
    "published lib D E (snd (delete_permission_set commit reload i s)) \<and> tb_overrides (ac_tables (snd (delete_permission_set commit reload i s))) = tb_overrides (ac_tables s)"
    "published lib D E (snd (put_user_permission_sets commit reload reread u body s)) \<and> tb_overrides (ac_tables (snd (put_user_permission_sets commit reload reread u body s))) = tb_overrides (ac_tables s)"
proof -
  have p': "published lib D E (s\<lparr>ac_uuid := n\<rparr>)" for n using p by (simp add: published_def)
  show "published lib D E (snd (create_permission_set commit reload reread body s)) \<and> tb_overrides (ac_tables (snd (create_permission_set commit reload reread body s))) = tb_overrides (ac_tables s)"
  proof (cases "parsePermissionSetPayload body")
    case (Inl e)
    then show ?thesis by (simp add: kept_refusal [OF p] create_permission_set_def)
  next
    case (Inr r)
    obtain name description grants where r: "r = (name, description, grants)" by (cases r)
    show ?thesis using Inr kept_set_writes(1) [OF p' Inr [unfolded r]] unfolding r create_permission_set_def by (simp add: Let_def)
  qed
  show "published lib D E (snd (update_permission_set commit reload reread i body s)) \<and> tb_overrides (ac_tables (snd (update_permission_set commit reload reread i body s))) = tb_overrides (ac_tables s)"
  proof (cases "parsePermissionSetPayload body")
    case (Inl e)
    then show ?thesis by (simp add: kept_refusal [OF p] update_permission_set_def)
  next
    case (Inr r)
    obtain name description grants where r: "r = (name, description, grants)" by (cases r)
    show ?thesis using Inr kept_set_writes(2) [OF p Inr [unfolded r]] unfolding r update_permission_set_def by (simp add: Let_def kept_refusal [OF p])
  qed
  show "published lib D E (snd (delete_permission_set commit reload i s)) \<and> tb_overrides (ac_tables (snd (delete_permission_set commit reload i s))) = tb_overrides (ac_tables s)"
    using kept_set_writes(3) [OF p] by (simp add: kept_refusal [OF p] delete_permission_set_def Let_def)
  show "published lib D E (snd (put_user_permission_sets commit reload reread u body s)) \<and> tb_overrides (ac_tables (snd (put_user_permission_sets commit reload reread u body s))) = tb_overrides (ac_tables s)"
    using kept_set_writes(4) [OF p]
    by (simp add: kept_refusal [OF p] put_user_permission_sets_def Let_def split: sum.split option.split)
qed

lemma removal:
  "snd (snd (delete_Id2 answered u cache s)) = (if answered then s\<lparr>ac_tables := (ac_tables s)\<lparr>tb_users := filter (\<lambda>a. at_id a \<noteq> u) (tb_users (ac_tables s)),
    tb_overrides := filter (\<lambda>((v, op), r). v \<noteq> u) (tb_overrides (ac_tables s)), tb_members := filter (\<lambda>(v, j). v \<noteq> u) (tb_members (ac_tables s))\<rparr>\<rparr> else s)"
  by (simp add: delete_Id2_def USER_DELETE_def Let_def)

lemma joined_grant: "(v, op) \<in> set (PERMISSION_SET_USER_GRANTS t) \<longleftrightarrow> (\<exists>i. (v, i) \<in> set (tb_members t) \<and> (i, op) \<in> set (tb_grants t))"
  by (force simp: PERMISSION_SET_USER_GRANTS_def)

lemma removed_published:
  assumes p: "published lib D E s"
  shows "published lib (insert u D) (insert u E) (snd (snd (delete_Id2 answered u cache s)))"
    "v \<noteq> u \<Longrightarrow> map_of (tb_overrides (ac_tables (snd (snd (delete_Id2 answered u cache s))))) (v, op) = map_of (tb_overrides (ac_tables s)) (v, op)"
proof -
  have rows: "map_of (filter (\<lambda>((v, op), r). v \<noteq> u) (tb_overrides (ac_tables s))) (v, op) = map_of (tb_overrides (ac_tables s)) (v, op)" if "v \<noteq> u" for v op
    using map_of_filter_pairs [of "\<lambda>k. fst k \<noteq> u" "tb_overrides (ac_tables s)" "(v, op)"] that by (simp add: case_prod_unfold)
  then show "v \<noteq> u \<Longrightarrow> map_of (tb_overrides (ac_tables (snd (snd (delete_Id2 answered u cache s))))) (v, op) = map_of (tb_overrides (ac_tables s)) (v, op)"
    by (simp add: removal)
  let ?t = "(ac_tables s)\<lparr>tb_users := filter (\<lambda>a. at_id a \<noteq> u) (tb_users (ac_tables s)),
    tb_overrides := filter (\<lambda>((v, op), r). v \<noteq> u) (tb_overrides (ac_tables s)), tb_members := filter (\<lambda>(v, j). v \<noteq> u) (tb_members (ac_tables s))\<rparr>"
  have joined: "joined_grants ?t v = joined_grants (ac_tables s) v" if "v \<noteq> u" for v
    using that by (auto simp: joined_grant)
  have "tables_ok ?t" using p by (auto simp: published_def tables_ok_def distinct_map_filter)
  with p rows joined have "published lib (insert u D) (insert u E) (s\<lparr>ac_tables := ?t\<rparr>)" by (auto simp: published_def)
  moreover have "published lib (insert u D) (insert u E) s" by (rule published_mono [OF p]) auto
  ultimately show "published lib (insert u D) (insert u E) (snd (snd (delete_Id2 answered u cache s)))" by (simp add: removal)
qed

lemma step_published:
  assumes lib: "time_lib_ok lib" and step: "access_step lib s e s'" and p: "published lib D E s"
  shows "published lib (removed_since D e) (removed_since E e) s' \<and>
    (\<forall>v op. v \<notin> set (touched e) \<longrightarrow> map_of (tb_overrides (ac_tables s')) (v, op) = map_of (tb_overrides (ac_tables s)) (v, op))"
  using step
proof cases
  case matrix
  then show ?thesis using put_permissions_published [OF p] by simp
next
  case (overrides u now commit reread body)
  then show ?thesis using put_overrides_published [OF lib p prod.collapse [symmetric]] by auto
next
  case (accounts us)
  then show ?thesis using p by (auto simp: published_def tables_ok_def PERMISSION_SET_USER_GRANTS_def)
next
  case (remove u answered cache)
  then show ?thesis using removed_published [OF p] by simp
next
  case restart
  have "published lib {} {} (boot lib (ac_tables s) (ac_uuid s))" using p by (intro boot_published) (simp add: published_def)
  then show ?thesis unfolding restart by (simp add: boot_def Let_def)
qed (use set_requests_published [OF p] in simp_all)

lemma reach_published: "time_lib_ok lib \<Longrightarrow> access_reach lib D s \<Longrightarrow> published lib D D s"
  by (rotate_tac, induction rule: access_reach.induct) (auto intro: boot_published dest: step_published)

lemma steps_published:
  "access_steps lib s1 us s2 \<Longrightarrow> time_lib_ok lib \<Longrightarrow> published lib (- {u}) UNIV s1 \<Longrightarrow> u \<notin> set us \<Longrightarrow>
    published lib (- {u}) UNIV s2 \<and> map_of (tb_overrides (ac_tables s2)) (u, op) = map_of (tb_overrides (ac_tables s1)) (u, op)"
proof (induction rule: access_steps.induct)
  case (more s us s' e s'')
  then have p: "published lib (- {u}) UNIV s'" and u: "u \<notin> set (touched e)" by auto
  from u have "removed_since (- {u}) e \<subseteq> - {u}" by (cases e) auto
  with step_published [OF more.prems(1) more.hyps(2) p] have "published lib (- {u}) UNIV s''" by (blast intro: published_mono)
  moreover from step_published [OF more.prems(1) more.hyps(2) p] u have "map_of (tb_overrides (ac_tables s'')) (u, op) = map_of (tb_overrides (ac_tables s')) (u, op)" by blast
  ultimately show ?case using more by simp
qed simp

section \<open>The answer of the tables\<close>

text \<open>The documented order of resolution, on the rows themselves: a live exception decides, then a grant of a set or of the role.\<close>

definition live_row :: "int \<Rightarrow> string \<Rightarrow> string \<Rightarrow> access_tables \<Rightarrow> override_row option" where
  "live_row now u op t = (case map_of (tb_overrides t) (u, op) of None \<Rightarrow> None
     | Some r \<Rightarrow> if (case vr_expires r of None \<Rightarrow> True | Some expiry \<Rightarrow> now < expiry) then Some r else None)"

definition granted_by_tables :: "int \<Rightarrow> string \<Rightarrow> string \<Rightarrow> string \<Rightarrow> access_tables \<Rightarrow> bool" where
  "granted_by_tables now u role op t \<longleftrightarrow> (case live_row now u op t of Some r \<Rightarrow> vr_effect r = ''grant''
     | None \<Rightarrow> (u, op) \<in> set (PERMISSION_SET_USER_GRANTS t) \<or> map_of (tb_matrix t) (op, role) = Some True)"

lemma expired_entry: "time_lib_ok lib \<Longrightarrow> isOverrideExpired lib now (oe_expiresAt (override_entry_of lib r)) \<longleftrightarrow>
    (case vr_expires r of None \<Rightarrow> False | Some expiry \<Rightarrow> expiry \<le> now)"
  by (cases "vr_expires r") (simp_all add: isOverrideExpired_def override_entry_of_def toIsoTimestamp_def time_lib_ok_def)

lemma resolves:
  assumes lib: "time_lib_ok lib" and t: "tables_ok t" and role: "role \<noteq> []" "role \<noteq> ''SUPER_ADMIN''"
    and m: "\<And>op role. truthy (own (own m op) role) \<longleftrightarrow> map_of (tb_matrix t) (op, role) = Some True"
    and o: "\<And>op. user_entry overrides u op = map_option (override_entry_of lib) (map_of (tb_overrides t) (u, op))"
    and g: "set (user_grants grants u) \<subseteq> joined_grants t u"
  shows "effectivePermission lib now (Some (u, role)) op m overrides grants \<longleftrightarrow> (case live_row now u op t of Some r \<Rightarrow> vr_effect r = ''grant''
     | None \<Rightarrow> op \<in> set (user_grants grants u) \<or> map_of (tb_matrix t) (op, role) = Some True)"
proof -
  have row: "op \<in> set PERMISSION_OPERATIONS \<and> vr_effect r \<in> {''grant'', ''deny''}" if "map_of (tb_overrides t) (u, op) = Some r" for r
    using t map_of_SomeD [OF that] by (fastforce simp: tables_ok_def)
  have set_op: "op \<in> set PERMISSION_OPERATIONS" if "op \<in> set (user_grants grants u)"
    using that g t by (fastforce simp: PERMISSION_SET_USER_GRANTS_def tables_ok_def)
  have effect: "oe_effect (override_entry_of lib r) = ''grant'' \<longleftrightarrow> vr_effect r = ''grant''" if "vr_effect r \<in> {''grant'', ''deny''}" for r
    using that by (auto simp: override_entry_of_def permissionOverrideEffect_def)
  show ?thesis
  proof (cases "map_of (tb_overrides t) (u, op)")
    case None
    then show ?thesis using role set_op by (auto simp: effectivePermission_def o m live_row_def known_operation_def)
  next
    case (Some r)
    then show ?thesis using role row [OF Some] set_op effect [of r]
      by (auto simp: effectivePermission_def o m live_row_def known_operation_def expired_entry [OF lib] split: option.splits)
  qed
qed

lemma enforced:
  assumes "time_lib_ok lib" and "published lib D E s" and "role \<noteq> []" "role \<noteq> ''SUPER_ADMIN''" and "u \<notin> D" "u \<notin> E"
  shows "effectivePermission lib now (Some (u, role)) op (ac_matrix s) (ac_overrides s) (ac_setGrants s) \<longleftrightarrow>
    (case live_row now u op (ac_tables s) of Some r \<Rightarrow> vr_effect r = ''grant''
     | None \<Rightarrow> op \<in> set (user_grants (ac_setGrants s) u) \<or> map_of (tb_matrix (ac_tables s)) (op, role) = Some True)"
  using assms(2,5,6) by (intro resolves [OF assms(1) _ assms(3,4)]) (auto simp: published_def)

text \<open>A live deny of the tables closes the operation whatever the sets' copy holds.\<close>

lemma closed:
  assumes lib: "time_lib_ok lib" and p: "published lib D E s" and u: "u \<notin> D" and x: "live_row now u op (ac_tables s) = Some x" "vr_effect x \<noteq> ''grant''"
    and role: "role \<noteq> ''SUPER_ADMIN''"
  shows "\<not> effectivePermission lib now (Some (u, role)) op (ac_matrix s) (ac_overrides s) (ac_setGrants s)"
proof -
  from x(1) have row: "map_of (tb_overrides (ac_tables s)) (u, op) = Some x" and live: "case vr_expires x of None \<Rightarrow> True | Some expiry \<Rightarrow> now < expiry"
    by (auto simp: live_row_def split: option.splits if_splits)
  from map_of_SomeD [OF row] p have known: "op \<in> set PERMISSION_OPERATIONS" and deny: "vr_effect x = ''deny''"
    using x(2) by (fastforce simp: published_def tables_ok_def)+
  from p u row have "user_entry (ac_overrides s) u op = Some (override_entry_of lib x)" by (simp add: published_def)
  with live known show ?thesis
    by (auto simp: effectivePermission_def known_operation_def expired_entry [OF lib] role split: option.splits)
      (simp_all add: override_entry_of_def permissionOverrideEffect_def deny)
qed

text \<open>The reads fold the rows of one user.\<close>

lemma distinct_keys_ordered: "distinct (map fst xs) \<Longrightarrow> distinct (map fst (order_by le xs))"
proof -
  have ins: "fst x \<notin> fst ` set ys \<Longrightarrow> distinct (map fst ys) \<Longrightarrow> distinct (map fst (insert_by le x ys))" for x and ys :: "('a \<times> 'b) list"
    by (induction ys) auto
  have "set (foldr (insert_by le) xs []) = set xs" using set_order_by [of le xs] by (simp add: order_by_def)
  then have "distinct (map fst xs) \<Longrightarrow> distinct (map fst (foldr (insert_by le) xs []))" for xs :: "('a \<times> 'b) list"
  proof (induction xs)
    case (Cons x xs)
    have "set (foldr (insert_by le) xs []) = set xs" using set_order_by [of le xs] by (simp add: order_by_def)
    with Cons show ?case by (auto intro!: ins)
  qed simp
  then show "distinct (map fst xs) \<Longrightarrow> ?thesis" by (simp add: order_by_def)
qed

lemma own_overrides:
  assumes "distinct (map fst (tb_overrides t))"
  shows "user_entry (rowsToUserPermissionOverrideMap lib (USER_PERMISSION_OVERRIDES_FOR_USER u t)) u op =
    map_option (override_entry_of lib) (map_of (tb_overrides t) (u, op))"
proof -
  let ?rows = "filter (\<lambda>((v, op), r). v = u) (tb_overrides t)"
  have d: "distinct (map fst ?rows)" using assms by (simp add: distinct_map_filter)
  then have d': "distinct (map fst (USER_PERMISSION_OVERRIDES_FOR_USER u t))"
    unfolding USER_PERMISSION_OVERRIDES_FOR_USER_def by (rule distinct_keys_ordered)
  have "map_of (USER_PERMISSION_OVERRIDES_FOR_USER u t) (u, op) = map_of ?rows (u, op)"
    using map_of_inject_set [OF d' d] by (simp add: USER_PERMISSION_OVERRIDES_FOR_USER_def)
  also have "\<dots> = map_of (tb_overrides t) (u, op)"
    using map_of_filter_pairs [of "\<lambda>k. fst k = u" "tb_overrides t" "(u, op)"] by (simp add: case_prod_unfold)
  finally show ?thesis by (simp add: override_map_lookup [OF d'])
qed

lemma own_grants: "set (user_grants (user_set_grants u s) u) = joined_grants (ac_tables s) u"
  by (auto simp: user_set_grants_def grant_map_lookup)

lemma live_answer:
  assumes lib: "time_lib_ok lib" and t: "tables_ok (ac_tables s)" and role: "role \<noteq> []" "role \<noteq> ''SUPER_ADMIN''"
  shows "op \<in> set (live_operations lib now (u, role) s) \<longleftrightarrow> granted_by_tables now u role op (ac_tables s)"
proof -
  let ?m = "live_matrix s" and ?g = "user_set_grants u s"
  let ?o = "rowsToUserPermissionOverrideMap lib (USER_PERMISSION_OVERRIDES_FOR_USER u (ac_tables s))"
  have d: "distinct (map fst (tb_overrides (ac_tables s)))" "distinct (map fst (tb_matrix (ac_tables s)))" using t by (simp_all add: tables_ok_def)
  have m: "truthy (own (own ?m op) role) \<longleftrightarrow> map_of (tb_matrix (ac_tables s)) (op, role) = Some True" for op role
    by (simp add: live_matrix_def matrix_map [OF d(2)] split: option.splits)
  have eff: "effectivePermission lib now (Some (u, role)) op ?m ?o ?g \<longleftrightarrow> granted_by_tables now u role op (ac_tables s)"
    using resolves [OF lib t role m own_overrides [OF d(1)], where grants = ?g] own_grants by (simp add: granted_by_tables_def split: option.splits)
  have candidate: "op \<in> fst ` set (object_entries ?m) \<or> (\<exists>ops. map_of ?o u = Some ops \<and> op \<in> fst ` set ops) \<or> op \<in> set (user_grants ?g u)"
    if "granted_by_tables now u role op (ac_tables s)"
  proof -
    from that have "map_of (tb_overrides (ac_tables s)) (u, op) \<noteq> None \<or> op \<in> set (user_grants ?g u) \<or> truthy (own (own ?m op) role)"
      unfolding own_grants m by (auto simp: granted_by_tables_def live_row_def split: option.splits)
    moreover have "\<exists>ops. map_of ?o u = Some ops \<and> op \<in> fst ` set ops" if "map_of (tb_overrides (ac_tables s)) (u, op) \<noteq> None"
    proof -
      from that have "user_entry ?o u op \<noteq> None" unfolding own_overrides [OF d(1)] by simp
      then show ?thesis by (auto simp: user_entry_def split: option.splits) (metis domI dom_map_of_conv_image_fst)
    qed
    moreover have "op \<in> fst ` set (object_entries ?m)" if r: "truthy (own (own ?m op) role)"
    proof -
      from r have "truthy (own ?m op)" by (cases "own ?m op") (auto simp: own_simple)
      from own_truthy [OF this] show ?thesis by force
    qed
    ultimately show ?thesis by blast
  qed
  have "op \<in> set (live_operations lib now (u, role) s) \<longleftrightarrow> granted_by_tables now u role op (ac_tables s) \<and>
      (op \<in> fst ` set (object_entries ?m) \<or> (\<exists>ops. map_of ?o u = Some ops \<and> op \<in> fst ` set ops) \<or> op \<in> set (user_grants ?g u))"
    by (cases "map_of ?o u") (auto simp: live_operations_def effectiveOperations_def eff)
  with candidate show ?thesis by blast
qed

section \<open>A concrete office\<close>

text \<open>A clock that writes an instant in unary, and one field technician with one exception.\<close>

definition demo_parse :: "string \<Rightarrow> int option" where
  "demo_parse s = (case s of [] \<Rightarrow> None | c # ds \<Rightarrow> Some (if c = CHR 0x2D then - int (length ds) else int (length ds)))"

definition demo_clock :: time_lib where
  "demo_clock = \<lparr>tl_parse = demo_parse, tl_iso = (\<lambda>n. (if n < 0 then CHR 0x2D else CHR 0x2B) # replicate (nat \<bar>n\<bar>) CHR 0x30), tl_stored = demo_parse\<rparr>"

definition demo_office :: access_tables where
  "demo_office = \<lparr>tb_users = [\<lparr>at_id = ''u1'', at_email = ''a@b.np'', at_name = ''Asha'', at_role = ''FIELD_TECHNICIAN''\<rparr>], tb_matrix = [],
     tb_overrides = [((''u1'', ''po-create''), \<lparr>vr_effect = ''grant'', vr_reason = ''cover'', vr_expires = Some 9\<rparr>)], tb_sets = [], tb_grants = [],
     tb_members = []\<rparr>"

definition demo_clerk :: session_user where
  "demo_clerk = \<lparr>su_id = ''u1'', su_email = ''a@b.np'', su_name = ''Asha'', su_role = ''FIELD_TECHNICIAN'', su_branchId = ''B1'', su_allowedBranchIds = []\<rparr>"

definition demo_access :: access where
  "demo_access = boot demo_clock demo_office 0"

definition demo_denial :: jsval where
  "demo_denial = JObj [(''overrides'', JArr [JObj [(''operationId'', JStr ''po-create''), (''effect'', JStr ''deny''), (''reason'', JStr ''audit'')]])]"

definition demo_record :: override_record where
  "demo_record = \<lparr>ov_operationId = ''po-create'', ov_effect = ''deny'', ov_reason = ''audit'', ov_expiresAt = None\<rparr>"

lemma demo_clock_ok: "time_lib_ok demo_clock"
  by (simp add: time_lib_ok_def demo_clock_def demo_parse_def)

lemma po_create_known: "''po-create'' \<in> set PERMISSION_OPERATIONS"
  by (simp add: PERMISSION_OPERATIONS_def DEFAULT_PERMISSIONS_MATRIX_def default_answers_def)

lemma demo_access_reach: "access_reach demo_clock {} demo_access"
  unfolding demo_access_def by (rule access_reach.start) (simp add: tables_ok_def demo_office_def po_create_known)

lemma demo_copies:
  "tb_users (ac_tables demo_access) = tb_users demo_office" "tb_overrides (ac_tables demo_access) = tb_overrides demo_office"
  "tb_sets (ac_tables demo_access) = []" "ac_overrides demo_access = rowsToUserPermissionOverrideMap demo_clock (tb_overrides demo_office)"
  by (simp_all add: demo_access_def boot_def demo_office_def Let_def)

lemma demo_members: "tb_members (ac_tables demo_access) = []"
  by (simp add: demo_access_def boot_def demo_office_def Let_def)

lemma demo_gate: "requirePermissionAny demo_clock 5 [''po-create''] [] (Some demo_clerk) (JObj []) demo_access = Next"
  by (simp add: requirePermissionAny_def demo_clerk_def effectivePermission_def known_operation_def po_create_known demo_copies demo_office_def
      rowsToUserPermissionOverrideMap_def user_entry_def override_entry_of_def permissionOverrideEffect_def toIsoTimestamp_def isOverrideExpired_def
      demo_clock_def demo_parse_def branch_flag_gate_def relevant_branches_def procurementOps_def Let_def js_or_def List.map_filter_def)

lemma demo_words:
  "trimmed (JStr ''po-create'') = ''po-create''" "trimmed (JStr ''audit'') = ''audit''"
  "unknown_keys [''overrides''] demo_denial = []"
  "unknown_keys [''operationId'', ''effect'', ''reason'', ''expiresAt'']
     (JObj [(''operationId'', JStr ''po-create''), (''effect'', JStr ''deny''), (''reason'', JStr ''audit'')]) = []"
  by code_simp+

lemma demo_parsed: "parseOverridePayload demo_clock 5 demo_denial = Inr [demo_record]"
  unfolding parseOverridePayload_def demo_words by (simp add: demo_denial_def guard_def demo_words po_create_known parse_expiry_def demo_record_def)

lemma demo_write: "fst (put_user_permission_overrides demo_clock 5 True True ''u1'' demo_denial demo_access) = Inr [demo_record]"
  by (simp add: put_user_permission_overrides_def demo_parsed PERMISSION_TARGET_USER_def demo_copies demo_office_def persistUserPermissionOverrides_def
      runInTransaction_def USER_PERMISSION_OVERRIDES_DELETE_FOR_USER_def USER_PERMISSION_OVERRIDE_UPSERT_def demo_record_def
      tbind_def texec_def treturn_def)

lemma demo_role_row: "map_of (tb_matrix (ac_tables demo_access)) (''po-create'', ''FIELD_TECHNICIAN'') = Some False"
proof -
  have seeded: "map_of (foldl (\<lambda>rows (k, allowed). if map_of rows k = None then rows @ [(k, allowed)] else rows) m xs) k = (map_of xs ++ map_of m) k"
    for m :: matrix_rows and xs k
  proof (induction xs arbitrary: m)
    case (Cons x xs)
    obtain j a where x: "x = (j, a)" by (cases x)
    show ?case by (cases "map_of m j") (auto simp: x Cons.IH map_add_def split: option.splits)
  qed simp
  obtain rest where matrix: "DEFAULT_PERMISSIONS_MATRIX = (''po-create'', zip APP_ROLES (map (\<lambda>c. c = CHR ''1'') ''111101100'')) # rest"
    by (simp add: DEFAULT_PERMISSIONS_MATRIX_def default_answers_def)
  show ?thesis
    by (simp add: demo_access_def boot_def demo_office_def Let_def seed_rows_def seeded matrix buildPermissionSeedEntries_def FINANCE_PERMISSION_INHERITANCE_def APP_ROLES_def)
qed

section \<open>The claims\<close>



text \<open>Removing the account takes its exception out of the tables and the account out of the cache; its token is then valid for want of a
row to compare with, and the published exception still opens the gate.\<close>

lemma deleted_account_keeps_access:
  assumes "cu_id c = ''u1''"
  shows "case delete_Id2 True ''u1'' [c] demo_access of (answer, cache, s) \<Rightarrow>
    answer = Inr () \<and> sessionStillValid hmac demo_clerk ver cache \<and>
    requirePermissionAny demo_clock 5 [''po-create''] [] (Some demo_clerk) (JObj []) s = Next \<and>
    \<not> granted_by_tables 5 (su_id demo_clerk) (su_role demo_clerk) ''po-create'' (ac_tables s)"
proof -
  have "requirePermissionAny lib now ops branches user body (demo_access\<lparr>ac_tables := t\<rparr>) = requirePermissionAny lib now ops branches user body demo_access"
    for lib now ops branches user body t
    by (cases user) (simp_all add: requirePermissionAny_def)
  then show ?thesis using assms demo_gate demo_role_row
    by (simp add: delete_Id2_def USER_DELETE_def sessionStillValid_def granted_by_tables_def live_row_def demo_copies demo_office_def demo_clerk_def
        PERMISSION_SET_USER_GRANTS_def demo_members)
qed

text \<open>C20. A deny without expiry, once its write is answered with success, closes the operation for the account at every later moment:
whatever roles, sets and memberships are written and however often the server restarts, no gate of that operation lets the account
through until the exceptions of this account are written again.\<close>

theorem deny_sticks:
  assumes "time_lib_ok lib" and "access_reach lib D s"
    and "put_user_permission_overrides lib now commit reread u body s = (Inr records, s1)"
    and "r \<in> set records" and "ov_effect r = ''deny''" and "ov_expiresAt r = None"
    and "access_steps lib s1 us s2" and "u \<notin> set us" and "su_id user = u" and "su_role user \<noteq> ''SUPER_ADMIN''"
  shows "requirePermissionAny lib later [ov_operationId r] branches (Some user) request s2 \<noteq> Next"
proof -
  let ?op = "ov_operationId r"
  have p: "published lib D D s" by (rule reach_published [OF assms(1,2)])
  from put_overrides_published [OF assms(1) p assms(3)] have "published lib (D - {u}) D s1" and d: "distinct (map ov_operationId records)"
    and row: "map_option (override_entry_of lib) (map_of (tb_overrides (ac_tables s1)) (u, ?op)) = map_of (entries_of_records records) ?op" by auto
  have "map_of (rev (map (\<lambda>r. (ov_operationId r, \<lparr>oe_effect = ov_effect r, oe_expiresAt = ov_expiresAt r\<rparr>)) records)) ?op =
      Some \<lparr>oe_effect = ''deny'', oe_expiresAt = None\<rparr>"
    using d assms(4-6) by (intro map_of_is_SomeI) (force simp: rev_map [symmetric] o_def)+
  with row obtain x where x: "map_of (tb_overrides (ac_tables s1)) (u, ?op) = Some x" "override_entry_of lib x = \<lparr>oe_effect = ''deny'', oe_expiresAt = None\<rparr>"
    by (auto simp: entries_of_records_def map_of_foldl_update)
  then have deny: "vr_effect x \<noteq> ''grant''" "vr_expires x = None"
    by (auto simp: override_entry_of_def permissionOverrideEffect_def toIsoTimestamp_def split: if_splits)
  have "published lib (- {u}) UNIV s1" by (rule published_mono [OF \<open>published lib (D - {u}) D s1\<close>]) auto
  from steps_published [OF assms(7,1) this assms(8)] x
  have p2: "published lib (- {u}) UNIV s2" and stays: "live_row later u ?op (ac_tables s2) = Some x" by (auto simp: live_row_def deny)
  have "\<not> effectivePermission lib later (Some (su_id user, su_role user)) ?op (ac_matrix s2) (ac_overrides s2) (ac_setGrants s2)"
    unfolding assms(9) by (rule closed [OF assms(1) p2 _ stays deny(1) assms(10)]) simp
  then show ?thesis using assms(10) by (auto simp: requirePermissionAny_def)
qed

theorem deny_sticks_witness:
  "let s1 = snd (put_user_permission_overrides demo_clock 5 True True ''u1'' demo_denial demo_access) in
    requirePermissionAny demo_clock 7 [''po-create''] [] (Some demo_clerk) (JObj []) (boot demo_clock (ac_tables s1) (ac_uuid s1)) \<noteq> Next"
proof -
  obtain s1 where s1: "put_user_permission_overrides demo_clock 5 True True ''u1'' demo_denial demo_access = (Inr [demo_record], s1)"
    using demo_write by (metis prod.collapse)
  have "access_steps demo_clock s1 ([] @ touched Restarted) (boot demo_clock (ac_tables s1) (ac_uuid s1))"
    by (rule access_steps.more [OF access_steps.none access_step.restart])
  then show ?thesis
    using deny_sticks [OF demo_clock_ok demo_access_reach s1, of demo_record "[]" "boot demo_clock (ac_tables s1) (ac_uuid s1)" demo_clerk 7 "[]" "JObj []"] s1
    by (simp add: demo_record_def demo_clerk_def)
qed

lemma no_commit [simp]: "runInTransaction False body t = Inr r \<longleftrightarrow> False"
  by (auto simp: runInTransaction_def split: sum.splits)

lemma write_sets_cases:
  "commit \<and> (\<exists>t. snd (write_sets commit reload reread conflict failure body s) = snd (publishPermissionSetGrants reload (s\<lparr>ac_tables := t\<rparr>)) \<and>
      (\<forall>e. fst (write_sets commit reload reread conflict failure body s) = Inl e \<longrightarrow> status_of e = 500)) \<or>
    snd (write_sets commit reload reread conflict failure body s) = s"
  by (cases commit; cases "body (ac_tables s)")
    (auto simp: write_sets_def runInTransaction_def refuse_def publishPermissionSetGrants_def throw_def split: prod.splits sum.splits)

lemma failed_set_write:
  "write_sets False reload reread conflict failure b s = (Inl e, x) \<Longrightarrow> x = s"
  "write_sets commit reload reread conflict failure b s = (Inl e, x) \<Longrightarrow> status_of e \<noteq> 500 \<Longrightarrow> x = s"
  using write_sets_cases [of False reload reread conflict failure b s] write_sets_cases [of commit reload reread conflict failure b s] by auto

text \<open>C29. A permission write that is answered with an error changes neither the tables nor a published copy when it is refused (any
status but 500) or its COMMIT fails: of the matrix, of a user's exceptions, of a set (created, changed, deleted) or of a user's sets; a
creation may use up an identifier. A matrix write changes nothing on a 500 either, nor does a write of exceptions but the one after a
committed write whose response could not be read back. Not stated: what a 500 after a committed write to the sets leaves.\<close>

theorem failed_write_harmless:
  "(\<forall>e. fst (put_permissions commit body s) = Inl e \<longrightarrow> snd (put_permissions commit body s) = s) \<and>
    (\<forall>e. fst (put_user_permission_overrides lib now commit reread u body s) = Inl e \<and> (\<not> commit \<or> status_of e \<noteq> 500 \<or> reread) \<longrightarrow>
      snd (put_user_permission_overrides lib now commit reread u body s) = s) \<and>
    (\<forall>e. fst (create_permission_set commit reload reread body s) = Inl e \<and> (\<not> commit \<or> status_of e \<noteq> 500) \<longrightarrow>
      (\<exists>n. snd (create_permission_set commit reload reread body s) = s\<lparr>ac_uuid := n\<rparr>)) \<and>
    (\<forall>e. fst (update_permission_set commit reload reread i body s) = Inl e \<and> (\<not> commit \<or> status_of e \<noteq> 500) \<longrightarrow>
      snd (update_permission_set commit reload reread i body s) = s) \<and>
    (\<forall>e. fst (delete_permission_set commit reload i s) = Inl e \<and> (\<not> commit \<or> status_of e \<noteq> 500) \<longrightarrow>
      snd (delete_permission_set commit reload i s) = s) \<and>
    (\<forall>e. fst (put_user_permission_sets commit reload reread u body s) = Inl e \<and> (\<not> commit \<or> status_of e \<noteq> 500) \<longrightarrow>
      snd (put_user_permission_sets commit reload reread u body s) = s)"
proof -
  have o: "x = s" if "put_user_permission_overrides lib now commit reread u body s = (Inl e, x)" "\<not> commit \<or> status_of e \<noteq> 500 \<or> reread" for x e
    using that unfolding put_user_permission_overrides_def persistUserPermissionOverrides_def refuse_def throw_def
    by (auto split: if_splits sum.splits option.splits)
  have c: "\<exists>n. x = s\<lparr>ac_uuid := n\<rparr>" if run: "create_permission_set commit reload reread body s = (Inl e, x)" and e: "\<not> commit \<or> status_of e \<noteq> 500" for x e
  proof (cases "parsePermissionSetPayload body")
    case (Inl e)
    with run have "x = s\<lparr>ac_uuid := ac_uuid s\<rparr>" by (simp add: create_permission_set_def refuse_def)
    then show ?thesis by blast
  next
    case (Inr r)
    with run e have "x = s\<lparr>ac_uuid := Suc (ac_uuid s)\<rparr>"
      by (cases commit) (auto simp: create_permission_set_def Let_def split: prod.splits dest: failed_set_write)
    then show ?thesis by blast
  qed
  have "snd (put_permissions commit body s) = s" if "fst (put_permissions commit body s) = Inl e" for e
    using that by (auto simp: put_permissions_def refuse_def Let_def split: if_splits sum.splits)
  moreover have "snd (update_permission_set commit reload reread i body s) = s"
    if "fst (update_permission_set commit reload reread i body s) = Inl e" "\<not> commit \<or> status_of e \<noteq> 500" for e
    using that by (cases "update_permission_set commit reload reread i body s") (auto simp: update_permission_set_def refuse_def split: if_splits sum.splits dest: failed_set_write)
  moreover have "snd (delete_permission_set commit reload i s) = s"
    if "fst (delete_permission_set commit reload i s) = Inl e" "\<not> commit \<or> status_of e \<noteq> 500" for e
    using that by (cases "delete_permission_set commit reload i s") (auto simp: delete_permission_set_def refuse_def split: if_splits dest: failed_set_write)
  moreover have "snd (put_user_permission_sets commit reload reread u body s) = s"
    if "fst (put_user_permission_sets commit reload reread u body s) = Inl e" "\<not> commit \<or> status_of e \<noteq> 500" for e
    using that by (cases "put_user_permission_sets commit reload reread u body s")
      (auto simp: put_user_permission_sets_def refuse_def Let_def split: if_splits sum.splits option.splits dest: failed_set_write)
  ultimately show ?thesis
    using o c by (cases "put_user_permission_overrides lib now commit reread u body s"; cases "create_permission_set commit reload reread body s") auto
qed

text \<open>A set with one grant, and writes that fail: at the COMMIT, or because the set or the account does not exist.\<close>

definition demo_bundle :: jsval where
  "demo_bundle = JObj [(''name'', JStr ''Buyers''), (''grants'', JArr [JStr ''po-create''])]"

lemma demo_bundle_parsed: "parsePermissionSetPayload demo_bundle = Inr (''Buyers'', [], [''po-create''])"
proof -
  have "unknown_keys [''name'', ''description'', ''grants''] demo_bundle = []" "trimmed (JStr ''Buyers'') = ''Buyers''" by code_simp+
  then show ?thesis unfolding parsePermissionSetPayload_def by (simp add: demo_bundle_def guard_def demo_words po_create_known Let_def)
qed

lemma demo_failures:
  "isl (fst (put_permissions False (JObj [(''matrix'', JObj [])]) demo_access))"
  "isl (fst (put_user_permission_overrides demo_clock 5 False True ''u1'' demo_denial demo_access))"
  "isl (fst (create_permission_set False True True demo_bundle demo_access))"
  "fst (update_permission_set True True True ''x'' demo_bundle demo_access) = Inl (ApiError 404 (''Permission set '' @ quoted ''x'' @ '' was not found.''))"
  "fst (delete_permission_set True True ''x'' demo_access) = Inl (ApiError 404 (''Permission set '' @ quoted ''x'' @ '' was not found.''))"
  "fst (put_user_permission_sets True True True ''u9'' (JObj [(''setIds'', JArr [])]) demo_access) = Inl (ApiError 404 (''User '' @ quoted ''u9'' @ '' was not found.''))"
proof -
  have "unknown_keys [''setIds''] (JObj [(''setIds'', JArr [])]) = []" by code_simp
  then show "fst (put_user_permission_sets True True True ''u9'' (JObj [(''setIds'', JArr [])]) demo_access) = Inl (ApiError 404 (''User '' @ quoted ''u9'' @ '' was not found.''))"
    by (simp add: put_user_permission_sets_def parseUserSetIdsPayload_def guard_def PERMISSION_TARGET_USER_def demo_copies demo_office_def refuse_def)
qed (simp_all add: put_permissions_def persistPermissionMatrix_def put_user_permission_overrides_def demo_parsed PERMISSION_TARGET_USER_def demo_copies
    demo_office_def persistUserPermissionOverrides_def runInTransaction_def refuse_def throw_def create_permission_set_def demo_bundle_parsed write_sets_def
    update_permission_set_def delete_permission_set_def PERMISSION_SET_BY_ID_def Let_def split: sum.split)

theorem failed_write_harmless_witness:
  "isl (fst (put_permissions False (JObj [(''matrix'', JObj [])]) demo_access)) \<and> snd (put_permissions False (JObj [(''matrix'', JObj [])]) demo_access) = demo_access \<and>
    isl (fst (put_user_permission_overrides demo_clock 5 False True ''u1'' demo_denial demo_access)) \<and>
    snd (put_user_permission_overrides demo_clock 5 False True ''u1'' demo_denial demo_access) = demo_access \<and>
    isl (fst (create_permission_set False True True demo_bundle demo_access)) \<and>
    (\<exists>n. snd (create_permission_set False True True demo_bundle demo_access) = demo_access\<lparr>ac_uuid := n\<rparr>) \<and>
    isl (fst (update_permission_set True True True ''x'' demo_bundle demo_access)) \<and> snd (update_permission_set True True True ''x'' demo_bundle demo_access) = demo_access \<and>
    isl (fst (delete_permission_set True True ''x'' demo_access)) \<and> snd (delete_permission_set True True ''x'' demo_access) = demo_access \<and>
    isl (fst (put_user_permission_sets True True True ''u9'' (JObj [(''setIds'', JArr [])]) demo_access)) \<and>
    snd (put_user_permission_sets True True True ''u9'' (JObj [(''setIds'', JArr [])]) demo_access) = demo_access"
  using demo_failures
    failed_write_harmless [of False "JObj [(''matrix'', JObj [])]" demo_access demo_clock 5 True "''u1''" True "''x''"]
    failed_write_harmless [of False demo_denial demo_access demo_clock 5 True "''u1''" True "''x''"]
    failed_write_harmless [of False demo_bundle demo_access demo_clock 5 True "''u1''" True "''x''"]
    failed_write_harmless [of True demo_bundle demo_access demo_clock 5 True "''u1''" True "''x''"]
    failed_write_harmless [of True "JObj [(''setIds'', JArr [])]" demo_access demo_clock 5 True "''u9''" True "''x''"]
  by (auto simp: isl_def)

end
