(* ===== verification/Spec2Isabelle.thy ===== *)
theory Spec2Isabelle
  imports SerialLifecycle Terms CashClaims AgingClaims CashCloseClaims BranchClaims AccessClaims
begin

text \<open>
  A verification library of the server of the ISP inventory management system: an Express application over PostgreSQL that keeps
  devices by serial number, buys, sells and moves stock, and books every document to a general ledger. The library models the
  code that carries those promises and proves them of the model. Paths below are relative to \<open>src/\<close>; a definition has the name
  of the function, constant or SQL statement it translates wherever Isabelle allows it.

  The parts and how they meet. Requests pass a chain of guards (\<open>BranchScope\<close>, \<open>AccessRequests\<close>), then a handler that runs a transaction. Handlers of
  stock move units through the serial gate, register and lifecycle (\<open>SerialGate\<close>, \<open>SerialRegister\<close>, \<open>SerialLifecycle\<close>, with the
  identity of a device in \<open>SerialIdentity\<close>); handlers of documents compute amounts and terms (\<open>Money\<close>, \<open>Terms\<close>, \<open>Dates\<close>) and post
  a journal (\<open>InvoicePosting\<close>, \<open>ReturnPosting\<close>, \<open>StockPosting\<close>, \<open>TransferPosting\<close>, \<open>PaymentPosting\<close>, \<open>PayrollPosting\<close>,
  \<open>AssetPosting\<close>, \<open>YearEnd\<close>) through the one entrance of the ledger, \<open>postJournal\<close> (\<open>LedgerPosting\<close>). The statements
  (\<open>Statements\<close>, \<open>CashFlow\<close>, \<open>Aging\<close>) only read the ledger, and the daily cash close (\<open>CashClose\<close>) stores what it reads.
\<close>

section \<open>Theories and sources\<close>

text \<open>
  \<^item> \<open>Prelude\<close>, \<open>JsValue\<close>, \<open>JsArith\<close>: the JavaScript the code uses -- untyped values, conversions, numbers with NaN and infinities,
    \<open>trim\<close> and case mapping -- and the monads: \<open>'a res\<close> is a value or an \<open>ApiError\<close> with its status, \<open>('s, 'a) tx\<close> a transaction whose
    error branch keeps no state, as a rollback leaves none.
  \<^item> \<open>SerialIdentity\<close>: \<open>shared/macAddress.ts\<close> and the serial keys of the services, with the laws of a key as the locale \<open>serial_key\<close>.
    \<open>SerialGate\<close>: \<open>serialGate.service.ts\<close>, both resolvers behind the locale \<open>gate_source\<close>. \<open>SerialRegister\<close>: \<open>serialRegister.service.ts\<close>
    and \<open>registerPurchaseSerials\<close> of \<open>procurement.controller.ts\<close>. \<open>SerialLifecycle\<close>: \<open>serialOperationLifecycle.service.ts\<close> and the
    three UPDATE statements it runs.
  \<^item> \<open>Dates\<close>, \<open>Terms\<close>, \<open>Money\<close>: \<open>shared/warrantyTerm.ts\<close>, \<open>shared/billTerms.ts\<close>, \<open>billTerms.service.ts\<close>, \<open>shared/lineQuantity.ts\<close>,
    \<open>utils/lineQuantity.ts\<close> and \<open>utils/money.ts\<close>, on a model of the language's UTC calendar.
  \<^item> \<open>LedgerState\<close>, \<open>LedgerChart\<close>, \<open>LedgerPosting\<close>: \<open>accounting.service.ts\<close> over the statements of \<open>models/accounting.repo.ts\<close>. The
    record \<open>ledger\<close> holds one list per table. \<open>LedgerInvariant\<close>, \<open>LedgerReach\<close>, \<open>LedgerGroups\<close>, \<open>LedgerMachine\<close> and \<open>LedgerPlaced\<close>
    define the step relation \<open>ledger_step\<close> -- one committed transaction -- and prove what every reachable ledger keeps;
    \<open>LedgerClaims\<close> draws the consequences.
  \<^item> \<open>DocumentPosting\<close>: what the posting services share, and the locales \<open>document_posting\<close> and \<open>journal_document\<close>: an act that leaves the
    ledger alone or appends one journal through it. Every posting operation is an interpretation, next to its definition.
    \<open>DocumentMachine\<close> gathers the operations; \<open>DocumentEntries\<close>, \<open>PayrollEntries\<close>, \<open>TransferEntries\<close> read off the entries each writes;
    \<open>DocumentClaims\<close>, \<open>SettlementClaims\<close>, \<open>TransferClaims\<close>, \<open>AssetClaims\<close>, \<open>ClosingClaims\<close> hold the properties.
  \<^item> \<open>StatementTree\<close>, \<open>Statements\<close>, \<open>CashFlow\<close>: \<open>accountingStatements.service.ts\<close> and \<open>accountingCashBook.service.ts\<close>; facts in
    \<open>StatementFacts\<close>, properties in \<open>StatementClaims\<close>, \<open>ProfitClaims\<close>, \<open>CashClaims\<close>.
  \<^item> \<open>Aging\<close>, \<open>AgingClaims\<close>: \<open>accountingAging.service.ts\<close>. \<open>CashClose\<close>, \<open>CashCloseClaims\<close>: \<open>cashClose.service.ts\<close>, \<open>cashClose.repo.ts\<close>
    and the requests of \<open>cashClose.controller.ts\<close>, as the state machine \<open>cash_step\<close> over the ledger and the table of closes.
  \<^item> \<open>BranchScope\<close>, \<open>BranchClaims\<close>: \<open>middleware/branchScope.ts\<close> and \<open>enforceBranchAccess\<close> of \<open>middleware/index.ts\<close>.
  \<^item> \<open>Access\<close>, \<open>AccessRequests\<close>: \<open>permissionOverrides.service.ts\<close>, \<open>permissionMatrix.service.ts\<close>, \<open>permissions.repo.ts\<close>, the boot seed, the
    requests of \<open>permissions.controller.ts\<close> and the gates of \<open>middleware/index.ts\<close>, as the state machine \<open>access_step\<close> over the tables and
    the copies the gates read; its invariant is in \<open>AccessFacts\<close>, the properties in \<open>AccessClaims\<close>.
  \<^item> \<open>LedgerDemo\<close>, \<open>ShopDemo\<close>, \<open>ShopRuns\<close>: a small ledger and documents run on it, the concrete inputs of the witnesses.
\<close>

section \<open>What is shown\<close>

text \<open>
  Of the serials: the gate passes exactly the documents whose units are in the register as the rules ask, the register keeps every
  identifier unique, issuing is all or nothing, and a reversal undoes an issue. Of the ledger: whatever runs, every journal balances,
  history is append-only, control accounts reconcile with their subledgers, and a reversal nets its original to zero, once. Of the
  documents: each posts at most one journal and its entries are known to the paisa; an invoice and its return, a payroll run and its
  payment, the two legs of a transfer settle each other; the year-end close leaves no income or expense. Of the statements: trial balance and
  balance sheet balance, profit and loss ties to current earnings, the cash flow reconciles with the cash book, aging reconciles with
  the control account. Of the cash desk: a branch closes a day once, with the cash book's balance. Of the branch guard: what it lets
  through touches only branches of the account. Of the permissions: a gate grants no more than the committed tables do, a deny holds
  until it is replaced, and a refused or failed write changes nothing.

  Bounds. The trees of a statement are built to the depth of the number of groups, which no chain of parents exceeds since the
  groups form a forest (\<open>StatementTree\<close>); the walk that guards the move of a group is bounded likewise and proved to end.
  The loop that allocates credits ends by the number of credits left and the open amount. Every other recursion is on a list.

  Conventions. Amounts are exact rationals where the program has binary floating point; the code rounds every amount to whole paisa,
  and the model rounds at the same places. Strings are lists of 8-bit characters: ASCII, and UTF-8 bytes above, with case mapping on
  ASCII; an em dash in a message is written \<open>--\<close>. \<open>localeCompare\<close> is a parameter that only orders rows. The
  clock is a parameter (\<open>today\<close>, \<open>now\<close>), an id drawn at random a counter. Locks and isolation are outside the model: a transaction
  is one step. What a query on a table outside the model returns is a parameter of the definition that asks it.
\<close>

section \<open>Not modelled\<close>

text \<open>
  The client under \<open>client/\<close> (screens and their local state); the controllers of
  inventory, sales, procurement and administration beyond the parts named above, whose work is SQL on tables the posting and serial
  services then read; the caches, bootstrap and synchronisation (\<open>bootstrap.controller.ts\<close>, \<open>sync.controller.ts\<close>, \<open>sharedState.ts\<close>);
  passwords and tokens (\<open>middleware/auth.ts\<close>: cryptography of the platform) and the rate limiters; PDF printing; the calendar of Bikram Sambat dates, which is a table of
  data; the drill-down listings of statements; depreciation schedules; the migration and seed scripts.
\<close>

end
